(* ===== verification/Prelude.thy ===== *)
theory Prelude
  imports Main "HOL-Library.Word" "HOL-Library.State_Monad" "HOL-Library.Multiset"
begin

text \<open>
  Shared material of the development: names for the machine types of the C++ sources, the
  operations of \<open>std::string\<close> that the sources use, the rules with which computations
  of \<open>HOL-Library.State_Monad\<close> are taken apart, and generic facts on lists.

  Machine types. \<open>uint8_t\<close>, \<open>uint16_t\<close>, \<open>uint32_t\<close> and \<open>uint64_t\<close> are words of that width, so
  that addition and subtraction wrap as in C++. \<open>int\<close> and \<open>int32_t\<close> values are HOL integers:
  the sources compare them and never compute with them, and they enter the system through
  a 32-bit decoder. Container sizes (\<open>size_t\<close>) are natural numbers; a size is bounded by
  the address space, and each subtraction of sizes in the sources is guarded.
\<close>

type_synonym u8 = "8 word"
type_synonym u16 = "16 word"
type_synonym u32 = "32 word"
type_synonym u64 = "64 word"
type_synonym bytes = "u8 list"

abbreviation UINT32_MAX :: u32 where
  "UINT32_MAX \<equiv> 4294967295"

abbreviation UINT64_MAX :: u64 where
  "UINT64_MAX \<equiv> 18446744073709551615"

abbreviation INT_MAX :: nat where
  "INT_MAX \<equiv> 2147483647"

lemma UINT64_MAX_eq: "UINT64_MAX = - 1"
  by simp

section \<open>Characters and strings\<close>

definition isspace :: "char \<Rightarrow> bool" where
  "isspace c \<longleftrightarrow> (let n = of_char c :: nat in n = 32 \<or> (9 \<le> n \<and> n \<le> 13))"

definition isdigit :: "char \<Rightarrow> bool" where
  "isdigit c \<longleftrightarrow> (let n = of_char c :: nat in 48 \<le> n \<and> n \<le> 57)"

definition isalnum :: "char \<Rightarrow> bool" where
  "isalnum c \<longleftrightarrow> (let n = of_char c :: nat in
     (48 \<le> n \<and> n \<le> 57) \<or> (65 \<le> n \<and> n \<le> 90) \<or> (97 \<le> n \<and> n \<le> 122))"

definition tolower :: "char \<Rightarrow> char" where
  "tolower c = (let n = of_char c :: nat in
     if 65 \<le> n \<and> n \<le> 90 then char_of (n + 32) else c)"

text \<open>The number that a string of decimal digits denotes, with \<open>acc\<close> for the digits before it.\<close>

definition dec_from :: "nat \<Rightarrow> string \<Rightarrow> nat" where
  "dec_from acc ds = fold (\<lambda>d v. v * 10 + (of_char d - 48)) ds acc"

abbreviation dec_value :: "string \<Rightarrow> nat" where
  "dec_value \<equiv> dec_from 0"

lemma dec_from_Nil [simp]: "dec_from acc [] = acc"
  by (simp add: dec_from_def)

lemma dec_from_Cons [simp]: "dec_from acc (d # ds) = dec_from (acc * 10 + (of_char d - 48)) ds"
  by (simp add: dec_from_def)

lemma dec_from_ge: "acc \<le> dec_from acc ds"
proof (induction ds arbitrary: acc)
  case (Cons d ds)
  have "acc \<le> acc * 10 + (of_char d - 48)" by simp
  also have "\<dots> \<le> dec_from acc (d # ds)" using Cons by simp
  finally show ?case .
qed simp

text \<open>
  \<open>str_find s pat pos\<close> is \<open>s.find(pat, pos)\<close>, the least index at or after \<open>pos\<close> at which
  \<open>pat\<close> occurs, with \<open>None\<close> for \<open>std::string::npos\<close>; \<open>str_find_char\<close> is the overload for one
  character, \<open>str_find_last_of\<close> is \<open>s.find_last_of(set)\<close> and \<open>substr\<close> is \<open>s.substr(pos, n)\<close>.
\<close>

definition str_find :: "string \<Rightarrow> string \<Rightarrow> nat \<Rightarrow> nat option" where
  "str_find s pat pos =
     List.find (\<lambda>i. take (length pat) (drop i s) = pat) [pos..<Suc (length s)]"

definition str_find_char :: "string \<Rightarrow> char \<Rightarrow> nat \<Rightarrow> nat option" where
  "str_find_char s c pos = List.find (\<lambda>i. s ! i = c) [pos..<length s]"

definition str_find_last_of :: "string \<Rightarrow> string \<Rightarrow> nat option" where
  "str_find_last_of s cs = List.find (\<lambda>i. s ! i \<in> set cs) (rev [0..<length s])"

definition substr :: "string \<Rightarrow> nat \<Rightarrow> nat \<Rightarrow> string" where
  "substr s pos n = take n (drop pos s)"

abbreviation contains_str :: "string \<Rightarrow> string \<Rightarrow> bool" where
  "contains_str s pat \<equiv> str_find s pat 0 \<noteq> None"

lemma find_SomeD: "List.find P xs = Some x \<Longrightarrow> x \<in> set xs \<and> P x"
  by (auto simp: find_Some_iff)

lemma str_find_None_iff:
  "str_find s pat pos = None \<longleftrightarrow>
     (\<forall>i. pos \<le> i \<and> i \<le> length s \<longrightarrow> take (length pat) (drop i s) \<noteq> pat)"
  by (auto simp: str_find_def find_None_iff)

lemma str_find_SomeD:
  assumes "str_find s pat pos = Some i"
  shows "pos \<le> i" "i + length pat \<le> length s" "take (length pat) (drop i s) = pat"
proof -
  from assms have *: "pos \<le> i \<and> i < Suc (length s) \<and> take (length pat) (drop i s) = pat"
    unfolding str_find_def by (auto dest!: find_SomeD)
  then show "pos \<le> i" "take (length pat) (drop i s) = pat" by auto
  from * have "min (length s - i) (length pat) = length pat"
    by (metis length_drop length_take min.commute)
  with * show "i + length pat \<le> length s" by (auto simp: min_def split: if_splits)
qed

lemma str_find_char_None_iff:
  "str_find_char s c pos = None \<longleftrightarrow> (\<forall>i. pos \<le> i \<and> i < length s \<longrightarrow> s ! i \<noteq> c)"
  by (auto simp: str_find_char_def find_None_iff)

lemma str_find_char_SomeD:
  assumes "str_find_char s c pos = Some i"
  shows "pos \<le> i" "i < length s" "s ! i = c" "\<And>j. pos \<le> j \<Longrightarrow> j < i \<Longrightarrow> s ! j \<noteq> c"
proof -
  from assms obtain k where k: "k < length [pos..<length s]" "s ! ([pos..<length s] ! k) = c"
    "i = [pos..<length s] ! k" "\<And>j. j < k \<Longrightarrow> s ! ([pos..<length s] ! j) \<noteq> c"
    unfolding str_find_char_def find_Some_iff by blast
  then have i: "i = pos + k" by simp
  with k show "pos \<le> i" "i < length s" "s ! i = c" by auto
  fix j assume j: "pos \<le> j" "j < i"
  with k(4) [of "j - pos"] k(1) i show "s ! j \<noteq> c" by auto
qed

lemma contains_str_iff: "contains_str s pat \<longleftrightarrow> (\<exists>u v. s = u @ pat @ v)"
proof
  assume "contains_str s pat"
  then obtain i where "str_find s pat 0 = Some i" by blast
  note i = str_find_SomeD [OF this]
  have "s = take i s @ take (length pat) (drop i s) @ drop (length pat) (drop i s)"
    by (simp del: drop_drop)
  then show "\<exists>u v. s = u @ pat @ v" unfolding i(3) by blast
next
  assume "\<exists>u v. s = u @ pat @ v"
  then obtain u v where "s = u @ pat @ v" by blast
  then have "length u \<le> length s" "take (length pat) (drop (length u) s) = pat" by auto
  then show "contains_str s pat" by (auto simp: str_find_None_iff)
qed

section \<open>The state monad\<close>

text \<open>
  The operations of the services are computations \<open>('s, 'a) state\<close>. A run is taken apart
  with \<open>run_bindE\<close>: a run of a sequence is a run of its first part followed by a run of the
  rest. \<open>keeps invar f m\<close> says that \<open>m\<close> preserves the invariant \<open>invar\<close> of the state and never
  changes the observation \<open>f\<close> of a state that satisfies it.
\<close>

named_theorems keeps_intros

definition keeps :: "('s \<Rightarrow> bool) \<Rightarrow> ('s \<Rightarrow> 'o) \<Rightarrow> ('s, 'a) state \<Rightarrow> bool" where
  "keeps invar f m \<longleftrightarrow> (\<forall>s a s'. invar s \<and> run_state m s = (a, s') \<longrightarrow> invar s' \<and> f s' = f s)"

lemma keepsI:
  "(\<And>s a s'. invar s \<Longrightarrow> run_state m s = (a, s') \<Longrightarrow> invar s' \<and> f s' = f s) \<Longrightarrow> keeps invar f m"
  unfolding keeps_def by blast

lemma keepsD: "keeps invar f m \<Longrightarrow> run_state m s = (a, s') \<Longrightarrow> invar s \<Longrightarrow> invar s' \<and> f s' = f s"
  unfolding keeps_def by blast

text \<open>
  \<open>keeps_unless invar f started m\<close>: as \<open>keeps\<close>, but the observation may change when the
  result of \<open>m\<close> says that it has started.
\<close>

definition keeps_unless ::
    "('s \<Rightarrow> bool) \<Rightarrow> ('s \<Rightarrow> 'o) \<Rightarrow> ('a \<Rightarrow> bool) \<Rightarrow> ('s, 'a) state \<Rightarrow> bool" where
  "keeps_unless invar f started m \<longleftrightarrow>
     (\<forall>s a s'. invar s \<and> run_state m s = (a, s') \<longrightarrow> invar s' \<and> (\<not> started a \<longrightarrow> f s' = f s))"

lemma keeps_unlessI:
  "(\<And>s a s'. invar s \<Longrightarrow> run_state m s = (a, s') \<Longrightarrow> invar s' \<and> (\<not> started a \<longrightarrow> f s' = f s)) \<Longrightarrow>
     keeps_unless invar f started m"
  unfolding keeps_unless_def by blast

lemma keeps_unlessD:
  "keeps_unless invar f started m \<Longrightarrow> run_state m s = (a, s') \<Longrightarrow> invar s \<Longrightarrow>
     invar s' \<and> (\<not> started a \<longrightarrow> f s' = f s)"
  unfolding keeps_unless_def by blast

lemma run_bind_iff:
  "run_state (State_Monad.bind m f) s = (b, s') \<longleftrightarrow>
     (\<exists>a s1. run_state m s = (a, s1) \<and> run_state (f a) s1 = (b, s'))"
  by (auto split: prod.splits)

lemma run_bindE:
  assumes "run_state (State_Monad.bind m f) s = (b, s')"
  obtains a s1 where "run_state m s = (a, s1)" "run_state (f a) s1 = (b, s')"
  using assms by (auto split: prod.splits)

lemma keeps_return [keeps_intros]: "keeps invar f (State_Monad.return a)"
  by (simp add: keeps_def)

lemma keeps_bind [keeps_intros]:
  assumes "keeps invar f m" "\<And>a. keeps invar f (g a)"
  shows "keeps invar f (State_Monad.bind m g)"
proof (rule keepsI)
  fix s b s'
  assume invar: "invar s" and "run_state (State_Monad.bind m g) s = (b, s')"
  then obtain a s1 where m: "run_state m s = (a, s1)" and g: "run_state (g a) s1 = (b, s')"
    by (auto simp: run_bind_iff simp del: run_state_bind)
  from keepsD [OF assms(1) m invar] keepsD [OF assms(2) g] show "invar s' \<and> f s' = f s" by simp
qed

lemma keeps_if [keeps_intros]:
  "(b \<Longrightarrow> keeps invar f m) \<Longrightarrow> (\<not> b \<Longrightarrow> keeps invar f n) \<Longrightarrow> keeps invar f (if b then m else n)"
  by simp

lemma keeps_case_option [keeps_intros]:
  "(x = None \<Longrightarrow> keeps invar f m) \<Longrightarrow> (\<And>a. x = Some a \<Longrightarrow> keeps invar f (g a)) \<Longrightarrow>
     keeps invar f (case x of None \<Rightarrow> m | Some a \<Rightarrow> g a)"
  by (cases x) auto

lemma keeps_case_prod [keeps_intros]:
  "(\<And>a b. x = (a, b) \<Longrightarrow> keeps invar f (g a b)) \<Longrightarrow> keeps invar f (case x of (a, b) \<Rightarrow> g a b)"
  by (cases x) auto

lemma keeps_let [keeps_intros]: "keeps invar f (g x) \<Longrightarrow> keeps invar f (let y = x in g y)"
  by simp

lemma keeps_unless_bind:
  assumes "keeps invar f m" "\<And>a. keeps_unless invar f started (g a)"
  shows "keeps_unless invar f started (State_Monad.bind m g)"
proof (rule keeps_unlessI, elim run_bindE)
  fix s b s' a s1
  assume "invar s" "run_state m s = (a, s1)" "run_state (g a) s1 = (b, s')"
  with keepsD [OF assms(1)] keeps_unlessD [OF assms(2)]
  show "invar s' \<and> (\<not> started b \<longrightarrow> f s' = f s)" by metis
qed

lemma keeps_unless_map:
  assumes "keeps_unless invar f started m" "\<And>a. started' (g a) = started a"
  shows "keeps_unless invar f started' (do { a \<leftarrow> m; State_Monad.return (g a) })"
  by (rule keeps_unlessI, elim run_bindE) (use assms in \<open>auto dest: keeps_unlessD\<close>)

lemma keeps_unless_weaken: "keeps invar f m \<Longrightarrow> keeps_unless invar f started m"
  by (auto simp: keeps_def keeps_unless_def)

lemma keeps_unless_if:
  "(b \<Longrightarrow> keeps_unless invar f started m) \<Longrightarrow> (\<not> b \<Longrightarrow> keeps_unless invar f started n) \<Longrightarrow>
     keeps_unless invar f started (if b then m else n)"
  by simp

section \<open>Generic facts\<close>

lemma find_eq_hd_filter:
  "List.find P xs = (case filter P xs of [] \<Rightarrow> None | y # _ \<Rightarrow> Some y)"
  by (induction xs) auto

lemma word_no_wrap_iff:
  fixes a b :: "'a :: len word"
  shows "a > - 1 - b \<longleftrightarrow> 2 ^ LENGTH('a) \<le> unat a + unat b"
proof -
  have nb: "unat (- 1 - b) = 2 ^ LENGTH('a) - 1 - unat b"
    by (simp add: unat_sub word_order.extremum unsigned_minus_1_eq_mask mask_eq_exp_minus_1)
  have "unat b < 2 ^ LENGTH('a)" by (rule unsigned_less)
  then show ?thesis unfolding word_less_nat_alt nb by arith
qed

lemma unat_ucast_u32_u64 [simp]: "unat (ucast (x :: u32) :: u64) = unat x"
  by (simp add: unsigned_ucast_eq take_bit_nat_eq_self less_le_trans [OF unsigned_less])

lemma ucast_pred_u32:
  fixes n :: u32
  assumes "n \<noteq> 0"
  shows "(ucast (n - 1) :: u64) = ucast n - 1"
proof -
  have "unat (ucast n - 1 :: u64) = unat (ucast n :: u64) - 1"
    using assms by (intro unat_minus_one) (metis unat_ucast_u32_u64 unsigned_0 unsigned_eq_0_iff)
  then show ?thesis
    unfolding word_unat_eq_iff by (simp add: unat_minus_one [OF assms])
qed

text \<open>
  The overflow test of the sources on an address range of \<open>n\<close> bytes, \<open>n\<close> not zero:
  \<open>address > UINT64_MAX - (n - 1)\<close>.
\<close>

lemma range_no_wrap:
  fixes a :: u64 and n :: u64
  assumes "n \<noteq> 0"
  shows "a > UINT64_MAX - (n - 1) \<longleftrightarrow> 2 ^ 64 < unat a + unat n"
proof -
  have "unat (n - 1) = unat n - 1" "unat n \<noteq> 0"
    using assms(1) by (simp_all add: unat_minus_one unsigned_eq_0_iff)
  moreover have "a > UINT64_MAX - (n - 1) \<longleftrightarrow> 2 ^ 64 \<le> unat a + unat (n - 1)"
    using word_no_wrap_iff [of "n - 1" a] unfolding UINT64_MAX_eq by simp
  ultimately show ?thesis by auto
qed

end
