(* ===== verification/MemTypes.thy ===== *)
theory MemTypes
  imports Prelude
begin

text \<open>
  The data of the memory service, from \<open>gui/mem/MemTypes.h\<close> and \<open>gui/mem/MemResult.h\<close>: one record
  per struct, in the order of the sources. The fields of a record carry a short prefix, because
  C++ reuses a field name in many structs (\<open>address\<close>, \<open>target\<close>) and a HOL field is a
  constant. A cancellation token (\<open>shared_ptr<atomic<bool>>\<close>) is the identifier of the flag, \<open>None\<close> for the
  null pointer. A \<open>steady_clock::time_point\<close> is a number of ticks. A scoped enumeration with a
  fixed underlying type can hold every value of that type, so \<open>BreakpointAccess\<close> and \<open>UxnState\<close>
  are 32-bit words and their enumerators are constants.
\<close>

section \<open>Results and errors\<close>

datatype ErrorCode =
    InvalidArgument
  | CancelRequested
  | Timeout
  | ConnectionChanged
  | ConnectionPoisoned
  | NotConnected
  | NoTarget
  | TargetChanged
  | ProtocolError
  | PermissionDenied
  | PartialWrite
  | CompletionUnknown
  | SymbolSessionChanged
  | InternalError

fun errorCodeName :: "ErrorCode \<Rightarrow> string" where
  "errorCodeName InvalidArgument = ''invalid_argument''"
| "errorCodeName CancelRequested = ''cancel_requested''"
| "errorCodeName Timeout = ''timeout''"
| "errorCodeName ConnectionChanged = ''connection_changed''"
| "errorCodeName ConnectionPoisoned = ''connection_poisoned''"
| "errorCodeName NotConnected = ''not_connected''"
| "errorCodeName NoTarget = ''no_target''"
| "errorCodeName TargetChanged = ''target_changed''"
| "errorCodeName ProtocolError = ''protocol_error''"
| "errorCodeName PermissionDenied = ''permission_denied''"
| "errorCodeName PartialWrite = ''partial_write''"
| "errorCodeName CompletionUnknown = ''completion_unknown''"
| "errorCodeName SymbolSessionChanged = ''symbol_session_changed''"
| "errorCodeName InternalError = ''internal_error''"

record Error =
  er_code :: ErrorCode
  er_message :: string
  er_retryable :: bool
  er_affectedBytes :: "u64 option"
  er_nativeCode :: "int option"

text \<open>
  \<open>Result\<close> is built by \<open>success\<close> and \<open>failure\<close> only, so it holds a value or an error, never
  both. \<open>Result::value\<close> and \<open>Result::error\<close> throw on the other case.
\<close>

datatype 'a Result = Success (result_value: 'a) | Failure (result_error: Error)

definition result_ok :: "'a Result \<Rightarrow> bool" where
  "result_ok r = (case r of Success _ \<Rightarrow> True | Failure _ \<Rightarrow> False)"

definition failure :: "ErrorCode \<Rightarrow> string \<Rightarrow> bool \<Rightarrow> 'a Result" where
  "failure code message retryable =
     Failure \<lparr>er_code = code, er_message = message, er_retryable = retryable,
              er_affectedBytes = None, er_nativeCode = None\<rparr>"

definition mkError :: "ErrorCode \<Rightarrow> string \<Rightarrow> bool \<Rightarrow> Error" where
  "mkError code message retryable =
     \<lparr>er_code = code, er_message = message, er_retryable = retryable,
      er_affectedBytes = None, er_nativeCode = None\<rparr>"

definition failureFrom :: "Error \<Rightarrow> 'a Result" where
  "failureFrom e =
     Failure \<lparr>er_code = er_code e, er_message = er_message e, er_retryable = er_retryable e,
              er_affectedBytes = er_affectedBytes e, er_nativeCode = er_nativeCode e\<rparr>"

section \<open>Connection, target and operation context\<close>

record TargetSnapshot =
  ts_pid :: int
  ts_processHandle :: int
  ts_processRevision :: u64
  ts_connectionGeneration :: u64

definition isAttached :: "TargetSnapshot \<Rightarrow> bool" where
  "isAttached t \<longleftrightarrow> ts_pid t > 0 \<and> ts_processHandle t \<noteq> 0"

definition TargetSnapshot_default :: TargetSnapshot where
  "TargetSnapshot_default =
     \<lparr>ts_pid = 0, ts_processHandle = 0, ts_processRevision = 0, ts_connectionGeneration = 0\<rparr>"

abbreviation time_point_max :: int where
  "time_point_max \<equiv> 9223372036854775807"

record OperationContext =
  oc_connectionGeneration :: u64
  oc_target :: "TargetSnapshot option"
  oc_cancellation :: "nat option"
  oc_deadline :: int

record ConnectionSnapshot =
  cs_connected :: bool
  cs_poisoned :: bool
  cs_generation :: u64

record Status =
  st_connection :: ConnectionSnapshot
  st_target :: TargetSnapshot
  st_processName :: string

record ServerVersion =
  sv_version :: int
  sv_versionString :: string

record MemoryTypeInfo =
  mti_type :: int
  mti_name :: string

record ConnectRequest =
  cq_host :: string
  cq_port :: u16

record ConnectionReceipt =
  cr_connected :: bool
  cr_generation :: u64

record DisconnectReceipt =
  dr_wasConnected :: bool
  dr_generation :: u64

record DriverInitializeRequest =
  diq_card :: string
  diq_forceReclaimHardwareBreakpoints :: bool

record DriverInitializationBackendResult =
  dib_requestStarted :: bool
  dib_responseReceived :: bool
  dib_accepted :: bool
  dib_message :: string
  dib_reclaimRequestStarted :: bool
  dib_reclaimResponseReceived :: bool
  dib_reclaimApplied :: bool

record DriverInitializationReceipt =
  dir_message :: string
  dir_completedAfterCancelRequest :: bool
  dir_completedAfterDeadline :: bool
  dir_connectionGeneration :: u64

section \<open>Processes, modules and pointers\<close>

record ProcessInfo =
  pi_pid :: int
  pi_name :: string

record ProcessListRequest =
  plq_filter :: string
  plq_offset :: nat
  plq_limit :: nat

record ProcessPage =
  pp_items :: "ProcessInfo list"
  pp_total :: nat
  pp_offset :: nat
  pp_nextOffset :: "nat option"

record OpenProcessRequest =
  opq_pid :: int
  opq_name :: string

record OpenProcessResult =
  opr_target :: TargetSnapshot
  opr_name :: string

record ModuleInfo =
  mi_base :: u64
  mi_size :: u64
  mi_type :: int
  mi_flag :: int
  mi_name :: string

record ModuleListRequest =
  mlq_filter :: string
  mlq_offset :: nat
  mlq_limit :: nat

record ModulePage =
  mp_items :: "ModuleInfo list"
  mp_total :: nat
  mp_offset :: nat
  mp_nextOffset :: "nat option"
  mp_target :: TargetSnapshot

record ModuleResolveRequest =
  mrq_name :: string

record ResolvedModule =
  rm_module :: ModuleInfo
  rm_target :: TargetSnapshot

record PointerResolveRequest =
  prq_moduleName :: string
  prq_baseOffset :: u64
  prq_offsets :: "u64 list"
  prq_dereferenceFinal :: bool

record PointerResolution =
  pr_module :: ModuleInfo
  pr_startAddress :: u64
  pr_address :: u64
  pr_dereferenceCount :: nat
  pr_dereferencedFinal :: bool
  pr_target :: TargetSnapshot

section \<open>Memory\<close>

record MemoryReadRequest =
  rq_address :: u64
  rq_size :: u32

record MemoryBlock =
  mb_address :: u64
  mb_bytes :: "u8 list"
  mb_target :: TargetSnapshot

record MemoryBatchReadRequest =
  bq_items :: "MemoryReadRequest list"

record MemoryBatch =
  mbt_items :: "MemoryBlock list"
  mbt_target :: TargetSnapshot

record MemoryWriteRequest =
  wq_address :: u64
  wq_bytes :: "u8 list"

record MemoryWriteBackendResult =
  wb_requestStarted :: bool
  wb_responseReceived :: bool
  wb_writtenBytes :: int

record WriteReceipt =
  wr_address :: u64
  wr_requestedBytes :: u32
  wr_writtenBytes :: u32
  wr_completedAfterCancelRequest :: bool
  wr_completedAfterDeadline :: bool
  wr_target :: TargetSnapshot

section \<open>Hardware breakpoints\<close>

type_synonym BreakpointAccess = u32

definition BreakpointAccess_Read :: BreakpointAccess where
  "BreakpointAccess_Read = 1"

definition BreakpointAccess_Write :: BreakpointAccess where
  "BreakpointAccess_Write = 2"

definition BreakpointAccess_ReadWrite :: BreakpointAccess where
  "BreakpointAccess_ReadWrite = 3"

definition BreakpointAccess_Execute :: BreakpointAccess where
  "BreakpointAccess_Execute = 4"

datatype BreakpointAction = BpSet | BpRemove | BpSuspend | BpResume

record BreakpointMutationBackendResult =
  bmb_requestStarted :: bool
  bmb_responseReceived :: bool
  bmb_applied :: bool

record BreakpointSetRequest =
  bsq_address :: u64
  bsq_access :: BreakpointAccess
  bsq_size :: u32

record BreakpointAddressRequest =
  baq_address :: u64

record BreakpointHitBatchRequest =
  bhq_address :: u64
  bhq_limit :: nat

record BreakpointMutationReceipt =
  bmr_address :: u64
  bmr_action :: BreakpointAction
  bmr_target :: TargetSnapshot

record BreakpointHit =
  bh_hitAddress :: u64
  bh_hitTime :: u64
  bh_registers :: "u64 list"
  bh_stackPointer :: u64
  bh_programCounter :: u64
  bh_pstate :: u64
  bh_originalX0 :: u64
  bh_syscallNumber :: u64

record BreakpointHitBatch =
  bhb_address :: u64
  bhb_items :: "BreakpointHit list"
  bhb_available :: nat
  bhb_dropped :: nat
  bhb_target :: TargetSnapshot

record BreakpointSlot =
  bs_eventId :: u64
  bs_moduleHandle :: u64
  bs_address :: u64
  bs_tid :: int
  bs_onCpu :: int
  bs_type :: u32
  bs_length :: u32
  bs_state :: u32
  bs_source :: u32
  bs_flags :: u32

record BreakpointThreadSlots =
  bt_tid :: int
  bt_querySucceeded :: bool
  bt_errorCode :: int
  bt_count :: u32
  bt_totalCount :: u32
  bt_brpCount :: u32
  bt_wrpCount :: u32
  bt_enabledCount :: u32
  bt_activeCount :: u32
  bt_perfCount :: u32
  bt_ptraceCount :: u32
  bt_moduleCount :: u32
  bt_slots :: "BreakpointSlot list"

record BreakpointSlotsSnapshot =
  bss_threads :: "BreakpointThreadSlots list"
  bss_target :: TargetSnapshot

section \<open>UXN exception breakpoints\<close>

type_synonym UxnState = u32

definition UxnState_Empty :: UxnState where
  "UxnState_Empty = 0"

definition UxnState_Armed :: UxnState where
  "UxnState_Armed = 1"

definition UxnState_Paused :: UxnState where
  "UxnState_Paused = 2"

definition UxnState_Stepping :: UxnState where
  "UxnState_Stepping = 3"

record UxnRegisters =
  ur_general :: "u64 list"
  ur_stackPointer :: u64
  ur_programCounter :: u64
  ur_pstate :: u64

record UxnFpRegister =
  uf_low :: u64
  uf_high :: u64

record UxnFpsimdRegisters =
  ufs_vector :: "UxnFpRegister list"
  ufs_fpsr :: u32
  ufs_fpcr :: u32
  ufs_valid :: bool

record UxnOperationBackendResult =
  uo_requestStarted :: bool
  uo_responseReceived :: bool
  uo_applied :: bool
  uo_errorCode :: int

record UxnInstallBackendResult = UxnOperationBackendResult +
  ui_pid :: u32
  ui_flags :: u32
  ui_address :: u64
  ui_slot :: u32

record UxnEvent =
  ue_slot :: u32
  ue_pid :: u32
  ue_tid :: u32
  ue_state :: UxnState
  ue_sequence :: u64
  ue_address :: u64
  ue_page :: u64
  ue_faultAddress :: u64
  ue_esr :: u64
  ue_hits :: u64
  ue_falseHits :: u64
  ue_registers :: UxnRegisters
  ue_fpsimd :: UxnFpsimdRegisters

record UxnWaitBackendResult = UxnOperationBackendResult +
  uw_event :: UxnEvent

record UxnStatus =
  us_slot :: u32
  us_used :: bool
  us_pid :: u32
  us_tid :: u32
  us_state :: UxnState
  us_lastError :: int
  us_address :: u64
  us_page :: u64
  us_hits :: u64
  us_falseHits :: u64
  us_stepHits :: u64
  us_resumes :: u64
  us_sequence :: u64
  us_target :: TargetSnapshot

record UxnStatusBackendResult = UxnOperationBackendResult +
  usb_status :: UxnStatus

record UxnInstallRequest =
  uiq_address :: u64

record UxnInstallReceipt =
  uir_slot :: u32
  uir_address :: u64
  uir_target :: TargetSnapshot

record UxnRemoveRequest =
  urq_address :: u64

record UxnWaitRequest =
  uwq_slot :: u32
  uwq_timeoutMs :: u32
  uwq_lastSequence :: u64

record UxnResumeRequest =
  usq_slot :: u32
  usq_writeRegisters :: bool
  usq_registers :: UxnRegisters

record UxnMutationReceipt =
  umr_slot :: u32
  umr_address :: u64
  umr_target :: TargetSnapshot

record UxnStatusRequest =
  utq_slot :: u32

record UxnClearReceipt =
  ucr_target :: TargetSnapshot

section \<open>Symbols\<close>

record SymbolInfo =
  si_address :: u64
  si_name :: string

record SymbolTableRequest =
  stq_moduleBase :: u64

record SymbolListRequest =
  slq_moduleBase :: u64
  slq_offset :: nat
  slq_limit :: nat

record SymbolResolveRequest =
  srq_moduleBase :: u64
  srq_name :: string

record SymbolTable =
  stb_module :: ModuleInfo
  stb_items :: "SymbolInfo list"
  stb_target :: TargetSnapshot

record SymbolPage =
  sp_module :: ModuleInfo
  sp_items :: "SymbolInfo list"
  sp_total :: nat
  sp_offset :: nat
  sp_nextOffset :: "nat option"
  sp_target :: TargetSnapshot

record ResolvedSymbol =
  rs_module :: ModuleInfo
  rs_name :: string
  rs_address :: u64
  rs_target :: TargetSnapshot

section \<open>Service limits\<close>

named_theorems limit_defs

definition kMaxMemoryReadBytes :: u32 where
  [limit_defs]: "kMaxMemoryReadBytes = 16777216"

definition kMaxMemoryWriteBytes :: nat where
  [limit_defs]: "kMaxMemoryWriteBytes = 1048576"

definition kMaxMemoryBatchCount :: nat where
  [limit_defs]: "kMaxMemoryBatchCount = 4096"

definition kMaxMemoryBatchBytes :: u64 where
  [limit_defs]: "kMaxMemoryBatchBytes = 16777216"

definition kMaxProcessPageSize :: nat where
  [limit_defs]: "kMaxProcessPageSize = 1000"

definition kMaxProcessNameBytesTotal :: nat where
  [limit_defs]: "kMaxProcessNameBytesTotal = 67108864"

definition kMaxModulePageSize :: nat where
  [limit_defs]: "kMaxModulePageSize = 1000"

definition kMaxModuleCount :: nat where
  [limit_defs]: "kMaxModuleCount = 65536"

definition kMaxModuleNameBytesTotal :: nat where
  [limit_defs]: "kMaxModuleNameBytesTotal = 67108864"

definition kMaxPointerOffsetCount :: nat where
  [limit_defs]: "kMaxPointerOffsetCount = 1024"

definition kMaxSymbolPageSize :: nat where
  [limit_defs]: "kMaxSymbolPageSize = 1000"

definition kMaxSymbolCount :: nat where
  [limit_defs]: "kMaxSymbolCount = 1000000"

definition kMaxSymbolNameBytesTotal :: nat where
  [limit_defs]: "kMaxSymbolNameBytesTotal = 67108864"

definition kMaxBreakpointHitCount :: nat where
  [limit_defs]: "kMaxBreakpointHitCount = 100000"

definition kMaxBreakpointQueryEntries :: u32 where
  [limit_defs]: "kMaxBreakpointQueryEntries = 64"

definition kMaxBreakpointQueryThreads :: nat where
  [limit_defs]: "kMaxBreakpointQueryThreads = 65536"

definition kMaxUxnSlots :: u32 where
  [limit_defs]: "kMaxUxnSlots = 16"

definition kUxnWaitAnySlot :: u32 where
  [limit_defs]: "kUxnWaitAnySlot = 4294967295"

definition kMaxUxnWaitTimeoutMs :: u32 where
  [limit_defs]: "kMaxUxnWaitTimeoutMs = 60000"

definition kMaxTextBytes :: nat where
  [limit_defs]: "kMaxTextBytes = 4096"

definition kMaxDriverCardBytes :: nat where
  [limit_defs]: "kMaxDriverCardBytes = 4096"

section \<open>Facts on results\<close>

lemma failureFrom_eq [simp]: "failureFrom e = Failure e"
  by (simp add: failureFrom_def)

lemma result_ok_simps [simp]: "result_ok (Success v)" "\<not> result_ok (Failure e)"
  by (simp_all add: result_ok_def)

lemma failure_neq_Success [simp]: "failure c m r \<noteq> Success v" "Success v \<noteq> failure c m r"
  by (simp_all add: failure_def)

lemma failure_eq_iff [simp]:
  "failure c m r = Failure e \<longleftrightarrow>
     e = \<lparr>er_code = c, er_message = m, er_retryable = r, er_affectedBytes = None,
          er_nativeCode = None\<rparr>"
  by (auto simp: failure_def)

lemma mkError_sel [simp]:
  "er_code (mkError c m r) = c" "er_retryable (mkError c m r) = r"
  "er_message (mkError c m r) = m" "er_affectedBytes (mkError c m r) = None"
  by (simp_all add: mkError_def)

text \<open>The stable names of the error codes identify the code: the clients branch on them.\<close>

lemma errorCodeName_inj: "errorCodeName a = errorCodeName b \<longleftrightarrow> a = b"
  by (cases a; cases b; simp)

end
