(* ===== verification/Protocol.thy ===== *)
theory Protocol
  imports MemTypes
begin

text \<open>
  The byte protocol between the client (\<open>gui/socket/client.hpp\<close>) and the Android server
  (\<open>engine/ceserver/CEServer.cpp\<close>). The protocol has no frames: a request is an opcode followed by
  the bytes that the server's dispatcher happens to read for it. \<open>requestSize\<close> is that reading
  plan, taken from the server; \<open>completeRequests\<close> cuts a stream of the client into the requests the
  server sees. The structs are packed and both sides are little-endian.
\<close>

section \<open>Little-endian numbers\<close>

fun le :: "nat \<Rightarrow> nat \<Rightarrow> bytes" where
  "le 0 v = []"
| "le (Suc n) v = of_nat v # le n (v div 256)"

fun of_le :: "bytes \<Rightarrow> nat" where
  "of_le [] = 0"
| "of_le (b # bs) = unat b + 256 * of_le bs"

definition u32_bytes :: "u32 \<Rightarrow> bytes" where
  "u32_bytes w = le 4 (unat w)"

definition u64_bytes :: "u64 \<Rightarrow> bytes" where
  "u64_bytes w = le 8 (unat w)"

definition i32_bytes :: "int \<Rightarrow> bytes" where
  "i32_bytes i = u32_bytes (of_int i)"

definition u32_at :: "bytes \<Rightarrow> nat \<Rightarrow> u32" where
  "u32_at bs off = of_nat (of_le (take 4 (drop off bs)))"

definition u64_at :: "bytes \<Rightarrow> nat \<Rightarrow> u64" where
  "u64_at bs off = of_nat (of_le (take 8 (drop off bs)))"

definition i32_at :: "bytes \<Rightarrow> nat \<Rightarrow> int" where
  "i32_at bs off = sint (u32_at bs off)"

text \<open>The bytes of a text and the text of some bytes.\<close>

definition bytes_of :: "string \<Rightarrow> bytes" where
  "bytes_of s = map (\<lambda>c. of_nat (of_char c)) s"

definition chars_of :: "bytes \<Rightarrow> string" where
  "chars_of bs = map (\<lambda>b. char_of (unat b)) bs"

lemma length_le [simp]: "length (le n v) = n"
  by (induction n arbitrary: v) auto

lemma of_le_le: "of_le (le n v) = v mod 256 ^ n"
proof (induction n arbitrary: v)
  case (Suc n)
  have "v mod (256 * 256 ^ n) = v mod 256 + 256 * (v div 256 mod 256 ^ n)"
    by (simp add: mod_mult2_eq)
  with Suc show ?case by (simp add: unsigned_of_nat take_bit_eq_mod)
qed simp

lemma length_bytes [simp]:
  "length (u32_bytes w) = 4" "length (u64_bytes v) = 8" "length (i32_bytes i) = 4"
  by (simp_all add: u32_bytes_def u64_bytes_def i32_bytes_def)

lemma of_le_u32 [simp]: "of_nat (of_le (u32_bytes w)) = (w :: u32)"
  using unsigned_less [of w, where ?'a = nat] by (simp add: u32_bytes_def of_le_le)

lemma of_le_u64 [simp]: "of_nat (of_le (u64_bytes w)) = (w :: u64)"
  using unsigned_less [of w, where ?'a = nat] by (simp add: u64_bytes_def of_le_le)

lemma u32_at_bytes [simp]: "u32_at (u32_bytes w @ xs) 0 = w"
  by (simp add: u32_at_def)

lemma u64_at_bytes [simp]: "u64_at (u64_bytes w @ xs) 0 = w"
  by (simp add: u64_at_def)

lemma i32_at_bytes:
  assumes "- (2 ^ 31) \<le> i" "i < 2 ^ 31"
  shows "i32_at (i32_bytes i @ xs) 0 = i"
  using assms by (simp add: i32_at_def i32_bytes_def signed_of_int signed_take_bit_int_eq_self)

lemma at_drop:
  "n \<le> off \<Longrightarrow> length p = n \<Longrightarrow> u32_at (p @ xs) off = u32_at xs (off - n)"
  "n \<le> off \<Longrightarrow> length p = n \<Longrightarrow> u64_at (p @ xs) off = u64_at xs (off - n)"
  "n \<le> off \<Longrightarrow> length p = n \<Longrightarrow> i32_at (p @ xs) off = i32_at xs (off - n)"
  by (simp_all add: u32_at_def u64_at_def i32_at_def)

lemma at_append:
  "off + 4 \<le> length s \<Longrightarrow> u32_at (s @ t) off = u32_at s off"
  "off + 8 \<le> length s \<Longrightarrow> u64_at (s @ t) off = u64_at s off"
  "off + 4 \<le> length s \<Longrightarrow> i32_at (s @ t) off = i32_at s off"
  by (simp_all add: u32_at_def u64_at_def i32_at_def)

lemma length_texts [simp]: "length (bytes_of s) = length s" "length (chars_of bs) = length bs"
  by (simp_all add: bytes_of_def chars_of_def)

lemma bytes_of_empty [simp]: "bytes_of [] = []"
  by (simp add: bytes_of_def)

lemma chars_of_bytes_of [simp]: "chars_of (bytes_of s) = s"
  by (induction s) (simp_all add: chars_of_def bytes_of_def unsigned_of_nat take_bit_nat_eq_self)

section \<open>Opcodes\<close>

abbreviation "CMD_GETVERSION \<equiv> 0 :: u8"
abbreviation "CMD_CLOSECONNECTION \<equiv> 1 :: u8"
abbreviation "CMD_TERMINATESERVER \<equiv> 2 :: u8"
abbreviation "CMD_GETMEMTYPE \<equiv> 3 :: u8"
abbreviation "CMD_INITRWDRIVER \<equiv> 4 :: u8"
abbreviation "CMD_OPENPROCESS \<equiv> 5 :: u8"
abbreviation "CMD_CLOSEHANDLE \<equiv> 6 :: u8"
abbreviation "CMD_GETPROCESSLIST \<equiv> 7 :: u8"
abbreviation "CMD_GETMODULELIST \<equiv> 8 :: u8"
abbreviation "CMD_READPROCESSMEMORY \<equiv> 9 :: u8"
abbreviation "CMD_WRITEPROCESSMEMORY \<equiv> 10 :: u8"
abbreviation "CMD_READBRATCHMEMORY \<equiv> 11 :: u8"
abbreviation "CMD_READBRATCHADDR \<equiv> 12 :: u8"
abbreviation "CMD_KERNEL_SETBREAKPOINT \<equiv> 13 :: u8"
abbreviation "CMD_KERNEL_REMOVEBREAKPOINT \<equiv> 14 :: u8"
abbreviation "CMD_KERNEL_SUSPENDBREAKPOINT \<equiv> 15 :: u8"
abbreviation "CMD_KERNEL_RESUMEBREAKPOINT \<equiv> 16 :: u8"
abbreviation "CMD_KERNEL_READHWBPINFO \<equiv> 17 :: u8"
abbreviation "CMD_SYMBOL_INIT \<equiv> 18 :: u8"
abbreviation "CMD_SYMBOL_GETLIST \<equiv> 19 :: u8"
abbreviation "CMD_SYMBOL_FIND \<equiv> 20 :: u8"
abbreviation "CMD_GETSOBASE \<equiv> 21 :: u8"
abbreviation "CMD_SETKERNELHWBPRECLAIM \<equiv> 22 :: u8"
abbreviation "CMD_KERNEL_QUERYHWBPTHREADS \<equiv> 23 :: u8"
abbreviation "CMD_KERNEL_UXN_INSTALL \<equiv> 24 :: u8"
abbreviation "CMD_KERNEL_UXN_REMOVE \<equiv> 25 :: u8"
abbreviation "CMD_KERNEL_UXN_WAIT \<equiv> 26 :: u8"
abbreviation "CMD_KERNEL_UXN_RESUME \<equiv> 27 :: u8"
abbreviation "CMD_KERNEL_UXN_STATUS \<equiv> 28 :: u8"
abbreviation "CMD_KERNEL_UXN_CLEAR \<equiv> 29 :: u8"

section \<open>The server's reading plan\<close>

abbreviation MAX_NETWORK_ALLOC_SIZE :: int where
  "MAX_NETWORK_ALLOC_SIZE \<equiv> 268435456"

abbreviation MAX_NETWORK_ARRAY_COUNT :: int where
  "MAX_NETWORK_ARRAY_COUNT \<equiv> 10485760"

text \<open>
  What the dispatcher reads after the opcode: the fixed part, and the length of the variable
  part that the fixed part announces. A length out of range is answered without reading the
  variable part.
\<close>

definition fixedSize :: "u8 \<Rightarrow> nat" where
  "fixedSize c =
     (if c = CMD_INITRWDRIVER \<or> c = CMD_OPENPROCESS \<or> c = CMD_CLOSEHANDLE \<or>
         c = CMD_GETMODULELIST \<or> c = CMD_KERNEL_UXN_STATUS then 4
      else if c = CMD_READPROCESSMEMORY then 17
      else if c = CMD_WRITEPROCESSMEMORY \<or> c = CMD_READBRATCHMEMORY \<or> c = CMD_SYMBOL_FIND \<or>
         c = CMD_KERNEL_UXN_INSTALL \<or> c = CMD_KERNEL_UXN_WAIT then 16
      else if c = CMD_READBRATCHADDR \<or> c = CMD_SYMBOL_GETLIST \<or> c = CMD_GETSOBASE \<or>
         c = CMD_KERNEL_QUERYHWBPTHREADS then 8
      else if c = CMD_KERNEL_SETBREAKPOINT then 20
      else if c = CMD_KERNEL_REMOVEBREAKPOINT \<or> c = CMD_KERNEL_SUSPENDBREAKPOINT \<or>
         c = CMD_KERNEL_RESUMEBREAKPOINT \<or> c = CMD_KERNEL_READHWBPINFO \<or>
         c = CMD_SYMBOL_INIT \<or> c = CMD_KERNEL_UXN_REMOVE then 12
      else if c = CMD_SETKERNELHWBPRECLAIM then 1
      else if c = CMD_KERNEL_UXN_RESUME then 280
      else 0)"

definition variableSize :: "u8 \<Rightarrow> bytes \<Rightarrow> nat" where
  "variableSize c fixed =
     (if c = CMD_INITRWDRIVER then
        (let len = i32_at fixed 0 in if len \<le> 0 \<or> len > MAX_NETWORK_ALLOC_SIZE then 0 else nat len)
      else if c = CMD_WRITEPROCESSMEMORY then
        (let size = unat (u32_at fixed 12) in if int size > MAX_NETWORK_ALLOC_SIZE then 0 else size)
      else if c = CMD_READBRATCHADDR then
        (let len = i32_at fixed 4 in
         if len \<le> 0 \<or> len > MAX_NETWORK_ARRAY_COUNT then 0 else nat len * 12)
      else if c = CMD_SYMBOL_FIND then
        (let n = i32_at fixed 12 in if n > 0 \<and> n \<le> 4096 then nat n else 0)
      else if c = CMD_GETSOBASE then
        (let n = i32_at fixed 4 in if n > 0 \<and> n \<le> 4096 then nat n else 0)
      else 0)"

fun requestSize :: "bytes \<Rightarrow> nat option" where
  "requestSize [] = None"
| "requestSize (c # r) =
     (if length r < fixedSize c then None
      else Some (1 + fixedSize c + variableSize c (take (fixedSize c) r)))"

function completeRequests :: "bytes \<Rightarrow> bytes list" where
  "completeRequests s =
     (case requestSize s of
        None \<Rightarrow> []
      | Some n \<Rightarrow> if n \<le> length s then take n s # completeRequests (drop n s) else [])"
  by pat_completeness auto
termination
proof (relation "measure length")
  fix s n
  assume "requestSize s = Some n" "n \<le> length s"
  then show "(drop n s, s) \<in> measure length"
    by (cases s) (auto split: if_splits)
qed simp

declare completeRequests.simps [simp del]

definition inSync :: "bytes \<Rightarrow> bool" where
  "inSync s \<longleftrightarrow> concat (completeRequests s) = s"

section \<open>Cutting streams\<close>

lemma requestSize_append: "requestSize s = Some n \<Longrightarrow> requestSize (s @ t) = Some n"
  by (cases s) (auto split: if_splits)

lemma completeRequests_Nil [simp]: "completeRequests [] = []"
  by (simp add: completeRequests.simps)

lemma inSync_Nil [simp]: "inSync []"
  by (simp add: inSync_def)

lemma completeRequests_step:
  assumes "requestSize s = Some n" "n \<le> length s"
  shows "completeRequests (s @ t) = take n s # completeRequests (drop n s @ t)"
  using assms by (subst completeRequests.simps) (simp add: requestSize_append)

lemma inSync_cases:
  assumes "inSync s" "s \<noteq> []"
  obtains n where "requestSize s = Some n" "n \<le> length s" "inSync (drop n s)" "0 < n"
proof -
  from assms have "completeRequests s \<noteq> []" by (auto simp: inSync_def)
  then obtain n where n: "requestSize s = Some n" "n \<le> length s"
    by (subst (asm) completeRequests.simps) (auto split: option.splits if_splits)
  with assms(1) have "take n s @ concat (completeRequests (drop n s)) = take n s @ drop n s"
    using completeRequests_step [OF n, of "[]"] by (simp add: inSync_def)
  then have "inSync (drop n s)" unfolding inSync_def same_append_eq .
  moreover have "0 < n" using n(1) by (cases s) (auto split: if_splits)
  ultimately show ?thesis using n that by blast
qed

lemma completeRequests_append:
  "inSync s \<Longrightarrow> completeRequests (s @ t) = completeRequests s @ completeRequests t"
proof (induction s rule: length_induct)
  case (1 s)
  show ?case
  proof (cases "s = []")
    case False
    with 1(2) obtain n where n: "requestSize s = Some n" "n \<le> length s" "inSync (drop n s)" "0 < n"
      by (rule inSync_cases)
    with 1(1) False have "completeRequests (drop n s @ t) = completeRequests (drop n s) @ completeRequests t"
      by auto
    with completeRequests_step [OF n(1,2), of t] completeRequests_step [OF n(1,2), of "[]"]
    show ?thesis by simp
  qed simp
qed

lemma inSync_append: "inSync s \<Longrightarrow> inSync (s @ t) \<longleftrightarrow> inSync t"
  by (auto simp: inSync_def completeRequests_append)

lemma inSync_request: "requestSize r = Some (length r) \<Longrightarrow> inSync r"
  using completeRequests_step [of r "length r" "[]"] by (simp add: inSync_def)

lemma completeRequests_partial:
  assumes "\<And>n. requestSize p = Some n \<Longrightarrow> length p < n"
  shows "completeRequests p = []"
  using assms by (subst completeRequests.simps) (auto split: option.splits)

lemma completeRequests_header:
  "length r < fixedSize c \<Longrightarrow> completeRequests (c # r) = []"
  by (rule completeRequests_partial) simp

end
