(* ===== verification/CLibrary.thy ===== *)
theory CLibrary
  imports Prelude
begin

text \<open>
  Numbers in texts, as the C library reads and the sources print them: hexadecimal digits and \<open>strtoull\<close>.
  The client reads addresses with it and the server the lines of \<open>/proc/<pid>/maps\<close>.
\<close>

section \<open>Digits\<close>

definition hex_digit :: "nat \<Rightarrow> char" where
  "hex_digit d = (if d < 10 then char_of (48 + d) else char_of (87 + d))"

definition HexNibble :: "char \<Rightarrow> nat option" where
  "HexNibble c =
     (let n = of_char c :: nat in
      if 48 \<le> n \<and> n \<le> 57 then Some (n - 48)
      else if 97 \<le> n \<and> n \<le> 102 then Some (n - 97 + 10)
      else if 65 \<le> n \<and> n \<le> 70 then Some (n - 65 + 10)
      else None)"

fun hex_digits :: "nat \<Rightarrow> string" where
  "hex_digits n = (if n < 16 then [hex_digit n] else hex_digits (n div 16) @ [hex_digit (n mod 16)])"

declare hex_digits.simps [simp del]

fun decimal :: "nat \<Rightarrow> string" where
  "decimal n = (if n < 10 then [char_of (48 + n)] else decimal (n div 10) @ [char_of (48 + n mod 10)])"

declare decimal.simps [simp del]

section \<open>The number at the front of a text\<close>

text \<open>
  \<open>strtoull\<close> of the C library on a text without the terminating null: \<open>None\<close> when there is no number,
  otherwise the value, whether it is out of range, and the rest of the text. White space and a sign in
  front of the digits are skipped, a minus sign negates modulo \<open>2 ^ 64\<close>, and for base 16 the prefix \<open>0x\<close>
  belongs to the number when a digit follows.
\<close>

definition digit_value :: "nat \<Rightarrow> char \<Rightarrow> nat option" where
  "digit_value base c = (case HexNibble c of Some d \<Rightarrow> if d < base then Some d else None | None \<Rightarrow> None)"

definition strtoull :: "nat \<Rightarrow> string \<Rightarrow> (u64 \<times> bool \<times> string) option" where
  "strtoull base text =
     (let s = dropWhile isspace (takeWhile (\<lambda>c. c \<noteq> CHR 0x00) text);
          negative = (s \<noteq> [] \<and> hd s = CHR ''-'');
          s = (if s \<noteq> [] \<and> (hd s = CHR ''-'' \<or> hd s = CHR ''+'') then tl s else s);
          isPrefix = (base = 16 \<and> length s > 2 \<and> s ! 0 = CHR ''0'' \<and> s ! 1 \<in> {CHR ''x'', CHR ''X''} \<and>
            digit_value base (s ! 2) \<noteq> None);
          s = (if isPrefix then drop 2 s else s);
          digits = takeWhile (\<lambda>c. digit_value base c \<noteq> None) s;
          rest = dropWhile (\<lambda>c. digit_value base c \<noteq> None) s;
          v = fold (\<lambda>c acc. acc * base + the (digit_value base c)) digits 0
      in if digits = [] then None
         else if v \<ge> 2 ^ 64 then Some (UINT64_MAX, True, rest)
         else Some (if negative then - of_nat v else of_nat v, False, rest))"

section \<open>Printed numbers are read back\<close>

lemma of_char_hex_digit: "d < 16 \<Longrightarrow> of_char (hex_digit d) = (if d < 10 then 48 + d else 87 + d)"
  by (simp add: hex_digit_def of_char_of)

lemma HexNibble_hex_digit [simp]: "d < 16 \<Longrightarrow> HexNibble (hex_digit d) = Some d"
  by (auto simp: HexNibble_def Let_def of_char_hex_digit)

lemma hex_digit_clean:
  assumes "d < 16"
  shows "\<not> isspace (hex_digit d)" "hex_digit d \<noteq> CHR 0x00" "(48 :: nat) \<le> of_char (hex_digit d)"
proof -
  show ge: "(48 :: nat) \<le> of_char (hex_digit d)" using assms by (simp add: of_char_hex_digit)
  have ne: "hex_digit d \<noteq> c" if "(of_char c :: nat) < 48" for c using ge that by auto
  show "\<not> isspace (hex_digit d)" using ge by (auto simp: isspace_def Let_def)
  show "hex_digit d \<noteq> CHR 0x00" by (rule ne) simp
qed

lemma hex_digits_range: "c \<in> set (hex_digits n) \<Longrightarrow> \<exists>d < 16. c = hex_digit d"
proof (induction n rule: hex_digits.induct)
  case (1 n)
  show ?case
  proof (cases "n < 16")
    case True
    with 1(2) show ?thesis by (auto simp: hex_digits.simps [of n])
  next
    case False
    with 1(2) have "c \<in> set (hex_digits (n div 16)) \<or> c = hex_digit (n mod 16)"
      by (auto simp: hex_digits.simps [of n])
    moreover have "n mod 16 < 16" by simp
    ultimately show ?thesis using 1(1) [OF False] by blast
  qed
qed

lemma hex_digits_ne [simp]: "hex_digits n \<noteq> []"
  by (subst hex_digits.simps) simp

abbreviation hex_fold :: "string \<Rightarrow> nat \<Rightarrow> nat" where
  "hex_fold \<equiv> fold (\<lambda>c acc. acc * 16 + the (digit_value 16 c))"

lemma digit_value_hex [simp]: "d < 16 \<Longrightarrow> digit_value 16 (hex_digit d) = Some d"
  by (simp add: digit_value_def)

lemma hex_fold_digits: "hex_fold (hex_digits n) 0 = n"
proof (induction n rule: hex_digits.induct)
  case (1 n)
  then show ?case by (cases "n < 16") (simp_all add: hex_digits.simps [of n])
qed

lemma takeWhile_all:
  assumes "\<And>c. c \<in> set s \<Longrightarrow> P c"
  shows "takeWhile P s = s" "dropWhile P s = []"
  using assms by (simp_all add: takeWhile_eq_all_conv dropWhile_eq_Nil_conv)

lemma strtoull_hex:
  assumes ne: "s \<noteq> []" and digits: "\<And>c. c \<in> set s \<Longrightarrow> digit_value 16 c \<noteq> None \<and> c \<noteq> CHR 0x00"
    and range: "hex_fold s 0 < 2 ^ 64"
  shows "strtoull 16 (CHR ''0'' # CHR ''x'' # s) = Some (of_nat (hex_fold s 0), False, [])"
proof -
  have nul: "takeWhile (\<lambda>c. c \<noteq> CHR 0x00) (CHR ''0'' # CHR ''x'' # s) = CHR ''0'' # CHR ''x'' # s"
    using digits takeWhile_all(1) [of s "\<lambda>c. c \<noteq> CHR 0x00"] by simp
  have all: "takeWhile (\<lambda>c. digit_value 16 c \<noteq> None) s = s" "dropWhile (\<lambda>c. digit_value 16 c \<noteq> None) s = []"
    using takeWhile_all [of s "\<lambda>c. digit_value 16 c \<noteq> None"] digits by blast+
  have prefix: "2 < length (CHR ''0'' # CHR ''x'' # s)" "digit_value 16 ((CHR ''0'' # CHR ''x'' # s) ! 2) \<noteq> None"
    using ne digits [of "hd s"] by (cases s; simp)+
  have white: "\<not> isspace (CHR ''0'')" by (simp add: isspace_def)
  show ?thesis
    unfolding strtoull_def nul Let_def using ne range prefix white by (simp add: all del: not_None_eq)
qed

lemma strtoull_hex_digits:
  "strtoull 16 (CHR ''0'' # CHR ''x'' # hex_digits (unat a)) = Some (a :: u64, False, [])"
proof -
  have "hex_fold (hex_digits (unat a)) 0 < 2 ^ 64"
    unfolding hex_fold_digits using unsigned_less [of a, where ?'a = nat] by simp
  moreover have "digit_value 16 c \<noteq> None \<and> c \<noteq> CHR 0x00" if c: "c \<in> set (hex_digits (unat a))" for c
  proof -
    from hex_digits_range [OF c] obtain d where "d < 16" "c = hex_digit d" by blast
    then show ?thesis using hex_digit_clean(2) digit_value_hex by simp
  qed
  ultimately have "strtoull 16 (CHR ''0'' # CHR ''x'' # hex_digits (unat a)) =
      Some (of_nat (hex_fold (hex_digits (unat a)) 0), False, [])"
    by (intro strtoull_hex hex_digits_ne)
  then show ?thesis unfolding hex_fold_digits by simp
qed

text \<open>A numeral in front of other text: the digits are taken and the rest is left.\<close>

lemma digit_valueD:
  assumes "digit_value base c \<noteq> None"
  shows "\<not> isspace c" "c \<noteq> CHR ''-''" "c \<noteq> CHR ''+''" "c \<noteq> CHR ''x''" "c \<noteq> CHR ''X''" "c \<noteq> CHR 0x00"
  using assms by (auto simp: digit_value_def HexNibble_def isspace_def Let_def split: if_splits)

lemma strtoull_digits:
  assumes ds: "ds \<noteq> []" "\<And>c. c \<in> set ds \<Longrightarrow> digit_value base c \<noteq> None"
    and rest: "rest = [] \<or> digit_value base (hd rest) = None \<and> hd rest \<noteq> CHR ''x'' \<and> hd rest \<noteq> CHR ''X''"
    and nul: "CHR 0x00 \<notin> set rest"
    and v: "v = fold (\<lambda>c acc. acc * base + the (digit_value base c)) ds 0" "v < 2 ^ 64"
  shows "strtoull base (ds @ rest) = Some (of_nat v, False, rest)"
proof -
  from ds(2) have digit: "digit_value base c \<noteq> None" if "c \<in> set ds" for c using that by blast
  have whole: "takeWhile (\<lambda>c. c \<noteq> CHR 0x00) (ds @ rest) = ds @ rest"
    using nul digit_valueD(6) [OF digit] by (auto simp: takeWhile_eq_all_conv)
  have hd: "hd ds \<in> set ds" using ds(1) by simp
  note first = digit_valueD [OF digit [OF hd]]
  have white: "dropWhile isspace (ds @ rest) = ds @ rest"
    using ds(1) first(1) by (cases ds) simp_all
  have hd_app: "hd (ds @ rest) = hd ds" using ds(1) by simp
  have sign: "(if ds @ rest \<noteq> [] \<and> (hd ds = CHR ''-'' \<or> hd ds = CHR ''+'') then tl (ds @ rest) else ds @ rest) = ds @ rest"
    using first(2,3) by simp
  have noprefix: "\<not> (base = 16 \<and> length (ds @ rest) > 2 \<and> (ds @ rest) ! 0 = CHR ''0'' \<and>
      (ds @ rest) ! 1 \<in> {CHR ''x'', CHR ''X''} \<and> digit_value base ((ds @ rest) ! 2) \<noteq> None)"
  proof (cases "length ds > 1")
    case True
    then have "(ds @ rest) ! 1 \<in> set ds" by (simp add: nth_append)
    with digit_valueD(4,5) [OF digit] show ?thesis by fastforce
  next
    case False
    with ds(1) have "length ds = 1" by (cases ds) auto
    then show ?thesis using rest by (cases rest) (auto simp: nth_append)
  qed
  have split: "takeWhile (\<lambda>c. digit_value base c \<noteq> None) (ds @ rest) = ds"
    "dropWhile (\<lambda>c. digit_value base c \<noteq> None) (ds @ rest) = rest"
  proof -
    have "takeWhile (\<lambda>c. digit_value base c \<noteq> None) (ds @ rest) = ds @ takeWhile (\<lambda>c. digit_value base c \<noteq> None) rest"
      by (rule takeWhile_append2) (rule digit)
    moreover have "dropWhile (\<lambda>c. digit_value base c \<noteq> None) (ds @ rest) = dropWhile (\<lambda>c. digit_value base c \<noteq> None) rest"
      by (rule dropWhile_append2) (rule digit)
    moreover have "takeWhile (\<lambda>c. digit_value base c \<noteq> None) rest = []"
      "dropWhile (\<lambda>c. digit_value base c \<noteq> None) rest = rest"
      using rest by (cases rest; simp)+
    ultimately show "takeWhile (\<lambda>c. digit_value base c \<noteq> None) (ds @ rest) = ds"
      "dropWhile (\<lambda>c. digit_value base c \<noteq> None) (ds @ rest) = rest" by simp_all
  qed
  show ?thesis
    unfolding strtoull_def whole Let_def white hd_app sign if_not_P [OF noprefix] split
    using first(2) ds(1) v by simp
qed

text \<open>Digits padded with zeros to a width, as \<open>printf\<close> writes them for \<open>%08llx\<close>.\<close>

definition hex_padded :: "nat \<Rightarrow> nat \<Rightarrow> string" where
  "hex_padded width n = replicate (width - length (hex_digits n)) CHR ''0'' @ hex_digits n"

lemma hex_padded_digits:
  "hex_padded width n \<noteq> []" "c \<in> set (hex_padded width n) \<Longrightarrow> digit_value 16 c \<noteq> None"
  "hex_fold (hex_padded width n) 0 = n"
proof -
  show "hex_padded width n \<noteq> []" by (simp add: hex_padded_def)
  have zero: "digit_value 16 (CHR ''0'') = Some 0" by (simp add: digit_value_def HexNibble_def)
  show "digit_value 16 c \<noteq> None" if c: "c \<in> set (hex_padded width n)"
  proof (cases "c \<in> set (hex_digits n)")
    case True
    then show ?thesis using hex_digits_range digit_value_hex by fastforce
  next
    case False
    with c have "c = CHR ''0''" by (auto simp: hex_padded_def)
    then show ?thesis using zero by simp
  qed
  have "hex_fold (replicate k (CHR ''0'')) 0 = 0" for k
    by (induction k) (simp_all add: zero)
  then show "hex_fold (hex_padded width n) 0 = n"
    by (simp add: hex_padded_def hex_fold_digits)
qed

lemma decimal_digit:
  assumes "d < 10"
  shows "digit_value 10 (char_of (48 + d)) = Some d"
  using assms by (simp add: digit_value_def HexNibble_def of_char_of)

lemma decimal_ne [simp]: "decimal n \<noteq> []"
  by (subst decimal.simps) simp

lemma decimal_digits:
  "c \<in> set (decimal n) \<Longrightarrow> digit_value 10 c \<noteq> None"
  "fold (\<lambda>c acc. acc * 10 + the (digit_value 10 c)) (decimal n) 0 = n"
proof (induction n rule: decimal.induct)
  case (1 n)
  { case 1
    then show ?case
      using "1.IH"(1) by (cases "n < 10") (auto simp: decimal.simps [of n] decimal_digit)
  next
    case 2
    then show ?case
      using "1.IH"(2) by (cases "n < 10") (auto simp: decimal.simps [of n] decimal_digit)
  }
qed

end
