(* ===== verification/AndroidOs.thy ===== *)
theory AndroidOs
  imports Protocol CLibrary "HOL-Library.State_Monad" "HOL-Library.Monad_Syntax"
begin

text \<open>
  The system calls that the server makes on the device. The record \<open>Os\<close> has one computation on the state \<open>'k\<close> of the
  kernel for each of them; the definitions of the server take such a record as an argument, so that whatever is
  proved of them holds for every behaviour of the kernel. A call that fails yields \<open>None\<close> or the C result \<open>- 1\<close> with
  the value that it leaves in \<open>errno\<close>; where the sources clear \<open>errno\<close> first, this is the value that they see.

  \<^item> \<open>os_driver_fd\<close> is the \<open>reboot\<close> system call through which the NI driver hands out its file descriptor.
  \<^item> \<open>os_ioctl\<close> takes the argument structure as bytes and gives back what the kernel made of it.
  \<^item> \<open>os_read\<close> is \<open>read\<close> on the driver: it takes the packet and the contents of the user buffer to which the packet
    points (empty if there is none) and gives back both.
  \<^item> \<open>os_vm_readv\<close>, \<open>os_vm_writev\<close> and \<open>os_pwrite\<close> move memory of another process; a read yields the bytes that it placed at
    the front of the buffer.
  \<^item> \<open>os_listdir\<close> lists a directory (name, whether it is a directory), \<open>os_readfile\<close> gives the contents of a file.
  \<^item> \<open>os_mmap\<close> maps the ring buffer of a perf event; \<open>os_ring\<close> reads its \<open>data_head\<close> and its data pages and
    \<open>os_ring_tail\<close> stores its \<open>data_tail\<close>.
\<close>

record PerfAttr =
  pa_type :: u32
  pa_addr :: u64
  pa_len :: u32

record 'k Os =
  os_pagesize :: nat
  os_driver_fd :: "('k, int \<times> int) state"
  os_ioctl :: "int \<Rightarrow> nat \<Rightarrow> bytes \<Rightarrow> ('k, int \<times> bytes) state"
  os_read :: "int \<Rightarrow> bytes \<Rightarrow> bytes \<Rightarrow> ('k, int \<times> int \<times> bytes \<times> bytes) state"
  os_close :: "int \<Rightarrow> ('k, unit) state"
  os_open :: "string \<Rightarrow> ('k, int \<times> int) state"
  os_finit_module :: "int \<Rightarrow> string \<Rightarrow> ('k, int \<times> int) state"
  os_exists :: "string \<Rightarrow> ('k, bool) state"
  os_klog_clear :: "('k, unit) state"
  os_kill0 :: "int \<Rightarrow> ('k, bool) state"
  os_listdir :: "string \<Rightarrow> ('k, (string \<times> bool) list option) state"
  os_readfile :: "string \<Rightarrow> ('k, string option) state"
  os_readlink :: "string \<Rightarrow> ('k, string option) state"
  os_vm_readv :: "int \<Rightarrow> u64 \<Rightarrow> nat \<Rightarrow> ('k, bytes option) state"
  os_vm_writev :: "int \<Rightarrow> u64 \<Rightarrow> bytes \<Rightarrow> ('k, nat option) state"
  os_pwrite :: "int \<Rightarrow> u64 \<Rightarrow> bytes \<Rightarrow> ('k, nat option) state"
  os_perf_event_open :: "PerfAttr \<Rightarrow> int \<Rightarrow> ('k, int) state"
  os_mmap :: "int \<Rightarrow> nat \<Rightarrow> ('k, nat option) state"
  os_munmap :: "nat \<Rightarrow> nat \<Rightarrow> ('k, unit) state"
  os_ring :: "nat \<Rightarrow> ('k, u64 \<times> bytes) state"
  os_ring_tail :: "nat \<Rightarrow> u64 \<Rightarrow> ('k, unit) state"
  os_now :: "('k, u64) state"
  os_random :: "('k, u32) state"
  os_demangle :: "string \<Rightarrow> string option"
  os_strerror :: "int \<Rightarrow> string"

section \<open>Error numbers\<close>

abbreviation "ENOENT \<equiv> 2 :: int"
abbreviation "EIO \<equiv> 5 :: int"
abbreviation "EBADF \<equiv> 9 :: int"
abbreviation "EEXIST \<equiv> 17 :: int"
abbreviation "ENODEV \<equiv> 19 :: int"
abbreviation "EINVAL \<equiv> 22 :: int"
abbreviation "EPROTO \<equiv> 71 :: int"

section \<open>Parts of the state\<close>

text \<open>
  A computation on one part of a state, as a computation on the whole: \<open>get\<close> reads the part and \<open>put\<close>
  writes it back.
\<close>

definition part :: "('s \<Rightarrow> 't) \<Rightarrow> ('t \<Rightarrow> 's \<Rightarrow> 's) \<Rightarrow> ('t, 'a) state \<Rightarrow> ('s, 'a) state" where
  "part get put m = State (\<lambda>s. case run_state m (get s) of (a, t) \<Rightarrow> (a, put t s))"

lemma run_part [simp]:
  "run_state (part get put m) s = (case run_state m (get s) of (a, t) \<Rightarrow> (a, put t s))"
  by (simp add: part_def)

lemma run_state_update [simp]: "run_state (State_Monad.update f) s = ((), f s)"
  by (simp add: State_Monad.update_def State_Monad.set_def State_Monad.get_def)

text \<open>\<open>for_each\<close> is a loop over a container whose body changes the state; the results are collected.\<close>

fun for_each :: "('x \<Rightarrow> ('s, 'a) state) \<Rightarrow> 'x list \<Rightarrow> ('s, 'a list) state" where
  "for_each f [] = State_Monad.return []"
| "for_each f (x # xs) = do { a \<leftarrow> f x; as \<leftarrow> for_each f xs; State_Monad.return (a # as) }"

lemma keeps_for_each [keeps_intros]:
  "(\<And>x. x \<in> set xs \<Longrightarrow> keeps invar g (f x)) \<Longrightarrow> keeps invar g (for_each f xs)"
  by (induction xs) (auto intro!: keeps_intros)

end
