(* ===== verification/NiDriver.thy ===== *)
theory NiDriver
  imports AndroidOs
begin

text \<open>
  The transport to the NI kernel driver, from \<open>engine/android/NiDriver.cpp\<close> and \<open>NiDriver.h\<close>. A request is one packet, the 40 bytes
  of \<open>ni_request\<close> followed by the argument structure, that is handed to \<open>read\<close> on the driver's file descriptor;
  the driver answers into the same packet. The structures are bytes in the layout that the static assertions of the
  header fix. An object of \<open>NiDriver\<close> is its file descriptor, and every operation takes it as an argument.
\<close>

section \<open>Packets\<close>

definition ni_header :: "u8 \<Rightarrow> u64 \<Rightarrow> u64 \<Rightarrow> u64 \<Rightarrow> u64 \<Rightarrow> bytes" where
  "ni_header c p1 p2 p3 buf_size =
     [c, 0, 0, 0, 0, 0, 0, 0] @ u64_bytes p1 @ u64_bytes p2 @ u64_bytes p3 @ u64_bytes buf_size"

text \<open>A buffer after \<open>new\<close> was copied over its front.\<close>

definition overlay :: "bytes \<Rightarrow> bytes \<Rightarrow> bytes" where
  "overlay old new = take (length old) new @ drop (length new) old"

text \<open>\<open>static_cast<int>\<close> of a wider number.\<close>

definition to_i32 :: "int \<Rightarrow> int" where
  "to_i32 x = sint (of_int x :: u32)"

definition ni_cmd ::
    "'k Os \<Rightarrow> int \<Rightarrow> u8 \<Rightarrow> u64 \<Rightarrow> u64 \<Rightarrow> u64 \<Rightarrow> bytes \<Rightarrow> bytes \<Rightarrow> ('k, int \<times> int \<times> bytes \<times> bytes) state" where
  "ni_cmd os fd c p1 p2 p3 buf user = do {
     let pkt = ni_header c p1 p2 p3 (of_nat (length buf)) @ buf;
     (ret, err, pkt', user') \<leftarrow> os_read os fd pkt user;
     State_Monad.return (ret, err, drop 40 (overlay pkt pkt'), overlay user user') }"

section \<open>Commands\<close>

abbreviation "NI_CMD_OPEN_PROCESS \<equiv> 2 :: u8"
abbreviation "NI_CMD_READ_PROCESS_MEMORY \<equiv> 3 :: u8"
abbreviation "NI_CMD_WRITE_PROCESS_MEMORY \<equiv> 4 :: u8"
abbreviation "NI_CMD_CLOSE_PROCESS \<equiv> 5 :: u8"
abbreviation "NI_CMD_GET_PROCESS_MAPS_COUNT \<equiv> 6 :: u8"
abbreviation "NI_CMD_GET_PROCESS_MAPS_LIST \<equiv> 7 :: u8"
abbreviation "NI_CMD_CHECK_PROCESS_ADDR_PHY \<equiv> 8 :: u8"
abbreviation "NI_CMD_GET_PID_LIST \<equiv> 9 :: u8"
abbreviation "NI_CMD_SET_PROCESS_ROOT \<equiv> 10 :: u8"
abbreviation "NI_CMD_GET_PROCESS_RSS \<equiv> 11 :: u8"
abbreviation "NI_CMD_GET_PROCESS_CMDLINE \<equiv> 12 :: u8"
abbreviation "NI_CMD_READ_PROCESS_MEMORY_BULK \<equiv> 16 :: u8"
abbreviation "NI_CMD_GET_PROCESS_COMM \<equiv> 17 :: u8"
abbreviation "NI_CMD_GET_SO_BASE_ADDRESS \<equiv> 18 :: u8"
abbreviation "NI_CMD_HWBP_INSTALL \<equiv> 101 :: u8"
abbreviation "NI_CMD_HWBP_UNINSTALL \<equiv> 102 :: u8"
abbreviation "NI_CMD_HWBP_DISABLE \<equiv> 103 :: u8"
abbreviation "NI_CMD_HWBP_ENABLE \<equiv> 104 :: u8"
abbreviation "NI_CMD_HWBP_READ_EVENTS \<equiv> 110 :: u8"
abbreviation "NI_CMD_HWBP_QUERY_TASK \<equiv> 113 :: u8"
abbreviation "NI_CMD_HWBP_CLEANUP_TASK \<equiv> 114 :: u8"
abbreviation "NI_CMD_UXN_INSTALL \<equiv> 140 :: u8"
abbreviation "NI_CMD_UXN_REMOVE \<equiv> 141 :: u8"
abbreviation "NI_CMD_UXN_WAIT \<equiv> 142 :: u8"
abbreviation "NI_CMD_UXN_RESUME \<equiv> 143 :: u8"
abbreviation "NI_CMD_UXN_STATUS \<equiv> 144 :: u8"
abbreviation "NI_CMD_UXN_CLEAR \<equiv> 145 :: u8"

abbreviation "NI_HWBP_MAX_EVENTS_PER_READ \<equiv> 256 :: nat"
abbreviation "NI_HWBP_MAX_QUERY_ENTRIES \<equiv> 64 :: u32"
abbreviation "NI_UXN_MAX_SLOTS \<equiv> 16 :: u32"
abbreviation "NI_UXN_WAIT_ANY_SLOT \<equiv> UINT32_MAX"

text \<open>\<open>_IOR('N', nr, type)\<close> with the size of the type.\<close>

definition IOR_N :: "nat \<Rightarrow> nat \<Rightarrow> nat" where
  "IOR_N nr size_of = 2 ^ 31 + size_of * 2 ^ 16 + 78 * 2 ^ 8 + nr"

definition u16_at :: "bytes \<Rightarrow> nat \<Rightarrow> nat" where
  "u16_at bs off = of_le (take 2 (drop off bs))"

section \<open>The connection\<close>

definition ni_validate_protocol :: "'k Os \<Rightarrow> int \<Rightarrow> ('k, bool) state" where
  "ni_validate_protocol os fd =
     (if fd < 0 then State_Monad.return False
      else do {
        (r, info) \<leftarrow> os_ioctl os fd (IOR_N 4 8) (replicate 8 0);
        State_Monad.return (r \<ge> 0 \<and> u32_at info 0 = 0x4e494d54 \<and> u16_at info 4 = 1 \<and> u16_at info 6 = 40) })"

text \<open>The constructor: the file descriptor, \<open>- 1\<close> without a connection, and \<open>errno\<close>.\<close>

definition NiDriver_new :: "'k Os \<Rightarrow> ('k, int \<times> int) state" where
  "NiDriver_new os = do {
     (fd, err) \<leftarrow> os_driver_fd os;
     if fd \<ge> 0 then do {
       ok \<leftarrow> ni_validate_protocol os fd;
       if ok then State_Monad.return (fd, err)
       else do { os_close os fd; State_Monad.return (- 1, EPROTO) }}
     else State_Monad.return (fd, err) }"

definition NiDriver_destroy :: "'k Os \<Rightarrow> int \<Rightarrow> ('k, unit) state" where
  "NiDriver_destroy os fd = (if fd \<ge> 0 then os_close os fd else State_Monad.return ())"

definition get_expire_time :: "'k Os \<Rightarrow> int \<Rightarrow> ('k, int) state" where
  "get_expire_time os fd = do {
     (r, t) \<leftarrow> os_ioctl os fd (IOR_N 1 8) (replicate 8 0);
     State_Monad.return (if r < 0 then - 1 else sint (u64_at t 0)) }"

section \<open>Processes and memory\<close>

definition ni_open_process :: "'k Os \<Rightarrow> int \<Rightarrow> int \<Rightarrow> ('k, int) state" where
  "ni_open_process os fd pid = do {
     (ret, err, buf, u) \<leftarrow> ni_cmd os fd NI_CMD_OPEN_PROCESS (of_int pid) 0 0 (u64_bytes 0) [];
     State_Monad.return (if ret < 0 then - 1 else sint (ucast (u64_at buf 0) :: u32)) }"

definition close_process :: "'k Os \<Rightarrow> int \<Rightarrow> int \<Rightarrow> ('k, unit) state" where
  "close_process os fd pid = do {
     ni_cmd os fd NI_CMD_CLOSE_PROCESS (of_int pid) 0 0 (u64_bytes 0) [];
     State_Monad.return () }"

definition ni_read_memory :: "'k Os \<Rightarrow> int \<Rightarrow> int \<Rightarrow> u64 \<Rightarrow> bytes \<Rightarrow> ('k, int \<times> bytes) state" where
  "ni_read_memory os fd pid addr buf = do {
     (ret, err, buf', u) \<leftarrow> ni_cmd os fd NI_CMD_READ_PROCESS_MEMORY (of_int pid) addr 0 buf [];
     State_Monad.return (ret, buf') }"

definition ni_write_memory :: "'k Os \<Rightarrow> int \<Rightarrow> int \<Rightarrow> u64 \<Rightarrow> bytes \<Rightarrow> ('k, int) state" where
  "ni_write_memory os fd pid addr data = do {
     (ret, err, buf', u) \<leftarrow> ni_cmd os fd NI_CMD_WRITE_PROCESS_MEMORY (of_int pid) addr 0 data [];
     State_Monad.return ret }"

record ni_map_entry =
  ne_start :: u64
  ne_end :: u64
  ne_flags :: bytes
  ne_path :: string

definition to_map_entry :: "bytes \<Rightarrow> ni_map_entry" where
  "to_map_entry b = \<lparr>ne_start = u64_at b 0, ne_end = u64_at b 8, ne_flags = take 4 (drop 16 b),
     ne_path = takeWhile (\<lambda>c. c \<noteq> CHR 0x00) (chars_of (take 1024 (drop 20 b)))\<rparr>"

text \<open>\<open>items n m bs\<close> cuts an array of \<open>m\<close> structures of \<open>n\<close> bytes; \<open>resized\<close> is the array after \<open>resize(m)\<close>.\<close>

definition items :: "nat \<Rightarrow> nat \<Rightarrow> bytes \<Rightarrow> bytes list" where
  "items n m bs = map (\<lambda>i. take n (drop (i * n) bs)) [0..<m]"

definition resized :: "nat \<Rightarrow> nat \<Rightarrow> bytes list \<Rightarrow> bytes list" where
  "resized n m xs = take m xs @ replicate (m - length xs) (replicate n 0)"

definition get_maps_count :: "'k Os \<Rightarrow> int \<Rightarrow> int \<Rightarrow> ('k, int) state" where
  "get_maps_count os fd pid = do {
     (ret, err, buf, u) \<leftarrow> ni_cmd os fd NI_CMD_GET_PROCESS_MAPS_COUNT (of_int pid) 0 0 [] [];
     State_Monad.return (to_i32 ret) }"

definition get_maps_list :: "'k Os \<Rightarrow> int \<Rightarrow> int \<Rightarrow> bytes \<Rightarrow> ('k, int \<times> bytes) state" where
  "get_maps_list os fd pid out = do {
     (ret, err, buf, u) \<leftarrow> ni_cmd os fd NI_CMD_GET_PROCESS_MAPS_LIST (of_int pid) 0 0 out [];
     State_Monad.return (to_i32 ret, buf) }"

definition get_all_maps :: "'k Os \<Rightarrow> int \<Rightarrow> int \<Rightarrow> ('k, ni_map_entry list) state" where
  "get_all_maps os fd pid = do {
     n \<leftarrow> get_maps_count os fd pid;
     if n \<le> 0 then State_Monad.return []
     else do {
       (got, buf) \<leftarrow> get_maps_list os fd pid (replicate (nat n * 1044) 0);
       State_Monad.return (if got \<le> 0 then []
         else map to_map_entry (resized 1044 (nat got) (items 1044 (nat n) buf))) }}"

definition check_phy_addr :: "'k Os \<Rightarrow> int \<Rightarrow> int \<Rightarrow> u64 \<Rightarrow> ('k, bool) state" where
  "check_phy_addr os fd pid addr = do {
     (ret, err, buf, u) \<leftarrow> ni_cmd os fd NI_CMD_CHECK_PROCESS_ADDR_PHY (of_int pid) addr 0 [] [];
     State_Monad.return (ret = 1) }"

definition get_pid_list :: "'k Os \<Rightarrow> int \<Rightarrow> ('k, int list) state" where
  "get_pid_list os fd = do {
     (n, e1, b1, u1) \<leftarrow> ni_cmd os fd NI_CMD_GET_PID_LIST 0 0 0 [] [];
     if n \<le> 0 then State_Monad.return []
     else do {
       (got, e2, buf, u2) \<leftarrow> ni_cmd os fd NI_CMD_GET_PID_LIST 0 0 0 (replicate (nat n * 4) 0) [];
       State_Monad.return (if got \<le> 0 then []
         else map (\<lambda>b. i32_at b 0) (resized 4 (nat got) (items 4 (nat n) buf))) }}"

definition to_text :: "bytes \<Rightarrow> string" where
  "to_text b = takeWhile (\<lambda>c. c \<noteq> CHR 0x00) (chars_of b)"

definition get_process_cmdline :: "'k Os \<Rightarrow> int \<Rightarrow> int \<Rightarrow> ('k, string) state" where
  "get_process_cmdline os fd pid = do {
     (ret, err, buf, u) \<leftarrow> ni_cmd os fd NI_CMD_GET_PROCESS_CMDLINE (of_int pid) 0 0 (replicate 256 0) [];
     State_Monad.return (if ret \<le> 0 then [] else to_text buf) }"

definition get_process_comm :: "'k Os \<Rightarrow> int \<Rightarrow> int \<Rightarrow> ('k, string) state" where
  "get_process_comm os fd pid = do {
     (ret, err, buf, u) \<leftarrow> ni_cmd os fd NI_CMD_GET_PROCESS_COMM (of_int pid) 0 0 (replicate 17 0) [];
     State_Monad.return (if ret < 0 then [] else to_text buf) }"

definition get_so_base_address :: "'k Os \<Rightarrow> int \<Rightarrow> int \<Rightarrow> string \<Rightarrow> ('k, u64) state" where
  "get_so_base_address os fd pid so_name =
     (if so_name = [] then State_Monad.return 0
      else do {
        (ret, err, buf, u) \<leftarrow> ni_cmd os fd NI_CMD_GET_SO_BASE_ADDRESS (of_int pid) 0 0
          (u64_bytes 0 @ bytes_of so_name @ [0]) [];
        State_Monad.return (if ret < 0 then 0 else u64_at buf 0) })"

section \<open>Hardware breakpoints\<close>

record ni_hwbp_install =
  hi_tid :: int
  hi_flags :: u32
  hi_addr :: u64
  hi_len :: u32
  hi_type :: u32
  hi_handle :: u64
  hi_reclaimed_slots :: u32
  hi_blocked_slots :: u32

definition install_bytes :: "ni_hwbp_install \<Rightarrow> bytes" where
  "install_bytes r = i32_bytes (hi_tid r) @ u32_bytes (hi_flags r) @ u64_bytes (hi_addr r) @ u32_bytes (hi_len r) @
     u32_bytes (hi_type r) @ u64_bytes (hi_handle r) @ u32_bytes (hi_reclaimed_slots r) @ u32_bytes (hi_blocked_slots r)"

definition to_install :: "bytes \<Rightarrow> ni_hwbp_install" where
  "to_install b = \<lparr>hi_tid = i32_at b 0, hi_flags = u32_at b 4, hi_addr = u64_at b 8, hi_len = u32_at b 16,
     hi_type = u32_at b 20, hi_handle = u64_at b 24, hi_reclaimed_slots = u32_at b 32, hi_blocked_slots = u32_at b 36\<rparr>"

definition hwbp_install :: "'k Os \<Rightarrow> int \<Rightarrow> ni_hwbp_install \<Rightarrow> ('k, int \<times> int \<times> ni_hwbp_install) state" where
  "hwbp_install os fd req = do {
     (ret, err, buf, u) \<leftarrow> ni_cmd os fd NI_CMD_HWBP_INSTALL 0 0 0 (install_bytes req) [];
     State_Monad.return (to_i32 ret, err, to_install buf) }"

definition handle_cmd :: "'k Os \<Rightarrow> int \<Rightarrow> u8 \<Rightarrow> u64 \<Rightarrow> ('k, int) state" where
  "handle_cmd os fd c handle = do {
     (ret, err, buf, u) \<leftarrow> ni_cmd os fd c 0 0 0 (u64_bytes handle) [];
     State_Monad.return (to_i32 ret) }"

text \<open>
  \<open>ni_hwbp_event\<close> has 880 bytes; the registers start at 64. \<open>user_address\<close> stands for the address of the vector that the
  request points to.
\<close>

definition user_address :: u64 where
  "user_address = 4096"

definition hwbp_read_events :: "'k Os \<Rightarrow> int \<Rightarrow> u64 \<Rightarrow> nat \<Rightarrow> ('k, bytes list) state" where
  "hwbp_read_events os fd handle capacity = do {
     (ret, err, req, events) \<leftarrow> ni_cmd os fd NI_CMD_HWBP_READ_EVENTS 0 0 0
       (u64_bytes handle @ u64_bytes user_address @ u32_bytes (of_nat capacity) @ u32_bytes 0)
       (replicate (capacity * 880) 0);
     State_Monad.return (if ret < 0 then []
       else resized 880 (unat (u32_at req 20)) (items 880 capacity events)) }"

definition task_query_bytes :: "int \<Rightarrow> u32 \<Rightarrow> bytes" where
  "task_query_bytes tid capacity = i32_bytes tid @ u32_bytes 0 @
     u64_bytes (if capacity \<noteq> 0 then user_address else 0) @ u32_bytes capacity @ replicate 44 0"

text \<open>The snapshot of a thread (summary and entries), or the error number.\<close>

definition hwbp_query_task :: "'k Os \<Rightarrow> int \<Rightarrow> int \<Rightarrow> u32 \<Rightarrow> ('k, int + bytes \<times> bytes list) state" where
  "hwbp_query_task os fd tid capacity =
     (if tid \<le> 0 \<or> capacity > NI_HWBP_MAX_QUERY_ENTRIES then State_Monad.return (Inl EINVAL)
      else do {
        (ret, err, summary, entries) \<leftarrow> ni_cmd os fd NI_CMD_HWBP_QUERY_TASK 0 0 0 (task_query_bytes tid capacity)
          (replicate (unat capacity * 56) 0);
        let n = u32_at summary 20;
        State_Monad.return (if ret < 0 then Inl err
          else if n > capacity \<or> u32_at summary 24 < n then Inl EPROTO
          else Inr (overlay summary (take 8 summary @ u64_bytes 0), resized 56 (unat n) (items 56 (unat capacity) entries))) })"

section \<open>UXN breakpoints\<close>

definition ni_uxn_install :: "'k Os \<Rightarrow> int \<Rightarrow> bytes \<Rightarrow> ('k, int \<times> int \<times> bytes) state" where
  "ni_uxn_install os fd req = do {
     (ret, err, buf, u) \<leftarrow> ni_cmd os fd NI_CMD_UXN_INSTALL 0 0 0 req [];
     State_Monad.return (to_i32 ret, err, buf) }"

definition ni_uxn_remove :: "'k Os \<Rightarrow> int \<Rightarrow> u32 \<Rightarrow> u64 \<Rightarrow> ('k, int \<times> int) state" where
  "ni_uxn_remove os fd pid addr = do {
     (ret, err, buf, u) \<leftarrow> ni_cmd os fd NI_CMD_UXN_REMOVE 0 0 0 (u32_bytes pid @ u32_bytes 0 @ u64_bytes addr) [];
     State_Monad.return (to_i32 ret, err) }"

definition ni_uxn_wait :: "'k Os \<Rightarrow> int \<Rightarrow> bytes \<Rightarrow> ('k, int \<times> int \<times> bytes) state" where
  "ni_uxn_wait os fd req = do {
     (ret, err, buf, u) \<leftarrow> ni_cmd os fd NI_CMD_UXN_WAIT 0 0 0 req [];
     State_Monad.return (to_i32 ret, err, buf) }"

definition ni_uxn_resume :: "'k Os \<Rightarrow> int \<Rightarrow> bytes \<Rightarrow> ('k, int \<times> int) state" where
  "ni_uxn_resume os fd req = do {
     (ret, err, buf, u) \<leftarrow> ni_cmd os fd NI_CMD_UXN_RESUME 0 0 0 req [];
     State_Monad.return (to_i32 ret, err) }"

definition uxn_get_status :: "'k Os \<Rightarrow> int \<Rightarrow> u32 \<Rightarrow> ('k, int + bytes) state" where
  "uxn_get_status os fd slot = do {
     (ret, err, buf, u) \<leftarrow> ni_cmd os fd NI_CMD_UXN_STATUS 0 0 0 (u32_bytes slot @ replicate 76 0) [];
     State_Monad.return (if ret < 0 then Inl err else Inr buf) }"

definition ni_uxn_clear :: "'k Os \<Rightarrow> int \<Rightarrow> ('k, int \<times> int) state" where
  "ni_uxn_clear os fd = do {
     (ret, err, buf, u) \<leftarrow> ni_cmd os fd NI_CMD_UXN_CLEAR 0 0 0 [] [];
     State_Monad.return (to_i32 ret, err) }"

section \<open>Layout\<close>

lemma length_overlay [simp]: "length (overlay old new) = length old"
  by (simp add: overlay_def)

lemma overlay_same_length: "length new = length old \<Longrightarrow> overlay old new = new"
  by (simp add: overlay_def)

lemma length_ni_header [simp]: "length (ni_header c p1 p2 p3 n) = 40"
  by (simp add: ni_header_def)

text \<open>
  \<open>ni_cmd\<close> never changes the length of a buffer, whatever the driver writes into the packet.
\<close>

lemma ni_cmd_length:
  "run_state (ni_cmd os fd c p1 p2 p3 buf user) k = ((ret, err, buf', user'), k') \<Longrightarrow>
     length buf' = length buf \<and> length user' = length user"
  by (auto simp: ni_cmd_def Let_def split: prod.splits)

lemma length_install_bytes [simp]: "length (install_bytes r) = 40"
  by (simp add: install_bytes_def)

lemma to_install_bytes:
  assumes "- (2 ^ 31) \<le> hi_tid r" "hi_tid r < 2 ^ 31"
  shows "to_install (install_bytes r @ xs) = r"
  using assms
  by (simp add: to_install_def install_bytes_def i32_at_bytes at_drop [where n = 4] at_drop [where n = 8])

lemma length_items [simp]: "length (items n m bs) = m"
  by (simp add: items_def)

lemma length_resized [simp]: "length (resized n m xs) = m"
  by (simp add: resized_def)

end
