(* ===== verification/KernelDriver.thy ===== *)
theory KernelDriver
  imports NiDriver
begin

text \<open>
  The wrapper around the NI driver, from \<open>engine/android/AndroidKernelDriver.cpp\<close>: one connection that is shared by the
  whole server, checks of the arguments in front of every command, and the number of hits of every breakpoint since it was
  installed. The object \<open>KernelDriver()\<close> is the record \<open>KDriver\<close>, with the kernel behind it.
\<close>

section \<open>State\<close>

record 'k KDriver =
  kd_ni :: "int option"
  kd_hwbpHitTotals :: "u64 \<rightharpoonup> u64"
  kd_kernel :: 'k

type_synonym ('k, 'a) driver = "('k KDriver, 'a) state"

definition on_kernel :: "('k, 'a) state \<Rightarrow> ('k, 'a) driver" where
  "on_kernel = part kd_kernel (\<lambda>k s. s\<lparr>kd_kernel := k\<rparr>)"

definition driverLocked :: "('k, int option) driver" where
  "driverLocked = do {
     s \<leftarrow> State_Monad.get;
     State_Monad.return (case kd_ni s of Some fd \<Rightarrow> if fd \<ge> 0 then Some fd else None | None \<Rightarrow> None) }"

definition isConnected :: "'k KDriver \<Rightarrow> bool" where
  "isConnected s \<longleftrightarrow> (case kd_ni s of Some fd \<Rightarrow> fd \<ge> 0 | None \<Rightarrow> False)"

text \<open>Runs a command on the driver, or yields \<open>gone\<close> when there is no connection.\<close>

definition with_driver :: "'a \<Rightarrow> (int \<Rightarrow> ('k, 'a) driver) \<Rightarrow> ('k, 'a) driver" where
  "with_driver gone f = do {
     d \<leftarrow> driverLocked;
     case d of None \<Rightarrow> State_Monad.return gone | Some fd \<Rightarrow> f fd }"

section \<open>Connection\<close>

definition drv_IsConnected :: "('k, bool) driver" where
  "drv_IsConnected = do { s \<leftarrow> State_Monad.get; State_Monad.return (isConnected s) }"

text \<open>Replacing the pointer \<open>ni_\<close> destroys the object that it held.\<close>

definition reset_ni :: "'k Os \<Rightarrow> int option \<Rightarrow> ('k, unit) driver" where
  "reset_ni os next = do {
     s \<leftarrow> State_Monad.get;
     (case kd_ni s of None \<Rightarrow> State_Monad.return () | Some fd \<Rightarrow> on_kernel (NiDriver_destroy os fd));
     State_Monad.update (\<lambda>s. s\<lparr>kd_ni := next\<rparr>) }"

definition drv_Connect :: "'k Os \<Rightarrow> ('k, int) driver" where
  "drv_Connect os = do {
     ok \<leftarrow> drv_IsConnected;
     if ok then State_Monad.return 0
     else do {
       (fd, err) \<leftarrow> on_kernel (NiDriver_new os);
       if fd < 0 then do {
         reset_ni os None;
         State_Monad.return (- (if err \<noteq> 0 then err else ENODEV)) }
       else do { reset_ni os (Some fd); State_Monad.return 0 }}}"

definition drv_Disconnect :: "'k Os \<Rightarrow> ('k, bool) driver" where
  "drv_Disconnect os = do {
     hadDriver \<leftarrow> drv_IsConnected;
     reset_ni os None;
     State_Monad.update (\<lambda>s. s\<lparr>kd_hwbpHitTotals := Map.empty\<rparr>);
     State_Monad.return hadDriver }"

definition drv_GetExpireTime :: "'k Os \<Rightarrow> ('k, u64 option) driver" where
  "drv_GetExpireTime os = with_driver None (\<lambda>fd. do {
     expireTime \<leftarrow> on_kernel (get_expire_time os fd);
     State_Monad.return (if expireTime < 0 then None else Some (of_int expireTime)) })"

section \<open>Processes and memory\<close>

definition IsValidPidHandle :: "u64 \<Rightarrow> bool" where
  "IsValidPidHandle handle \<longleftrightarrow> handle > 0 \<and> handle \<le> of_nat INT_MAX"

definition drv_OpenProcess :: "'k Os \<Rightarrow> int \<Rightarrow> ('k, u64) driver" where
  "drv_OpenProcess os pid =
     (if pid \<le> 0 then State_Monad.return 0
      else with_driver 0 (\<lambda>fd. do {
        handle \<leftarrow> on_kernel (ni_open_process os fd pid);
        State_Monad.return (if handle > 0 then of_int handle else 0) }))"

definition drv_CloseProcess :: "'k Os \<Rightarrow> u64 \<Rightarrow> ('k, bool) driver" where
  "drv_CloseProcess os processHandle =
     (if \<not> IsValidPidHandle processHandle then State_Monad.return False
      else with_driver False (\<lambda>fd. do {
        on_kernel (close_process os fd (uint processHandle));
        State_Monad.return True }))"

definition drv_ReadMemory :: "'k Os \<Rightarrow> u64 \<Rightarrow> u64 \<Rightarrow> bytes \<Rightarrow> ('k, int \<times> bytes) driver" where
  "drv_ReadMemory os processHandle address buf =
     (if \<not> IsValidPidHandle processHandle \<or> address = 0 \<or> buf = [] then State_Monad.return (- EINVAL, buf)
      else with_driver (- ENODEV, buf) (\<lambda>fd.
        on_kernel (ni_read_memory os fd (uint processHandle) address buf)))"

definition drv_WriteMemory :: "'k Os \<Rightarrow> u64 \<Rightarrow> u64 \<Rightarrow> bytes \<Rightarrow> ('k, int) driver" where
  "drv_WriteMemory os processHandle address data =
     (if \<not> IsValidPidHandle processHandle \<or> address = 0 \<or> data = [] then State_Monad.return (- EINVAL)
      else with_driver (- ENODEV) (\<lambda>fd.
        on_kernel (ni_write_memory os fd (uint processHandle) address data)))"

abbreviation "PAGE_NOACCESS \<equiv> 1 :: u32"
abbreviation "PAGE_READONLY \<equiv> 2 :: u32"
abbreviation "PAGE_READWRITE \<equiv> 4 :: u32"
abbreviation "PAGE_EXECUTE \<equiv> 16 :: u32"
abbreviation "PAGE_EXECUTE_READ \<equiv> 32 :: u32"
abbreviation "PAGE_EXECUTE_READWRITE \<equiv> 64 :: u32"
abbreviation "MEM_MAPPED \<equiv> 262144 :: u32"
abbreviation "MEM_PRIVATE \<equiv> 131072 :: u32"

record DRIVER_REGION_INFO =
  dr_baseaddress :: u64
  dr_size :: u64
  dr_protection :: u32
  dr_type :: u32
  dr_name :: string

definition ConvertMapEntry :: "ni_map_entry \<Rightarrow> DRIVER_REGION_INFO" where
  "ConvertMapEntry e =
     (let readable = ne_flags e ! 0 \<noteq> 0; writable = ne_flags e ! 1 \<noteq> 0; executable = ne_flags e ! 2 \<noteq> 0 in
      \<lparr>dr_baseaddress = ne_start e,
       dr_size = (if ne_end e > ne_start e then ne_end e - ne_start e else 0),
       dr_protection =
         (if executable then (if writable then PAGE_EXECUTE_READWRITE else PAGE_EXECUTE_READ)
          else if writable then PAGE_READWRITE
          else if readable then PAGE_READONLY
          else PAGE_NOACCESS),
       dr_type = (if ne_flags e ! 3 \<noteq> 0 then MEM_MAPPED else MEM_PRIVATE),
       dr_name = ne_path e\<rparr>)"

text \<open>\<open>QueryMaps\<close> as the server calls it, with \<open>showPhysical\<close> false.\<close>

definition drv_QueryMaps :: "'k Os \<Rightarrow> u64 \<Rightarrow> ('k, DRIVER_REGION_INFO list option) driver" where
  "drv_QueryMaps os processHandle =
     (if \<not> IsValidPidHandle processHandle then State_Monad.return None
      else with_driver None (\<lambda>fd. do {
        maps \<leftarrow> on_kernel (get_all_maps os fd (uint processHandle));
        State_Monad.return (if maps = [] then None else Some (map ConvertMapEntry maps)) }))"

definition drv_IsAddressValid :: "'k Os \<Rightarrow> u64 \<Rightarrow> u64 \<Rightarrow> ('k, bool) driver" where
  "drv_IsAddressValid os processHandle address =
     (if \<not> IsValidPidHandle processHandle \<or> address = 0 then State_Monad.return False
      else with_driver False (\<lambda>fd. on_kernel (check_phy_addr os fd (uint processHandle) address)))"

definition drv_GetPidList :: "'k Os \<Rightarrow> ('k, int list option) driver" where
  "drv_GetPidList os = with_driver None (\<lambda>fd. do {
     pids \<leftarrow> on_kernel (get_pid_list os fd);
     State_Monad.return (Some pids) })"

text \<open>
  The buffer of the caller has \<open>outSize\<close> bytes and is zero before the call; the result is the text that it holds
  afterwards and what the function returns.
\<close>

definition CopyStringToBuffer :: "string \<Rightarrow> nat \<Rightarrow> string" where
  "CopyStringToBuffer value outSize = take (outSize - 1) value"

definition drv_GetProcessText ::
    "('k Os \<Rightarrow> int \<Rightarrow> int \<Rightarrow> ('k, string) state) \<Rightarrow> 'k Os \<Rightarrow> int \<Rightarrow> nat \<Rightarrow> ('k, bool \<times> string) driver" where
  "drv_GetProcessText get os pid outSize =
     (if pid \<le> 0 \<or> outSize = 0 then State_Monad.return (False, [])
      else with_driver (False, []) (\<lambda>fd. do {
        value \<leftarrow> on_kernel (get os fd pid);
        State_Monad.return (value \<noteq> [], CopyStringToBuffer value outSize) }))"

definition drv_GetProcessCmdline :: "'k Os \<Rightarrow> int \<Rightarrow> nat \<Rightarrow> ('k, bool \<times> string) driver" where
  "drv_GetProcessCmdline = drv_GetProcessText get_process_cmdline"

definition drv_GetProcessComm :: "'k Os \<Rightarrow> int \<Rightarrow> nat \<Rightarrow> ('k, bool \<times> string) driver" where
  "drv_GetProcessComm = drv_GetProcessText get_process_comm"

definition drv_GetSoBaseAddress :: "'k Os \<Rightarrow> int \<Rightarrow> string \<Rightarrow> ('k, u64) driver" where
  "drv_GetSoBaseAddress os pid soName =
     (if pid \<le> 0 \<or> soName = [] then State_Monad.return 0
      else with_driver 0 (\<lambda>fd. on_kernel (get_so_base_address os fd pid soName)))"

section \<open>Hardware breakpoints\<close>

record HardwareBreakpointInstallResult =
  ir_handle :: u64
  ir_interfaceResult :: int
  ir_errorCode :: int
  ir_reclaimedSlots :: u32
  ir_blockedSlots :: u32

definition install_failed :: "int \<Rightarrow> HardwareBreakpointInstallResult" where
  "install_failed err = \<lparr>ir_handle = 0, ir_interfaceResult = - 1, ir_errorCode = err,
     ir_reclaimedSlots = 0, ir_blockedSlots = 0\<rparr>"

abbreviation "NI_HW_BREAKPOINT_X \<equiv> 4 :: u32"

definition install_request :: "int \<Rightarrow> u64 \<Rightarrow> u32 \<Rightarrow> u32 \<Rightarrow> bool \<Rightarrow> ni_hwbp_install" where
  "install_request tid address len type forceReclaim =
     \<lparr>hi_tid = tid, hi_flags = (if forceReclaim then 6 else 2), hi_addr = address,
      hi_len = (if type = NI_HW_BREAKPOINT_X then 4 else len), hi_type = type, hi_handle = 0,
      hi_reclaimed_slots = 0, hi_blocked_slots = 0\<rparr>"

definition drv_AddHardwareBreakpoint ::
    "'k Os \<Rightarrow> int \<Rightarrow> u64 \<Rightarrow> u32 \<Rightarrow> u32 \<Rightarrow> bool \<Rightarrow> ('k, HardwareBreakpointInstallResult) driver" where
  "drv_AddHardwareBreakpoint os tid address len type forceReclaim =
     (if tid \<le> 0 \<or> address = 0 then State_Monad.return (install_failed EINVAL)
      else with_driver (install_failed ENODEV) (\<lambda>fd. do {
        (r, err, req) \<leftarrow> on_kernel (hwbp_install os fd (install_request tid address len type forceReclaim));
        let result = (install_failed 0)\<lparr>ir_interfaceResult := r, ir_reclaimedSlots := hi_reclaimed_slots req,
          ir_blockedSlots := hi_blocked_slots req\<rparr>;
        if r \<noteq> 0 then State_Monad.return (result\<lparr>ir_errorCode := if err \<noteq> 0 then err else EIO\<rparr>)
        else if hi_handle req = 0
        then State_Monad.return (result\<lparr>ir_interfaceResult := - 1, ir_errorCode := EPROTO\<rparr>)
        else do {
          State_Monad.update (\<lambda>s. s\<lparr>kd_hwbpHitTotals := (kd_hwbpHitTotals s)(hi_handle req \<mapsto> 0)\<rparr>);
          State_Monad.return (result\<lparr>ir_handle := hi_handle req\<rparr>) }}))"

definition drv_RemoveHardwareBreakpoint :: "'k Os \<Rightarrow> u64 \<Rightarrow> ('k, bool) driver" where
  "drv_RemoveHardwareBreakpoint os handle =
     (if handle = 0 then State_Monad.return False
      else with_driver False (\<lambda>fd. do {
        r \<leftarrow> on_kernel (handle_cmd os fd NI_CMD_HWBP_UNINSTALL handle);
        State_Monad.update (\<lambda>s. s\<lparr>kd_hwbpHitTotals := (kd_hwbpHitTotals s)(handle := None)\<rparr>);
        State_Monad.return (r = 0) }))"

definition drv_DisableHardwareBreakpoint :: "'k Os \<Rightarrow> u64 \<Rightarrow> ('k, bool) driver" where
  "drv_DisableHardwareBreakpoint os handle =
     (if handle = 0 then State_Monad.return False
      else with_driver False (\<lambda>fd. do {
        r \<leftarrow> on_kernel (handle_cmd os fd NI_CMD_HWBP_DISABLE handle);
        State_Monad.return (r = 0) }))"

definition drv_EnableHardwareBreakpoint :: "'k Os \<Rightarrow> u64 \<Rightarrow> ('k, bool) driver" where
  "drv_EnableHardwareBreakpoint os handle =
     (if handle = 0 then State_Monad.return False
      else with_driver False (\<lambda>fd. do {
        r \<leftarrow> on_kernel (handle_cmd os fd NI_CMD_HWBP_ENABLE handle);
        State_Monad.return (r = 0) }))"

text \<open>
  \<open>my_user_pt_regs\<close> is 36 words in the order of the structure: 31 general registers, \<open>sp\<close>, \<open>pc\<close>, \<open>pstate\<close>, \<open>orig_x0\<close>, \<open>syscallno\<close>.
\<close>

record HW_HIT_ITEM =
  hw_task_id :: u64
  hw_hit_addr :: u64
  hw_hit_time :: u64
  hw_regs :: "u64 list"

definition ConvertHwbpEvent :: "bytes \<Rightarrow> HW_HIT_ITEM" where
  "ConvertHwbpEvent e = \<lparr>hw_task_id = of_int (i32_at e 12), hw_hit_addr = u64_at e 32, hw_hit_time = u64_at e 24,
     hw_regs = map (\<lambda>i. u64_at e (64 + 8 * i)) [0..<36]\<rparr>"

definition NI_HWBP_EVENT_HIT :: "bytes \<Rightarrow> bool" where
  "NI_HWBP_EVENT_HIT e \<longleftrightarrow> u32_at e 8 = 1"

text \<open>The loop over at most \<open>drain\<close> reads: it stops at an empty read and at one that did not fill the vector.\<close>

fun drainEvents :: "'k Os \<Rightarrow> int \<Rightarrow> u64 \<Rightarrow> nat \<Rightarrow> ('k, HW_HIT_ITEM list) state" where
  "drainEvents os fd handle 0 = State_Monad.return []"
| "drainEvents os fd handle (Suc drain) = do {
     events \<leftarrow> hwbp_read_events os fd handle NI_HWBP_MAX_EVENTS_PER_READ;
     let hits = map ConvertHwbpEvent (filter NI_HWBP_EVENT_HIT events);
     if events = [] then State_Monad.return []
     else if length events < NI_HWBP_MAX_EVENTS_PER_READ then State_Monad.return hits
     else do {
       rest \<leftarrow> drainEvents os fd handle drain;
       State_Monad.return (hits @ rest) }}"

definition drv_ReadHardwareBreakpointInfo ::
    "'k Os \<Rightarrow> u64 \<Rightarrow> ('k, (u64 \<times> HW_HIT_ITEM list) option) driver" where
  "drv_ReadHardwareBreakpointInfo os handle =
     (if handle = 0 then State_Monad.return None
      else with_driver None (\<lambda>fd. do {
        hits \<leftarrow> on_kernel (drainEvents os fd handle 16);
        s \<leftarrow> State_Monad.get;
        let sum = (case kd_hwbpHitTotals s handle of None \<Rightarrow> 0 | Some t \<Rightarrow> t) + of_nat (length hits);
        State_Monad.update (\<lambda>s. s\<lparr>kd_hwbpHitTotals := (kd_hwbpHitTotals s)(handle \<mapsto> sum)\<rparr>);
        State_Monad.return (Some (sum, hits)) }))"

text \<open>The result of a query: the error number, the summary (64 bytes) and the entries (56 bytes each).\<close>

record HardwareBreakpointTaskQueryResult =
  tq_success :: bool
  tq_errorCode :: int
  tq_summary :: bytes
  tq_entries :: "bytes list"

definition query_failed :: "int \<Rightarrow> int \<Rightarrow> HardwareBreakpointTaskQueryResult" where
  "query_failed tid err = \<lparr>tq_success = False, tq_errorCode = err, tq_summary = i32_bytes tid @ replicate 60 0, tq_entries = []\<rparr>"

definition drv_QueryHardwareBreakpointTask ::
    "'k Os \<Rightarrow> int \<Rightarrow> u32 \<Rightarrow> ('k, HardwareBreakpointTaskQueryResult) driver" where
  "drv_QueryHardwareBreakpointTask os tid capacity =
     (if tid \<le> 0 \<or> capacity = 0 \<or> capacity > NI_HWBP_MAX_QUERY_ENTRIES
      then State_Monad.return (query_failed tid EINVAL)
      else with_driver (query_failed tid ENODEV) (\<lambda>fd. do {
        snapshot \<leftarrow> on_kernel (hwbp_query_task os fd tid capacity);
        State_Monad.return (case snapshot of
          Inl err \<Rightarrow> query_failed tid (if err \<noteq> 0 then err else EIO)
        | Inr (summary, entries) \<Rightarrow>
            if i32_at summary 0 \<noteq> tid \<or> unat (u32_at summary 20) \<noteq> length entries \<or> u32_at summary 20 > capacity
            then \<lparr>tq_success = False, tq_errorCode = EPROTO,
                   tq_summary = take 20 summary @ u32_bytes 0 @ drop 24 summary, tq_entries = []\<rparr>
            else \<lparr>tq_success = True, tq_errorCode = 0, tq_summary = summary, tq_entries = entries\<rparr>) }))"

section \<open>UXN breakpoints\<close>

text \<open>\<open>UxnOperationResult\<close> is a pair of the flag and the error number.\<close>

definition UxnResultFromCall :: "int \<Rightarrow> int \<Rightarrow> bool \<times> int" where
  "UxnResultFromCall result err = (result = 0, if result = 0 then 0 else if err \<noteq> 0 then err else EIO)"

definition drv_InstallUxnBreakpoint :: "'k Os \<Rightarrow> bytes \<Rightarrow> ('k, (bool \<times> int) \<times> bytes) driver" where
  "drv_InstallUxnBreakpoint os request =
     (if u32_at request 0 = 0 \<or> u64_at request 8 = 0 \<or> unat (u64_at request 8) mod 4 \<noteq> 0 \<or> u32_at request 4 \<noteq> 0
      then State_Monad.return ((False, EINVAL), request)
      else with_driver ((False, ENODEV), request) (\<lambda>fd. do {
        (r, err, request') \<leftarrow> on_kernel (ni_uxn_install os fd request);
        let result = UxnResultFromCall r err;
        State_Monad.return (if fst result \<and> u32_at request' 16 \<ge> NI_UXN_MAX_SLOTS
          then ((False, EPROTO), request') else (result, request')) }))"

definition drv_RemoveUxnBreakpoint :: "'k Os \<Rightarrow> u32 \<Rightarrow> u64 \<Rightarrow> ('k, bool \<times> int) driver" where
  "drv_RemoveUxnBreakpoint os pid address =
     (if pid = 0 \<or> address = 0 \<or> unat address mod 4 \<noteq> 0 then State_Monad.return (False, EINVAL)
      else with_driver (False, ENODEV) (\<lambda>fd. do {
        (r, err) \<leftarrow> on_kernel (ni_uxn_remove os fd pid address);
        State_Monad.return (UxnResultFromCall r err) }))"

text \<open>A wait has a connection of its own, so that it does not keep the shared one busy.\<close>

definition drv_WaitUxnBreakpoint :: "'k Os \<Rightarrow> bytes \<Rightarrow> ('k, (bool \<times> int) \<times> bytes) driver" where
  "drv_WaitUxnBreakpoint os request =
     (if u32_at request 0 \<noteq> NI_UXN_WAIT_ANY_SLOT \<and> u32_at request 0 \<ge> NI_UXN_MAX_SLOTS
      then State_Monad.return ((False, EINVAL), request)
      else with_driver ((False, ENODEV), request) (\<lambda>_. do {
        (waitFd, err) \<leftarrow> on_kernel (NiDriver_new os);
        if waitFd < 0 then State_Monad.return ((False, if err \<noteq> 0 then err else ENODEV), request)
        else do {
          (r, err, request') \<leftarrow> on_kernel (ni_uxn_wait os waitFd request);
          on_kernel (NiDriver_destroy os waitFd);
          State_Monad.return (UxnResultFromCall r err, request') }}))"

definition drv_ResumeUxnBreakpoint :: "'k Os \<Rightarrow> bytes \<Rightarrow> ('k, bool \<times> int) driver" where
  "drv_ResumeUxnBreakpoint os request =
     (if u32_at request 0 \<ge> NI_UXN_MAX_SLOTS \<or> unat (u32_at request 4) > 1 then State_Monad.return (False, EINVAL)
      else with_driver (False, ENODEV) (\<lambda>fd. do {
        (r, err) \<leftarrow> on_kernel (ni_uxn_resume os fd request);
        State_Monad.return (UxnResultFromCall r err) }))"

definition drv_GetUxnBreakpointStatus :: "'k Os \<Rightarrow> u32 \<Rightarrow> ('k, (bool \<times> int) \<times> bytes) driver" where
  "drv_GetUxnBreakpointStatus os slot =
     (let status = u32_bytes slot @ replicate 76 0 in
      if slot \<ge> NI_UXN_MAX_SLOTS then State_Monad.return ((False, EINVAL), status)
      else with_driver ((False, ENODEV), status) (\<lambda>fd. do {
        queried \<leftarrow> on_kernel (uxn_get_status os fd slot);
        State_Monad.return (case queried of
          Inl err \<Rightarrow> ((False, if err \<noteq> 0 then err else EIO), status)
        | Inr q \<Rightarrow> if u32_at q 0 \<noteq> slot \<or> u32_at q 16 > 3 then ((False, EPROTO), status) else ((True, 0), q)) }))"

definition drv_ClearUxnBreakpoints :: "'k Os \<Rightarrow> ('k, bool \<times> int) driver" where
  "drv_ClearUxnBreakpoints os = with_driver (False, ENODEV) (\<lambda>fd. do {
     (r, err) \<leftarrow> on_kernel (ni_uxn_clear os fd);
     State_Monad.return (UxnResultFromCall r err) })"

end
