(* ===== verification/LinuxProc.thy ===== *)
theory LinuxProc
  imports AndroidOs
begin

text \<open>
  The files of \<open>/proc\<close>, from \<open>engine/common/LinuxProc.hpp\<close> and \<open>engine/common/ProcessMap.hpp\<close>: the lines of
  \<open>/proc/<pid>/maps\<close> with \<open>fgets\<close> and \<open>sscanf\<close>, the classification of mappings, and the list of processes. The lemmas show
  that a line in the format of the kernel is read back field by field.
\<close>

section \<open>Mappings\<close>

abbreviation "MT_Anonymous \<equiv> 32 :: int"
abbreviation "MT_C_Alloc \<equiv> 4 :: int"
abbreviation "MT_C_Heap \<equiv> 1 :: int"
abbreviation "MT_C_Data \<equiv> 8 :: int"
abbreviation "MT_C_Bss \<equiv> 16 :: int"
abbreviation "MT_Java_Heap \<equiv> 2 :: int"
abbreviation "MT_Java \<equiv> 65536 :: int"
abbreviation "MT_Stack \<equiv> 64 :: int"
abbreviation "MT_Video \<equiv> 1048576 :: int"
abbreviation "MT_Code_App \<equiv> 16384 :: int"
abbreviation "MT_Code_System \<equiv> 32768 :: int"
abbreviation "MT_Ashmem \<equiv> 524288 :: int"
abbreviation "MT_Bad \<equiv> 131072 :: int"
abbreviation "MT_Other \<equiv> 2097152 :: int"

definition starts_with :: "string \<Rightarrow> string \<Rightarrow> bool" where
  "starts_with s p \<longleftrightarrow> take (length p) s = p"

definition DetermineMemoryType :: "string \<Rightarrow> string \<Rightarrow> int" where
  "DetermineMemoryType name perms =
     (if name = [] \<or> name = '' '' then MT_Anonymous
      else if contains_str name ''dalvik-allocation'' \<or> contains_str name ''dalvik-main'' \<or>
        contains_str name ''dalvik-large'' \<or> contains_str name ''dalvik-free'' then MT_Java_Heap
      else if contains_str name ''dalvik-CompilerMetadata'' \<or> contains_str name ''dalvik-indirect'' \<or>
        contains_str name ''dalvik-mark'' \<or> contains_str name ''dalvik-LinearAlloc'' \<or>
        contains_str name ''dalvik-rosalloc'' \<or> contains_str name ''dalvik-card'' \<or>
        contains_str name ''dalvik-'' then MT_Java
      else if contains_str name ''[anon:.bss'' then MT_C_Bss
      else if (contains_str name ''/data/app/'' \<or> contains_str name ''/data/data'') \<and> contains_str perms ''xp''
        then MT_Code_App
      else if contains_str name ''/data/app/'' then MT_C_Data
      else if contains_str name ''[anon:libc_malloc'' \<or> contains_str name ''[anon:scudo:'' then MT_C_Alloc
      else if contains_str name ''/dev/ashmem/'' then MT_Ashmem
      else if contains_str name ''/system/fonts'' then MT_Bad
      else if starts_with name ''/system/framework/'' \<or> starts_with name ''/vendor/lib'' \<or>
        starts_with name ''/system/lib'' \<or> starts_with name ''/apex/com.android.'' then MT_Code_System
      else if name = ''[heap]'' then MT_C_Heap
      else if contains_str name ''[stack'' then MT_Stack
      else if contains_str name ''/dev/kgsl-3d0'' then MT_Video
      else MT_Other)"

record ProcessMap =
  pm_pid :: int
  pm_allinfo :: string
  pm_startAddress :: u64
  pm_endAddress :: u64
  pm_offset :: u64
  pm_length :: u64
  pm_inode :: u64
  pm_perms :: string
  pm_protection :: int
  pm_type :: int
  pm_dev :: string
  pm_pathname :: string
  pm_readable :: bool
  pm_writable :: bool
  pm_executable :: bool
  pm_is_private :: bool
  pm_is_shared :: bool
  pm_flag :: int

text \<open>The constructor; it does not set \<open>flag\<close>, which every caller sets before the map is used.\<close>

definition ProcessMap_new :: ProcessMap where
  "ProcessMap_new = \<lparr>pm_pid = 0, pm_allinfo = [], pm_startAddress = 0, pm_endAddress = 0, pm_offset = 0,
     pm_length = 0, pm_inode = 0, pm_perms = [], pm_protection = 0, pm_type = 0, pm_dev = [], pm_pathname = [],
     pm_readable = False, pm_writable = False, pm_executable = False, pm_is_private = False,
     pm_is_shared = False, pm_flag = 0\<rparr>"

definition IsValidMap :: "ProcessMap \<Rightarrow> bool" where
  "IsValidMap m \<longleftrightarrow> pm_pid m \<noteq> 0 \<and> pm_startAddress m \<noteq> 0 \<and> pm_endAddress m \<noteq> 0 \<and> pm_length m \<noteq> 0"

definition Contains :: "ProcessMap \<Rightarrow> u64 \<Rightarrow> bool" where
  "Contains m address \<longleftrightarrow> address \<ge> pm_startAddress m \<and> address < pm_endAddress m"

definition IsUnknown :: "ProcessMap \<Rightarrow> bool" where
  "IsUnknown m \<longleftrightarrow> pm_pathname m = []"

section \<open>Reading lines\<close>

definition newline :: char where
  "newline = CHR 0x0A"

text \<open>\<open>fgets n s\<close> with a buffer of \<open>n\<close> bytes on a file whose unread part is \<open>s\<close>: the line and what remains.\<close>

definition fgets :: "nat \<Rightarrow> string \<Rightarrow> string \<times> string" where
  "fgets n s =
     (let l = takeWhile (\<lambda>c. c \<noteq> newline) s;
          line = (if length l < n - 1 \<and> length l < length s then l @ [newline] else take (n - 1) s)
      in (line, drop (length line) s))"

lemma fgets_split: "fgets n s = (l, r) \<Longrightarrow> s = l @ r"
proof -
  assume *: "fgets n s = (l, r)"
  let ?l = "takeWhile (\<lambda>c. c \<noteq> newline) s"
  have "take (length ?l + 1) s = ?l @ [newline]" if "length ?l < length s"
    using that takeWhile_eq_take [of "\<lambda>c. c \<noteq> newline" s] nth_length_takeWhile [OF that]
    by (simp add: take_Suc_conv_app_nth)
  then have "l = take (length l) s"
    using * by (auto simp: fgets_def Let_def min_def split: if_splits)
  moreover have "r = drop (length l) s" using * by (auto simp: fgets_def Let_def)
  ultimately show ?thesis by (metis append_take_drop_id)
qed

lemma fgets_progress: "fgets n s = (l, r) \<Longrightarrow> s \<noteq> [] \<Longrightarrow> 1 < n \<Longrightarrow> l \<noteq> []"
  by (auto simp: fgets_def Let_def split: if_splits)

text \<open>\<open>while (fgets(line, n, fp))\<close>.\<close>

function fgets_lines :: "nat \<Rightarrow> string \<Rightarrow> string list" where
  "fgets_lines n s = (if s = [] \<or> n \<le> 1 then [] else case fgets n s of (l, r) \<Rightarrow> l # fgets_lines n r)"
  by pat_completeness auto
termination
proof (relation "measure (\<lambda>(n, s). length s)")
  fix n s l r
  assume "\<not> (s = [] \<or> n \<le> 1)" "(l, r) = fgets n s"
  then have "s = l @ r" "l \<noteq> []"
    using fgets_split [of n s l r] fgets_progress [of n s l r] by auto
  then show "((n, r), n, s) \<in> measure (\<lambda>(n, s). length s)" by simp
qed simp

declare fgets_lines.simps [simp del]

section \<open>One line of a maps file\<close>

text \<open>The conversions of \<open>sscanf\<close>: each yields the value and the rest, \<open>None\<close> when the text does not match.\<close>

definition scan_hex :: "string \<Rightarrow> (u64 \<times> string) option" where
  "scan_hex s = map_option (\<lambda>(v, out_of_range, rest). (v, rest)) (strtoull 16 s)"

definition scan_dec :: "string \<Rightarrow> (u64 \<times> string) option" where
  "scan_dec s = map_option (\<lambda>(v, out_of_range, rest). (v, rest)) (strtoull 10 s)"

definition scan_word :: "string \<Rightarrow> (string \<times> string) option" where
  "scan_word s =
     (let s = dropWhile isspace s in
      if s = [] then None else Some (takeWhile (\<lambda>c. \<not> isspace c) s, dropWhile (\<lambda>c. \<not> isspace c) s))"

definition scan_char :: "char \<Rightarrow> string \<Rightarrow> (unit \<times> string) option" where
  "scan_char c s = (if s \<noteq> [] \<and> hd s = c then Some ((), tl s) else None)"

text \<open>One step of the format: when the text matches, the value is stored and the scan goes on with the rest.\<close>

definition scan ::
    "(string \<Rightarrow> ('v \<times> string) option) \<Rightarrow> ('v \<Rightarrow> 'm \<Rightarrow> 'm) \<Rightarrow> (string \<Rightarrow> 'm \<Rightarrow> 'm) \<Rightarrow> string \<Rightarrow> 'm \<Rightarrow> 'm" where
  "scan conv store k s m = (case conv s of None \<Rightarrow> m | Some (v, rest) \<Rightarrow> k rest (store v m))"

definition sscanf_maps :: "string \<Rightarrow> ProcessMap \<Rightarrow> ProcessMap" where
  "sscanf_maps =
     scan scan_hex (\<lambda>v m. m\<lparr>pm_startAddress := v\<rparr>)
     (scan (scan_char CHR ''-'') (\<lambda>_ m. m)
     (scan scan_hex (\<lambda>v m. m\<lparr>pm_endAddress := v\<rparr>)
     (scan scan_word (\<lambda>v m. m\<lparr>pm_perms := v\<rparr>)
     (scan scan_hex (\<lambda>v m. m\<lparr>pm_offset := v\<rparr>)
     (scan scan_word (\<lambda>v m. m\<lparr>pm_dev := v\<rparr>)
     (scan scan_dec (\<lambda>v m. m\<lparr>pm_inode := v\<rparr>)
     (scan scan_word (\<lambda>v m. m\<lparr>pm_pathname := v\<rparr>) (\<lambda>_ m. m))))))))"

text \<open>The loop of \<open>trimSpaces\<close>: runs of white space become one blank; then one blank at each end goes.\<close>

fun squeeze :: "bool \<Rightarrow> string \<Rightarrow> string" where
  "squeeze inSpace [] = []"
| "squeeze inSpace (c # cs) =
     (if isspace c then (if inSpace then [] else '' '') @ squeeze True cs else c # squeeze False cs)"

definition trimSpaces :: "string \<Rightarrow> string" where
  "trimSpaces input =
     (let r = squeeze False input;
          r = (if r \<noteq> [] \<and> hd r = CHR '' '' then tl r else r)
      in if r \<noteq> [] \<and> last r = CHR '' '' then butlast r else r)"

text \<open>\<open>perms[i] == c\<close> on the zero-filled array of five characters.\<close>

definition perm_at :: "string \<Rightarrow> nat \<Rightarrow> char \<Rightarrow> bool" where
  "perm_at perms i c \<longleftrightarrow> i < length perms \<and> perms ! i = c"

definition parseMapLine :: "int \<Rightarrow> string \<Rightarrow> ProcessMap" where
  "parseMapLine pid line =
     (let m = sscanf_maps line (ProcessMap_new\<lparr>pm_pid := pid, pm_allinfo := trimSpaces line\<rparr>);
          perms = pm_perms m;
          r = perm_at perms 0 CHR ''r''; w = perm_at perms 1 CHR ''w''; x = perm_at perms 2 CHR ''x'';
          p = perm_at perms 3 CHR ''p''; s = perm_at perms 3 CHR ''s''
      in m\<lparr>pm_length := pm_endAddress m - pm_startAddress m,
           pm_readable := r, pm_writable := w, pm_executable := x, pm_is_private := p, pm_is_shared := s,
           pm_type := DetermineMemoryType (pm_pathname m) perms,
           pm_flag := (if r then 1 else 0) + (if w then 2 else 0) + (if x then 4 else 0) +
             (if p then 8 else 0) + (if s then 16 else 0),
           pm_protection := (if r then 1 else 0) + (if w then 2 else 0) + (if x then 4 else 0)\<rparr>)"

section \<open>Operations\<close>

definition proc_path :: "int \<Rightarrow> string \<Rightarrow> string" where
  "proc_path pid file = ''/proc/'' @ (if pid < 0 then ''-'' else []) @ decimal (nat \<bar>pid\<bar>) @ ''/'' @ file"

definition c_str :: "string \<Rightarrow> string" where
  "c_str = takeWhile (\<lambda>c. c \<noteq> CHR 0x00)"

definition GetProcessMaps_proc :: "'k Os \<Rightarrow> int \<Rightarrow> ('k, ProcessMap list) state" where
  "GetProcessMaps_proc os pid = do {
     contents \<leftarrow> os_readfile os (proc_path pid ''maps'');
     State_Monad.return (case contents of None \<Rightarrow> []
       | Some s \<Rightarrow> map (parseMapLine pid) (fgets_lines 512 s)) }"

definition GetModBase :: "'k Os \<Rightarrow> int \<Rightarrow> string \<Rightarrow> ('k, u64) state" where
  "GetModBase os pid name = do {
     maps \<leftarrow> GetProcessMaps_proc os pid;
     State_Monad.return (case List.find (\<lambda>m. \<not> IsUnknown m \<and> contains_str (pm_pathname m) name) maps of
       None \<Rightarrow> 0 | Some m \<Rightarrow> pm_startAddress m) }"

definition GetProcessName_proc :: "'k Os \<Rightarrow> int \<Rightarrow> ('k, string) state" where
  "GetProcessName_proc os pid = do {
     contents \<leftarrow> os_readfile os (proc_path pid ''comm'');
     State_Monad.return (case contents of None \<Rightarrow> []
       | Some s \<Rightarrow> let name = c_str (fst (fgets 256 s)) in
           if name \<noteq> [] \<and> last name = newline then butlast name else name) }"

definition GetProcessCmdline_proc :: "'k Os \<Rightarrow> int \<Rightarrow> ('k, string) state" where
  "GetProcessCmdline_proc os pid = do {
     contents \<leftarrow> os_readfile os (proc_path pid ''cmdline'');
     State_Monad.return (case contents of None \<Rightarrow> [] | Some s \<Rightarrow> c_str (fst (fgets 200 s))) }"

definition readlink_exe :: "'k Os \<Rightarrow> int \<Rightarrow> ('k, string) state" where
  "readlink_exe os pid = do {
     link \<leftarrow> os_readlink os (proc_path pid ''exe'');
     State_Monad.return (case link of None \<Rightarrow> [] | Some s \<Rightarrow> c_str (take 1023 s)) }"

text \<open>
  The filter on the executable: an app, a process of the system (left out), or another process. \<open>shownProcess\<close> is
  the entry that the list gets for a process with this name.
\<close>

definition isSystemLink :: "string \<Rightarrow> bool" where
  "isSystemLink link \<longleftrightarrow> starts_with link ''/system/bin/'' \<or> link = [] \<or> starts_with link ''/system_ext/bin/'' \<or>
     starts_with link ''/vendor/bin/'' \<or> starts_with link ''/apex/com.''"

definition shownProcess :: "string \<Rightarrow> int \<Rightarrow> string \<Rightarrow> (int \<times> string) list" where
  "shownProcess link pid name =
     (if link = ''/system/bin/app_process64'' \<or> link = ''/system/bin/app_process32''
      then [(pid, drop (the (str_find_last_of link ''/'') + 1) link @ '' '' @ name)]
      else if isSystemLink link then []
      else [(pid, ''elf '' @ name)])"

definition procEntry :: "'k Os \<Rightarrow> string \<times> bool \<Rightarrow> ('k, (int \<times> string) list) state" where
  "procEntry os = (\<lambda>(d_name, is_dir).
     if d_name = ''.'' \<or> d_name = ''..'' \<or> \<not> is_dir \<or> \<not> list_all isdigit d_name
     then State_Monad.return []
     else do {
       let pid = int (dec_value d_name);
       cmdline \<leftarrow> GetProcessCmdline_proc os pid;
       name \<leftarrow> (if cmdline = [] then GetProcessName_proc os pid else State_Monad.return cmdline);
       link \<leftarrow> readlink_exe os pid;
       State_Monad.return (shownProcess link pid name) })"

definition GetProcessPidList_proc :: "'k Os \<Rightarrow> ('k, (int \<times> string) list) state" where
  "GetProcessPidList_proc os = do {
     dir \<leftarrow> os_listdir os ''/proc'';
     case dir of
       None \<Rightarrow> State_Monad.return []
     | Some entries \<Rightarrow> do {
         shown \<leftarrow> for_each (procEntry os) entries;
         State_Monad.return (concat shown) }}"

definition IsProcessAlive :: "'k Os \<Rightarrow> int \<Rightarrow> ('k, bool) state" where
  "IsProcessAlive os pid = os_kill0 os pid"

section \<open>Lines in the format of the kernel are read back\<close>

text \<open>A line as the kernel prints it; \<open>pad\<close> is the blank space before the path.\<close>

definition maps_line :: "u64 \<Rightarrow> u64 \<Rightarrow> string \<Rightarrow> u64 \<Rightarrow> string \<Rightarrow> u64 \<Rightarrow> string \<Rightarrow> string \<Rightarrow> string" where
  "maps_line start_address end_address perms offset dev inode pad path =
     hex_padded 8 (unat start_address) @ ''-'' @ hex_padded 8 (unat end_address) @ '' '' @ perms @ '' '' @
     hex_padded 8 (unat offset) @ '' '' @ dev @ '' '' @ decimal (unat inode) @ pad @ path @ [newline]"

definition is_word :: "string \<Rightarrow> bool" where
  "is_word w \<longleftrightarrow> w \<noteq> [] \<and> (\<forall>c \<in> set w. \<not> isspace c \<and> c \<noteq> CHR 0x00)"

lemma isspace_blanks [simp]: "isspace CHR '' ''" "isspace newline" "\<not> isspace CHR ''-''"
  by (simp_all add: isspace_def newline_def)

lemma no_digit_blank:
  "digit_value base CHR '' '' = None" "digit_value base newline = None" "digit_value base CHR ''-'' = None"
  by (simp_all add: digit_value_def HexNibble_def newline_def)

lemma strtoull_skip_space:
  assumes "isspace c" "c \<noteq> CHR 0x00"
  shows "strtoull base (c # s) = strtoull base s"
  using assms by (simp add: strtoull_def)

lemma scan_hex_skip [simp]: "scan_hex (CHR '' '' # s) = scan_hex s"
  by (simp add: scan_hex_def strtoull_skip_space)

lemma scan_dec_skip [simp]: "scan_dec (CHR '' '' # s) = scan_dec s"
  by (simp add: scan_dec_def strtoull_skip_space)

lemma scan_hex_padded:
  assumes "c = CHR ''-'' \<or> c = CHR '' ''" "CHR 0x00 \<notin> set rest"
  shows "scan_hex (hex_padded width (unat v) @ c # rest) = Some (v :: u64, c # rest)"
proof -
  have "strtoull 16 (hex_padded width (unat v) @ c # rest) = Some (of_nat (unat v), False, c # rest)"
  proof (rule strtoull_digits)
    show "c # rest = [] \<or> digit_value 16 (hd (c # rest)) = None \<and> hd (c # rest) \<noteq> CHR ''x'' \<and> hd (c # rest) \<noteq> CHR ''X''"
      using assms(1) no_digit_blank by auto
    show "CHR 0x00 \<notin> set (c # rest)" using assms by auto
    show "unat v < 2 ^ 64" using unsigned_less [of v, where ?'a = nat] by simp
  qed (use hex_padded_digits in auto)
  then show ?thesis by (simp add: scan_hex_def)
qed

lemma scan_dec_decimal:
  assumes "c = newline \<or> c = CHR '' ''" "CHR 0x00 \<notin> set rest"
  shows "scan_dec (decimal (unat v) @ c # rest) = Some (v :: u64, c # rest)"
proof -
  have "strtoull 10 (decimal (unat v) @ c # rest) = Some (of_nat (unat v), False, c # rest)"
  proof (rule strtoull_digits)
    show "c # rest = [] \<or> digit_value 10 (hd (c # rest)) = None \<and> hd (c # rest) \<noteq> CHR ''x'' \<and> hd (c # rest) \<noteq> CHR ''X''"
      using assms(1) no_digit_blank by (auto simp: newline_def)
    show "CHR 0x00 \<notin> set (c # rest)" using assms by (auto simp: newline_def)
    show "unat v < 2 ^ 64" using unsigned_less [of v, where ?'a = nat] by simp
  qed (use decimal_digits in auto)
  then show ?thesis by (simp add: scan_dec_def)
qed

lemma scan_word_skip [simp]: "isspace c \<Longrightarrow> scan_word (c # s) = scan_word s"
  by (simp add: scan_word_def)

lemma scan_word_word:
  assumes "is_word w" "isspace c"
  shows "scan_word (w @ c # rest) = Some (w, c # rest)"
proof -
  from assms(1) have w: "w \<noteq> []" "\<And>x. x \<in> set w \<Longrightarrow> \<not> isspace x" by (auto simp: is_word_def)
  then have "dropWhile isspace (w @ c # rest) = w @ c # rest" by (cases w) auto
  moreover have "takeWhile (\<lambda>c. \<not> isspace c) (w @ c # rest) = w"
    "dropWhile (\<lambda>c. \<not> isspace c) (w @ c # rest) = c # rest"
    using w(2) assms(2) by (simp_all add: takeWhile_append2 dropWhile_append2)
  ultimately show ?thesis using w(1) by (simp add: scan_word_def)
qed

lemma scan_word_pad: "(\<And>c. c \<in> set pad \<Longrightarrow> isspace c) \<Longrightarrow> scan_word (pad @ s) = scan_word s"
  by (induction pad) auto

lemma word_no_nul: "is_word w \<Longrightarrow> CHR 0x00 \<notin> set w"
  by (auto simp: is_word_def)

lemma digits_no_nul [simp]: "CHR 0x00 \<notin> set (hex_padded k n)" "CHR 0x00 \<notin> set (decimal n)"
  using hex_padded_digits(2) decimal_digits(1) digit_valueD(6) by blast+

lemma pad_no_nul: "set pad \<subseteq> {CHR '' ''} \<Longrightarrow> CHR 0x00 \<notin> set pad"
  by auto

definition scanned :: "u64 \<Rightarrow> u64 \<Rightarrow> string \<Rightarrow> u64 \<Rightarrow> string \<Rightarrow> u64 \<Rightarrow> string \<Rightarrow> ProcessMap \<Rightarrow> ProcessMap" where
  "scanned start_address end_address perms offset dev inode path m =
     m\<lparr>pm_startAddress := start_address, pm_endAddress := end_address, pm_perms := perms, pm_offset := offset,
       pm_dev := dev, pm_inode := inode, pm_pathname := path\<rparr>"

lemma sscanf_maps_line:
  assumes words: "is_word perms" "is_word dev" and pad: "set pad \<subseteq> {CHR '' ''}"
    and path: "is_word path \<and> pad \<noteq> [] \<or> path = [] \<and> pm_pathname m = []"
  shows "sscanf_maps (maps_line start_address end_address perms offset dev inode pad path) m =
    scanned start_address end_address perms offset dev inode path m"
proof -
  let ?tail = "pad @ path @ [newline]"
  obtain c r where tail: "?tail = c # r" "c = newline \<or> c = CHR '' ''" "CHR 0x00 \<notin> set r"
  proof (cases pad)
    case Nil
    with path have "?tail = newline # []" by auto
    then show ?thesis by (rule that) auto
  next
    case (Cons x p)
    with pad have "?tail = CHR '' '' # p @ path @ [newline]" by auto
    moreover have "CHR 0x00 \<notin> set (p @ path @ [newline])"
      using pad Cons path word_no_nul by (auto simp: newline_def)
    ultimately show ?thesis by (intro that) auto
  qed
  have spaces: "\<And>x. x \<in> set pad \<Longrightarrow> isspace x" using pad by auto
  have last: "scan scan_word (\<lambda>v m. m\<lparr>pm_pathname := v\<rparr>) (\<lambda>_ m. m) ?tail m' = m'\<lparr>pm_pathname := path\<rparr>"
    if "pm_pathname m' = pm_pathname m" for m' :: ProcessMap
  proof (cases "is_word path")
    case True
    then show ?thesis by (simp add: scan_def scan_word_pad [OF spaces] scan_word_word)
  next
    case False
    with path have "path = []" "pm_pathname m = []" by auto
    moreover from this have "scan_word ?tail = None"
      by (simp add: scan_word_pad [OF spaces]) (simp add: scan_word_def)
    ultimately show ?thesis using that by (cases m') (simp add: scan_def)
  qed
  have nul: "CHR 0x00 \<notin> set perms" "CHR 0x00 \<notin> set dev" "CHR 0x00 \<notin> set (pad @ path @ [newline])"
    using words word_no_nul tail by (auto simp: newline_def)
  have inode: "scan_dec (decimal (unat inode) @ pad @ path @ [newline]) = Some (inode, pad @ path @ [newline])"
    unfolding tail(1) using tail(2,3) by (rule scan_dec_decimal)
  show ?thesis
    unfolding sscanf_maps_def maps_line_def scanned_def
    using nul words
    by (simp add: scan_def [where conv = scan_hex] scan_def [where conv = "scan_char c" for c] scan_char_def
        scan_def [where conv = scan_dec] scan_def [where store = "\<lambda>v m. m\<lparr>pm_perms := v\<rparr>"]
        scan_def [where store = "\<lambda>v m. m\<lparr>pm_dev := v\<rparr>"] scan_word_word scan_hex_padded inode last)
qed

text \<open>One mapping of a process and the line that the kernel prints for it.\<close>

record MapEntry =
  me_start :: u64
  me_end :: u64
  me_read :: bool
  me_write :: bool
  me_exec :: bool
  me_shared :: bool
  me_offset :: u64
  me_dev :: string
  me_inode :: u64
  me_pad :: string
  me_path :: string

definition perms_text :: "MapEntry \<Rightarrow> string" where
  "perms_text e = [if me_read e then CHR ''r'' else CHR ''-'', if me_write e then CHR ''w'' else CHR ''-'',
     if me_exec e then CHR ''x'' else CHR ''-'', if me_shared e then CHR ''s'' else CHR ''p'']"

definition maps_text :: "MapEntry \<Rightarrow> string" where
  "maps_text e = maps_line (me_start e) (me_end e) (perms_text e) (me_offset e) (me_dev e) (me_inode e)
     (me_pad e) (me_path e)"

definition wf_entry :: "MapEntry \<Rightarrow> bool" where
  "wf_entry e \<longleftrightarrow> is_word (me_dev e) \<and> list_all (\<lambda>c. c = CHR '' '') (me_pad e) \<and>
     (is_word (me_path e) \<and> me_pad e \<noteq> [] \<or> me_path e = []) \<and> length (maps_text e) < 512"

definition entry_of :: "ProcessMap \<Rightarrow> u64 \<times> u64 \<times> bool \<times> bool \<times> bool \<times> bool \<times> u64 \<times> string \<times> u64 \<times> string" where
  "entry_of m = (pm_startAddress m, pm_endAddress m, pm_readable m, pm_writable m, pm_executable m, pm_is_shared m,
     pm_offset m, pm_dev m, pm_inode m, pm_pathname m)"

definition fields_of :: "MapEntry \<Rightarrow> u64 \<times> u64 \<times> bool \<times> bool \<times> bool \<times> bool \<times> u64 \<times> string \<times> u64 \<times> string" where
  "fields_of e = (me_start e, me_end e, me_read e, me_write e, me_exec e, me_shared e,
     me_offset e, me_dev e, me_inode e, me_path e)"

lemma perms_text_word: "is_word (perms_text e)"
  by (auto simp: is_word_def perms_text_def isspace_def)

lemma parseMapLine_entry:
  assumes "wf_entry e"
  shows "entry_of (parseMapLine pid (maps_text e)) = fields_of e"
    and "pm_length (parseMapLine pid (maps_text e)) = me_end e - me_start e"
    and "pm_pid (parseMapLine pid (maps_text e)) = pid"
proof -
  have "sscanf_maps (maps_text e) (ProcessMap_new\<lparr>pm_pid := pid, pm_allinfo := trimSpaces (maps_text e)\<rparr>) =
      scanned (me_start e) (me_end e) (perms_text e) (me_offset e) (me_dev e) (me_inode e) (me_path e)
        (ProcessMap_new\<lparr>pm_pid := pid, pm_allinfo := trimSpaces (maps_text e)\<rparr>)"
    using assms unfolding maps_text_def
    by (intro sscanf_maps_line perms_text_word) (auto simp: wf_entry_def list_all_iff ProcessMap_new_def)
  then show "entry_of (parseMapLine pid (maps_text e)) = fields_of e"
    "pm_length (parseMapLine pid (maps_text e)) = me_end e - me_start e"
    "pm_pid (parseMapLine pid (maps_text e)) = pid"
    by (simp_all add: parseMapLine_def Let_def scanned_def entry_of_def fields_of_def perm_at_def perms_text_def
        ProcessMap_new_def)
qed

text \<open>A file of complete lines that fit the buffer is read line by line.\<close>

lemma fgets_line:
  assumes "newline \<notin> set l" "length l + 1 < n"
  shows "fgets n (l @ newline # s) = (l @ [newline], s)"
proof -
  have "takeWhile (\<lambda>c. c \<noteq> newline) (l @ newline # s) = l"
    using assms(1) by (induction l) auto
  then show ?thesis using assms(2) by (simp add: fgets_def Let_def)
qed

lemma fgets_lines_complete:
  assumes "\<And>l. l \<in> set ls \<Longrightarrow> newline \<notin> set l \<and> length l + 1 < n"
  shows "fgets_lines n (concat (map (\<lambda>l. l @ [newline]) ls)) = map (\<lambda>l. l @ [newline]) ls"
  using assms
proof (induction ls)
  case (Cons l ls)
  let ?rest = "concat (map (\<lambda>l. l @ [newline]) ls)"
  from Cons.prems [of l] have l: "newline \<notin> set l" "length l + 1 < n" by auto
  have step: "fgets_lines n (l @ newline # ?rest) = (l @ [newline]) # fgets_lines n ?rest"
    by (subst fgets_lines.simps) (use l fgets_line [OF l] in simp)
  have "fgets_lines n ?rest = map (\<lambda>l. l @ [newline]) ls" using Cons by simp
  with step show ?case by simp
qed (simp add: fgets_lines.simps)

lemma word_no_newline: "is_word w \<Longrightarrow> newline \<notin> set w"
  unfolding is_word_def using isspace_blanks(2) by blast

lemma digits_no_newline [simp]: "newline \<notin> set (hex_padded k n)" "newline \<notin> set (decimal n)"
proof -
  have none: "digit_value base newline = None" for base by (rule no_digit_blank)
  show "newline \<notin> set (hex_padded k n)"
  proof
    assume "newline \<in> set (hex_padded k n)"
    from hex_padded_digits(2) [OF this] none show False by simp
  qed
  show "newline \<notin> set (decimal n)"
  proof
    assume "newline \<in> set (decimal n)"
    from decimal_digits(1) [OF this] none show False by simp
  qed
qed

lemma maps_text_line:
  assumes "wf_entry e"
  obtains l where "maps_text e = l @ [newline]" "newline \<notin> set l" "length l + 1 < 512"
proof
  let ?l = "hex_padded 8 (unat (me_start e)) @ ''-'' @ hex_padded 8 (unat (me_end e)) @ '' '' @ perms_text e @ '' '' @
     hex_padded 8 (unat (me_offset e)) @ '' '' @ me_dev e @ '' '' @ decimal (unat (me_inode e)) @ me_pad e @ me_path e"
  show l: "maps_text e = ?l @ [newline]"
    by (simp add: maps_text_def maps_line_def)
  have "newline \<notin> set (me_pad e)" "newline \<notin> set (me_path e)" "newline \<notin> set (me_dev e)"
  proof -
    have "is_word (me_dev e)" "list_all (\<lambda>c. c = CHR '' '') (me_pad e)" "is_word (me_path e) \<or> me_path e = []"
      using assms unfolding wf_entry_def by blast+
    moreover have "newline \<noteq> CHR '' ''" by (simp add: newline_def)
    ultimately show "newline \<notin> set (me_pad e)" "newline \<notin> set (me_path e)" "newline \<notin> set (me_dev e)"
      using word_no_newline unfolding list_all_iff by (blast, metis empty_iff empty_set, blast)
  qed
  moreover have "newline \<noteq> CHR '' ''" "newline \<noteq> CHR ''-''" by (simp_all add: newline_def)
  ultimately show "newline \<notin> set ?l"
    using word_no_newline [OF perms_text_word [of e]] by simp
  show "length ?l + 1 < 512"
    using assms l by (simp add: wf_entry_def)
qed

lemma fgets_lines_maps:
  assumes "list_all wf_entry es"
  shows "fgets_lines 512 (concat (map maps_text es)) = map maps_text es"
proof -
  let ?l = "\<lambda>e. butlast (maps_text e)"
  have line: "maps_text e = ?l e @ [newline]" "newline \<notin> set (?l e)" "length (?l e) + 1 < 512"
    if "e \<in> set es" for e
  proof -
    from that assms have "wf_entry e" by (simp add: list_all_iff)
    then obtain l where "maps_text e = l @ [newline]" "newline \<notin> set l" "length l + 1 < 512"
      by (rule maps_text_line)
    then show "maps_text e = ?l e @ [newline]" "newline \<notin> set (?l e)" "length (?l e) + 1 < 512" by simp_all
  qed
  then have eq: "map maps_text es = map (\<lambda>l. l @ [newline]) (map ?l es)" by simp
  show ?thesis
    unfolding eq using line(2,3) by (intro fgets_lines_complete) auto
qed


text \<open>A line that does not fit the buffer is cut, and what remains of it is taken for a line of its own.\<close>

lemma long_line_splits:
  assumes "1 < n" "n \<le> length s"
  shows "2 \<le> length (fgets_lines n s)"
proof -
  from assms have s: "s \<noteq> []" by auto
  obtain l r where lr: "fgets n s = (l, r)" by force
  have "length l \<le> n - 1" using lr by (auto simp: fgets_def Let_def split: if_splits)
  with fgets_split [OF lr] assms have "r \<noteq> []" by auto
  with s assms lr show ?thesis
    by (subst fgets_lines.simps, simp, subst fgets_lines.simps) (auto split: prod.splits)
qed

end
