(* ===== verification/OrderedMap.thy ===== *)
theory OrderedMap
  imports Main "HOL-Library.Multiset"
begin

text \<open>
  \<open>std::map\<close> as an association list in the order of the keys, so that a loop over the container meets the entries in the order in
  which the sources do. \<open>map_of\<close> is \<open>find\<close>, \<open>om_put\<close> is \<open>m[k] = v\<close>, \<open>om_emplace\<close> is \<open>emplace\<close>, which leaves an existing
  entry alone, and \<open>om_del\<close> is \<open>erase\<close>.
\<close>

definition om_ok :: "('a :: linorder \<times> 'b) list \<Rightarrow> bool" where
  "om_ok m \<longleftrightarrow> sorted_wrt (<) (map fst m)"

definition om_put :: "'a :: linorder \<Rightarrow> 'b \<Rightarrow> ('a \<times> 'b) list \<Rightarrow> ('a \<times> 'b) list" where
  "om_put k v m = filter (\<lambda>p. fst p < k) m @ (k, v) # filter (\<lambda>p. k < fst p) m"

definition om_del :: "'a :: linorder \<Rightarrow> ('a \<times> 'b) list \<Rightarrow> ('a \<times> 'b) list" where
  "om_del k m = filter (\<lambda>p. fst p \<noteq> k) m"

definition om_emplace :: "'a :: linorder \<Rightarrow> 'b \<Rightarrow> ('a \<times> 'b) list \<Rightarrow> ('a \<times> 'b) list" where
  "om_emplace k v m = (if map_of m k = None then om_put k v m else m)"

lemma om_ok_Nil [simp]: "om_ok []"
  by (simp add: om_ok_def)

lemma om_ok_distinct: "om_ok m \<Longrightarrow> distinct (map fst m)"
  unfolding om_ok_def by (metis strict_sorted_iff)

lemma om_ok_filter: "om_ok m \<Longrightarrow> om_ok (filter P m)"
  unfolding om_ok_def by (induction m) auto

lemma om_ok_del [simp]: "om_ok m \<Longrightarrow> om_ok (om_del k m)"
  by (simp add: om_del_def om_ok_filter)

lemma om_ok_put [simp]: "om_ok m \<Longrightarrow> om_ok (om_put k v m)"
  using om_ok_filter [of m "\<lambda>p. fst p < k"] om_ok_filter [of m "\<lambda>p. k < fst p"]
  unfolding om_ok_def om_put_def by (auto simp: sorted_wrt_append intro: less_trans)

lemma om_ok_emplace [simp]: "om_ok m \<Longrightarrow> om_ok (om_emplace k v m)"
  by (simp add: om_emplace_def)

lemma map_of_filter_key: "P k \<Longrightarrow> map_of (filter (\<lambda>p. P (fst p)) m) k = map_of m k"
  by (induction m) auto

lemma map_of_filter_other: "\<not> P k \<Longrightarrow> map_of (filter (\<lambda>p. P (fst p)) m) k = None"
  by (induction m) auto

lemma map_of_del: "map_of (om_del k m) = (map_of m)(k := None)"
proof
  fix x
  show "map_of (om_del k m) x = ((map_of m)(k := None)) x"
    using map_of_filter_key [of "\<lambda>y. y \<noteq> k" x m] map_of_filter_other [of "\<lambda>y. y \<noteq> k" x m]
    by (cases "x = k") (simp_all add: om_del_def)
qed

lemma map_of_put: "map_of (om_put k v m) = (map_of m)(k \<mapsto> v)"
proof
  fix x
  show "map_of (om_put k v m) x = ((map_of m)(k \<mapsto> v)) x"
    using map_of_filter_key [of "\<lambda>y. y < k" x m] map_of_filter_other [of "\<lambda>y. y < k" x m]
      map_of_filter_key [of "\<lambda>y. k < y" x m] map_of_filter_other [of "\<lambda>y. k < y" x m]
    by (cases x k rule: linorder_cases) (auto simp: om_put_def map_add_def split: option.splits)
qed

lemma om_put_new:
  assumes "map_of m k = None"
  shows "mset (om_put k v m) = add_mset (k, v) (mset m)"
proof -
  from assms have "k \<notin> fst ` set m" by (simp add: map_of_eq_None_iff)
  then have "filter (\<lambda>p. k < fst p) m = filter (\<lambda>p. \<not> fst p < k) m"
    by (intro filter_cong) (auto simp: not_less le_less)
  moreover have "mset (filter (\<lambda>p. fst p < k) m) + mset (filter (\<lambda>p. \<not> fst p < k) m) = mset m"
    by (metis mset_filter multiset_partition)
  ultimately show ?thesis by (simp add: om_put_def)
qed

lemma om_del_old:
  assumes "distinct (map fst m)" "map_of m k = Some v"
  shows "mset m = add_mset (k, v) (mset (om_del k m))"
  using assms
proof (induction m)
  case (Cons p m)
  show ?case
  proof (cases "fst p = k")
    case True
    with Cons.prems have "k \<notin> set (map fst m)" "p = (k, v)" by (auto simp: prod_eq_iff)
    then have "om_del k m = m" by (auto simp: om_del_def filter_id_conv)
    with True \<open>p = (k, v)\<close> show ?thesis by (simp add: om_del_def)
  next
    case False
    with Cons.prems have "mset m = add_mset (k, v) (mset (om_del k m))" by (intro Cons.IH) (auto split: if_splits)
    with False show ?thesis by (simp add: om_del_def)
  qed
qed simp

lemma set_om_del: "set (om_del k m) = {p \<in> set m. fst p \<noteq> k}"
  by (simp add: om_del_def)

lemma set_om_put: "set (om_put k v m) = insert (k, v) {p \<in> set m. fst p \<noteq> k}"
  by (auto simp: om_put_def)

lemma om_del_missing: "map_of m k = None \<Longrightarrow> om_del k m = m"
  by (auto simp: om_del_def map_of_eq_None_iff filter_id_conv)

text \<open>\<open>om_replace\<close> changes the value at a key that is present, as a loop over references to the entries does.\<close>

definition om_replace :: "'a :: linorder \<Rightarrow> 'b \<Rightarrow> ('a \<times> 'b) list \<Rightarrow> ('a \<times> 'b) list" where
  "om_replace k v m = map (\<lambda>p. if fst p = k then (k, v) else p) m"

lemma om_replace_keys [simp]: "map fst (om_replace k v m) = map fst m"
  by (induction m) (auto simp: om_replace_def)

lemma om_ok_replace [simp]: "om_ok (om_replace k v m) = om_ok m"
  by (simp add: om_ok_def)

lemma map_of_replace:
  "map_of (om_replace k v m) x = (if x = k \<and> map_of m k \<noteq> None then Some v else map_of m x)"
  by (induction m) (auto simp: om_replace_def)

end
