(* ===== verification/KernelHwBreakpoint.thy ===== *)
theory KernelHwBreakpoint
  imports KernelDriver LinuxProc OrderedMap
begin

text \<open>
  Breakpoints of a whole process on top of the driver's breakpoints of one thread, from
  \<open>engine/android/KernelHwBreakpoint.hpp\<close>. A logical breakpoint has one driver breakpoint for each thread; a background
  thread rescans \<open>/proc/<pid>/task\<close>, installs what is missing for new threads and removes what belongs to threads that
  are gone. Every operation holds the mutex of the object, so that the operations and the rescan are atomic steps; the wake-up pipe only
  decides when a rescan runs.

  The theorem \<open>kbp_reachable_matches\<close> says that in every state that the steps reach the driver has exactly the breakpoints that the table
  lists, each for one thread of one logical breakpoint and in the state (enabled or not) of that breakpoint.
\<close>

section \<open>State\<close>

definition KERNEL_BP_HANDLE_TAG :: u64 where
  "KERNEL_BP_HANDLE_TAG = 0x2000000000000000"

record KEntry =
  ke_pid :: int
  ke_bp_addr :: u64
  ke_bp_len :: u32
  ke_bp_type :: u32
  ke_enabled :: bool
  ke_force_reclaim :: bool
  ke_subs :: "(int \<times> u64) list"
  ke_loggedInstallFailures :: "int list"

record KBpTable =
  kb_entries :: "(u64 \<times> KEntry) list"
  kb_seq :: u32

definition KBpTable_new :: KBpTable where
  "KBpTable_new = \<lparr>kb_entries = [], kb_seq = 0\<rparr>"

type_synonym ('k, 'a) kbp = "(KBpTable \<times> 'k KDriver, 'a) state"

definition kb_driver :: "('k, 'a) driver \<Rightarrow> ('k, 'a) kbp" where
  "kb_driver = part snd (\<lambda>d s. (fst s, d))"

definition kb_table :: "('k, KBpTable) kbp" where
  "kb_table = do { s \<leftarrow> State_Monad.get; State_Monad.return (fst s) }"

definition kb_update :: "(KBpTable \<Rightarrow> KBpTable) \<Rightarrow> ('k, unit) kbp" where
  "kb_update f = State_Monad.update (\<lambda>s. (f (fst s), snd s))"

section \<open>Threads\<close>

definition ScanTids :: "'k Os \<Rightarrow> int \<Rightarrow> ('k, int list) state" where
  "ScanTids os pid = do {
     dir \<leftarrow> os_listdir os (proc_path pid ''task'');
     State_Monad.return (case dir of None \<Rightarrow> []
       | Some entries \<Rightarrow> map (\<lambda>(name, _). int (dec_value name))
           (filter (\<lambda>(name, _). name \<noteq> [] \<and> list_all isdigit name) entries)) }"

text \<open>A first attempt without reclaiming and, if the breakpoint asks for it, a second one with it.\<close>

definition InstallForTid ::
    "'k Os \<Rightarrow> int \<Rightarrow> u64 \<Rightarrow> u32 \<Rightarrow> u32 \<Rightarrow> bool \<Rightarrow> ('k, HardwareBreakpointInstallResult) driver" where
  "InstallForTid os tid addr len type forceReclaim = do {
     install \<leftarrow> drv_AddHardwareBreakpoint os tid addr len type False;
     if ir_handle install \<noteq> 0 then State_Monad.return install
     else if \<not> forceReclaim then State_Monad.return install
     else drv_AddHardwareBreakpoint os tid addr len type True }"

text \<open>The loop of \<open>AddProcessHwBp\<close> over the threads.\<close>

fun installAll :: "'k Os \<Rightarrow> int list \<Rightarrow> KEntry \<Rightarrow> ('k, KEntry) driver" where
  "installAll os [] e = State_Monad.return e"
| "installAll os (tid # tids) e = do {
     install \<leftarrow> InstallForTid os tid (ke_bp_addr e) (ke_bp_len e) (ke_bp_type e) (ke_force_reclaim e);
     let dh = ir_handle install;
     installAll os tids
       (if dh \<noteq> 0 then e\<lparr>ke_subs := om_put tid dh (ke_subs e)\<rparr>
        else e\<lparr>ke_loggedInstallFailures := List.insert tid (ke_loggedInstallFailures e)\<rparr>) }"

definition KEntry_new :: "int \<Rightarrow> u64 \<Rightarrow> u32 \<Rightarrow> u32 \<Rightarrow> bool \<Rightarrow> KEntry" where
  "KEntry_new pid addr len type forceReclaim = \<lparr>ke_pid = pid, ke_bp_addr = addr, ke_bp_len = len, ke_bp_type = type,
     ke_enabled = True, ke_force_reclaim = forceReclaim, ke_subs = [], ke_loggedInstallFailures = []\<rparr>"

section \<open>Operations\<close>

definition kbp_AddProcessHwBp :: "'k Os \<Rightarrow> int \<Rightarrow> u64 \<Rightarrow> u32 \<Rightarrow> u32 \<Rightarrow> bool \<Rightarrow> ('k, u64) kbp" where
  "kbp_AddProcessHwBp os pid addr len type forceReclaim =
     (if pid \<le> 0 \<or> addr = 0 then State_Monad.return 0
      else do {
        connected \<leftarrow> kb_driver drv_IsConnected;
        if \<not> connected then State_Monad.return 0
        else do {
          tids \<leftarrow> kb_driver (on_kernel (ScanTids os pid));
          if tids = [] then State_Monad.return 0
          else do {
            e \<leftarrow> kb_driver (installAll os tids (KEntry_new pid addr len type forceReclaim));
            if ke_subs e = [] then State_Monad.return 0
            else do {
              t \<leftarrow> kb_table;
              let seq = kb_seq t + 1;
              let handle = or KERNEL_BP_HANDLE_TAG (ucast seq);
              kb_update (\<lambda>t. \<lparr>kb_entries = om_emplace handle e (kb_entries t), kb_seq = seq\<rparr>);
              State_Monad.return handle }}}})"

definition kbp_DelProcessHwBp :: "'k Os \<Rightarrow> u64 \<Rightarrow> ('k, bool) kbp" where
  "kbp_DelProcessHwBp os h = do {
     t \<leftarrow> kb_table;
     case map_of (kb_entries t) h of
       None \<Rightarrow> State_Monad.return False
     | Some e \<Rightarrow> do {
         for_each (\<lambda>sub. kb_driver (drv_RemoveHardwareBreakpoint os (snd sub))) (ke_subs e);
         kb_update (\<lambda>t. t\<lparr>kb_entries := om_del h (kb_entries t)\<rparr>);
         State_Monad.return True }}"

definition kbp_SuspendProcessHwBp :: "'k Os \<Rightarrow> u64 \<Rightarrow> ('k, bool) kbp" where
  "kbp_SuspendProcessHwBp os h = do {
     t \<leftarrow> kb_table;
     case map_of (kb_entries t) h of
       None \<Rightarrow> State_Monad.return False
     | Some e \<Rightarrow> do {
         for_each (\<lambda>sub. kb_driver (drv_DisableHardwareBreakpoint os (snd sub))) (ke_subs e);
         kb_update (\<lambda>t. t\<lparr>kb_entries := om_replace h (e\<lparr>ke_enabled := False\<rparr>) (kb_entries t)\<rparr>);
         State_Monad.return True }}"

definition kbp_ResumeProcessHwBp :: "'k Os \<Rightarrow> u64 \<Rightarrow> ('k, bool) kbp" where
  "kbp_ResumeProcessHwBp os h = do {
     t \<leftarrow> kb_table;
     case map_of (kb_entries t) h of
       None \<Rightarrow> State_Monad.return False
     | Some e \<Rightarrow> do {
         for_each (\<lambda>sub. kb_driver (drv_EnableHardwareBreakpoint os (snd sub))) (ke_subs e);
         kb_update (\<lambda>t. t\<lparr>kb_entries := om_replace h (e\<lparr>ke_enabled := True\<rparr>) (kb_entries t)\<rparr>);
         State_Monad.return True }}"

text \<open>The registers behind \<open>pc\<close> are cleared, as the perf backend has none of them.\<close>

definition clear_extra :: "HW_HIT_ITEM \<Rightarrow> HW_HIT_ITEM" where
  "clear_extra item = item\<lparr>hw_regs := take 33 (hw_regs item) @ [0, 0, 0]\<rparr>"

definition kbp_ReadHwBpInfo :: "'k Os \<Rightarrow> u64 \<Rightarrow> ('k, (u64 \<times> HW_HIT_ITEM list) option) kbp" where
  "kbp_ReadHwBpInfo os h = do {
     t \<leftarrow> kb_table;
     case map_of (kb_entries t) h of
       None \<Rightarrow> State_Monad.return None
     | Some e \<Rightarrow> do {
         rs \<leftarrow> for_each (\<lambda>sub. kb_driver (drv_ReadHardwareBreakpointInfo os (snd sub))) (ke_subs e);
         let found = map the (filter (\<lambda>r. r \<noteq> None) rs);
         State_Monad.return (Some (sum_list (map fst found), concat (map (map clear_extra \<circ> snd) found))) }}"

definition kbp_Owns :: "u64 \<Rightarrow> ('k, bool) kbp" where
  "kbp_Owns h = do { t \<leftarrow> kb_table; State_Monad.return (map_of (kb_entries t) h \<noteq> None) }"

section \<open>Following the threads\<close>

definition followTid :: "'k Os \<Rightarrow> int \<Rightarrow> KEntry \<Rightarrow> ('k, KEntry) driver" where
  "followTid os tid e =
     (if map_of (ke_subs e) tid \<noteq> None then State_Monad.return e
      else do {
        install \<leftarrow> InstallForTid os tid (ke_bp_addr e) (ke_bp_len e) (ke_bp_type e) (ke_force_reclaim e);
        let dh = ir_handle install;
        if dh \<noteq> 0 then do {
          (if \<not> ke_enabled e then drv_DisableHardwareBreakpoint os dh else State_Monad.return True);
          State_Monad.return (e\<lparr>ke_subs := om_put tid dh (ke_subs e),
            ke_loggedInstallFailures := remove1 tid (ke_loggedInstallFailures e)\<rparr>) }
        else State_Monad.return (e\<lparr>ke_loggedInstallFailures := List.insert tid (ke_loggedInstallFailures e)\<rparr>) })"

fun followTids :: "'k Os \<Rightarrow> int list \<Rightarrow> KEntry \<Rightarrow> ('k, KEntry) driver" where
  "followTids os [] e = State_Monad.return e"
| "followTids os (tid # tids) e = do { e' \<leftarrow> followTid os tid e; followTids os tids e' }"

text \<open>The loop that removes what belongs to threads that are gone.\<close>

definition reapTids :: "'k Os \<Rightarrow> int list \<Rightarrow> KEntry \<Rightarrow> ('k, KEntry) driver" where
  "reapTids os tids e = do {
     for_each (\<lambda>sub. drv_RemoveHardwareBreakpoint os (snd sub)) (filter (\<lambda>sub. fst sub \<notin> set tids) (ke_subs e));
     State_Monad.return (e\<lparr>ke_subs := filter (\<lambda>sub. fst sub \<in> set tids) (ke_subs e),
       ke_loggedInstallFailures := filter (\<lambda>tid. tid \<in> set tids) (ke_loggedInstallFailures e)\<rparr>) }"

definition rescanEntry :: "'k Os \<Rightarrow> KEntry \<Rightarrow> ('k, KEntry) driver" where
  "rescanEntry os e = do {
     tids \<leftarrow> on_kernel (ScanTids os (ke_pid e));
     if tids = [] then State_Monad.return e
     else do { e' \<leftarrow> followTids os tids e; reapTids os tids e' }}"

text \<open>The loop over the entries, each of which is changed in place.\<close>

fun rescanEntries :: "'k Os \<Rightarrow> (u64 \<times> KEntry) list \<Rightarrow> ('k, (u64 \<times> KEntry) list) driver" where
  "rescanEntries os [] = State_Monad.return []"
| "rescanEntries os (p # ps) = do {
     e \<leftarrow> rescanEntry os (snd p);
     rest \<leftarrow> rescanEntries os ps;
     State_Monad.return ((fst p, e) # rest) }"

definition kbp_RescanAllLocked :: "'k Os \<Rightarrow> ('k, unit) kbp" where
  "kbp_RescanAllLocked os = do {
     t \<leftarrow> kb_table;
     entries \<leftarrow> kb_driver (rescanEntries os (kb_entries t));
     kb_update (\<lambda>t. t\<lparr>kb_entries := entries\<rparr>) }"

section \<open>What the driver has and what the table lists\<close>

text \<open>
  The breakpoints of a kernel: \<open>live k\<close> maps the handles of the installed breakpoints to whether they are enabled. The hypothesis
  \<open>bp_kernel\<close> says what the commands of the driver do to it: an installed breakpoint gets a handle that no other one has and is enabled, the
  other commands act on the breakpoint that they name, and reading events or listing the threads changes nothing. The list of the threads
  has no duplicates.
\<close>

definition bp_kernel :: "'k Os \<Rightarrow> ('k \<Rightarrow> u64 \<rightharpoonup> bool) \<Rightarrow> bool" where
  "bp_kernel os live \<longleftrightarrow>
     (\<forall>fd req k r err req' k'. run_state (hwbp_install os fd req) k = ((r, err, req'), k') \<longrightarrow>
        (if r = 0 \<and> hi_handle req' \<noteq> 0
         then hi_handle req' \<notin> dom (live k) \<and> live k' = (live k)(hi_handle req' \<mapsto> True) else live k' = live k)) \<and>
     (\<forall>fd h k r k'. run_state (handle_cmd os fd NI_CMD_HWBP_UNINSTALL h) k = (r, k') \<longrightarrow> live k' = (live k)(h := None)) \<and>
     (\<forall>fd h k r k'. run_state (handle_cmd os fd NI_CMD_HWBP_DISABLE h) k = (r, k') \<longrightarrow>
        live k' = (if live k h = None then live k else (live k)(h \<mapsto> False))) \<and>
     (\<forall>fd h k r k'. run_state (handle_cmd os fd NI_CMD_HWBP_ENABLE h) k = (r, k') \<longrightarrow>
        live k' = (if live k h = None then live k else (live k)(h \<mapsto> True))) \<and>
     (\<forall>fd h n k r k'. run_state (hwbp_read_events os fd h n) k = (r, k') \<longrightarrow> live k' = live k) \<and>
     (\<forall>pid k tids k'. run_state (ScanTids os pid) k = (tids, k') \<longrightarrow> distinct tids \<and> live k' = live k)"

lemma bp_kernelD:
  assumes "bp_kernel os live"
  shows "run_state (hwbp_install os fd req) k = ((r, err, req'), k') \<Longrightarrow> r = 0 \<Longrightarrow> hi_handle req' \<noteq> 0 \<Longrightarrow>
      hi_handle req' \<notin> dom (live k) \<and> live k' = (live k)(hi_handle req' \<mapsto> True)"
    and "run_state (hwbp_install os fd req) k = ((r, err, req'), k') \<Longrightarrow> \<not> (r = 0 \<and> hi_handle req' \<noteq> 0) \<Longrightarrow> live k' = live k"
    and "run_state (handle_cmd os fd NI_CMD_HWBP_UNINSTALL h) k = (r', k') \<Longrightarrow> live k' = (live k)(h := None)"
    and "run_state (handle_cmd os fd NI_CMD_HWBP_DISABLE h) k = (r', k') \<Longrightarrow>
      live k' = (if live k h = None then live k else (live k)(h \<mapsto> False))"
    and "run_state (handle_cmd os fd NI_CMD_HWBP_ENABLE h) k = (r', k') \<Longrightarrow>
      live k' = (if live k h = None then live k else (live k)(h \<mapsto> True))"
    and "run_state (hwbp_read_events os fd h n) k = (evs, k') \<Longrightarrow> live k' = live k"
    and "run_state (ScanTids os pid) k = (tids, k') \<Longrightarrow> distinct tids \<and> live k' = live k"
proof -
  note all = assms [unfolded bp_kernel_def]
  show "hi_handle req' \<notin> dom (live k) \<and> live k' = (live k)(hi_handle req' \<mapsto> True)"
    if "run_state (hwbp_install os fd req) k = ((r, err, req'), k')" "r = 0" "hi_handle req' \<noteq> 0"
    using all [THEN conjunct1, rule_format, OF that(1)] that(2,3) by simp
  show "live k' = live k" if "run_state (hwbp_install os fd req) k = ((r, err, req'), k')"
    "\<not> (r = 0 \<and> hi_handle req' \<noteq> 0)"
    using all [THEN conjunct1, rule_format, OF that(1)] that(2) by simp
  show "live k' = (live k)(h := None)"
    if "run_state (handle_cmd os fd NI_CMD_HWBP_UNINSTALL h) k = (r', k')" 
    by (rule all [THEN conjunct2, THEN conjunct1, rule_format, OF that])
  show "live k' = (if live k h = None then live k else (live k)(h \<mapsto> False))"
    if "run_state (handle_cmd os fd NI_CMD_HWBP_DISABLE h) k = (r', k')" 
    by (rule all [THEN conjunct2, THEN conjunct2, THEN conjunct1, rule_format, OF that])
  show "live k' = (if live k h = None then live k else (live k)(h \<mapsto> True))"
    if "run_state (handle_cmd os fd NI_CMD_HWBP_ENABLE h) k = (r', k')" 
    by (rule all [THEN conjunct2, THEN conjunct2, THEN conjunct2, THEN conjunct1, rule_format, OF that])
  show "live k' = live k" if "run_state (hwbp_read_events os fd h n) k = (evs, k')" 
    by (rule all [THEN conjunct2, THEN conjunct2, THEN conjunct2, THEN conjunct2, THEN conjunct1, rule_format, OF that])
  show "distinct tids \<and> live k' = live k" if "run_state (ScanTids os pid) k = (tids, k')" 
    by (rule all [THEN conjunct2, THEN conjunct2, THEN conjunct2, THEN conjunct2, THEN conjunct2, rule_format, OF that])
qed

text \<open>\<open>matches live L d\<close>: the driver is connected and has exactly the breakpoints that the list \<open>L\<close> of handles and states names.\<close>

definition matches :: "('k \<Rightarrow> u64 \<rightharpoonup> bool) \<Rightarrow> (u64 \<times> bool) list \<Rightarrow> 'k KDriver \<Rightarrow> bool" where
  "matches live L d \<longleftrightarrow> isConnected d \<and> distinct (map fst L) \<and> 0 \<notin> fst ` set L \<and>
     live (kd_kernel d) = map_of L \<and> dom (kd_hwbpHitTotals d) = fst ` set L"

lemma matches_perm:
  assumes "mset L = mset L'"
  shows "matches live L d \<longleftrightarrow> matches live L' d"
proof -
  have "set L = set L'" using assms by (rule mset_eq_setD)
  moreover have "distinct (map fst L) \<longleftrightarrow> distinct (map fst L')"
    using assms by (metis mset_map mset_eq_imp_distinct_iff)
  moreover have "map_of L = map_of L'" if "distinct (map fst L)" "distinct (map fst L')"
    using that calculation(1) by (simp add: map_of_inject_set)
  ultimately show ?thesis unfolding matches_def by auto
qed

lemma on_kernel_run:
  "run_state (on_kernel m) d = (a, d') \<longleftrightarrow> (\<exists>k'. run_state m (kd_kernel d) = (a, k') \<and> d' = d\<lparr>kd_kernel := k'\<rparr>)"
  by (auto simp: on_kernel_def split: prod.splits)

lemma connectedE:
  assumes "matches live L d"
  obtains fd where "kd_ni d = Some fd" "0 \<le> fd"
  using assms by (auto simp: matches_def isConnected_def split: option.splits)

lemma run_with_driver:
  "kd_ni d = Some fd \<Longrightarrow> 0 \<le> fd \<Longrightarrow> run_state (with_driver gone f) d = run_state (f fd) d"
  by (simp add: with_driver_def driverLocked_def)

lemma matches_kernel:
  "matches live L d \<Longrightarrow> live k' = live (kd_kernel d) \<Longrightarrow> matches live L (d\<lparr>kd_kernel := k'\<rparr>)"
  by (simp add: matches_def isConnected_def)

lemma add_matches:
  assumes K: "bp_kernel os live" and L: "matches live L d"
    and run: "run_state (drv_AddHardwareBreakpoint os tid a len type f) d = (r, d')"
  shows "if ir_handle r = 0 then matches live L d' else matches live ((ir_handle r, True) # L) d'"
proof (cases "tid \<le> 0 \<or> a = 0")
  case True
  with run L show ?thesis by (auto simp: drv_AddHardwareBreakpoint_def install_failed_def)
next
  case False
  from L obtain fd where fd: "kd_ni d = Some fd" "0 \<le> fd" by (rule connectedE)
  note run = run [unfolded drv_AddHardwareBreakpoint_def if_not_P [OF False] run_with_driver [OF fd]]
  obtain x err req k' where os:
    "run_state (hwbp_install os fd (install_request tid a len type f)) (kd_kernel d) = ((x, err, req), k')"
    by (metis prod.exhaust)
  show ?thesis
  proof (cases "x = 0 \<and> hi_handle req \<noteq> 0")
    case True
    with run os have r: "ir_handle r = hi_handle req"
      "d' = d\<lparr>kd_kernel := k', kd_hwbpHitTotals := (kd_hwbpHitTotals d)(hi_handle req \<mapsto> 0)\<rparr>"
      by (auto simp: on_kernel_def Let_def)
    have "hi_handle req \<notin> dom (live (kd_kernel d))" "live k' = (live (kd_kernel d))(hi_handle req \<mapsto> True)"
      using bp_kernelD(1) [OF K os] True by auto
    with L True r show ?thesis by (auto simp: matches_def isConnected_def dom_map_of_conv_image_fst)
  next
    case False
    with run os have r: "ir_handle r = 0" "d' = d\<lparr>kd_kernel := k'\<rparr>"
      by (auto simp: on_kernel_def Let_def install_failed_def split: if_splits)
    with bp_kernelD(2) [OF K os False] L show ?thesis by (simp add: matches_kernel)
  qed
qed

lemma remove_matches:
  assumes K: "bp_kernel os live" and L: "matches live L d"
    and run: "run_state (drv_RemoveHardwareBreakpoint os h) d = (r, d')"
  shows "matches live (om_del h L) d'"
proof (cases "h = 0")
  case True
  with L have "om_del h L = L" by (auto simp: matches_def om_del_def filter_id_conv image_iff)
  with True run L show ?thesis by (simp add: drv_RemoveHardwareBreakpoint_def)
next
  case False
  from L obtain fd where fd: "kd_ni d = Some fd" "0 \<le> fd" by (rule connectedE)
  note run = run [unfolded drv_RemoveHardwareBreakpoint_def if_not_P [OF False] run_with_driver [OF fd]]
  obtain x k' where os: "run_state (handle_cmd os fd NI_CMD_HWBP_UNINSTALL h) (kd_kernel d) = (x, k')" by force
  with run have d': "d' = d\<lparr>kd_kernel := k', kd_hwbpHitTotals := (kd_hwbpHitTotals d)(h := None)\<rparr>"
    by (auto simp: on_kernel_def)
  have "live k' = (live (kd_kernel d))(h := None)" by (rule bp_kernelD(3) [OF K os])
  with L d' show ?thesis
    by (auto simp: matches_def isConnected_def map_of_del set_om_del distinct_map_filter om_del_def [symmetric])
       (auto simp: om_del_def distinct_map_filter)
qed

text \<open>Enabling and disabling sets the state of one breakpoint.\<close>

definition flag_put :: "u64 \<Rightarrow> bool \<Rightarrow> (u64 \<times> bool) list \<Rightarrow> (u64 \<times> bool) list" where
  "flag_put h b L = om_replace h b L"

lemma flag_put_matches:
  assumes L: "matches live L d" and k': "live k' = (if live (kd_kernel d) h = None then live (kd_kernel d)
      else (live (kd_kernel d))(h \<mapsto> b))"
  shows "matches live (flag_put h b L) (d\<lparr>kd_kernel := k'\<rparr>)"
proof -
  have keys: "map fst (flag_put h b L) = map fst L" by (simp add: flag_put_def)
  then have keys_set: "fst ` set (flag_put h b L) = fst ` set L" by (metis set_map)
  have "live k' = map_of (flag_put h b L)"
    using L k' by (auto simp: matches_def flag_put_def map_of_replace fun_eq_iff)
  with L show ?thesis unfolding matches_def keys keys_set by (simp add: isConnected_def)
qed

lemma switch_matches:
  assumes K: "bp_kernel os live" and L: "matches live L d"
  shows "run_state (drv_DisableHardwareBreakpoint os h) d = (r, d') \<Longrightarrow> h \<noteq> 0 \<Longrightarrow> matches live (flag_put h False L) d'"
    and "run_state (drv_EnableHardwareBreakpoint os h) d = (r, d') \<Longrightarrow> h \<noteq> 0 \<Longrightarrow> matches live (flag_put h True L) d'"
proof -
  from L obtain fd where fd: "kd_ni d = Some fd" "0 \<le> fd" by (rule connectedE)
  show "matches live (flag_put h False L) d'" if run: "run_state (drv_DisableHardwareBreakpoint os h) d = (r, d')" "h \<noteq> 0"
  proof -
    obtain x k' where os: "run_state (handle_cmd os fd NI_CMD_HWBP_DISABLE h) (kd_kernel d) = (x, k')" by force
    with run fd have "d' = d\<lparr>kd_kernel := k'\<rparr>"
      by (auto simp: drv_DisableHardwareBreakpoint_def run_with_driver on_kernel_def)
    with flag_put_matches [OF L bp_kernelD(4) [OF K os]] show ?thesis by simp
  qed
  show "matches live (flag_put h True L) d'" if run: "run_state (drv_EnableHardwareBreakpoint os h) d = (r, d')" "h \<noteq> 0"
  proof -
    obtain x k' where os: "run_state (handle_cmd os fd NI_CMD_HWBP_ENABLE h) (kd_kernel d) = (x, k')" by force
    with run fd have "d' = d\<lparr>kd_kernel := k'\<rparr>"
      by (auto simp: drv_EnableHardwareBreakpoint_def run_with_driver on_kernel_def)
    with flag_put_matches [OF L bp_kernelD(5) [OF K os]] show ?thesis by simp
  qed
qed

lemma scan_matches:
  assumes "bp_kernel os live" "matches live L d" "run_state (on_kernel (ScanTids os pid)) d = (tids, d')"
  shows "matches live L d' \<and> distinct tids"
  using assms bp_kernelD(7) [OF assms(1)] by (auto simp: on_kernel_run intro: matches_kernel)

lemma drain_live:
  assumes "bp_kernel os live"
  shows "run_state (drainEvents os fd h n) k = (r, k') \<Longrightarrow> live k' = live k"
proof (induction n arbitrary: k r k')
  case (Suc n)
  obtain evs k1 where evs: "run_state (hwbp_read_events os fd h NI_HWBP_MAX_EVENTS_PER_READ) k = (evs, k1)" by force
  obtain rest k2 where rest: "run_state (drainEvents os fd h n) k1 = (rest, k2)" by force
  from Suc.prems evs rest have "k' = k1 \<or> k' = k2" by (auto simp: Let_def split: if_splits)
  with bp_kernelD(6) [OF assms evs] Suc.IH [OF rest] show ?case by auto
qed simp

lemma read_matches:
  assumes K: "bp_kernel os live" and L: "matches live L d" and h: "h \<in> fst ` set L"
    and run: "run_state (drv_ReadHardwareBreakpointInfo os h) d = (r, d')"
  shows "matches live L d'"
proof -
  from L obtain fd where fd: "kd_ni d = Some fd" "0 \<le> fd" by (rule connectedE)
  have "h \<noteq> 0" using L h by (auto simp: matches_def)
  obtain hits k' where hits: "run_state (drainEvents os fd h 16) (kd_kernel d) = (hits, k')" by force
  with run fd \<open>h \<noteq> 0\<close> obtain sum where "d' = d\<lparr>kd_kernel := k', kd_hwbpHitTotals := (kd_hwbpHitTotals d)(h \<mapsto> sum)\<rparr>"
    by (auto simp: drv_ReadHardwareBreakpointInfo_def run_with_driver on_kernel_def Let_def)
  with drain_live [OF K hits] L h show ?thesis by (auto simp: matches_def isConnected_def)
qed

text \<open>Loops over the threads of a breakpoint.\<close>

lemma run_for_each_Cons:
  "run_state (for_each f (x # xs)) s = (r, s') \<longleftrightarrow>
     (\<exists>a s1 as. run_state (f x) s = (a, s1) \<and> run_state (for_each f xs) s1 = (as, s') \<and> r = a # as)"
  by (auto split: prod.splits)

lemma kb_driver_run:
  "run_state (kb_driver m) s = (a, s') \<longleftrightarrow> (\<exists>d'. run_state m (snd s) = (a, d') \<and> s' = (fst s, d'))"
  by (auto simp: kb_driver_def split: prod.splits)

lemma for_each_kb_driver: "for_each (\<lambda>x. kb_driver (f x)) xs = kb_driver (for_each f xs)"
proof (induction xs)
  case Nil
  show ?case by (rule state.expand) (auto simp: kb_driver_def fun_eq_iff)
next
  case (Cons x xs)
  then show ?case by (intro state.expand) (auto simp: kb_driver_def fun_eq_iff split: prod.splits)
qed

lemma for_each_remove:
  assumes K: "bp_kernel os live"
  shows "matches live L d \<Longrightarrow> run_state (for_each (\<lambda>sub. drv_RemoveHardwareBreakpoint os (snd sub)) subs) d = (r, d') \<Longrightarrow>
    matches live (filter (\<lambda>p. fst p \<notin> snd ` set subs) L) d'"
proof (induction subs arbitrary: L d r d')
  case (Cons sub subs)
  from Cons.prems(2) obtain a d1 as where d1: "run_state (drv_RemoveHardwareBreakpoint os (snd sub)) d = (a, d1)"
    and rest: "run_state (for_each (\<lambda>sub. drv_RemoveHardwareBreakpoint os (snd sub)) subs) d1 = (as, d')"
    by (auto simp only: run_for_each_Cons)
  have "filter (\<lambda>p. fst p \<notin> snd ` set subs) (om_del (snd sub) L) = filter (\<lambda>p. fst p \<notin> snd ` set (sub # subs)) L"
    by (auto simp: om_del_def intro: filter_cong)
  with Cons.IH [OF remove_matches [OF K Cons.prems(1) d1] rest] show ?case by simp
qed simp

fun flag_all :: "u64 list \<Rightarrow> bool \<Rightarrow> (u64 \<times> bool) list \<Rightarrow> (u64 \<times> bool) list" where
  "flag_all [] b L = L"
| "flag_all (h # hs) b L = flag_all hs b (flag_put h b L)"

lemma flag_all_eq: "flag_all hs b L = map (\<lambda>p. if fst p \<in> set hs then (fst p, b) else p) L"
  by (induction hs arbitrary: L) (auto simp: flag_put_def om_replace_def)

lemma for_each_switch:
  assumes K: "bp_kernel os live"
  shows "matches live L d \<Longrightarrow> 0 \<notin> snd ` set subs \<Longrightarrow>
      run_state (for_each (\<lambda>sub. drv_DisableHardwareBreakpoint os (snd sub)) subs) d = (r, d') \<Longrightarrow>
      matches live (flag_all (map snd subs) False L) d'"
    and "matches live L d \<Longrightarrow> 0 \<notin> snd ` set subs \<Longrightarrow>
      run_state (for_each (\<lambda>sub. drv_EnableHardwareBreakpoint os (snd sub)) subs) d = (r, d') \<Longrightarrow>
      matches live (flag_all (map snd subs) True L) d'"
proof (induction subs arbitrary: L d r)
  case (Cons sub subs)
  {
    case 1
    then obtain a d1 as where d1: "run_state (drv_DisableHardwareBreakpoint os (snd sub)) d = (a, d1)"
      and rest: "run_state (for_each (\<lambda>sub. drv_DisableHardwareBreakpoint os (snd sub)) subs) d1 = (as, d')"
      by (auto simp only: run_for_each_Cons)
    from switch_matches(1) [OF K 1(1) d1] 1(2) have "matches live (flag_put (snd sub) False L) d1" by auto
    from Cons.IH(1) [OF this _ rest] 1(2) show ?case by simp
  next
    case 2
    then obtain a d1 as where d1: "run_state (drv_EnableHardwareBreakpoint os (snd sub)) d = (a, d1)"
      and rest: "run_state (for_each (\<lambda>sub. drv_EnableHardwareBreakpoint os (snd sub)) subs) d1 = (as, d')"
      by (auto simp only: run_for_each_Cons)
    from switch_matches(2) [OF K 2(1) d1] 2(2) have "matches live (flag_put (snd sub) True L) d1" by auto
    from Cons.IH(2) [OF this _ rest] 2(2) show ?case by simp
  }
qed simp_all

lemma for_each_read:
  assumes K: "bp_kernel os live"
  shows "matches live L d \<Longrightarrow> snd ` set subs \<subseteq> fst ` set L \<Longrightarrow>
    run_state (for_each (\<lambda>sub. drv_ReadHardwareBreakpointInfo os (snd sub)) subs) d = (r, d') \<Longrightarrow> matches live L d'"
proof (induction subs arbitrary: d r)
  case (Cons sub subs)
  from Cons.prems(3) obtain a d1 as where d1: "run_state (drv_ReadHardwareBreakpointInfo os (snd sub)) d = (a, d1)"
    and rest: "run_state (for_each (\<lambda>sub. drv_ReadHardwareBreakpointInfo os (snd sub)) subs) d1 = (as, d')"
    by (auto simp only: run_for_each_Cons)
  have "matches live L d1" using Cons.prems(2) by (intro read_matches [OF K Cons.prems(1) _ d1]) auto
  from Cons.IH [OF this _ rest] Cons.prems(2) show ?case by simp
qed simp

section \<open>The invariant of the table\<close>

definition entry_pairs :: "KEntry \<Rightarrow> (u64 \<times> bool) list" where
  "entry_pairs e = map (\<lambda>sub. (snd sub, ke_enabled e)) (ke_subs e)"

definition owned :: "(u64 \<times> KEntry) list \<Rightarrow> (u64 \<times> bool) list" where
  "owned ps = concat (map (\<lambda>p. entry_pairs (snd p)) ps)"

definition entry_ok :: "KEntry \<Rightarrow> bool" where
  "entry_ok e \<longleftrightarrow> om_ok (ke_subs e)"

lemma owned_simps [simp]: "owned [] = []" "owned (p # ps) = entry_pairs (snd p) @ owned ps"
  by (simp_all add: owned_def)

lemma mset_owned: "mset (owned ps) = \<Sum>\<^sub># (image_mset (\<lambda>p. mset (entry_pairs (snd p))) (mset ps))"
  by (induction ps) auto

lemma entry_pairs_put:
  assumes "map_of (ke_subs e) tid = None"
  shows "mset (entry_pairs (e\<lparr>ke_subs := om_put tid dh (ke_subs e)\<rparr>)) = add_mset (dh, ke_enabled e) (mset (entry_pairs e))"
proof -
  have "mset (entry_pairs (e\<lparr>ke_subs := om_put tid dh (ke_subs e)\<rparr>)) =
      image_mset (\<lambda>sub. (snd sub, ke_enabled e)) (mset (om_put tid dh (ke_subs e)))"
    by (simp add: entry_pairs_def)
  then show ?thesis by (simp add: om_put_new [OF assms] entry_pairs_def)
qed

lemma install_matches:
  assumes K: "bp_kernel os live" and L: "matches live L d"
    and run: "run_state (InstallForTid os tid a len type f) d = (r, d')"
  shows "if ir_handle r = 0 then matches live L d' else matches live ((ir_handle r, True) # L) d'"
proof -
  obtain r1 d1 where r1: "run_state (drv_AddHardwareBreakpoint os tid a len type False) d = (r1, d1)" by force
  note first = add_matches [OF K L r1]
  show ?thesis
  proof (cases "ir_handle r1 \<noteq> 0 \<or> \<not> f")
    case True
    with run r1 have "r = r1" "d' = d1" by (auto simp: InstallForTid_def split: if_splits)
    with first show ?thesis by simp
  next
    case False
    with run r1 have "run_state (drv_AddHardwareBreakpoint os tid a len type True) d1 = (r, d')"
      by (simp add: InstallForTid_def)
    from add_matches [OF K _ this] first False show ?thesis by simp
  qed
qed

lemma installAll_matches:
  assumes K: "bp_kernel os live"
  shows "matches live (entry_pairs e @ L) d \<Longrightarrow> ke_enabled e \<Longrightarrow> entry_ok e \<Longrightarrow> distinct tids \<Longrightarrow>
    (\<And>tid. tid \<in> set tids \<Longrightarrow> map_of (ke_subs e) tid = None) \<Longrightarrow>
    run_state (installAll os tids e) d = (e', d') \<Longrightarrow> matches live (entry_pairs e' @ L) d' \<and> entry_ok e'"
proof (induction tids arbitrary: e d)
  case (Cons tid tids)
  obtain r d1 where r: "run_state (InstallForTid os tid (ke_bp_addr e) (ke_bp_len e) (ke_bp_type e) (ke_force_reclaim e)) d = (r, d1)"
    by force
  note m = install_matches [OF K Cons.prems(1) r]
  let ?e = "if ir_handle r \<noteq> 0 then e\<lparr>ke_subs := om_put tid (ir_handle r) (ke_subs e)\<rparr>
    else e\<lparr>ke_loggedInstallFailures := List.insert tid (ke_loggedInstallFailures e)\<rparr>"
  have run: "run_state (installAll os tids ?e) d1 = (e', d')" using Cons.prems(6) r by (simp add: Let_def)
  have none: "map_of (ke_subs e) tid = None" using Cons.prems(5) by simp
  have "matches live (entry_pairs ?e @ L) d1"
  proof (cases "ir_handle r = 0")
    case True
    with m show ?thesis by (simp add: entry_pairs_def)
  next
    case False
    have "mset ((ir_handle r, True) # entry_pairs e @ L) = mset (entry_pairs ?e @ L)"
      using entry_pairs_put [OF none, of "ir_handle r"] False Cons.prems(2) by simp
    from matches_perm [OF this, of live d1] m False show ?thesis by simp
  qed
  moreover have "ke_enabled ?e" "entry_ok ?e" using Cons.prems(2,3) by (auto simp: entry_ok_def)
  moreover have "map_of (ke_subs ?e) x = None" if "x \<in> set tids" for x
    using that Cons.prems(4,5) by (auto simp: map_of_put)
  ultimately show ?case using Cons.prems(4) by (intro Cons.IH [OF _ _ _ _ _ run]) auto
qed simp

lemma flag_put_fresh: "h \<notin> fst ` set L \<Longrightarrow> flag_put h b L = L"
  unfolding flag_put_def om_replace_def by (rule map_idI) force

lemma followTid_matches:
  assumes K: "bp_kernel os live" and L: "matches live (entry_pairs e @ L) d" and ok: "entry_ok e"
    and run: "run_state (followTid os tid e) d = (e', d')"
  shows "matches live (entry_pairs e' @ L) d' \<and> entry_ok e'"
proof (cases "map_of (ke_subs e) tid")
  case (Some dh)
  with run L ok show ?thesis by (simp add: followTid_def)
next
  case None
  obtain r d1 where r: "run_state (InstallForTid os tid (ke_bp_addr e) (ke_bp_len e) (ke_bp_type e) (ke_force_reclaim e)) d = (r, d1)"
    by force
  note m = install_matches [OF K L r]
  show ?thesis
  proof (cases "ir_handle r = 0")
    case True
    with run r None m ok show ?thesis by (auto simp: followTid_def Let_def entry_pairs_def entry_ok_def)
  next
    case False
    let ?h = "ir_handle r"
    let ?e = "e\<lparr>ke_subs := om_put tid ?h (ke_subs e)\<rparr>"
    have added: "matches live ((?h, True) # entry_pairs e @ L) d1" using m False by simp
    obtain d2 where d2: "d' = d2" "matches live ((?h, ke_enabled e) # entry_pairs e @ L) d2"
      and e': "e' = ?e\<lparr>ke_loggedInstallFailures := remove1 tid (ke_loggedInstallFailures e)\<rparr>"
    proof (cases "ke_enabled e")
      case True
      with run r None False added show ?thesis by (intro that [of d1]) (auto simp: followTid_def Let_def)
    next
      case off: False
      obtain x d2 where d2: "run_state (drv_DisableHardwareBreakpoint os ?h) d1 = (x, d2)" by force
      have "?h \<notin> fst ` set (entry_pairs e @ L)" using added by (auto simp: matches_def)
      then have "flag_put ?h False ((?h, True) # entry_pairs e @ L) = (?h, False) # entry_pairs e @ L"
        using flag_put_fresh [of ?h "entry_pairs e @ L" False] by (simp add: flag_put_def om_replace_def)
      with switch_matches(1) [OF K added d2 False]
      have "matches live ((?h, ke_enabled e) # entry_pairs e @ L) d2" using off by simp
      with run r None False off d2 show ?thesis by (intro that [of d2]) (auto simp: followTid_def Let_def)
    qed
    have "mset ((?h, ke_enabled e) # entry_pairs e @ L) = mset (entry_pairs e' @ L)"
      using entry_pairs_put [OF None, of ?h] e' by (simp add: entry_pairs_def)
    with matches_perm [OF this, of live d2] d2 e' ok show ?thesis by (simp add: entry_ok_def)
  qed
qed

lemma followTids_matches:
  assumes K: "bp_kernel os live"
  shows "matches live (entry_pairs e @ L) d \<Longrightarrow> entry_ok e \<Longrightarrow> run_state (followTids os tids e) d = (e', d') \<Longrightarrow>
    matches live (entry_pairs e' @ L) d' \<and> entry_ok e'"
proof (induction tids arbitrary: e d)
  case (Cons tid tids)
  obtain e1 d1 where e1: "run_state (followTid os tid e) d = (e1, d1)" by force
  with Cons.prems(3) have "run_state (followTids os tids e1) d1 = (e', d')" by simp
  with followTid_matches [OF K Cons.prems(1,2) e1] Cons.IH show ?case by blast
qed simp

lemma reapTids_matches:
  assumes K: "bp_kernel os live" and L: "matches live (entry_pairs e @ L) d" and ok: "entry_ok e"
    and run: "run_state (reapTids os tids e) d = (e', d')"
  shows "matches live (entry_pairs e' @ L) d' \<and> entry_ok e'"
proof -
  let ?gone = "filter (\<lambda>sub. fst sub \<notin> set tids) (ke_subs e)"
  obtain r where r: "run_state (for_each (\<lambda>sub. drv_RemoveHardwareBreakpoint os (snd sub)) ?gone) d = (r, d')"
    and e': "e' = e\<lparr>ke_subs := filter (\<lambda>sub. fst sub \<in> set tids) (ke_subs e),
      ke_loggedInstallFailures := filter (\<lambda>tid. tid \<in> set tids) (ke_loggedInstallFailures e)\<rparr>"
    using run by (auto simp: reapTids_def split: prod.splits)
  have dist: "distinct (map snd (ke_subs e))" "snd ` set (ke_subs e) \<inter> fst ` set L = {}"
    using L by (auto simp: matches_def entry_pairs_def comp_def)
  have same: "snd x = snd y \<Longrightarrow> x \<in> set (ke_subs e) \<Longrightarrow> y \<in> set (ke_subs e) \<Longrightarrow> x = y" for x y
    using dist(1) by (metis distinct_map inj_onD)
  have "filter (\<lambda>p. fst p \<notin> snd ` set ?gone) (entry_pairs e @ L) = entry_pairs e' @ L"
  proof -
    have "filter (\<lambda>p. fst p \<notin> snd ` set ?gone) L = L"
      using dist(2) by (auto simp: filter_id_conv)
    moreover have "filter (\<lambda>p. fst p \<notin> snd ` set ?gone) (entry_pairs e) = entry_pairs e'"
    proof -
      have "snd sub \<notin> snd ` set ?gone \<longleftrightarrow> fst sub \<in> set tids" if "sub \<in> set (ke_subs e)" for sub
      proof
        assume not_gone: "snd sub \<notin> snd ` set ?gone"
        show "fst sub \<in> set tids"
        proof (rule ccontr)
          assume "fst sub \<notin> set tids"
          with that have "sub \<in> set ?gone" by simp
          with not_gone show False by blast
        qed
      next
        assume alive: "fst sub \<in> set tids"
        show "snd sub \<notin> snd ` set ?gone"
        proof
          assume "snd sub \<in> snd ` set ?gone"
          then obtain x where "x \<in> set (ke_subs e)" "fst x \<notin> set tids" "snd sub = snd x" by auto
          with same [of sub x] that alive show False by simp
        qed
      qed
      then have "filter (\<lambda>sub. snd sub \<notin> snd ` set ?gone) (ke_subs e) = filter (\<lambda>sub. fst sub \<in> set tids) (ke_subs e)"
        by (intro filter_cong) auto
      then show ?thesis unfolding e' entry_pairs_def filter_map comp_def by simp
    qed
    ultimately show ?thesis by simp
  qed
  with for_each_remove [OF K L r] ok e' show ?thesis by (simp add: entry_ok_def om_ok_filter)
qed

lemma rescanEntry_matches:
  assumes K: "bp_kernel os live" and L: "matches live (entry_pairs e @ L) d" and ok: "entry_ok e"
    and run: "run_state (rescanEntry os e) d = (e', d')"
  shows "matches live (entry_pairs e' @ L) d' \<and> entry_ok e'"
proof -
  obtain tids d1 where tids: "run_state (on_kernel (ScanTids os (ke_pid e))) d = (tids, d1)" by force
  have d1: "matches live (entry_pairs e @ L) d1" using scan_matches [OF K L tids] by simp
  show ?thesis
  proof (cases "tids = []")
    case True
    with run tids d1 ok show ?thesis by (simp add: rescanEntry_def)
  next
    case False
    obtain e2 d2 where e2: "run_state (followTids os tids e) d1 = (e2, d2)" by force
    with run tids False have reap: "run_state (reapTids os tids e2) d2 = (e', d')" by (simp add: rescanEntry_def)
    from followTids_matches [OF K d1 ok e2] show ?thesis using reapTids_matches [OF K _ _ reap] by blast
  qed
qed

lemma matches_swap: "matches live (A @ B @ L) d \<longleftrightarrow> matches live (B @ A @ L) d"
  by (rule matches_perm) simp

lemma rescanEntries_matches:
  assumes K: "bp_kernel os live"
  shows "matches live (owned ps @ L) d \<Longrightarrow> (\<forall>p \<in> set ps. entry_ok (snd p)) \<Longrightarrow>
    run_state (rescanEntries os ps) d = (ps', d') \<Longrightarrow>
    matches live (owned ps' @ L) d' \<and> (\<forall>p \<in> set ps'. entry_ok (snd p)) \<and> map fst ps' = map fst ps"
proof (induction ps arbitrary: d L ps')
  case (Cons p ps)
  obtain e d1 where e: "run_state (rescanEntry os (snd p)) d = (e, d1)" by force
  obtain rest where rest: "run_state (rescanEntries os ps) d1 = (rest, d')" and ps': "ps' = (fst p, e) # rest"
    using Cons.prems(3) e by (auto split: prod.splits)
  have "matches live (entry_pairs (snd p) @ owned ps @ L) d" using Cons.prems(1) by simp
  from rescanEntry_matches [OF K this _ e] Cons.prems(2)
  have one: "matches live (entry_pairs e @ owned ps @ L) d1" "entry_ok e" by auto
  have "matches live (owned ps @ entry_pairs e @ L) d1" using one(1) by (simp only: matches_swap [of live "owned ps"])
  from Cons.IH [OF this _ rest] Cons.prems(2)
  have "matches live (owned rest @ entry_pairs e @ L) d'" "\<forall>q \<in> set rest. entry_ok (snd q)" "map fst rest = map fst ps"
    by auto
  with matches_swap [of live "owned rest"] one(2) ps' show ?case by simp
qed simp

definition kbp_inv :: "('k \<Rightarrow> u64 \<rightharpoonup> bool) \<Rightarrow> KBpTable \<times> 'k KDriver \<Rightarrow> bool" where
  "kbp_inv live s \<longleftrightarrow> om_ok (kb_entries (fst s)) \<and> (\<forall>p \<in> set (kb_entries (fst s)). entry_ok (snd p)) \<and>
     (\<forall>h \<in> fst ` set (kb_entries (fst s)). \<exists>n \<le> unat (kb_seq (fst s)). 0 < n \<and> h = or KERNEL_BP_HANDLE_TAG (of_nat n)) \<and>
     matches live (owned (kb_entries (fst s))) (snd s)"

lemma owned_take_out:
  assumes "om_ok ps" "map_of ps h = Some e"
  shows "mset (owned ps) = mset (entry_pairs e @ owned (om_del h ps))"
  using om_del_old [OF om_ok_distinct [OF assms(1)] assms(2)] by (simp add: mset_owned)

lemma om_del_replace: "om_del h (om_replace h e ps) = om_del h ps"
  by (induction ps) (auto simp: om_del_def om_replace_def)

lemma owned_replace:
  assumes "om_ok ps" "map_of ps h = Some e"
  shows "mset (owned (om_replace h e' ps)) = mset (entry_pairs e' @ owned (om_del h ps))"
  using owned_take_out [of "om_replace h e' ps" h e'] assms by (simp add: map_of_replace om_del_replace)

lemma matches_take_out:
  assumes "om_ok ps" "map_of ps h = Some e"
  shows "matches live (owned ps) d \<longleftrightarrow> matches live (entry_pairs e @ owned (om_del h ps)) d"
    and "matches live (owned (om_replace h e' ps)) d \<longleftrightarrow> matches live (entry_pairs e' @ owned (om_del h ps)) d"
  by (rule matches_perm, rule owned_take_out [OF assms], rule matches_perm, rule owned_replace [OF assms])

lemma run_for_each_kb:
  "run_state (for_each (\<lambda>x. kb_driver (f x)) xs) s =
     (case run_state (for_each f xs) (snd s) of (a, d) \<Rightarrow> (a, (fst s, d)))"
  by (simp add: for_each_kb_driver) (simp add: kb_driver_def)

lemma kb_table_run [simp]: "run_state kb_table s = (fst s, s)"
  by (simp add: kb_table_def)

lemma kb_update_run [simp]: "run_state (kb_update f) s = ((), (f (fst s), snd s))"
  by (simp add: kb_update_def)

lemma entry_disjoint:
  assumes "matches live (entry_pairs e @ L) d"
  shows "snd ` set (ke_subs e) \<inter> fst ` set L = {}" "0 \<notin> snd ` set (ke_subs e)"
proof -
  have keys: "fst ` set (entry_pairs e) = snd ` set (ke_subs e)" by (force simp: entry_pairs_def)
  show "snd ` set (ke_subs e) \<inter> fst ` set L = {}" using assms unfolding keys [symmetric] by (simp add: matches_def)
  show "0 \<notin> snd ` set (ke_subs e)" using assms unfolding keys [symmetric] by (auto simp: matches_def)
qed

lemma kbp_Del_inv:
  assumes K: "bp_kernel os live" and I: "kbp_inv live s" and run: "run_state (kbp_DelProcessHwBp os h) s = (r, s')"
  shows "kbp_inv live s'"
proof (cases "map_of (kb_entries (fst s)) h")
  case None
  with run I show ?thesis by (simp add: kbp_DelProcessHwBp_def)
next
  case (Some e)
  let ?es = "kb_entries (fst s)"
  obtain rs d' where rs: "run_state (for_each (\<lambda>sub. drv_RemoveHardwareBreakpoint os (snd sub)) (ke_subs e)) (snd s) = (rs, d')"
    by force
  have s': "s' = ((fst s)\<lparr>kb_entries := om_del h ?es\<rparr>, d')"
    using run Some rs by (auto simp: kbp_DelProcessHwBp_def run_for_each_kb)
  have L: "matches live (entry_pairs e @ owned (om_del h ?es)) (snd s)"
    using I matches_take_out(1) [OF _ Some, of live "snd s"] by (simp add: kbp_inv_def)
  have "filter (\<lambda>p. fst p \<notin> snd ` set (ke_subs e)) (entry_pairs e @ owned (om_del h ?es)) = owned (om_del h ?es)"
    using entry_disjoint(1) [OF L] by (auto simp: entry_pairs_def filter_id_conv filter_empty_conv)
  with for_each_remove [OF K L rs] I s' show ?thesis by (auto simp: kbp_inv_def set_om_del)
qed

text \<open>Suspending and resuming differ in the state that they set.\<close>

lemma kbp_switch_inv:
  assumes I: "kbp_inv live s" and e: "map_of (kb_entries (fst s)) h = Some e"
    and flagged: "matches live (entry_pairs e @ owned (om_del h (kb_entries (fst s)))) (snd s) \<Longrightarrow>
      matches live (flag_all (map snd (ke_subs e)) b (entry_pairs e @ owned (om_del h (kb_entries (fst s))))) d'"
  shows "kbp_inv live ((fst s)\<lparr>kb_entries := om_replace h (e\<lparr>ke_enabled := b\<rparr>) (kb_entries (fst s))\<rparr>, d')"
proof -
  let ?es = "kb_entries (fst s)" and ?e = "e\<lparr>ke_enabled := b\<rparr>"
  have L: "matches live (entry_pairs e @ owned (om_del h ?es)) (snd s)"
    using I matches_take_out(1) [OF _ e, of live "snd s"] by (simp add: kbp_inv_def)
  have "map (\<lambda>p. if fst p \<in> set (map snd (ke_subs e)) then (fst p, b) else p) (owned (om_del h ?es)) = owned (om_del h ?es)"
    using entry_disjoint(1) [OF L] by (intro map_idI) force
  then have "flag_all (map snd (ke_subs e)) b (entry_pairs e @ owned (om_del h ?es)) = entry_pairs ?e @ owned (om_del h ?es)"
    by (simp add: flag_all_eq entry_pairs_def)
  with flagged [OF L] have "matches live (owned (om_replace h ?e ?es)) d'"
    using I matches_take_out(2) [OF _ e, of live ?e] by (simp add: kbp_inv_def)
  moreover have "entry_ok (snd p)" if "p \<in> set (om_replace h ?e ?es)" for p
  proof -
    have old: "entry_ok (snd q)" if "q \<in> set ?es" for q using I that by (simp add: kbp_inv_def)
    have "entry_ok ?e" using old [OF map_of_SomeD [OF e]] by (simp add: entry_ok_def)
    moreover have "p = (h, ?e) \<or> p \<in> set ?es" using that by (auto simp: om_replace_def split: if_splits)
    ultimately show ?thesis using old [of p] by (cases p) auto
  qed
  moreover have "fst ` set (om_replace h ?e ?es) = fst ` set ?es" by (metis om_replace_keys set_map)
  ultimately show ?thesis using I by (simp add: kbp_inv_def)
qed

lemma kbp_Suspend_inv:
  assumes K: "bp_kernel os live" and I: "kbp_inv live s" and run: "run_state (kbp_SuspendProcessHwBp os h) s = (r, s')"
  shows "kbp_inv live s'"
proof (cases "map_of (kb_entries (fst s)) h")
  case None
  with run I show ?thesis by (simp add: kbp_SuspendProcessHwBp_def)
next
  case (Some e)
  obtain rs d' where rs: "run_state (for_each (\<lambda>sub. drv_DisableHardwareBreakpoint os (snd sub)) (ke_subs e)) (snd s) = (rs, d')"
    by force
  have "s' = ((fst s)\<lparr>kb_entries := om_replace h (e\<lparr>ke_enabled := False\<rparr>) (kb_entries (fst s))\<rparr>, d')"
    using run Some rs by (auto simp: kbp_SuspendProcessHwBp_def run_for_each_kb)
  then show ?thesis
    using kbp_switch_inv [OF I Some] for_each_switch(1) [OF K _ _ rs] entry_disjoint(2) by metis
qed

lemma kbp_Resume_inv:
  assumes K: "bp_kernel os live" and I: "kbp_inv live s" and run: "run_state (kbp_ResumeProcessHwBp os h) s = (r, s')"
  shows "kbp_inv live s'"
proof (cases "map_of (kb_entries (fst s)) h")
  case None
  with run I show ?thesis by (simp add: kbp_ResumeProcessHwBp_def)
next
  case (Some e)
  obtain rs d' where rs: "run_state (for_each (\<lambda>sub. drv_EnableHardwareBreakpoint os (snd sub)) (ke_subs e)) (snd s) = (rs, d')"
    by force
  have "s' = ((fst s)\<lparr>kb_entries := om_replace h (e\<lparr>ke_enabled := True\<rparr>) (kb_entries (fst s))\<rparr>, d')"
    using run Some rs by (auto simp: kbp_ResumeProcessHwBp_def run_for_each_kb)
  then show ?thesis
    using kbp_switch_inv [OF I Some] for_each_switch(2) [OF K _ _ rs] entry_disjoint(2) by metis
qed

lemma kbp_Read_inv:
  assumes K: "bp_kernel os live" and I: "kbp_inv live s" and run: "run_state (kbp_ReadHwBpInfo os h) s = (r, s')"
  shows "kbp_inv live s'"
proof (cases "map_of (kb_entries (fst s)) h")
  case None
  with run I show ?thesis by (simp add: kbp_ReadHwBpInfo_def)
next
  case (Some e)
  obtain rs d' where rs: "run_state (for_each (\<lambda>sub. drv_ReadHardwareBreakpointInfo os (snd sub)) (ke_subs e)) (snd s) = (rs, d')"
    by force
  have s': "s' = (fst s, d')"
    using run Some rs by (auto simp: kbp_ReadHwBpInfo_def run_for_each_kb Let_def)
  have "snd ` set (ke_subs e) \<subseteq> fst ` set (owned (kb_entries (fst s)))"
    using map_of_SomeD [OF Some] by (force simp: owned_def entry_pairs_def)
  from for_each_read [OF K _ this rs] I s' show ?thesis by (simp add: kbp_inv_def)
qed

lemma kbp_Rescan_inv:
  assumes K: "bp_kernel os live" and I: "kbp_inv live s" and run: "run_state (kbp_RescanAllLocked os) s = (r, s')"
  shows "kbp_inv live s'"
proof -
  obtain ps d' where ps: "run_state (rescanEntries os (kb_entries (fst s))) (snd s) = (ps, d')" by force
  have s': "s' = ((fst s)\<lparr>kb_entries := ps\<rparr>, d')"
    using run ps by (auto simp: kbp_RescanAllLocked_def kb_driver_def)
  have after: "matches live (owned ps) d'" "\<forall>p \<in> set ps. entry_ok (snd p)" "map fst ps = map fst (kb_entries (fst s))"
    using rescanEntries_matches [OF K _ _ ps, of "[]"] I by (auto simp: kbp_inv_def)
  moreover have "fst ` set ps = fst ` set (kb_entries (fst s))" using after(3) by (metis set_map)
  ultimately show ?thesis using I s' by (simp add: kbp_inv_def om_ok_def)
qed

text \<open>The handle that the next breakpoint gets is new as long as the counter has not wrapped.\<close>

lemma tag_inj:
  assumes "m < 2 ^ 32" "n < 2 ^ 32" "or KERNEL_BP_HANDLE_TAG (of_nat m) = or KERNEL_BP_HANDLE_TAG (of_nat n)"
  shows "m = n"
proof -
  have low: "take_bit 32 (or KERNEL_BP_HANDLE_TAG (of_nat k)) = (of_nat (take_bit 32 k) :: u64)" for k
    by (simp add: take_bit_or KERNEL_BP_HANDLE_TAG_def take_bit_of_nat)
  have "of_nat (take_bit 32 m) = (of_nat (take_bit 32 n) :: u64)" using assms(3) low by metis
  then have "(of_nat m :: u64) = of_nat n" using assms(1,2) by (simp add: take_bit_nat_eq_self)
  then have "m mod 2 ^ 64 = n mod 2 ^ 64" by (simp add: word_of_nat_eq_iff take_bit_eq_mod)
  then show ?thesis using assms(1,2) by simp
qed

lemma kbp_Add_inv:
  assumes K: "bp_kernel os live" and I: "kbp_inv live s" and seq: "kb_seq (fst s) \<noteq> UINT32_MAX"
    and run: "run_state (kbp_AddProcessHwBp os pid addr len type f) s = (r, s')"
  shows "kbp_inv live s'"
proof (cases "pid \<le> 0 \<or> addr = 0")
  case True
  with run I show ?thesis by (simp add: kbp_AddProcessHwBp_def)
next
  case False
  let ?es = "kb_entries (fst s)" and ?seq = "kb_seq (fst s) + 1"
  let ?h = "or KERNEL_BP_HANDLE_TAG (ucast ?seq)"
  have L: "matches live (owned ?es) (snd s)" using I by (simp add: kbp_inv_def)
  then have conn: "isConnected (snd s)" by (simp add: matches_def)
  obtain tids d1 where tids: "run_state (on_kernel (ScanTids os pid)) (snd s) = (tids, d1)" by force
  have d1: "matches live (owned ?es) d1" "distinct tids" using scan_matches [OF K L tids] by auto
  obtain e d2 where e: "run_state (installAll os tids (KEntry_new pid addr len type f)) d1 = (e, d2)" by force
  have new: "matches live (entry_pairs e @ owned ?es) d2" "entry_ok e"
    using installAll_matches [OF K _ _ _ d1(2) _ e, of "owned ?es"] d1(1)
    by (auto simp: KEntry_new_def entry_pairs_def entry_ok_def)
  have unat_seq: "unat ?seq = unat (kb_seq (fst s)) + 1"
  proof -
    have "1 + kb_seq (fst s) \<noteq> 0"
    proof
      assume "1 + kb_seq (fst s) = 0"
      then have "kb_seq (fst s) = - 1" by (simp add: eq_neg_iff_add_eq_0 add.commute)
      with seq show False by simp
    qed
    from unatSuc [OF this] show ?thesis by (simp add: add.commute)
  qed
  have bound: "unat ?seq < 2 ^ 32" using unsigned_less [of ?seq, where ?'a = nat] by simp
  have h: "?h = or KERNEL_BP_HANDLE_TAG (of_nat (unat ?seq))"
    by (simp add: of_nat_unat)
  have fresh: "map_of ?es ?h = None"
  proof (rule ccontr)
    assume "map_of ?es ?h \<noteq> None"
    then have "?h \<in> fst ` set ?es" by (simp add: map_of_eq_None_iff)
    with I obtain n where n: "n \<le> unat (kb_seq (fst s))" "?h = or KERNEL_BP_HANDLE_TAG (of_nat n)"
      by (auto simp: kbp_inv_def)
    with h tag_inj [of "unat ?seq" n] bound unat_seq show False by simp
  qed
  show ?thesis
  proof (cases "tids = [] \<or> ke_subs e = []")
    case True
    then have "entry_pairs e = [] \<or> tids = []" by (auto simp: entry_pairs_def)
    with True run False conn tids e have "s' = (fst s, d1) \<or> (s' = (fst s, d2) \<and> entry_pairs e = [])"
      by (auto simp: kbp_AddProcessHwBp_def kb_driver_def drv_IsConnected_def split: if_splits)
    with d1 new I show ?thesis unfolding kbp_inv_def by fastforce
  next
    case ok: False
    with run False conn tids e have s': "s' = (\<lparr>kb_entries = om_emplace ?h e ?es, kb_seq = ?seq\<rparr>, d2)"
      by (auto simp: kbp_AddProcessHwBp_def kb_driver_def drv_IsConnected_def Let_def split: if_splits)
    have es: "om_emplace ?h e ?es = om_put ?h e ?es" using fresh by (simp add: om_emplace_def)
    have "mset (entry_pairs e @ owned ?es) = mset (owned (om_put ?h e ?es))"
      using om_put_new [OF fresh, of e] by (simp add: mset_owned)
    from matches_perm [OF this, of live d2] new(1) have "matches live (owned (om_put ?h e ?es)) d2" by simp
    moreover have "\<exists>n \<le> unat ?seq. 0 < n \<and> x = or KERNEL_BP_HANDLE_TAG (of_nat n)"
      if "x \<in> fst ` set (om_put ?h e ?es)" for x
    proof (cases "x = ?h")
      case True
      then show ?thesis using h unat_seq by (intro exI [of _ "unat ?seq"]) auto
    next
      case False
      with that have "x \<in> fst ` set ?es" by (auto simp: set_om_put)
      with I obtain n where "n \<le> unat (kb_seq (fst s))" "0 < n" "x = or KERNEL_BP_HANDLE_TAG (of_nat n)"
        by (auto simp: kbp_inv_def)
      with unat_seq show ?thesis by (intro exI [of _ n]) auto
    qed
    ultimately show ?thesis using I new(2) s' es by (auto simp: kbp_inv_def set_om_put)
  qed
qed

section \<open>Every reachable state\<close>

text \<open>The atomic steps of the object: its five operations and the rescan of the background thread.\<close>

inductive kbp_step :: "'k Os \<Rightarrow> KBpTable \<times> 'k KDriver \<Rightarrow> KBpTable \<times> 'k KDriver \<Rightarrow> bool" for os where
  Add: "kb_seq (fst s) \<noteq> UINT32_MAX \<Longrightarrow> run_state (kbp_AddProcessHwBp os pid addr len type f) s = (h, s') \<Longrightarrow> kbp_step os s s'"
| Del: "run_state (kbp_DelProcessHwBp os h) s = (b, s') \<Longrightarrow> kbp_step os s s'"
| Suspend: "run_state (kbp_SuspendProcessHwBp os h) s = (b, s') \<Longrightarrow> kbp_step os s s'"
| Resume: "run_state (kbp_ResumeProcessHwBp os h) s = (b, s') \<Longrightarrow> kbp_step os s s'"
| ReadInfo: "run_state (kbp_ReadHwBpInfo os h) s = (r, s') \<Longrightarrow> kbp_step os s s'"
| Rescan: "run_state (kbp_RescanAllLocked os) s = (u, s') \<Longrightarrow> kbp_step os s s'"

lemmas kbp_invs = kbp_Add_inv kbp_Del_inv kbp_Suspend_inv kbp_Resume_inv kbp_Read_inv kbp_Rescan_inv

lemma kbp_step_inv: "bp_kernel os live \<Longrightarrow> kbp_step os s s' \<Longrightarrow> kbp_inv live s \<Longrightarrow> kbp_inv live s'"
  by (erule kbp_step.cases) (auto intro: kbp_invs)

lemma kbp_steps_inv:
  assumes "bp_kernel os live" "(kbp_step os)\<^sup>*\<^sup>* s s'" "kbp_inv live s"
  shows "kbp_inv live s'"
  using assms(2,3) by (induction rule: rtranclp_induct) (auto intro: kbp_step_inv [OF assms(1)])

lemma kbp_inv_new:
  "isConnected d \<Longrightarrow> live (kd_kernel d) = Map.empty \<Longrightarrow> kd_hwbpHitTotals d = Map.empty \<Longrightarrow> kbp_inv live (KBpTable_new, d)"
  by (simp add: kbp_inv_def KBpTable_new_def matches_def)


section \<open>What a rescan achieves\<close>

text \<open>The threads that an entry knows about: those with a breakpoint and those for which installing one failed.\<close>

definition covered :: "KEntry \<Rightarrow> int set" where
  "covered e = fst ` set (ke_subs e)"

definition known :: "KEntry \<Rightarrow> int set" where
  "known e = covered e \<union> set (ke_loggedInstallFailures e)"

lemma followTid_cases:
  assumes "run_state (followTid os tid e) d = (e', d')"
  obtains (present) "tid \<in> covered e" "e' = e"
    | (failed) "e' = e\<lparr>ke_loggedInstallFailures := List.insert tid (ke_loggedInstallFailures e)\<rparr>"
    | (installed) dh where "e' = e\<lparr>ke_subs := om_put tid dh (ke_subs e),
        ke_loggedInstallFailures := remove1 tid (ke_loggedInstallFailures e)\<rparr>"
proof (cases "map_of (ke_subs e) tid")
  case (Some dh)
  with assms map_of_SomeD [OF Some] show ?thesis by (intro present) (force simp: followTid_def covered_def)+
next
  case None
  obtain r d1 where r: "run_state (InstallForTid os tid (ke_bp_addr e) (ke_bp_len e) (ke_bp_type e) (ke_force_reclaim e)) d = (r, d1)"
    by force
  show ?thesis
  proof (cases "ir_handle r = 0")
    case True
    with assms None r show ?thesis by (intro failed) (simp add: followTid_def Let_def)
  next
    case False
    with assms None r show ?thesis
      by (intro installed [of "ir_handle r"]) (auto simp: followTid_def Let_def split: prod.splits)
  qed
qed

lemma followTid_known:
  assumes "run_state (followTid os tid e) d = (e', d')"
  shows "insert tid (known e) \<subseteq> known e' \<and> covered e' \<subseteq> insert tid (covered e) \<and>
    covered e \<subseteq> covered e'"
  using assms
proof (cases rule: followTid_cases)
  case present
  then show ?thesis by (auto simp: known_def)
next
  case failed
  then show ?thesis by (auto simp: known_def covered_def)
next
  case (installed dh)
  have keys: "fst ` set (om_put tid dh (ke_subs e)) = insert tid (covered e)"
    by (force simp: set_om_put covered_def)
  have "set (ke_loggedInstallFailures e) \<subseteq> insert tid (set (remove1 tid (ke_loggedInstallFailures e)))"
    by (metis in_set_remove1 insert_iff subsetI)
  with keys installed show ?thesis by (auto simp: known_def covered_def)
qed

lemma followTids_known:
  assumes "run_state (followTids os tids e) d = (e', d')"
  shows "set tids \<union> known e \<subseteq> known e' \<and> covered e' \<subseteq> set tids \<union> covered e \<and>
    covered e \<subseteq> covered e'"
  using assms
proof (induction tids arbitrary: e d)
  case (Cons tid tids)
  obtain e1 d1 where e1: "run_state (followTid os tid e) d = (e1, d1)" by force
  with Cons.prems have "run_state (followTids os tids e1) d1 = (e', d')" by simp
  from Cons.IH [OF this] followTid_known [OF e1] show ?case unfolding list.set by blast
qed simp


end
