(* ===== verification/PerfHwBreakpoint.thy ===== *)
theory PerfHwBreakpoint
  imports KernelHwBreakpoint
begin

text \<open>
  Breakpoints without the driver, from \<open>engine/android/PerfHwBreakpoint.hpp\<close>: one perf event with its ring buffer for each thread
  of the process. The background thread takes the records out of the ring buffers and rescans the threads. The operations and the
  two things that the background thread does under the mutex (\<open>ConsumeRingLocked\<close> for one ring and \<open>RescanAllLocked\<close>) are steps.

  Positions in the ring are natural numbers here and \<open>uint64_t\<close> counters in the sources: they count the bytes that were ever written.
\<close>

section \<open>State\<close>

definition PERF_BP_HANDLE_TAG :: u64 where
  "PERF_BP_HANDLE_TAG = 0x4000000000000000"

abbreviation "PERF_EVENT_IOC_ENABLE \<equiv> 9216 :: nat"
abbreviation "PERF_EVENT_IOC_DISABLE \<equiv> 9217 :: nat"
abbreviation "PERF_EVENT_IOC_RESET \<equiv> 9219 :: nat"

record SubFd =
  sf_fd :: int
  sf_mmap_addr :: nat
  sf_mmap_size :: nat
  sf_data_size :: nat
  sf_tail :: nat
  sf_tid :: int

record PEntry =
  pe_pid :: int
  pe_bp_addr :: u64
  pe_bp_len :: u32
  pe_bp_type :: u32
  pe_enabled :: bool
  pe_totalHits :: u64
  pe_hits :: "HW_HIT_ITEM list"
  pe_subs :: "(int \<times> SubFd) list"

record PerfTable =
  pt_entries :: "(u64 \<times> PEntry) list"
  pt_seq :: u32

definition PerfTable_new :: PerfTable where
  "PerfTable_new = \<lparr>pt_entries = [], pt_seq = 0\<rparr>"

type_synonym ('k, 'a) perf = "(PerfTable \<times> 'k, 'a) state"

definition pt_os :: "('k, 'a) state \<Rightarrow> ('k, 'a) perf" where
  "pt_os = part snd (\<lambda>k s. (fst s, k))"

definition pt_table :: "('k, PerfTable) perf" where
  "pt_table = do { s \<leftarrow> State_Monad.get; State_Monad.return (fst s) }"

definition pt_update :: "(PerfTable \<Rightarrow> PerfTable) \<Rightarrow> ('k, unit) perf" where
  "pt_update f = State_Monad.update (\<lambda>s. (f (fst s), snd s))"

section \<open>One thread\<close>

definition perf_ioctl :: "'k Os \<Rightarrow> nat \<Rightarrow> int \<Rightarrow> ('k, unit) state" where
  "perf_ioctl os request fd = do { os_ioctl os fd request []; State_Monad.return () }"

definition OpenSub :: "'k Os \<Rightarrow> PEntry \<Rightarrow> int \<Rightarrow> bool \<Rightarrow> ('k, SubFd option) state" where
  "OpenSub os e tid enable = do {
     fd \<leftarrow> os_perf_event_open os \<lparr>pa_type = pe_bp_type e, pa_addr = pe_bp_addr e, pa_len = pe_bp_len e\<rparr> tid;
     if fd < 0 then State_Monad.return None
     else do {
       let mmap_size = 5 * os_pagesize os;
       m \<leftarrow> os_mmap os fd mmap_size;
       case m of
         None \<Rightarrow> do { os_close os fd; State_Monad.return None }
       | Some addr \<Rightarrow> do {
           perf_ioctl os PERF_EVENT_IOC_RESET fd;
           (if enable then perf_ioctl os PERF_EVENT_IOC_ENABLE fd else State_Monad.return ());
           State_Monad.return (Some \<lparr>sf_fd = fd, sf_mmap_addr = addr, sf_mmap_size = mmap_size,
             sf_data_size = 4 * os_pagesize os, sf_tail = 0, sf_tid = tid\<rparr>) }}}"

definition CloseSub :: "'k Os \<Rightarrow> SubFd \<Rightarrow> ('k, unit) state" where
  "CloseSub os s = do {
     (if sf_fd s \<ge> 0 then perf_ioctl os PERF_EVENT_IOC_DISABLE (sf_fd s) else State_Monad.return ());
     os_munmap os (sf_mmap_addr s) (sf_mmap_size s);
     (if sf_fd s \<ge> 0 then os_close os (sf_fd s) else State_Monad.return ()) }"

section \<open>Operations\<close>

fun openAll :: "'k Os \<Rightarrow> int list \<Rightarrow> PEntry \<Rightarrow> ('k, PEntry) state" where
  "openAll os [] e = State_Monad.return e"
| "openAll os (tid # tids) e = do {
     r \<leftarrow> OpenSub os e tid True;
     openAll os tids (case r of None \<Rightarrow> e | Some s \<Rightarrow> e\<lparr>pe_subs := om_put tid s (pe_subs e)\<rparr>) }"

definition PEntry_new :: "int \<Rightarrow> u64 \<Rightarrow> u32 \<Rightarrow> u32 \<Rightarrow> PEntry" where
  "PEntry_new pid addr len type = \<lparr>pe_pid = pid, pe_bp_addr = addr, pe_bp_len = len, pe_bp_type = type,
     pe_enabled = True, pe_totalHits = 0, pe_hits = [], pe_subs = []\<rparr>"

definition perf_AddProcessHwBp :: "'k Os \<Rightarrow> int \<Rightarrow> u64 \<Rightarrow> u32 \<Rightarrow> u32 \<Rightarrow> ('k, u64) perf" where
  "perf_AddProcessHwBp os pid addr len type =
     (if pid \<le> 0 \<or> addr = 0 then State_Monad.return 0
      else do {
        tids \<leftarrow> pt_os (ScanTids os pid);
        if tids = [] then State_Monad.return 0
        else do {
          e \<leftarrow> pt_os (openAll os tids (PEntry_new pid addr len type));
          if pe_subs e = [] then State_Monad.return 0
          else do {
            t \<leftarrow> pt_table;
            let seq = pt_seq t + 1;
            let handle = or PERF_BP_HANDLE_TAG (ucast seq);
            pt_update (\<lambda>t. \<lparr>pt_entries = om_emplace handle e (pt_entries t), pt_seq = seq\<rparr>);
            State_Monad.return handle }}})"

definition perf_DelProcessHwBp :: "'k Os \<Rightarrow> u64 \<Rightarrow> ('k, bool) perf" where
  "perf_DelProcessHwBp os h = do {
     t \<leftarrow> pt_table;
     case map_of (pt_entries t) h of
       None \<Rightarrow> State_Monad.return False
     | Some e \<Rightarrow> do {
         for_each (\<lambda>sub. pt_os (CloseSub os (snd sub))) (pe_subs e);
         pt_update (\<lambda>t. t\<lparr>pt_entries := om_del h (pt_entries t)\<rparr>);
         State_Monad.return True }}"

definition perf_switch :: "'k Os \<Rightarrow> nat \<Rightarrow> bool \<Rightarrow> u64 \<Rightarrow> ('k, bool) perf" where
  "perf_switch os request enabled h = do {
     t \<leftarrow> pt_table;
     case map_of (pt_entries t) h of
       None \<Rightarrow> State_Monad.return False
     | Some e \<Rightarrow> do {
         for_each (\<lambda>sub. pt_os (if sf_fd (snd sub) \<ge> 0 then perf_ioctl os request (sf_fd (snd sub)) else State_Monad.return ()))
           (pe_subs e);
         pt_update (\<lambda>t. t\<lparr>pt_entries := om_replace h (e\<lparr>pe_enabled := enabled\<rparr>) (pt_entries t)\<rparr>);
         State_Monad.return True }}"

definition perf_SuspendProcessHwBp :: "'k Os \<Rightarrow> u64 \<Rightarrow> ('k, bool) perf" where
  "perf_SuspendProcessHwBp os h = perf_switch os PERF_EVENT_IOC_DISABLE False h"

definition perf_ResumeProcessHwBp :: "'k Os \<Rightarrow> u64 \<Rightarrow> ('k, bool) perf" where
  "perf_ResumeProcessHwBp os h = perf_switch os PERF_EVENT_IOC_ENABLE True h"

definition perf_ReadHwBpInfo :: "u64 \<Rightarrow> ('k, (u64 \<times> HW_HIT_ITEM list) option) perf" where
  "perf_ReadHwBpInfo h = do {
     t \<leftarrow> pt_table;
     case map_of (pt_entries t) h of
       None \<Rightarrow> State_Monad.return None
     | Some e \<Rightarrow> do {
         pt_update (\<lambda>t. t\<lparr>pt_entries := om_replace h (e\<lparr>pe_hits := []\<rparr>) (pt_entries t)\<rparr>);
         State_Monad.return (Some (pe_totalHits e, pe_hits e)) }}"

definition perf_Owns :: "u64 \<Rightarrow> ('k, bool) perf" where
  "perf_Owns h = do { t \<leftarrow> pt_table; State_Monad.return (map_of (pt_entries t) h \<noteq> None) }"

section \<open>The ring buffer\<close>

text \<open>\<open>n\<close> bytes of the ring from \<open>off\<close> on, in one piece or in two.\<close>

definition CopyRing :: "bytes \<Rightarrow> nat \<Rightarrow> nat \<Rightarrow> nat \<Rightarrow> bytes" where
  "CopyRing base size_of off n =
     (if off + n \<le> size_of then take n (drop off base)
      else let first = size_of - off in take first (drop off base) @ take (n - first) base)"

datatype PerfRecord = Sample int "u64 list" | Lost u64 | Other

abbreviation "PERF_RECORD_LOST \<equiv> 2 :: u32"
abbreviation "PERF_RECORD_SAMPLE \<equiv> 9 :: u32"

text \<open>
  The record at a position: its kind and contents and the size that its header states. A sample has the process and the thread, the
  ABI and 33 registers; a record of lost events has an identifier and their number.
\<close>

definition recordAt :: "bytes \<Rightarrow> nat \<Rightarrow> nat \<Rightarrow> PerfRecord \<times> nat" where
  "recordAt base size_of tail =
     (let off = tail mod size_of;
          hdr = CopyRing base size_of off 8;
          type = u32_at hdr 0;
          cur = (off + 8) mod size_of
      in (if type = PERF_RECORD_SAMPLE then
            (let pidtid = CopyRing base size_of cur 8;
                 cur = (cur + 8) mod size_of;
                 cur = (cur + 8) mod size_of;
                 regs = CopyRing base size_of cur 264
             in Sample (int (unat (u32_at pidtid 4))) (map (\<lambda>i. u64_at regs (8 * i)) [0..<33]))
          else if type = PERF_RECORD_LOST then Lost (u64_at (CopyRing base size_of cur 16) 8)
          else Other,
          u16_at hdr 6))"

text \<open>The loop over the records between \<open>tail\<close> and \<open>head\<close>; it stops at a record without a size.\<close>

function ringRecords :: "bytes \<Rightarrow> nat \<Rightarrow> nat \<Rightarrow> nat \<Rightarrow> PerfRecord list \<times> nat" where
  "ringRecords base size_of head tail =
     (if tail < head then
        (case recordAt base size_of tail of (r, n) \<Rightarrow>
           if n = 0 then ([], tail)
           else case ringRecords base size_of head (tail + n) of (rs, t) \<Rightarrow> (r # rs, t))
      else ([], tail))"
  by pat_completeness auto
termination
  by (relation "measure (\<lambda>(base, size_of, head, tail). head - tail)") auto

declare ringRecords.simps [simp del]

definition kMaxPendingHits :: nat where
  "kMaxPendingHits = 100000"

definition push_hit :: "HW_HIT_ITEM \<Rightarrow> HW_HIT_ITEM list \<Rightarrow> HW_HIT_ITEM list" where
  "push_hit item hits = (if length hits \<ge> kMaxPendingHits then tl hits else hits) @ [item]"

definition sample_item :: "u64 \<Rightarrow> u64 \<Rightarrow> int \<Rightarrow> u64 list \<Rightarrow> HW_HIT_ITEM" where
  "sample_item addr time tid regs = \<lparr>hw_task_id = of_int tid, hw_hit_addr = addr, hw_hit_time = time,
     hw_regs = regs @ [0, 0, 0]\<rparr>"

fun takeRecord :: "'k Os \<Rightarrow> PerfRecord \<Rightarrow> PEntry \<Rightarrow> ('k, PEntry) state" where
  "takeRecord os (Sample tid regs) e = do {
     now \<leftarrow> os_now os;
     State_Monad.return (e\<lparr>pe_hits := push_hit (sample_item (pe_bp_addr e) now tid regs) (pe_hits e),
       pe_totalHits := pe_totalHits e + 1\<rparr>) }"
| "takeRecord os (Lost n) e = State_Monad.return (e\<lparr>pe_totalHits := pe_totalHits e + n\<rparr>)"
| "takeRecord os Other e = State_Monad.return e"

fun takeRecords :: "'k Os \<Rightarrow> PerfRecord list \<Rightarrow> PEntry \<Rightarrow> ('k, PEntry) state" where
  "takeRecords os [] e = State_Monad.return e"
| "takeRecords os (r # rs) e = do { e' \<leftarrow> takeRecord os r e; takeRecords os rs e' }"

definition ConsumeRingLocked :: "'k Os \<Rightarrow> SubFd \<Rightarrow> PEntry \<Rightarrow> ('k, SubFd \<times> PEntry) state" where
  "ConsumeRingLocked os s e = do {
     (head, base) \<leftarrow> os_ring os (sf_mmap_addr s);
     let (rs, tail) = ringRecords base (sf_data_size s) (unat head) (sf_tail s);
     e' \<leftarrow> takeRecords os rs e;
     os_ring_tail os (sf_mmap_addr s) (of_nat tail);
     State_Monad.return (s\<lparr>sf_tail := tail\<rparr>, e') }"

text \<open>What the background thread does for a ring that \<open>poll\<close> reported; the breakpoint or the thread may be gone by then.\<close>

definition perf_Consume :: "'k Os \<Rightarrow> u64 \<Rightarrow> int \<Rightarrow> ('k, unit) perf" where
  "perf_Consume os h tid = do {
     t \<leftarrow> pt_table;
     case map_of (pt_entries t) h of
       None \<Rightarrow> State_Monad.return ()
     | Some e \<Rightarrow> (case map_of (pe_subs e) tid of
           None \<Rightarrow> State_Monad.return ()
         | Some s \<Rightarrow> do {
             (s', e') \<leftarrow> pt_os (ConsumeRingLocked os s e);
             pt_update (\<lambda>t. t\<lparr>pt_entries := om_replace h (e'\<lparr>pe_subs := om_replace tid s' (pe_subs e')\<rparr>) (pt_entries t)\<rparr>) }) }"

section \<open>Following the threads\<close>

fun perf_followTids :: "'k Os \<Rightarrow> int list \<Rightarrow> PEntry \<Rightarrow> ('k, PEntry) state" where
  "perf_followTids os [] e = State_Monad.return e"
| "perf_followTids os (tid # tids) e =
     (if map_of (pe_subs e) tid \<noteq> None then perf_followTids os tids e
      else do {
        r \<leftarrow> OpenSub os e tid (pe_enabled e);
        perf_followTids os tids (case r of None \<Rightarrow> e | Some s \<Rightarrow> e\<lparr>pe_subs := om_put tid s (pe_subs e)\<rparr>) })"

definition perf_rescanEntry :: "'k Os \<Rightarrow> PEntry \<Rightarrow> ('k, PEntry) state" where
  "perf_rescanEntry os e = do {
     tids \<leftarrow> ScanTids os (pe_pid e);
     if tids = [] then State_Monad.return e
     else do {
       e' \<leftarrow> perf_followTids os tids e;
       for_each (\<lambda>sub. CloseSub os (snd sub)) (filter (\<lambda>sub. fst sub \<notin> set tids) (pe_subs e'));
       State_Monad.return (e'\<lparr>pe_subs := filter (\<lambda>sub. fst sub \<in> set tids) (pe_subs e')\<rparr>) }}"

fun perf_rescanEntries :: "'k Os \<Rightarrow> (u64 \<times> PEntry) list \<Rightarrow> ('k, (u64 \<times> PEntry) list) state" where
  "perf_rescanEntries os [] = State_Monad.return []"
| "perf_rescanEntries os (p # ps) = do {
     e \<leftarrow> perf_rescanEntry os (snd p);
     rest \<leftarrow> perf_rescanEntries os ps;
     State_Monad.return ((fst p, e) # rest) }"

definition perf_RescanAllLocked :: "'k Os \<Rightarrow> ('k, unit) perf" where
  "perf_RescanAllLocked os = do {
     t \<leftarrow> pt_table;
     entries \<leftarrow> pt_os (perf_rescanEntries os (pt_entries t));
     pt_update (\<lambda>t. t\<lparr>pt_entries := entries\<rparr>) }"

end
