(* ===== verification/PerfRing.thy ===== *)
theory PerfRing
  imports PerfHwBreakpoint
begin

text \<open>
  The ring buffers of \<open>engine/android/PerfHwBreakpoint.hpp\<close> against the kernel that fills them. \<open>ring_holds\<close> says where the kernel puts
  the bytes that it writes, and \<open>krecord_bytes\<close> is the layout of \<open>perf_event.h\<close> for the events that the sources open. \<open>CopyRing\<close> reads
  modulo the size of the ring, the loop of \<open>ConsumeRingLocked\<close> finds the records that were written, and the counters and the queue
  of hits account for every one of them.
\<close>

section \<open>Reading modulo the size\<close>

lemma CopyRing_modular:
  assumes "length base = size_of" "off < size_of" "n \<le> size_of"
  shows "CopyRing base size_of off n = map (\<lambda>i. base ! ((off + i) mod size_of)) [0..<n]"
proof (rule nth_equalityI)
  show "length (CopyRing base size_of off n) = length (map (\<lambda>i. base ! ((off + i) mod size_of)) [0..<n])"
    using assms by (auto simp: CopyRing_def Let_def min_def)
next
  fix i assume "i < length (CopyRing base size_of off n)"
  with assms have i: "i < n" by (auto simp: CopyRing_def Let_def min_def split: if_splits)
  show "CopyRing base size_of off n ! i = map (\<lambda>i. base ! ((off + i) mod size_of)) [0..<n] ! i"
  proof (cases "off + i < size_of")
    case True
    with i assms show ?thesis by (auto simp: CopyRing_def Let_def nth_append)
  next
    case False
    with i assms have "(off + i) mod size_of = i - (size_of - off)"
      by (subst mod_if) auto
    with False i assms show ?thesis by (auto simp: CopyRing_def Let_def nth_append)
  qed
qed

definition ring_holds :: "bytes \<Rightarrow> nat \<Rightarrow> nat \<Rightarrow> bytes \<Rightarrow> bool" where
  "ring_holds base size_of pos bs \<longleftrightarrow> length base = size_of \<and> length bs \<le> size_of \<and>
     (\<forall>i < length bs. base ! ((pos + i) mod size_of) = bs ! i)"

lemma ring_holds_append:
  assumes "ring_holds base size_of pos (xs @ ys)"
  shows "ring_holds base size_of pos xs" "ring_holds base size_of (pos + length xs) ys"
  using assms by (auto simp: ring_holds_def nth_append ac_simps dest: spec [of _ "length xs + _"])

lemma CopyRing_held:
  assumes "ring_holds base size_of pos bs" "off + n \<le> length bs" "0 < n"
  shows "CopyRing base size_of ((pos + off) mod size_of) n = take n (drop off bs)"
proof -
  from assms have "0 < size_of" "n \<le> size_of" "length base = size_of" by (auto simp: ring_holds_def)
  then have "CopyRing base size_of ((pos + off) mod size_of) n
      = map (\<lambda>i. base ! (((pos + off) mod size_of + i) mod size_of)) [0..<n]"
    by (simp add: CopyRing_modular)
  also have "\<dots> = take n (drop off bs)"
    using assms by (intro nth_equalityI) (auto simp: ring_holds_def mod_add_left_eq add.assoc)
  finally show ?thesis .
qed

section \<open>The records that the kernel writes\<close>

datatype KRecord = KSample u32 u32 u64 "u64 list" | KLost u64 u64 | KOther u32 bytes

fun krecord_body :: "KRecord \<Rightarrow> u32 \<times> bytes" where
  "krecord_body (KSample pid tid abi regs) =
     (PERF_RECORD_SAMPLE, u32_bytes pid @ u32_bytes tid @ u64_bytes abi @ concat (map u64_bytes regs))"
| "krecord_body (KLost ident n) = (PERF_RECORD_LOST, u64_bytes ident @ u64_bytes n)"
| "krecord_body (KOther type body) = (type, body)"

definition krecord_bytes :: "KRecord \<Rightarrow> bytes" where
  "krecord_bytes r = (case krecord_body r of (type, body) \<Rightarrow>
     u32_bytes type @ [0, 0] @ le 2 (8 + length body) @ body)"

fun krecord_ok :: "KRecord \<Rightarrow> bool" where
  "krecord_ok (KSample pid tid abi regs) \<longleftrightarrow> length regs = 33"
| "krecord_ok (KLost ident n) \<longleftrightarrow> True"
| "krecord_ok (KOther type body) \<longleftrightarrow>
     type \<noteq> PERF_RECORD_SAMPLE \<and> type \<noteq> PERF_RECORD_LOST \<and> 8 + length body < 65536"

fun seen_record :: "KRecord \<Rightarrow> PerfRecord" where
  "seen_record (KSample pid tid abi regs) = Sample (int (unat tid)) regs"
| "seen_record (KLost ident n) = Lost n"
| "seen_record (KOther type body) = Other"

lemma length_concat_u64 [simp]: "length (concat (map u64_bytes ws)) = 8 * length ws"
  by (induction ws) auto

lemma u64_at_concat: "i < length ws \<Longrightarrow> u64_at (concat (map u64_bytes ws)) (8 * i) = ws ! i"
proof (induction ws arbitrary: i)
  case (Cons w ws)
  show ?case
  proof (cases i)
    case (Suc j)
    with Cons show ?thesis by (simp add: u64_at_def)
  qed simp
qed simp

lemma krecord_size: "krecord_ok r \<Longrightarrow> 8 + length (snd (krecord_body r)) < 65536"
  by (cases r) auto

lemma krecord_length: "length (krecord_bytes r) = 8 + length (snd (krecord_body r))"
  by (simp add: krecord_bytes_def split: prod.split)

lemma recordAt_written:
  assumes holds: "ring_holds base size_of pos (krecord_bytes r)" and ok: "krecord_ok r"
  shows "recordAt base size_of pos = (seen_record r, length (krecord_bytes r))"
proof -
  note copy = CopyRing_held [OF holds]
  obtain type body where b: "krecord_body r = (type, body)" by fastforce
  then have bytes: "krecord_bytes r = u32_bytes type @ [0, 0] @ le 2 (8 + length body) @ body"
    and len: "length (krecord_bytes r) = 8 + length body" "8 + length body < 65536"
    using krecord_length [of r] krecord_size [OF ok] by (simp_all add: krecord_bytes_def)
  define header where "header = u32_bytes type @ [0, 0] @ le 2 (8 + length body)"
  have hdr: "CopyRing base size_of (pos mod size_of) 8 = header"
    using copy [of 0 8] len by (simp add: bytes header_def)
  have at: "(pos mod size_of + n) mod size_of = (pos + n) mod size_of" for n
    by (simp add: mod_add_left_eq)
  have at2: "((pos + m) mod size_of + n) mod size_of = (pos + (m + n)) mod size_of" for m n
    by (simp add: mod_add_left_eq add.assoc)
  have fields: "u32_at header 0 = type" "u16_at header 6 = length (krecord_bytes r)"
    using len by (simp_all add: header_def u16_at_def of_le_le)
  show ?thesis
  proof (cases r)
    case (KSample pid tid abi regs)
    with ok b have regs: "length regs = 33" and body: "type = PERF_RECORD_SAMPLE"
      "body = u32_bytes pid @ u32_bytes tid @ u64_bytes abi @ concat (map u64_bytes regs)" by auto
    have pidtid: "CopyRing base size_of ((pos + 8) mod size_of) 8 = u32_bytes pid @ u32_bytes tid"
      using copy [of 8 8] len by (simp add: bytes body)
    have second: "u32_at (u32_bytes pid @ u32_bytes tid) 4 = tid" by (simp add: u32_at_def)
    have "CopyRing base size_of ((pos + 24) mod size_of) 264 = concat (map u64_bytes regs)"
      using copy [of 24 264] len regs by (simp add: bytes body)
    moreover have "map (\<lambda>i. u64_at (concat (map u64_bytes regs)) (8 * i)) [0..<33] = regs"
      using regs by (intro nth_equalityI) (auto simp: u64_at_concat)
    ultimately show ?thesis
      by (simp add: recordAt_def Let_def hdr fields at at2 pidtid second body(1)) (simp add: KSample)
  next
    case (KLost ident n)
    with b have body: "type = PERF_RECORD_LOST" "body = u64_bytes ident @ u64_bytes n" by auto
    have "CopyRing base size_of ((pos + 8) mod size_of) 16 = u64_bytes ident @ u64_bytes n"
      using copy [of 8 16] len by (simp add: bytes body)
    then show ?thesis
      by (simp add: recordAt_def Let_def hdr fields at body(1) u64_at_def) (simp add: KLost)
  next
    case (KOther ty bd)
    with ok b have "type \<noteq> PERF_RECORD_SAMPLE" "type \<noteq> PERF_RECORD_LOST" by auto
    then show ?thesis by (simp add: recordAt_def Let_def hdr fields) (simp add: KOther)
  qed
qed

definition written :: "KRecord list \<Rightarrow> bytes" where
  "written rs = concat (map krecord_bytes rs)"

lemma ringRecords_written:
  assumes "ring_holds base size_of tail (written rs)" "\<forall>r \<in> set rs. krecord_ok r"
  shows "ringRecords base size_of (tail + length (written rs)) tail =
    (map seen_record rs, tail + length (written rs))"
  using assms
proof (induction rs arbitrary: tail)
  case Nil
  show ?case by (simp add: written_def ringRecords.simps)
next
  case (Cons r rs)
  then have parts: "ring_holds base size_of tail (krecord_bytes r)"
    "ring_holds base size_of (tail + length (krecord_bytes r)) (written rs)"
    using ring_holds_append [of base size_of tail "krecord_bytes r" "written rs"] by (simp_all add: written_def)
  have "length (krecord_bytes r) \<noteq> 0" by (simp add: krecord_length)
  with recordAt_written [OF parts(1)] Cons.IH [OF parts(2)] Cons.prems(2) show ?case
    by (simp add: ringRecords.simps [of _ _ _ tail] written_def add.assoc)
qed

section \<open>Every event is accounted for\<close>

definition recent :: "HW_HIT_ITEM list \<Rightarrow> HW_HIT_ITEM list" where
  "recent hits = drop (length hits - kMaxPendingHits) hits"

lemma push_hit_recent: "length hits \<le> kMaxPendingHits \<Longrightarrow> push_hit item hits = recent (hits @ [item])"
  by (auto simp: push_hit_def recent_def drop_Suc kMaxPendingHits_def Suc_diff_le)

lemma recent_recent: "recent (recent xs @ ys) = recent (xs @ ys)"
  by (cases "length xs \<le> kMaxPendingHits") (simp_all add: recent_def add.commute)

lemma length_recent: "length (recent xs) \<le> kMaxPendingHits"
  by (simp add: recent_def)

fun events_of :: "PerfRecord \<Rightarrow> u64" where
  "events_of (Sample tid regs) = 1"
| "events_of (Lost n) = n"
| "events_of Other = 0"

fun sampled :: "PerfRecord list \<Rightarrow> (u64 \<times> u64 list) list" where
  "sampled [] = []"
| "sampled (Sample tid regs # rs) = (of_int tid, regs @ [0, 0, 0]) # sampled rs"
| "sampled (_ # rs) = sampled rs"

lemma takeRecords_accounts:
  assumes "run_state (takeRecords os rs e) k = (e', k')" "length (pe_hits e) \<le> kMaxPendingHits"
  shows "pe_totalHits e' = pe_totalHits e + sum_list (map events_of rs) \<and>
    (\<exists>new. pe_hits e' = recent (pe_hits e @ new) \<and>
       map (\<lambda>i. (hw_task_id i, hw_regs i)) new = sampled rs \<and> (\<forall>i \<in> set new. hw_hit_addr i = pe_bp_addr e)) \<and>
    pe_bp_addr e' = pe_bp_addr e \<and> pe_subs e' = pe_subs e \<and> pe_enabled e' = pe_enabled e"
  using assms
proof (induction rs arbitrary: e k)
  case Nil
  then show ?case by (auto simp: recent_def intro!: exI [of _ "[]"])
next
  case (Cons r rs)
  show ?case
  proof (cases r)
    case (Sample tid regs)
    obtain now k1 where now: "run_state (os_now os) k = (now, k1)" by fastforce
    define item where "item = sample_item (pe_bp_addr e) now tid regs"
    define e1 where "e1 = e\<lparr>pe_hits := recent (pe_hits e @ [item]), pe_totalHits := pe_totalHits e + 1\<rparr>"
    from Cons.prems Sample now have run: "run_state (takeRecords os rs e1) k1 = (e', k')"
      by (simp add: e1_def item_def push_hit_recent)
    from Cons.IH [OF run] obtain new where new: "pe_hits e' = recent (pe_hits e1 @ new)"
      "map (\<lambda>i. (hw_task_id i, hw_regs i)) new = sampled rs" "\<forall>i \<in> set new. hw_hit_addr i = pe_bp_addr e"
      and rest: "pe_totalHits e' = pe_totalHits e1 + sum_list (map events_of rs)"
        "pe_bp_addr e' = pe_bp_addr e" "pe_subs e' = pe_subs e" "pe_enabled e' = pe_enabled e"
      by (auto simp: e1_def length_recent)
    from new have "pe_hits e' = recent (pe_hits e @ item # new)"
      "map (\<lambda>i. (hw_task_id i, hw_regs i)) (item # new) = sampled (r # rs)"
      "\<forall>i \<in> set (item # new). hw_hit_addr i = pe_bp_addr e"
      using recent_recent [of "pe_hits e @ [item]" new] by (auto simp: e1_def item_def sample_item_def Sample)
    moreover have "pe_totalHits e' = pe_totalHits e + sum_list (map events_of (r # rs))"
      using rest by (simp add: e1_def Sample add.assoc)
    ultimately show ?thesis using rest by blast
  next
    case (Lost n)
    with Cons.prems Cons.IH [of "e\<lparr>pe_totalHits := pe_totalHits e + n\<rparr>" k] show ?thesis by (simp add: add.assoc)
  next
    case Other
    with Cons.prems Cons.IH [of e k] show ?thesis by simp
  qed
qed

text \<open>
  C26. No record of the ring buffer is lost. When the kernel has written the records \<open>rs\<close> behind the tail, wherever the ring wraps around, the
  reader takes exactly these records and moves the tail behind them; the count of hits grows by one for every sample and by the number that
  the kernel reports as lost, and the pending hits are the most recent of the old and the new ones, at most \<open>kMaxPendingHits\<close> of them.
\<close>

theorem ConsumeRing_accounts:
  assumes ring: "run_state (os_ring os (sf_mmap_addr s)) k = ((head, base), k1)"
    and head: "unat head = sf_tail s + length (written rs)"
    and holds: "ring_holds base (sf_data_size s) (sf_tail s) (written rs)"
    and ok: "\<forall>r \<in> set rs. krecord_ok r"
    and room: "length (pe_hits e) \<le> kMaxPendingHits"
    and run: "run_state (ConsumeRingLocked os s e) k = ((s', e'), k')"
  shows "sf_tail s' = unat head \<and>
    pe_totalHits e' = pe_totalHits e + sum_list (map (events_of \<circ> seen_record) rs) \<and>
    (\<exists>new. pe_hits e' = recent (pe_hits e @ new) \<and>
       map (\<lambda>i. (hw_task_id i, hw_regs i)) new = sampled (map seen_record rs) \<and>
       (\<forall>i \<in> set new. hw_hit_addr i = pe_bp_addr e)) \<and>
    length (pe_hits e') \<le> kMaxPendingHits"
proof -
  have records: "ringRecords base (sf_data_size s) (unat head) (sf_tail s) = (map seen_record rs, unat head)"
    unfolding head by (rule ringRecords_written [OF holds ok])
  obtain e1 k2 where take: "run_state (takeRecords os (map seen_record rs) e) k1 = (e1, k2)" by fastforce
  from run ring records take have "s' = s\<lparr>sf_tail := unat head\<rparr>" "e' = e1"
    by (auto simp: ConsumeRingLocked_def split: prod.splits)
  with takeRecords_accounts [OF take room] show ?thesis by (auto simp: length_recent)
qed

end
