(* ===== verification/MemoryOp.thy ===== *)
theory MemoryOp
  imports KernelDriver LinuxProc
begin

text \<open>
  Memory of other processes: the interface \<open>engine/common/IMemoryOp.hpp\<close> and its two implementations,
  \<open>engine/android/AndroidMemorySys.hpp\<close> (system calls) and \<open>engine/android/AndroidMemKernel.hpp\<close> (the NI driver).

  The object that \<open>g_memIO\<close> holds is the record \<open>MemIO\<close>; its field \<open>type\<close> says which of the two classes it is. An operation
  runs on the record \<open>Engine\<close>, which has this object and the shared connection to the driver. A buffer is passed with its
  contents and given back with what the call made of it.

  The interface states a contract for \<open>Read\<close>: the result \<open>n\<close> counts the bytes that could be read without a gap from the address on, they are
  at the front of the buffer, and the rest of the buffer is zero. The locale \<open>prefix_reader\<close> has the part of it that does not depend on
  the kernel; the theorems on \<open>readable_prefix\<close> have the whole of it for a kernel that reads within a page what is readable there.
\<close>

section \<open>Objects\<close>

abbreviation "MemType_Syscall \<equiv> 2 :: u8"
abbreviation "MemType_Kernel \<equiv> 3 :: u8"

record MemIO =
  mio_type :: u8
  mio_pid :: int
  mio_name :: string
  mio_handle :: u64

definition AndroidMemorySys_new :: MemIO where
  "AndroidMemorySys_new = \<lparr>mio_type = MemType_Syscall, mio_pid = 0, mio_name = [], mio_handle = 0\<rparr>"

definition AndroidMemKernel_new :: MemIO where
  "AndroidMemKernel_new = \<lparr>mio_type = MemType_Kernel, mio_pid = 0, mio_name = [], mio_handle = 0\<rparr>"

record 'k Engine =
  en_driver :: "'k KDriver"
  en_memIO :: MemIO

type_synonym ('k, 'a) engine = "('k Engine, 'a) state"

definition on_driver :: "('k, 'a) driver \<Rightarrow> ('k, 'a) engine" where
  "on_driver = part en_driver (\<lambda>d s. s\<lparr>en_driver := d\<rparr>)"

definition on_os :: "('k, 'a) state \<Rightarrow> ('k, 'a) engine" where
  "on_os m = on_driver (on_kernel m)"

definition set_memIO :: "(MemIO \<Rightarrow> MemIO) \<Rightarrow> ('k, unit) engine" where
  "set_memIO f = State_Monad.update (\<lambda>s. s\<lparr>en_memIO := f (en_memIO s)\<rparr>)"

section \<open>Reading page by page\<close>

definition page_offset :: "nat \<Rightarrow> u64 \<Rightarrow> nat" where
  "page_offset ps a = unat (and a (of_nat ps - 1))"

text \<open>
  The loop that both classes have. \<open>rd cur chunk\<close> reads into the part \<open>chunk\<close> of the buffer, which ends at the next page
  boundary at the latest, and yields the bytes that it got; nothing, or fewer than it was asked for, ends the loop. The result is
  what was read in all.
\<close>

function pagedRead :: "(u64 \<Rightarrow> bytes \<Rightarrow> ('s, bytes) state) \<Rightarrow> nat \<Rightarrow> u64 \<Rightarrow> bytes \<Rightarrow> 's \<Rightarrow> bytes \<times> 's" where
  "pagedRead rd ps cur buf s =
     (if buf = [] then ([], s)
      else
        let chunk = min (length buf) (ps - page_offset ps cur) in
        case run_state (rd cur (take chunk buf)) s of (r, s') \<Rightarrow>
          let got = take chunk r in
          if got = [] \<or> length got < chunk then (got, s')
          else case pagedRead rd ps (cur + of_nat chunk) (drop chunk buf) s' of (rest, s'') \<Rightarrow> (got @ rest, s''))"
  by pat_completeness auto
termination
  by (relation "measure (\<lambda>(rd, ps, cur, buf, s). length buf)") auto

declare pagedRead.simps [simp del]

definition filled :: "bytes \<Rightarrow> bytes \<Rightarrow> nat \<times> bytes" where
  "filled buf got = (length got, got @ replicate (length buf - length got) 0)"

section \<open>System calls\<close>

definition sys_chunk :: "'k Os \<Rightarrow> int \<Rightarrow> u64 \<Rightarrow> bytes \<Rightarrow> ('k, bytes) state" where
  "sys_chunk os pid cur chunk = do {
     r \<leftarrow> os_vm_readv os pid cur (length chunk);
     State_Monad.return (case r of None \<Rightarrow> [] | Some data \<Rightarrow> data) }"

definition sys_pageCount :: "'k Os \<Rightarrow> u64 \<Rightarrow> nat \<Rightarrow> nat" where
  "sys_pageCount os address len =
     (let mask = of_nat (os_pagesize os) - 1 :: u64;
          startPage = and address (not mask);
          endPage = and (address + of_nat len - 1) (not mask)
      in unat (endPage - startPage) div os_pagesize os + 1)"

definition sys_Read :: "'k Os \<Rightarrow> int \<Rightarrow> u64 \<Rightarrow> bytes \<Rightarrow> ('k, nat \<times> bytes) state" where
  "sys_Read os pid address buf =
     (if buf = [] then State_Monad.return (0, buf)
      else if sys_pageCount os address (length buf) = 1
      then do {
        r \<leftarrow> sys_chunk os pid address buf;
        State_Monad.return (filled buf (take (length buf) r)) }
      else do {
        got \<leftarrow> State (pagedRead (sys_chunk os pid) (os_pagesize os) address buf);
        State_Monad.return (filled buf got) })"

definition sys_WriteMem :: "'k Os \<Rightarrow> int \<Rightarrow> u64 \<Rightarrow> bytes \<Rightarrow> ('k, nat) state" where
  "sys_WriteMem os pid address data = do {
     (memFd, err) \<leftarrow> os_open os (proc_path pid ''mem'');
     if memFd < 0 then State_Monad.return 0
     else do {
       r \<leftarrow> os_pwrite os memFd address data;
       os_close os memFd;
       State_Monad.return (case r of None \<Rightarrow> 0 | Some n \<Rightarrow> n) }}"

definition sys_Write :: "'k Os \<Rightarrow> int \<Rightarrow> u64 \<Rightarrow> bytes \<Rightarrow> ('k, nat) state" where
  "sys_Write os pid address data = do {
     r \<leftarrow> os_vm_writev os pid address data;
     case r of
       Some n \<Rightarrow> if n > 0 then State_Monad.return n else sys_WriteMem os pid address data
     | None \<Rightarrow> sys_WriteMem os pid address data }"

definition sys_OpenProcess :: "'k Os \<Rightarrow> int \<Rightarrow> ('k, bool) engine" where
  "sys_OpenProcess os pid = do {
     set_memIO (\<lambda>m. m\<lparr>mio_pid := pid\<rparr>);
     if pid \<le> 0 then State_Monad.return False
     else do {
       alive \<leftarrow> on_os (IsProcessAlive os pid);
       if \<not> alive then State_Monad.return False
       else do {
         name \<leftarrow> on_os (GetProcessName_proc os pid);
         set_memIO (\<lambda>m. m\<lparr>mio_name := name\<rparr>);
         r \<leftarrow> on_os (os_vm_readv os pid 0 0);
         State_Monad.return (r \<noteq> None) }}}"

definition sys_CloseHandle :: "('k, bool) engine" where
  "sys_CloseHandle = do { set_memIO (\<lambda>m. m\<lparr>mio_pid := 0\<rparr>); State_Monad.return True }"

section \<open>The kernel driver\<close>

definition kern_chunk :: "'k Os \<Rightarrow> u64 \<Rightarrow> u64 \<Rightarrow> bytes \<Rightarrow> ('k, bytes) driver" where
  "kern_chunk os handle cur chunk = do {
     (n, buf) \<leftarrow> drv_ReadMemory os handle cur chunk;
     State_Monad.return (if n > 0 then take (nat n) buf else []) }"

definition kern_Read :: "'k Os \<Rightarrow> u64 \<Rightarrow> u64 \<Rightarrow> bytes \<Rightarrow> ('k, nat \<times> bytes) driver" where
  "kern_Read os handle address buf =
     (if address = 0 \<or> buf = [] \<or> handle = 0 then State_Monad.return (0, buf)
      else do {
        got \<leftarrow> State (pagedRead (kern_chunk os handle) (os_pagesize os) address buf);
        State_Monad.return (filled buf got) })"

definition kern_Write :: "'k Os \<Rightarrow> u64 \<Rightarrow> u64 \<Rightarrow> bytes \<Rightarrow> ('k, nat) driver" where
  "kern_Write os handle address data =
     (if address = 0 \<or> data = [] \<or> handle = 0 then State_Monad.return 0
      else do {
        n \<leftarrow> drv_WriteMemory os handle address data;
        State_Monad.return (if n > 0 then nat n else 0) })"

definition kern_connect :: "'k Os \<Rightarrow> ('k, bool) driver" where
  "kern_connect os = do {
     rc \<leftarrow> drv_Connect os;
     if rc < 0 then State_Monad.return False else drv_IsConnected }"

definition kern_openHandle :: "'k Os \<Rightarrow> int \<Rightarrow> ('k, bool) engine" where
  "kern_openHandle os pid = do {
     handle \<leftarrow> on_driver (drv_OpenProcess os pid);
     set_memIO (\<lambda>m. m\<lparr>mio_handle := handle\<rparr>);
     if handle = 0 then State_Monad.return False
     else do {
       (named, name) \<leftarrow> on_driver (drv_GetProcessComm os pid 256);
       (if named then set_memIO (\<lambda>m. m\<lparr>mio_name := name\<rparr>) else State_Monad.return ());
       State_Monad.return True }}"

definition kern_OpenProcess :: "'k Os \<Rightarrow> int \<Rightarrow> ('k, bool) engine" where
  "kern_OpenProcess os pid = do {
     s \<leftarrow> State_Monad.get;
     if pid = mio_pid (en_memIO s) then State_Monad.return True
     else do {
       set_memIO (\<lambda>m. m\<lparr>mio_pid := pid\<rparr>);
       if pid \<le> 0 then State_Monad.return False
       else do {
         connected \<leftarrow> on_driver drv_IsConnected;
         reachable \<leftarrow> (if connected then State_Monad.return True else on_driver (kern_connect os));
         if \<not> reachable then State_Monad.return False
         else kern_openHandle os pid }}}"

definition kern_CloseHandle :: "'k Os \<Rightarrow> ('k, bool) engine" where
  "kern_CloseHandle os = do {
     set_memIO (\<lambda>m. m\<lparr>mio_pid := 0\<rparr>);
     s \<leftarrow> State_Monad.get;
     let handle = mio_handle (en_memIO s);
     ok \<leftarrow> (if handle \<noteq> 0 then on_driver (drv_CloseProcess os handle) else State_Monad.return True);
     set_memIO (\<lambda>m. m\<lparr>mio_handle := 0\<rparr>);
     State_Monad.return ok }"

definition kern_entry :: "'k Os \<Rightarrow> int \<Rightarrow> ('k, (int \<times> string) list) driver" where
  "kern_entry os pid = do {
     (b1, cmdline) \<leftarrow> drv_GetProcessCmdline os pid 256;
     (b2, name) \<leftarrow> (if cmdline = [] then drv_GetProcessComm os pid 256 else State_Monad.return (b1, cmdline));
     link \<leftarrow> on_kernel (readlink_exe os pid);
     State_Monad.return (shownProcess link pid name) }"

definition kern_GetProcessPidList :: "'k Os \<Rightarrow> ('k, (int \<times> string) list) driver" where
  "kern_GetProcessPidList os = do {
     pids \<leftarrow> drv_GetPidList os;
     case pids of
       None \<Rightarrow> State_Monad.return []
     | Some ps \<Rightarrow> do {
         shown \<leftarrow> for_each (kern_entry os) ps;
         State_Monad.return (concat shown) }}"

definition kern_map :: "int \<Rightarrow> DRIVER_REGION_INFO \<Rightarrow> ProcessMap" where
  "kern_map pid r =
     (let p = dr_protection r;
          canRead = (p \<in> {PAGE_READONLY, PAGE_READWRITE, PAGE_EXECUTE_READ, PAGE_EXECUTE_READWRITE});
          canWrite = (p \<in> {PAGE_READWRITE, PAGE_EXECUTE_READWRITE});
          canExec = (p \<in> {PAGE_EXECUTE, PAGE_EXECUTE_READ, PAGE_EXECUTE_READWRITE});
          is_private = (dr_type r = MEM_PRIVATE); is_shared = (dr_type r = MEM_MAPPED);
          perms = [if canRead then CHR ''r'' else CHR ''-'', if canWrite then CHR ''w'' else CHR ''-'',
            if canExec then CHR ''x'' else CHR ''-'',
            if is_private then CHR ''p'' else if is_shared then CHR ''s'' else CHR ''-'']
      in ProcessMap_new\<lparr>pm_pid := pid, pm_startAddress := dr_baseaddress r,
           pm_endAddress := dr_baseaddress r + dr_size r, pm_length := dr_size r, pm_pathname := dr_name r,
           pm_protection := uint p, pm_readable := canRead, pm_writable := canWrite, pm_executable := canExec,
           pm_is_private := is_private, pm_is_shared := is_shared,
           pm_flag := (if canRead then 1 else 0) + (if canWrite then 2 else 0) + (if canExec then 4 else 0) +
             (if is_private then 8 else 0) + (if is_shared then 16 else 0),
           pm_perms := perms, pm_type := DetermineMemoryType (dr_name r) perms\<rparr>)"

definition kern_GetProcessMaps :: "'k Os \<Rightarrow> int \<Rightarrow> u64 \<Rightarrow> ('k, ProcessMap list) driver" where
  "kern_GetProcessMaps os pid handle =
     (if handle = 0 then State_Monad.return []
      else do {
        regions \<leftarrow> drv_QueryMaps os handle;
        State_Monad.return (case regions of None \<Rightarrow> [] | Some rs \<Rightarrow> map (kern_map pid) rs) })"

section \<open>The interface\<close>

text \<open>The virtual functions, by the class of the object.\<close>

definition mem_type :: "('k, u8) engine" where
  "mem_type = do { s \<leftarrow> State_Monad.get; State_Monad.return (mio_type (en_memIO s)) }"

definition virtual :: "(MemIO \<Rightarrow> ('k, 'a) engine) \<Rightarrow> (MemIO \<Rightarrow> ('k, 'a) engine) \<Rightarrow> ('k, 'a) engine" where
  "virtual sys kern = do {
     s \<leftarrow> State_Monad.get;
     (if mio_type (en_memIO s) = MemType_Kernel then kern else sys) (en_memIO s) }"

definition mem_OpenProcess :: "'k Os \<Rightarrow> int \<Rightarrow> ('k, bool) engine" where
  "mem_OpenProcess os pid = virtual (\<lambda>m. sys_OpenProcess os pid) (\<lambda>m. kern_OpenProcess os pid)"

definition mem_CloseHandle :: "'k Os \<Rightarrow> ('k, bool) engine" where
  "mem_CloseHandle os = virtual (\<lambda>m. sys_CloseHandle) (\<lambda>m. kern_CloseHandle os)"

definition mem_Read :: "'k Os \<Rightarrow> u64 \<Rightarrow> bytes \<Rightarrow> ('k, nat \<times> bytes) engine" where
  "mem_Read os address buf =
     virtual (\<lambda>m. on_os (sys_Read os (mio_pid m) address buf)) (\<lambda>m. on_driver (kern_Read os (mio_handle m) address buf))"

definition mem_Write :: "'k Os \<Rightarrow> u64 \<Rightarrow> bytes \<Rightarrow> ('k, nat) engine" where
  "mem_Write os address data =
     virtual (\<lambda>m. on_os (sys_Write os (mio_pid m) address data)) (\<lambda>m. on_driver (kern_Write os (mio_handle m) address data))"

definition mem_GetProcessPidList :: "'k Os \<Rightarrow> ('k, (int \<times> string) list) engine" where
  "mem_GetProcessPidList os =
     virtual (\<lambda>m. on_os (GetProcessPidList_proc os)) (\<lambda>m. on_driver (kern_GetProcessPidList os))"

definition mem_GetProcessMaps :: "'k Os \<Rightarrow> ('k, ProcessMap list) engine" where
  "mem_GetProcessMaps os =
     virtual (\<lambda>m. on_os (GetProcessMaps_proc os (mio_pid m)))
       (\<lambda>m. on_driver (kern_GetProcessMaps os (mio_pid m) (mio_handle m)))"

definition mem_GetSoBase :: "'k Os \<Rightarrow> string \<Rightarrow> ('k, u64) engine" where
  "mem_GetSoBase os name =
     virtual (\<lambda>m. if mio_pid m \<le> 0 \<or> name = [] then State_Monad.return 0 else on_os (GetModBase os (mio_pid m) name))
       (\<lambda>m. if mio_pid m \<le> 0 \<or> name = [] then State_Monad.return 0
            else on_driver (drv_GetSoBaseAddress os (mio_pid m) name))"

text \<open>\<open>GetCardTime\<close> into a variable that is 0 before the call.\<close>

definition mem_GetCardTime :: "'k Os \<Rightarrow> ('k, u64) engine" where
  "mem_GetCardTime os =
     virtual (\<lambda>m. State_Monad.return 0)
       (\<lambda>m. do { t \<leftarrow> on_driver (drv_GetExpireTime os); State_Monad.return (case t of None \<Rightarrow> 0 | Some v \<Rightarrow> v) })"

definition FindMapsByName :: "string \<Rightarrow> ProcessMap list \<Rightarrow> ProcessMap list" where
  "FindMapsByName name maps = filter (\<lambda>m. \<not> IsUnknown m \<and> contains_str (pm_pathname m) name) maps"

definition GetAddressMap :: "u64 \<Rightarrow> ProcessMap list \<Rightarrow> ProcessMap" where
  "GetAddressMap address maps = (case List.find (\<lambda>m. Contains m address) maps of None \<Rightarrow> ProcessMap_new | Some m \<Rightarrow> m)"

section \<open>The contract of Read, for every kernel\<close>

text \<open>
  What a caller may rely on after \<open>Read\<close> into a zeroed buffer: at most as many bytes as the buffer has, the buffer keeps its
  length, and behind the bytes that were read it is zero.
\<close>

locale prefix_reader =
  fixes rd :: "u64 \<Rightarrow> bytes \<Rightarrow> ('s, nat \<times> bytes) state"
  assumes zeroed: "run_state (rd a (replicate len 0)) s = ((n, b), s') \<Longrightarrow>
    n \<le> len \<and> length b = len \<and> drop n b = replicate (len - n) 0"
begin

lemma count_le: "run_state (rd a (replicate len 0)) s = ((n, b), s') \<Longrightarrow> n \<le> len"
  using zeroed by blast

text \<open>\<open>resize\<close> to the result keeps exactly the bytes that were read.\<close>

lemma length_taken: "run_state (rd a (replicate len 0)) s = ((n, b), s') \<Longrightarrow> length (take n b) = n"
  using zeroed by auto

text \<open>The buffer is determined by the bytes that were read.\<close>

lemma buffer_eq: "run_state (rd a (replicate len 0)) s = ((n, b), s') \<Longrightarrow> b = take n b @ replicate (len - n) 0"
  using zeroed by (metis append_take_drop_id)

end

lemma pagedRead_Nil [simp]: "pagedRead rd ps cur [] s = ([], s)"
  by (simp add: pagedRead.simps)

lemma pagedRead_stop:
  assumes "buf \<noteq> []" "chunk = min (length buf) (ps - page_offset ps cur)"
    "run_state (rd cur (take chunk buf)) s = (r, s')" "take chunk r = [] \<or> length (take chunk r) < chunk"
  shows "pagedRead rd ps cur buf s = (take chunk r, s')"
  unfolding pagedRead.simps [of rd ps cur buf s] Let_def assms(2) [symmetric] assms(3) prod.case
    if_not_P [OF assms(1)] if_P [OF assms(4)] ..

lemma pagedRead_step:
  assumes "buf \<noteq> []" "chunk = min (length buf) (ps - page_offset ps cur)"
    "run_state (rd cur (take chunk buf)) s = (r, s')" "\<not> (take chunk r = [] \<or> length (take chunk r) < chunk)"
  shows "pagedRead rd ps cur buf s =
    (case pagedRead rd ps (cur + of_nat chunk) (drop chunk buf) s' of (rest, s'') \<Rightarrow> (take chunk r @ rest, s''))"
  unfolding pagedRead.simps [of rd ps cur buf s] Let_def assms(2) [symmetric] assms(3) prod.case
    if_not_P [OF assms(1)] if_not_P [OF assms(4)] ..

lemma pagedRead_length: "pagedRead rd ps cur buf s = (got, s') \<Longrightarrow> length got \<le> length buf"
proof (induction "length buf" arbitrary: cur buf s got s' rule: less_induct)
  case less
  let ?chunk = "min (length buf) (ps - page_offset ps cur)"
  obtain r s1 where r: "run_state (rd cur (take ?chunk buf)) s = (r, s1)" by force
  consider "buf = []" | "buf \<noteq> []" "take ?chunk r = [] \<or> length (take ?chunk r) < ?chunk"
    | "buf \<noteq> []" "\<not> (take ?chunk r = [] \<or> length (take ?chunk r) < ?chunk)" by blast
  then show ?case
  proof cases
    case 1
    with less.prems show ?thesis by simp
  next
    case 2
    then have "got = take ?chunk r" using pagedRead_stop [of buf ?chunk ps cur rd, OF 2(1) refl r 2(2)] less.prems by simp
    then show ?thesis by simp
  next
    case 3
    obtain rest s2 where rest: "pagedRead rd ps (cur + of_nat ?chunk) (drop ?chunk buf) s1 = (rest, s2)" by force
    have "got = take ?chunk r @ rest" using pagedRead_step [of buf ?chunk ps cur rd, OF 3(1) refl r 3(2)] less.prems rest by simp
    moreover have "length rest \<le> length (drop ?chunk buf)"
      using 3 by (intro less.hyps [OF _ rest]) auto
    moreover have "length (take ?chunk r) \<le> ?chunk" by (simp only: length_take min.cobounded2)
    moreover have "length (drop ?chunk buf) + ?chunk \<le> length buf" by simp
    ultimately have "length (take ?chunk r @ rest) \<le> length buf" unfolding length_append by linarith
    then show ?thesis using \<open>got = take ?chunk r @ rest\<close> by (simp only:)
  qed
qed

lemma filled_shape:
  "length got \<le> length buf \<Longrightarrow> filled buf got = (n, b) \<Longrightarrow>
     n \<le> length buf \<and> length b = length buf \<and> drop n b = replicate (length buf - n) 0"
  by (auto simp: filled_def)

lemma sys_Read_shape:
  assumes "run_state (sys_Read os pid a buf) k = ((n, b), k')"
  shows "n \<le> length buf \<and> length b = length buf \<and> drop n b = replicate (length buf - n) 0"
proof (cases "buf = []")
  case True
  with assms show ?thesis by (simp add: sys_Read_def)
next
  case False
  show ?thesis
  proof (cases "sys_pageCount os a (length buf) = 1")
    case True
    obtain r k1 where "run_state (sys_chunk os pid a buf) k = (r, k1)" by force
    with assms False True have "filled buf (take (length buf) r) = (n, b)" by (simp add: sys_Read_def)
    then show ?thesis by (rule filled_shape [rotated]) simp
  next
    case several: False
    obtain got k1 where got: "pagedRead (sys_chunk os pid) (os_pagesize os) a buf k = (got, k1)" by force
    with assms False several have "filled buf got = (n, b)" by (simp add: sys_Read_def)
    then show ?thesis by (rule filled_shape [OF pagedRead_length [OF got]])
  qed
qed

lemma kern_Read_shape:
  assumes "run_state (kern_Read os handle a (replicate len 0)) d = ((n, b), d')"
  shows "n \<le> len \<and> length b = len \<and> drop n b = replicate (len - n) 0"
proof (cases "a = 0 \<or> replicate len (0 :: u8) = [] \<or> handle = 0")
  case True
  with assms show ?thesis by (auto simp: kern_Read_def)
next
  case False
  obtain got d1 where got: "pagedRead (kern_chunk os handle) (os_pagesize os) a (replicate len 0) d = (got, d1)" by force
  with assms False have "filled (replicate len 0) got = (n, b)" by (simp add: kern_Read_def)
  from filled_shape [OF pagedRead_length [OF got] this] show ?thesis by simp
qed

interpretation sys: prefix_reader "sys_Read os pid" for os pid
  by unfold_locales (drule sys_Read_shape, simp)

interpretation kern: prefix_reader "kern_Read os handle" for os handle
  by unfold_locales (rule kern_Read_shape)

interpretation mem: prefix_reader "mem_Read os" for os
proof
  fix a len s n b s'
  assume "run_state (mem_Read os a (replicate len 0)) s = ((n, b), s')"
  then show "n \<le> len \<and> length b = len \<and> drop n b = replicate (len - n) 0"
    by (auto simp: mem_Read_def virtual_def on_os_def on_driver_def on_kernel_def
        split: if_splits prod.splits dest: sys.zeroed kern.zeroed)
qed

section \<open>Reading what is readable\<close>

text \<open>
  The memory of a process as a partial function: \<open>readable_prefix m a n\<close> are the bytes at \<open>a\<close>, \<open>a + 1\<close>, \<dots> up to the first address
  that cannot be read, at most \<open>n\<close> of them.
\<close>

fun readable_prefix :: "(u64 \<Rightarrow> u8 option) \<Rightarrow> u64 \<Rightarrow> nat \<Rightarrow> bytes" where
  "readable_prefix m a 0 = []"
| "readable_prefix m a (Suc n) = (case m a of None \<Rightarrow> [] | Some b \<Rightarrow> b # readable_prefix m (a + 1) n)"

lemma length_readable_prefix: "length (readable_prefix m a n) \<le> n"
  by (induction n arbitrary: a) (auto split: option.splits)

lemma readable_prefix_split:
  "readable_prefix m a (k + n) =
     (if length (readable_prefix m a k) < k then readable_prefix m a k
      else readable_prefix m a k @ readable_prefix m (a + of_nat k) n)"
proof (induction k arbitrary: a)
  case (Suc k)
  show ?case
  proof (cases "m a")
    case (Some b)
    have "a + 1 + of_nat k = a + of_nat (Suc k)" by simp
    with Suc [of "a + 1"] Some show ?thesis by (simp add: add.assoc)
  qed simp
qed simp

lemma readable_prefix_area:
  "(\<forall>i < length bs. m (a + of_nat i) = Some (bs ! i)) \<Longrightarrow> readable_prefix m a (length bs) = bs"
proof (induction bs arbitrary: a)
  case (Cons b bs)
  have "m a = Some b" using Cons.prems by force
  moreover have "\<forall>i < length bs. m (a + 1 + of_nat i) = Some (bs ! i)"
  proof (intro allI impI)
    fix i assume "i < length bs"
    with Cons.prems have "m (a + of_nat (Suc i)) = Some ((b # bs) ! Suc i)" by (metis Suc_less_eq length_Cons)
    then show "m (a + 1 + of_nat i) = Some (bs ! i)" by (simp add: add.assoc)
  qed
  ultimately show ?case using Cons.IH by simp
qed simp

text \<open>
  What the loop needs of the call that reads one chunk: within a page it gets what is readable there. \<open>P\<close> describes the
  states in which the memory is \<open>m\<close>.
\<close>

definition chunk_reader ::
    "(u64 \<Rightarrow> bytes \<Rightarrow> ('s, bytes) state) \<Rightarrow> nat \<Rightarrow> (u64 \<Rightarrow> u8 option) \<Rightarrow> ('s \<Rightarrow> bool) \<Rightarrow> bool" where
  "chunk_reader rd ps m P \<longleftrightarrow> (\<forall>a buf s r s'. P s \<and> a \<noteq> 0 \<and> buf \<noteq> [] \<and> page_offset ps a + length buf \<le> ps \<and>
     run_state (rd a buf) s = (r, s') \<longrightarrow> P s' \<and> take (length buf) r = readable_prefix m a (length buf))"

lemma page_offset_less:
  assumes "0 < ps" "ps < 2 ^ 64"
  shows "page_offset ps a < ps"
proof -
  have "unat (of_nat ps - 1 :: u64) = ps - 1"
    using assms by (subst unat_minus_one) (simp_all add: unsigned_of_nat take_bit_nat_eq_self word_of_nat_eq_0_iff nat_dvd_not_less)
  moreover have "and a (of_nat ps - 1) \<le> of_nat ps - 1" by (rule word_and_le1)
  ultimately show ?thesis using assms(1) by (simp add: page_offset_def word_le_nat_alt)
qed

text \<open>The loop reads exactly the readable prefix, over any number of pages.\<close>

lemma pagedRead_prefix:
  assumes reader: "chunk_reader rd ps m P" and ps: "0 < ps" "ps < 2 ^ 64"
    and nonzero: "unat cur + length buf \<le> 2 ^ 64" "cur \<noteq> 0"
  shows "P s \<Longrightarrow> pagedRead rd ps cur buf s = (got, s') \<Longrightarrow> P s' \<and> got = readable_prefix m cur (length buf)"
  using nonzero
proof (induction "length buf" arbitrary: cur buf s got s' rule: less_induct)
  case less
  show ?case
  proof (cases "buf = []")
    case True
    with less.prems show ?thesis by simp
  next
    case False
    define chunk where chunk: "chunk = min (length buf) (ps - page_offset ps cur)"
    have off: "page_offset ps cur < ps" by (rule page_offset_less [OF ps])
    with False have pos: "0 < chunk" by (simp add: chunk)
    obtain r s1 where r: "run_state (rd cur (take chunk buf)) s = (r, s1)" by force
    have len: "length (take chunk buf) = chunk" by (simp add: chunk)
    have "P s1 \<and> take (length (take chunk buf)) r = readable_prefix m cur (length (take chunk buf))"
      using reader less.prems(1,4) r off pos False len unfolding chunk_reader_def
      by (metis (no_types, lifting) chunk le_add_diff_inverse2 length_greater_0_conv less_or_eq_imp_le
          min.cobounded2 nat_add_left_cancel_le add.commute)
    then have s1: "P s1" and got1: "take chunk r = readable_prefix m cur chunk" unfolding len by auto
    let ?stop = "take chunk r = [] \<or> length (take chunk r) < chunk"
    have split: "readable_prefix m cur (length buf) =
        (if ?stop then take chunk r else take chunk r @ readable_prefix m (cur + of_nat chunk) (length buf - chunk))"
    proof -
      have "length buf = chunk + (length buf - chunk)" by (simp add: chunk)
      then have "readable_prefix m cur (length buf) = readable_prefix m cur (chunk + (length buf - chunk))" by simp
      also have "\<dots> = (if length (readable_prefix m cur chunk) < chunk then readable_prefix m cur chunk
          else readable_prefix m cur chunk @ readable_prefix m (cur + of_nat chunk) (length buf - chunk))"
        by (rule readable_prefix_split)
      finally show ?thesis using pos unfolding got1 by auto
    qed
    show ?thesis
    proof (cases ?stop)
      case True
      with pagedRead_stop [of buf chunk ps cur rd, OF False chunk r] less.prems(2) split s1 show ?thesis by simp
    next
      case go: False
      obtain rest s2 where rest: "pagedRead rd ps (cur + of_nat chunk) (drop chunk buf) s1 = (rest, s2)" by force
      with pagedRead_step [of buf chunk ps cur rd, OF False chunk r go] less.prems(2)
      have got: "got = take chunk r @ rest" "s' = s2" by simp_all
      show ?thesis
      proof (cases "drop chunk buf = []")
        case True
        with rest got s1 split go show ?thesis by simp
      next
        case more: False
        have less_len: "chunk < length buf" using more by simp
        then have sum: "unat cur + chunk < 2 ^ 64" using less.prems(3) by linarith
        then have unat: "unat (cur + of_nat chunk) = unat cur + chunk"
          by (simp add: unat_word_ariths unsigned_of_nat take_bit_eq_mod)
        have "P s2 \<and> rest = readable_prefix m (cur + of_nat chunk) (length (drop chunk buf))"
        proof (rule less.hyps [OF _ s1 rest])
          show "length (drop chunk buf) < length buf" using pos False by simp
          show "unat (cur + of_nat chunk) + length (drop chunk buf) \<le> 2 ^ 64"
            unfolding unat using less.prems(3) less_len by simp
          show "cur + of_nat chunk \<noteq> 0" using unat pos by (metis add_is_0 not_less_zero unsigned_0)
        qed
        with got split go show ?thesis by simp
      qed
    qed
  qed
qed

text \<open>The short cut of \<open>AndroidMemorySys::Read\<close> for one page is the loop: a range on one page is one chunk.\<close>

lemma page_offset_mod:
  assumes "p < 64"
  shows "page_offset (2 ^ p) a = unat a mod 2 ^ p"
proof -
  have "and a (of_nat (2 ^ p) - 1) = take_bit p a"
    by (simp add: take_bit_eq_mask mask_eq_exp_minus_1)
  then have "page_offset (2 ^ p) a = unat (take_bit p a)" by (simp only: page_offset_def)
  also have "\<dots> = take_bit p (unat a)" using assms by (simp only: unsigned_take_bit_eq)
  finally show ?thesis by (simp only: take_bit_eq_mod)
qed

lemma one_page:
  assumes p: "p < 64" and len: "0 < len" "unat a + len \<le> 2 ^ 64"
    and one: "sys_pageCount os a len = 1" and ps: "os_pagesize os = 2 ^ p"
  shows "page_offset (2 ^ p) a + len \<le> 2 ^ p"
proof -
  let ?m = "2 ^ p - 1 :: u64"
  let ?b = "a + of_nat len - 1"
  have unat_b: "unat ?b = unat a + (len - 1)"
  proof -
    have "?b = a + of_nat (len - 1)" using len(1) by (simp add: of_nat_diff)
    moreover have "unat (of_nat (len - 1) :: u64) = len - 1"
      by (subst unsigned_of_nat) (use len in \<open>simp add: take_bit_nat_eq_self\<close>)
    moreover have "unat a + (len - 1) < 2 ^ 64" using len by linarith
    ultimately show ?thesis using unat_word_ariths(1) [of a "of_nat (len - 1)"] by (simp only:) simp
  qed
  let ?d = "and ?b (not ?m) - and a (not ?m)"
  have masked: "unat (and x (not ?m)) = unat x - unat x mod 2 ^ p" for x :: u64
  proof -
    have "and x (not ?m) = x - take_bit p x"
    proof -
      have "and x (not ?m) = push_bit p (drop_bit p x)"
        by (rule bit_eqI) (auto simp: bit_push_bit_iff bit_drop_bit_eq bit_and_iff bit_not_iff
            mask_eq_exp_minus_1 [symmetric] bit_mask_iff dest: bit_imp_le_length)
      then show ?thesis using bits_ident [of p x] by (metis add_diff_cancel_right')
    qed
    moreover have "take_bit p x \<le> x" by (simp add: take_bit_eq_mask word_and_le2)
    ultimately show ?thesis by (simp only: unat_sub unsigned_take_bit_eq) (simp only: take_bit_eq_mod)
  qed
  have le: "and a (not ?m) \<le> and ?b (not ?m)"
    unfolding word_le_nat_alt masked unat_b
    by (metis div_le_mono le_add1 minus_mod_eq_div_mult mult_le_mono1)
  have "unat ?d div 2 ^ p = 0"
    using one ps by (simp add: sys_pageCount_def Let_def)
  then have "unat ?d < 2 ^ p" by (simp add: div_eq_0_iff)
  moreover have "unat ?d = (unat ?b div 2 ^ p - unat a div 2 ^ p) * 2 ^ p"
    by (simp only: unat_sub [OF le] masked minus_mod_eq_div_mult diff_mult_distrib)
  ultimately have "unat ?b div 2 ^ p \<le> unat a div 2 ^ p" by (cases "unat ?b div 2 ^ p - unat a div 2 ^ p") auto
  then have "unat a + (len - 1) < (unat a div 2 ^ p + 1) * 2 ^ p"
    unfolding unat_b by (metis add.commute div_less_iff_less_mult less_Suc_eq_le plus_1_eq_Suc zero_less_numeral zero_less_power)
  moreover have "unat a = unat a div 2 ^ p * 2 ^ p + unat a mod 2 ^ p" by (simp only: div_mult_mod_eq)
  ultimately show ?thesis unfolding page_offset_mod [OF p] add_mult_distrib mult_1 using len(1) by linarith
qed

section \<open>Both implementations read what is readable\<close>

text \<open>
  What the two sources of memory have to do: within one page, \<open>process_vm_readv\<close> and the driver's read command deliver the bytes up to the
  first one that cannot be read. \<open>P\<close> describes the states of the kernel in which the process has the memory \<open>m\<close>.
\<close>

definition vm_reads :: "'k Os \<Rightarrow> int \<Rightarrow> (u64 \<Rightarrow> u8 option) \<Rightarrow> ('k \<Rightarrow> bool) \<Rightarrow> bool" where
  "vm_reads os pid m P \<longleftrightarrow> (\<forall>a n k r k'. P k \<and> a \<noteq> 0 \<and> 0 < n \<and> page_offset (os_pagesize os) a + n \<le> os_pagesize os \<and>
     run_state (os_vm_readv os pid a n) k = (r, k') \<longrightarrow>
     P k' \<and> take n (case r of None \<Rightarrow> [] | Some d \<Rightarrow> d) = readable_prefix m a n)"

definition ni_reads :: "'k Os \<Rightarrow> int \<Rightarrow> int \<Rightarrow> (u64 \<Rightarrow> u8 option) \<Rightarrow> ('k \<Rightarrow> bool) \<Rightarrow> bool" where
  "ni_reads os fd pid m P \<longleftrightarrow> (\<forall>a buf k ret err pkt user k'. P k \<and> a \<noteq> 0 \<and> buf \<noteq> [] \<and>
     page_offset (os_pagesize os) a + length buf \<le> os_pagesize os \<and>
     run_state (os_read os fd
       (ni_header NI_CMD_READ_PROCESS_MEMORY (of_int pid) a 0 (of_nat (length buf)) @ buf) []) k =
       ((ret, err, pkt, user), k') \<longrightarrow>
     P k' \<and> length pkt = 40 + length buf \<and>
     (if ret > 0 then take (nat ret) (drop 40 pkt) else []) = readable_prefix m a (length buf))"

lemma sys_chunk_reader:
  "vm_reads os pid m P \<Longrightarrow> chunk_reader (sys_chunk os pid) (os_pagesize os) m P"
  unfolding chunk_reader_def
proof (intro allI impI, elim conjE)
  fix a buf k r k'
  assume "vm_reads os pid m P" "P k" "a \<noteq> 0" "buf \<noteq> []"
    "page_offset (os_pagesize os) a + length buf \<le> os_pagesize os" "run_state (sys_chunk os pid a buf) k = (r, k')"
  moreover then obtain d where "run_state (os_vm_readv os pid a (length buf)) k = (d, k')"
    "r = (case d of None \<Rightarrow> [] | Some data \<Rightarrow> data)"
    by (auto simp: sys_chunk_def split: prod.splits)
  moreover have "0 < length buf" using \<open>buf \<noteq> []\<close> by simp
  ultimately show "P k' \<and> take (length buf) r = readable_prefix m a (length buf)"
    unfolding vm_reads_def by blast
qed

lemma sys_Read_prefix:
  assumes reads: "vm_reads os pid m P" and ps: "os_pagesize os = 2 ^ p" "p < 64"
    and P: "P k" and a: "a \<noteq> 0" "unat a + length buf \<le> 2 ^ 64"
    and run: "run_state (sys_Read os pid a buf) k = (r, k')"
  shows "P k' \<and> r = filled buf (readable_prefix m a (length buf))"
proof (cases "buf = []")
  case True
  with run P show ?thesis by (simp add: sys_Read_def filled_def)
next
  case False
  note reader = sys_chunk_reader [OF reads]
  show ?thesis
  proof (cases "sys_pageCount os a (length buf) = 1")
    case True
    obtain d k1 where d: "run_state (sys_chunk os pid a buf) k = (d, k1)" by force
    have "page_offset (os_pagesize os) a + length buf \<le> os_pagesize os"
      using one_page [OF ps(2) _ a(2) True ps(1)] False ps(1) by simp
    with reader d P a False have "P k1 \<and> take (length buf) d = readable_prefix m a (length buf)"
      unfolding chunk_reader_def by blast
    with run d False True show ?thesis by (simp add: sys_Read_def)
  next
    case several: False
    obtain got k1 where got: "pagedRead (sys_chunk os pid) (os_pagesize os) a buf k = (got, k1)" by force
    have "P k1 \<and> got = readable_prefix m a (length buf)"
      using pagedRead_prefix [OF reader _ _ a(2,1) P got] ps
      by (simp add: power_strict_increasing_iff [of "2 :: nat" p 64, simplified])
    with run got False several show ?thesis by (simp add: sys_Read_def)
  qed
qed

lemma kern_chunk_reader:
  assumes "ni_reads os fd (uint handle) m P" "0 \<le> fd" "IsValidPidHandle handle"
  shows "chunk_reader (kern_chunk os handle) (os_pagesize os) m (\<lambda>d. kd_ni d = Some fd \<and> P (kd_kernel d))"
  unfolding chunk_reader_def
proof (intro allI impI, elim conjE)
  fix a buf d r d'
  assume d: "kd_ni d = Some fd" "P (kd_kernel d)" and a: "a \<noteq> 0" "buf \<noteq> []"
    and page: "page_offset (os_pagesize os) a + length buf \<le> os_pagesize os"
    and run: "run_state (kern_chunk os handle a buf) d = (r, d')"
  let ?pkt = "ni_header NI_CMD_READ_PROCESS_MEMORY (of_int (uint handle)) a 0 (of_nat (length buf)) @ buf"
  obtain ret err pkt user k' where os: "run_state (os_read os fd ?pkt []) (kd_kernel d) = ((ret, err, pkt, user), k')"
    by (metis prod.exhaust)
  from assms(1) d(2) a page os have contract: "P k'" "length pkt = 40 + length buf"
    "(if ret > 0 then take (nat ret) (drop 40 pkt) else []) = readable_prefix m a (length buf)"
    unfolding ni_reads_def by blast+
  have "overlay ?pkt pkt = pkt" using contract(2) by (simp add: overlay_same_length)
  then have "r = (if ret > 0 then take (nat ret) (drop 40 pkt) else [])" "d' = d\<lparr>kd_kernel := k'\<rparr>"
    using run d(1) assms(2,3) a os
    by (auto simp: kern_chunk_def drv_ReadMemory_def with_driver_def driverLocked_def on_kernel_def
        ni_read_memory_def ni_cmd_def Let_def)
  with contract d(1) show "(kd_ni d' = Some fd \<and> P (kd_kernel d')) \<and> take (length buf) r = readable_prefix m a (length buf)"
    using length_readable_prefix [of m a "length buf"] by simp
qed

lemma kern_Read_prefix:
  assumes reads: "ni_reads os fd (uint handle) m P" "0 \<le> fd" "IsValidPidHandle handle"
    and ps: "os_pagesize os = 2 ^ p" "p < 64"
    and d: "kd_ni d = Some fd" "P (kd_kernel d)" and a: "a \<noteq> 0" "unat a + length buf \<le> 2 ^ 64"
    and run: "run_state (kern_Read os handle a buf) d = (r, d')"
  shows "kd_ni d' = Some fd \<and> P (kd_kernel d') \<and> r = filled buf (readable_prefix m a (length buf))"
proof (cases "buf = []")
  case True
  with run d show ?thesis by (simp add: kern_Read_def filled_def)
next
  case False
  have handle: "handle \<noteq> 0" using reads(3) by (auto simp: IsValidPidHandle_def)
  obtain got d1 where got: "pagedRead (kern_chunk os handle) (os_pagesize os) a buf d = (got, d1)" by force
  have "(kd_ni d1 = Some fd \<and> P (kd_kernel d1)) \<and> got = readable_prefix m a (length buf)"
    using pagedRead_prefix [OF kern_chunk_reader [OF reads] _ _ a(2,1) _ got] d ps
    by (simp add: power_strict_increasing_iff [of "2 :: nat" p 64, simplified])
  with run got False a(1) handle show ?thesis by (simp add: kern_Read_def)
qed

text \<open>The memory that an engine in state \<open>s\<close> reaches, through whichever class \<open>g_memIO\<close> is.\<close>

definition device_memory :: "'k Os \<Rightarrow> ('k \<Rightarrow> bool) \<Rightarrow> (u64 \<Rightarrow> u8 option) \<Rightarrow> 'k Engine \<Rightarrow> bool" where
  "device_memory os P m s \<longleftrightarrow> P (kd_kernel (en_driver s)) \<and>
     (if mio_type (en_memIO s) = MemType_Kernel
      then IsValidPidHandle (mio_handle (en_memIO s)) \<and>
        (case kd_ni (en_driver s) of None \<Rightarrow> False
         | Some fd \<Rightarrow> 0 \<le> fd \<and> ni_reads os fd (uint (mio_handle (en_memIO s))) m P)
      else vm_reads os (mio_pid (en_memIO s)) m P)"

lemma mem_Read_prefix:
  assumes mem: "device_memory os P m s" and ps: "os_pagesize os = 2 ^ p" "p < 64"
    and a: "a \<noteq> 0" "unat a + length buf \<le> 2 ^ 64"
    and run: "run_state (mem_Read os a buf) s = (r, s')"
  shows "r = filled buf (readable_prefix m a (length buf)) \<and> device_memory os P m s' \<and> en_memIO s' = en_memIO s"
proof (cases "mio_type (en_memIO s) = MemType_Kernel")
  case True
  with mem obtain fd where fd: "kd_ni (en_driver s) = Some fd" "0 \<le> fd"
    "ni_reads os fd (uint (mio_handle (en_memIO s))) m P" "IsValidPidHandle (mio_handle (en_memIO s))"
    and P: "P (kd_kernel (en_driver s))"
    by (auto simp: device_memory_def split: option.splits)
  obtain d' where d': "run_state (kern_Read os (mio_handle (en_memIO s)) a buf) (en_driver s) = (r, d')"
    "s' = s\<lparr>en_driver := d'\<rparr>"
    using run True by (auto simp: mem_Read_def virtual_def on_driver_def split: prod.splits)
  from kern_Read_prefix [OF fd(3,2,4) ps fd(1) P a d'(1)] d'(2) True fd show ?thesis
    by (simp add: device_memory_def)
next
  case False
  with mem have vm: "vm_reads os (mio_pid (en_memIO s)) m P" "P (kd_kernel (en_driver s))"
    by (auto simp: device_memory_def)
  obtain k' where k': "run_state (sys_Read os (mio_pid (en_memIO s)) a buf) (kd_kernel (en_driver s)) = (r, k')"
    "s' = s\<lparr>en_driver := (en_driver s)\<lparr>kd_kernel := k'\<rparr>\<rparr>"
    using run False by (auto simp: mem_Read_def virtual_def on_os_def on_driver_def on_kernel_def split: prod.splits)
  from sys_Read_prefix [OF vm(1) ps vm(2) a k'(1)] k'(2) False vm show ?thesis
    by (simp add: device_memory_def)
qed

end
