(* ===== verification/ElfScanner.thy ===== *)
theory ElfScanner
  imports MemoryOp
begin

text \<open>
  The symbols of a loaded module, from \<open>engine/android/AndroidElfScanner.hpp\<close>: the headers, the dynamic table, the symbol table and the
  string table are read out of the memory of the process; when this yields no symbol at all, the file of the module is read instead.

  \<open>Undefined\<close> stands for an access outside a buffer and for a loop that never ends. A vector that the sources resize is assumed to get its
  memory. Sizes and addresses are \<open>uint64_t\<close> values and wrap; the length of a buffer is the natural number of such a value.
\<close>

section \<open>Data\<close>

datatype 'a Outcome = Undefined | Done 'a

record Elf64_Phdr =
  p_type :: u32
  p_vaddr :: u64
  p_memsz :: u64

record Elf64_Dyn =
  d_tag :: u64
  d_val :: u64

record ElfScanner =
  es_elfBase :: u64
  es_phoff :: u64
  es_phnum :: nat
  es_phdrs :: "Elf64_Phdr list"
  es_dynamics :: "Elf64_Dyn list"
  es_loadBias :: u64
  es_loadSize :: u64
  es_stringTable :: u64
  es_symbolTable :: u64
  es_stringTableSize :: u64
  es_symbolEntrySize :: u64
  es_baseSegment :: ProcessMap
  es_segments :: "ProcessMap list"
  es_symbols :: "(u64 \<times> string) list"
  es_symbolsInitialized :: bool

definition ElfScanner_new :: "u64 \<Rightarrow> ElfScanner" where
  "ElfScanner_new base = \<lparr>es_elfBase = base, es_phoff = 0, es_phnum = 0, es_phdrs = [], es_dynamics = [], es_loadBias = 0,
     es_loadSize = 0, es_stringTable = 0, es_symbolTable = 0, es_stringTableSize = 0, es_symbolEntrySize = 0,
     es_baseSegment = ProcessMap_new, es_segments = [], es_symbols = [], es_symbolsInitialized = False\<rparr>"

abbreviation "PT_LOAD \<equiv> 1 :: u32"
abbreviation "PT_DYNAMIC \<equiv> 2 :: u32"
abbreviation "DT_HASH \<equiv> 4 :: u64"
abbreviation "DT_STRTAB \<equiv> 5 :: u64"
abbreviation "DT_SYMTAB \<equiv> 6 :: u64"
abbreviation "DT_STRSZ \<equiv> 10 :: u64"
abbreviation "DT_SYMENT \<equiv> 11 :: u64"
abbreviation "DT_GNU_HASH \<equiv> 0x6ffffef5 :: u64"

abbreviation ELFMAG :: bytes where
  "ELFMAG \<equiv> [0x7f, 0x45, 0x4c, 0x46]"

section \<open>Reading the headers\<close>

definition ReadFull :: "'k Os \<Rightarrow> u64 \<Rightarrow> nat \<Rightarrow> ('k, bytes option) engine" where
  "ReadFull os addr len = do {
     (n, buf) \<leftarrow> mem_Read os addr (replicate len 0);
     State_Monad.return (if n = len then Some buf else None) }"

definition ParseElfHeader :: "'k Os \<Rightarrow> ElfScanner \<Rightarrow> ('k, ElfScanner option) engine" where
  "ParseElfHeader os e = do {
     h \<leftarrow> ReadFull os (es_elfBase e) 64;
     State_Monad.return (case h of None \<Rightarrow> None
       | Some ehdr \<Rightarrow> if take 4 ehdr \<noteq> ELFMAG then None
           else Some (e\<lparr>es_phoff := u64_at ehdr 32, es_phnum := u16_at ehdr 56\<rparr>)) }"

definition to_phdr :: "bytes \<Rightarrow> Elf64_Phdr" where
  "to_phdr b = \<lparr>p_type = u32_at b 0, p_vaddr = u64_at b 16, p_memsz = u64_at b 40\<rparr>"

definition load_phdrs :: "Elf64_Phdr list \<Rightarrow> Elf64_Phdr list" where
  "load_phdrs = filter (\<lambda>p. p_type p = PT_LOAD)"

definition minVaddr :: "Elf64_Phdr list \<Rightarrow> u64" where
  "minVaddr ps = fold (\<lambda>p m. if p_vaddr p < m then p_vaddr p else m) (load_phdrs ps) UINT64_MAX"

definition maxEnd :: "Elf64_Phdr list \<Rightarrow> u64" where
  "maxEnd ps = fold (\<lambda>p m. if p_vaddr p + p_memsz p > m then p_vaddr p + p_memsz p else m) (load_phdrs ps) 0"

definition ParseProgramHeaders :: "'k Os \<Rightarrow> ElfScanner \<Rightarrow> ('k, ElfScanner option) engine" where
  "ParseProgramHeaders os e = do {
     h \<leftarrow> ReadFull os (es_elfBase e + es_phoff e) (es_phnum e * 56);
     State_Monad.return (case h of None \<Rightarrow> None
       | Some b \<Rightarrow>
           let phdrs = map to_phdr (items 56 (es_phnum e) b);
               loadSize = maxEnd phdrs - minVaddr phdrs in
           if load_phdrs phdrs = [] \<or> loadSize = 0 then None
           else Some (e\<lparr>es_phdrs := phdrs, es_loadBias := es_elfBase e - minVaddr phdrs, es_loadSize := loadSize\<rparr>)) }"

definition to_dyn :: "bytes \<Rightarrow> Elf64_Dyn" where
  "to_dyn b = \<lparr>d_tag = u64_at b 0, d_val = u64_at b 8\<rparr>"

definition takeDyn :: "Elf64_Dyn \<Rightarrow> ElfScanner \<Rightarrow> ElfScanner" where
  "takeDyn d e =
     (if d_tag d = DT_SYMTAB then e\<lparr>es_symbolTable := es_loadBias e + d_val d\<rparr>
      else if d_tag d = DT_STRTAB then e\<lparr>es_stringTable := es_loadBias e + d_val d\<rparr>
      else if d_tag d = DT_STRSZ then e\<lparr>es_stringTableSize := d_val d\<rparr>
      else if d_tag d = DT_SYMENT then e\<lparr>es_symbolEntrySize := d_val d\<rparr>
      else e)"

text \<open>
  The buffer of the dynamic table has room for whole entries, and \<open>p_memsz\<close> bytes are read into it: a size that is not a multiple of
  16 writes behind it.
\<close>

definition ParseDynamics :: "'k Os \<Rightarrow> ElfScanner \<Rightarrow> ('k, ElfScanner option Outcome) engine" where
  "ParseDynamics os e =
     (case List.find (\<lambda>p. p_type p = PT_DYNAMIC) (es_phdrs e) of
        None \<Rightarrow> State_Monad.return (Done None)
      | Some phdr \<Rightarrow>
          if unat (p_memsz phdr) mod 16 \<noteq> 0 then State_Monad.return Undefined
          else do {
            h \<leftarrow> ReadFull os (es_loadBias e + p_vaddr phdr) (unat (p_memsz phdr));
            State_Monad.return (Done (case h of None \<Rightarrow> None
              | Some b \<Rightarrow>
                  let dynamics = map to_dyn (items 16 (unat (p_memsz phdr) div 16) b);
                      e' = fold takeDyn dynamics (e\<lparr>es_dynamics := dynamics\<rparr>) in
                  if es_stringTable e' = 0 \<or> es_symbolTable e' = 0 \<or> es_stringTableSize e' = 0 \<or> es_symbolEntrySize e' = 0
                  then None else Some e')) })"

definition InitializeSegments :: "'k Os \<Rightarrow> ElfScanner \<Rightarrow> ('k, ElfScanner) engine" where
  "InitializeSegments os e = do {
     maps \<leftarrow> mem_GetProcessMaps os;
     let base = es_elfBase e;
     let elfEnd = base + es_loadSize e;
     let isBase = (\<lambda>m. pm_startAddress m \<le> base \<and> pm_endAddress m > base);
     State_Monad.return (e\<lparr>
       es_baseSegment := (case filter isBase maps of [] \<Rightarrow> es_baseSegment e | ms \<Rightarrow> last ms),
       es_segments := es_segments e @
         filter (\<lambda>m. isBase m \<or> (pm_startAddress m > base \<and> pm_startAddress m < elfEnd)) maps\<rparr>) }"

text \<open>\<open>Initialize\<close> on a new object: the object when it succeeds.\<close>

definition Initialize :: "'k Os \<Rightarrow> u64 \<Rightarrow> ('k, ElfScanner option Outcome) engine" where
  "Initialize os elfBase =
     (if elfBase = 0 then State_Monad.return (Done None)
      else do {
        h \<leftarrow> ParseElfHeader os (ElfScanner_new elfBase);
        case h of None \<Rightarrow> State_Monad.return (Done None)
        | Some e1 \<Rightarrow> do {
            p \<leftarrow> ParseProgramHeaders os e1;
            case p of None \<Rightarrow> State_Monad.return (Done None)
            | Some e2 \<Rightarrow> do {
                d \<leftarrow> ParseDynamics os e2;
                case d of Undefined \<Rightarrow> State_Monad.return Undefined
                | Done None \<Rightarrow> State_Monad.return (Done None)
                | Done (Some e3) \<Rightarrow> do {
                    e4 \<leftarrow> InitializeSegments os e3;
                    State_Monad.return (Done (Some e4)) }}}})"

definition elf_IsValid :: "ElfScanner \<Rightarrow> bool" where
  "elf_IsValid e \<longleftrightarrow> es_elfBase e \<noteq> 0 \<and> es_loadBias e \<noteq> 0 \<and> es_loadSize e \<noteq> 0"

section \<open>The number of symbols\<close>

text \<open>
  The chains of the GNU hash table, from the last bucket on, up to an entry whose lowest bit is set. \<open>None\<close> is a loop that never ends; otherwise the
  index of that entry, if all entries up to it could be read.
\<close>

partial_function (option) gnuChain ::
    "'k Os \<Rightarrow> u64 \<Rightarrow> u32 \<Rightarrow> u32 \<Rightarrow> 'k Engine \<Rightarrow> (u32 option \<times> 'k Engine) option" where
  "gnuChain os chainsAddr symoffset idx s =
     (case run_state (ReadFull os (chainsAddr + ucast (idx - symoffset) * 4) 4) s of
        (None, s') \<Rightarrow> Some (None, s')
      | (Some b, s') \<Rightarrow>
          if and (u32_at b 0) 1 \<noteq> 0 then Some (Some idx, s') else gnuChain os chainsAddr symoffset (idx + 1) s')"

definition maxBucket :: "u32 list \<Rightarrow> u32" where
  "maxBucket bs = fold (\<lambda>b m. if b > m then b else m) bs 0"

definition gnuBuckets :: "'k Os \<Rightarrow> u64 \<Rightarrow> u32 \<Rightarrow> ('k, u32 list option) engine" where
  "gnuBuckets os bucketsAddr nbuckets = do {
     h \<leftarrow> ReadFull os bucketsAddr (unat nbuckets * 4);
     State_Monad.return (case h of None \<Rightarrow> None | Some b \<Rightarrow> Some (map (\<lambda>w. u32_at w 0) (items 4 (unat nbuckets) b))) }"

definition GetGnuHashSymCount :: "'k Os \<Rightarrow> u64 \<Rightarrow> ('k, u64 Outcome) engine" where
  "GetGnuHashSymCount os gnuHashAddr = do {
     h \<leftarrow> ReadFull os gnuHashAddr 16;
     case h of None \<Rightarrow> State_Monad.return (Done 0)
     | Some b \<Rightarrow>
         let nbuckets = u32_at b 0; symoffset = u32_at b 4; bloom_size = u32_at b 8;
             bucketsAddr = gnuHashAddr + 16 + ucast bloom_size * 8 in
         if nbuckets = 0 then State_Monad.return (Done 0)
         else do {
           bs \<leftarrow> gnuBuckets os bucketsAddr nbuckets;
           case bs of None \<Rightarrow> State_Monad.return (Done 0)
           | Some buckets \<Rightarrow>
               if maxBucket buckets = 0 then State_Monad.return (Done (ucast symoffset))
               else State (\<lambda>s. case gnuChain os (bucketsAddr + ucast nbuckets * 4) symoffset (maxBucket buckets) s of
                   None \<Rightarrow> (Undefined, s)
                 | Some (None, s') \<Rightarrow> (Done 0, s')
                 | Some (Some idx, s') \<Rightarrow> (Done (ucast (idx + 1)), s')) }}"

definition hashSymCount :: "'k Os \<Rightarrow> ElfScanner \<Rightarrow> ('k, u64) engine" where
  "hashSymCount os e =
     (case List.find (\<lambda>d. d_tag d = DT_HASH) (es_dynamics e) of
        None \<Rightarrow> State_Monad.return 0
      | Some d \<Rightarrow> do {
          h \<leftarrow> ReadFull os (es_loadBias e + d_val d) 8;
          State_Monad.return (case h of None \<Rightarrow> 0 | Some b \<Rightarrow> ucast (u32_at b 4)) })"

definition symCount :: "'k Os \<Rightarrow> ElfScanner \<Rightarrow> ('k, u64 Outcome) engine" where
  "symCount os e = do {
     n \<leftarrow> hashSymCount os e;
     if n \<noteq> 0 then State_Monad.return (Done n)
     else do {
       g \<leftarrow> (case List.find (\<lambda>d. d_tag d = DT_GNU_HASH) (es_dynamics e) of
               None \<Rightarrow> State_Monad.return (Done 0)
             | Some d \<Rightarrow> GetGnuHashSymCount os (es_loadBias e + d_val d));
       State_Monad.return (case g of Undefined \<Rightarrow> Undefined
         | Done m \<Rightarrow> Done (if m = 0 \<and> es_stringTable e > es_symbolTable e \<and> es_symbolEntrySize e > 0
             then (es_stringTable e - es_symbolTable e) div es_symbolEntrySize e else m)) }}"

section \<open>Symbols\<close>

definition ShouldSkipSymbolName :: "string \<Rightarrow> bool" where
  "ShouldSkipSymbolName name \<longleftrightarrow> name = [] \<or> hd name = CHR ''$''"

definition GetReadableSymbolName :: "'k Os \<Rightarrow> string \<Rightarrow> string" where
  "GetReadableSymbolName os rawName =
     (if ShouldSkipSymbolName rawName then []
      else case os_demangle os rawName of Some name \<Rightarrow> name | None \<Rightarrow> rawName)"

text \<open>The name at an offset of a string table, which ends with a null byte.\<close>

definition name_at :: "bytes \<Rightarrow> nat \<Rightarrow> string" where
  "name_at strtab off = c_str (chars_of (drop off strtab))"

text \<open>
  The entry at an offset of the symbol table: the name is read first, and the value only if the name is in the string table. An entry that reaches
  behind the buffer is an access outside of it.
\<close>

definition symbolAt :: "'k Os \<Rightarrow> u64 \<Rightarrow> bytes \<Rightarrow> bytes \<Rightarrow> nat \<Rightarrow> nat \<Rightarrow> (u64 \<times> string) option Outcome" where
  "symbolAt os bias symtab strtab strsz off =
     (if off + 4 > length symtab then Undefined
      else
        let st_name = unat (u32_at symtab off) in
        if st_name \<ge> strsz then Done None
        else if off + 16 > length symtab then Undefined
        else
          let st_value = u64_at symtab (off + 8); name = GetReadableSymbolName os (name_at strtab st_name) in
          Done (if st_value = 0 \<or> name = [] then None else Some (bias + st_value, name)))"

fun collect :: "('x \<Rightarrow> 'a option Outcome) \<Rightarrow> 'x list \<Rightarrow> 'a list Outcome" where
  "collect f [] = Done []"
| "collect f (x # xs) = (case f x of Undefined \<Rightarrow> Undefined
     | Done r \<Rightarrow> (case collect f xs of Undefined \<Rightarrow> Undefined
         | Done rs \<Rightarrow> Done ((case r of None \<Rightarrow> [] | Some a \<Rightarrow> [a]) @ rs)))"

text \<open>The offsets \<open>0\<close>, \<open>entsize\<close>, \<open>2 * entsize\<close>, \<dots> below the size of the table.\<close>

definition symbolOffsets :: "nat \<Rightarrow> nat \<Rightarrow> nat list" where
  "symbolOffsets tabsize entsize = map (\<lambda>i. i * entsize) [0..<(tabsize + entsize - 1) div entsize]"

section \<open>The file of the module\<close>

definition GetElfPath :: "ElfScanner \<Rightarrow> string" where
  "GetElfPath e =
     (let absolute = (\<lambda>m. pm_pathname m \<noteq> [] \<and> hd (pm_pathname m) = CHR ''/'') in
      if absolute (es_baseSegment e) then pm_pathname (es_baseSegment e)
      else case List.find absolute (es_segments e) of Some m \<Rightarrow> pm_pathname m | None \<Rightarrow> [])"

text \<open>\<open>fseek\<close> to an offset, which fails for a negative one, and \<open>fread\<close> of exactly \<open>n\<close> bytes.\<close>

definition fread_at :: "bytes \<Rightarrow> u64 \<Rightarrow> nat \<Rightarrow> bytes option" where
  "fread_at f off n =
     (if sint off < 0 \<or> length (drop (unat off) f) < n then None else Some (take n (drop (unat off) f)))"

record Elf64_Shdr =
  sh_type :: u32
  sh_offset :: u64
  sh_size :: u64
  sh_link :: u32
  sh_entsize :: u64

definition to_shdr :: "bytes \<Rightarrow> Elf64_Shdr" where
  "to_shdr b = \<lparr>sh_type = u32_at b 4, sh_offset = u64_at b 24, sh_size = u64_at b 32, sh_link = u32_at b 40,
     sh_entsize = u64_at b 56\<rparr>"

text \<open>The section headers, and the symbol table with its string table.\<close>

definition file_sections :: "bytes \<Rightarrow> Elf64_Shdr list option" where
  "file_sections f =
     (if length f < 64 \<or> take 4 f \<noteq> ELFMAG \<or> u64_at f 40 = 0 \<or> u16_at f 60 = 0 then None
      else case fread_at f (u64_at f 40) (u16_at f 60 * 64) of None \<Rightarrow> None
        | Some b \<Rightarrow> Some (map to_shdr (items 64 (u16_at f 60) b)))"

definition file_tables :: "Elf64_Shdr list \<Rightarrow> (Elf64_Shdr \<times> Elf64_Shdr) option" where
  "file_tables shdrs =
     (case List.find (\<lambda>s. sh_type s = 2 \<and> unat (sh_link s) < length shdrs) shdrs of
        None \<Rightarrow> None
      | Some symtab \<Rightarrow>
          let strtab = shdrs ! unat (sh_link symtab) in
          if sh_entsize symtab = 0 \<or> sh_size strtab = 0 then None else Some (symtab, strtab))"

text \<open>One entry of the file; entries of files and sections are left out.\<close>

definition file_symbol :: "'k Os \<Rightarrow> u64 \<Rightarrow> bytes \<Rightarrow> nat \<Rightarrow> bytes \<Rightarrow> (u64 \<times> string) option" where
  "file_symbol os bias strtab strsz entry =
     (let st_name = unat (u32_at entry 0); symType = and (entry ! 4) 0xf; st_value = u64_at entry 8;
          name = GetReadableSymbolName os (name_at strtab st_name) in
      if st_name \<ge> strsz \<or> st_value = 0 \<or> symType = 4 \<or> symType = 3 \<or> name = [] then None
      else Some (bias + st_value, name))"

definition symbolKey :: "u64 \<times> string \<Rightarrow> string" where
  "symbolKey p = decimal (unat (fst p)) @ [newline] @ snd p"

text \<open>\<open>seen.insert(key).second\<close> decides whether the symbol is new.\<close>

fun addSymbols :: "(u64 \<times> string) option list \<Rightarrow> string list \<Rightarrow> (u64 \<times> string) list \<Rightarrow> (u64 \<times> string) list" where
  "addSymbols [] seen acc = acc"
| "addSymbols (None # ss) seen acc = addSymbols ss seen acc"
| "addSymbols (Some p # ss) seen acc =
     (if symbolKey p \<in> set seen then addSymbols ss seen acc
      else addSymbols ss (symbolKey p # seen) (acc @ [p]))"

text \<open>The entries that can be read, until the file ends.\<close>

definition file_entries :: "bytes \<Rightarrow> Elf64_Shdr \<Rightarrow> bytes list" where
  "file_entries f symtab =
     (let rest = drop (unat (sh_offset symtab)) f in
      items 24 (min (unat (sh_size symtab div sh_entsize symtab)) (length rest div 24)) rest)"

definition symbols_of_file :: "'k Os \<Rightarrow> u64 \<Rightarrow> bytes \<Rightarrow> (u64 \<times> string) list \<Rightarrow> (u64 \<times> string) list" where
  "symbols_of_file os bias f symbols =
     (case Option.bind (file_sections f) file_tables of
        None \<Rightarrow> symbols
      | Some (symtab, strtab) \<Rightarrow>
          (case fread_at f (sh_offset strtab) (unat (sh_size strtab)) of
             None \<Rightarrow> symbols
           | Some strs \<Rightarrow>
               if sh_size symtab div sh_entsize symtab = 0 \<or> sint (sh_offset symtab) < 0 then symbols
               else addSymbols
                 (map (file_symbol os bias (strs @ [0]) (unat (sh_size strtab))) (file_entries f symtab))
                 (map symbolKey symbols) symbols))"

definition LoadSymbolsFromFile :: "'k Os \<Rightarrow> ElfScanner \<Rightarrow> ('k, (u64 \<times> string) list) engine" where
  "LoadSymbolsFromFile os e =
     (if GetElfPath e = [] then State_Monad.return (es_symbols e)
      else do {
        contents \<leftarrow> on_os (os_readfile os (GetElfPath e));
        State_Monad.return (case contents of None \<Rightarrow> es_symbols e
          | Some f \<Rightarrow> symbols_of_file os (es_loadBias e) (bytes_of f) (es_symbols e)) })"

section \<open>The list of symbols\<close>

definition symbols_of_tables :: "'k Os \<Rightarrow> ElfScanner \<Rightarrow> bytes \<Rightarrow> bytes \<Rightarrow> (u64 \<times> string) list Outcome" where
  "symbols_of_tables os e symtab strtab =
     collect (symbolAt os (es_loadBias e) symtab (strtab @ [0]) (unat (es_stringTableSize e)))
       (symbolOffsets (length symtab) (unat (es_symbolEntrySize e)))"

text \<open>The tables are read once; later calls return the list that the first one found. A table that cannot be read is tried again.\<close>

definition memorySymbols :: "'k Os \<Rightarrow> ElfScanner \<Rightarrow> ('k, ((u64 \<times> string) list \<times> bool) Outcome) engine" where
  "memorySymbols os e =
     (if \<not> elf_IsValid e \<or> es_symbolTable e = 0 \<or> es_stringTable e = 0 then State_Monad.return (Done ([], False))
      else do {
        c \<leftarrow> symCount os e;
        case c of Undefined \<Rightarrow> State_Monad.return Undefined
        | Done n \<Rightarrow>
            let symtab_size = unat (n * es_symbolEntrySize e) in
            if symtab_size = 0 then State_Monad.return (Done ([], False))
            else do {
              a \<leftarrow> ReadFull os (es_symbolTable e) symtab_size;
              case a of None \<Rightarrow> State_Monad.return (Done ([], False))
              | Some symtab \<Rightarrow> do {
                  b \<leftarrow> ReadFull os (es_stringTable e) (unat (es_stringTableSize e));
                  State_Monad.return (case b of None \<Rightarrow> Done ([], False)
                    | Some strtab \<Rightarrow> (case symbols_of_tables os e symtab strtab of
                        Undefined \<Rightarrow> Undefined | Done l \<Rightarrow> Done (l, True))) }}})"

definition GetSymbols :: "'k Os \<Rightarrow> ElfScanner \<Rightarrow> ('k, ElfScanner Outcome) engine" where
  "GetSymbols os e =
     (if es_symbolsInitialized e then State_Monad.return (Done e)
      else do {
        r \<leftarrow> memorySymbols os (e\<lparr>es_symbols := []\<rparr>);
        case r of Undefined \<Rightarrow> State_Monad.return Undefined
        | Done (l, False) \<Rightarrow> State_Monad.return (Done (e\<lparr>es_symbols := l\<rparr>))
        | Done (l, True) \<Rightarrow> do {
            l' \<leftarrow> (if l = [] then LoadSymbolsFromFile os (e\<lparr>es_symbols := []\<rparr>) else State_Monad.return l);
            State_Monad.return (Done (e\<lparr>es_symbols := l', es_symbolsInitialized := True\<rparr>)) }})"

definition FindSymbol :: "'k Os \<Rightarrow> ElfScanner \<Rightarrow> string \<Rightarrow> ('k, u64 Outcome) engine" where
  "FindSymbol os e name = do {
     r \<leftarrow> GetSymbols os e;
     State_Monad.return (case r of Undefined \<Rightarrow> Undefined
       | Done e' \<Rightarrow> Done (case List.find (\<lambda>s. snd s = name) (es_symbols e') of None \<Rightarrow> 0 | Some s \<Rightarrow> fst s)) }"

end
