(* ===== verification/ServerState.thy ===== *)
theory ServerState
  imports ElfScanner PerfHwBreakpoint
begin

text \<open>
  The state of the Android server: the objects of \<open>engine/ceserver/api.h\<close>, the table of handles of \<open>engine/ceserver/porthelp.cpp\<close>
  and the global variables of \<open>engine/ceserver/api.cpp\<close>, with the engines for memory and breakpoints.

  A handle is a random number that the table maps to a pointer and a type; the operations cast the pointer to the class that
  the type stands for. Pointers are natural numbers and the heap is a map from pointers to objects, so that a pointer to a deleted object or to an object
  of another class is visible. The set \<open>dv_traps\<close> records that an operation left the defined behaviour of C++ or never returned, and in
  which way; with such an operation the model no longer says what the server does.
\<close>

section \<open>Objects\<close>

datatype handleType = htEmpty | htProcesHandle | htThreadHandle | htTHSProcess | htTHSModule | htNativeThreadHandle

datatype Trap = BadPointer | PastTheEnd | IntOverflow | OutOfBounds | NoReturn

record HANDLE_INFO =
  hn_p :: nat
  hn_type :: handleType

record ModuleListEntry =
  ml_type :: int
  ml_flag :: int
  ml_baseAddress :: u64
  ml_moduleSize :: u64
  ml_moduleName :: string

record CeOpenProcess =
  op_ReferenceCount :: int
  op_pid :: int
  op_mHwBpList :: "(u64 \<times> u64 list) list"
  op_mUxnBpList :: "(u64 \<times> u32) list"

definition CeOpenProcess_new :: "int \<Rightarrow> CeOpenProcess" where
  "CeOpenProcess_new pid = \<lparr>op_ReferenceCount = 0, op_pid = pid, op_mHwBpList = [], op_mUxnBpList = []\<rparr>"

text \<open>A snapshot is a list with the position of its iterator.\<close>

datatype HeapObject =
    OpenProcess CeOpenProcess
  | ProcessList "(int \<times> string) list" nat
  | ModuleList "ModuleListEntry list" nat

fun object_type :: "HeapObject \<Rightarrow> handleType" where
  "object_type (OpenProcess p) = htProcesHandle"
| "object_type (ProcessList l i) = htTHSProcess"
| "object_type (ModuleList l i) = htTHSModule"

record 'k Device =
  dv_engine :: "'k Engine"
  dv_kbp :: KBpTable
  dv_perf :: PerfTable
  dv_handles :: "(int \<times> HANDLE_INFO) list"
  dv_heap :: "nat \<rightharpoonup> HeapObject"
  dv_next :: nat
  dv_forceReclaim :: bool
  dv_pid :: int
  dv_tracer :: int
  dv_cachedSymbols :: "(u64 \<times> string) list"
  dv_cachedModuleBase :: u64
  dv_traps :: "Trap set"

type_synonym ('k, 'a) device = "('k Device, 'a) state"

definition Device_new :: "'k \<Rightarrow> 'k Device" where
  "Device_new k = \<lparr>dv_engine = \<lparr>en_driver = \<lparr>kd_ni = None, kd_hwbpHitTotals = Map.empty, kd_kernel = k\<rparr>, en_memIO = AndroidMemorySys_new\<rparr>,
     dv_kbp = KBpTable_new, dv_perf = PerfTable_new, dv_handles = [], dv_heap = Map.empty, dv_next = 1, dv_forceReclaim = False,
     dv_pid = 0, dv_tracer = 0, dv_cachedSymbols = [], dv_cachedModuleBase = 0, dv_traps = {}\<rparr>"

section \<open>Parts of the state\<close>

definition on_engine :: "('k, 'a) engine \<Rightarrow> ('k, 'a) device" where
  "on_engine = part dv_engine (\<lambda>e s. s\<lparr>dv_engine := e\<rparr>)"

definition put_driver :: "'k KDriver \<Rightarrow> 'k Device \<Rightarrow> 'k Device" where
  "put_driver d s = s\<lparr>dv_engine := (dv_engine s)\<lparr>en_driver := d\<rparr>\<rparr>"

definition the_driver :: "'k Device \<Rightarrow> 'k KDriver" where
  "the_driver s = en_driver (dv_engine s)"

definition on_kdriver :: "('k, 'a) driver \<Rightarrow> ('k, 'a) device" where
  "on_kdriver = part the_driver put_driver"

definition on_system :: "('k, 'a) state \<Rightarrow> ('k, 'a) device" where
  "on_system m = on_kdriver (on_kernel m)"

definition on_kbp :: "('k, 'a) kbp \<Rightarrow> ('k, 'a) device" where
  "on_kbp = part (\<lambda>s. (dv_kbp s, the_driver s)) (\<lambda>p s. put_driver (snd p) (s\<lparr>dv_kbp := fst p\<rparr>))"

definition on_perf :: "('k, 'a) perf \<Rightarrow> ('k, 'a) device" where
  "on_perf = part (\<lambda>s. (dv_perf s, kd_kernel (the_driver s)))
     (\<lambda>p s. put_driver ((the_driver s)\<lparr>kd_kernel := snd p\<rparr>) (s\<lparr>dv_perf := fst p\<rparr>))"

definition dv_update :: "('k Device \<Rightarrow> 'k Device) \<Rightarrow> ('k, unit) device" where
  "dv_update f = State_Monad.update f"

definition trap :: "Trap \<Rightarrow> 'a \<Rightarrow> ('k, 'a) device" where
  "trap t a = do { dv_update (\<lambda>s. s\<lparr>dv_traps := insert t (dv_traps s)\<rparr>); State_Monad.return a }"

section \<open>The heap\<close>

definition new_object :: "HeapObject \<Rightarrow> ('k, nat) device" where
  "new_object ob = do {
     s \<leftarrow> State_Monad.get;
     dv_update (\<lambda>s. s\<lparr>dv_heap := (dv_heap s)(dv_next s \<mapsto> ob), dv_next := dv_next s + 1\<rparr>);
     State_Monad.return (dv_next s) }"

text \<open>\<open>delete\<close> through a pointer of the class that belongs to the type \<open>t\<close>.\<close>

definition delete_object :: "handleType \<Rightarrow> nat \<Rightarrow> ('k, unit) device" where
  "delete_object t p = do {
     s \<leftarrow> State_Monad.get;
     case dv_heap s p of
       None \<Rightarrow> trap BadPointer ()
     | Some ob \<Rightarrow> if object_type ob = t then dv_update (\<lambda>s. s\<lparr>dv_heap := (dv_heap s)(p := None)\<rparr>) else trap BadPointer () }"

definition process_at :: "nat \<Rightarrow> ('k, CeOpenProcess) device" where
  "process_at p = do {
     s \<leftarrow> State_Monad.get;
     case dv_heap s p of
       Some (OpenProcess pd) \<Rightarrow> State_Monad.return pd
     | _ \<Rightarrow> trap BadPointer (CeOpenProcess_new 0) }"

definition put_process :: "nat \<Rightarrow> (CeOpenProcess \<Rightarrow> CeOpenProcess) \<Rightarrow> ('k, unit) device" where
  "put_process p f = do {
     s \<leftarrow> State_Monad.get;
     case dv_heap s p of
       Some (OpenProcess pd) \<Rightarrow> dv_update (\<lambda>s. s\<lparr>dv_heap := (dv_heap s)(p \<mapsto> OpenProcess (f pd))\<rparr>)
     | _ \<Rightarrow> trap BadPointer () }"

section \<open>Handles\<close>

definition handleOf :: "u32 \<Rightarrow> int" where
  "handleOf r = (let handle = sint (10000 + r div 1000) in if handle < 0 then - handle else handle)"

text \<open>The loop that draws until the handle is new; \<open>None\<close> if this never happens.\<close>

partial_function (option) drawHandle :: "'k Os \<Rightarrow> (int \<times> HANDLE_INFO) list \<Rightarrow> 'k \<Rightarrow> (int \<times> 'k) option" where
  "drawHandle os tab k =
     (case run_state (os_random os) k of (r, k') \<Rightarrow>
        if map_of tab (handleOf r) = None then Some (handleOf r, k') else drawHandle os tab k')"

definition CreateHandleFromPointer :: "'k Os \<Rightarrow> nat \<Rightarrow> handleType \<Rightarrow> ('k, int) device" where
  "CreateHandleFromPointer os p type = do {
     s \<leftarrow> State_Monad.get;
     case drawHandle os (dv_handles s) (kd_kernel (the_driver s)) of
       None \<Rightarrow> trap NoReturn 0
     | Some (handle, k) \<Rightarrow> do {
         dv_update (\<lambda>s. put_driver ((the_driver s)\<lparr>kd_kernel := k\<rparr>)
           (s\<lparr>dv_handles := om_emplace handle \<lparr>hn_p = p, hn_type = type\<rparr> (dv_handles s)\<rparr>));
         State_Monad.return handle }}"

definition GetHandleType :: "int \<Rightarrow> ('k, handleType) device" where
  "GetHandleType handle = do {
     s \<leftarrow> State_Monad.get;
     State_Monad.return (case map_of (dv_handles s) handle of None \<Rightarrow> htEmpty | Some info \<Rightarrow> hn_type info) }"

definition GetPointerFromHandle :: "int \<Rightarrow> ('k, nat) device" where
  "GetPointerFromHandle handle = do {
     s \<leftarrow> State_Monad.get;
     State_Monad.return (case map_of (dv_handles s) handle of None \<Rightarrow> 0 | Some info \<Rightarrow> hn_p info) }"

definition RemoveHandle :: "int \<Rightarrow> ('k, unit) device" where
  "RemoveHandle handle = dv_update (\<lambda>s. s\<lparr>dv_handles := om_del handle (dv_handles s)\<rparr>)"

fun findPid :: "int \<Rightarrow> (int \<times> HANDLE_INFO) list \<Rightarrow> ('k, int) device" where
  "findPid pid [] = State_Monad.return 0"
| "findPid pid ((handle, info) # rest) =
     (if hn_type info = htProcesHandle
      then do {
        pd \<leftarrow> process_at (hn_p info);
        if op_pid pd = pid then State_Monad.return handle else findPid pid rest }
      else findPid pid rest)"

definition FindHandleByPID :: "int \<Rightarrow> ('k, int) device" where
  "FindHandleByPID pid = do { s \<leftarrow> State_Monad.get; findPid pid (dv_handles s) }"

section \<open>Handles are new\<close>

text \<open>Every draw gives a positive handle: the branch for negative numbers is never taken.\<close>

lemma handleOf_range: "10000 \<le> handleOf r \<and> handleOf r \<le> 4304967"
proof -
  have "unat (r div 1000) = unat r div 1000" by (simp add: unat_div)
  moreover have "unat r < 2 ^ 32" using unsigned_less [of r, where ?'a = nat] by simp
  ultimately have q: "unat (r div 1000) \<le> 4294967" by simp
  then have n: "unat (10000 + r div 1000) = 10000 + unat (r div 1000)" by (simp add: unat_word_ariths)
  then have "int (unat (10000 + r div 1000)) = 10000 + int (unat (r div 1000))" by (simp only: of_nat_add of_nat_numeral)
  then have u: "uint (10000 + r div 1000) = 10000 + int (unat (r div 1000))" by (simp only: uint_nat)
  with q have "- 2147483648 \<le> uint (10000 + r div 1000)" "uint (10000 + r div 1000) < 2147483648" by linarith+
  then have "sint (10000 + r div 1000) = uint (10000 + r div 1000)"
    unfolding sint_uint by (intro signed_take_bit_int_eq_self) simp_all
  then have "sint (10000 + r div 1000) = 10000 + int (unat (r div 1000))" by (simp only: u)
  then have "handleOf r = 10000 + int (unat (r div 1000))" unfolding handleOf_def Let_def by (auto simp only: split: if_split)
  with q show ?thesis by linarith
qed

lemma drawHandle_new:
  "drawHandle os tab k = Some p \<Longrightarrow> map_of tab (fst p) = None \<and> (\<exists>r. fst p = handleOf r)"
proof (induction rule: drawHandle.raw_induct [rotated 1, consumes 1])
  case (1 draw os tab k res)
  then show ?case by (auto split: prod.splits if_splits)
qed

text \<open>The loop ends as soon as the generator yields a number whose handle is free; \<open>n\<close> draws are enough.\<close>

fun draws :: "'k Os \<Rightarrow> nat \<Rightarrow> 'k \<Rightarrow> u32 list" where
  "draws os 0 k = []"
| "draws os (Suc n) k = (case run_state (os_random os) k of (r, k') \<Rightarrow> r # draws os n k')"

lemma drawHandle_returns:
  assumes "\<exists>r \<in> set (draws os n k). map_of tab (handleOf r) = None"
  shows "\<exists>h k'. drawHandle os tab k = Some (h, k')"
  using assms
proof (induction n arbitrary: k)
  case (Suc n)
  obtain r k1 where r: "run_state (os_random os) k = (r, k1)" by force
  show ?case
  proof (cases "map_of tab (handleOf r) = None")
    case True
    with r show ?thesis by (simp add: drawHandle.simps [of os tab k])
  next
    case False
    with Suc r have "\<exists>h k'. drawHandle os tab k1 = Some (h, k')" by auto
    with r False show ?thesis by (simp add: drawHandle.simps [of os tab k])
  qed
qed simp

end
