(* ===== verification/ServerApi.thy ===== *)
theory ServerApi
  imports ServerState
begin

text \<open>
  The operations of \<open>engine/ceserver/api.cpp\<close> on the driver, on processes and their memory, and on symbols. Each operation runs without another
  one in between. The variables \<open>g_memIO\<close> and \<open>KernelDriver()\<close> are parts of the engine. Messages to the user are the bytes that the sources have.
\<close>

section \<open>Connecting the driver\<close>

text \<open>\<open>GetLocalPath\<close> of \<open>utils.h\<close>: the directory of the executable.\<close>

definition GetLocalPath :: "'k Os \<Rightarrow> ('k, string) state" where
  "GetLocalPath os = do {
     link \<leftarrow> os_readlink os ''/proc/self/exe'';
     State_Monad.return (case link of None \<Rightarrow> []
       | Some l \<Rightarrow>
           let path = c_str (take 4095 l) in
           (case str_find_last_of path ''/'' of None \<Rightarrow> path | Some i \<Rightarrow> take i path)) }"

definition msg_load_failed :: string where
  "msg_load_failed = map char_of [229, 138, 160, 232, 189, 189, 230, 168, 161, 229, 157, 151, 229, 164, 177, 232, 180, 165 :: nat]"

definition msg_no_module :: string where
  "msg_no_module = map char_of [78, 73, 46, 107, 111, 32, 228, 184, 141, 229, 173, 152, 229, 156, 168 :: nat]"

definition msg_ko_failed :: string where
  "msg_ko_failed = map char_of [229, 138, 160, 232, 189, 189, 32, 78, 73, 46, 107, 111, 32, 229, 164, 177, 232, 180, 165, 58, 32 :: nat]"

definition msg_connect_failed :: string where
  "msg_connect_failed = map char_of [78, 73, 32, 233, 169, 177, 229, 138, 168, 232, 191, 158, 230, 142, 165, 229, 164, 177, 232, 180, 165 :: nat]"

text \<open>
  A new \<open>AndroidMemKernel\<close> takes the place of the object in \<open>g_memIO\<close>. The destructor of an \<open>AndroidMemKernel\<close> closes the connection that all
  such objects share; the one of an \<open>AndroidMemorySys\<close> does nothing.
\<close>

definition destroy_memIO :: "'k Os \<Rightarrow> MemIO \<Rightarrow> ('k, unit) engine" where
  "destroy_memIO os m =
     (if mio_type m = MemType_Kernel then do { on_driver (drv_Disconnect os); State_Monad.return () }
      else State_Monad.return ())"

definition replace_memIO :: "'k Os \<Rightarrow> MemIO \<Rightarrow> ('k, unit) engine" where
  "replace_memIO os m = do {
     s \<leftarrow> State_Monad.get;
     set_memIO (\<lambda>_. m);
     destroy_memIO os (en_memIO s) }"

definition kernel_ready :: "('k, bool) engine" where
  "kernel_ready = do {
     s \<leftarrow> State_Monad.get;
     State_Monad.return (mio_type (en_memIO s) = MemType_Kernel \<and> isConnected (en_driver s)) }"

definition card_text :: "'k Os \<Rightarrow> ('k, string) engine" where
  "card_text os = do { t \<leftarrow> mem_GetCardTime os; State_Monad.return (decimal (unat t)) }"

text \<open>\<open>loadNiModule\<close>: the result and \<open>errno\<close>; and the attempts with and without the key.\<close>

definition loadNiModule :: "'k Os \<Rightarrow> string \<Rightarrow> string \<Rightarrow> ('k, int \<times> int) state" where
  "loadNiModule os path params = do {
     (fd, err) \<leftarrow> os_open os path;
     if fd < 0 then State_Monad.return (- 1, err)
     else do {
       r \<leftarrow> os_finit_module os fd params;
       os_close os fd;
       State_Monad.return r }}"

fun loadAttempts :: "'k Os \<Rightarrow> string \<Rightarrow> string list \<Rightarrow> int \<times> int \<Rightarrow> ('k, int \<times> int) state" where
  "loadAttempts os path [] r = State_Monad.return r"
| "loadAttempts os path (params # rest) r = do {
     r' \<leftarrow> loadNiModule os path params;
     if fst r' = 0 \<or> snd r' = EEXIST then State_Monad.return r' else loadAttempts os path rest r' }"

definition card_of :: "string \<Rightarrow> string" where
  "card_of key = (case str_find_last_of key ''-'' of None \<Rightarrow> key | Some i \<Rightarrow> take i key)"

fun first_existing :: "'k Os \<Rightarrow> string list \<Rightarrow> ('k, string) state" where
  "first_existing os [] = State_Monad.return []"
| "first_existing os (p # ps) = do {
     found \<leftarrow> (if p = [] then State_Monad.return False else os_exists os p);
     if found then State_Monad.return p else first_existing os ps }"

text \<open>Replaces \<open>g_memIO\<close> by the connected object and reads the time of the card.\<close>

definition adopt_kernel :: "'k Os \<Rightarrow> ('k, string) engine" where
  "adopt_kernel os = do { replace_memIO os AndroidMemKernel_new; card_text os }"

text \<open>
  After a failed attempt to connect: the module is loaded and the connection tried again with a second object, whose assignment destroys the
  first one. Every object that is not moved into \<open>g_memIO\<close> is destroyed.
\<close>

definition load_and_connect :: "'k Os \<Rightarrow> string \<Rightarrow> ('k, int \<times> string) engine" where
  "load_and_connect os key = do {
     localPath \<leftarrow> on_os (GetLocalPath os);
     niPath \<leftarrow> on_os (first_existing os [localPath @ ''/NI.ko'', ''/data/local/tmp/NI.ko'']);
     if niPath = [] then do {
       destroy_memIO os AndroidMemKernel_new;
       State_Monad.return (0, msg_no_module) }
     else do {
       (ret, err) \<leftarrow> on_os (loadAttempts os niPath
         ((if card_of key \<noteq> [] then [''card='' @ card_of key] else []) @ [[]]) (- 1, 0));
       if ret \<noteq> 0 \<and> err \<noteq> EEXIST then do {
         destroy_memIO os AndroidMemKernel_new;
         State_Monad.return (0, msg_ko_failed @ os_strerror os err @ '' code '' @ decimal (nat err)) }
       else do {
         destroy_memIO os AndroidMemKernel_new;
         ok \<leftarrow> on_driver (kern_connect os);
         if \<not> ok then do {
           destroy_memIO os AndroidMemKernel_new;
           State_Monad.return (0, msg_connect_failed) }
         else do {
           t \<leftarrow> adopt_kernel os;
           on_os (os_klog_clear os);
           State_Monad.return (1, t) }}}}"

definition CApi_InitReadWriteDriver :: "'k Os \<Rightarrow> string \<Rightarrow> ('k, int \<times> string) device" where
  "CApi_InitReadWriteDriver os key = do {
     dv_update (\<lambda>s. s\<lparr>dv_forceReclaim := False\<rparr>);
     on_engine (do {
       rdy \<leftarrow> kernel_ready;
       if rdy then do { t \<leftarrow> card_text os; State_Monad.return (2, t) }
       else do {
         ok \<leftarrow> on_driver (kern_connect os);
         if ok then do { t \<leftarrow> adopt_kernel os; State_Monad.return (2, t) }
         else load_and_connect os key }}) }"

definition CApi_GetRWDriverType :: "('k, u8) device" where
  "CApi_GetRWDriverType = on_engine mem_type"

definition CApi_SetKernelBreakpointForceReclaim :: "bool \<Rightarrow> ('k, int) device" where
  "CApi_SetKernelBreakpointForceReclaim enabled = do {
     rdy \<leftarrow> on_engine kernel_ready;
     dv_update (\<lambda>s. s\<lparr>dv_forceReclaim := rdy \<and> enabled\<rparr>);
     State_Monad.return (if rdy then 1 else 0) }"

section \<open>Lists of processes and modules\<close>

definition CApi_GetProcessListInfo :: "'k Os \<Rightarrow> ('k, (int \<times> string) list) device" where
  "CApi_GetProcessListInfo os = on_engine (mem_GetProcessPidList os)"

definition to_module :: "ProcessMap \<Rightarrow> ModuleListEntry" where
  "to_module m = \<lparr>ml_type = pm_type m, ml_flag = pm_flag m, ml_baseAddress = pm_startAddress m, ml_moduleSize = pm_length m,
     ml_moduleName = pm_pathname m\<rparr>"

abbreviation "TH32CS_SNAPPROCESS \<equiv> 2 :: u32"
abbreviation "TH32CS_SNAPMODULE \<equiv> 8 :: u32"

text \<open>
  The flags are tested in this order. The entries of a snapshot of modules have no flag: the field \<open>flag\<close> is not set, and 0 here.
\<close>

definition CApi_CreateToolhelp32Snapshot :: "'k Os \<Rightarrow> u32 \<Rightarrow> int \<Rightarrow> ('k, int) device" where
  "CApi_CreateToolhelp32Snapshot os dwFlags pid =
     (if and dwFlags TH32CS_SNAPPROCESS \<noteq> 0 then do {
        l \<leftarrow> on_engine (mem_GetProcessPidList os);
        p \<leftarrow> new_object (ProcessList l 0);
        CreateHandleFromPointer os p htTHSProcess }
      else if and dwFlags TH32CS_SNAPMODULE \<noteq> 0 then do {
        hm \<leftarrow> FindHandleByPID pid;
        if hm = 0 then State_Monad.return 0
        else do {
          maps \<leftarrow> on_engine (mem_GetProcessMaps os);
          if maps = [] then State_Monad.return 0
          else do {
            p \<leftarrow> new_object (ModuleList (map (\<lambda>m. (to_module m)\<lparr>ml_flag := 0\<rparr>) maps) 0);
            CreateHandleFromPointer os p htTHSModule }}}
      else State_Monad.return 0)"

text \<open>
  The iterators. \<open>First\<close> rewinds; \<open>Next\<close> advances, and an iterator at the end must not be advanced. A snapshot that has another class than its handle
  says is an error of the cast.
\<close>

definition set_object :: "nat \<Rightarrow> HeapObject \<Rightarrow> ('k, unit) device" where
  "set_object p ob = dv_update (\<lambda>s. s\<lparr>dv_heap := (dv_heap s)(p \<mapsto> ob)\<rparr>)"

definition entry_at :: "'a list \<Rightarrow> nat \<Rightarrow> 'a option" where
  "entry_at l i = (if i < length l then Some (l ! i) else None)"

definition process32 :: "(nat \<Rightarrow> nat) \<Rightarrow> int \<Rightarrow> ('k, (int \<times> string) option) device" where
  "process32 move h = do {
     t \<leftarrow> GetHandleType h;
     if t \<noteq> htTHSProcess then State_Monad.return None
     else do {
       p \<leftarrow> GetPointerFromHandle h;
       s \<leftarrow> State_Monad.get;
       case dv_heap s p of
         Some (ProcessList l i) \<Rightarrow>
           if move i > length l then trap PastTheEnd None
           else do { set_object p (ProcessList l (move i)); State_Monad.return (entry_at l (move i)) }
       | _ \<Rightarrow> trap BadPointer None }}"

definition CApi_Process32First :: "int \<Rightarrow> ('k, (int \<times> string) option) device" where
  "CApi_Process32First h = process32 (\<lambda>i. 0) h"

definition CApi_Process32Next :: "int \<Rightarrow> ('k, (int \<times> string) option) device" where
  "CApi_Process32Next h = process32 (\<lambda>i. i + 1) h"

definition module32 :: "(nat \<Rightarrow> nat) \<Rightarrow> int \<Rightarrow> ('k, (u64 \<times> u64 \<times> string) option) device" where
  "module32 move h = do {
     t \<leftarrow> GetHandleType h;
     if t \<noteq> htTHSModule then State_Monad.return None
     else do {
       p \<leftarrow> GetPointerFromHandle h;
       s \<leftarrow> State_Monad.get;
       case dv_heap s p of
         Some (ModuleList l i) \<Rightarrow>
           if move i > length l then trap PastTheEnd None
           else do {
             set_object p (ModuleList l (move i));
             State_Monad.return (map_option (\<lambda>e. (ml_baseAddress e, ml_moduleSize e, ml_moduleName e)) (entry_at l (move i))) }
       | _ \<Rightarrow> trap BadPointer None }}"

definition CApi_Module32First :: "int \<Rightarrow> ('k, (u64 \<times> u64 \<times> string) option) device" where
  "CApi_Module32First h = module32 (\<lambda>i. 0) h"

definition CApi_Module32Next :: "int \<Rightarrow> ('k, (u64 \<times> u64 \<times> string) option) device" where
  "CApi_Module32Next h = module32 (\<lambda>i. i + 1) h"

section \<open>Opening and closing\<close>

definition CApi_OpenProcess :: "'k Os \<Rightarrow> int \<Rightarrow> ('k, int) device" where
  "CApi_OpenProcess os pid = do {
     hm \<leftarrow> FindHandleByPID pid;
     if hm \<noteq> 0 then do {
       p \<leftarrow> GetPointerFromHandle hm;
       put_process p (\<lambda>pd. pd\<lparr>op_ReferenceCount := op_ReferenceCount pd + 1\<rparr>);
       b \<leftarrow> on_engine (mem_OpenProcess os pid);
       dv_update (\<lambda>s. s\<lparr>dv_pid := pid, dv_tracer := pid\<rparr>);
       State_Monad.return hm }
     else do {
       ok \<leftarrow> on_engine (mem_OpenProcess os pid);
       if \<not> ok then State_Monad.return 0
       else do {
         dv_update (\<lambda>s. s\<lparr>dv_pid := pid, dv_tracer := pid\<rparr>);
         p \<leftarrow> new_object (OpenProcess (CeOpenProcess_new pid));
         CreateHandleFromPointer os p htProcesHandle }}}"

text \<open>A breakpoint goes to the engine that owns its handle; \<open>other\<close> is for a handle that neither owns.\<close>

definition by_owner :: "u64 \<Rightarrow> ('k, 'a) perf \<Rightarrow> ('k, 'a) kbp \<Rightarrow> ('k, 'a) device \<Rightarrow> ('k, 'a) device" where
  "by_owner h perf kbp other = do {
     p \<leftarrow> on_perf (perf_Owns h);
     if p then on_perf perf
     else do {
       k \<leftarrow> on_kbp (kbp_Owns h);
       if k then on_kbp kbp else other }}"

definition release_breakpoints :: "'k Os \<Rightarrow> CeOpenProcess \<Rightarrow> ('k, unit) device" where
  "release_breakpoints os pd = do {
     for_each (\<lambda>h. by_owner h (perf_DelProcessHwBp os h) (kbp_DelProcessHwBp os h) (State_Monad.return False))
       (concat (map snd (op_mHwBpList pd)));
     State_Monad.return () }"

text \<open>What happens before the object of a process is deleted.\<close>

definition shutdown_process :: "'k Os \<Rightarrow> nat \<Rightarrow> ('k, unit) device" where
  "shutdown_process os p = do {
     pd \<leftarrow> process_at p;
     put_process p (\<lambda>pd. pd\<lparr>op_mUxnBpList := []\<rparr>);
     for_each (\<lambda>e. on_kdriver (drv_RemoveUxnBreakpoint os (of_int (op_pid pd)) (fst e))) (op_mUxnBpList pd);
     on_engine (mem_CloseHandle os);
     release_breakpoints os pd }"

definition CApi_CloseHandle :: "'k Os \<Rightarrow> int \<Rightarrow> ('k, unit) device" where
  "CApi_CloseHandle os h = do {
     ht \<leftarrow> GetHandleType h;
     p \<leftarrow> GetPointerFromHandle h;
     (if ht = htTHSModule then delete_object htTHSModule p
      else if ht = htTHSProcess then delete_object htTHSProcess p
      else if ht = htProcesHandle then do { shutdown_process os p; delete_object htProcesHandle p }
      else State_Monad.return ());
     RemoveHandle h }"

section \<open>Memory\<close>

text \<open>Operations that only ask whether the handle is one of a process.\<close>

definition if_process :: "int \<Rightarrow> 'a \<Rightarrow> ('k, 'a) device \<Rightarrow> ('k, 'a) device" where
  "if_process h none m = do {
     t \<leftarrow> GetHandleType h;
     if t \<noteq> htProcesHandle then State_Monad.return none else m }"

record RegionInfo =
  ri_baseaddress :: u64
  ri_size :: u64
  ri_protection :: u32
  ri_type :: u32

definition CApi_VirtualQueryExFull :: "'k Os \<Rightarrow> int \<Rightarrow> ('k, int \<times> RegionInfo list) device" where
  "CApi_VirtualQueryExFull os h = if_process h (0, []) (do {
     maps \<leftarrow> on_engine (mem_GetProcessMaps os);
     State_Monad.return (if maps = [] then (0, [])
       else (1, map (\<lambda>m. \<lparr>ri_baseaddress = pm_startAddress m, ri_size = pm_length m, ri_protection = of_int (pm_protection m),
           ri_type = of_int (pm_type m)\<rparr>) maps)) })"

definition CApi_VirtualQueryEx :: "int \<Rightarrow> u64 \<Rightarrow> ('k, int) device" where
  "CApi_VirtualQueryEx h address = if_process h 0 (State_Monad.return 0)"

definition CApi_ReadProcessMemory :: "'k Os \<Rightarrow> int \<Rightarrow> u64 \<Rightarrow> bytes \<Rightarrow> ('k, int \<times> bytes) device" where
  "CApi_ReadProcessMemory os h address buf = if_process h (0, buf) (do {
     (bread, b) \<leftarrow> on_engine (mem_Read os address buf);
     State_Monad.return (int bread, b) })"

text \<open>The loop over the pages of the range. The address wraps around at the end of the address space; \<open>None\<close> is a loop that never ends.\<close>

partial_function (option) readPages ::
    "'k Os \<Rightarrow> u64 \<Rightarrow> u64 \<Rightarrow> (u64 \<times> bytes) list \<Rightarrow> 'k Engine \<Rightarrow> ((u64 \<times> bytes) list \<times> 'k Engine) option" where
  "readPages os addr stop output s =
     (if addr < stop then
        (case run_state (mem_Read os addr (replicate 4096 0)) s of (r, s1) \<Rightarrow>
           readPages os (addr + 4096) stop (if fst r > 0 then output @ [(addr, snd r)] else output) s1)
      else Some (output, s))"

definition CApi_ReadBratchMemory :: "'k Os \<Rightarrow> int \<Rightarrow> u64 \<Rightarrow> u32 \<Rightarrow> ('k, int \<times> (u64 \<times> bytes) list) device" where
  "CApi_ReadBratchMemory os h addr size_of = if_process h (0, []) (do {
     s \<leftarrow> State_Monad.get;
     case readPages os addr (addr + ucast size_of) [] (dv_engine s) of
       None \<Rightarrow> trap NoReturn (0, [])
     | Some (output, e) \<Rightarrow> do {
         dv_update (\<lambda>s. s\<lparr>dv_engine := e\<rparr>);
         State_Monad.return (sint (of_nat (length output) :: u32), output) }})"

definition readOne :: "'k Os \<Rightarrow> u64 \<times> u32 \<Rightarrow> ('k, u64 \<times> bytes) engine" where
  "readOne os i =
     (if snd i > 0 then do {
        (bread, b) \<leftarrow> mem_Read os (fst i) (replicate (unat (snd i)) 0);
        State_Monad.return (fst i, take bread b) }
      else State_Monad.return (fst i, []))"

definition CApi_ReadBratchAddr :: "'k Os \<Rightarrow> int \<Rightarrow> (u64 \<times> u32) list \<Rightarrow> ('k, int \<times> (u64 \<times> bytes) list) device" where
  "CApi_ReadBratchAddr os h input = if_process h (0, []) (do {
     output \<leftarrow> on_engine (for_each (readOne os) input);
     State_Monad.return (sint (of_nat (length output) :: u32), output) })"

definition CApi_WriteProcessMemory :: "'k Os \<Rightarrow> int \<Rightarrow> u64 \<Rightarrow> bytes \<Rightarrow> ('k, int) device" where
  "CApi_WriteProcessMemory os h address data = if_process h 0 (do {
     written \<leftarrow> on_engine (mem_Write os address data);
     State_Monad.return (int written) })"

definition CApi_GetModuleList :: "'k Os \<Rightarrow> int \<Rightarrow> ('k, ModuleListEntry list) device" where
  "CApi_GetModuleList os h = if_process h [] (do {
     maps \<leftarrow> on_engine (mem_GetProcessMaps os);
     State_Monad.return (map to_module maps) })"

definition CApi_GetSoBase :: "'k Os \<Rightarrow> int \<Rightarrow> string \<Rightarrow> ('k, u64) device" where
  "CApi_GetSoBase os h soName =
     (if soName = [] then State_Monad.return 0 else if_process h 0 (on_engine (mem_GetSoBase os soName)))"

section \<open>Symbols\<close>

definition set_cache :: "(u64 \<times> string) list \<Rightarrow> u64 \<Rightarrow> ('k, unit) device" where
  "set_cache symbols base = dv_update (\<lambda>s. s\<lparr>dv_cachedSymbols := symbols, dv_cachedModuleBase := base\<rparr>)"

definition CApi_SymbolInit :: "'k Os \<Rightarrow> int \<Rightarrow> u64 \<Rightarrow> ('k, int) device" where
  "CApi_SymbolInit os h moduleBase = if_process h (- 1) (do {
     s \<leftarrow> State_Monad.get;
     if moduleBase = dv_cachedModuleBase s \<and> dv_cachedSymbols s \<noteq> []
     then State_Monad.return (sint (of_nat (length (dv_cachedSymbols s)) :: u32))
     else do {
       r \<leftarrow> on_engine (Initialize os moduleBase);
       case r of Undefined \<Rightarrow> trap OutOfBounds (- 1)
       | Done None \<Rightarrow> do { set_cache [] 0; State_Monad.return (- 1) }
       | Done (Some e) \<Rightarrow> do {
           r' \<leftarrow> on_engine (GetSymbols os e);
           case r' of Undefined \<Rightarrow> trap OutOfBounds (- 1)
           | Done e' \<Rightarrow> do {
               set_cache (es_symbols e') moduleBase;
               State_Monad.return (sint (of_nat (length (es_symbols e')) :: u32)) }}}})"

definition CApi_SymbolGetCount :: "('k, int) device" where
  "CApi_SymbolGetCount = do { s \<leftarrow> State_Monad.get; State_Monad.return (sint (of_nat (length (dv_cachedSymbols s)) :: u32)) }"

text \<open>\<open>offset + count\<close> is a sum of two \<open>int\<close> values, which must not overflow.\<close>

definition CApi_SymbolGetList :: "int \<Rightarrow> int \<Rightarrow> ('k, (u64 \<times> string) list) device" where
  "CApi_SymbolGetList offset n = do {
     s \<leftarrow> State_Monad.get;
     let number = sint (of_nat (length (dv_cachedSymbols s)) :: u32);
     if offset < 0 \<or> offset \<ge> number \<or> n \<le> 0 then State_Monad.return []
     else if offset + n > int INT_MAX then trap IntOverflow []
     else State_Monad.return (take (nat (min (offset + n) number) - nat offset) (drop (nat offset) (dv_cachedSymbols s))) }"

definition CApi_SymbolFind :: "'k Os \<Rightarrow> int \<Rightarrow> u64 \<Rightarrow> string \<Rightarrow> ('k, u64) device" where
  "CApi_SymbolFind os h moduleBase name = if_process h 0 (do {
     s \<leftarrow> State_Monad.get;
     found \<leftarrow> (if moduleBase \<noteq> dv_cachedModuleBase s \<or> dv_cachedSymbols s = []
       then CApi_SymbolInit os h moduleBase else State_Monad.return 0);
     if found < 0 then State_Monad.return 0
     else do {
       s \<leftarrow> State_Monad.get;
       State_Monad.return (case List.find (\<lambda>e. snd e = name) (dv_cachedSymbols s) of None \<Rightarrow> 0 | Some e \<Rightarrow> fst e) }})"

end
