(* ===== verification/CEServer.thy ===== *)
theory CEServer
  imports Protocol "HOL-Library.State_Monad" "HOL-Library.Monad_Syntax"
begin

text \<open>
  The dispatcher of the Android server, from \<open>engine/ceserver/CEServer.cpp\<close>, with the worker loop of
  \<open>engine/interface/socket/server.cpp\<close> and the socket calls of \<open>engine/interface/socket/SocketManager.hpp\<close>. The state
  is one connection (the bytes that the client has sent and the worker has not read, the bytes that
  the server has answered, whether the socket is open) with the device behind it. The functions of \<open>CApi\<close>
  are computations on the device, the record \<open>CApi\<close>; so is \<open>api_send\<close>, which says how
  many bytes the loop of \<open>Send\<close> gets out before it gives up. Log lines are left out.

  Several cases ignore the result of \<open>Receive\<close> and go on with what their variables hold. A variable
  without an initial value holds \<open>api_junk\<close>.
\<close>

section \<open>Connection and device\<close>

record ServerModule =
  sm_type :: int
  sm_flag :: int
  sm_baseAddress :: u64
  sm_moduleSize :: u64
  sm_moduleName :: string

record HwbpTaskEntryInfo =
  he_eventId :: u64
  he_moduleHandle :: u64
  he_address :: u64
  he_tid :: int
  he_onCpu :: int
  he_type :: u32
  he_length :: u32
  he_state :: u32
  he_source :: u32
  he_flags :: u32

record HwbpTaskThreadInfo =
  ht_tid :: int
  ht_success :: bool
  ht_errorCode :: int
  ht_totalCount :: u32
  ht_brpCount :: u32
  ht_wrpCount :: u32
  ht_enabledCount :: u32
  ht_activeCount :: u32
  ht_perfCount :: u32
  ht_ptraceCount :: u32
  ht_moduleCount :: u32
  ht_entries :: "HwbpTaskEntryInfo list"

record 'd CApi =
  api_send :: "bytes \<Rightarrow> ('d, nat) state"
  api_junk :: "nat \<Rightarrow> ('d, bytes) state"
  api_GetRWDriverType :: "('d, u8) state"
  api_CloseHandle :: "int \<Rightarrow> ('d, unit) state"
  api_OpenProcess :: "int \<Rightarrow> ('d, int) state"
  api_ReadProcessMemory :: "u32 \<Rightarrow> u64 \<Rightarrow> bytes \<Rightarrow> ('d, int \<times> bytes) state"
  api_WriteProcessMemory :: "u32 \<Rightarrow> u64 \<Rightarrow> bytes \<Rightarrow> ('d, int) state"
  api_GetProcessListInfo :: "('d, (int \<times> string) list) state"
  api_GetModuleList :: "int \<Rightarrow> ('d, ServerModule list) state"
  api_ReadBratchMemory :: "int \<Rightarrow> u64 \<Rightarrow> u32 \<Rightarrow> ('d, int \<times> (u64 \<times> bytes) list) state"
  api_InitReadWriteDriver :: "string \<Rightarrow> ('d, int \<times> string) state"
  api_SetKernelBreakpointForceReclaim :: "bool \<Rightarrow> ('d, int) state"
  api_SetBreakpoint :: "int \<Rightarrow> u64 \<Rightarrow> int \<Rightarrow> int \<Rightarrow> ('d, int) state"
  api_RemoveBreakpoint :: "int \<Rightarrow> u64 \<Rightarrow> ('d, int) state"
  api_SuspendBreakpoint :: "int \<Rightarrow> u64 \<Rightarrow> ('d, int) state"
  api_ResumeBreakpoint :: "int \<Rightarrow> u64 \<Rightarrow> ('d, int) state"
  api_ReadHwBpInfo :: "int \<Rightarrow> u64 \<Rightarrow> ('d, int \<times> u64 \<times> bytes list) state"
  api_QueryHardwareBreakpointThreads :: "int \<Rightarrow> u32 \<Rightarrow> ('d, bool \<times> HwbpTaskThreadInfo list) state"
  api_InstallUxnBreakpoint :: "int \<Rightarrow> u64 \<Rightarrow> u32 \<Rightarrow> ('d, bool \<times> bytes \<times> int) state"
  api_RemoveUxnBreakpoint :: "int \<Rightarrow> u64 \<Rightarrow> ('d, bool \<times> int) state"
  api_WaitUxnBreakpoint :: "u32 \<Rightarrow> u32 \<Rightarrow> u64 \<Rightarrow> ('d, bool \<times> bytes \<times> int) state"
  api_ResumeUxnBreakpoint :: "bytes \<Rightarrow> ('d, bool \<times> int) state"
  api_GetUxnBreakpointStatus :: "u32 \<Rightarrow> ('d, bool \<times> bytes \<times> int) state"
  api_ClearUxnBreakpoints :: "('d, bool \<times> int) state"
  api_ReadBratchAddr :: "int \<Rightarrow> (u64 \<times> u32) list \<Rightarrow> ('d, int \<times> (u64 \<times> bytes) list) state"
  api_SymbolInit :: "int \<Rightarrow> u64 \<Rightarrow> ('d, int) state"
  api_SymbolGetCount :: "('d, int) state"
  api_SymbolGetList :: "int \<Rightarrow> int \<Rightarrow> ('d, (u64 \<times> string) list) state"
  api_SymbolFind :: "int \<Rightarrow> u64 \<Rightarrow> string \<Rightarrow> ('d, u64) state"
  api_GetSoBase :: "int \<Rightarrow> string \<Rightarrow> ('d, u64) state"

record 'd ServerConn =
  sc_in :: bytes
  sc_out :: bytes
  sc_open :: bool
  sc_running :: bool
  sc_device :: 'd

type_synonym ('d, 'a) server = "('d ServerConn, 'a) state"

definition on_device :: "('d, 'a) state \<Rightarrow> ('d, 'a) server" where
  "on_device m = State (\<lambda>s. case run_state m (sc_device s) of (a, d) \<Rightarrow> (a, s\<lparr>sc_device := d\<rparr>))"

text \<open>
  \<open>sc_receive buf\<close> is \<open>Receive(buffer, size)\<close> on a buffer with the contents \<open>buf\<close>: the result and the contents afterwards.
  It fails when the client has closed the connection before all bytes came, and leaves what came in
  the buffer.
\<close>

definition sc_receive :: "bytes \<Rightarrow> ('d, bool \<times> bytes) server" where
  "sc_receive buf = State (\<lambda>s.
     if \<not> sc_open s then ((False, buf), s)
     else
       let got = take (length buf) (sc_in s) in
       ((length got = length buf, got @ drop (length got) buf), s\<lparr>sc_in := drop (length buf) (sc_in s)\<rparr>))"

definition sc_send :: "'d CApi \<Rightarrow> bytes \<Rightarrow> ('d, bool) server" where
  "sc_send api data = do {
     s \<leftarrow> State_Monad.get;
     if \<not> sc_open s then State_Monad.return False
     else if data = [] then State_Monad.return True
     else do {
       n \<leftarrow> on_device (api_send api data);
       State_Monad.update (\<lambda>s. s\<lparr>sc_out := sc_out s @ take n data\<rparr>);
       State_Monad.return (length data \<le> n) }}"

definition sc_close :: "('d, unit) server" where
  "sc_close = State_Monad.update (\<lambda>s. s\<lparr>sc_open := False\<rparr>)"

text \<open>\<open>Receive\<close> into a variable with a known value, and into one without; the result is ignored.\<close>

definition receive_into :: "bytes \<Rightarrow> ('d, bytes) server" where
  "receive_into buf = do { (ok, b) \<leftarrow> sc_receive buf; State_Monad.return b }"

definition receive_junk :: "'d CApi \<Rightarrow> nat \<Rightarrow> ('d, bytes) server" where
  "receive_junk api n = do {
     junk \<leftarrow> on_device (api_junk api n);
     receive_into (take n (junk @ replicate n 0)) }"

text \<open>\<open>if (!Receive(...)) fail\<close> with the value on success.\<close>

definition receive_or :: "nat \<Rightarrow> ('d, 'a) server \<Rightarrow> (bytes \<Rightarrow> ('d, 'a) server) \<Rightarrow> ('d, 'a) server" where
  "receive_or n failed k = do {
     (ok, b) \<leftarrow> sc_receive (replicate n 0);
     if ok then k b else failed }"

text \<open>Sends that stop at the first failure, and sends whose results are ignored.\<close>

fun sendSeq :: "'d CApi \<Rightarrow> bytes list \<Rightarrow> ('d, bool) server" where
  "sendSeq api [] = State_Monad.return True"
| "sendSeq api (b # bs) = do {
     ok \<leftarrow> sc_send api b;
     if ok then sendSeq api bs else State_Monad.return False }"

fun sendEach :: "'d CApi \<Rightarrow> bytes list \<Rightarrow> ('d, unit) server" where
  "sendEach api [] = State_Monad.return ()"
| "sendEach api (b # bs) = do { sc_send api b; sendEach api bs }"

section \<open>Helpers of the dispatcher\<close>

definition ClampNonNegativeCount :: "int \<Rightarrow> nat \<Rightarrow> nat" where
  "ClampNonNegativeCount n actualSize =
     (if n < 0 then 0 else if nat n > actualSize then actualSize else nat n)"

definition ClampIntCount :: "nat \<Rightarrow> int" where
  "ClampIntCount n = (if n > INT_MAX then int INT_MAX else int n)"

definition ClampUint32Size :: "u64 \<Rightarrow> u32" where
  "ClampUint32Size n = (if n > ucast UINT32_MAX then UINT32_MAX else ucast n)"

definition SendUxnResponse :: "'d CApi \<Rightarrow> bool \<Rightarrow> int \<Rightarrow> bytes \<Rightarrow> ('d, bool) server" where
  "SendUxnResponse api success errorCode payload = do {
     ok \<leftarrow> sc_send api (i32_bytes (if success then 1 else 0) @ i32_bytes (if success then 0 else errorCode));
     if \<not> ok then State_Monad.return False
     else if payload = [] then State_Monad.return True
     else sc_send api payload }"

definition versionstring :: string where
  "versionstring = ''MiniMem 1.0.2''"

definition CheatEngineVersion :: int where
  "CheatEngineVersion = 1"

section \<open>The cases of the dispatcher\<close>

text \<open>A case ends with \<open>break\<close>, after which the dispatcher returns 0, or returns itself.\<close>

definition uxn_reply :: "'d CApi \<Rightarrow> bool \<Rightarrow> int \<Rightarrow> bytes \<Rightarrow> ('d, int) server" where
  "uxn_reply api ok errorCode payload = do {
     sent \<leftarrow> SendUxnResponse api ok errorCode payload;
     State_Monad.return (if \<not> sent then - 1 else 0) }"

definition case_GETVERSION :: "'d CApi \<Rightarrow> ('d, int) server" where
  "case_GETVERSION api = do {
     sc_send api (i32_bytes CheatEngineVersion @ [of_nat (length versionstring)] @ bytes_of versionstring);
     State_Monad.return 0 }"

definition case_GETMEMTYPE :: "'d CApi \<Rightarrow> ('d, int) server" where
  "case_GETMEMTYPE api = do {
     type \<leftarrow> on_device (api_GetRWDriverType api);
     sc_send api [type];
     State_Monad.return 0 }"

definition case_CLOSECONNECTION :: "('d, int) server" where
  "case_CLOSECONNECTION = do { sc_close; State_Monad.return 0 }"

definition case_TERMINATESERVER :: "('d, int) server" where
  "case_TERMINATESERVER = do {
     sc_close;
     State_Monad.update (\<lambda>s. s\<lparr>sc_running := False\<rparr>);
     State_Monad.return 0 }"

definition case_CLOSEHANDLE :: "'d CApi \<Rightarrow> ('d, int) server" where
  "case_CLOSEHANDLE api = receive_or 4 (State_Monad.return 0) (\<lambda>h. do {
     on_device (api_CloseHandle api (i32_at h 0));
     sc_send api (i32_bytes 1);
     State_Monad.return 0 })"

definition case_OPENPROCESS :: "'d CApi \<Rightarrow> ('d, int) server" where
  "case_OPENPROCESS api = receive_or 4 (State_Monad.return 0) (\<lambda>pid. do {
     processhandle \<leftarrow> on_device (api_OpenProcess api (i32_at pid 0));
     sc_send api (i32_bytes processhandle);
     State_Monad.return 0 })"

definition case_READPROCESSMEMORY :: "'d CApi \<Rightarrow> ('d, int) server" where
  "case_READPROCESSMEMORY api = receive_or 17 (State_Monad.return 0) (\<lambda>c.
     let size = u32_at c 12 in
     if size = 0 \<or> int (unat size) > MAX_NETWORK_ALLOC_SIZE
     then do { sc_send api (i32_bytes 0); State_Monad.return 0 }
     else do {
       (realread, data) \<leftarrow> on_device (api_ReadProcessMemory api (u32_at c 0) (u64_at c 4)
         (replicate (unat size) 0));
       sc_send api (i32_bytes realread);
       sc_send api data;
       State_Monad.return 0 })"

definition case_WRITEPROCESSMEMORY :: "'d CApi \<Rightarrow> ('d, int) server" where
  "case_WRITEPROCESSMEMORY api = receive_or 16 (State_Monad.return 0) (\<lambda>c.
     let size = unat (u32_at c 12); none = do { sc_send api (i32_bytes 0); State_Monad.return 0 } in
     if int size > MAX_NETWORK_ALLOC_SIZE then none
     else if size \<noteq> 0
     then receive_or size none (\<lambda>buf. do {
       written \<leftarrow> on_device (api_WriteProcessMemory api (u32_at c 0) (u64_at c 4) buf);
       sc_send api (i32_bytes written);
       State_Monad.return 0 })
     else none)"

definition processParts :: "int \<times> string \<Rightarrow> bytes list" where
  "processParts p = (case p of (pid, cmdline) \<Rightarrow>
     let size = ClampIntCount (length cmdline) in
     (i32_bytes pid @ i32_bytes size) # (if size > 0 then [bytes_of (take (nat size) cmdline)] else []))"

definition case_GETPROCESSLIST :: "'d CApi \<Rightarrow> ('d, int) server" where
  "case_GETPROCESSLIST api = do {
     processes \<leftarrow> on_device (api_GetProcessListInfo api);
     let len = ClampIntCount (length processes);
     ok \<leftarrow> sc_send api (i32_bytes len);
     if \<not> ok then State_Monad.return 0
     else do {
       sendSeq api (concat (map processParts (take (nat len) processes)));
       State_Monad.return 0 }}"

definition moduleParts :: "ServerModule \<Rightarrow> bytes list" where
  "moduleParts m =
     (let size = ClampIntCount (length (sm_moduleName m)) in
      (i32_bytes (sm_type m) @ i32_bytes (sm_flag m) @ u64_bytes (sm_baseAddress m) @
       u32_bytes (ClampUint32Size (sm_moduleSize m)) @ i32_bytes size) #
      (if size > 0 then [bytes_of (take (nat size) (sm_moduleName m))] else []))"

definition case_GETMODULELIST :: "'d CApi \<Rightarrow> ('d, int) server" where
  "case_GETMODULELIST api = do {
     h \<leftarrow> receive_into (replicate 4 0);
     modules \<leftarrow> on_device (api_GetModuleList api (i32_at h 0));
     let len = ClampIntCount (length modules);
     ok \<leftarrow> sc_send api (i32_bytes len);
     if \<not> ok then State_Monad.return 0
     else do {
       sendSeq api (concat (map moduleParts (take (nat len) modules)));
       State_Monad.return 0 }}"

definition case_READBRATCHMEMORY :: "'d CApi \<Rightarrow> ('d, int) server" where
  "case_READBRATCHMEMORY api = do {
     h \<leftarrow> receive_into (replicate 4 0);
     input \<leftarrow> receive_junk api 12;
     (realLen, output) \<leftarrow> on_device (api_ReadBratchMemory api (i32_at h 0) (u64_at input 0) (u32_at input 8));
     let safeResult = ClampIntCount (ClampNonNegativeCount realLen (length output));
     sc_send api (i32_bytes safeResult);
     sendSeq api (concat (map (\<lambda>(addr, data). u64_bytes addr # (if data \<noteq> [] then [data] else []))
       (take (nat safeResult) output)));
     State_Monad.return 0 }"

definition case_INITRWDRIVER :: "'d CApi \<Rightarrow> ('d, int) server" where
  "case_INITRWDRIVER api = do {
     l \<leftarrow> receive_junk api 4;
     let len = i32_at l 0;
     if len \<le> 0 \<or> len > MAX_NETWORK_ALLOC_SIZE
     then do { sc_send api (i32_bytes 0); sc_send api (i32_bytes 0); State_Monad.return 0 }
     else do {
       input \<leftarrow> receive_into (replicate (nat len) 0);
       (ret, out_result) \<leftarrow> on_device (api_InitReadWriteDriver api
         (takeWhile (\<lambda>c. c \<noteq> CHR 0x00) (chars_of input)));
       sc_send api (i32_bytes ret);
       sc_send api (i32_bytes (int (length out_result)));
       sc_send api (bytes_of out_result);
       State_Monad.return 0 }}"

definition case_SETKERNELHWBPRECLAIM :: "'d CApi \<Rightarrow> ('d, int) server" where
  "case_SETKERNELHWBPRECLAIM api = receive_or 1 (State_Monad.return (- 1)) (\<lambda>enabled. do {
     ret \<leftarrow> on_device (api_SetKernelBreakpointForceReclaim api (enabled ! 0 \<noteq> 0));
     sc_send api (i32_bytes ret);
     State_Monad.return 0 })"

definition case_SETBREAKPOINT :: "'d CApi \<Rightarrow> ('d, int) server" where
  "case_SETBREAKPOINT api = do {
     h \<leftarrow> receive_into (replicate 4 0);
     address \<leftarrow> receive_junk api 8;
     bpType \<leftarrow> receive_junk api 4;
     bpSize \<leftarrow> receive_junk api 4;
     r \<leftarrow> on_device (api_SetBreakpoint api (i32_at h 0) (u64_at address 0) (i32_at bpType 0) (i32_at bpSize 0));
     sc_send api (i32_bytes r);
     State_Monad.return 0 }"

definition case_BREAKPOINT :: "'d CApi \<Rightarrow> (int \<Rightarrow> u64 \<Rightarrow> ('d, int) state) \<Rightarrow> ('d, int) server" where
  "case_BREAKPOINT api operation = do {
     h \<leftarrow> receive_into (replicate 4 0);
     hwaddr \<leftarrow> receive_junk api 8;
     r \<leftarrow> on_device (operation (i32_at h 0) (u64_at hwaddr 0));
     sc_send api (i32_bytes r);
     State_Monad.return 0 }"

definition case_READHWBPINFO :: "'d CApi \<Rightarrow> ('d, int) server" where
  "case_READHWBPINFO api = do {
     h \<leftarrow> receive_into (replicate 4 0);
     hwaddr \<leftarrow> receive_junk api 8;
     (r, nHitTotalCount, vOutput) \<leftarrow> on_device (api_ReadHwBpInfo api (i32_at h 0) (u64_at hwaddr 0));
     let safeResult = ClampIntCount (ClampNonNegativeCount r (length vOutput));
     sc_send api (i32_bytes safeResult);
     sc_send api (u64_bytes nHitTotalCount);
     (if safeResult > 0 then sc_send api (concat (take (nat safeResult) vOutput))
      else State_Monad.return True);
     State_Monad.return 0 }"

definition threadHeader :: "HwbpTaskThreadInfo \<Rightarrow> u32 \<Rightarrow> bytes" where
  "threadHeader t n = i32_bytes (ht_tid t) @ i32_bytes (if ht_success t then 1 else 0) @
     i32_bytes (ht_errorCode t) @ u32_bytes n @ u32_bytes (ht_totalCount t) @ u32_bytes (ht_brpCount t) @
     u32_bytes (ht_wrpCount t) @ u32_bytes (ht_enabledCount t) @ u32_bytes (ht_activeCount t) @
     u32_bytes (ht_perfCount t) @ u32_bytes (ht_ptraceCount t) @ u32_bytes (ht_moduleCount t)"

definition taskSlot :: "HwbpTaskEntryInfo \<Rightarrow> bytes" where
  "taskSlot e = u64_bytes (he_eventId e) @ u64_bytes (he_moduleHandle e) @ u64_bytes (he_address e) @
     i32_bytes (he_tid e) @ i32_bytes (he_onCpu e) @ u32_bytes (he_type e) @ u32_bytes (he_length e) @
     u32_bytes (he_state e) @ u32_bytes (he_source e) @ u32_bytes (he_flags e) @ u32_bytes 0"

fun sendThreads :: "'d CApi \<Rightarrow> u32 \<Rightarrow> HwbpTaskThreadInfo list \<Rightarrow> ('d, int) server" where
  "sendThreads api capacity [] = State_Monad.return 0"
| "sendThreads api capacity (t # ts) = (
     let n = (if ht_success t then of_nat (length (ht_entries t)) else 0) in do {
     ok \<leftarrow> sc_send api (threadHeader t n);
     if \<not> ok then State_Monad.return (- 1)
     else if n > capacity \<or> n > 64 \<or> unat n \<noteq> length (ht_entries t) then State_Monad.return (- 1)
     else do {
       sent \<leftarrow> sendSeq api (map taskSlot (ht_entries t));
       if \<not> sent then State_Monad.return (- 1) else sendThreads api capacity ts }})"

definition case_QUERYHWBPTHREADS :: "'d CApi \<Rightarrow> ('d, int) server" where
  "case_QUERYHWBPTHREADS api =
     receive_or 4 (State_Monad.return (- 1)) (\<lambda>h.
     receive_or 4 (State_Monad.return (- 1)) (\<lambda>c. do {
       (ok, threads) \<leftarrow> on_device (api_QueryHardwareBreakpointThreads api (i32_at h 0) (u32_at c 0));
       let threadCount = (if ok \<and> length threads \<le> 65536 then length threads else 0);
       sent \<leftarrow> sc_send api (i32_bytes (if ok then 1 else 0));
       if \<not> sent then State_Monad.return (- 1)
       else do {
         sent \<leftarrow> sc_send api (u32_bytes (of_nat threadCount));
         if \<not> sent then State_Monad.return (- 1)
         else if \<not> ok \<or> threadCount = 0 then State_Monad.return 0
         else sendThreads api (u32_at c 0) threads }}))"

definition case_UXN_INSTALL :: "'d CApi \<Rightarrow> ('d, int) server" where
  "case_UXN_INSTALL api =
     receive_or 4 (State_Monad.return (- 1)) (\<lambda>h.
     receive_or 8 (State_Monad.return (- 1)) (\<lambda>address.
     receive_or 4 (State_Monad.return (- 1)) (\<lambda>flags. do {
       (ok, install, errorCode) \<leftarrow>
         on_device (api_InstallUxnBreakpoint api (i32_at h 0) (u64_at address 0) (u32_at flags 0));
       uxn_reply api ok errorCode install })))"

definition case_UXN_REMOVE :: "'d CApi \<Rightarrow> ('d, int) server" where
  "case_UXN_REMOVE api =
     receive_or 4 (State_Monad.return (- 1)) (\<lambda>h.
     receive_or 8 (State_Monad.return (- 1)) (\<lambda>address. do {
       (ok, errorCode) \<leftarrow> on_device (api_RemoveUxnBreakpoint api (i32_at h 0) (u64_at address 0));
       uxn_reply api ok errorCode [] }))"

definition case_UXN_WAIT :: "'d CApi \<Rightarrow> ('d, int) server" where
  "case_UXN_WAIT api =
     receive_or 4 (State_Monad.return (- 1)) (\<lambda>slot.
     receive_or 4 (State_Monad.return (- 1)) (\<lambda>timeout.
     receive_or 8 (State_Monad.return (- 1)) (\<lambda>last. do {
       (ok, event, errorCode) \<leftarrow>
         on_device (api_WaitUxnBreakpoint api (u32_at slot 0) (u32_at timeout 0) (u64_at last 0));
       uxn_reply api ok errorCode event })))"

definition case_UXN_RESUME :: "'d CApi \<Rightarrow> ('d, int) server" where
  "case_UXN_RESUME api =
     receive_or 280 (State_Monad.return (- 1)) (\<lambda>resume. do {
       (ok, errorCode) \<leftarrow> on_device (api_ResumeUxnBreakpoint api resume);
       uxn_reply api ok errorCode [] })"

definition case_UXN_STATUS :: "'d CApi \<Rightarrow> ('d, int) server" where
  "case_UXN_STATUS api =
     receive_or 4 (State_Monad.return (- 1)) (\<lambda>slot. do {
       (ok, status, errorCode) \<leftarrow> on_device (api_GetUxnBreakpointStatus api (u32_at slot 0));
       uxn_reply api ok errorCode status })"

definition case_UXN_CLEAR :: "'d CApi \<Rightarrow> ('d, int) server" where
  "case_UXN_CLEAR api = do {
     (ok, errorCode) \<leftarrow> on_device (api_ClearUxnBreakpoints api);
     uxn_reply api ok errorCode [] }"

definition bratchAddrs :: "bytes \<Rightarrow> nat \<Rightarrow> (u64 \<times> u32) list" where
  "bratchAddrs input n = map (\<lambda>i. (u64_at input (12 * i), u32_at input (12 * i + 8))) [0..<n]"

definition case_READBRATCHADDR :: "'d CApi \<Rightarrow> ('d, int) server" where
  "case_READBRATCHADDR api = do {
     h \<leftarrow> receive_into (replicate 4 0);
     l \<leftarrow> receive_junk api 4;
     let len = i32_at l 0;
     if len \<le> 0 \<or> len > MAX_NETWORK_ARRAY_COUNT
     then do { sc_send api (i32_bytes 0); State_Monad.return 0 }
     else do {
       input \<leftarrow> receive_into (replicate (nat len * 12) 0);
       (r, output) \<leftarrow> on_device (api_ReadBratchAddr api (i32_at h 0) (bratchAddrs input (nat len)));
       let safeResult = ClampIntCount (ClampNonNegativeCount r (length output));
       sc_send api (i32_bytes safeResult);
       sendSeq api (concat (map (\<lambda>(addr, data).
           [u64_bytes addr, u32_bytes (of_nat (length data))] @ (if data \<noteq> [] then [data] else []))
         (take (nat safeResult) output)));
       State_Monad.return 0 }}"

definition case_SYMBOL_INIT :: "'d CApi \<Rightarrow> ('d, int) server" where
  "case_SYMBOL_INIT api =
     receive_or 12 (do { sc_send api (i32_bytes (- 1) @ i32_bytes 0); State_Monad.return 0 }) (\<lambda>input. do {
       n \<leftarrow> on_device (api_SymbolInit api (i32_at input 0) (u64_at input 4));
       sc_send api (i32_bytes (if n \<ge> 0 then 0 else - 1) @ i32_bytes (if n \<ge> 0 then n else 0));
       State_Monad.return 0 })"

definition symbolParts :: "u64 \<times> string \<Rightarrow> bytes list" where
  "symbolParts e = (case e of (addr, name) \<Rightarrow>
     let nameSize = ClampIntCount (length name) in
     (u64_bytes addr @ i32_bytes nameSize) # (if nameSize > 0 then [bytes_of (take (nat nameSize) name)] else []))"

definition case_SYMBOL_GETLIST :: "'d CApi \<Rightarrow> ('d, int) server" where
  "case_SYMBOL_GETLIST api =
     receive_or 8 (do { sc_send api (i32_bytes 0 @ i32_bytes 0); State_Monad.return 0 }) (\<lambda>input. do {
       symbols \<leftarrow> on_device (api_SymbolGetList api (i32_at input 0) (i32_at input 4));
       totalCount \<leftarrow> on_device (api_SymbolGetCount api);
       let actualCount = ClampIntCount (length symbols);
       sc_send api (i32_bytes totalCount @ i32_bytes actualCount);
       sendEach api (concat (map symbolParts (take (nat actualCount) symbols)));
       State_Monad.return 0 })"

text \<open>The two lookups by name, \<open>CMD_SYMBOL_FIND\<close> and \<open>CMD_GETSOBASE\<close>, whose requests announce a name of at most 4096 bytes.\<close>

definition find_reply :: "'d CApi \<Rightarrow> u64 \<Rightarrow> ('d, int) server" where
  "find_reply api addr = do {
     sc_send api (if addr \<noteq> 0 then i32_bytes 0 @ u64_bytes addr else i32_bytes (- 1) @ u64_bytes 0);
     State_Monad.return 0 }"

definition case_SYMBOL_FIND :: "'d CApi \<Rightarrow> ('d, int) server" where
  "case_SYMBOL_FIND api =
     receive_or 16 (find_reply api 0) (\<lambda>input.
       let nameSize = i32_at input 12 in
       if nameSize > 0 \<and> nameSize \<le> 4096
       then receive_or (nat nameSize) (find_reply api 0) (\<lambda>nameBuf. do {
         addr \<leftarrow> on_device (api_SymbolFind api (i32_at input 0) (u64_at input 4) (chars_of nameBuf));
         find_reply api addr })
       else find_reply api 0)"

definition case_GETSOBASE :: "'d CApi \<Rightarrow> ('d, int) server" where
  "case_GETSOBASE api =
     receive_or 8 (find_reply api 0) (\<lambda>input.
       let nameSize = i32_at input 4 in
       if nameSize > 0 \<and> nameSize \<le> 4096
       then receive_or (nat nameSize) (find_reply api 0) (\<lambda>nameBuf. do {
         base \<leftarrow> on_device (api_GetSoBase api (i32_at input 0) (chars_of nameBuf));
         find_reply api base })
       else find_reply api 0)"

definition DispatchCommand_V2 :: "'d CApi \<Rightarrow> u8 \<Rightarrow> ('d, int) server" where
  "DispatchCommand_V2 api command =
     (if command = CMD_GETVERSION then case_GETVERSION api
      else if command = CMD_GETMEMTYPE then case_GETMEMTYPE api
      else if command = CMD_CLOSECONNECTION then case_CLOSECONNECTION
      else if command = CMD_TERMINATESERVER then case_TERMINATESERVER
      else if command = CMD_CLOSEHANDLE then case_CLOSEHANDLE api
      else if command = CMD_OPENPROCESS then case_OPENPROCESS api
      else if command = CMD_READPROCESSMEMORY then case_READPROCESSMEMORY api
      else if command = CMD_WRITEPROCESSMEMORY then case_WRITEPROCESSMEMORY api
      else if command = CMD_GETPROCESSLIST then case_GETPROCESSLIST api
      else if command = CMD_GETMODULELIST then case_GETMODULELIST api
      else if command = CMD_READBRATCHMEMORY then case_READBRATCHMEMORY api
      else if command = CMD_INITRWDRIVER then case_INITRWDRIVER api
      else if command = CMD_SETKERNELHWBPRECLAIM then case_SETKERNELHWBPRECLAIM api
      else if command = CMD_KERNEL_SETBREAKPOINT then case_SETBREAKPOINT api
      else if command = CMD_KERNEL_REMOVEBREAKPOINT then case_BREAKPOINT api (api_RemoveBreakpoint api)
      else if command = CMD_KERNEL_SUSPENDBREAKPOINT then case_BREAKPOINT api (api_SuspendBreakpoint api)
      else if command = CMD_KERNEL_RESUMEBREAKPOINT then case_BREAKPOINT api (api_ResumeBreakpoint api)
      else if command = CMD_KERNEL_READHWBPINFO then case_READHWBPINFO api
      else if command = CMD_KERNEL_QUERYHWBPTHREADS then case_QUERYHWBPTHREADS api
      else if command = CMD_KERNEL_UXN_INSTALL then case_UXN_INSTALL api
      else if command = CMD_KERNEL_UXN_REMOVE then case_UXN_REMOVE api
      else if command = CMD_KERNEL_UXN_WAIT then case_UXN_WAIT api
      else if command = CMD_KERNEL_UXN_RESUME then case_UXN_RESUME api
      else if command = CMD_KERNEL_UXN_STATUS then case_UXN_STATUS api
      else if command = CMD_KERNEL_UXN_CLEAR then case_UXN_CLEAR api
      else if command = CMD_READBRATCHADDR then case_READBRATCHADDR api
      else if command = CMD_SYMBOL_INIT then case_SYMBOL_INIT api
      else if command = CMD_SYMBOL_GETLIST then case_SYMBOL_GETLIST api
      else if command = CMD_SYMBOL_FIND then case_SYMBOL_FIND api
      else if command = CMD_GETSOBASE then case_GETSOBASE api
      else State_Monad.return 0)"

section \<open>The worker of a connection\<close>

text \<open>
  One round of \<open>WorkerThread\<close>, and the whole loop on the bytes of a connection that the client has closed: it ends when
  there is no opcode left or the connection has been closed by a command. \<open>stopped\<close> is false while the server runs.
\<close>

definition workerRound :: "'d CApi \<Rightarrow> ('d, bool) server" where
  "workerRound api = do {
     s \<leftarrow> State_Monad.get;
     if \<not> sc_open s then State_Monad.return False
     else receive_or 1 (State_Monad.return False) (\<lambda>command. do {
       DispatchCommand_V2 api (command ! 0);
       State_Monad.return True }) }"

fun workerLoop :: "'d CApi \<Rightarrow> nat \<Rightarrow> ('d, unit) server" where
  "workerLoop api 0 = State_Monad.return ()"
| "workerLoop api (Suc rounds) = do {
     continue \<leftarrow> workerRound api;
     if continue then workerLoop api rounds else State_Monad.return () }"

definition WorkerThread :: "'d CApi \<Rightarrow> ('d, unit) server" where
  "WorkerThread api = do { s \<leftarrow> State_Monad.get; workerLoop api (Suc (length (sc_in s))) }"

section \<open>What a round reads\<close>

declare run_state_bind [simp del]

text \<open>
  \<open>no_input m\<close>: \<open>m\<close> leaves the input and the connection alone. \<open>reads_from r m\<close>: when the input starts with \<open>r\<close>, then \<open>m\<close> reads
  \<open>r\<close> and nothing else.
\<close>

abbreviation no_input :: "('d, 'a) server \<Rightarrow> bool" where
  "no_input m \<equiv> keeps (\<lambda>_. True) (\<lambda>s. (sc_in s, sc_open s)) m"

definition reads_from :: "bytes \<Rightarrow> ('d, 'a) server \<Rightarrow> bool" where
  "reads_from r m \<longleftrightarrow> (\<forall>s t a s'. sc_open s \<and> sc_in s = r @ t \<and> run_state m s = (a, s') \<longrightarrow> sc_in s' = t)"

lemma no_input_on_device [keeps_intros]: "no_input (on_device m)"
  by (auto simp: keeps_def on_device_def split: prod.splits)

lemma no_input_send [keeps_intros]: "no_input (sc_send api data)"
proof -
  have "no_input State_Monad.get" "\<And>bs. no_input (State_Monad.update (\<lambda>s. s\<lparr>sc_out := sc_out s @ bs\<rparr>))"
    by (auto simp: keeps_def State_Monad.get_def State_Monad.update_def State_Monad.set_def run_state_bind)
  then show ?thesis unfolding sc_send_def by (intro keeps_intros)
qed

lemma no_input_sends [keeps_intros]: "no_input (sendSeq api bs)" "no_input (sendEach api bs)"
  by (induction bs) (auto intro!: keeps_intros)

lemma no_input_sendThreads [keeps_intros]: "no_input (sendThreads api capacity ts)"
  by (induction ts) (auto simp: Let_def intro!: keeps_intros)

lemma no_input_replies [keeps_intros]: "no_input (uxn_reply api ok e payload)" "no_input (find_reply api addr)"
  unfolding uxn_reply_def SendUxnResponse_def find_reply_def by (intro keeps_intros)+

lemma reads_fromI:
  "(\<And>s t a s'. sc_open s \<Longrightarrow> sc_in s = r @ t \<Longrightarrow> run_state m s = (a, s') \<Longrightarrow> sc_in s' = t) \<Longrightarrow> reads_from r m"
  unfolding reads_from_def by blast

lemma reads_fromD:
  "reads_from r m \<Longrightarrow> run_state m s = (a, s') \<Longrightarrow> sc_open s \<Longrightarrow> sc_in s = r @ t \<Longrightarrow> sc_in s' = t"
  unfolding reads_from_def by blast

lemma reads_end: "no_input m \<Longrightarrow> r = [] \<Longrightarrow> reads_from r m"
  by (rule reads_fromI) (auto dest: keepsD)

lemma reads_bind:
  assumes "no_input m" "\<And>a. reads_from r (k a)"
  shows "reads_from r (State_Monad.bind m k)"
proof (rule reads_fromI, elim run_bindE)
  fix s t a s' b s1
  assume "sc_open s" "sc_in s = r @ t" "run_state m s = (b, s1)" "run_state (k b) s1 = (a, s')"
  with keepsD [OF assms(1)] reads_fromD [OF assms(2)] show "sc_in s' = t" by (metis prod.inject)
qed

lemma reads_if:
  "(b \<Longrightarrow> reads_from r m) \<Longrightarrow> (\<not> b \<Longrightarrow> reads_from r n) \<Longrightarrow> reads_from r (if b then m else n)"
  by simp

lemma reads_let: "reads_from r (k x) \<Longrightarrow> reads_from r (let y = x in k y)"
  by simp

lemma reads_case_prod: "(\<And>a b. reads_from r (g a b)) \<Longrightarrow> reads_from r (case x of (a, b) \<Rightarrow> g a b)"
  by (cases x) auto

lemma run_receive:
  "sc_open s \<Longrightarrow> length buf \<le> length (sc_in s) \<Longrightarrow>
     run_state (sc_receive buf) s =
       ((True, take (length buf) (sc_in s)), s\<lparr>sc_in := drop (length buf) (sc_in s)\<rparr>)"
  by (simp add: sc_receive_def Let_def)

lemma reads_receive_or:
  assumes "n \<le> length r" "reads_from (drop n r) (k (take n r))"
  shows "reads_from r (receive_or n failed k)"
proof (rule reads_fromI)
  fix s t a s'
  assume s: "sc_open s" "sc_in s = r @ t" and run: "run_state (receive_or n failed k) s = (a, s')"
  from s assms(1) run have "run_state (k (take n r)) (s\<lparr>sc_in := drop n r @ t\<rparr>) = (a, s')"
    unfolding receive_or_def by (simp add: run_state_bind run_receive)
  from reads_fromD [OF assms(2) this] s show "sc_in s' = t" by simp
qed

lemma reads_receive_into:
  assumes "length buf \<le> length r" "reads_from (drop (length buf) r) (k (take (length buf) r))"
  shows "reads_from r (do { b \<leftarrow> receive_into buf; k b })"
proof (rule reads_fromI)
  fix s t a s'
  assume s: "sc_open s" "sc_in s = r @ t" and run: "run_state (do { b \<leftarrow> receive_into buf; k b }) s = (a, s')"
  from s assms(1) run have "run_state (k (take (length buf) r)) (s\<lparr>sc_in := drop (length buf) r @ t\<rparr>) = (a, s')"
    unfolding receive_into_def by (simp add: run_state_bind run_receive)
  from reads_fromD [OF assms(2) this] s show "sc_in s' = t" by simp
qed

lemma reads_receive_junk:
  assumes "n \<le> length r" "reads_from (drop n r) (k (take n r))"
  shows "reads_from r (do { b \<leftarrow> receive_junk api n; k b })"
  unfolding receive_junk_def State_Monad.bind_assoc
proof (rule reads_bind [OF no_input_on_device])
  fix junk :: bytes
  have n: "length (take n (junk @ replicate n 0)) = n" by auto
  show "reads_from r (do { b \<leftarrow> receive_into (take n (junk @ replicate n 0)); k b })"
    by (rule reads_receive_into) (use assms n in \<open>simp_all only:\<close>)
qed

lemma reads_close: "reads_from [] case_CLOSECONNECTION" "reads_from [] case_TERMINATESERVER"
  by (auto simp: reads_from_def case_CLOSECONNECTION_def case_TERMINATESERVER_def sc_close_def
      State_Monad.update_def State_Monad.get_def State_Monad.set_def run_state_bind)

lemmas reads_intros = reads_receive_or reads_receive_into reads_receive_junk

lemma reads_fixed:
  "reads_from [] (case_GETVERSION api)" "reads_from [] (case_GETMEMTYPE api)"
  "reads_from [] (case_GETPROCESSLIST api)" "reads_from [] (case_UXN_CLEAR api)"
  "length r = 4 \<Longrightarrow> reads_from r (case_CLOSEHANDLE api)"
  "length r = 4 \<Longrightarrow> reads_from r (case_OPENPROCESS api)"
  "length r = 17 \<Longrightarrow> reads_from r (case_READPROCESSMEMORY api)"
  "length r = 4 \<Longrightarrow> reads_from r (case_GETMODULELIST api)"
  "length r = 16 \<Longrightarrow> reads_from r (case_READBRATCHMEMORY api)"
  "length r = 1 \<Longrightarrow> reads_from r (case_SETKERNELHWBPRECLAIM api)"
  "length r = 20 \<Longrightarrow> reads_from r (case_SETBREAKPOINT api)"
  "length r = 12 \<Longrightarrow> reads_from r (case_BREAKPOINT api operation)"
  "length r = 12 \<Longrightarrow> reads_from r (case_READHWBPINFO api)"
  "length r = 8 \<Longrightarrow> reads_from r (case_QUERYHWBPTHREADS api)"
  "length r = 16 \<Longrightarrow> reads_from r (case_UXN_INSTALL api)"
  "length r = 12 \<Longrightarrow> reads_from r (case_UXN_REMOVE api)"
  "length r = 16 \<Longrightarrow> reads_from r (case_UXN_WAIT api)"
  "length r = 280 \<Longrightarrow> reads_from r (case_UXN_RESUME api)"
  "length r = 4 \<Longrightarrow> reads_from r (case_UXN_STATUS api)"
  "length r = 12 \<Longrightarrow> reads_from r (case_SYMBOL_INIT api)"
  "length r = 8 \<Longrightarrow> reads_from r (case_SYMBOL_GETLIST api)"
  unfolding case_GETVERSION_def case_GETMEMTYPE_def case_GETPROCESSLIST_def case_UXN_CLEAR_def
    case_CLOSEHANDLE_def case_OPENPROCESS_def case_READPROCESSMEMORY_def case_GETMODULELIST_def
    case_READBRATCHMEMORY_def case_SETKERNELHWBPRECLAIM_def case_SETBREAKPOINT_def case_BREAKPOINT_def
    case_READHWBPINFO_def case_QUERYHWBPTHREADS_def case_UXN_INSTALL_def case_UXN_REMOVE_def case_UXN_WAIT_def
    case_UXN_RESUME_def case_UXN_STATUS_def case_SYMBOL_INIT_def case_SYMBOL_GETLIST_def
  by ((intro reads_intros)?; (rule reads_end, intro keeps_intros)?; simp)+

text \<open>The cases whose fixed part \<open>f\<close> announces a variable part \<open>v\<close>.\<close>

lemma reads_append:
  "length f = n \<Longrightarrow> reads_from v (k f) \<Longrightarrow> reads_from (f @ v) (receive_or n failed k)"
  "length f = n \<Longrightarrow> reads_from v (j f) \<Longrightarrow> reads_from (f @ v) (do { b \<leftarrow> receive_junk api n; j b })"
  "length f = length buf \<Longrightarrow> reads_from v (l f) \<Longrightarrow> reads_from (f @ v) (do { b \<leftarrow> receive_into buf; l b })"
  using reads_receive_or [of n "f @ v" k failed] reads_receive_junk [of n "f @ v" j api]
    reads_receive_into [of buf "f @ v" l] by simp_all

lemma reads_rest:
  "length v = n \<Longrightarrow> no_input (k v) \<Longrightarrow> reads_from v (receive_or n failed k)"
  "length v = length buf \<Longrightarrow> no_input (l v) \<Longrightarrow> reads_from v (do { b \<leftarrow> receive_into buf; l b })"
  using reads_append(1) [of v n "[]" k failed] reads_append(3) [of v buf "[]" l] by (simp_all add: reads_end)

lemma reads_variable:
  "length f = 16 \<Longrightarrow> length v = variableSize CMD_WRITEPROCESSMEMORY f \<Longrightarrow>
     reads_from (f @ v) (case_WRITEPROCESSMEMORY api)"
  "length f = 4 \<Longrightarrow> length v = variableSize CMD_INITRWDRIVER f \<Longrightarrow> reads_from (f @ v) (case_INITRWDRIVER api)"
  "length f = 16 \<Longrightarrow> length v = variableSize CMD_SYMBOL_FIND f \<Longrightarrow> reads_from (f @ v) (case_SYMBOL_FIND api)"
  "length f = 8 \<Longrightarrow> length v = variableSize CMD_GETSOBASE f \<Longrightarrow> reads_from (f @ v) (case_GETSOBASE api)"
  unfolding case_WRITEPROCESSMEMORY_def case_INITRWDRIVER_def case_SYMBOL_FIND_def case_GETSOBASE_def Let_def
  by (rule reads_append, assumption, intro reads_if reads_rest;
      (rule reads_end)?; (intro keeps_intros)?; simp add: variableSize_def Let_def)+

lemma reads_READBRATCHADDR:
  assumes "length f = 8" "length v = variableSize CMD_READBRATCHADDR f"
  shows "reads_from (f @ v) (case_READBRATCHADDR api)"
proof -
  have f: "f @ v = take 4 f @ drop 4 f @ v" by simp
  have l: "i32_at (drop 4 f) 0 = i32_at f 4" by (simp add: i32_at_def u32_at_def)
  show ?thesis
    unfolding case_READBRATCHADDR_def Let_def
    by (subst f, rule reads_append(3), simp add: assms, rule reads_append(2), simp add: assms,
        intro reads_if reads_rest; (rule reads_end)?; (intro keeps_intros)?;
        use assms in \<open>simp add: l variableSize_def Let_def\<close>)
qed

lemma DispatchCommand_reads:
  assumes "length f = fixedSize c" "length v = variableSize c f"
  shows "reads_from (f @ v) (DispatchCommand_V2 api c)"
proof (cases "c \<in> {CMD_WRITEPROCESSMEMORY, CMD_INITRWDRIVER, CMD_READBRATCHADDR, CMD_SYMBOL_FIND, CMD_GETSOBASE}")
  case True
  then show ?thesis
    using assms reads_variable [of f v api] reads_READBRATCHADDR [of f v api]
    by (auto simp: DispatchCommand_V2_def fixedSize_def)
next
  case False
  with assms(2) have "v = []" by (simp add: variableSize_def)
  moreover have "reads_from f (DispatchCommand_V2 api c)"
    unfolding DispatchCommand_V2_def
    by (intro reads_if; (rule reads_fixed)?; use False assms(1) in \<open>simp add: fixedSize_def reads_fixed reads_close reads_end keeps_return\<close>)
  ultimately show ?thesis by simp
qed

section \<open>The worker refines the reading plan\<close>

lemma workerRound_reads:
  assumes "sc_open s" "requestSize (sc_in s) = Some n" "n \<le> length (sc_in s)"
    and run: "run_state (workerRound api) s = (a, s')"
  shows "a \<and> sc_in s' = drop n (sc_in s)"
proof -
  obtain c r where cr: "sc_in s = c # r" using assms(2) by (cases "sc_in s") auto
  let ?f = "take (fixedSize c) r"
  from assms(2) cr have len: "fixedSize c \<le> length r" and n: "n = 1 + fixedSize c + variableSize c ?f"
    by (auto split: if_splits)
  let ?v = "take (variableSize c ?f) (drop (fixedSize c) r)"
  have r: "r = (?f @ ?v) @ drop n (sc_in s)"
    using cr n by (simp add: drop_drop add.commute) (metis append_take_drop_id drop_drop add.commute)
  have v: "length ?f = fixedSize c" "length ?v = variableSize c ?f"
    using len n assms(3) cr by auto
  have "run_state (receive_or 1 (State_Monad.return False) (\<lambda>command. do {
       DispatchCommand_V2 api (command ! 0); State_Monad.return True })) s = (a, s')"
    using run assms(1) by (simp add: workerRound_def State_Monad.get_def run_state_bind)
  then obtain b where b: "run_state (DispatchCommand_V2 api c) (s\<lparr>sc_in := r\<rparr>) = (b, s')" and "a"
    unfolding receive_or_def using assms(1) cr
    by (auto simp: run_state_bind run_receive split: prod.splits)
  moreover have "sc_in s' = drop n (sc_in s)"
    by (rule reads_fromD [OF DispatchCommand_reads [OF v] b]) (use assms(1) r in auto)
  ultimately show ?thesis by simp
qed

text \<open>
  \<open>roundInputs\<close> are the bytes that the rounds of the worker read, one list for each round. A client's
  \<open>CMD_CLOSECONNECTION\<close> or \<open>CMD_TERMINATESERVER\<close> ends the worker; \<open>takeThrough\<close> cuts a list behind its first such request.
\<close>

fun roundInputs :: "'d CApi \<Rightarrow> nat \<Rightarrow> 'd ServerConn \<Rightarrow> bytes list" where
  "roundInputs api 0 s = []"
| "roundInputs api (Suc rounds) s =
     (case run_state (workerRound api) s of (continue, s') \<Rightarrow>
        if continue
        then take (length (sc_in s) - length (sc_in s')) (sc_in s) # roundInputs api rounds s'
        else [])"

definition closing :: "bytes \<Rightarrow> bool" where
  "closing r \<longleftrightarrow> r \<noteq> [] \<and> hd r \<in> {CMD_CLOSECONNECTION, CMD_TERMINATESERVER}"

fun takeThrough :: "('a \<Rightarrow> bool) \<Rightarrow> 'a list \<Rightarrow> 'a list" where
  "takeThrough P [] = []"
| "takeThrough P (x # xs) = (if P x then [x] else x # takeThrough P xs)"

text \<open>Only these two commands close the connection.\<close>

abbreviation keeps_open :: "('d, 'a) server \<Rightarrow> bool" where
  "keeps_open m \<equiv> keeps (\<lambda>_. True) sc_open m"

lemma no_input_keeps_open: "no_input m \<Longrightarrow> keeps_open m"
  by (auto simp: keeps_def)

lemma keeps_open_receive: "keeps_open (sc_receive buf)"
  by (auto simp: keeps_def sc_receive_def Let_def)

lemma keeps_open_receives [keeps_intros]:
  "keeps_open (receive_into buf)" "keeps_open (receive_junk api n)"
  "keeps_open failed \<Longrightarrow> (\<And>b. keeps_open (k b)) \<Longrightarrow> keeps_open (receive_or n failed k)"
  unfolding receive_into_def receive_junk_def receive_or_def
  by (intro keeps_intros keeps_open_receive no_input_keeps_open [OF no_input_on_device])+

lemmas keeps_open_others [keeps_intros] = no_input_on_device [THEN no_input_keeps_open]
  no_input_send [THEN no_input_keeps_open] no_input_sends [THEN no_input_keeps_open]
  no_input_sendThreads [THEN no_input_keeps_open] no_input_replies [THEN no_input_keeps_open]

lemma DispatchCommand_open:
  assumes "c \<notin> {CMD_CLOSECONNECTION, CMD_TERMINATESERVER}"
  shows "keeps_open (DispatchCommand_V2 api c)"
  using assms
  unfolding DispatchCommand_V2_def case_GETVERSION_def case_GETMEMTYPE_def case_GETPROCESSLIST_def
    case_UXN_CLEAR_def case_CLOSEHANDLE_def case_OPENPROCESS_def case_READPROCESSMEMORY_def case_GETMODULELIST_def
    case_READBRATCHMEMORY_def case_SETKERNELHWBPRECLAIM_def case_SETBREAKPOINT_def case_BREAKPOINT_def
    case_READHWBPINFO_def case_QUERYHWBPTHREADS_def case_UXN_INSTALL_def case_UXN_REMOVE_def case_UXN_WAIT_def
    case_UXN_RESUME_def case_UXN_STATUS_def case_SYMBOL_INIT_def case_SYMBOL_GETLIST_def
    case_WRITEPROCESSMEMORY_def case_INITRWDRIVER_def case_SYMBOL_FIND_def case_GETSOBASE_def
    case_READBRATCHADDR_def Let_def
  by (intro keeps_intros; simp)

lemma workerRound_open:
  assumes "sc_open s" "sc_in s = c # r" "run_state (workerRound api) s = (a, s')"
  shows "sc_open s' \<longleftrightarrow> \<not> closing (c # r)"
proof -
  have "run_state (receive_or 1 (State_Monad.return False) (\<lambda>command. do {
       DispatchCommand_V2 api (command ! 0); State_Monad.return True })) s = (a, s')"
    using assms by (simp add: workerRound_def State_Monad.get_def run_state_bind)
  then obtain b where b: "run_state (DispatchCommand_V2 api c) (s\<lparr>sc_in := r\<rparr>) = (b, s')"
    unfolding receive_or_def using assms(1,2)
    by (auto simp: run_state_bind run_receive split: prod.splits)
  show ?thesis
  proof (cases "c \<in> {CMD_CLOSECONNECTION, CMD_TERMINATESERVER}")
    case True
    with b show ?thesis
      by (auto simp: DispatchCommand_V2_def case_CLOSECONNECTION_def case_TERMINATESERVER_def sc_close_def
          closing_def State_Monad.update_def State_Monad.get_def State_Monad.set_def run_state_bind)
  next
    case False
    from keepsD [OF DispatchCommand_open [OF False] b] False assms(1) show ?thesis by (simp add: closing_def)
  qed
qed

lemma workerRound_stops: "\<not> sc_open s \<or> sc_in s = [] \<Longrightarrow> run_state (workerRound api) s = (False, s)"
  by (auto simp: workerRound_def State_Monad.get_def run_state_bind receive_or_def sc_receive_def)

lemma roundInputs_stop: "\<not> sc_open s \<or> sc_in s = [] \<Longrightarrow> roundInputs api rounds s = []"
  by (cases rounds) (simp_all add: workerRound_stops)

text \<open>
  C6. The server's worker reads a connection request by request, as the reading plan says. On a stream of whole
  requests, whatever the device does and whether or not the answers can be sent, each round reads exactly one
  request of \<open>completeRequests\<close>, in order, until the stream ends or a request closes the connection. So the
  plan, on which the client's invariant rests, is what the dispatcher implements.
\<close>

theorem worker_reads_completeRequests:
  assumes "inSync (sc_in s)" "sc_open s" "length (sc_in s) < rounds"
  shows "roundInputs api rounds s = takeThrough closing (completeRequests (sc_in s))"
  using assms
proof (induction rounds arbitrary: s)
  case (Suc rounds)
  show ?case
  proof (cases "sc_in s = []")
    case False
    with Suc.prems(1) obtain n where n: "requestSize (sc_in s) = Some n" "n \<le> length (sc_in s)"
      "inSync (drop n (sc_in s))" "0 < n" by (rule inSync_cases)
    obtain a s' where run: "run_state (workerRound api) s = (a, s')" by fastforce
    from workerRound_reads [OF Suc.prems(2) n(1,2) run] have a: a and s': "sc_in s' = drop n (sc_in s)" by auto
    obtain c r where cr: "sc_in s = c # r" using False by (cases "sc_in s") auto
    have "closing (take n (sc_in s)) = closing (sc_in s)" using n(4) cr by (cases n) (auto simp: closing_def)
    with workerRound_open [OF Suc.prems(2) cr run] cr
    have op: "sc_open s' \<longleftrightarrow> \<not> closing (take n (sc_in s))" by simp
    have step: "completeRequests (sc_in s) = take n (sc_in s) # completeRequests (drop n (sc_in s))"
      using completeRequests_step [OF n(1,2), of "[]"] by simp
    have "roundInputs api (Suc rounds) s = take n (sc_in s) # roundInputs api rounds s'"
      using run a s' n(2) by simp
    moreover have "length (drop n (sc_in s)) < rounds" using n(2,4) Suc.prems(3) by simp
    then have "roundInputs api rounds s' =
        (if sc_open s' then takeThrough closing (completeRequests (drop n (sc_in s))) else [])"
      using Suc.IH [of s'] s' n(3,4) Suc.prems(3) roundInputs_stop [of s'] by auto
    ultimately show ?thesis using step op by simp
  qed (simp add: workerRound_stops)
qed simp

text \<open>A device on which every call fails, for examples; they override single functions of it.\<close>

definition null_api :: "'d CApi" where
  "null_api =
     \<lparr>api_send = (\<lambda>data. State_Monad.return (length data)), api_junk = (\<lambda>n. State_Monad.return (replicate n 0)),
      api_GetRWDriverType = State_Monad.return 0, api_CloseHandle = (\<lambda>_. State_Monad.return ()),
      api_OpenProcess = (\<lambda>_. State_Monad.return 0),
      api_ReadProcessMemory = (\<lambda>_ _ buf. State_Monad.return (0, buf)),
      api_WriteProcessMemory = (\<lambda>_ _ _. State_Monad.return 0),
      api_GetProcessListInfo = State_Monad.return [], api_GetModuleList = (\<lambda>_. State_Monad.return []),
      api_ReadBratchMemory = (\<lambda>_ _ _. State_Monad.return (0, [])),
      api_InitReadWriteDriver = (\<lambda>_. State_Monad.return (0, [])),
      api_SetKernelBreakpointForceReclaim = (\<lambda>_. State_Monad.return 0),
      api_SetBreakpoint = (\<lambda>_ _ _ _. State_Monad.return 0),
      api_RemoveBreakpoint = (\<lambda>_ _. State_Monad.return 0),
      api_SuspendBreakpoint = (\<lambda>_ _. State_Monad.return 0),
      api_ResumeBreakpoint = (\<lambda>_ _. State_Monad.return 0),
      api_ReadHwBpInfo = (\<lambda>_ _. State_Monad.return (0, 0, [])),
      api_QueryHardwareBreakpointThreads = (\<lambda>_ _. State_Monad.return (False, [])),
      api_InstallUxnBreakpoint = (\<lambda>_ _ _. State_Monad.return (False, replicate 24 0, 1)),
      api_RemoveUxnBreakpoint = (\<lambda>_ _. State_Monad.return (False, 1)),
      api_WaitUxnBreakpoint = (\<lambda>_ _ _. State_Monad.return (False, replicate 880 0, 1)),
      api_ResumeUxnBreakpoint = (\<lambda>_. State_Monad.return (False, 1)),
      api_GetUxnBreakpointStatus = (\<lambda>_. State_Monad.return (False, replicate 80 0, 1)),
      api_ClearUxnBreakpoints = State_Monad.return (False, 1),
      api_ReadBratchAddr = (\<lambda>_ _. State_Monad.return (0, [])),
      api_SymbolInit = (\<lambda>_ _. State_Monad.return (- 1)), api_SymbolGetCount = State_Monad.return 0,
      api_SymbolGetList = (\<lambda>_ _. State_Monad.return []), api_SymbolFind = (\<lambda>_ _ _. State_Monad.return 0),
      api_GetSoBase = (\<lambda>_ _. State_Monad.return 0)\<rparr>"

lemma demo_requests: "completeRequests [CMD_GETMEMTYPE, CMD_CLOSECONNECTION, CMD_GETVERSION] =
    [[CMD_GETMEMTYPE], [CMD_CLOSECONNECTION], [CMD_GETVERSION]]"
  by (simp add: completeRequests.simps [of "_ # _"] fixedSize_def variableSize_def)

theorem worker_reads_completeRequests_witness:
  "roundInputs null_api 4 \<lparr>sc_in = [CMD_GETMEMTYPE, CMD_CLOSECONNECTION, CMD_GETVERSION], sc_out = [],
     sc_open = True, sc_running = True, sc_device = ()\<rparr> = [[CMD_GETMEMTYPE], [CMD_CLOSECONNECTION]]"
  using worker_reads_completeRequests [of "\<lparr>sc_in = [CMD_GETMEMTYPE, CMD_CLOSECONNECTION, CMD_GETVERSION],
      sc_out = [], sc_open = True, sc_running = True, sc_device = ()\<rparr>" 4 null_api]
  by (simp add: inSync_def demo_requests closing_def)

end
