(* ===== verification/ServerBreakpoints.thy ===== *)
theory ServerBreakpoints
  imports ServerApi CEServer
begin

text \<open>
  The operations of \<open>engine/ceserver/api.cpp\<close> on breakpoints, and the whole of \<open>CApi\<close> as the interface that the dispatcher of
  \<open>CEServer.cpp\<close> calls.

  A process has a table from addresses to the handles of its breakpoints. \<open>SetBreakpoint\<close> goes to the driver's engine in kernel mode and to the
  perf engine otherwise; the other operations ask which engine owns a handle.
\<close>

section \<open>Hardware breakpoints\<close>

text \<open>The process behind a handle, for the operations that need a process with an identifier.\<close>

definition with_process :: "int \<Rightarrow> 'a \<Rightarrow> (nat \<Rightarrow> CeOpenProcess \<Rightarrow> ('k, 'a) device) \<Rightarrow> ('k, 'a) device" where
  "with_process h none f = if_process h none (do {
     p \<leftarrow> GetPointerFromHandle h;
     if p = 0 then State_Monad.return none
     else do {
       pd \<leftarrow> process_at p;
       if op_pid pd = 0 then State_Monad.return none else f p pd }})"

abbreviation "HW_BREAKPOINT_X \<equiv> 4 :: int"

definition install_breakpoint :: "'k Os \<Rightarrow> bool \<Rightarrow> bool \<Rightarrow> int \<Rightarrow> u64 \<Rightarrow> int \<Rightarrow> int \<Rightarrow> ('k, u64) device" where
  "install_breakpoint os useKernel forceReclaim pid address bpType bpSize =
     (let len = (if bpType = HW_BREAKPOINT_X then 4 else of_int bpSize) in
      if useKernel then on_kbp (kbp_AddProcessHwBp os pid address len (of_int bpType) forceReclaim)
      else on_perf (perf_AddProcessHwBp os pid address len (of_int bpType)))"

text \<open>
  The handles that an address had before are deleted: those of the perf engine in this engine, and all others at the driver.
\<close>

definition drop_old :: "'k Os \<Rightarrow> u64 \<Rightarrow> ('k, bool) device" where
  "drop_old os h = do {
     p \<leftarrow> on_perf (perf_Owns h);
     if p then on_perf (perf_DelProcessHwBp os h) else on_kdriver (drv_RemoveHardwareBreakpoint os h) }"

definition CApi_SetBreakpoint :: "'k Os \<Rightarrow> int \<Rightarrow> u64 \<Rightarrow> int \<Rightarrow> int \<Rightarrow> ('k, int) device" where
  "CApi_SetBreakpoint os h address bpType bpSize = do {
     useKernel \<leftarrow> on_engine kernel_ready;
     s \<leftarrow> State_Monad.get;
     let forceReclaim = (useKernel \<and> dv_forceReclaim s);
     with_process h 0 (\<lambda>p pd. do {
       hwBpHandle \<leftarrow> install_breakpoint os useKernel forceReclaim (op_pid pd) address bpType bpSize;
       if hwBpHandle = 0 then State_Monad.return 0
       else do {
         pd \<leftarrow> process_at p;
         let oldHandles = (case map_of (op_mHwBpList pd) address of None \<Rightarrow> [] | Some hs \<Rightarrow> hs);
         put_process p (\<lambda>pd. pd\<lparr>op_mHwBpList := om_put address [hwBpHandle] (op_mHwBpList pd)\<rparr>);
         for_each (drop_old os) oldHandles;
         State_Monad.return 1 }}) }"

definition handles_at :: "u64 \<Rightarrow> CeOpenProcess \<Rightarrow> u64 list" where
  "handles_at hwaddr pd = (case map_of (op_mHwBpList pd) hwaddr of None \<Rightarrow> [] | Some hs \<Rightarrow> hs)"

definition CApi_RemoveBreakpoint :: "'k Os \<Rightarrow> int \<Rightarrow> u64 \<Rightarrow> ('k, int) device" where
  "CApi_RemoveBreakpoint os h hwaddr = with_process h 0 (\<lambda>p pd. do {
     put_process p (\<lambda>pd. pd\<lparr>op_mHwBpList := om_del hwaddr (op_mHwBpList pd)\<rparr>);
     for_each (\<lambda>x. by_owner x (perf_DelProcessHwBp os x) (kbp_DelProcessHwBp os x)
       (on_kdriver (drv_RemoveHardwareBreakpoint os x))) (handles_at hwaddr pd);
     State_Monad.return (if handles_at hwaddr pd \<noteq> [] then 1 else 0) })"

definition CApi_SuspendBreakpoint :: "'k Os \<Rightarrow> int \<Rightarrow> u64 \<Rightarrow> ('k, int) device" where
  "CApi_SuspendBreakpoint os h hwaddr = with_process h 0 (\<lambda>p pd. do {
     for_each (\<lambda>x. by_owner x (perf_SuspendProcessHwBp os x) (kbp_SuspendProcessHwBp os x)
       (on_kdriver (drv_DisableHardwareBreakpoint os x))) (handles_at hwaddr pd);
     State_Monad.return (if handles_at hwaddr pd \<noteq> [] then 1 else 0) })"

definition CApi_ResumeBreakpoint :: "'k Os \<Rightarrow> int \<Rightarrow> u64 \<Rightarrow> ('k, int) device" where
  "CApi_ResumeBreakpoint os h hwaddr = with_process h 0 (\<lambda>p pd. do {
     for_each (\<lambda>x. by_owner x (perf_ResumeProcessHwBp os x) (kbp_ResumeProcessHwBp os x)
       (on_kdriver (drv_EnableHardwareBreakpoint os x))) (handles_at hwaddr pd);
     State_Monad.return (if handles_at hwaddr pd \<noteq> [] then 1 else 0) })"

definition kMaxReturnedHitCount :: nat where
  "kMaxReturnedHitCount = 100000"

definition hit_bytes :: "HW_HIT_ITEM \<Rightarrow> bytes" where
  "hit_bytes i = u64_bytes (hw_hit_addr i) @ u64_bytes (hw_hit_time i) @ concat (map u64_bytes (hw_regs i))"

text \<open>The number of hits in all, and the records of the last ones.\<close>

definition CApi_ReadHwBpInfo :: "'k Os \<Rightarrow> int \<Rightarrow> u64 \<Rightarrow> ('k, int \<times> u64 \<times> HW_HIT_ITEM list) device" where
  "CApi_ReadHwBpInfo os h hwaddr = with_process h (0, 0, []) (\<lambda>p pd. do {
     rs \<leftarrow> for_each (\<lambda>x. by_owner x (perf_ReadHwBpInfo x) (kbp_ReadHwBpInfo os x)
       (on_kdriver (drv_ReadHardwareBreakpointInfo os x))) (handles_at hwaddr pd);
     let found = map the (filter (\<lambda>r. r \<noteq> None) rs);
     let items = concat (map snd found);
     let output = drop (length items - kMaxReturnedHitCount) items;
     State_Monad.return (int (length output), sum_list (map fst found), output) })"

section \<open>UXN breakpoints\<close>

definition with_uxn :: "int \<Rightarrow> (int \<Rightarrow> 'a) \<Rightarrow> (nat \<Rightarrow> CeOpenProcess \<Rightarrow> ('k, 'a) device) \<Rightarrow> ('k, 'a) device" where
  "with_uxn h failed f = if_process h (failed EBADF) (do {
     p \<leftarrow> GetPointerFromHandle h;
     if p = 0 then State_Monad.return (failed EBADF)
     else do {
       pd \<leftarrow> process_at p;
       if op_pid pd \<le> 0 then State_Monad.return (failed EBADF)
       else do {
         rdy \<leftarrow> on_engine kernel_ready;
         if \<not> rdy then State_Monad.return (failed ENODEV) else f p pd }}})"

definition CApi_InstallUxnBreakpoint :: "'k Os \<Rightarrow> int \<Rightarrow> u64 \<Rightarrow> u32 \<Rightarrow> ('k, bool \<times> bytes \<times> int) device" where
  "CApi_InstallUxnBreakpoint os h address flags =
     with_uxn h (\<lambda>err. (False, replicate 24 0, err)) (\<lambda>p pd.
       if address = 0 \<or> unat address mod 4 \<noteq> 0 \<or> flags \<noteq> 0 then State_Monad.return (False, replicate 24 0, EINVAL)
       else do {
         let pid = of_int (op_pid pd);
         ((success, errorCode), output) \<leftarrow> on_kdriver (drv_InstallUxnBreakpoint os
           (u32_bytes pid @ u32_bytes flags @ u64_bytes address @ replicate 8 0));
         if \<not> success then State_Monad.return (False, output, errorCode)
         else if u32_at output 0 \<noteq> pid \<or> u64_at output 8 \<noteq> address \<or> u32_at output 16 \<ge> NI_UXN_MAX_SLOTS then do {
           on_kdriver (drv_RemoveUxnBreakpoint os pid address);
           State_Monad.return (False, replicate 24 0, EPROTO) }
         else do {
           put_process p (\<lambda>pd. pd\<lparr>op_mUxnBpList := om_put address (u32_at output 16) (op_mUxnBpList pd)\<rparr>);
           State_Monad.return (True, output, 0) }})"

definition CApi_RemoveUxnBreakpoint :: "'k Os \<Rightarrow> int \<Rightarrow> u64 \<Rightarrow> ('k, bool \<times> int) device" where
  "CApi_RemoveUxnBreakpoint os h address =
     with_uxn h (\<lambda>err. (False, err)) (\<lambda>p pd.
       if address = 0 \<or> unat address mod 4 \<noteq> 0 then State_Monad.return (False, EINVAL)
       else do {
         (success, errorCode) \<leftarrow> on_kdriver (drv_RemoveUxnBreakpoint os (of_int (op_pid pd)) address);
         (if success \<or> errorCode = ENOENT
          then put_process p (\<lambda>pd. pd\<lparr>op_mUxnBpList := om_del address (op_mUxnBpList pd)\<rparr>) else State_Monad.return ());
         State_Monad.return (success, if success then 0 else errorCode) })"

definition if_uxn_ready :: "(int \<Rightarrow> 'a) \<Rightarrow> ('k, 'a) device \<Rightarrow> ('k, 'a) device" where
  "if_uxn_ready failed m = do {
     rdy \<leftarrow> on_engine kernel_ready;
     if \<not> rdy then State_Monad.return (failed ENODEV) else m }"

text \<open>The checks of an event that a wait delivered.\<close>

definition uxn_event_ok :: "u32 \<Rightarrow> u64 \<Rightarrow> bytes \<Rightarrow> bool" where
  "uxn_event_ok requestedSlot lastSequence event \<longleftrightarrow>
     u32_at event 0 < NI_UXN_MAX_SLOTS \<and> (requestedSlot = NI_UXN_WAIT_ANY_SLOT \<or> u32_at event 0 = requestedSlot) \<and>
     u32_at event 4 \<noteq> 0 \<and> u32_at event 8 \<noteq> 0 \<and> u32_at event 12 = 2 \<and> u64_at event 16 > lastSequence \<and>
     u64_at event 24 \<noteq> 0 \<and> unat (u64_at event 24) mod 4 = 0"

definition CApi_WaitUxnBreakpoint :: "'k Os \<Rightarrow> u32 \<Rightarrow> u32 \<Rightarrow> u64 \<Rightarrow> ('k, bool \<times> bytes \<times> int) device" where
  "CApi_WaitUxnBreakpoint os slot timeout_ms last_seq =
     (if timeout_ms = 0 \<or> timeout_ms > 60000 \<or> (slot \<noteq> NI_UXN_WAIT_ANY_SLOT \<and> slot \<ge> NI_UXN_MAX_SLOTS)
      then State_Monad.return (False, replicate 880 0, EINVAL)
      else if_uxn_ready (\<lambda>err. (False, replicate 880 0, err)) (do {
        ((success, errorCode), request) \<leftarrow> on_kdriver (drv_WaitUxnBreakpoint os
          (u32_bytes slot @ u32_bytes timeout_ms @ u64_bytes last_seq @ replicate 880 0));
        let event = drop 16 request;
        State_Monad.return (if \<not> success then (False, event, errorCode)
          else if \<not> uxn_event_ok slot last_seq event then (False, replicate 880 0, EPROTO)
          else (True, event, 0)) }))"

definition CApi_ResumeUxnBreakpoint :: "'k Os \<Rightarrow> bytes \<Rightarrow> ('k, bool \<times> int) device" where
  "CApi_ResumeUxnBreakpoint os request = if_uxn_ready (\<lambda>err. (False, err)) (do {
     (success, errorCode) \<leftarrow> on_kdriver (drv_ResumeUxnBreakpoint os request);
     State_Monad.return (success, if success then 0 else errorCode) })"

definition CApi_GetUxnBreakpointStatus :: "'k Os \<Rightarrow> u32 \<Rightarrow> ('k, bool \<times> bytes \<times> int) device" where
  "CApi_GetUxnBreakpointStatus os slot =
     if_uxn_ready (\<lambda>err. (False, u32_bytes slot @ replicate 76 0, err)) (do {
       ((success, errorCode), status) \<leftarrow> on_kdriver (drv_GetUxnBreakpointStatus os slot);
       State_Monad.return (success, status, if success then 0 else errorCode) })"

definition CApi_ClearUxnBreakpoints :: "'k Os \<Rightarrow> ('k, bool \<times> int) device" where
  "CApi_ClearUxnBreakpoints os = if_uxn_ready (\<lambda>err. (False, err)) (do {
     (success, errorCode) \<leftarrow> on_kdriver (drv_ClearUxnBreakpoints os);
     State_Monad.return (success, if success then 0 else errorCode) })"

section \<open>The breakpoints of the threads of a process\<close>

text \<open>The threads that \<open>/proc/<pid>/task\<close> lists, without duplicates and in order; more than 65536 of them are an error.\<close>

definition query_tids :: "'k Os \<Rightarrow> int \<Rightarrow> ('k, int list option) state" where
  "query_tids os pid = do {
     dir \<leftarrow> os_listdir os (proc_path pid ''task'');
     State_Monad.return (case dir of None \<Rightarrow> None
       | Some entries \<Rightarrow>
           let tids = filter (\<lambda>tid. 0 < tid \<and> tid \<le> int INT_MAX)
             (map (\<lambda>(name, _). int (dec_value name)) (filter (\<lambda>(name, _). name \<noteq> [] \<and> list_all isdigit name) entries)) in
           if length tids > 65536 then None else Some (sorted_list_of_set (set tids))) }"

definition to_task_entry :: "bytes \<Rightarrow> HwbpTaskEntryInfo" where
  "to_task_entry b = \<lparr>he_eventId = u64_at b 0, he_moduleHandle = u64_at b 8, he_address = u64_at b 16, he_tid = i32_at b 24,
     he_onCpu = i32_at b 28, he_type = u32_at b 32, he_length = u32_at b 36, he_state = u32_at b 40, he_source = u32_at b 44,
     he_flags = u32_at b 48\<rparr>"

definition to_thread_info :: "int \<Rightarrow> HardwareBreakpointTaskQueryResult \<Rightarrow> HwbpTaskThreadInfo" where
  "to_thread_info tid raw = \<lparr>ht_tid = tid, ht_success = tq_success raw, ht_errorCode = tq_errorCode raw,
     ht_totalCount = u32_at (tq_summary raw) 24, ht_brpCount = u32_at (tq_summary raw) 28, ht_wrpCount = u32_at (tq_summary raw) 32,
     ht_enabledCount = u32_at (tq_summary raw) 36, ht_activeCount = u32_at (tq_summary raw) 40,
     ht_perfCount = u32_at (tq_summary raw) 44, ht_ptraceCount = u32_at (tq_summary raw) 48,
     ht_moduleCount = u32_at (tq_summary raw) 52,
     ht_entries = (if tq_success raw then map to_task_entry (tq_entries raw) else [])\<rparr>"

definition queryThread :: "'k Os \<Rightarrow> u32 \<Rightarrow> int \<Rightarrow> ('k, HwbpTaskThreadInfo) device" where
  "queryThread os capacity tid = do {
     raw \<leftarrow> on_kdriver (drv_QueryHardwareBreakpointTask os tid capacity);
     State_Monad.return (to_thread_info tid raw) }"

definition CApi_QueryHardwareBreakpointThreads ::
    "'k Os \<Rightarrow> int \<Rightarrow> u32 \<Rightarrow> ('k, bool \<times> HwbpTaskThreadInfo list) device" where
  "CApi_QueryHardwareBreakpointThreads os h capacity =
     (if capacity = 0 \<or> capacity > NI_HWBP_MAX_QUERY_ENTRIES then State_Monad.return (False, [])
      else if_process h (False, []) (do {
        p \<leftarrow> GetPointerFromHandle h;
        if p = 0 then State_Monad.return (False, [])
        else do {
          pd \<leftarrow> process_at p;
          if op_pid pd \<le> 0 then State_Monad.return (False, [])
          else do {
            rdy \<leftarrow> on_engine kernel_ready;
            if \<not> rdy then State_Monad.return (False, [])
            else do {
              tids \<leftarrow> on_system (query_tids os (op_pid pd));
              case tids of
                None \<Rightarrow> State_Monad.return (False, [])
              | Some ts \<Rightarrow> do {
                  threads \<leftarrow> for_each (queryThread os capacity) ts;
                  State_Monad.return (True, threads) }}}}}))"

section \<open>The interface of the dispatcher\<close>

definition to_server_module :: "ModuleListEntry \<Rightarrow> ServerModule" where
  "to_server_module m = \<lparr>sm_type = ml_type m, sm_flag = ml_flag m, sm_baseAddress = ml_baseAddress m,
     sm_moduleSize = ml_moduleSize m, sm_moduleName = ml_moduleName m\<rparr>"

text \<open>
  \<open>CApi\<close> on the device, for a network that takes \<open>snd data\<close> bytes of \<open>data\<close> and variables without an initial value that hold \<open>junk\<close>. A handle arrives as
  \<open>uint32_t\<close> in two requests.
\<close>

definition server_api :: "'k Os \<Rightarrow> (bytes \<Rightarrow> ('k Device, nat) state) \<Rightarrow> (nat \<Rightarrow> ('k Device, bytes) state) \<Rightarrow> 'k Device CApi" where
  "server_api os net junk = \<lparr>
     api_send = net, api_junk = junk,
     api_GetRWDriverType = CApi_GetRWDriverType,
     api_CloseHandle = CApi_CloseHandle os,
     api_OpenProcess = CApi_OpenProcess os,
     api_ReadProcessMemory = (\<lambda>h. CApi_ReadProcessMemory os (sint h)),
     api_WriteProcessMemory = (\<lambda>h. CApi_WriteProcessMemory os (sint h)),
     api_GetProcessListInfo = CApi_GetProcessListInfo os,
     api_GetModuleList = (\<lambda>h. do { l \<leftarrow> CApi_GetModuleList os h; State_Monad.return (map to_server_module l) }),
     api_ReadBratchMemory = CApi_ReadBratchMemory os,
     api_InitReadWriteDriver = CApi_InitReadWriteDriver os,
     api_SetKernelBreakpointForceReclaim = CApi_SetKernelBreakpointForceReclaim,
     api_SetBreakpoint = CApi_SetBreakpoint os,
     api_RemoveBreakpoint = CApi_RemoveBreakpoint os,
     api_SuspendBreakpoint = CApi_SuspendBreakpoint os,
     api_ResumeBreakpoint = CApi_ResumeBreakpoint os,
     api_ReadHwBpInfo = (\<lambda>h a. do { (n, hits, l) \<leftarrow> CApi_ReadHwBpInfo os h a; State_Monad.return (n, hits, map hit_bytes l) }),
     api_QueryHardwareBreakpointThreads = CApi_QueryHardwareBreakpointThreads os,
     api_InstallUxnBreakpoint = CApi_InstallUxnBreakpoint os,
     api_RemoveUxnBreakpoint = CApi_RemoveUxnBreakpoint os,
     api_WaitUxnBreakpoint = CApi_WaitUxnBreakpoint os,
     api_ResumeUxnBreakpoint = CApi_ResumeUxnBreakpoint os,
     api_GetUxnBreakpointStatus = CApi_GetUxnBreakpointStatus os,
     api_ClearUxnBreakpoints = CApi_ClearUxnBreakpoints os,
     api_ReadBratchAddr = CApi_ReadBratchAddr os,
     api_SymbolInit = CApi_SymbolInit os,
     api_SymbolGetCount = CApi_SymbolGetCount,
     api_SymbolGetList = CApi_SymbolGetList,
     api_SymbolFind = CApi_SymbolFind os,
     api_GetSoBase = CApi_GetSoBase os\<rparr>"

end
