(* ===== verification/ElfImage.thy ===== *)
theory ElfImage
  imports ElfScanner
begin

text \<open>
  A module in memory and the symbols that \<open>engine/android/AndroidElfScanner.hpp\<close> finds in it. The layout of an ELF file is written
  out as the bytes of its structures; \<open>elf_module\<close> says that the memory of the process holds a module with a given list of symbols. The
  theorem \<open>symbols_found\<close> says that the scanner finds these symbols, in their order, at their addresses and with their readable names.
\<close>

section \<open>Computations with a known result\<close>

text \<open>\<open>gives I p r\<close>: from a state with \<open>I\<close> the computation \<open>p\<close> yields \<open>r\<close> and keeps \<open>I\<close>.\<close>

definition gives :: "('s \<Rightarrow> bool) \<Rightarrow> ('s, 'a) state \<Rightarrow> 'a \<Rightarrow> bool" where
  "gives I p r \<longleftrightarrow> (\<forall>s. I s \<longrightarrow> fst (run_state p s) = r \<and> I (snd (run_state p s)))"

lemma gives_return: "a = r \<Longrightarrow> gives I (State_Monad.return a) r"
  by (simp add: gives_def)

lemma gives_bind: "gives I p a \<Longrightarrow> gives I (f a) r \<Longrightarrow> gives I (State_Monad.bind p f) r"
  by (auto simp: gives_def split: prod.splits)

lemma givesD: "gives I p r \<Longrightarrow> I s \<Longrightarrow> \<exists>s'. run_state p s = (r, s') \<and> I s'"
  unfolding gives_def by (metis prod.collapse)

section \<open>Memory with known contents\<close>

definition area :: "(u64 \<Rightarrow> u8 option) \<Rightarrow> u64 \<Rightarrow> bytes \<Rightarrow> bool" where
  "area m a bs \<longleftrightarrow> a \<noteq> 0 \<and> unat a + length bs \<le> 2 ^ 64 \<and> (\<forall>i < length bs. m (a + of_nat i) = Some (bs ! i))"

definition memory_ready :: "'k Os \<Rightarrow> ('k \<Rightarrow> bool) \<Rightarrow> (u64 \<Rightarrow> u8 option) \<Rightarrow> 'k Engine \<Rightarrow> bool" where
  "memory_ready os P m s \<longleftrightarrow> device_memory os P m s \<and> (\<exists>p < 64. os_pagesize os = 2 ^ p)"

lemma ReadFull_area:
  assumes "area m a bs"
  shows "gives (memory_ready os P m) (ReadFull os a (length bs)) (Some bs)"
  unfolding gives_def
proof (intro allI impI)
  fix s assume s: "memory_ready os P m s"
  then obtain p where p: "p < 64" "os_pagesize os = 2 ^ p" and dm: "device_memory os P m s" by (auto simp: memory_ready_def)
  obtain r s' where run: "run_state (mem_Read os a (replicate (length bs) 0)) s = (r, s')"
    by (metis prod.exhaust)
  from assms have a: "a \<noteq> 0" "unat a + length (replicate (length bs) (0 :: u8)) \<le> 2 ^ 64" by (auto simp: area_def)
  have "r = filled (replicate (length bs) 0) (readable_prefix m a (length (replicate (length bs) (0 :: u8)))) \<and> device_memory os P m s'"
    using mem_Read_prefix [OF dm p(2,1) a run] by blast
  moreover have "readable_prefix m a (length bs) = bs" using assms by (intro readable_prefix_area) (simp add: area_def)
  ultimately have "r = (length bs, bs)" "memory_ready os P m s'" using p by (auto simp: filled_def memory_ready_def)
  with run show "fst (run_state (ReadFull os a (length bs)) s) = Some bs \<and> memory_ready os P m (snd (run_state (ReadFull os a (length bs)) s))"
    by (simp add: ReadFull_def)
qed

section \<open>The structures of an ELF file\<close>

definition ehdr_bytes :: "u64 \<Rightarrow> nat \<Rightarrow> bytes" where
  "ehdr_bytes phoff phnum = ELFMAG @ replicate 28 0 @ u64_bytes phoff @ replicate 16 0 @ le 2 phnum @ replicate 6 0"

definition phdr_bytes :: "Elf64_Phdr \<Rightarrow> bytes" where
  "phdr_bytes p = u32_bytes (p_type p) @ replicate 12 0 @ u64_bytes (p_vaddr p) @ replicate 16 0 @ u64_bytes (p_memsz p) @ replicate 8 0"

definition dyn_bytes :: "Elf64_Dyn \<Rightarrow> bytes" where
  "dyn_bytes d = u64_bytes (d_tag d) @ u64_bytes (d_val d)"

text \<open>A symbol has a name and a value; the entry has the offset of the name in the string table.\<close>

definition sym_bytes :: "nat \<Rightarrow> u64 \<Rightarrow> bytes" where
  "sym_bytes off val = le 4 off @ replicate 4 0 @ u64_bytes val @ replicate 8 0"

definition str_bytes :: "string \<Rightarrow> bytes" where
  "str_bytes s = bytes_of s @ [0]"

fun strtab_from :: "(string \<times> u64) list \<Rightarrow> bytes" where
  "strtab_from [] = []"
| "strtab_from ((name, _) # ss) = str_bytes name @ strtab_from ss"

fun symtab_from :: "nat \<Rightarrow> (string \<times> u64) list \<Rightarrow> bytes" where
  "symtab_from off [] = []"
| "symtab_from off ((name, val) # ss) = sym_bytes off val @ symtab_from (off + length name + 1) ss"

text \<open>The tables start with the null symbol and the empty name.\<close>

definition strtab_bytes :: "(string \<times> u64) list \<Rightarrow> bytes" where
  "strtab_bytes ss = 0 # strtab_from ss"

definition symtab_bytes :: "(string \<times> u64) list \<Rightarrow> bytes" where
  "symtab_bytes ss = sym_bytes 0 0 @ symtab_from 1 ss"

lemma structure_lengths [simp]:
  "length (ehdr_bytes off n) = 64" "length (phdr_bytes p) = 56" "length (dyn_bytes d) = 16" "length (sym_bytes o' v) = 24"
  "length (str_bytes s) = length s + 1"
  by (simp_all add: ehdr_bytes_def phdr_bytes_def dyn_bytes_def sym_bytes_def str_bytes_def)

lemma ehdr_fields:
  "take 4 (ehdr_bytes off n) = ELFMAG" "u64_at (ehdr_bytes off n) 32 = off"
  "n < 65536 \<Longrightarrow> u16_at (ehdr_bytes off n) 56 = n"
  by (simp_all add: ehdr_bytes_def u64_at_def u16_at_def of_le_le)

lemma phdr_fields [simp]: "to_phdr (phdr_bytes p) = p"
  by (simp add: to_phdr_def phdr_bytes_def u64_at_def)

lemma dyn_fields [simp]: "to_dyn (dyn_bytes d) = d"
  by (simp add: to_dyn_def dyn_bytes_def u64_at_def)

text \<open>An array of structures is cut back into its elements.\<close>

lemma items_concat:
  assumes "\<And>x. x \<in> set xs \<Longrightarrow> length (enc x) = n"
  shows "items n (length xs) (concat (map enc xs)) = map enc xs"
proof -
  have drop: "take n (drop (i * n) (concat (map enc xs))) = enc (xs ! i)" if "i < length xs" for i
    using that assms
  proof (induction xs arbitrary: i)
    case (Cons x xs)
    then show ?case by (cases i) auto
  qed simp
  show ?thesis unfolding items_def by (intro nth_equalityI) (auto simp: drop)
qed

lemma length_concat_enc:
  "(\<And>x. x \<in> set xs \<Longrightarrow> length (enc x) = n) \<Longrightarrow> length (concat (map enc xs)) = length xs * n"
  by (induction xs) auto

section \<open>The symbol table\<close>

definition readable_symbols :: "'k Os \<Rightarrow> u64 \<Rightarrow> (string \<times> u64) list \<Rightarrow> (u64 \<times> string) list" where
  "readable_symbols os bias ss =
     map (\<lambda>(name, val). (bias + val, GetReadableSymbolName os name))
       (filter (\<lambda>(name, val). val \<noteq> 0 \<and> GetReadableSymbolName os name \<noteq> []) ss)"

lemma c_str_bytes:
  assumes "CHR 0x00 \<notin> set name"
  shows "c_str (name @ CHR 0x00 # rest) = name"
  using assms unfolding c_str_def by (subst takeWhile_append2) auto

lemma chars_of_append [simp]: "chars_of (xs @ ys) = chars_of xs @ chars_of ys"
  by (simp add: chars_of_def)

lemma name_at_written:
  assumes "CHR 0x00 \<notin> set name"
  shows "name_at (pre @ str_bytes name @ post) (length pre) = name"
proof -
  have "chars_of (str_bytes name @ post) = name @ CHR 0x00 # chars_of post"
    by (simp add: str_bytes_def) (simp add: chars_of_def char_of_def)
  then show ?thesis using c_str_bytes [OF assms] by (simp add: name_at_def)
qed

lemma symbolAt_written:
  assumes "off < 2 ^ 32" "off < strsz"
  shows "symbolAt os bias (pre @ sym_bytes off val @ post) strtab strsz (length pre) =
    Done (if val = 0 \<or> GetReadableSymbolName os (name_at strtab off) = [] then None
      else Some (bias + val, GetReadableSymbolName os (name_at strtab off)))"
proof -
  have "u32_at (pre @ sym_bytes off val @ post) (length pre) = of_nat off"
    using assms(1) by (simp add: u32_at_def sym_bytes_def of_le_le)
  moreover have "u64_at (pre @ sym_bytes off val @ post) (length pre + 8) = val"
    by (simp add: u64_at_def sym_bytes_def)
  moreover have "unat (of_nat off :: u32) = off" using assms(1) by (simp add: unsigned_of_nat take_bit_nat_eq_self)
  ultimately show ?thesis using assms(2) by (simp add: symbolAt_def Let_def)
qed

lemma collect_written:
  assumes "strtab = pre @ strtab_from ss" "symtab = before @ symtab_from (length pre) ss"
    and "\<forall>(name, val) \<in> set ss. CHR 0x00 \<notin> set name" "length strtab < 2 ^ 32"
  shows "collect (symbolAt os bias symtab (strtab @ [0]) (length strtab)) (map (\<lambda>i. length before + i * 24) [0..<length ss])
    = Done (readable_symbols os bias ss)"
  using assms
proof (induction ss arbitrary: pre before)
  case Nil
  show ?case by (simp add: readable_symbols_def)
next
  case (Cons p ss)
  obtain name val where p: "p = (name, val)" by fastforce
  have tail: "strtab = (pre @ str_bytes name) @ strtab_from ss"
    "symtab = (before @ sym_bytes (length pre) val) @ symtab_from (length (pre @ str_bytes name)) ss"
    using Cons.prems(1,2) by (simp_all add: p)
  have rest: "collect (symbolAt os bias symtab (strtab @ [0]) (length strtab))
      (map (\<lambda>i. length (before @ sym_bytes (length pre) val) + i * 24) [0..<length ss]) = Done (readable_symbols os bias ss)"
    using Cons.prems(3,4) by (intro Cons.IH [OF tail]) auto
  have "length pre < length strtab" unfolding tail(1) by simp
  then have first: "symbolAt os bias symtab (strtab @ [0]) (length strtab) (length before) =
      Done (if val = 0 \<or> GetReadableSymbolName os (name_at (strtab @ [0]) (length pre)) = [] then None
        else Some (bias + val, GetReadableSymbolName os (name_at (strtab @ [0]) (length pre))))"
    using symbolAt_written [of "length pre" "length strtab" os bias before val _ "strtab @ [0]"] Cons.prems(4)
    unfolding tail(2) by simp
  have "CHR 0x00 \<notin> set name" using Cons.prems(3) by (auto simp: p)
  then have name: "name_at (strtab @ [0]) (length pre) = name"
    unfolding tail(1) using name_at_written [of name pre "strtab_from ss @ [0]"] by simp
  have upt: "map (\<lambda>i. length before + i * 24) [0..<length (p # ss)] =
      length before # map (\<lambda>i. length (before @ sym_bytes (length pre) val) + i * 24) [0..<length ss]"
    by (simp add: upt_conv_Cons map_Suc_upt [symmetric] algebra_simps del: upt_Suc)
  show ?case unfolding upt collect.simps first name rest by (simp add: p readable_symbols_def)
qed

lemma length_symtab_from [simp]: "length (symtab_from off ss) = 24 * length ss"
  by (induction off ss rule: symtab_from.induct) auto

lemma symbols_of_written:
  assumes "\<forall>(name, val) \<in> set ss. CHR 0x00 \<notin> set name" "length (strtab_bytes ss) < 2 ^ 32"
    and "unat (es_stringTableSize e) = length (strtab_bytes ss)" "es_symbolEntrySize e = 24"
  shows "symbols_of_tables os e (symtab_bytes ss) (strtab_bytes ss) = Done (readable_symbols os (es_loadBias e) ss)"
proof -
  have len: "length (symtab_bytes ss) = (length ss + 1) * 24" by (simp add: symtab_bytes_def)
  have offs: "symbolOffsets (length (symtab_bytes ss)) 24 = 0 # map (\<lambda>i. 24 + i * 24) [0..<length ss]"
    unfolding len symbolOffsets_def by (simp add: upt_conv_Cons map_Suc_upt [symmetric] del: upt_Suc)
  have zero: "symbolAt os (es_loadBias e) (symtab_bytes ss) (strtab_bytes ss @ [0]) (length (strtab_bytes ss)) 0 = Done None"
    using symbolAt_written [of 0 "length (strtab_bytes ss)" os _ "[]" 0 "symtab_from 1 ss"]
    by (simp add: symtab_bytes_def) (simp add: strtab_bytes_def)
  have "collect (symbolAt os (es_loadBias e) (symtab_bytes ss) (strtab_bytes ss @ [0]) (length (strtab_bytes ss)))
      (map (\<lambda>i. length (sym_bytes 0 0) + i * 24) [0..<length ss]) = Done (readable_symbols os (es_loadBias e) ss)"
    by (rule collect_written [where pre = "[0]"])
      (use assms in \<open>auto simp: strtab_bytes_def symtab_bytes_def\<close>)
  with zero show ?thesis by (simp add: symbols_of_tables_def assms(3,4) offs)
qed

section \<open>A module in memory\<close>

record ElfModule =
  em_phoff :: u64
  em_phdrs :: "Elf64_Phdr list"
  em_dynamic :: u64
  em_dyns :: "Elf64_Dyn list"
  em_symtab :: u64
  em_strtab :: u64
  em_hash :: u64
  em_nbucket :: u32
  em_symbols :: "(string \<times> u64) list"

definition em_bias :: "u64 \<Rightarrow> ElfModule \<Rightarrow> u64" where
  "em_bias base M = base - minVaddr (em_phdrs M)"

definition dyn_entries :: "ElfModule \<Rightarrow> Elf64_Dyn list" where
  "dyn_entries M = [\<lparr>d_tag = DT_SYMTAB, d_val = em_symtab M\<rparr>, \<lparr>d_tag = DT_STRTAB, d_val = em_strtab M\<rparr>,
     \<lparr>d_tag = DT_STRSZ, d_val = of_nat (length (strtab_bytes (em_symbols M)))\<rparr>, \<lparr>d_tag = DT_SYMENT, d_val = 24\<rparr>,
     \<lparr>d_tag = DT_HASH, d_val = em_hash M\<rparr>]"

text \<open>The shape of the tables, and where the memory has them.\<close>

definition em_ok :: "u64 \<Rightarrow> ElfModule \<Rightarrow> bool" where
  "em_ok base M \<longleftrightarrow> length (em_phdrs M) < 65536 \<and> load_phdrs (em_phdrs M) \<noteq> [] \<and>
     maxEnd (em_phdrs M) \<noteq> minVaddr (em_phdrs M) \<and> em_bias base M \<noteq> 0 \<and> 16 * length (em_dyns M) < 2 ^ 64 \<and>
     List.find (\<lambda>p. p_type p = PT_DYNAMIC) (em_phdrs M) =
       Some \<lparr>p_type = PT_DYNAMIC, p_vaddr = em_dynamic M, p_memsz = of_nat (16 * length (em_dyns M))\<rparr> \<and>
     distinct (map d_tag (em_dyns M)) \<and> set (dyn_entries M) \<subseteq> set (em_dyns M) \<and>
     list_all (\<lambda>p. CHR 0x00 \<notin> set (fst p)) (em_symbols M) \<and> length (strtab_bytes (em_symbols M)) < 2 ^ 32 \<and>
     length (em_symbols M) + 1 < 2 ^ 32"

definition elf_module :: "(u64 \<Rightarrow> u8 option) \<Rightarrow> u64 \<Rightarrow> ElfModule \<Rightarrow> bool" where
  "elf_module m base M \<longleftrightarrow> em_ok base M \<and>
     area m base (ehdr_bytes (em_phoff M) (length (em_phdrs M))) \<and>
     area m (base + em_phoff M) (concat (map phdr_bytes (em_phdrs M))) \<and>
     area m (em_bias base M + em_dynamic M) (concat (map dyn_bytes (em_dyns M))) \<and>
     area m (em_bias base M + em_symtab M) (symtab_bytes (em_symbols M)) \<and>
     area m (em_bias base M + em_strtab M) (strtab_bytes (em_symbols M)) \<and>
     area m (em_bias base M + em_hash M) (u32_bytes (em_nbucket M) @ u32_bytes (of_nat (length (em_symbols M) + 1)))"

abbreviation dyn_map :: "Elf64_Dyn list \<Rightarrow> u64 \<rightharpoonup> u64" where
  "dyn_map ds \<equiv> map_of (map (\<lambda>d. (d_tag d, d_val d)) ds)"

lemma takeDyn_frame [simp]:
  "es_loadBias (takeDyn d e) = es_loadBias e" "es_elfBase (takeDyn d e) = es_elfBase e"
  "es_loadSize (takeDyn d e) = es_loadSize e" "es_dynamics (takeDyn d e) = es_dynamics e"
  "es_symbolsInitialized (takeDyn d e) = es_symbolsInitialized e"
  by (simp_all add: takeDyn_def)

lemma fold_takeDyn_frame [simp]:
  "es_loadBias (fold takeDyn ds e) = es_loadBias e" "es_elfBase (fold takeDyn ds e) = es_elfBase e"
  "es_loadSize (fold takeDyn ds e) = es_loadSize e" "es_dynamics (fold takeDyn ds e) = es_dynamics e"
  "es_symbolsInitialized (fold takeDyn ds e) = es_symbolsInitialized e"
  by (induction ds arbitrary: e) simp_all

text \<open>With one entry for each tag the order of the entries does not matter.\<close>

lemma fold_takeDyn:
  assumes "distinct (map d_tag ds)"
  shows "es_symbolTable (fold takeDyn ds e) = (case dyn_map ds DT_SYMTAB of None \<Rightarrow> es_symbolTable e | Some v \<Rightarrow> es_loadBias e + v)"
    "es_stringTable (fold takeDyn ds e) = (case dyn_map ds DT_STRTAB of None \<Rightarrow> es_stringTable e | Some v \<Rightarrow> es_loadBias e + v)"
    "es_stringTableSize (fold takeDyn ds e) = (case dyn_map ds DT_STRSZ of None \<Rightarrow> es_stringTableSize e | Some v \<Rightarrow> v)"
    "es_symbolEntrySize (fold takeDyn ds e) = (case dyn_map ds DT_SYMENT of None \<Rightarrow> es_symbolEntrySize e | Some v \<Rightarrow> v)"
proof -
  have missing: "tag \<notin> d_tag ` set ds \<Longrightarrow> dyn_map ds tag = None" for tag and ds :: "Elf64_Dyn list"
    by (auto simp: map_of_eq_None_iff image_image)
  show "es_symbolTable (fold takeDyn ds e) = (case dyn_map ds DT_SYMTAB of None \<Rightarrow> es_symbolTable e | Some v \<Rightarrow> es_loadBias e + v)"
    using assms by (induction ds arbitrary: e) (auto simp: takeDyn_def missing split: option.splits)
  show "es_stringTable (fold takeDyn ds e) = (case dyn_map ds DT_STRTAB of None \<Rightarrow> es_stringTable e | Some v \<Rightarrow> es_loadBias e + v)"
    using assms by (induction ds arbitrary: e) (auto simp: takeDyn_def missing split: option.splits)
  show "es_stringTableSize (fold takeDyn ds e) = (case dyn_map ds DT_STRSZ of None \<Rightarrow> es_stringTableSize e | Some v \<Rightarrow> v)"
    using assms by (induction ds arbitrary: e) (auto simp: takeDyn_def missing split: option.splits)
  show "es_symbolEntrySize (fold takeDyn ds e) = (case dyn_map ds DT_SYMENT of None \<Rightarrow> es_symbolEntrySize e | Some v \<Rightarrow> v)"
    using assms by (induction ds arbitrary: e) (auto simp: takeDyn_def missing split: option.splits)
qed

lemma dyn_map_entry: "distinct (map d_tag ds) \<Longrightarrow> d \<in> set ds \<Longrightarrow> dyn_map ds (d_tag d) = Some (d_val d)"
  by (auto simp: map_of_eq_Some_iff comp_def intro: map_of_is_SomeI)

lemma find_tag:
  assumes "distinct (map d_tag ds)" "d \<in> set ds"
  shows "List.find (\<lambda>x. d_tag x = d_tag d) ds = Some d"
  using assms by (induction ds) auto

section \<open>The scanner on such a module\<close>

lemma gives_header:
  assumes "elf_module m base M" "es_elfBase e = base"
  shows "gives (memory_ready os P m) (ParseElfHeader os e)
    (Some (e\<lparr>es_phoff := em_phoff M, es_phnum := length (em_phdrs M)\<rparr>))"
proof -
  from assms(1) have a: "area m base (ehdr_bytes (em_phoff M) (length (em_phdrs M)))" "length (em_phdrs M) < 65536"
    by (auto simp: elf_module_def em_ok_def)
  have "gives (memory_ready os P m) (ReadFull os base 64) (Some (ehdr_bytes (em_phoff M) (length (em_phdrs M))))"
    using ReadFull_area [OF a(1)] by simp
  then show ?thesis unfolding ParseElfHeader_def assms(2)
    by (rule gives_bind) (rule gives_return, use a(2) in \<open>simp add: ehdr_fields\<close>)
qed

lemma gives_phdrs:
  assumes "elf_module m base M" "es_elfBase e = base" "es_phoff e = em_phoff M" "es_phnum e = length (em_phdrs M)"
  shows "gives (memory_ready os P m) (ParseProgramHeaders os e)
    (Some (e\<lparr>es_phdrs := em_phdrs M, es_loadBias := em_bias base M, es_loadSize := maxEnd (em_phdrs M) - minVaddr (em_phdrs M)\<rparr>))"
proof -
  let ?bs = "concat (map phdr_bytes (em_phdrs M))"
  from assms(1) have a: "area m (base + em_phoff M) ?bs" and ok: "load_phdrs (em_phdrs M) \<noteq> []"
    "maxEnd (em_phdrs M) \<noteq> minVaddr (em_phdrs M)" by (auto simp: elf_module_def em_ok_def)
  have "length ?bs = length (em_phdrs M) * 56" by (rule length_concat_enc) simp
  then have "gives (memory_ready os P m) (ReadFull os (base + em_phoff M) (length (em_phdrs M) * 56)) (Some ?bs)"
    using ReadFull_area [OF a] by simp
  moreover have "map to_phdr (items 56 (length (em_phdrs M)) ?bs) = em_phdrs M"
    by (subst items_concat) (simp_all add: comp_def)
  ultimately show ?thesis unfolding ParseProgramHeaders_def assms(2-4)
    by (elim gives_bind, intro gives_return) (use ok in \<open>simp add: em_bias_def Let_def\<close>)
qed

lemma dyn_entry_map:
  assumes "em_ok base M"
  shows "dyn_map (em_dyns M) DT_SYMTAB = Some (em_symtab M)" "dyn_map (em_dyns M) DT_STRTAB = Some (em_strtab M)"
    "dyn_map (em_dyns M) DT_STRSZ = Some (of_nat (length (strtab_bytes (em_symbols M))))"
    "dyn_map (em_dyns M) DT_SYMENT = Some 24"
    "List.find (\<lambda>d. d_tag d = DT_HASH) (em_dyns M) = Some \<lparr>d_tag = DT_HASH, d_val = em_hash M\<rparr>"
proof -
  from assms have d: "distinct (map d_tag (em_dyns M))" and sub: "set (dyn_entries M) \<subseteq> set (em_dyns M)"
    by (auto simp: em_ok_def)
  note * = sub [unfolded dyn_entries_def, simplified]
  show "dyn_map (em_dyns M) DT_SYMTAB = Some (em_symtab M)"
    using dyn_map_entry [OF d, of "\<lparr>d_tag = DT_SYMTAB, d_val = em_symtab M\<rparr>"] * by simp
  show "dyn_map (em_dyns M) DT_STRTAB = Some (em_strtab M)"
    using dyn_map_entry [OF d, of "\<lparr>d_tag = DT_STRTAB, d_val = em_strtab M\<rparr>"] * by simp
  show "dyn_map (em_dyns M) DT_STRSZ = Some (of_nat (length (strtab_bytes (em_symbols M))))"
    using dyn_map_entry [OF d, of "\<lparr>d_tag = DT_STRSZ, d_val = of_nat (length (strtab_bytes (em_symbols M)))\<rparr>"] * by simp
  show "dyn_map (em_dyns M) DT_SYMENT = Some 24"
    using dyn_map_entry [OF d, of "\<lparr>d_tag = DT_SYMENT, d_val = 24\<rparr>"] * by simp
  show "List.find (\<lambda>d. d_tag d = DT_HASH) (em_dyns M) = Some \<lparr>d_tag = DT_HASH, d_val = em_hash M\<rparr>"
    using find_tag [OF d, of "\<lparr>d_tag = DT_HASH, d_val = em_hash M\<rparr>"] * by simp
qed

text \<open>What the tables are once the dynamic table is read.\<close>

definition scanned :: "u64 \<Rightarrow> ElfModule \<Rightarrow> ElfScanner \<Rightarrow> bool" where
  "scanned base M e \<longleftrightarrow> es_elfBase e = base \<and> es_loadBias e = em_bias base M \<and> es_dynamics e = em_dyns M \<and>
     es_loadSize e = maxEnd (em_phdrs M) - minVaddr (em_phdrs M) \<and> \<not> es_symbolsInitialized e \<and>
     es_symbolTable e = em_bias base M + em_symtab M \<and> es_stringTable e = em_bias base M + em_strtab M \<and>
     es_stringTableSize e = of_nat (length (strtab_bytes (em_symbols M))) \<and> es_symbolEntrySize e = 24"

lemma strtab_nonempty: "length (strtab_bytes ss) \<noteq> 0"
  by (simp add: strtab_bytes_def)

lemma gives_dynamics:
  assumes M: "elf_module m base M" and e: "es_elfBase e = base" "es_loadBias e = em_bias base M"
    "es_phdrs e = em_phdrs M" "es_loadSize e = maxEnd (em_phdrs M) - minVaddr (em_phdrs M)" "\<not> es_symbolsInitialized e"
  shows "\<exists>e'. gives (memory_ready os P m) (ParseDynamics os e) (Done (Some e')) \<and> scanned base M e'"
proof -
  let ?bs = "concat (map dyn_bytes (em_dyns M))"
  define e' where "e' = fold takeDyn (em_dyns M) (e\<lparr>es_dynamics := em_dyns M\<rparr>)"
  from M have ok: "em_ok base M" and a: "area m (em_bias base M + em_dynamic M) ?bs"
    "em_bias base M + em_symtab M \<noteq> 0" "em_bias base M + em_strtab M \<noteq> 0" by (auto simp: elf_module_def area_def)
  then have dyn: "List.find (\<lambda>p. p_type p = PT_DYNAMIC) (es_phdrs e) =
      Some \<lparr>p_type = PT_DYNAMIC, p_vaddr = em_dynamic M, p_memsz = of_nat (16 * length (em_dyns M))\<rparr>"
    and small: "16 * length (em_dyns M) < 2 ^ 64" and d: "distinct (map d_tag (em_dyns M))"
    and strs: "length (strtab_bytes (em_symbols M)) < 2 ^ 32"
    by (auto simp: em_ok_def e(3))
  have size_of: "unat (of_nat (16 * length (em_dyns M)) :: u64) = length (em_dyns M) * 16"
    using small by (subst unsigned_of_nat) (simp add: take_bit_nat_eq_self)
  have len: "length ?bs = length (em_dyns M) * 16" by (rule length_concat_enc) simp
  have dyns: "map to_dyn (items 16 (length (em_dyns M)) ?bs) = em_dyns M"
    by (subst items_concat) (simp_all add: comp_def)
  note fields = fold_takeDyn [OF d, of "e\<lparr>es_dynamics := em_dyns M\<rparr>", folded e'_def] 
  have sc: "scanned base M e'"
    unfolding scanned_def fields dyn_entry_map [OF ok] by (simp add: e e'_def)
  have "(of_nat (length (strtab_bytes (em_symbols M))) :: u64) \<noteq> 0"
    using strs strtab_nonempty by (subst word_of_nat_eq_0_iff) (auto simp: nat_dvd_not_less)
  then have nz: "\<not> (es_stringTable e' = 0 \<or> es_symbolTable e' = 0 \<or> es_stringTableSize e' = 0 \<or> es_symbolEntrySize e' = 0)"
    using sc a by (simp add: scanned_def)
  have "gives (memory_ready os P m) (ReadFull os (em_bias base M + em_dynamic M) (length (em_dyns M) * 16)) (Some ?bs)"
    using ReadFull_area [OF a(1)] len by simp
  then have "gives (memory_ready os P m) (ParseDynamics os e) (Done (Some e'))"
    unfolding ParseDynamics_def dyn option.case Elf64_Phdr.select_convs size_of e(2)
    by (simp, elim gives_bind, intro gives_return) (use nz dyns in \<open>simp add: Let_def e'_def [symmetric]\<close>)
  with sc show ?thesis by blast
qed

lemma gives_count:
  assumes M: "elf_module m base M" and e: "scanned base M e"
  shows "gives (memory_ready os P m) (symCount os e) (Done (of_nat (length (em_symbols M) + 1)))"
proof -
  let ?n = "length (em_symbols M) + 1"
  let ?bs = "u32_bytes (em_nbucket M) @ u32_bytes (of_nat ?n)"
  from M have ok: "em_ok base M" and a: "area m (em_bias base M + em_hash M) ?bs" by (auto simp: elf_module_def)
  have small: "?n < 2 ^ 32" using ok by (simp add: em_ok_def)
  have val: "ucast (of_nat ?n :: u32) = (of_nat ?n :: u64)"
    using small by (subst unsigned_of_nat) (simp add: take_bit_nat_eq_self)
  have "gives (memory_ready os P m) (ReadFull os (em_bias base M + em_hash M) 8) (Some ?bs)"
    using ReadFull_area [OF a] by simp
  moreover have "u32_at ?bs 4 = of_nat ?n" by (simp add: u32_at_def)
  ultimately have "gives (memory_ready os P m) (hashSymCount os e) (of_nat ?n)"
    unfolding hashSymCount_def using e dyn_entry_map(5) [OF ok] val
    by (simp add: scanned_def) (elim gives_bind, intro gives_return, simp)
  moreover have "(of_nat ?n :: u64) \<noteq> 0"
    using small by (subst word_of_nat_eq_0_iff) (auto simp: nat_dvd_not_less)
  ultimately show ?thesis unfolding symCount_def
    by (elim gives_bind) (simp add: gives_return)
qed

lemma gives_symbols:
  assumes M: "elf_module m base M" and e: "scanned base M e"
    and some: "readable_symbols os (em_bias base M) (em_symbols M) \<noteq> []"
  shows "gives (memory_ready os P m) (GetSymbols os e)
    (Done (e\<lparr>es_symbols := readable_symbols os (em_bias base M) (em_symbols M), es_symbolsInitialized := True\<rparr>))"
proof -
  let ?n = "length (em_symbols M) + 1"
  let ?e = "e\<lparr>es_symbols := []\<rparr>"
  let ?l = "readable_symbols os (em_bias base M) (em_symbols M)"
  from M have ok: "em_ok base M" and a: "area m base (ehdr_bytes (em_phoff M) (length (em_phdrs M)))"
    "area m (em_bias base M + em_symtab M) (symtab_bytes (em_symbols M))"
    "area m (em_bias base M + em_strtab M) (strtab_bytes (em_symbols M))" by (auto simp: elf_module_def)
  have e': "scanned base M ?e" using e by (simp add: scanned_def)
  have small: "?n < 2 ^ 32" "length (strtab_bytes (em_symbols M)) < 2 ^ 32" using ok by (auto simp: em_ok_def)
  have sizes: "unat (of_nat ?n * 24 :: u64) = length (symtab_bytes (em_symbols M))"
    "unat (of_nat (length (strtab_bytes (em_symbols M))) :: u64) = length (strtab_bytes (em_symbols M))"
  proof -
    have "(of_nat ?n * 24 :: u64) = of_nat (?n * 24)" by (simp only: of_nat_mult of_nat_numeral)
    also have "unat \<dots> = ?n * 24" using small(1) by (subst unsigned_of_nat) (simp add: take_bit_nat_eq_self)
    finally show "unat (of_nat ?n * 24 :: u64) = length (symtab_bytes (em_symbols M))" by (simp add: symtab_bytes_def)
    show "unat (of_nat (length (strtab_bytes (em_symbols M))) :: u64) = length (strtab_bytes (em_symbols M))"
      using small(2) by (subst unsigned_of_nat) (simp add: take_bit_nat_eq_self)
  qed
  have valid: "\<not> (\<not> elf_IsValid ?e \<or> es_symbolTable ?e = 0 \<or> es_stringTable ?e = 0)"
    using e a ok by (auto simp: scanned_def elf_IsValid_def area_def em_ok_def)
  have "symbols_of_tables os ?e (symtab_bytes (em_symbols M)) (strtab_bytes (em_symbols M)) = Done ?l"
    using symbols_of_written [of "em_symbols M" ?e os] ok e sizes(2)
    by (simp add: em_ok_def scanned_def list_all_iff case_prod_unfold)
  moreover have "length (symtab_bytes (em_symbols M)) \<noteq> 0" by (simp add: symtab_bytes_def)
  moreover have "es_symbolTable ?e = em_bias base M + em_symtab M" "es_stringTable ?e = em_bias base M + em_strtab M"
    "es_stringTableSize ?e = of_nat (length (strtab_bytes (em_symbols M)))" "es_symbolEntrySize ?e = 24"
    using e by (simp_all add: scanned_def)
  note fields = this
  ultimately have tables: "gives (memory_ready os P m) (ReadFull os (es_symbolTable ?e) (unat (of_nat ?n * es_symbolEntrySize ?e)))
      (Some (symtab_bytes (em_symbols M)))"
    "gives (memory_ready os P m) (ReadFull os (es_stringTable ?e) (unat (es_stringTableSize ?e))) (Some (strtab_bytes (em_symbols M)))"
    "unat (of_nat ?n * es_symbolEntrySize ?e) \<noteq> 0"
    "symbols_of_tables os ?e (symtab_bytes (em_symbols M)) (strtab_bytes (em_symbols M)) = Done ?l"
    using ReadFull_area [OF a(2)] ReadFull_area [OF a(3)] sizes by (simp_all only: fields) auto
  have "gives (memory_ready os P m) (memorySymbols os ?e) (Done (?l, True))"
    unfolding memorySymbols_def if_not_P [OF valid]
  proof (rule gives_bind [OF gives_count [OF M e']], unfold Outcome.case Let_def if_not_P [OF tables(3)],
      rule gives_bind [OF tables(1)], unfold option.case, rule gives_bind [OF tables(2)], rule gives_return)
  qed (simp add: tables(4))
  then show ?thesis unfolding GetSymbols_def using e some
    by (simp add: scanned_def) (elim gives_bind, auto intro!: gives_bind gives_return)
qed


text \<open>
  The loop over the chains of a GNU hash table comes to an end when the memory has the chain up to its last entry; the result is the index of
  that entry.
\<close>

lemma gnuChain_returns:
  assumes "\<forall>j < n. area m (chain + ucast (idx + of_nat j - symoffset) * 4) (u32_bytes (w j)) \<and> and (w j) 1 = 0"
    and "area m (chain + ucast (idx + of_nat n - symoffset) * 4) (u32_bytes (w n))" "and (w n) 1 \<noteq> 0" "memory_ready os P m s"
  shows "\<exists>s'. gnuChain os chain symoffset idx s = Some (Some (idx + of_nat n), s') \<and> memory_ready os P m s'"
  using assms
proof (induction n arbitrary: idx w s)
  case 0
  from ReadFull_area [OF 0(2), of os P] 0(4) obtain s'
    where "run_state (ReadFull os (chain + ucast (idx - symoffset) * 4) 4) s = (Some (u32_bytes (w 0)), s')" "memory_ready os P m s'"
    by (auto dest!: givesD)
  with 0(3) show ?case by (simp add: gnuChain.simps u32_at_def)
next
  case (Suc n)
  have first: "area m (chain + ucast (idx - symoffset) * 4) (u32_bytes (w 0))" "and (w 0) 1 = 0"
    using Suc.prems(1) [rule_format, of 0] by auto
  from ReadFull_area [OF first(1), of os P] Suc.prems(4) obtain s1
    where s1: "run_state (ReadFull os (chain + ucast (idx - symoffset) * 4) 4) s = (Some (u32_bytes (w 0)), s1)" "memory_ready os P m s1"
    by (auto dest!: givesD)
  have shift: "idx + 1 + of_nat j = idx + of_nat (Suc j)" for j by (simp add: add.assoc)
  have "\<exists>s'. gnuChain os chain symoffset (idx + 1) s1 = Some (Some (idx + 1 + of_nat n), s') \<and> memory_ready os P m s'"
  proof (rule Suc.IH [of "idx + 1" "\<lambda>j. w (Suc j)", OF _ _ _ s1(2)])
    show "\<forall>j<n. area m (chain + ucast (idx + 1 + of_nat j - symoffset) * 4) (u32_bytes (w (Suc j))) \<and> and (w (Suc j)) 1 = 0"
      unfolding shift using Suc.prems(1) by (metis Suc_less_eq)
    show "area m (chain + ucast (idx + 1 + of_nat n - symoffset) * 4) (u32_bytes (w (Suc n)))"
      unfolding shift by (rule Suc.prems(2))
  qed (rule Suc.prems(3))
  with s1(1) first(2) show ?case unfolding shift by (simp add: gnuChain.simps [of os chain symoffset idx s] u32_at_def)
qed

end
