(* ===== verification/ServerMemory.thy ===== *)
theory ServerMemory
  imports ServerBreakpoints ElfImage
begin

text \<open>
  What the operations of \<open>engine/ceserver/api.cpp\<close> on memory and symbols do: which process a read reaches, the pages that
  \<open>ReadBratchMemory\<close> delivers and when its loop ends, the parts of the list of symbols, and the connection that
  \<open>InitReadWriteDriver\<close> leaves behind.
\<close>

section \<open>One read\<close>

definition process_handle_open :: "int \<Rightarrow> 'k Device \<Rightarrow> bool" where
  "process_handle_open h s \<longleftrightarrow> (\<exists>info. map_of (dv_handles s) h = Some info \<and> hn_type info = htProcesHandle)"

lemma run_if_process:
  "run_state (if_process h none m) s = (if process_handle_open h s then run_state m s else (none, s))"
  by (auto simp: if_process_def GetHandleType_def process_handle_open_def split: option.splits)

lemma ReadProcessMemory_device:
  assumes "process_handle_open h s" "memory_ready os P m (dv_engine s)" "a \<noteq> 0" "unat a + length buf \<le> 2 ^ 64"
  shows "\<exists>e. run_state (CApi_ReadProcessMemory os h a buf) s =
      ((int (length (readable_prefix m a (length buf))), snd (filled buf (readable_prefix m a (length buf)))), s\<lparr>dv_engine := e\<rparr>) \<and>
    memory_ready os P m e"
proof -
  from assms(2) obtain p where p: "p < 64" "os_pagesize os = 2 ^ p" and dm: "device_memory os P m (dv_engine s)"
    by (auto simp: memory_ready_def)
  obtain r e where run: "run_state (mem_Read os a buf) (dv_engine s) = (r, e)" by (metis prod.exhaust)
  from mem_Read_prefix [OF dm p(2,1) assms(3,4) run] p
  have "r = filled buf (readable_prefix m a (length buf))" "memory_ready os P m e" by (auto simp: memory_ready_def)
  with run assms(1) show ?thesis by (auto simp: CApi_ReadProcessMemory_def run_if_process on_engine_def filled_def)
qed

section \<open>Reading pages\<close>

abbreviation page_bytes :: "(u64 \<Rightarrow> u8 option) \<Rightarrow> u64 \<Rightarrow> bytes" where
  "page_bytes m a \<equiv> readable_prefix m a 4096"

text \<open>What is delivered for a list of addresses: the pages whose first byte can be read, filled up with zeros.\<close>

definition readable_pages :: "(u64 \<Rightarrow> u8 option) \<Rightarrow> u64 list \<Rightarrow> (u64 \<times> bytes) list" where
  "readable_pages m as = map (\<lambda>a. (a, page_bytes m a @ replicate (4096 - length (page_bytes m a)) 0)) (filter (\<lambda>a. page_bytes m a \<noteq> []) as)"

definition page_addresses :: "u64 \<Rightarrow> nat \<Rightarrow> u64 list" where
  "page_addresses addr n = map (\<lambda>i. addr + 4096 * of_nat i) [0..<n]"

lemma page_addresses_Suc: "page_addresses addr (Suc n) = addr # page_addresses (addr + 4096) n"
  unfolding page_addresses_def by (simp add: upt_conv_Cons map_Suc_upt [symmetric] algebra_simps del: upt_Suc)

lemma readPages_device:
  assumes "memory_ready os P m s" "addr \<noteq> 0" "unat addr + 4096 * n < 2 ^ 64"
    and "unat stop \<le> unat addr + 4096 * n" "n = 0 \<or> unat addr + 4096 * n < unat stop + 4096"
  shows "\<exists>s'. readPages os addr stop acc s = Some (acc @ readable_pages m (page_addresses addr n), s') \<and> memory_ready os P m s'"
  using assms
proof (induction n arbitrary: addr acc s)
  case 0
  then have "\<not> addr < stop" by (simp add: word_less_nat_alt)
  with 0(1) show ?case by (simp add: readPages.simps [of os addr stop] readable_pages_def page_addresses_def)
next
  case (Suc n)
  have less: "addr < stop" using Suc.prems(5) by (simp add: word_less_nat_alt)
  from Suc.prems(1) obtain p where p: "p < 64" "os_pagesize os = 2 ^ p" and dm: "device_memory os P m s" by (auto simp: memory_ready_def)
  obtain r s1 where run: "run_state (mem_Read os addr (replicate 4096 0)) s = (r, s1)" by (metis prod.exhaust)
  have "unat addr + length (replicate 4096 (0 :: u8)) \<le> 2 ^ 64" using Suc.prems(3) by simp
  from mem_Read_prefix [OF dm p(2,1) Suc.prems(2) this run] p
  have r: "r = filled (replicate 4096 0) (page_bytes m addr)" and s1: "memory_ready os P m s1" by (auto simp: memory_ready_def)
  let ?out = "if fst r > 0 then acc @ [(addr, snd r)] else acc"
  have step: "readPages os addr stop acc s = readPages os (addr + 4096) stop ?out s1"
    using less run by (simp add: readPages.simps [of os addr stop])
  have out: "?out @ readable_pages m (page_addresses (addr + 4096) n) = acc @ readable_pages m (page_addresses addr (Suc n))"
    unfolding r page_addresses_Suc by (simp add: filled_def readable_pages_def)
  have unat: "unat (addr + 4096) = unat addr + 4096" using Suc.prems(3) by (simp add: unat_word_ariths)
  have "\<exists>s'. readPages os (addr + 4096) stop ?out s1 =
      Some (?out @ readable_pages m (page_addresses (addr + 4096) n), s') \<and> memory_ready os P m s'"
  proof (rule Suc.IH [OF s1])
    show "addr + 4096 \<noteq> 0" using unat by (metis add_is_0 unsigned_0 zero_neq_numeral)
    show "unat (addr + 4096) + 4096 * n < 2 ^ 64" "unat stop \<le> unat (addr + 4096) + 4096 * n"
      "n = 0 \<or> unat (addr + 4096) + 4096 * n < unat stop + 4096"
      unfolding unat using Suc.prems(3-5) by auto
  qed
  with step out show ?case by simp
qed

text \<open>
  The pages of the range \<open>addr\<close>, \<dots>, \<open>addr + size - 1\<close>, when it does not reach the last page of the address space.
\<close>

definition page_count :: "u32 \<Rightarrow> nat" where
  "page_count n = (unat n + 4095) div 4096"

text \<open>
  The pages of a range of memory. For a range that does not reach the last page of the address space, the server returns exactly the pages
  of which at least the first byte can be read, in order, each with what can be read of it and zeros behind, and their number.
\<close>

theorem ReadBratchMemory_pages:
  assumes "process_handle_open h s" "memory_ready os P m (dv_engine s)" "addr \<noteq> 0" "unat addr + unat n + 4096 \<le> 2 ^ 64"
  shows "\<exists>e. run_state (CApi_ReadBratchMemory os h addr n) s =
      ((int (length (readable_pages m (page_addresses addr (page_count n)))), readable_pages m (page_addresses addr (page_count n))),
       s\<lparr>dv_engine := e\<rparr>) \<and> memory_ready os P m e"
proof -
  let ?k = "page_count n"
  have k: "unat n \<le> 4096 * ?k" "?k = 0 \<or> 4096 * ?k < unat n + 4096" unfolding page_count_def by linarith+
  have n: "unat n < 2 ^ 32" using unsigned_less [of n, where ?'a = nat] by simp
  have stop: "unat (addr + ucast n) = unat addr + unat n"
    using assms(4) by (simp add: unat_word_ariths)
  obtain e where e: "readPages os addr (addr + ucast n) [] (dv_engine s) =
      Some ([] @ readable_pages m (page_addresses addr ?k), e)" "memory_ready os P m e"
    using readPages_device [OF assms(2,3), of ?k "addr + ucast n" "[]"] assms(4) k unfolding stop by auto
  have "length (readable_pages m (page_addresses addr ?k)) \<le> ?k"
    by (simp add: readable_pages_def page_addresses_def order_trans [OF length_filter_le])
  moreover have "?k < 2 ^ 31"
    unfolding page_count_def by (rule less_mult_imp_div_less) (use n in simp)
  ultimately have "length (readable_pages m (page_addresses addr ?k)) < 2 ^ 31" by (rule le_less_trans)
  then have "sint (of_nat (length (readable_pages m (page_addresses addr ?k))) :: u32) =
      int (length (readable_pages m (page_addresses addr ?k)))"
    by (simp add: signed_of_nat signed_take_bit_int_eq_self)
  with e assms(1) show ?thesis by (auto simp: CApi_ReadBratchMemory_def run_if_process dv_update_def)
qed

text \<open>
  A range that ends in the last page of the address space, behind the address that has the same offset in that page: the address wraps around
  before it reaches the end, and the loop never ends.
\<close>

lemma readPages_never_returns:
  assumes "readPages os addr stop acc s = Some r" "2 ^ 64 - 4096 + unat addr mod 4096 < unat stop"
  shows False
  using assms
proof (induction rule: readPages.raw_induct [rotated 1, consumes 1])
  case (1 loop os addr stop acc s r)
  have last: "unat addr \<le> 2 ^ 64 - 4096 + unat addr mod 4096"
  proof -
    have "unat addr < 2 ^ 64" using unsigned_less [of addr, where ?'a = nat] by simp
    then have "unat addr div 4096 \<le> 2 ^ 52 - 1" by simp
    then have "unat addr div 4096 * 4096 \<le> 2 ^ 64 - 4096" by simp
    then show ?thesis using div_mult_mod_eq [of "unat addr" 4096] by linarith
  qed
  then have "addr < stop" using 1(3) by (simp add: word_less_nat_alt)
  moreover have "unat (addr + 4096) mod 4096 = unat addr mod 4096"
  proof -
    have "unat (addr + 4096) = (unat addr + 4096) mod 2 ^ 64" by (simp add: unat_word_ariths)
    moreover have "(unat addr + 4096) mod 2 ^ 64 mod 4096 = (unat addr + 4096) mod 4096" by (simp add: mod_mod_cancel)
    ultimately show ?thesis by simp
  qed
  moreover from \<open>addr < stop\<close> 1(2) obtain acc' s' where "loop os (addr + 4096) stop acc' s' = Some r"
    by (auto split: prod.splits)
  ultimately show ?case using 1(1) 1(3) by fastforce
qed


section \<open>Parts of the list of symbols\<close>

text \<open>A part of the list, and the parts from the start on put together.\<close>

theorem SymbolGetList_part:
  assumes "length (dv_cachedSymbols s) < 2 ^ 31" "0 \<le> offset" "0 < n" "offset + n \<le> int INT_MAX"
  shows "run_state (CApi_SymbolGetList offset n) s = (take (nat n) (drop (nat offset) (dv_cachedSymbols s)), s)"
proof -
  let ?l = "dv_cachedSymbols s"
  have number: "sint (of_nat (length ?l) :: u32) = int (length ?l)"
    using assms(1) by (simp add: signed_of_nat signed_take_bit_int_eq_self)
  show ?thesis
  proof (cases "offset < int (length ?l)")
    case True
    have "nat (min (offset + n) (int (length ?l))) - nat offset = min (nat n) (length ?l - nat offset)"
      using assms(2,3) True by auto
    then show ?thesis
      using assms True number by (simp add: CApi_SymbolGetList_def Let_def) (simp add: min_def)
  next
    case False
    with assms number show ?thesis by (simp add: CApi_SymbolGetList_def Let_def)
  qed
qed

text \<open>
  A request for a part of the symbols for which the sum of offset and count is more than the largest \<open>int\<close> overflows, which C++ does not define.
\<close>

theorem SymbolGetList_overflows:
  assumes "length (dv_cachedSymbols s) < 2 ^ 31" "0 \<le> offset" "offset < int (length (dv_cachedSymbols s))" "int INT_MAX - offset < n"
  shows "run_state (CApi_SymbolGetList offset n) s = ([], s\<lparr>dv_traps := insert IntOverflow (dv_traps s)\<rparr>)"
proof -
  have "sint (of_nat (length (dv_cachedSymbols s)) :: u32) = int (length (dv_cachedSymbols s))"
    using assms(1) by (simp add: signed_of_nat signed_take_bit_int_eq_self)
  with assms show ?thesis by (simp add: CApi_SymbolGetList_def Let_def trap_def dv_update_def)
qed

end
