(* ===== verification/ServerSafety.thy ===== *)
theory ServerSafety
  imports ServerBreakpoints
begin

text \<open>
  The handles of the server in every state that it reaches: the steps are all operations of \<open>CApi\<close> and what the background threads of the two
  breakpoint engines do. No operation ever follows a pointer to a deleted object or to an object of another class, every handle is positive, two
  handles never share an object, and no two handles are open for the same process.
\<close>

section \<open>The invariant\<close>

definition live_info :: "(nat \<rightharpoonup> HeapObject) \<Rightarrow> HANDLE_INFO \<Rightarrow> bool" where
  "live_info heap info \<longleftrightarrow> hn_p info \<noteq> 0 \<and> (\<exists>ob. heap (hn_p info) = Some ob \<and> object_type ob = hn_type info)"

definition pid_of :: "(nat \<rightharpoonup> HeapObject) \<Rightarrow> HANDLE_INFO \<Rightarrow> int option" where
  "pid_of heap info = (case heap (hn_p info) of Some (OpenProcess pd) \<Rightarrow> Some (op_pid pd) | _ \<Rightarrow> None)"

definition unique_pids :: "(int \<times> HANDLE_INFO) list \<Rightarrow> (nat \<rightharpoonup> HeapObject) \<Rightarrow> bool" where
  "unique_pids tab heap \<longleftrightarrow> (\<forall>h info h' info' pid. (h, info) \<in> set tab \<longrightarrow> (h', info') \<in> set tab \<longrightarrow>
     pid_of heap info = Some pid \<longrightarrow> pid_of heap info' = Some pid \<longrightarrow> h = h')"

definition table_ok :: "(int \<times> HANDLE_INFO) list \<Rightarrow> (nat \<rightharpoonup> HeapObject) \<Rightarrow> nat \<Rightarrow> bool" where
  "table_ok tab heap next \<longleftrightarrow> om_ok tab \<and> 0 < next \<and> (\<forall>p \<in> dom heap. p < next) \<and>
     (\<forall>h info. (h, info) \<in> set tab \<longrightarrow> 0 < h \<and> live_info heap info) \<and> distinct (map (hn_p \<circ> snd) tab) \<and> unique_pids tab heap"

definition handles_ok :: "'k Device \<Rightarrow> bool" where
  "handles_ok s \<longleftrightarrow> table_ok (dv_handles s) (dv_heap s) (dv_next s) \<and> BadPointer \<notin> dv_traps s"

text \<open>
  \<open>safe P m\<close>: the computation \<open>m\<close> keeps the invariant, the pointers in \<open>P\<close>, which point to open processes, and the table of handles.
\<close>

definition is_process :: "'k Device \<Rightarrow> nat \<Rightarrow> bool" where
  "is_process s p \<longleftrightarrow> (\<exists>pd. dv_heap s p = Some (OpenProcess pd))"

definition handles_with :: "nat set \<Rightarrow> 'k Device \<Rightarrow> bool" where
  "handles_with P s \<longleftrightarrow> handles_ok s \<and> (\<forall>p \<in> P. is_process s p)"

abbreviation safe :: "nat set \<Rightarrow> ('k, 'a) device \<Rightarrow> bool" where
  "safe P m \<equiv> keeps (handles_with P) dv_handles m"

lemma safeI:
  "(\<And>s r s'. handles_with P s \<Longrightarrow> run_state m s = (r, s') \<Longrightarrow> handles_with P s' \<and> dv_handles s' = dv_handles s) \<Longrightarrow> safe P m"
  unfolding keeps_def by blast

lemma safeD: "safe P m \<Longrightarrow> run_state m s = (r, s') \<Longrightarrow> handles_with P s \<Longrightarrow> handles_with P s' \<and> dv_handles s' = dv_handles s"
  unfolding keeps_def by blast

lemma handles_ok_frame [simp]:
  "handles_ok (s\<lparr>dv_engine := e\<rparr>) = handles_ok s" "handles_ok (s\<lparr>dv_kbp := k\<rparr>) = handles_ok s"
  "handles_ok (s\<lparr>dv_perf := pf\<rparr>) = handles_ok s" "handles_ok (put_driver d s) = handles_ok s"
  "handles_ok (s\<lparr>dv_forceReclaim := b\<rparr>) = handles_ok s" "handles_ok (s\<lparr>dv_pid := i\<rparr>) = handles_ok s"
  "handles_ok (s\<lparr>dv_tracer := i\<rparr>) = handles_ok s" "handles_ok (s\<lparr>dv_cachedSymbols := l\<rparr>) = handles_ok s"
  "handles_ok (s\<lparr>dv_cachedModuleBase := a\<rparr>) = handles_ok s"
  "t \<noteq> BadPointer \<Longrightarrow> handles_ok (s\<lparr>dv_traps := insert t (dv_traps s)\<rparr>) = handles_ok s"
  by (simp_all add: handles_ok_def put_driver_def)

lemma handles_with_frame [simp]:
  "handles_with P (s\<lparr>dv_engine := e\<rparr>) = handles_with P s" "handles_with P (s\<lparr>dv_kbp := k\<rparr>) = handles_with P s"
  "handles_with P (s\<lparr>dv_perf := pf\<rparr>) = handles_with P s" "handles_with P (put_driver d s) = handles_with P s"
  "handles_with P (s\<lparr>dv_forceReclaim := b\<rparr>) = handles_with P s" "handles_with P (s\<lparr>dv_pid := i\<rparr>) = handles_with P s"
  "handles_with P (s\<lparr>dv_tracer := i\<rparr>) = handles_with P s" "handles_with P (s\<lparr>dv_cachedSymbols := l\<rparr>) = handles_with P s"
  "handles_with P (s\<lparr>dv_cachedModuleBase := a\<rparr>) = handles_with P s"
  "t \<noteq> BadPointer \<Longrightarrow> handles_with P (s\<lparr>dv_traps := insert t (dv_traps s)\<rparr>) = handles_with P s"
  by (simp_all add: handles_with_def is_process_def) (simp_all add: put_driver_def)

named_theorems safe_intros

lemma safe_part [safe_intros]:
  "safe P (on_engine m1)" "safe P (on_kdriver m2)" "safe P (on_system m3)" "safe P (on_kbp m4)" "safe P (on_perf m5)"
  by (rule safeI, auto simp: on_engine_def on_kdriver_def on_system_def on_kbp_def on_perf_def put_driver_def split: prod.splits)+

lemma safe_trap [safe_intros]: "t \<noteq> BadPointer \<Longrightarrow> safe P (trap t a)"
  by (rule safeI) (auto simp: trap_def dv_update_def)

lemma safe_update: "(\<And>s. handles_with P s \<Longrightarrow> handles_with P (f s) \<and> dv_handles (f s) = dv_handles s) \<Longrightarrow> safe P (dv_update f)"
  by (rule safeI) (auto simp: dv_update_def)

lemma safe_observe [safe_intros]: "safe P (GetHandleType h)" "safe P (GetPointerFromHandle h)" "safe P State_Monad.get"
  by (rule safeI, auto simp: GetHandleType_def GetPointerFromHandle_def)+

lemma safe_cases [safe_intros]:
  "safe P m1 \<Longrightarrow> safe P m2 \<Longrightarrow> safe P (if c then m1 else m2)"
  "safe P n1 \<Longrightarrow> (\<And>x. safe P (n2 x)) \<Longrightarrow> safe P (case op of None \<Rightarrow> n1 | Some x \<Rightarrow> n2 x)"
  "safe P o1 \<Longrightarrow> (\<And>x. safe P (o2 x)) \<Longrightarrow> safe P (case oc of Undefined \<Rightarrow> o1 | Done x \<Rightarrow> o2 x)"
  "(\<And>a b. safe P (pr a b)) \<Longrightarrow> safe P (case pq of (a, b) \<Rightarrow> pr a b)"
  "(\<And>a b. safe P (ps a b y)) \<Longrightarrow> safe P ((case pq of (a, b) \<Rightarrow> ps a b) y)"
  by (auto split: option.splits Outcome.splits prod.splits)

lemma safe_if_process [safe_intros]: "safe P m \<Longrightarrow> safe P (if_process h none m)"
  unfolding if_process_def by (intro keeps_intros safe_intros)

lemma safe_by_owner [safe_intros]: "safe P other \<Longrightarrow> safe P (by_owner h p k other)"
  unfolding by_owner_def by (intro keeps_intros safe_intros)

section \<open>Following a handle\<close>

lemma table_entry:
  assumes "table_ok tab heap next" "map_of tab h = Some info"
  shows "0 < h" "live_info heap info"
  using assms map_of_SomeD [OF assms(2)] by (auto simp: table_ok_def)

lemma table_in_dom: "table_ok tab heap next \<Longrightarrow> (h, info) \<in> set tab \<Longrightarrow> hn_p info \<in> dom heap"
  unfolding table_ok_def live_info_def by blast

lemma process_handle:
  assumes "handles_ok s" "map_of (dv_handles s) h = Some info" "hn_type info = htProcesHandle"
  shows "hn_p info \<noteq> 0" "is_process s (hn_p info)"
proof -
  from assms(1,2) have "live_info (dv_heap s) info" by (auto simp: handles_ok_def intro: table_entry)
  then obtain ob where ob: "hn_p info \<noteq> 0" "dv_heap s (hn_p info) = Some ob" "object_type ob = htProcesHandle"
    by (auto simp: live_info_def assms(3))
  then show "hn_p info \<noteq> 0" "is_process s (hn_p info)" by (cases ob; simp add: is_process_def)+
qed

text \<open>Changing the data of an open process, but not its identifier.\<close>

lemma table_ok_put:
  assumes "table_ok tab heap next" "heap p = Some (OpenProcess pd)" "op_pid pd' = op_pid pd"
  shows "table_ok tab (heap(p \<mapsto> OpenProcess pd')) next"
proof -
  have "live_info (heap(p \<mapsto> OpenProcess pd')) info = live_info heap info" for info
    using assms(2) by (auto simp: live_info_def)
  moreover have "pid_of (heap(p \<mapsto> OpenProcess pd')) info = pid_of heap info" for info
    using assms(2,3) by (auto simp: pid_of_def)
  moreover have "dom (heap(p \<mapsto> OpenProcess pd')) = dom heap" using assms(2) by auto
  ultimately show ?thesis using assms(1) by (simp add: table_ok_def unique_pids_def)
qed

lemma safe_process_at [safe_intros]: "p \<in> P \<Longrightarrow> safe P (process_at p)"
proof (rule safeI)
  fix s r s' assume "p \<in> P" "handles_with P s" "run_state (process_at p) s = (r, s')"
  moreover then obtain pd where "dv_heap s p = Some (OpenProcess pd)" by (auto simp: handles_with_def is_process_def)
  ultimately show "handles_with P s' \<and> dv_handles s' = dv_handles s" by (simp add: process_at_def)
qed

lemma safe_put_process [safe_intros]:
  assumes "p \<in> P" "\<And>pd. op_pid (f pd) = op_pid pd"
  shows "safe P (put_process p f)"
proof (rule safeI)
  fix s r s' assume s: "handles_with P s" "run_state (put_process p f) s = (r, s')"
  from assms(1) s(1) obtain pd where pd: "dv_heap s p = Some (OpenProcess pd)" by (auto simp: handles_with_def is_process_def)
  from s(1) table_ok_put [of "dv_handles s" "dv_heap s" "dv_next s" p pd "f pd"] pd assms(2) have "handles_ok (s\<lparr>dv_heap := (dv_heap s)(p \<mapsto> OpenProcess (f pd))\<rparr>)"
    by (auto simp: handles_with_def handles_ok_def)
  with s pd show "handles_with P s' \<and> dv_handles s' = dv_handles s" by (auto simp: put_process_def dv_update_def handles_with_def is_process_def)
qed

lemma handles_with_insert: "handles_with (insert p P) s \<longleftrightarrow> handles_with P s \<and> is_process s p"
  by (auto simp: handles_with_def)

text \<open>A pointer that a process handle stands for may be followed.\<close>

lemma safe_pointer:
  assumes "safe P none" "\<And>p. safe (insert p P) (f p)"
  shows "safe P (do { t \<leftarrow> GetHandleType h; if t \<noteq> htProcesHandle then none else do { p \<leftarrow> GetPointerFromHandle h; f p }})"
proof (rule safeI)
  fix s r s'
  assume s: "handles_with P s"
    and run: "run_state (do { t \<leftarrow> GetHandleType h; if t \<noteq> htProcesHandle then none else do { p \<leftarrow> GetPointerFromHandle h; f p }}) s = (r, s')"
  show "handles_with P s' \<and> dv_handles s' = dv_handles s"
  proof (cases "map_of (dv_handles s) h")
    case None
    with run have "run_state none s = (r, s')" by (simp add: GetHandleType_def)
    with safeD [OF assms(1)] s show ?thesis by blast
  next
    case (Some info)
    show ?thesis
    proof (cases "hn_type info = htProcesHandle")
      case True
      with run Some have f: "run_state (f (hn_p info)) s = (r, s')" by (simp add: GetHandleType_def GetPointerFromHandle_def)
      have "handles_with (insert (hn_p info) P) s"
        using s process_handle [OF _ Some True] by (simp add: handles_with_insert) (simp add: handles_with_def)
      from safeD [OF assms(2) f this] show ?thesis by (simp add: handles_with_insert)
    next
      case False
      with run Some have "run_state none s = (r, s')" by (simp add: GetHandleType_def)
      with safeD [OF assms(1)] s show ?thesis by blast
    qed
  qed
qed

lemma safe_with_process [safe_intros]: "(\<And>p pd. safe (insert p P) (f p pd)) \<Longrightarrow> safe P (with_process h none f)"
  unfolding with_process_def if_process_def
  by (intro safe_pointer) (auto intro!: keeps_intros safe_intros)

lemma safe_with_uxn [safe_intros]: "(\<And>p pd. safe (insert p P) (f p pd)) \<Longrightarrow> safe P (with_uxn h failed f)"
  unfolding with_uxn_def if_process_def
  by (intro safe_pointer) (auto intro!: keeps_intros safe_intros)

section \<open>New objects and new handles\<close>

lemma live_info_new: "p \<notin> dom heap \<Longrightarrow> live_info heap info \<Longrightarrow> live_info (heap(p \<mapsto> ob)) info"
  by (auto simp: live_info_def)

lemma table_ok_new:
  assumes "table_ok tab heap next"
  shows "table_ok tab (heap(next \<mapsto> ob)) (next + 1)"
proof -
  have fresh: "next \<notin> dom heap" using assms by (auto simp: table_ok_def)
  have same: "hn_p info \<noteq> next" if "(h, info) \<in> set tab" for h info
  proof -
    have "live_info heap info" using assms that by (simp add: table_ok_def)
    with fresh show ?thesis by (auto simp: live_info_def)
  qed
  then have pids: "pid_of (heap(next \<mapsto> ob)) info = pid_of heap info" if "(h, info) \<in> set tab" for h info
    using that by (auto simp: pid_of_def)
  have "unique_pids tab (heap(next \<mapsto> ob))"
    using assms unfolding unique_pids_def table_ok_def by (metis pids)
  moreover have "\<forall>h info. (h, info) \<in> set tab \<longrightarrow> 0 < h \<and> live_info (heap(next \<mapsto> ob)) info"
    using assms live_info_new [OF fresh] by (simp add: table_ok_def)
  moreover have "\<forall>p \<in> dom (heap(next \<mapsto> ob)). p < next + 1"
    using assms by (auto simp: table_ok_def less_Suc_eq)
  ultimately show ?thesis using assms by (simp add: table_ok_def)
qed

text \<open>A handle for an object that has none.\<close>

lemma table_ok_handle:
  assumes ok: "table_ok tab heap next" and new: "map_of tab h = None" "0 < h" "live_info heap info"
    and fresh: "hn_p info \<notin> hn_p ` snd ` set tab"
    and pid: "\<And>h' info' pid. (h', info') \<in> set tab \<Longrightarrow> pid_of heap info' = Some pid \<Longrightarrow> pid_of heap info \<noteq> Some pid"
  shows "table_ok (om_emplace h info tab) heap next"
proof -
  have set: "set (om_emplace h info tab) = insert (h, info) (set tab)"
    using new(1) by (auto simp: om_emplace_def set_om_put map_of_eq_None_iff)
  have "mset (map (hn_p \<circ> snd) (om_emplace h info tab)) = mset (map (hn_p \<circ> snd) ((h, info) # tab))"
    using om_put_new [OF new(1), of info] new(1) by (simp add: om_emplace_def)
  then have "distinct (map (hn_p \<circ> snd) (om_emplace h info tab)) \<longleftrightarrow> distinct (map (hn_p \<circ> snd) ((h, info) # tab))"
    by (rule mset_eq_imp_distinct_iff)
  moreover have "distinct (map (hn_p \<circ> snd) ((h, info) # tab))"
    using ok fresh by (simp add: table_ok_def image_image)
  moreover have "unique_pids (om_emplace h info tab) heap"
    using ok pid unfolding unique_pids_def table_ok_def set by (metis insert_iff prod.inject)
  ultimately show ?thesis using ok new(2,3) set by (auto simp: table_ok_def)
qed

lemma create_ok:
  assumes s: "handles_ok s" "dv_heap s p = Some ob" "p \<noteq> 0" "p \<notin> hn_p ` snd ` set (dv_handles s)"
    and pid: "\<And>pd h info pd'. ob = OpenProcess pd \<Longrightarrow> (h, info) \<in> set (dv_handles s) \<Longrightarrow>
      dv_heap s (hn_p info) = Some (OpenProcess pd') \<Longrightarrow> op_pid pd' \<noteq> op_pid pd"
    and run: "run_state (CreateHandleFromPointer os p (object_type ob)) s = (r, s')"
  shows "handles_ok s'"
proof (cases "drawHandle os (dv_handles s) (kd_kernel (the_driver s))")
  case None
  with run s show ?thesis by (auto simp: CreateHandleFromPointer_def trap_def dv_update_def)
next
  case (Some hk)
  obtain h k where hk: "hk = (h, k)" by fastforce
  let ?info = "\<lparr>hn_p = p, hn_type = object_type ob\<rparr>"
  have new: "map_of (dv_handles s) h = None" "0 < h"
  proof -
    from drawHandle_new [OF Some] hk obtain r where "map_of (dv_handles s) h = None" "h = handleOf r" by auto
    with handleOf_range [of r] show "map_of (dv_handles s) h = None" "0 < h" by linarith+
  qed
  have "table_ok (om_emplace h ?info (dv_handles s)) (dv_heap s) (dv_next s)"
  proof (rule table_ok_handle [OF _ new])
    show "table_ok (dv_handles s) (dv_heap s) (dv_next s)" using s(1) by (simp add: handles_ok_def)
    show "live_info (dv_heap s) ?info" using s(2,3) by (simp add: live_info_def)
    show "hn_p ?info \<notin> hn_p ` snd ` set (dv_handles s)" using s(4) by simp
    fix h' info' pid'
    assume "(h', info') \<in> set (dv_handles s)" "pid_of (dv_heap s) info' = Some pid'"
    moreover then obtain pd' where "dv_heap s (hn_p info') = Some (OpenProcess pd')" "op_pid pd' = pid'"
      by (auto simp: pid_of_def split: option.splits HeapObject.splits)
    ultimately show "pid_of (dv_heap s) ?info \<noteq> Some pid'"
      using pid [of _ h' info' pd'] s(2) by (cases ob) (auto simp: pid_of_def)
  qed
  with run Some hk s(1) show ?thesis by (auto simp: CreateHandleFromPointer_def dv_update_def handles_ok_def put_driver_def)
qed

text \<open>\<open>new\<close> followed by a handle for the object.\<close>

lemma new_handle_ok:
  assumes s: "handles_ok s"
    and pid: "\<And>pd h info pd'. ob = OpenProcess pd \<Longrightarrow> (h, info) \<in> set (dv_handles s) \<Longrightarrow>
      dv_heap s (hn_p info) = Some (OpenProcess pd') \<Longrightarrow> op_pid pd' \<noteq> op_pid pd"
    and run: "run_state (do { p \<leftarrow> new_object ob; CreateHandleFromPointer os p (object_type ob) }) s = (r, s')"
  shows "handles_ok s'"
proof -
  let ?s = "s\<lparr>dv_heap := (dv_heap s)(dv_next s \<mapsto> ob), dv_next := dv_next s + 1\<rparr>"
  have ok: "table_ok (dv_handles s) (dv_heap s) (dv_next s)" using s by (simp add: handles_ok_def)
  have fresh: "dv_next s \<notin> hn_p ` snd ` set (dv_handles s)" "dv_next s \<noteq> 0"
  proof -
    have "hn_p info \<in> dom (dv_heap s)" if "(h, info) \<in> set (dv_handles s)" for h info
      by (rule table_in_dom [OF ok that])
    then show "dv_next s \<notin> hn_p ` snd ` set (dv_handles s)" using ok by (force simp: table_ok_def)
    show "dv_next s \<noteq> 0" using ok by (simp add: table_ok_def)
  qed
  show ?thesis
  proof (rule create_ok [of ?s])
    show "handles_ok ?s" using table_ok_new [OF ok, of ob] s by (simp add: handles_ok_def)
    show "run_state (CreateHandleFromPointer os (dv_next s) (object_type ob)) ?s = (r, s')"
      using run by (simp add: new_object_def dv_update_def)
    fix pd h info pd' assume "ob = OpenProcess pd" "(h, info) \<in> set (dv_handles ?s)" "dv_heap ?s (hn_p info) = Some (OpenProcess pd')"
    with pid [of pd h info pd'] fresh show "op_pid pd' \<noteq> op_pid pd" by (auto simp: image_iff split: if_splits)
  qed (use fresh in simp_all)
qed

section \<open>Opening\<close>

lemma info_type:
  assumes "handles_ok s" "(h, info) \<in> set (dv_handles s)"
  shows "hn_type info = htProcesHandle \<longleftrightarrow> (\<exists>pd. dv_heap s (hn_p info) = Some (OpenProcess pd))"
proof -
  from assms have "live_info (dv_heap s) info" by (simp add: handles_ok_def table_ok_def)
  then obtain ob where "dv_heap s (hn_p info) = Some ob" "object_type ob = hn_type info" by (auto simp: live_info_def)
  then show ?thesis by (cases ob) auto
qed

lemma findPid_run:
  assumes "handles_ok s" "set tab \<subseteq> set (dv_handles s)"
  shows "\<exists>h. run_state (findPid pid tab) s = (h, s) \<and>
    (if h = 0 then \<forall>h' info. (h', info) \<in> set tab \<longrightarrow> pid_of (dv_heap s) info \<noteq> Some pid
     else \<exists>info. (h, info) \<in> set tab \<and> pid_of (dv_heap s) info = Some pid)"
  using assms(2)
proof (induction tab)
  case (Cons x tab)
  obtain h info where x: "x = (h, info)" by fastforce
  from Cons obtain h' where IH: "run_state (findPid pid tab) s = (h', s)"
    "if h' = 0 then \<forall>h' info. (h', info) \<in> set tab \<longrightarrow> pid_of (dv_heap s) info \<noteq> Some pid
     else \<exists>info. (h', info) \<in> set tab \<and> pid_of (dv_heap s) info = Some pid" by auto
  have mem: "(h, info) \<in> set (dv_handles s)" using Cons.prems x by auto
  have pos: "h \<noteq> 0" using assms(1) mem by (auto simp: handles_ok_def table_ok_def)
  show ?case
  proof (cases "\<exists>pd. dv_heap s (hn_p info) = Some (OpenProcess pd)")
    case True
    then obtain pd where pd: "dv_heap s (hn_p info) = Some (OpenProcess pd)" by blast
    with info_type [OF assms(1) mem] have type: "hn_type info = htProcesHandle" by blast
    show ?thesis
    proof (cases "op_pid pd = pid")
      case True
      with pd type pos x show ?thesis by (auto simp: process_at_def pid_of_def)
    next
      case False
      with pd type IH x show ?thesis by (auto simp: process_at_def pid_of_def split: if_splits)
    qed
  next
    case False
    with info_type [OF assms(1) mem] have "hn_type info \<noteq> htProcesHandle" by blast
    moreover from False have "pid_of (dv_heap s) info = None" by (auto simp: pid_of_def split: option.splits HeapObject.splits)
    ultimately show ?thesis using IH x by (auto split: if_splits)
  qed
qed simp

lemma FindHandleByPID_run:
  assumes "handles_ok s" "run_state (FindHandleByPID pid) s = (h, s')"
  shows "s' = s" "h = 0 \<Longrightarrow> (h', info) \<in> set (dv_handles s) \<Longrightarrow> pid_of (dv_heap s) info \<noteq> Some pid"
    "h \<noteq> 0 \<Longrightarrow> \<exists>info. map_of (dv_handles s) h = Some info \<and> pid_of (dv_heap s) info = Some pid"
proof -
  have "distinct (map fst (dv_handles s))" using assms(1) by (simp add: handles_ok_def table_ok_def om_ok_distinct)
  note some = map_of_is_SomeI [OF this]
  obtain x where x: "run_state (findPid pid (dv_handles s)) s = (x, s)"
    "if x = 0 then \<forall>h' info. (h', info) \<in> set (dv_handles s) \<longrightarrow> pid_of (dv_heap s) info \<noteq> Some pid
     else \<exists>info. (x, info) \<in> set (dv_handles s) \<and> pid_of (dv_heap s) info = Some pid"
    using findPid_run [OF assms(1) order.refl, of pid] by blast
  with assms(2) have h: "h = x" "s' = s" by (simp_all add: FindHandleByPID_def)
  show "s' = s" by (rule h)
  show "pid_of (dv_heap s) info \<noteq> Some pid" if "h = 0" "(h', info) \<in> set (dv_handles s)" using that x h by auto
  show "\<exists>info. map_of (dv_handles s) h = Some info \<and> pid_of (dv_heap s) info = Some pid" if "h \<noteq> 0"
    using that x h some by (auto split: if_splits)
qed

lemma handles_with_empty [simp]: "handles_with {} s = handles_ok s"
  by (simp add: handles_with_def)

lemma safe_emptyD: "safe {} m \<Longrightarrow> run_state m s = (r, s') \<Longrightarrow> handles_ok s \<Longrightarrow> handles_ok s'"
  using safeD [of "{}" m] by simp

lemma engine_run: "\<exists>a e. run_state (on_engine m) s = (a, s\<lparr>dv_engine := e\<rparr>)"
  by (cases "run_state m (dv_engine s)") (auto simp: on_engine_def)

lemma OpenProcess_ok:
  assumes s: "handles_ok s" and run: "run_state (CApi_OpenProcess os pid) s = (r, s')"
  shows "handles_ok s'"
proof -
  obtain hm s0 where hm: "run_state (FindHandleByPID pid) s = (hm, s0)" by fastforce
  note find = FindHandleByPID_run [OF s hm]
  show ?thesis
  proof (cases "hm = 0")
    case True
    obtain ok e where e: "run_state (on_engine (mem_OpenProcess os pid)) s = (ok, s\<lparr>dv_engine := e\<rparr>)"
      using engine_run [of "mem_OpenProcess os pid" s] by blast
    let ?s = "s\<lparr>dv_engine := e, dv_pid := pid, dv_tracer := pid\<rparr>"
    show ?thesis
    proof (cases ok)
      case False
      with run hm find(1) True e s show ?thesis by (auto simp: CApi_OpenProcess_def)
    next
      case ok: True
      have create: "run_state (do { p \<leftarrow> new_object (OpenProcess (CeOpenProcess_new pid));
          CreateHandleFromPointer os p (object_type (OpenProcess (CeOpenProcess_new pid))) }) ?s = (r, s')"
        using run hm find(1) True e ok by (simp add: CApi_OpenProcess_def dv_update_def)
      show ?thesis
      proof (rule new_handle_ok [OF _ _ create])
        show "handles_ok ?s" using s by simp
        fix pd h info pd'
        assume "OpenProcess (CeOpenProcess_new pid) = OpenProcess pd" "(h, info) \<in> set (dv_handles ?s)"
          "dv_heap ?s (hn_p info) = Some (OpenProcess pd')"
        with find(2) [OF True, of h info] show "op_pid pd' \<noteq> op_pid pd" by (auto simp: CeOpenProcess_new_def pid_of_def)
      qed
    qed
  next
    case False
    with find(3) obtain info where info: "map_of (dv_handles s) hm = Some info" "pid_of (dv_heap s) info = Some pid" by blast
    let ?p = "hn_p info"
    have p: "handles_with {?p} s"
      using s info(2) by (auto simp: handles_with_def is_process_def pid_of_def split: option.splits HeapObject.splits)
    have "safe {?p} (do {
        put_process ?p (\<lambda>pd. pd\<lparr>op_ReferenceCount := op_ReferenceCount pd + 1\<rparr>);
        b \<leftarrow> on_engine (mem_OpenProcess os pid);
        dv_update (\<lambda>s. s\<lparr>dv_pid := pid, dv_tracer := pid\<rparr>);
        State_Monad.return hm })"
      by (intro keeps_intros safe_intros safe_update) auto
    from safeD [OF this _ p] run hm find(1) False info(1) show ?thesis
      by (auto simp: CApi_OpenProcess_def GetPointerFromHandle_def handles_with_def)
  qed
qed

section \<open>Closing\<close>

lemma table_ok_close:
  assumes ok: "table_ok tab heap next" and h: "map_of tab h = Some info"
  shows "table_ok (om_del h tab) (heap(hn_p info := None)) next"
proof -
  have mem: "(h, info) \<in> set tab" using h by (rule map_of_SomeD)
  have other: "hn_p info' \<noteq> hn_p info" if "(h', info') \<in> set tab" "h' \<noteq> h" for h' info'
  proof
    assume "hn_p info' = hn_p info"
    moreover have "inj_on (hn_p \<circ> snd) (set tab)" using ok by (simp add: table_ok_def distinct_map)
    ultimately have "(h', info') = (h, info)" using that(1) mem by (intro inj_onD [of "hn_p \<circ> snd" "set tab"]) simp_all
    with that(2) show False by simp
  qed
  have sub: "(h', info') \<in> set (om_del h tab) \<longleftrightarrow> (h', info') \<in> set tab \<and> h' \<noteq> h" for h' info'
    by (auto simp: set_om_del)
  have pids: "pid_of (heap(hn_p info := None)) info' = pid_of heap info'" if "(h', info') \<in> set (om_del h tab)" for h' info'
    using that other [of h' info'] unfolding sub by (auto simp: pid_of_def)
  have "unique_pids (om_del h tab) (heap(hn_p info := None))"
    using ok pids unfolding unique_pids_def table_ok_def by (metis sub)
  moreover have "live_info (heap(hn_p info := None)) info'" if "(h', info') \<in> set (om_del h tab)" for h' info'
    using that other [of h' info'] ok unfolding sub by (auto simp: live_info_def table_ok_def)
  moreover have "distinct (map (hn_p \<circ> snd) (om_del h tab))"
    using ok by (auto simp: table_ok_def om_del_def distinct_map_filter)
  ultimately show ?thesis using ok by (auto simp: table_ok_def sub)
qed

lemma delete_remove_ok:
  assumes s: "handles_ok s" and h: "map_of (dv_handles s) h = Some info"
    and run: "run_state (do { delete_object (hn_type info) (hn_p info); RemoveHandle h }) s = (r, s')"
  shows "handles_ok s'"
proof -
  have ok: "table_ok (dv_handles s) (dv_heap s) (dv_next s)" using s by (simp add: handles_ok_def)
  from table_entry(2) [OF ok h] obtain ob where "dv_heap s (hn_p info) = Some ob" "object_type ob = hn_type info"
    by (auto simp: live_info_def)
  with run have "s' = s\<lparr>dv_heap := (dv_heap s)(hn_p info := None), dv_handles := om_del h (dv_handles s)\<rparr>"
    by (simp add: delete_object_def RemoveHandle_def dv_update_def)
  with table_ok_close [OF ok h] s show ?thesis by (simp add: handles_ok_def)
qed

lemma safe_release: "safe P (release_breakpoints os pd)"
  unfolding release_breakpoints_def by (intro keeps_intros safe_intros)

lemma CloseHandle_ok:
  assumes s: "handles_ok s" and run: "run_state (CApi_CloseHandle os h) s = (r, s')"
  shows "handles_ok s'"
proof (cases "map_of (dv_handles s) h")
  case None
  with run s show ?thesis
    by (simp add: CApi_CloseHandle_def GetHandleType_def GetPointerFromHandle_def RemoveHandle_def dv_update_def om_del_missing)
next
  case (Some info)
  show ?thesis
  proof (cases "hn_type info = htProcesHandle")
    case True
    let ?p = "hn_p info"
    have p: "handles_with {?p} s" using s process_handle [OF s Some True] by (simp add: handles_with_def)
    have pre: "safe {?p} (shutdown_process os ?p)"
      unfolding shutdown_process_def by (intro keeps_intros safe_intros safe_release) auto
    obtain u s1 where s1: "run_state (shutdown_process os ?p) s = (u, s1)" by (metis prod.exhaust)
    from safeD [OF pre s1 p] Some True have ok1: "handles_ok s1" "map_of (dv_handles s1) h = Some info"
      by (auto simp: handles_with_def)
    have "run_state (do { delete_object (hn_type info) ?p; RemoveHandle h }) s1 = (r, s')"
      using run s1 Some True
      by (simp add: CApi_CloseHandle_def GetHandleType_def GetPointerFromHandle_def)
    from delete_remove_ok [OF ok1 this] show ?thesis .
  next
    case False
    show ?thesis
    proof (cases "hn_type info = htTHSModule \<or> hn_type info = htTHSProcess")
      case True
      with run Some have "run_state (do { delete_object (hn_type info) (hn_p info); RemoveHandle h }) s = (r, s')"
        by (auto simp: CApi_CloseHandle_def GetHandleType_def GetPointerFromHandle_def)
      from delete_remove_ok [OF s Some this] show ?thesis .
    next
      case other: False
      have "live_info (dv_heap s) info" using s Some by (auto simp: handles_ok_def intro: table_entry)
      then obtain ob where "object_type ob = hn_type info" by (auto simp: live_info_def)
      with False other show ?thesis by (cases ob) auto
    qed
  qed
qed

section \<open>Snapshots\<close>

lemma table_ok_iterator:
  assumes "table_ok tab heap next" "heap p = Some ob" "object_type ob = object_type ob'" "object_type ob' \<noteq> htProcesHandle"
  shows "table_ok tab (heap(p \<mapsto> ob')) next"
proof -
  have "live_info (heap(p \<mapsto> ob')) info = live_info heap info" for info
    using assms(2,3) by (auto simp: live_info_def)
  moreover have "pid_of (heap(p \<mapsto> ob')) info = pid_of heap info" for info
    using assms(2-4) by (cases ob; cases ob') (auto simp: pid_of_def)
  moreover have "dom (heap(p \<mapsto> ob')) = dom heap" using assms(2) by auto
  ultimately show ?thesis using assms(1) by (simp add: table_ok_def unique_pids_def)
qed

lemma set_object_ok:
  assumes "handles_ok s" "dv_heap s p = Some ob" "object_type ob = object_type ob'" "object_type ob' \<noteq> htProcesHandle"
  shows "handles_ok (s\<lparr>dv_heap := (dv_heap s)(p \<mapsto> ob')\<rparr>)"
  using assms table_ok_iterator [of "dv_handles s" "dv_heap s" "dv_next s" p ob ob'] by (simp add: handles_ok_def)

lemma snapshot_object:
  assumes "handles_ok s" "map_of (dv_handles s) h = Some info"
  shows "hn_type info = htTHSProcess \<Longrightarrow> \<exists>l i. dv_heap s (hn_p info) = Some (ProcessList l i)"
    "hn_type info = htTHSModule \<Longrightarrow> \<exists>l i. dv_heap s (hn_p info) = Some (ModuleList l i)"
proof -
  from assms have "live_info (dv_heap s) info" by (auto simp: handles_ok_def intro: table_entry)
  then obtain ob where ob: "dv_heap s (hn_p info) = Some ob" "object_type ob = hn_type info" by (auto simp: live_info_def)
  show "hn_type info = htTHSProcess \<Longrightarrow> \<exists>l i. dv_heap s (hn_p info) = Some (ProcessList l i)" using ob by (cases ob) auto
  show "hn_type info = htTHSModule \<Longrightarrow> \<exists>l i. dv_heap s (hn_p info) = Some (ModuleList l i)" using ob by (cases ob) auto
qed

lemma process32_ok:
  assumes s: "handles_ok s" and run: "run_state (process32 move h) s = (r, s')"
  shows "handles_ok s'"
proof (cases "map_of (dv_handles s) h")
  case (Some info)
  show ?thesis
  proof (cases "hn_type info = htTHSProcess")
    case True
    with snapshot_object(1) [OF s Some] obtain l i where l: "dv_heap s (hn_p info) = Some (ProcessList l i)" by blast
    with run Some True s set_object_ok [OF s l, of "ProcessList l (move i)"] show ?thesis
      by (auto simp: process32_def GetHandleType_def GetPointerFromHandle_def set_object_def dv_update_def trap_def split: if_splits)
  qed (use run Some s in \<open>simp add: process32_def GetHandleType_def\<close>)
qed (use run s in \<open>simp add: process32_def GetHandleType_def\<close>)

lemma module32_ok:
  assumes s: "handles_ok s" and run: "run_state (module32 move h) s = (r, s')"
  shows "handles_ok s'"
proof (cases "map_of (dv_handles s) h")
  case (Some info)
  show ?thesis
  proof (cases "hn_type info = htTHSModule")
    case True
    with snapshot_object(2) [OF s Some] obtain l i where l: "dv_heap s (hn_p info) = Some (ModuleList l i)" by blast
    with run Some True s set_object_ok [OF s l, of "ModuleList l (move i)"] show ?thesis
      by (auto simp: module32_def GetHandleType_def GetPointerFromHandle_def set_object_def dv_update_def trap_def split: if_splits)
  qed (use run Some s in \<open>simp add: module32_def GetHandleType_def\<close>)
qed (use run s in \<open>simp add: module32_def GetHandleType_def\<close>)

lemma snapshot_ok:
  assumes s: "handles_ok s" and run: "run_state (CApi_CreateToolhelp32Snapshot os flags pid) s = (r, s')"
  shows "handles_ok s'"
proof -
  show ?thesis
  proof (cases "and flags TH32CS_SNAPPROCESS \<noteq> 0")
    case True
    obtain l e where e: "run_state (on_engine (mem_GetProcessPidList os)) s = (l, s\<lparr>dv_engine := e\<rparr>)"
      using engine_run [of "mem_GetProcessPidList os" s] by blast
    have "run_state (do { p \<leftarrow> new_object (ProcessList l 0); CreateHandleFromPointer os p (object_type (ProcessList l 0)) })
        (s\<lparr>dv_engine := e\<rparr>) = (r, s')"
      using run True e by (simp add: CApi_CreateToolhelp32Snapshot_def)
    from new_handle_ok [OF _ _ this] s show ?thesis by simp
  next
    case no_process: False
    show ?thesis
    proof (cases "and flags TH32CS_SNAPMODULE \<noteq> 0")
      case True
      obtain hm s0 where hm: "run_state (FindHandleByPID pid) s = (hm, s0)" by fastforce
      note s0 = FindHandleByPID_run(1) [OF s hm]
      obtain maps e where e: "run_state (on_engine (mem_GetProcessMaps os)) s = (maps, s\<lparr>dv_engine := e\<rparr>)"
      using engine_run [of "mem_GetProcessMaps os" s] by blast
      let ?ob = "ModuleList (map (\<lambda>m. (to_module m)\<lparr>ml_flag := 0\<rparr>) maps) 0"
      consider "hm = 0" | "hm \<noteq> 0" "maps = []" | "hm \<noteq> 0" "maps \<noteq> []" by blast
      then show ?thesis
      proof cases
        case 3
        have "run_state (do { p \<leftarrow> new_object ?ob; CreateHandleFromPointer os p (object_type ?ob) }) (s\<lparr>dv_engine := e\<rparr>) = (r, s')"
          using run no_process True hm s0 e 3 by (simp add: CApi_CreateToolhelp32Snapshot_def)
        from new_handle_ok [OF _ _ this] s show ?thesis by simp
      qed (use run no_process True hm s0 e s in \<open>auto simp: CApi_CreateToolhelp32Snapshot_def\<close>)
    next
      case False
      with run no_process s show ?thesis by (simp add: CApi_CreateToolhelp32Snapshot_def)
    qed
  qed
qed

section \<open>The other operations\<close>

lemma safe_set_cache [safe_intros]: "safe P (set_cache l b)"
  unfolding set_cache_def by (rule safe_update) simp

lemma safe_for_each [safe_intros]: "(\<And>x. safe P (f x)) \<Longrightarrow> safe P (for_each f xs)"
  by (rule keeps_for_each)

lemma safe_SymbolInit [safe_intros]: "safe P (CApi_SymbolInit os h base)"
  unfolding CApi_SymbolInit_def by (intro keeps_intros safe_intros) auto

lemma safe_driver [safe_intros]:
  "safe P (CApi_InitReadWriteDriver os key)" "safe P CApi_GetRWDriverType" "safe P (CApi_SetKernelBreakpointForceReclaim b)"
  unfolding CApi_InitReadWriteDriver_def CApi_GetRWDriverType_def CApi_SetKernelBreakpointForceReclaim_def
  by (intro keeps_intros safe_intros safe_update; simp)+

lemma safe_memory [safe_intros]:
  "safe P (CApi_GetProcessListInfo os)" "safe P (CApi_VirtualQueryExFull os h)" "safe P (CApi_VirtualQueryEx h a)"
  "safe P (CApi_ReadProcessMemory os h a buf)" "safe P (CApi_ReadBratchMemory os h a n)" "safe P (CApi_ReadBratchAddr os h input)"
  "safe P (CApi_WriteProcessMemory os h a data)" "safe P (CApi_GetModuleList os h)" "safe P (CApi_GetSoBase os h name)"
  unfolding CApi_GetProcessListInfo_def CApi_VirtualQueryExFull_def CApi_VirtualQueryEx_def CApi_ReadProcessMemory_def
    CApi_ReadBratchMemory_def CApi_ReadBratchAddr_def CApi_WriteProcessMemory_def CApi_GetModuleList_def CApi_GetSoBase_def
  by (intro keeps_intros safe_intros safe_update; simp)+

lemma safe_symbols [safe_intros]:
  "safe P CApi_SymbolGetCount" "safe P (CApi_SymbolGetList off n)" "safe P (CApi_SymbolFind os h base name)"
  unfolding CApi_SymbolGetCount_def CApi_SymbolGetList_def CApi_SymbolFind_def Let_def
  by (intro keeps_intros safe_intros; simp)+

lemma safe_breakpoints [safe_intros]:
  "safe P (CApi_SetBreakpoint os h a t n)" "safe P (CApi_RemoveBreakpoint os h a)" "safe P (CApi_SuspendBreakpoint os h a)"
  "safe P (CApi_ResumeBreakpoint os h a)" "safe P (CApi_ReadHwBpInfo os h a)"
  unfolding CApi_SetBreakpoint_def CApi_RemoveBreakpoint_def CApi_SuspendBreakpoint_def CApi_ResumeBreakpoint_def
    CApi_ReadHwBpInfo_def install_breakpoint_def drop_old_def Let_def
  by (intro keeps_intros safe_intros; simp)+

lemma safe_if_uxn_ready [safe_intros]: "safe P m \<Longrightarrow> safe P (if_uxn_ready failed m)"
  unfolding if_uxn_ready_def by (intro keeps_intros safe_intros)

lemma safe_uxn [safe_intros]:
  "safe P (CApi_InstallUxnBreakpoint os h a f)" "safe P (CApi_RemoveUxnBreakpoint os h a)"
  "safe P (CApi_WaitUxnBreakpoint os slot t q)" "safe P (CApi_ResumeUxnBreakpoint os req)"
  "safe P (CApi_GetUxnBreakpointStatus os slot)" "safe P (CApi_ClearUxnBreakpoints os)"
  unfolding CApi_InstallUxnBreakpoint_def CApi_RemoveUxnBreakpoint_def CApi_WaitUxnBreakpoint_def CApi_ResumeUxnBreakpoint_def
    CApi_GetUxnBreakpointStatus_def CApi_ClearUxnBreakpoints_def Let_def
  by (intro keeps_intros safe_intros; simp)+

section \<open>Every state of the server\<close>

text \<open>A step is an operation that a client asks for, or the work of a background thread.\<close>

inductive api_step :: "'k Os \<Rightarrow> 'k Device \<Rightarrow> 'k Device \<Rightarrow> bool" for os where
  Init: "run_state (CApi_InitReadWriteDriver os key) s = (r, s') \<Longrightarrow> api_step os s s'"
| Type: "run_state CApi_GetRWDriverType s = (r, s') \<Longrightarrow> api_step os s s'"
| Reclaim: "run_state (CApi_SetKernelBreakpointForceReclaim b) s = (r, s') \<Longrightarrow> api_step os s s'"
| Processes: "run_state (CApi_GetProcessListInfo os) s = (r, s') \<Longrightarrow> api_step os s s'"
| Snapshot: "run_state (CApi_CreateToolhelp32Snapshot os flags pid) s = (r, s') \<Longrightarrow> api_step os s s'"
| Process_First: "run_state (CApi_Process32First h) s = (r, s') \<Longrightarrow> api_step os s s'"
| Process_Next: "run_state (CApi_Process32Next h) s = (r, s') \<Longrightarrow> api_step os s s'"
| Module_First: "run_state (CApi_Module32First h) s = (r, s') \<Longrightarrow> api_step os s s'"
| Module_Next: "run_state (CApi_Module32Next h) s = (r, s') \<Longrightarrow> api_step os s s'"
| Open: "run_state (CApi_OpenProcess os pid) s = (r, s') \<Longrightarrow> api_step os s s'"
| Close: "run_state (CApi_CloseHandle os h) s = (r, s') \<Longrightarrow> api_step os s s'"
| Query_All: "run_state (CApi_VirtualQueryExFull os h) s = (r, s') \<Longrightarrow> api_step os s s'"
| Query: "run_state (CApi_VirtualQueryEx h a) s = (r, s') \<Longrightarrow> api_step os s s'"
| Read: "run_state (CApi_ReadProcessMemory os h a buf) s = (r, s') \<Longrightarrow> api_step os s s'"
| Read_Pages: "run_state (CApi_ReadBratchMemory os h a n) s = (r, s') \<Longrightarrow> api_step os s s'"
| Read_Many: "run_state (CApi_ReadBratchAddr os h input) s = (r, s') \<Longrightarrow> api_step os s s'"
| Write: "run_state (CApi_WriteProcessMemory os h a data) s = (r, s') \<Longrightarrow> api_step os s s'"
| Modules: "run_state (CApi_GetModuleList os h) s = (r, s') \<Longrightarrow> api_step os s s'"
| SoBase: "run_state (CApi_GetSoBase os h name) s = (r, s') \<Longrightarrow> api_step os s s'"
| Set_Breakpoint: "run_state (CApi_SetBreakpoint os h a t l) s = (r, s') \<Longrightarrow> api_step os s s'"
| Remove_Breakpoint: "run_state (CApi_RemoveBreakpoint os h a) s = (r, s') \<Longrightarrow> api_step os s s'"
| Suspend_Breakpoint: "run_state (CApi_SuspendBreakpoint os h a) s = (r, s') \<Longrightarrow> api_step os s s'"
| Resume_Breakpoint: "run_state (CApi_ResumeBreakpoint os h a) s = (r, s') \<Longrightarrow> api_step os s s'"
| Hits: "run_state (CApi_ReadHwBpInfo os h a) s = (r, s') \<Longrightarrow> api_step os s s'"
| Threads: "run_state (CApi_QueryHardwareBreakpointThreads os h c) s = (r, s') \<Longrightarrow> api_step os s s'"
| Uxn_Install: "run_state (CApi_InstallUxnBreakpoint os h a f) s = (r, s') \<Longrightarrow> api_step os s s'"
| Uxn_Remove: "run_state (CApi_RemoveUxnBreakpoint os h a) s = (r, s') \<Longrightarrow> api_step os s s'"
| Uxn_Wait: "run_state (CApi_WaitUxnBreakpoint os slot timeout q) s = (r, s') \<Longrightarrow> api_step os s s'"
| Uxn_Resume: "run_state (CApi_ResumeUxnBreakpoint os req) s = (r, s') \<Longrightarrow> api_step os s s'"
| Uxn_Status: "run_state (CApi_GetUxnBreakpointStatus os slot) s = (r, s') \<Longrightarrow> api_step os s s'"
| Uxn_Clear: "run_state (CApi_ClearUxnBreakpoints os) s = (r, s') \<Longrightarrow> api_step os s s'"
| Symbol_Init: "run_state (CApi_SymbolInit os h a) s = (r, s') \<Longrightarrow> api_step os s s'"
| Symbol_Count: "run_state CApi_SymbolGetCount s = (r, s') \<Longrightarrow> api_step os s s'"
| Symbol_List: "run_state (CApi_SymbolGetList off l) s = (r, s') \<Longrightarrow> api_step os s s'"
| Symbol_Find: "run_state (CApi_SymbolFind os h a name) s = (r, s') \<Longrightarrow> api_step os s s'"
| Perf_Consume: "run_state (on_perf (perf_Consume os bp tid)) s = (r, s') \<Longrightarrow> api_step os s s'"
| Perf_Rescan: "run_state (on_perf (perf_RescanAllLocked os)) s = (r, s') \<Longrightarrow> api_step os s s'"
| Kernel_Rescan: "run_state (on_kbp (kbp_RescanAllLocked os)) s = (r, s') \<Longrightarrow> api_step os s s'"

lemma safe_query [safe_intros]: "safe P (CApi_QueryHardwareBreakpointThreads os h c)"
  unfolding CApi_QueryHardwareBreakpointThreads_def if_process_def queryThread_def
  by (intro safe_cases(1) safe_pointer; (intro keeps_intros safe_intros)?; simp?)

lemma api_step_ok: "api_step os s s' \<Longrightarrow> handles_ok s \<Longrightarrow> handles_ok s'"
proof (induction rule: api_step.induct)
  case Snapshot
  then show ?case by (blast intro: snapshot_ok)
next
  case Process_First
  then show ?case unfolding CApi_Process32First_def by (blast intro: process32_ok)
next
  case Process_Next
  then show ?case unfolding CApi_Process32Next_def by (blast intro: process32_ok)
next
  case Module_First
  then show ?case unfolding CApi_Module32First_def by (blast intro: module32_ok)
next
  case Module_Next
  then show ?case unfolding CApi_Module32Next_def by (blast intro: module32_ok)
next
  case Open
  then show ?case by (blast intro: OpenProcess_ok)
next
  case Close
  then show ?case by (blast intro: CloseHandle_ok)
qed (auto elim!: safe_emptyD [rotated] intro!: safe_intros)

lemma handles_ok_new: "handles_ok (Device_new k)"
  by (simp add: handles_ok_def Device_new_def table_ok_def unique_pids_def)


end
