(* ===== verification/ServerMode.thy ===== *)
theory ServerMode
  imports ServerSafety
begin

text \<open>
  Kernel mode and the connection to the driver: in every state that the server reaches, an object of the class \<open>AndroidMemKernel\<close> in \<open>g_memIO\<close>
  means that the shared connection is open. \<open>InitReadWriteDriver\<close> relies on this when it asks the object for its type.
\<close>

section \<open>Computations that keep the connection\<close>

abbreviation quiet :: "('k, 'a) driver \<Rightarrow> bool" where
  "quiet m \<equiv> keeps (\<lambda>d. True) kd_ni m"

named_theorems quiet_intros

lemma quiet_kernel [quiet_intros]: "quiet (on_kernel m)"
  by (auto simp: keeps_def on_kernel_def split: prod.splits)

lemma quiet_get [quiet_intros]: "quiet State_Monad.get" "quiet driverLocked" "quiet drv_IsConnected"
  by (auto simp: keeps_def driverLocked_def drv_IsConnected_def)

lemma quiet_totals [quiet_intros]: "quiet (State_Monad.update (\<lambda>s. s\<lparr>kd_hwbpHitTotals := f s\<rparr>))"
  by (auto simp: keeps_def)

lemma quiet_with_driver [quiet_intros]: "(\<And>fd. quiet (f fd)) \<Longrightarrow> quiet (with_driver gone f)"
  unfolding with_driver_def by (intro keeps_intros quiet_intros)

lemma quiet_memory [quiet_intros]:
  "quiet (drv_GetExpireTime os)" "quiet (drv_OpenProcess os pid)" "quiet (drv_CloseProcess os h)" "quiet (drv_ReadMemory os h a buf)"
  "quiet (drv_WriteMemory os h a data)" "quiet (drv_QueryMaps os h)" "quiet (drv_GetPidList os)"
  "quiet (drv_GetProcessCmdline os pid n)" "quiet (drv_GetProcessComm os pid n)" "quiet (drv_GetSoBaseAddress os pid name)"
  unfolding drv_GetExpireTime_def drv_OpenProcess_def drv_CloseProcess_def drv_ReadMemory_def drv_WriteMemory_def drv_QueryMaps_def
    drv_GetPidList_def drv_GetProcessCmdline_def drv_GetProcessComm_def drv_GetProcessText_def drv_GetSoBaseAddress_def
  by (intro keeps_intros quiet_intros)+

lemma quiet_breakpoints [quiet_intros]:
  "quiet (drv_AddHardwareBreakpoint os tid a l t f)" "quiet (drv_RemoveHardwareBreakpoint os h)"
  "quiet (drv_DisableHardwareBreakpoint os h)" "quiet (drv_EnableHardwareBreakpoint os h)"
  "quiet (drv_ReadHardwareBreakpointInfo os h)" "quiet (drv_QueryHardwareBreakpointTask os tid c)"
  unfolding drv_AddHardwareBreakpoint_def drv_RemoveHardwareBreakpoint_def drv_DisableHardwareBreakpoint_def
    drv_EnableHardwareBreakpoint_def drv_ReadHardwareBreakpointInfo_def drv_QueryHardwareBreakpointTask_def
  by (intro keeps_intros quiet_intros)+

lemma quiet_uxn [quiet_intros]:
  "quiet (drv_InstallUxnBreakpoint os req)" "quiet (drv_RemoveUxnBreakpoint os pid a)" "quiet (drv_WaitUxnBreakpoint os req)"
  "quiet (drv_ResumeUxnBreakpoint os req)" "quiet (drv_GetUxnBreakpointStatus os slot)" "quiet (drv_ClearUxnBreakpoints os)"
  unfolding drv_InstallUxnBreakpoint_def drv_RemoveUxnBreakpoint_def drv_WaitUxnBreakpoint_def drv_ResumeUxnBreakpoint_def
    drv_GetUxnBreakpointStatus_def drv_ClearUxnBreakpoints_def
  by (intro keeps_intros quiet_intros)+

section \<open>Kernel mode means connected\<close>

definition engine_mode :: "'k Engine \<Rightarrow> bool" where
  "engine_mode e \<longleftrightarrow> (mio_type (en_memIO e) = MemType_Kernel \<longrightarrow> isConnected (en_driver e))"

abbreviation calm :: "('k, 'a) engine \<Rightarrow> bool" where
  "calm m \<equiv> keeps engine_mode (\<lambda>e. ()) m"

named_theorems calm_intros

lemma calm_driver [calm_intros]: "quiet m \<Longrightarrow> calm (on_driver m)"
  unfolding keeps_def
proof (intro allI impI, elim conjE)
  fix e a e' assume quiet: "\<forall>s a s'. True \<and> run_state m s = (a, s') \<longrightarrow> True \<and> kd_ni s' = kd_ni s"
    and mode: "engine_mode e" and run: "run_state (on_driver m) e = (a, e')"
  from run obtain d where d: "run_state m (en_driver e) = (a, d)" "e' = e\<lparr>en_driver := d\<rparr>"
    by (auto simp: on_driver_def split: prod.splits)
  with quiet have "kd_ni d = kd_ni (en_driver e)" by blast
  with d(2) mode show "engine_mode e' \<and> () = ()" by (simp add: engine_mode_def isConnected_def)
qed

lemma calm_os [calm_intros]: "calm (on_os m)"
  unfolding on_os_def by (intro calm_intros quiet_intros)

lemma calm_get [calm_intros]: "calm State_Monad.get"
  by (simp add: keeps_def)

lemma calm_set [calm_intros]: "(\<And>m. mio_type (f m) = mio_type m) \<Longrightarrow> calm (set_memIO f)"
  by (auto simp: keeps_def set_memIO_def engine_mode_def)

lemma calm_virtual [calm_intros]: "(\<And>m. calm (sys m)) \<Longrightarrow> (\<And>m. calm (kern m)) \<Longrightarrow> calm (virtual sys kern)"
  unfolding virtual_def by (intro keeps_intros calm_intros) auto

lemma calm_connect [calm_intros]: "calm (on_driver (kern_connect os))"
  unfolding keeps_def
proof (intro allI impI, elim conjE)
  fix e a e' assume mode: "engine_mode e" and run: "run_state (on_driver (kern_connect os)) e = (a, e')"
  show "engine_mode e' \<and> () = ()"
  proof (cases "isConnected (en_driver e)")
    case True
    with run have "e' = e" by (auto simp: on_driver_def kern_connect_def drv_Connect_def drv_IsConnected_def)
    with mode show ?thesis by simp
  next
    case False
    with mode have "mio_type (en_memIO e) \<noteq> MemType_Kernel" by (simp add: engine_mode_def)
    with run show ?thesis by (auto simp: on_driver_def engine_mode_def split: prod.splits)
  qed
qed

text \<open>The loop over the pages keeps what the reading of one chunk keeps.\<close>

lemma keeps_pagedRead:
  assumes "\<And>a b. keeps I f (rd a b)"
  shows "keeps I f (State (pagedRead rd ps cur buf))"
proof -
  have "I s \<Longrightarrow> pagedRead rd ps cur buf s = (got, s') \<Longrightarrow> I s' \<and> f s' = f s" for s got s'
  proof (induction "length buf" arbitrary: cur buf s got s' rule: less_induct)
    case less
    let ?chunk = "min (length buf) (ps - page_offset ps cur)"
    obtain r s1 where r: "run_state (rd cur (take ?chunk buf)) s = (r, s1)" by force
    from keepsD [OF assms r less.prems(1)] have s1: "I s1" "f s1 = f s" by auto
    consider "buf = []" | "buf \<noteq> []" "take ?chunk r = [] \<or> length (take ?chunk r) < ?chunk"
      | "buf \<noteq> []" "\<not> (take ?chunk r = [] \<or> length (take ?chunk r) < ?chunk)" by blast
    then show ?case
    proof cases
      case 1
      with less.prems show ?thesis by simp
    next
      case 2
      with pagedRead_stop [of buf ?chunk ps cur rd, OF 2(1) refl r 2(2)] less.prems s1 show ?thesis by simp
    next
      case 3
      obtain rest s2 where rest: "pagedRead rd ps (cur + of_nat ?chunk) (drop ?chunk buf) s1 = (rest, s2)" by force
      have "s' = s2" using pagedRead_step [of buf ?chunk ps cur rd, OF 3(1) refl r 3(2)] less.prems rest by simp
      moreover have "I s2 \<and> f s2 = f s1" using 3 by (intro less.hyps [OF _ s1(1) rest]) auto
      ultimately show ?thesis using s1 by simp
    qed
  qed
  then show ?thesis by (auto simp: keeps_def)
qed

lemma quiet_kern_Read [quiet_intros]: "quiet (kern_Read os h a buf)"
  unfolding kern_Read_def kern_chunk_def by (intro keeps_intros quiet_intros keeps_pagedRead)

lemma quiet_kern [quiet_intros]:
  "quiet (kern_Write os h a data)" "quiet (kern_GetProcessPidList os)" "quiet (kern_GetProcessMaps os pid h)"
  unfolding kern_Write_def kern_GetProcessPidList_def kern_GetProcessMaps_def kern_entry_def
  by (intro keeps_intros quiet_intros)+

lemma calm_mem [calm_intros]:
  "calm (mem_Read os a buf)" "calm (mem_Write os a data)" "calm (mem_GetProcessPidList os)" "calm (mem_GetProcessMaps os)"
  "calm (mem_GetSoBase os name)" "calm (mem_GetCardTime os)" "calm mem_type" "calm kernel_ready"
  unfolding mem_Read_def mem_Write_def mem_GetProcessPidList_def mem_GetProcessMaps_def mem_GetSoBase_def mem_GetCardTime_def
    mem_type_def kernel_ready_def
  by (intro keeps_intros calm_intros quiet_intros)+

lemma calm_open [calm_intros]: "calm (mem_OpenProcess os pid)" "calm (mem_CloseHandle os)"
  unfolding mem_OpenProcess_def mem_CloseHandle_def sys_OpenProcess_def kern_OpenProcess_def kern_openHandle_def sys_CloseHandle_def
    kern_CloseHandle_def Let_def
  by (intro keeps_intros calm_intros quiet_intros; simp)+

section \<open>Symbols\<close>

lemma calm_ReadFull [calm_intros]: "calm (ReadFull os a n)"
  unfolding ReadFull_def by (intro keeps_intros calm_intros)

lemma gnuChain_mode:
  "gnuChain os ch off idx s = Some p \<Longrightarrow> engine_mode s \<longrightarrow> engine_mode (snd p)"
proof (induction rule: gnuChain.raw_induct [rotated 1, consumes 1])
  case (1 loop os ch off idx s p)
  obtain r s1 where r: "run_state (ReadFull os (ch + ucast (idx - off) * 4) 4) s = (r, s1)" by fastforce
  from keepsD [OF calm_ReadFull r] have "engine_mode s \<longrightarrow> engine_mode s1" by blast
  with 1(1) [of os ch off "idx + 1" s1] 1(2) r show ?case by (auto split: option.splits if_splits)
qed

lemma calm_gnuChain [calm_intros]:
  "calm (State (\<lambda>s. case gnuChain os ch off idx s of None \<Rightarrow> (u, s) | Some (None, s') \<Rightarrow> (v, s') | Some (Some i, s') \<Rightarrow> (w i, s')))"
proof (rule keepsI, simp)
  fix s a s'
  assume "engine_mode s" "(case gnuChain os ch off idx s of None \<Rightarrow> (u, s) | Some (None, s') \<Rightarrow> (v, s')
    | Some (Some i, s') \<Rightarrow> (w i, s')) = (a, s')"
  with gnuChain_mode [of os ch off idx s] show "engine_mode s'"
    by (cases "gnuChain os ch off idx s") (auto split: option.splits)
qed

lemma calm_Outcome [calm_intros]:
  "calm m \<Longrightarrow> (\<And>x. calm (f x)) \<Longrightarrow> calm (case oc of Undefined \<Rightarrow> m | Done x \<Rightarrow> f x)"
  by (cases oc) auto

lemma calm_scanner [calm_intros]: "calm (Initialize os base)"
  unfolding Initialize_def ParseElfHeader_def ParseProgramHeaders_def ParseDynamics_def InitializeSegments_def
  by (intro keeps_intros calm_intros)

lemma calm_symCount [calm_intros]: "calm (symCount os e)"
  unfolding symCount_def hashSymCount_def GetGnuHashSymCount_def gnuBuckets_def Let_def
  by (intro keeps_intros calm_intros)

lemma calm_bool_case [calm_intros]: "calm m \<Longrightarrow> calm n \<Longrightarrow> calm (case b of True \<Rightarrow> m | False \<Rightarrow> n)"
  by (cases b) auto

lemma calm_GetSymbols [calm_intros]: "calm (GetSymbols os e)"
  unfolding GetSymbols_def memorySymbols_def LoadSymbolsFromFile_def Let_def
  by (intro keeps_intros calm_intros)

section \<open>Connecting\<close>

lemma kern_connect_connected: "run_state (kern_connect os) d = (True, d') \<Longrightarrow> isConnected d'"
  by (auto simp: kern_connect_def drv_IsConnected_def split: prod.splits if_splits)

lemma card_text_mode:
  assumes "run_state (card_text os) e = (r, e')"
  shows "en_memIO e' = en_memIO e \<and> isConnected (en_driver e') = isConnected (en_driver e)"
proof (cases "mio_type (en_memIO e) = MemType_Kernel")
  case True
  obtain t d where d: "run_state (drv_GetExpireTime os) (en_driver e) = (t, d)" by fastforce
  from keepsD [OF quiet_memory(1) d] have "kd_ni d = kd_ni (en_driver e)" by simp
  moreover have "e' = e\<lparr>en_driver := d\<rparr>"
    using assms d True by (simp add: card_text_def mem_GetCardTime_def virtual_def on_driver_def)
  ultimately show ?thesis by (simp add: isConnected_def)
qed (use assms in \<open>simp add: card_text_def mem_GetCardTime_def virtual_def\<close>)

text \<open>The new object is adopted where the old one is not of the class that closes the connection.\<close>

lemma adopt_kernel_mode:
  assumes "mio_type (en_memIO e) \<noteq> MemType_Kernel" "isConnected (en_driver e)" "run_state (adopt_kernel os) e = (r, e')"
  shows "mio_type (en_memIO e') = MemType_Kernel \<and> isConnected (en_driver e')"
proof -
  have "run_state (replace_memIO os AndroidMemKernel_new) e = ((), e\<lparr>en_memIO := AndroidMemKernel_new\<rparr>)"
    using assms(1) by (simp add: replace_memIO_def set_memIO_def destroy_memIO_def)
  with assms(3) have "run_state (card_text os) (e\<lparr>en_memIO := AndroidMemKernel_new\<rparr>) = (r, e')"
    by (simp add: adopt_kernel_def)
  from card_text_mode [OF this] assms(2) show ?thesis by (simp add: AndroidMemKernel_new_def)
qed

text \<open>Where \<open>g_memIO\<close> makes system calls: nothing but the connection changes.\<close>

abbreviation memIO_kept :: "('k, 'a) engine \<Rightarrow> bool" where
  "memIO_kept m \<equiv> keeps (\<lambda>e. True) en_memIO m"

lemma memIO_kept_driver: "memIO_kept (on_driver m)" "memIO_kept (on_os n)"
  by (auto simp: keeps_def on_driver_def on_os_def split: prod.splits)

lemma memIO_kept_destroy: "memIO_kept (destroy_memIO os m)"
  unfolding destroy_memIO_def by (intro keeps_intros memIO_kept_driver)

lemma load_and_connect_mode:
  assumes sys: "mio_type (en_memIO e) \<noteq> MemType_Kernel" and run: "run_state (load_and_connect os key) e = ((r, msg), e')"
  shows "if r = 0 then en_memIO e' = en_memIO e else mio_type (en_memIO e') = MemType_Kernel \<and> isConnected (en_driver e')"
proof -
  obtain lp e1 where e1: "run_state (on_os (GetLocalPath os)) e = (lp, e1)" by fastforce
  obtain np e2 where e2: "run_state (on_os (first_existing os [lp @ ''/NI.ko'', ''/data/local/tmp/NI.ko''])) e1 = (np, e2)" by fastforce
  have io2: "en_memIO e2 = en_memIO e" using keepsD [OF memIO_kept_driver(2) e1] keepsD [OF memIO_kept_driver(2) e2] by simp
  have destroyed: "en_memIO x' = en_memIO x" if "run_state (destroy_memIO os AndroidMemKernel_new) x = ((), x')" for x x'
    using keepsD [OF memIO_kept_destroy that] by simp
  show ?thesis
  proof (cases "np = []")
    case True
    obtain e3 where e3: "run_state (destroy_memIO os AndroidMemKernel_new) e2 = ((), e3)" by (metis prod.exhaust old.unit.exhaust)
    with run e1 e2 True have "r = 0" "e' = e3" by (auto simp: load_and_connect_def)
    with destroyed [OF e3] io2 show ?thesis by simp
  next
    case path: False
    let ?params = "(if card_of key \<noteq> [] then [''card='' @ card_of key] else []) @ [[]]"
    obtain ret err e3 where e3: "run_state (on_os (loadAttempts os np ?params (- 1, 0))) e2 = ((ret, err), e3)"
      by (metis prod.exhaust)
    have io3: "en_memIO e3 = en_memIO e" using keepsD [OF memIO_kept_driver(2) e3] io2 by simp
    obtain e4 where e4: "run_state (destroy_memIO os AndroidMemKernel_new) e3 = ((), e4)" by (metis prod.exhaust old.unit.exhaust)
    have io4: "en_memIO e4 = en_memIO e" using destroyed [OF e4] io3 by simp
    show ?thesis
    proof (cases "ret \<noteq> 0 \<and> err \<noteq> EEXIST")
      case True
      with run e1 e2 path e3 e4 have "r = 0" "e' = e4" by (auto simp: load_and_connect_def)
      with io4 show ?thesis by simp
    next
      case loaded: False
      obtain ok e5 where e5: "run_state (on_driver (kern_connect os)) e4 = (ok, e5)" by fastforce
      have io5: "en_memIO e5 = en_memIO e" using keepsD [OF memIO_kept_driver(1) e5] io4 by simp
      show ?thesis
      proof (cases ok)
        case False
        obtain e6 where e6: "run_state (destroy_memIO os AndroidMemKernel_new) e5 = ((), e6)" by (metis prod.exhaust old.unit.exhaust)
        with run e1 e2 path e3 e4 loaded e5 False have "r = 0" "e' = e6" by (auto simp: load_and_connect_def)
        with destroyed [OF e6] io5 show ?thesis by simp
      next
        case True
        from e5 True have "isConnected (en_driver e5)"
          by (auto simp: on_driver_def split: prod.splits dest: kern_connect_connected)
        moreover obtain t e6 where e6: "run_state (adopt_kernel os) e5 = (t, e6)" by fastforce
        ultimately have k: "mio_type (en_memIO e6) = MemType_Kernel" "isConnected (en_driver e6)"
          using adopt_kernel_mode [of e5 os t e6] sys io5 by auto
        obtain e7 where e7: "run_state (on_os (os_klog_clear os)) e6 = ((), e7)" by (metis prod.exhaust old.unit.exhaust)
        with run e1 e2 path e3 e4 loaded e5 True e6 have "r = 1" "e' = e7" by (auto simp: load_and_connect_def)
        moreover have "isConnected (en_driver e7) = isConnected (en_driver e6)" "en_memIO e7 = en_memIO e6"
          using e7 by (auto simp: on_os_def on_driver_def on_kernel_def isConnected_def split: prod.splits)
        ultimately show ?thesis using k by simp
      qed
    qed
  qed
qed

definition device_mode :: "'k Device \<Rightarrow> bool" where
  "device_mode s \<longleftrightarrow> engine_mode (dv_engine s)"

lemma InitReadWriteDriver_mode:
  assumes mode: "device_mode s" and run: "run_state (CApi_InitReadWriteDriver os key) s = ((r, msg), s')"
  shows "if r = 0 then mio_type (en_memIO (dv_engine s')) \<noteq> MemType_Kernel \<and> en_memIO (dv_engine s') = en_memIO (dv_engine s)
    else mio_type (en_memIO (dv_engine s')) = MemType_Kernel \<and> isConnected (the_driver s')"
proof -
  let ?e = "dv_engine s"
  have the: "the_driver s' = en_driver (dv_engine s')" by (simp add: the_driver_def)
  show ?thesis
  proof (cases "mio_type (en_memIO ?e) = MemType_Kernel \<and> isConnected (en_driver ?e)")
    case True
    obtain t e1 where e1: "run_state (card_text os) ?e = (t, e1)" by fastforce
    with run True have "r = 2" "dv_engine s' = e1"
      by (auto simp: CApi_InitReadWriteDriver_def dv_update_def on_engine_def kernel_ready_def)
    with card_text_mode [OF e1] True the show ?thesis by simp
  next
    case False
    with mode have sys: "mio_type (en_memIO ?e) \<noteq> MemType_Kernel" by (auto simp: device_mode_def engine_mode_def)
    obtain ok e1 where e1: "run_state (on_driver (kern_connect os)) ?e = (ok, e1)" by fastforce
    have io1: "en_memIO e1 = en_memIO ?e" using keepsD [OF memIO_kept_driver(1) e1] by simp
    show ?thesis
    proof (cases ok)
      case True
      from e1 True have "isConnected (en_driver e1)"
        by (auto simp: on_driver_def split: prod.splits dest: kern_connect_connected)
      moreover obtain t e2 where e2: "run_state (adopt_kernel os) e1 = (t, e2)" by fastforce
      ultimately have "mio_type (en_memIO e2) = MemType_Kernel \<and> isConnected (en_driver e2)"
        using adopt_kernel_mode [of e1 os t e2] sys io1 by auto
      moreover from run False sys e1 True e2 have "r = 2" "dv_engine s' = e2"
        by (auto simp: CApi_InitReadWriteDriver_def dv_update_def on_engine_def kernel_ready_def)
      ultimately show ?thesis using the by simp
    next
      case failed: False
      obtain r2 m2 e2 where e2: "run_state (load_and_connect os key) e1 = ((r2, m2), e2)" by (metis prod.exhaust)
      with run sys e1 failed have "r = r2" "dv_engine s' = e2"
        by (auto simp: CApi_InitReadWriteDriver_def dv_update_def on_engine_def kernel_ready_def)
      moreover have "mio_type (en_memIO e1) \<noteq> MemType_Kernel" using sys io1 by simp
      ultimately show ?thesis using load_and_connect_mode [OF _ e2] sys io1 the by auto
    qed
  qed
qed

section \<open>Every state of the server\<close>

abbreviation mode_kept :: "('k, 'a) device \<Rightarrow> bool" where
  "mode_kept m \<equiv> keeps device_mode (\<lambda>s. ()) m"

named_theorems mode_intros

lemma mode_engine [mode_intros]:
  assumes "calm m"
  shows "mode_kept (on_engine m)"
proof (rule keepsI, simp)
  fix s a s' assume mode: "device_mode s" and "run_state (on_engine m) s = (a, s')"
  then obtain e where "run_state m (dv_engine s) = (a, e)" "s' = s\<lparr>dv_engine := e\<rparr>"
    by (auto simp: on_engine_def split: prod.splits)
  with keepsD [OF assms] mode show "device_mode s'" by (simp add: device_mode_def)
qed

lemma same_connection:
  "kd_ni d = kd_ni (the_driver s) \<Longrightarrow> device_mode (put_driver d s) = device_mode s"
  by (simp add: device_mode_def engine_mode_def put_driver_def the_driver_def isConnected_def)

lemma device_mode_kbp [simp]: "device_mode (s\<lparr>dv_kbp := t\<rparr>) = device_mode s" "the_driver (s\<lparr>dv_kbp := t\<rparr>) = the_driver s"
  "device_mode (s\<lparr>dv_perf := t'\<rparr>) = device_mode s" "the_driver (s\<lparr>dv_perf := t'\<rparr>) = the_driver s"
  by (simp_all add: device_mode_def the_driver_def)

lemma mode_kdriver [mode_intros]:
  assumes "quiet m"
  shows "mode_kept (on_kdriver m)"
  by (rule keepsI) (auto simp: on_kdriver_def split: prod.splits dest: keepsD [OF assms] intro: same_connection [THEN iffD2])

lemma mode_system [mode_intros]: "mode_kept (on_system m)"
  unfolding on_system_def by (intro mode_intros quiet_intros)

lemma mode_perf [mode_intros]: "mode_kept (on_perf m)"
  by (rule keepsI) (auto simp: on_perf_def split: prod.splits intro: same_connection [THEN iffD2])

text \<open>The engine of the driver's breakpoints asks the driver, but never to connect or disconnect.\<close>

abbreviation kbp_quiet :: "('k, 'a) kbp \<Rightarrow> bool" where
  "kbp_quiet m \<equiv> keeps (\<lambda>s. True) (\<lambda>s. kd_ni (snd s)) m"

lemma kbp_quiet_basic [quiet_intros]: "quiet m \<Longrightarrow> kbp_quiet (kb_driver m)" "kbp_quiet kb_table" "kbp_quiet (kb_update f)"
  by (auto simp: keeps_def kb_driver_def kb_table_def kb_update_def split: prod.splits)

lemma quiet_install [quiet_intros]: "quiet (InstallForTid os tid a l t f)" "quiet (followTid os tid e)"
  unfolding InstallForTid_def followTid_def Let_def by (intro keeps_intros quiet_intros)+

lemma quiet_loops [quiet_intros]: "quiet (installAll os tids e)" "quiet (followTids os tids e)" "quiet (rescanEntries os ps)"
proof -
  show "quiet (installAll os tids e)"
    by (induction tids arbitrary: e) (auto simp: Let_def intro!: keeps_intros quiet_intros)
  show follow: "quiet (followTids os tids e)" for tids e
    by (induction tids arbitrary: e) (auto intro!: keeps_intros quiet_intros)
  have "quiet (rescanEntry os e)" for e
    unfolding rescanEntry_def reapTids_def by (intro keeps_intros quiet_intros follow)
  then show "quiet (rescanEntries os ps)" by (induction ps) (auto intro!: keeps_intros)
qed

lemma kbp_quiet_operations [quiet_intros]:
  "kbp_quiet (kbp_AddProcessHwBp os pid a l t f)" "kbp_quiet (kbp_DelProcessHwBp os h)" "kbp_quiet (kbp_SuspendProcessHwBp os h)"
  "kbp_quiet (kbp_ResumeProcessHwBp os h)" "kbp_quiet (kbp_ReadHwBpInfo os h)" "kbp_quiet (kbp_Owns h)" "kbp_quiet (kbp_RescanAllLocked os)"
  unfolding kbp_AddProcessHwBp_def kbp_DelProcessHwBp_def kbp_SuspendProcessHwBp_def kbp_ResumeProcessHwBp_def kbp_ReadHwBpInfo_def
    kbp_Owns_def kbp_RescanAllLocked_def Let_def
  by (intro keeps_intros quiet_intros)+

lemma mode_kbp [mode_intros]:
  assumes "kbp_quiet m"
  shows "mode_kept (on_kbp m)"
proof (rule keepsI, simp)
  fix s a s' assume mode: "device_mode s" and "run_state (on_kbp m) s = (a, s')"
  then obtain t d where d: "run_state m (dv_kbp s, the_driver s) = (a, (t, d))" "s' = put_driver d (s\<lparr>dv_kbp := t\<rparr>)"
    by (auto simp: on_kbp_def split: prod.splits)
  from keepsD [OF assms d(1)] mode d(2) show "device_mode s'" by (simp add: same_connection)
qed

lemma mode_update: "(\<And>s. dv_engine (f s) = dv_engine s) \<Longrightarrow> mode_kept (dv_update f)"
  by (rule keepsI) (auto simp: dv_update_def device_mode_def)

lemma mode_get [mode_intros]: "mode_kept State_Monad.get"
  by (rule keepsI) simp

lemma mode_trap [mode_intros]: "mode_kept (trap t a)"
  unfolding trap_def by (intro keeps_intros mode_update) simp

lemma mode_objects [mode_intros]:
  "mode_kept (new_object ob)" "mode_kept (delete_object ht p)" "mode_kept (RemoveHandle h)" "mode_kept (set_object p ob)" "mode_kept (set_cache l b)"
  unfolding new_object_def delete_object_def RemoveHandle_def set_object_def set_cache_def
  by (intro keeps_intros mode_intros mode_update; simp)+

lemma mode_lookup [mode_intros]: "mode_kept (GetHandleType h)" "mode_kept (GetPointerFromHandle h)"
  unfolding GetHandleType_def GetPointerFromHandle_def by (intro keeps_intros mode_intros)+

lemma mode_case_object [mode_intros]:
  "(\<And>pd. mode_kept (f pd)) \<Longrightarrow> (\<And>l i. mode_kept (g l i)) \<Longrightarrow> (\<And>l i. mode_kept (k l i)) \<Longrightarrow>
     mode_kept (case ob of OpenProcess pd \<Rightarrow> f pd | ProcessList l i \<Rightarrow> g l i | ModuleList l i \<Rightarrow> k l i)"
  by (cases ob) auto

lemma mode_process [mode_intros]: "mode_kept (process_at p)" "mode_kept (put_process p f)"
  unfolding process_at_def put_process_def
  by (intro keeps_intros mode_intros mode_update; simp)+

lemma mode_create [mode_intros]: "mode_kept (CreateHandleFromPointer os p ht)"
proof -
  have "mode_kept (dv_update (\<lambda>s. put_driver ((the_driver s)\<lparr>kd_kernel := k\<rparr>) (s\<lparr>dv_handles := g s\<rparr>)))" for k g
    by (rule keepsI) (auto simp: dv_update_def device_mode_def engine_mode_def put_driver_def the_driver_def isConnected_def)
  then show ?thesis unfolding CreateHandleFromPointer_def by (intro keeps_intros mode_intros)
qed

lemma mode_find [mode_intros]: "mode_kept (FindHandleByPID pid)"
proof -
  have "mode_kept (findPid pid tab)" for tab :: "(int \<times> HANDLE_INFO) list"
    by (induction pid tab rule: findPid.induct) (auto intro!: keeps_intros mode_intros)
  then show ?thesis unfolding FindHandleByPID_def by (intro keeps_intros mode_intros)
qed

lemma mode_wrappers [mode_intros]:
  "mode_kept m \<Longrightarrow> mode_kept (if_process h none m)" "mode_kept n \<Longrightarrow> kbp_quiet k \<Longrightarrow> mode_kept (by_owner x q k n)"
  "mode_kept u \<Longrightarrow> mode_kept (if_uxn_ready failed u)"
  "(\<And>p pd. mode_kept (f p pd)) \<Longrightarrow> mode_kept (with_process h none' f)" "(\<And>p pd. mode_kept (g p pd)) \<Longrightarrow> mode_kept (with_uxn h failed' g)"
  unfolding if_process_def by_owner_def if_uxn_ready_def with_process_def with_uxn_def
  by (intro keeps_intros mode_intros calm_intros quiet_intros; assumption?)+

lemma readPages_mode:
  "readPages os a stop acc s = Some p \<Longrightarrow> engine_mode s \<longrightarrow> engine_mode (snd p)"
proof (induction rule: readPages.raw_induct [rotated 1, consumes 1])
  case (1 loop os a stop acc s p)
  obtain r s1 where r: "run_state (mem_Read os a (replicate 4096 0)) s = (r, s1)" by (metis prod.exhaust)
  from keepsD [OF calm_mem(1) r] have "engine_mode s \<longrightarrow> engine_mode s1" by blast
  with 1(1) [of os "a + 4096" stop "if fst r > 0 then acc @ [(a, snd r)] else acc" s1] 1(2) r show ?case
    by (auto split: if_splits)
qed

lemma mode_ReadBratch [mode_intros]: "mode_kept (CApi_ReadBratchMemory os h a n)"
proof -
  have "mode_kept (do { s \<leftarrow> State_Monad.get;
      case readPages os a stop [] (dv_engine s) of None \<Rightarrow> trap NoReturn none
      | Some (acc, e) \<Rightarrow> do { dv_update (\<lambda>s. s\<lparr>dv_engine := e\<rparr>); State_Monad.return (f acc) }})"
    for stop and f :: "(u64 \<times> bytes) list \<Rightarrow> 'b" and none
  proof (rule keepsI, simp)
    fix s r s'
    assume mode: "device_mode s" and run: "run_state (case readPages os a stop [] (dv_engine s) of None \<Rightarrow> trap NoReturn none
      | Some (acc, e) \<Rightarrow> do { dv_update (\<lambda>s. s\<lparr>dv_engine := e\<rparr>); State_Monad.return (f acc) }) s = (r, s')"
    show "device_mode s'"
    proof (cases "readPages os a stop [] (dv_engine s)")
      case None
      with run mode show ?thesis by (auto simp: trap_def dv_update_def device_mode_def)
    next
      case (Some p)
      from readPages_mode [OF Some] mode run Some show ?thesis by (auto simp: dv_update_def device_mode_def split: prod.splits)
    qed
  qed
  then show ?thesis unfolding CApi_ReadBratchMemory_def by (intro mode_intros)
qed

lemma mode_memory [mode_intros]:
  "mode_kept CApi_GetRWDriverType" "mode_kept (CApi_SetKernelBreakpointForceReclaim b)" "mode_kept (CApi_GetProcessListInfo os)"
  "mode_kept (CApi_CreateToolhelp32Snapshot os flags pid)" "mode_kept (process32 move h)" "mode_kept (module32 move h)"
  "mode_kept (CApi_VirtualQueryExFull os h)" "mode_kept (CApi_VirtualQueryEx h a)" "mode_kept (CApi_ReadProcessMemory os h a buf)"
  "mode_kept (CApi_WriteProcessMemory os h a data)" "mode_kept (CApi_GetModuleList os h)" "mode_kept (CApi_GetSoBase os h name)"
  unfolding CApi_GetRWDriverType_def CApi_SetKernelBreakpointForceReclaim_def CApi_GetProcessListInfo_def
    CApi_CreateToolhelp32Snapshot_def process32_def module32_def CApi_VirtualQueryExFull_def CApi_VirtualQueryEx_def
    CApi_ReadProcessMemory_def CApi_WriteProcessMemory_def CApi_GetModuleList_def CApi_GetSoBase_def
  by (intro keeps_intros mode_intros calm_intros mode_update; simp)+

lemma mode_cases [mode_intros]:
  "mode_kept m \<Longrightarrow> (\<And>x. mode_kept (f x)) \<Longrightarrow> mode_kept (case oc of Undefined \<Rightarrow> m | Done x \<Rightarrow> f x)"
  "(\<And>a b. mode_kept (ps a b y)) \<Longrightarrow> mode_kept ((case pq of (a, b) \<Rightarrow> ps a b) y)"
  by (auto split: Outcome.splits prod.splits)

lemma mode_symbols [mode_intros]:
  "mode_kept (CApi_ReadBratchAddr os h input)" "mode_kept (CApi_SymbolInit os h base)" "mode_kept CApi_SymbolGetCount"
  "mode_kept (CApi_SymbolGetList off n)"
  unfolding CApi_ReadBratchAddr_def readOne_def CApi_SymbolInit_def CApi_SymbolGetCount_def CApi_SymbolGetList_def Let_def
  by (intro keeps_intros mode_intros calm_intros)+

lemma mode_SymbolFind [mode_intros]: "mode_kept (CApi_SymbolFind os h base name)"
  unfolding CApi_SymbolFind_def by (intro keeps_intros mode_intros)

lemma mode_open [mode_intros]: "mode_kept (CApi_OpenProcess os pid)" "mode_kept (CApi_CloseHandle os h)"
  unfolding CApi_OpenProcess_def CApi_CloseHandle_def shutdown_process_def release_breakpoints_def
  by (intro keeps_intros mode_intros calm_intros quiet_intros mode_update; simp)+

lemma mode_breakpoints [mode_intros]:
  "mode_kept (CApi_SetBreakpoint os h a t n)" "mode_kept (CApi_RemoveBreakpoint os h a)" "mode_kept (CApi_SuspendBreakpoint os h a)"
  "mode_kept (CApi_ResumeBreakpoint os h a)" "mode_kept (CApi_ReadHwBpInfo os h a)"
  "mode_kept (CApi_QueryHardwareBreakpointThreads os h c)"
  unfolding CApi_SetBreakpoint_def CApi_RemoveBreakpoint_def CApi_SuspendBreakpoint_def CApi_ResumeBreakpoint_def
    CApi_ReadHwBpInfo_def CApi_QueryHardwareBreakpointThreads_def queryThread_def install_breakpoint_def drop_old_def Let_def
  by (intro keeps_intros mode_intros calm_intros quiet_intros)+

lemma mode_uxn [mode_intros]:
  "mode_kept (CApi_InstallUxnBreakpoint os h a f)" "mode_kept (CApi_RemoveUxnBreakpoint os h a)"
  "mode_kept (CApi_WaitUxnBreakpoint os slot t q)" "mode_kept (CApi_ResumeUxnBreakpoint os req)"
  "mode_kept (CApi_GetUxnBreakpointStatus os slot)" "mode_kept (CApi_ClearUxnBreakpoints os)"
  unfolding CApi_InstallUxnBreakpoint_def CApi_RemoveUxnBreakpoint_def CApi_WaitUxnBreakpoint_def CApi_ResumeUxnBreakpoint_def
    CApi_GetUxnBreakpointStatus_def CApi_ClearUxnBreakpoints_def Let_def
  by (intro keeps_intros mode_intros calm_intros quiet_intros)+

lemma api_step_mode: "api_step os s s' \<Longrightarrow> device_mode s \<Longrightarrow> device_mode s'"
proof (induction rule: api_step.induct)
  case (Init key s r s')
  obtain x msg where "r = (x, msg)" by fastforce
  from InitReadWriteDriver_mode [OF Init(2) Init(1) [unfolded this]] show ?case
    by (auto simp: device_mode_def engine_mode_def the_driver_def split: if_splits)
next
  case Process_First
  then show ?case unfolding CApi_Process32First_def by (blast dest: keepsD [OF mode_memory(5)])
next
  case Process_Next
  then show ?case unfolding CApi_Process32Next_def by (blast dest: keepsD [OF mode_memory(5)])
next
  case Module_First
  then show ?case unfolding CApi_Module32First_def by (blast dest: keepsD [OF mode_memory(6)])
next
  case Module_Next
  then show ?case unfolding CApi_Module32Next_def by (blast dest: keepsD [OF mode_memory(6)])
qed (auto elim!: keepsD [THEN conjunct1, rotated] intro!: mode_intros quiet_intros)

lemma reachable_mode: "(api_step os)\<^sup>*\<^sup>* (Device_new k) s \<Longrightarrow> device_mode s"
proof (induction rule: rtranclp_induct)
  case base
  show ?case by (simp add: Device_new_def device_mode_def engine_mode_def AndroidMemorySys_new_def)
qed (auto intro: api_step_mode)


text \<open>
  The answer of \<open>InitReadWriteDriver\<close> is the mode that the server is in: when it reports success, memory is accessed through the driver,
  which is connected; when it reports failure, the server has kept its access object, and that object makes system calls.
\<close>

theorem InitReadWriteDriver_reports:
  assumes "(api_step os)\<^sup>*\<^sup>* (Device_new k) s" "run_state (CApi_InitReadWriteDriver os key) s = ((r, msg), s')"
  shows "if r = 0 then mio_type (en_memIO (dv_engine s')) \<noteq> MemType_Kernel \<and> en_memIO (dv_engine s') = en_memIO (dv_engine s)
    else mio_type (en_memIO (dv_engine s')) = MemType_Kernel \<and> isConnected (the_driver s')"
  by (rule InitReadWriteDriver_mode [OF reachable_mode [OF assms(1)] assms(2)])

text \<open>
  What the order of the two assignments in \<open>InitReadWriteDriver\<close> means where kernel mode and connection come apart, as they do between the
  connection and the assignment of another thread: the old object of \<open>g_memIO\<close> is destroyed after the new one has connected, and the
  connection that is reported as successful is closed.
\<close>

theorem InitReadWriteDriver_closes:
  assumes "mio_type (en_memIO (dv_engine s)) = MemType_Kernel" "\<not> isConnected (the_driver s)"
    and "run_state (kern_connect os) (the_driver s) = (True, d)"
  shows "\<exists>msg s'. run_state (CApi_InitReadWriteDriver os key) s = ((2, msg), s') \<and> \<not> isConnected (the_driver s')"
proof -
  let ?e = "(dv_engine s)\<lparr>en_driver := d\<rparr>"
  obtain u d1 where d1: "run_state (drv_Disconnect os) d = (u, d1)" by fastforce
  have gone: "\<not> isConnected d1"
    using d1 by (auto simp: drv_Disconnect_def reset_ni_def isConnected_def drv_IsConnected_def split: prod.splits option.splits)
  let ?e1 = "?e\<lparr>en_memIO := AndroidMemKernel_new, en_driver := d1\<rparr>"
  obtain t e2 where e2: "run_state (card_text os) ?e1 = (t, e2)" by fastforce
  have adopt: "run_state (adopt_kernel os) ?e = (t, e2)"
    using d1 e2 assms(1) by (simp add: adopt_kernel_def replace_memIO_def set_memIO_def destroy_memIO_def on_driver_def)
  have "run_state (CApi_InitReadWriteDriver os key) s = ((2, t), s\<lparr>dv_forceReclaim := False, dv_engine := e2\<rparr>)"
    using assms adopt by (simp add: CApi_InitReadWriteDriver_def dv_update_def on_engine_def kernel_ready_def on_driver_def the_driver_def)
  moreover have "\<not> isConnected (en_driver e2)" using card_text_mode [OF e2] gone by simp
  ultimately show ?thesis by (auto simp: the_driver_def)
qed

end
