(* ===== verification/ServerExamples.thy ===== *)
theory ServerExamples
  imports PerfRing ServerMemory ServerMode
begin

text \<open>
  Concrete examples of the properties of the engines and of the API of the server. They run on small kernels: \<open>null_os\<close> refuses
  every call, and the others change what an example needs.
\<close>

section \<open>Kernels for the examples\<close>

definition null_os :: "'k Os" where
  "null_os = \<lparr>os_pagesize = 4096, os_driver_fd = State_Monad.return (- 1, ENODEV),
     os_ioctl = (\<lambda>fd request arg. State_Monad.return (- 1, arg)),
     os_read = (\<lambda>fd pkt user. State_Monad.return (- 1, EIO, pkt, user)),
     os_close = (\<lambda>fd. State_Monad.return ()), os_open = (\<lambda>path. State_Monad.return (- 1, ENOENT)),
     os_finit_module = (\<lambda>fd params. State_Monad.return (- 1, EINVAL)), os_exists = (\<lambda>path. State_Monad.return False),
     os_klog_clear = State_Monad.return (), os_kill0 = (\<lambda>pid. State_Monad.return False),
     os_listdir = (\<lambda>path. State_Monad.return None), os_readfile = (\<lambda>path. State_Monad.return None),
     os_readlink = (\<lambda>path. State_Monad.return None), os_vm_readv = (\<lambda>pid a n. State_Monad.return None),
     os_vm_writev = (\<lambda>pid a data. State_Monad.return None), os_pwrite = (\<lambda>fd a data. State_Monad.return None),
     os_perf_event_open = (\<lambda>attr tid. State_Monad.return (- 1)), os_mmap = (\<lambda>fd n. State_Monad.return None),
     os_munmap = (\<lambda>a n. State_Monad.return ()), os_ring = (\<lambda>a. State_Monad.return (0, [])),
     os_ring_tail = (\<lambda>a t. State_Monad.return ()), os_now = State_Monad.return 0, os_random = State_Monad.return 0,
     os_demangle = (\<lambda>name. None), os_strerror = (\<lambda>err. [])\<rparr>"

text \<open>A kernel whose state is the memory of the one process that there is, with the files that it can show.\<close>

definition memory_os :: "(u64 \<Rightarrow> u8 option) Os" where
  "memory_os = null_os\<lparr>os_kill0 := \<lambda>pid. State_Monad.return True, os_exists := \<lambda>path. State_Monad.return True,
     os_vm_readv := \<lambda>pid a n. State (\<lambda>m. (Some (readable_prefix m a n), m)),
     os_vm_writev := \<lambda>pid a data. State (\<lambda>m. (Some (length data), \<lambda>x. if unat (x - a) < length data then Some (data ! unat (x - a)) else m x))\<rparr>"

lemma readable_prefix_numeral [simp]:
  "readable_prefix m a (numeral k) = (case m a of None \<Rightarrow> [] | Some b \<Rightarrow> b # readable_prefix m (a + 1) (pred_numeral k))"
  by (simp add: numeral_eq_Suc)

lemma memory_os_reads: "vm_reads memory_os pid m (\<lambda>k. k = m)"
  using length_readable_prefix [of m] by (simp add: vm_reads_def memory_os_def)

text \<open>A device in which one process is open, over system calls.\<close>

definition open_device :: "'k \<Rightarrow> int \<Rightarrow> 'k Device" where
  "open_device k pid = (Device_new k)\<lparr>dv_engine := \<lparr>en_driver = \<lparr>kd_ni = None, kd_hwbpHitTotals = Map.empty, kd_kernel = k\<rparr>,
       en_memIO = AndroidMemorySys_new\<lparr>mio_pid := pid\<rparr>\<rparr>,
     dv_handles := [(10000, \<lparr>hn_p = 1, hn_type = htProcesHandle\<rparr>)], dv_heap := [1 \<mapsto> OpenProcess (CeOpenProcess_new pid)],
     dv_next := 2, dv_pid := pid, dv_tracer := pid\<rparr>"

lemma open_device_handle: "process_handle_open 10000 (open_device k pid)"
  by (simp add: process_handle_open_def open_device_def)

lemma open_device_ready: "memory_ready memory_os (\<lambda>k. k = m) m (dv_engine (open_device m pid))"
  by (auto simp: memory_ready_def device_memory_def open_device_def AndroidMemorySys_new_def memory_os_reads)
    (simp add: memory_os_def null_os_def exI [of _ 12])

section \<open>Memory\<close>


definition border_memory :: "u64 \<Rightarrow> u8 option" where
  "border_memory a = (if 0x1FFE \<le> a \<and> a < 0x2001 then Some 7 else None)"


section \<open>Breakpoints of the driver\<close>

text \<open>A driver with one breakpoint register, which has the handle 5, and a process with one thread.\<close>

definition slot_command :: "u8 \<Rightarrow> u64 \<Rightarrow> bool option \<Rightarrow> bool option" where
  "slot_command c h k =
     (if h \<noteq> 5 then k
      else if c = NI_CMD_HWBP_UNINSTALL then None
      else if c = NI_CMD_HWBP_DISABLE then map_option (\<lambda>_. False) k
      else if c = NI_CMD_HWBP_ENABLE then map_option (\<lambda>_. True) k
      else k)"

definition slot_read :: "bytes \<Rightarrow> bytes \<Rightarrow> bool option \<Rightarrow> (int \<times> int \<times> bytes \<times> bytes) \<times> bool option" where
  "slot_read pkt user k =
     (if pkt ! 0 = NI_CMD_HWBP_INSTALL
      then if k = None then ((0, 0, take 64 pkt @ u64_bytes 5 @ drop 72 pkt, user), Some True) else ((- 1, 16, pkt, user), k)
      else ((0, 0, pkt, user), slot_command (pkt ! 0) (u64_at pkt 40) k))"

definition slot_os :: "bool option Os" where
  "slot_os = null_os\<lparr>os_read := \<lambda>fd pkt user. State (slot_read pkt user),
     os_listdir := \<lambda>path. State_Monad.return (Some [(''42'', True)])\<rparr>"

definition slot_live :: "bool option \<Rightarrow> u64 \<rightharpoonup> bool" where
  "slot_live k = (case k of None \<Rightarrow> Map.empty | Some b \<Rightarrow> [5 \<mapsto> b])"

lemma slot_os_sel [simp]:
  "os_read slot_os fd pkt user = State (slot_read pkt user)" "os_listdir slot_os path = State_Monad.return (Some [(''42'', True)])"
  by (simp_all add: slot_os_def)

lemma ni_header_command [simp]: "(ni_header c p1 p2 p3 n @ buf) ! 0 = c" "u64_at (ni_header c p1 p2 p3 n @ buf) 40 = u64_at buf 0"
  by (simp_all add: ni_header_def u64_at_def)

lemma slot_ScanTids [simp]: "run_state (ScanTids slot_os pid) k = ([42], k)"
  by (simp add: ScanTids_def isdigit_def)

lemma slot_install_free:
  "\<exists>req'. run_state (hwbp_install slot_os fd req) None = ((0, 0, req'), Some True) \<and> hi_handle req' = 5"
  by (simp add: hwbp_install_def ni_cmd_def Let_def slot_read_def overlay_def to_i32_def to_install_def u64_at_def)

lemma slot_install_used:
  "\<exists>req'. run_state (hwbp_install slot_os fd req) (Some b) = ((- 1, 16, req'), Some b)"
  by (simp add: hwbp_install_def ni_cmd_def Let_def slot_read_def to_i32_def)

lemma slot_handle_cmd:
  "c \<noteq> NI_CMD_HWBP_INSTALL \<Longrightarrow> run_state (handle_cmd slot_os fd c h) k = (0, slot_command c h k)"
  by (simp add: handle_cmd_def ni_cmd_def Let_def slot_read_def overlay_def to_i32_def) (simp add: u64_at_def)

lemma slot_kernel: "bp_kernel slot_os slot_live"
proof -
  have commands: "slot_live (slot_command NI_CMD_HWBP_UNINSTALL h k) = (slot_live k)(h := None)"
    "slot_live (slot_command NI_CMD_HWBP_DISABLE h k) = (if slot_live k h = None then slot_live k else (slot_live k)(h \<mapsto> False))"
    "slot_live (slot_command NI_CMD_HWBP_ENABLE h k) = (if slot_live k h = None then slot_live k else (slot_live k)(h \<mapsto> True))" for h k
    by (auto simp: slot_live_def slot_command_def fun_eq_iff split: option.splits)
  have events: "k' = k" if "run_state (hwbp_read_events slot_os fd h n) k = (r, k')" for fd h n k r k'
    using that by (auto simp: hwbp_read_events_def ni_cmd_def Let_def slot_read_def slot_command_def)
  have install: "if r = 0 \<and> hi_handle req' \<noteq> 0 then hi_handle req' \<notin> dom (slot_live k) \<and> slot_live k' = (slot_live k)(hi_handle req' \<mapsto> True)
      else slot_live k' = slot_live k" if "run_state (hwbp_install slot_os fd req) k = ((r, err, req'), k')" for fd req k r err req' k'
    using that slot_install_free [of fd req] slot_install_used [of fd req "the k"] by (cases k) (auto simp: slot_live_def)
  show ?thesis
    unfolding bp_kernel_def using install events by (simp add: slot_handle_cmd commands) blast
qed

definition slot_driver :: "bool option \<Rightarrow> bool option KDriver" where
  "slot_driver k = \<lparr>kd_ni = Some 3, kd_hwbpHitTotals = Map.empty, kd_kernel = k\<rparr>"

lemma slot_add:
  "\<exists>h t d'. run_state (kbp_AddProcessHwBp slot_os 42 0x1000 4 2 False) (KBpTable_new, slot_driver None) = (h, (t, d')) \<and>
     kd_kernel d' = Some True"
proof -
  obtain r d' where r: "run_state (drv_AddHardwareBreakpoint slot_os 42 0x1000 4 2 False) (slot_driver None) = (r, d')"
    "ir_handle r = 5" "kd_kernel d' = Some True"
    using slot_install_free [of 3 "install_request 42 0x1000 4 2 False"]
    by (auto simp: drv_AddHardwareBreakpoint_def with_driver_def driverLocked_def slot_driver_def on_kernel_def Let_def)
  have "isConnected (slot_driver None)" "kd_kernel (slot_driver None) = None" by (simp_all add: slot_driver_def isConnected_def)
  with r show ?thesis
    by (simp add: kbp_AddProcessHwBp_def kb_driver_def kb_table_def kb_update_def drv_IsConnected_def on_kernel_def
        InstallForTid_def Let_def KEntry_new_def om_put_def slot_driver_def split: if_split)
qed



section \<open>The files of the kernel\<close>

definition demo_maps :: "MapEntry list" where
  "demo_maps = [\<lparr>me_start = 0x1000, me_end = 0x3000, me_read = True, me_write = False, me_exec = True, me_shared = False, me_offset = 0,
     me_dev = ''fe:01'', me_inode = 7, me_pad = '' '', me_path = ''/system/lib64/libc.so''\<rparr>]"

definition maps_os :: "unit Os" where
  "maps_os = null_os\<lparr>os_readfile := \<lambda>path. State_Monad.return (Some (concat (map maps_text demo_maps)))\<rparr>"


section \<open>The ring buffers of perf events\<close>

definition demo_records :: "KRecord list" where
  "demo_records = [KSample 42 43 2 (replicate 33 9), KLost 1 4]"

text \<open>A ring of 4096 bytes whose writer has wrapped around: the two records start 100 bytes before the end.\<close>

definition demo_ring :: bytes where
  "demo_ring = drop 100 (written demo_records) @ replicate (4096 - length (written demo_records)) 0 @ take 100 (written demo_records)"

definition ring_os :: "unit Os" where
  "ring_os = null_os\<lparr>os_ring := \<lambda>a. State_Monad.return (of_nat (3996 + length (written demo_records)), demo_ring)\<rparr>"

lemma length_demo_written: "length (written demo_records) = 312"
  by (simp add: demo_records_def written_def krecord_length del: map_replicate)

lemma demo_ring_holds: "ring_holds demo_ring 4096 3996 (written demo_records)"
proof -
  have "demo_ring ! ((3996 + i) mod 4096) = written demo_records ! i" if "i < 312" for i
  proof (cases "i < 100")
    case True
    then have "(3996 + i) mod 4096 = 3996 + i" by simp
    with True show ?thesis by (simp add: demo_ring_def length_demo_written nth_append)
  next
    case False
    with that have "(3996 + i) mod 4096 = i - 100" by (simp add: mod_if)
    moreover from False that have "i - 100 < 212" by simp
    ultimately show ?thesis using False by (simp add: demo_ring_def length_demo_written nth_append)
  qed
  then show ?thesis by (simp add: ring_holds_def length_demo_written demo_ring_def)
qed

theorem ConsumeRing_accounts_witness:
  "\<exists>s' e'. run_state (ConsumeRingLocked ring_os
        \<lparr>sf_fd = 3, sf_mmap_addr = 0, sf_mmap_size = 8192, sf_data_size = 4096, sf_tail = 3996, sf_tid = 43\<rparr>
        (PEntry_new 42 0x1000 4 2)) () = ((s', e'), ()) \<and>
     sf_tail s' = 4308 \<and> pe_totalHits e' = 5 \<and> map hw_task_id (pe_hits e') = [43]"
proof -
  let ?s = "\<lparr>sf_fd = 3, sf_mmap_addr = 0, sf_mmap_size = 8192, sf_data_size = 4096, sf_tail = 3996, sf_tid = 43\<rparr>"
  let ?e = "PEntry_new 42 0x1000 4 2"
  let ?head = "of_nat (3996 + length (written demo_records)) :: u64"
  obtain s' e' where run: "run_state (ConsumeRingLocked ring_os ?s ?e) () = ((s', e'), ())"
    by (metis prod.exhaust old.unit.exhaust)
  have head: "unat ?head = sf_tail ?s + length (written demo_records)" by (simp add: length_demo_written)
  have ring: "run_state (os_ring ring_os (sf_mmap_addr ?s)) () = ((?head, demo_ring), ())" by (simp add: ring_os_def)
  have holds: "ring_holds demo_ring (sf_data_size ?s) (sf_tail ?s) (written demo_records)" by (simp add: demo_ring_holds)
  have ok: "\<forall>r \<in> set demo_records. krecord_ok r" "length (pe_hits ?e) \<le> kMaxPendingHits"
    by (simp_all add: demo_records_def PEntry_new_def)
  from ConsumeRing_accounts [OF ring head holds ok run] obtain new where
    new: "sf_tail s' = unat ?head" "pe_totalHits e' = 5" "pe_hits e' = recent new"
      "map (\<lambda>i. (hw_task_id i, hw_regs i)) new = [(43, replicate 33 9 @ [0, 0, 0])]"
    by (auto simp: PEntry_new_def demo_records_def)
  from new(4) have one: "length new = 1" "map hw_task_id new = [43]" by auto
  then have "recent new = new" by (simp add: recent_def kMaxPendingHits_def)
  with run new head one show ?thesis by (auto simp: length_demo_written)
qed

section \<open>The symbols of a module\<close>

definition demo_module :: ElfModule where
  "demo_module = \<lparr>em_phoff = 64, em_phdrs = [\<lparr>p_type = PT_LOAD, p_vaddr = 0, p_memsz = 0x1000\<rparr>,
       \<lparr>p_type = PT_DYNAMIC, p_vaddr = 0x200, p_memsz = 80\<rparr>],
     em_dynamic = 0x200, em_dyns = [\<lparr>d_tag = DT_SYMTAB, d_val = 0x300\<rparr>, \<lparr>d_tag = DT_STRTAB, d_val = 0x400\<rparr>,
       \<lparr>d_tag = DT_STRSZ, d_val = 6\<rparr>, \<lparr>d_tag = DT_SYMENT, d_val = 24\<rparr>, \<lparr>d_tag = DT_HASH, d_val = 0x500\<rparr>],
     em_symtab = 0x300, em_strtab = 0x400, em_hash = 0x500, em_nbucket = 1, em_symbols = [(''main'', 0x80)]\<rparr>"

definition module_areas :: "(nat \<times> bytes) list" where
  "module_areas = [(0x10000, ehdr_bytes 64 2), (0x10040, concat (map phdr_bytes (em_phdrs demo_module))),
     (0x10200, concat (map dyn_bytes (em_dyns demo_module))), (0x10300, symtab_bytes (em_symbols demo_module)),
     (0x10400, strtab_bytes (em_symbols demo_module)), (0x10500, u32_bytes 1 @ u32_bytes 2)]"

text \<open>A memory that consists of areas: an address is looked up in the area that contains it.\<close>

definition areas_memory :: "(nat \<times> bytes) list \<Rightarrow> u64 \<Rightarrow> u8 option" where
  "areas_memory as a = (case List.find (\<lambda>(b, bs). b \<le> unat a \<and> unat a < b + length bs) as of
     None \<Rightarrow> None | Some (b, bs) \<Rightarrow> Some (bs ! (unat a - b)))"

fun ascending :: "nat \<Rightarrow> (nat \<times> bytes) list \<Rightarrow> bool" where
  "ascending n [] \<longleftrightarrow> True"
| "ascending n ((b, bs) # as) \<longleftrightarrow> n \<le> b \<and> ascending (b + length bs) as"

lemma ascending_member: "ascending n as \<Longrightarrow> (b, bs) \<in> set as \<Longrightarrow> n \<le> b"
  by (induction n as rule: ascending.induct) fastforce+

lemma find_area:
  assumes "ascending n as" "(b, bs) \<in> set as" "b \<le> x" "x < b + length bs"
  shows "List.find (\<lambda>(b, bs). b \<le> x \<and> x < b + length bs) as = Some (b, bs)"
  using assms
proof (induction n as rule: ascending.induct)
  case (2 n b' bs' as)
  show ?case
  proof (cases "(b, bs) = (b', bs')")
    case False
    with 2 have "b' + length bs' \<le> b" "List.find (\<lambda>(b, bs). b \<le> x \<and> x < b + length bs) as = Some (b, bs)"
      by (auto dest: ascending_member)
    with 2(4) show ?thesis by simp
  qed (use 2 in simp)
qed simp

lemma areas_memory_area:
  assumes "ascending 1 as" "(b, bs) \<in> set as" "b + length bs < 2 ^ 64"
  shows "area (areas_memory as) (of_nat b) bs"
proof -
  have unat: "unat (of_nat b + of_nat i :: u64) = b + i" if "i < length bs" for i
    using assms(3) that by (simp add: unat_word_ariths unsigned_of_nat take_bit_eq_mod)
  have "areas_memory as (of_nat b + of_nat i) = Some (bs ! i)" if "i < length bs" for i
    using find_area [OF assms(1,2), of "b + i"] that by (simp add: areas_memory_def unat)
  moreover have "unat (of_nat b :: u64) = b" using assms(3) by (simp add: unsigned_of_nat take_bit_eq_mod)
  moreover have "(of_nat b :: u64) \<noteq> 0"
    using ascending_member [OF assms(1,2)] calculation(2) by (metis not_one_le_zero unsigned_0)
  ultimately show ?thesis using assms(3) by (simp add: area_def)
qed

lemma demo_module_lengths:
  "length (concat (map phdr_bytes (em_phdrs demo_module))) = 112" "length (concat (map dyn_bytes (em_dyns demo_module))) = 80"
  "length (symtab_bytes (em_symbols demo_module)) = 48" "length (strtab_bytes (em_symbols demo_module)) = 6"
  by (simp_all add: demo_module_def symtab_bytes_def strtab_bytes_def)

lemma demo_module_area: "(b, bs) \<in> set module_areas \<Longrightarrow> area (areas_memory module_areas) (of_nat b) bs"
  by (rule areas_memory_area) (auto simp: module_areas_def demo_module_lengths)

lemma demo_bias: "em_bias 0x10000 demo_module = 0x10000"
  by (simp add: em_bias_def minVaddr_def load_phdrs_def demo_module_def)

lemma demo_em_ok: "em_ok 0x10000 demo_module"
  unfolding em_ok_def demo_bias
  by (simp add: demo_module_def load_phdrs_def maxEnd_def minVaddr_def dyn_entries_def strtab_bytes_def str_bytes_def)

lemma demo_elf_module: "elf_module (areas_memory module_areas) 0x10000 demo_module"
  unfolding elf_module_def demo_bias
  using demo_em_ok demo_module_area [of "0x10000" "ehdr_bytes 64 2"]
    demo_module_area [of "0x10040" "concat (map phdr_bytes (em_phdrs demo_module))"]
    demo_module_area [of "0x10200" "concat (map dyn_bytes (em_dyns demo_module))"]
    demo_module_area [of "0x10300" "symtab_bytes (em_symbols demo_module)"]
    demo_module_area [of "0x10400" "strtab_bytes (em_symbols demo_module)"] demo_module_area [of "0x10500" "u32_bytes 1 @ u32_bytes 2"]
  by (simp add: module_areas_def) (simp add: demo_module_def numeral_2_eq_2)

lemma memory_os_maps: "run_state (mem_GetProcessMaps memory_os) s = (r, s') \<Longrightarrow> s' = s"
  by (auto simp: mem_GetProcessMaps_def virtual_def on_os_def on_driver_def on_kernel_def GetProcessMaps_proc_def
      kern_GetProcessMaps_def drv_QueryMaps_def with_driver_def driverLocked_def get_all_maps_def get_maps_count_def get_maps_list_def ni_cmd_def Let_def to_i32_def
      memory_os_def null_os_def split: if_splits option.splits)


section \<open>The API\<close>

lemma memory_os_sel [simp]:
  "os_kill0 memory_os pid = State_Monad.return True" "os_exists memory_os path = State_Monad.return True"
  "os_readfile memory_os path = State_Monad.return None" "os_random memory_os = State_Monad.return 0"
  "os_vm_readv memory_os pid a n = State (\<lambda>m. (Some (readable_prefix m a n), m))"
  by (simp_all add: memory_os_def null_os_def)

lemma open_step:
  "run_state (CApi_OpenProcess memory_os 42) (Device_new m) = (10000, open_device m 42)"
  by (simp add: CApi_OpenProcess_def FindHandleByPID_def Device_new_def on_engine_def mem_OpenProcess_def virtual_def
      AndroidMemorySys_new_def sys_OpenProcess_def set_memIO_def on_os_def on_driver_def on_kernel_def IsProcessAlive_def
      GetProcessName_proc_def dv_update_def new_object_def CreateHandleFromPointer_def drawHandle.simps the_driver_def
      put_driver_def handleOf_def om_emplace_def om_put_def open_device_def)

lemma open_reachable: "(api_step memory_os)\<^sup>*\<^sup>* (Device_new m) (open_device m 42)"
  using api_step.Open [OF open_step] by blast


text \<open>A kernel whose driver can be connected.\<close>

definition driver_os :: "unit Os" where
  "driver_os = null_os\<lparr>os_driver_fd := State_Monad.return (3, 0),
     os_ioctl := \<lambda>fd request arg. State_Monad.return (0, u32_bytes 0x4e494d54 @ le 2 1 @ le 2 40)\<rparr>"

lemma driver_connects: "kd_ni d = None \<Longrightarrow> run_state (kern_connect driver_os) d = (True, d\<lparr>kd_ni := Some 3\<rparr>)"
  by (simp add: kern_connect_def drv_Connect_def drv_IsConnected_def isConnected_def on_kernel_def NiDriver_new_def driver_os_def
      ni_validate_protocol_def reset_ni_def u16_at_def of_le_le)

theorem InitReadWriteDriver_reports_witness:
  "\<exists>r msg s'. run_state (CApi_InitReadWriteDriver driver_os []) (Device_new ()) = ((r, msg), s') \<and> r \<noteq> 0 \<and> isConnected (the_driver s')"
proof -
  obtain r msg s' where run: "run_state (CApi_InitReadWriteDriver driver_os []) (Device_new ()) = ((r, msg), s')"
    by (metis prod.exhaust)
  have "(api_step driver_os)\<^sup>*\<^sup>* (Device_new ()) (Device_new ())" by simp
  note mode = InitReadWriteDriver_reports [OF this run]
  have "r = 2"
    using run by (auto simp: CApi_InitReadWriteDriver_def dv_update_def on_engine_def kernel_ready_def on_driver_def Device_new_def
        AndroidMemorySys_new_def driver_connects split: prod.splits)
  with mode run show ?thesis by auto
qed


theorem ReadBratchMemory_pages_witness:
  "\<exists>e. run_state (CApi_ReadBratchMemory memory_os 10000 0x2000 1) (open_device border_memory 42) =
     ((1, [(0x2000, 7 # replicate 4095 0)]), (open_device border_memory 42)\<lparr>dv_engine := e\<rparr>)"
proof -
  have none: "border_memory 0x2001 = None" and some: "border_memory 0x2000 = Some 7" by (simp_all add: border_memory_def)
  have "page_count 1 = 1" by (simp add: page_count_def)
  moreover have "page_addresses 0x2000 1 = [0x2000]" by (simp add: page_addresses_def)
  moreover have "readable_pages border_memory [0x2000] = [(0x2000, 7 # replicate 4095 0)]"
    by (simp add: readable_pages_def none some)
  ultimately show ?thesis
    using ReadBratchMemory_pages [of 10000 "open_device border_memory 42" memory_os "\<lambda>k. k = border_memory" border_memory "0x2000" 1,
        OF open_device_handle open_device_ready] by auto
qed


definition symbols_device :: "unit Device" where
  "symbols_device = (Device_new ())\<lparr>dv_cachedSymbols := [(1, ''a''), (2, ''b''), (3, ''c'')]\<rparr>"

theorem SymbolGetList_part_witness:
  "run_state (CApi_SymbolGetList 1 5) symbols_device = ([(2, ''b''), (3, ''c'')], symbols_device)"
  using SymbolGetList_part [of symbols_device 1 5] by (simp add: symbols_device_def)

theorem SymbolGetList_overflows_witness:
  "IntOverflow \<in> dv_traps (snd (run_state (CApi_SymbolGetList 1 2147483647) symbols_device))"
  using SymbolGetList_overflows [of symbols_device 1 2147483647] by (simp add: symbols_device_def)

end
