(* ===== verification/DeviceSession.thy ===== *)
theory DeviceSession
  imports Prelude
begin

text \<open>
  The connection session of \<open>gui/socket/DeviceSession.cpp\<close>: its state machine, the generation counter and the
  request leases. The operations are functions on the session. The second half is a
  transition system of threads that share the session: the shared side of \<open>lifecycleGate_\<close> is the
  list of leases that are held, the exclusive side is a flag, and \<open>MarkPoisoned\<close> is the two atomic
  instructions it is made of. A connection can only be replaced under the exclusive side.
\<close>

section \<open>The session\<close>

datatype SessionState = Disconnected | Connecting | Connected | Poisoned

record Session =
  ds_state :: SessionState
  ds_generation :: u64

record RequestLease =
  rl_generation :: u64
  rl_valid :: bool

definition initialSession :: Session where
  "initialSession = \<lparr>ds_state = Disconnected, ds_generation = 0\<rparr>"

definition isCurrent :: "Session \<Rightarrow> RequestLease \<Rightarrow> bool" where
  "isCurrent s l \<longleftrightarrow> rl_valid l \<and> ds_state s = Connected \<and> ds_generation s = rl_generation l"

text \<open>\<open>active\<close> is the generation of the lease that the calling thread holds already, if any.\<close>

definition AcquireRequest :: "u64 option \<Rightarrow> Session \<Rightarrow> RequestLease" where
  "AcquireRequest active s =
     (case active of
        Some generation \<Rightarrow>
          \<lparr>rl_generation = generation,
           rl_valid = (ds_state s = Connected \<and> ds_generation s = generation)\<rparr>
      | None \<Rightarrow>
          \<lparr>rl_generation = ds_generation s, rl_valid = (ds_state s = Connected)\<rparr>)"

definition BeginConnect :: "Session \<Rightarrow> Session" where
  "BeginConnect s = s\<lparr>ds_generation := ds_generation s + 1, ds_state := Connecting\<rparr>"

definition FinishConnect :: "bool \<Rightarrow> Session \<Rightarrow> Session" where
  "FinishConnect success s = s\<lparr>ds_state := (if success then Connected else Disconnected)\<rparr>"

definition Disconnect :: "Session \<Rightarrow> Session" where
  "Disconnect s =
     (if ds_state s \<noteq> Disconnected
      then s\<lparr>ds_generation := ds_generation s + 1, ds_state := Disconnected\<rparr>
      else s\<lparr>ds_state := Disconnected\<rparr>)"

definition MarkPoisoned :: "Session \<Rightarrow> Session" where
  "MarkPoisoned s =
     (if ds_state s = Connected
      then s\<lparr>ds_state := Poisoned, ds_generation := ds_generation s + 1\<rparr>
      else s)"

definition IsConnected :: "Session \<Rightarrow> bool" where
  "IsConnected s \<longleftrightarrow> ds_state s = Connected"

definition IsPoisoned :: "Session \<Rightarrow> bool" where
  "IsPoisoned s \<longleftrightarrow> ds_state s = Poisoned"

lemma MarkPoisoned_idem [simp]: "MarkPoisoned (MarkPoisoned s) = MarkPoisoned s"
  by (simp add: MarkPoisoned_def)

lemma MarkPoisoned_not_connected [simp]: "ds_state (MarkPoisoned s) \<noteq> Connected"
  by (simp add: MarkPoisoned_def)

section \<open>Threads\<close>

text \<open>
  \<open>sw_leases\<close> holds the generation of every lease that is held, \<open>sw_poisoning\<close> the leases of threads
  between the compare-and-exchange and the increment of \<open>MarkPoisoned\<close>, \<open>sw_exclusive\<close> tells
  whether a thread holds the lifecycle lock.
\<close>

record SessionWorld =
  sw_session :: Session
  sw_leases :: "u64 list"
  sw_poisoning :: "u64 list"
  sw_exclusive :: bool

definition initialWorld :: SessionWorld where
  "initialWorld = \<lparr>sw_session = initialSession, sw_leases = [], sw_poisoning = [], sw_exclusive = False\<rparr>"

inductive session_step :: "SessionWorld \<Rightarrow> SessionWorld \<Rightarrow> bool" where
  acquire: "\<not> sw_exclusive w \<Longrightarrow> AcquireRequest None (sw_session w) = l \<Longrightarrow> rl_valid l \<Longrightarrow>
     session_step w (w\<lparr>sw_leases := rl_generation l # sw_leases w\<rparr>)"
| acquire_nested: "g \<in> set (sw_leases w) \<Longrightarrow> AcquireRequest (Some g) (sw_session w) = l \<Longrightarrow>
     session_step w (w\<lparr>sw_leases := rl_generation l # sw_leases w\<rparr>)"
| release: "g \<in> set (sw_leases w) \<Longrightarrow>
     session_step w (w\<lparr>sw_leases := remove1 g (sw_leases w)\<rparr>)"
| poison_exchange: "g \<in> set (sw_leases w) \<Longrightarrow> ds_state (sw_session w) = Connected \<Longrightarrow>
     session_step w (w\<lparr>sw_session := (sw_session w)\<lparr>ds_state := Poisoned\<rparr>,
       sw_leases := remove1 g (sw_leases w), sw_poisoning := g # sw_poisoning w\<rparr>)"
| poison_increment: "g \<in> set (sw_poisoning w) \<Longrightarrow>
     session_step w (w\<lparr>sw_session :=
         (sw_session w)\<lparr>ds_generation := ds_generation (sw_session w) + 1\<rparr>,
       sw_leases := g # sw_leases w, sw_poisoning := remove1 g (sw_poisoning w)\<rparr>)"
| lock: "\<not> sw_exclusive w \<Longrightarrow> sw_leases w = [] \<Longrightarrow> sw_poisoning w = [] \<Longrightarrow>
     session_step w (w\<lparr>sw_exclusive := True\<rparr>)"
| unlock: "sw_exclusive w \<Longrightarrow> session_step w (w\<lparr>sw_exclusive := False\<rparr>)"
| begin_connect: "sw_exclusive w \<Longrightarrow>
     session_step w (w\<lparr>sw_session := BeginConnect (sw_session w)\<rparr>)"
| finish_connect: "sw_exclusive w \<Longrightarrow>
     session_step w (w\<lparr>sw_session := FinishConnect ok (sw_session w)\<rparr>)"
| disconnect: "sw_exclusive w \<Longrightarrow>
     session_step w (w\<lparr>sw_session := Disconnect (sw_session w)\<rparr>)"

definition reachable :: "SessionWorld \<Rightarrow> bool" where
  "reachable w \<longleftrightarrow> session_step\<^sup>*\<^sup>* initialWorld w"

section \<open>Invariant\<close>

text \<open>
  While a lease is held, the session is connected in the generation of the lease, or it is
  poisoned and the generation has moved on by one as soon as \<open>MarkPoisoned\<close> is through; nobody holds the
  lifecycle lock.
\<close>

definition held :: "SessionWorld \<Rightarrow> u64 set" where
  "held w = set (sw_leases w) \<union> set (sw_poisoning w)"

definition lease_state :: "SessionWorld \<Rightarrow> u64 \<Rightarrow> bool" where
  "lease_state w g \<longleftrightarrow>
     (case ds_state (sw_session w) of
        Connected \<Rightarrow> ds_generation (sw_session w) = g \<and> sw_poisoning w = []
      | Poisoned \<Rightarrow> ds_generation (sw_session w) = (if sw_poisoning w = [] then g + 1 else g)
      | _ \<Rightarrow> False)"

definition session_inv :: "SessionWorld \<Rightarrow> bool" where
  "session_inv w \<longleftrightarrow> (\<forall>g \<in> held w. lease_state w g \<and> \<not> sw_exclusive w) \<and>
     length (sw_poisoning w) \<le> 1 \<and> (sw_poisoning w \<noteq> [] \<longrightarrow> ds_state (sw_session w) = Poisoned)"

lemma session_inv_initial: "session_inv initialWorld"
  by (simp add: session_inv_def held_def initialWorld_def)

lemma session_inv_step: "session_step w w' \<Longrightarrow> session_inv w \<Longrightarrow> session_inv w'"
proof (induction rule: session_step.induct)
  case (poison_increment g w)
  then have "sw_poisoning w = [g]" "ds_state (sw_session w) = Poisoned"
    by (auto simp: session_inv_def le_Suc_eq length_Suc_conv)
  with poison_increment show ?case
    by (auto simp: session_inv_def held_def lease_state_def)
next
  case (release g w)
  let ?w = "w\<lparr>sw_leases := remove1 g (sw_leases w)\<rparr>"
  have "held ?w \<subseteq> held w" using set_remove1_subset [of g "sw_leases w"] by (auto simp: held_def)
  moreover have "lease_state ?w = lease_state w" by (rule ext) (simp add: lease_state_def cong: SessionState.case_cong)
  ultimately show ?case using release by (auto simp: session_inv_def)
next
  case (poison_exchange g w)
  then have "sw_poisoning w = []" by (auto simp: session_inv_def)
  moreover have "set (remove1 g (sw_leases w)) \<subseteq> set (sw_leases w)" by (rule set_remove1_subset)
  ultimately show ?case using poison_exchange
    by (auto simp: session_inv_def held_def lease_state_def subset_iff) metis
qed (auto simp: session_inv_def held_def lease_state_def AcquireRequest_def neq_Nil_conv
    split: SessionState.splits)

lemma session_inv_reachable: "reachable w \<Longrightarrow> session_inv w"
  unfolding reachable_def
  by (induction rule: rtranclp_induct) (auto intro: session_inv_initial session_inv_step)

section \<open>What a lease guarantees\<close>

text \<open>
  C39. A request never spans two connections. In every reachable state, as long as a valid lease of
  generation \<open>g\<close> is held, no thread holds the lifecycle lock, the session is connected in exactly
  that generation or poisoned, and the test \<open>isCurrent\<close> answers precisely whether it is still
  connected. This holds without a bound on the number of reconnects, although the counter wraps.
\<close>

theorem lease_pins_connection:
  assumes "reachable w" "g \<in> set (sw_leases w)"
  shows "\<not> sw_exclusive w \<and> ds_state (sw_session w) \<in> {Connected, Poisoned} \<and>
    (isCurrent (sw_session w) \<lparr>rl_generation = g, rl_valid = True\<rparr> \<longleftrightarrow>
       ds_state (sw_session w) = Connected)"
  using session_inv_reachable [OF assms(1)] assms(2)
  by (cases "ds_state (sw_session w)")
    (auto simp: session_inv_def held_def lease_state_def isCurrent_def)

definition demo_sessions :: SessionWorld where
  "demo_sessions = \<lparr>sw_session = \<lparr>ds_state = Connected, ds_generation = 1\<rparr>, sw_leases = [1],
     sw_poisoning = [], sw_exclusive = False\<rparr>"

lemma demo_sessions_reachable: "reachable demo_sessions"
proof -
  let ?w = "\<lambda>st n ls x. \<lparr>sw_session = \<lparr>ds_state = st, ds_generation = n\<rparr>, sw_leases = ls,
     sw_poisoning = [], sw_exclusive = x\<rparr>"
  have s1: "session_step initialWorld (?w Disconnected 0 [] True)"
    using lock [of initialWorld] by (simp add: initialWorld_def initialSession_def)
  have s2: "session_step (?w Disconnected 0 [] True) (?w Connecting 1 [] True)"
    using begin_connect [of "?w Disconnected 0 [] True"] by (simp add: BeginConnect_def)
  have s3: "session_step (?w Connecting 1 [] True) (?w Connected 1 [] True)"
    using finish_connect [of "?w Connecting 1 [] True" True] by (simp add: FinishConnect_def)
  have s4: "session_step (?w Connected 1 [] True) (?w Connected 1 [] False)"
    using unlock [of "?w Connected 1 [] True"] by simp
  have s5: "session_step (?w Connected 1 [] False) (?w Connected 1 [1] False)"
    using acquire [of "?w Connected 1 [] False", OF _ refl] by (simp add: AcquireRequest_def)
  note into = rtranclp.rtrancl_into_rtrancl [where r = session_step]
  show ?thesis
    unfolding reachable_def demo_sessions_def
    by (rule into [OF into [OF into [OF into [OF r_into_rtranclp [of session_step, OF s1] s2] s3] s4] s5])
qed

theorem lease_pins_connection_witness:
  "reachable demo_sessions \<and> 1 \<in> set (sw_leases demo_sessions) \<and>
   isCurrent (sw_session demo_sessions) \<lparr>rl_generation = 1, rl_valid = True\<rparr>"
  using lease_pins_connection [OF demo_sessions_reachable, of 1] demo_sessions_reachable
  by (simp add: demo_sessions_def)

text \<open>
  A run during which the lease \<open>g\<close> stays held.
\<close>

inductive run_holding :: "u64 \<Rightarrow> SessionWorld \<Rightarrow> SessionWorld \<Rightarrow> bool" for g where
  run_start: "g \<in> held w \<Longrightarrow> run_holding g w w"
| run_step: "run_holding g w w1 \<Longrightarrow> session_step w1 w2 \<Longrightarrow> g \<in> held w2 \<Longrightarrow> run_holding g w w2"

lemma poisoned_step:
  assumes "session_step w w'" "session_inv w" "g \<in> held w" "ds_state (sw_session w) = Poisoned"
  shows "ds_state (sw_session w') = Poisoned"
  using assms by (cases rule: session_step.cases) (auto simp: session_inv_def held_def)

lemma run_holding_inv:
  "run_holding g w w' \<Longrightarrow> session_inv w \<Longrightarrow>
     session_inv w' \<and> g \<in> held w' \<and>
     (ds_state (sw_session w) = Poisoned \<longrightarrow> ds_state (sw_session w') = Poisoned)"
  by (induction rule: run_holding.induct) (auto intro: session_inv_step poisoned_step)

text \<open>
  A lease that has become stale stays stale. Once \<open>isCurrent\<close> has failed for a valid lease, it fails
  in every later state in which the lease is still held, whatever the other threads do: a
  request that has seen its connection poisoned cannot resume on another one.
\<close>

theorem stale_lease_stays_stale:
  assumes "reachable w" "run_holding g w w'"
    and "\<not> isCurrent (sw_session w) \<lparr>rl_generation = g, rl_valid = True\<rparr>"
  shows "\<not> isCurrent (sw_session w') \<lparr>rl_generation = g, rl_valid = True\<rparr>"
proof -
  note inv = session_inv_reachable [OF assms(1)]
  have "g \<in> held w" using assms(2) by (induction rule: run_holding.induct) auto
  with inv assms(3) have "ds_state (sw_session w) = Poisoned"
    by (cases "ds_state (sw_session w)") (auto simp: session_inv_def lease_state_def isCurrent_def)
  with run_holding_inv [OF assms(2) inv] show ?thesis by (simp add: isCurrent_def)
qed

theorem stale_lease_stays_stale_witness:
  "\<exists>w. reachable w \<and> run_holding 1 w w \<and>
     \<not> isCurrent (sw_session w) \<lparr>rl_generation = 1, rl_valid = True\<rparr>"
proof -
  let ?w = "\<lparr>sw_session = \<lparr>ds_state = Poisoned, ds_generation = 1\<rparr>, sw_leases = [],
     sw_poisoning = [1], sw_exclusive = False\<rparr>"
  have "session_step demo_sessions ?w"
    using poison_exchange [of 1 demo_sessions] by (simp add: demo_sessions_def)
  with demo_sessions_reachable have r: "reachable ?w"
    unfolding reachable_def by (rule rtranclp.rtrancl_into_rtrancl)
  have h: "run_holding 1 ?w ?w" by (rule run_start) (simp add: held_def)
  have "\<not> isCurrent (sw_session ?w) \<lparr>rl_generation = 1, rl_valid = True\<rparr>"
    by (rule stale_lease_stays_stale [OF r h]) (simp add: isCurrent_def)
  with r h show ?thesis by blast
qed

text \<open>
  For a thread that holds a lease, a nested \<open>AcquireRequest\<close> answers as a fresh one would: the
  socket layer below may therefore acquire its leases without regard to nesting.
\<close>

lemma nested_acquire_eq:
  assumes "reachable w" "g \<in> set (sw_leases w)"
  shows "rl_valid (AcquireRequest (Some g) (sw_session w)) = rl_valid (AcquireRequest None (sw_session w))"
    and "rl_valid (AcquireRequest None (sw_session w)) \<Longrightarrow>
      AcquireRequest (Some g) (sw_session w) = AcquireRequest None (sw_session w)"
  using session_inv_reachable [OF assms(1)] assms(2)
  by (cases "ds_state (sw_session w)";
      auto simp: session_inv_def held_def lease_state_def AcquireRequest_def)+

end
