(* ===== verification/AppContext.thy ===== *)
theory AppContext
  imports MemTypes
begin

text \<open>
  The selected process of the client, \<open>gui/gui/AppContext.cpp\<close>. A change of the target is a
  \<open>TargetMutation\<close>: it holds \<open>processStateMutex_\<close>, makes \<open>processRevision\<close> odd, stores pid, handle
  and name one after the other, and makes the revision even again when it is destroyed. Readers
  of \<open>matchesStableTarget\<close> take no lock and load revision, pid, handle and revision. The first
  section has the operations as functions on the state, the second interleaves the loads of a
  reader with the stores of the writers.
\<close>

unbundle bit_operations_syntax

section \<open>Operations\<close>

record ModuleCacheState =
  mc_modules :: "ModuleInfo list"
  mc_symbols :: "u64 \<rightharpoonup> SymbolInfo list"
  mc_valid :: bool
  mc_lastRefreshTime :: int

record AppState =
  ac_selectedPid :: int
  ac_processHandle :: int
  ac_processRevision :: u64
  ac_selectedName :: string
  ac_moduleCache :: ModuleCacheState

definition invalidate :: "ModuleCacheState \<Rightarrow> ModuleCacheState" where
  "invalidate c = c\<lparr>mc_valid := False, mc_symbols := Map.empty\<rparr>"

definition snapshotTarget :: "u64 \<Rightarrow> AppState \<Rightarrow> TargetSnapshot" where
  "snapshotTarget connectionGeneration s =
     \<lparr>ts_pid = ac_selectedPid s, ts_processHandle = ac_processHandle s,
      ts_processRevision = ac_processRevision s,
      ts_connectionGeneration = connectionGeneration\<rparr>"

definition beginTargetMutation ::
    "TargetSnapshot option \<Rightarrow> u64 \<Rightarrow> AppState \<Rightarrow> TargetSnapshot option \<times> AppState" where
  "beginTargetMutation expected connectionGeneration s =
     (if ac_processRevision s AND 1 \<noteq> 0 then (None, s)
      else
        let current = snapshotTarget connectionGeneration s in
        if (case expected of None \<Rightarrow> False | Some e \<Rightarrow> current \<noteq> e) then (None, s)
        else (Some current, s\<lparr>ac_processRevision := ac_processRevision s + 1\<rparr>))"

definition publish :: "int \<Rightarrow> int \<Rightarrow> string \<Rightarrow> AppState \<Rightarrow> AppState" where
  "publish pid handle name s =
     s\<lparr>ac_selectedPid := pid, ac_processHandle := handle, ac_selectedName := name,
       ac_moduleCache := invalidate (ac_moduleCache s)\<rparr>"

definition clearTarget :: "AppState \<Rightarrow> AppState" where
  "clearTarget s = publish 0 0 [] s"

definition finish :: "AppState \<Rightarrow> AppState" where
  "finish s = s\<lparr>ac_processRevision := ac_processRevision s + 1\<rparr>"

definition clearProcessForDisconnect :: "AppState \<Rightarrow> AppState" where
  "clearProcessForDisconnect s =
     (case beginTargetMutation None 0 s of
        (None, s') \<Rightarrow> s'
      | (Some _, s') \<Rightarrow> finish (clearTarget s'))"

text \<open>The decision of \<open>matchesStableTarget\<close> on the four values that it has loaded.\<close>

definition matchesLoads :: "TargetSnapshot \<Rightarrow> u64 \<Rightarrow> u64 \<Rightarrow> int \<Rightarrow> int \<Rightarrow> u64 \<Rightarrow> bool" where
  "matchesLoads expected connectionGeneration revisionBefore pid handle revisionAfter \<longleftrightarrow>
     ts_connectionGeneration expected = connectionGeneration \<and>
     \<not> (revisionBefore AND 1 \<noteq> 0 \<or> revisionBefore \<noteq> ts_processRevision expected) \<and>
     revisionBefore = revisionAfter \<and> revisionAfter AND 1 = 0 \<and>
     pid = ts_pid expected \<and> handle = ts_processHandle expected"

definition matchesStableTarget :: "TargetSnapshot \<Rightarrow> u64 \<Rightarrow> AppState \<Rightarrow> bool" where
  "matchesStableTarget expected connectionGeneration s =
     matchesLoads expected connectionGeneration (ac_processRevision s) (ac_selectedPid s)
       (ac_processHandle s) (ac_processRevision s)"

definition hasProcess :: "AppState \<Rightarrow> bool" where
  "hasProcess s \<longleftrightarrow> ac_selectedPid s \<noteq> 0 \<and> ac_processHandle s \<noteq> 0"

lemma matchesStableTarget_iff:
  "matchesStableTarget t g s \<longleftrightarrow> even (ac_processRevision s) \<and> snapshotTarget g s = t"
  by (cases t) (auto simp: matchesStableTarget_def matchesLoads_def snapshotTarget_def
      and_one_eq even_iff_mod_2_eq_zero odd_iff_mod_2_eq_one)

section \<open>Interleaving\<close>

text \<open>
  \<open>writer_step k s s'\<close>: one atomic store of a writer, where \<open>mutating\<close> says whether a
  \<open>TargetMutation\<close> is alive; the mutex admits one at a time. \<open>k\<close> is 1 for an increment of
  the revision and 0 otherwise.
\<close>

record TargetWorld =
  tw_app :: AppState
  tw_mutating :: bool

inductive writer_step :: "nat \<Rightarrow> TargetWorld \<Rightarrow> TargetWorld \<Rightarrow> bool" where
  begin_mutation: "\<not> tw_mutating w \<Longrightarrow> beginTargetMutation e g (tw_app w) = (Some p, a) \<Longrightarrow>
     writer_step 1 w (w\<lparr>tw_app := a, tw_mutating := True\<rparr>)"
| store_pid: "tw_mutating w \<Longrightarrow> writer_step 0 w (w\<lparr>tw_app := (tw_app w)\<lparr>ac_selectedPid := pid\<rparr>\<rparr>)"
| store_handle: "tw_mutating w \<Longrightarrow>
     writer_step 0 w (w\<lparr>tw_app := (tw_app w)\<lparr>ac_processHandle := h\<rparr>\<rparr>)"
| store_name: "tw_mutating w \<Longrightarrow>
     writer_step 0 w (w\<lparr>tw_app := (tw_app w)\<lparr>ac_selectedName := n\<rparr>\<rparr>)"
| store_cache: "tw_mutating w \<Longrightarrow>
     writer_step 0 w (w\<lparr>tw_app := (tw_app w)\<lparr>ac_moduleCache := invalidate (ac_moduleCache (tw_app w))\<rparr>\<rparr>)"
| finish_mutation: "tw_mutating w \<Longrightarrow>
     writer_step 1 w (w\<lparr>tw_app := finish (tw_app w), tw_mutating := False\<rparr>)"

inductive writer_run :: "nat \<Rightarrow> TargetWorld \<Rightarrow> TargetWorld \<Rightarrow> bool" where
  run_none: "writer_run 0 w w"
| run_more: "writer_run k w w1 \<Longrightarrow> writer_step j w1 w2 \<Longrightarrow> writer_run (k + j) w w2"

definition target_inv :: "TargetWorld \<Rightarrow> bool" where
  "target_inv w \<longleftrightarrow> tw_mutating w = odd (ac_processRevision (tw_app w))"

lemma beginTargetMutation_Some:
  "beginTargetMutation e g s = (Some p, a) \<Longrightarrow>
     even (ac_processRevision s) \<and> a = s\<lparr>ac_processRevision := ac_processRevision s + 1\<rparr> \<and>
     p = snapshotTarget g s"
  by (auto simp: beginTargetMutation_def Let_def and_one_eq even_iff_mod_2_eq_zero
      split: if_splits)

lemma writer_step_inv:
  assumes "writer_step k w w'" "target_inv w"
  shows "target_inv w' \<and>
    ac_processRevision (tw_app w') = ac_processRevision (tw_app w) + of_nat k \<and>
    (even (ac_processRevision (tw_app w)) \<longrightarrow> k = 1)"
  using assms by cases (auto simp: target_inv_def finish_def dest!: beginTargetMutation_Some)

lemma writer_run_inv:
  assumes "writer_run k w w'" "target_inv w"
  shows "target_inv w' \<and>
    ac_processRevision (tw_app w') = ac_processRevision (tw_app w) + of_nat k \<and>
    (even (ac_processRevision (tw_app w)) \<and> k = 0 \<longrightarrow> w' = w)"
  using assms
proof (induction rule: writer_run.induct)
  case (run_more k w w1 j w2)
  then have IH: "target_inv w1"
    "ac_processRevision (tw_app w1) = ac_processRevision (tw_app w) + of_nat k"
    "even (ac_processRevision (tw_app w)) \<and> k = 0 \<longrightarrow> w1 = w" by auto
  from writer_step_inv [OF run_more.hyps(2) IH(1)] IH show ?case by auto
qed simp

lemma revision_moved:
  fixes r :: u64
  assumes "r + of_nat k = r" "k < 2 ^ 64"
  shows "k = 0"
proof -
  have "unat (of_nat k :: u64) = k" using assms(2) by (simp add: unsigned_of_nat take_bit_nat_eq_self)
  moreover have "(of_nat k :: u64) = 0" using assms(1) by simp
  ultimately show ?thesis by simp
qed

text \<open>
  C40. The lock-free check of the target is exact. Whatever writers do between its four loads (fewer
  than 2^64 revision changes), when \<open>matchesStableTarget\<close> answers yes, then at its first load no
  mutation was in progress and the target was exactly the expected one, and it was still
  unchanged at its last load: pid and handle cannot come from different targets.
\<close>

theorem matchesStableTarget_linearizable:
  assumes "target_inv w0" "writer_run k1 w0 w1" "writer_run k2 w1 w2" "writer_run k3 w2 w3"
    and "k1 + k2 + k3 < 2 ^ 64"
    and "matchesLoads expected g (ac_processRevision (tw_app w0)) (ac_selectedPid (tw_app w1))
       (ac_processHandle (tw_app w2)) (ac_processRevision (tw_app w3))"
  shows "\<not> tw_mutating w0 \<and> snapshotTarget g (tw_app w0) = expected \<and> w3 = w0"
proof -
  from assms(6) have even: "even (ac_processRevision (tw_app w0))"
    by (auto simp: matchesLoads_def and_one_eq even_iff_mod_2_eq_zero)
  note r1 = writer_run_inv [OF assms(2,1)]
  note r2 = writer_run_inv [OF assms(3) conjunct1 [OF r1]]
  note r3 = writer_run_inv [OF assms(4) conjunct1 [OF r2]]
  have "ac_processRevision (tw_app w3) = ac_processRevision (tw_app w0) + of_nat (k1 + k2 + k3)"
    using r1 r2 r3 by (simp add: add.assoc)
  with assms(6) have "k1 + k2 + k3 = 0"
    by (intro revision_moved [OF _ assms(5), of "ac_processRevision (tw_app w0)"])
      (auto simp: matchesLoads_def)
  with r1 r2 r3 even have "w1 = w0" "w2 = w0" "w3 = w0" by auto
  with assms(1,6) even show ?thesis
    by (cases expected) (auto simp: matchesLoads_def snapshotTarget_def target_inv_def)
qed

definition demo_app :: AppState where
  "demo_app = \<lparr>ac_selectedPid = 42, ac_processHandle = 7, ac_processRevision = 2,
     ac_selectedName = ''game'',
     ac_moduleCache = \<lparr>mc_modules = [], mc_symbols = Map.empty, mc_valid = False,
       mc_lastRefreshTime = 0\<rparr>\<rparr>"

theorem matchesStableTarget_linearizable_witness:
  "matchesStableTarget (snapshotTarget 1 demo_app) 1 demo_app \<and>
   snapshotTarget 1 demo_app = \<lparr>ts_pid = 42, ts_processHandle = 7, ts_processRevision = 2,
     ts_connectionGeneration = 1\<rparr>"
proof -
  let ?w = "\<lparr>tw_app = demo_app, tw_mutating = False\<rparr>"
  have loads: "matchesLoads \<lparr>ts_pid = 42, ts_processHandle = 7, ts_processRevision = 2,
     ts_connectionGeneration = 1\<rparr> 1 (ac_processRevision (tw_app ?w)) (ac_selectedPid (tw_app ?w))
     (ac_processHandle (tw_app ?w)) (ac_processRevision (tw_app ?w))"
    by (simp add: matchesLoads_def demo_app_def)
  have "target_inv ?w" by (simp add: target_inv_def demo_app_def)
  from matchesStableTarget_linearizable [OF this run_none run_none run_none _ loads]
  have "snapshotTarget 1 demo_app = \<lparr>ts_pid = 42, ts_processHandle = 7, ts_processRevision = 2,
     ts_connectionGeneration = 1\<rparr>" by simp
  with loads show ?thesis by (simp add: matchesStableTarget_def)
qed

text \<open>
  A target snapshot does not survive a process switch. Once any mutation has begun after the
  snapshot was taken (and fewer than 2^64 revision changes have happened), the snapshot
  matches no later state, not even when the same process is selected again with the same handle.
\<close>

theorem old_target_never_matches:
  assumes "target_inv w" "writer_run k w w'" "0 < k" "k < 2 ^ 64"
  shows "\<not> matchesStableTarget (snapshotTarget g (tw_app w)) g' (tw_app w')"
proof
  assume "matchesStableTarget (snapshotTarget g (tw_app w)) g' (tw_app w')"
  then have "ac_processRevision (tw_app w') = ac_processRevision (tw_app w)"
    by (simp add: matchesStableTarget_def matchesLoads_def snapshotTarget_def)
  with writer_run_inv [OF assms(2,1)] have "ac_processRevision (tw_app w) + of_nat k = ac_processRevision (tw_app w)"
    by simp
  from revision_moved [OF this assms(4)] assms(3) show False by simp
qed

theorem old_target_never_matches_witness:
  "\<not> matchesStableTarget (snapshotTarget 1 demo_app) 1 (demo_app\<lparr>ac_processRevision := 4\<rparr>)"
proof -
  let ?w = "\<lambda>n m. \<lparr>tw_app = demo_app\<lparr>ac_processRevision := n\<rparr>, tw_mutating = m\<rparr>"
  have b: "beginTargetMutation None 1 (tw_app (?w 2 False)) =
      (Some (snapshotTarget 1 (tw_app (?w 2 False))), tw_app (?w 3 False))"
    by (simp add: beginTargetMutation_def demo_app_def Let_def)
  have "writer_step 1 (?w 2 False) (?w 3 True)"
    using begin_mutation [OF _ b] by simp
  moreover have "writer_step 1 (?w 3 True) (?w 4 False)"
    using finish_mutation [of "?w 3 True"] by (simp add: finish_def)
  ultimately have "writer_run (0 + 1 + 1) (?w 2 False) (?w 4 False)"
    by (intro run_more) (rule run_none)
  moreover have "target_inv (?w 2 False)" by (simp add: target_inv_def)
  ultimately have "\<not> matchesStableTarget (snapshotTarget 1 (tw_app (?w 2 False))) 1 (tw_app (?w 4 False))"
    by (intro old_target_never_matches) auto
  then show ?thesis by (simp add: demo_app_def)
qed

end
