(* ===== verification/SocketClient.thy ===== *)
theory SocketClient
  imports Protocol DeviceSession AppContext
begin

text \<open>
  The client's connection: \<open>WindowsSocketClient\<close> (\<open>gui/socket/client.hpp\<close>), the manager of the three ports
  (\<open>gui/socket/client_singleton.cpp\<close>) and the transaction lease with the \<open>execute\<close> family
  (\<open>gui/socket/SocketCommand.h\<close>). The state is the world of one client thread: session, selected process,
  which ports are open, and for each port the bytes that the operating system has accepted on the
  current connection. The operating system itself (sockets, locks with their timeouts, clock,
  \<open>localtime\<close>) is a parameter \<open>SocketOs\<close> over an environment of its own: it may accept and deliver any
  number of bytes at a time and fail at any call.
\<close>

section \<open>World\<close>

datatype PortType = PORT_MAIN | PORT_ERROR | PORT_DEBUG

record 'e SocketOs =
  os_send :: "PortType \<Rightarrow> bytes \<Rightarrow> ('e, int) state"
  os_recv :: "PortType \<Rightarrow> nat \<Rightarrow> ('e, bytes option) state"
  os_connect :: "string \<Rightarrow> u16 \<Rightarrow> PortType \<Rightarrow> ('e, bool) state"
  os_lockTransaction :: "PortType \<Rightarrow> ('e, bool) state"
  os_lockRequest :: "PortType \<Rightarrow> ('e, bool) state"
  os_localtime :: "nat \<Rightarrow> ('e, string option) state"
  os_now :: "('e, int) state"
  os_loadToken :: "nat \<Rightarrow> ('e, bool) state"

record 'e ClientWorld =
  cw_env :: 'e
  cw_session :: Session
  cw_app :: AppState
  cw_open :: "PortType \<Rightarrow> bool"
  cw_stream :: "PortType \<Rightarrow> bytes"
  cw_delivered :: "PortType \<Rightarrow> bytes list"
  cw_tracked :: "u64 list"

type_synonym ('e, 'a) client = "('e ClientWorld, 'a) state"

definition on_env :: "('e, 'a) state \<Rightarrow> ('e, 'a) client" where
  "on_env m = State (\<lambda>w. case run_state m (cw_env w) of (a, e) \<Rightarrow> (a, w\<lparr>cw_env := e\<rparr>))"

definition get_world :: "('e ClientWorld \<Rightarrow> 'a) \<Rightarrow> ('e, 'a) client" where
  "get_world f = State (\<lambda>w. (f w, w))"

definition put_world :: "('e ClientWorld \<Rightarrow> 'e ClientWorld) \<Rightarrow> ('e, unit) client" where
  "put_world f = State (\<lambda>w. ((), f w))"

section \<open>One port\<close>

definition PoisonAndClose :: "PortType \<Rightarrow> ('e, unit) client" where
  "PoisonAndClose p = put_world (\<lambda>w.
     w\<lparr>cw_session := MarkPoisoned (cw_session w), cw_open := (cw_open w)(p := False)\<rparr>)"

definition acceptBytes :: "PortType \<Rightarrow> bytes \<Rightarrow> ('e, unit) client" where
  "acceptBytes p bs = put_world (\<lambda>w.
     w\<lparr>cw_stream := (cw_stream w)(p := cw_stream w p @ bs)\<rparr>)"

function sendLoop :: "'e SocketOs \<Rightarrow> PortType \<Rightarrow> bytes \<Rightarrow> ('e, bool) client" where
  "sendLoop os p data =
     (if data = [] then State_Monad.return True
      else do {
        sent \<leftarrow> on_env (os_send os p data);
        if sent \<le> 0
        then do { PoisonAndClose p; State_Monad.return False }
        else do {
          acceptBytes p (take (nat sent) data);
          sendLoop os p (drop (nat sent) data) }})"
  by pat_completeness auto
termination by (relation "measure (\<lambda>(os, p, data). length data)") auto

function recvLoop :: "'e SocketOs \<Rightarrow> PortType \<Rightarrow> nat \<Rightarrow> bytes \<Rightarrow> ('e, bytes option) client" where
  "recvLoop os p n acc =
     (if n = 0 then State_Monad.return (Some acc)
      else do {
        received \<leftarrow> on_env (os_recv os p n);
        case received of
          None \<Rightarrow> do { PoisonAndClose p; State_Monad.return None }
        | Some bs \<Rightarrow>
            if bs = [] then do { PoisonAndClose p; State_Monad.return None }
            else recvLoop os p (n - length bs) (acc @ take n bs) })"
  by pat_completeness auto
termination by (relation "measure (\<lambda>(os, p, n, acc). n)") auto

declare sendLoop.simps [simp del] recvLoop.simps [simp del]

definition Send :: "'e SocketOs \<Rightarrow> PortType \<Rightarrow> bytes \<Rightarrow> ('e, bool) client" where
  "Send os p data = do {
     connected \<leftarrow> get_world (\<lambda>w. cw_open w p);
     if \<not> connected then State_Monad.return False else sendLoop os p data }"

definition Receive :: "'e SocketOs \<Rightarrow> PortType \<Rightarrow> nat \<Rightarrow> ('e, bytes option) client" where
  "Receive os p n = do {
     connected \<leftarrow> get_world (\<lambda>w. cw_open w p);
     if \<not> connected then State_Monad.return None else recvLoop os p n [] }"

text \<open>
  The statements \<open>if (!client->Send(...)) return ...\<close>, \<open>if (!client->Receive(...)) return ...\<close> and
  \<open>return SocketCommand::rejectMalformedResponse(client)\<close>.
\<close>

definition send_or :: "'e SocketOs \<Rightarrow> PortType \<Rightarrow> bytes \<Rightarrow> 'a \<Rightarrow> ('e, 'a) client \<Rightarrow> ('e, 'a) client" where
  "send_or os p data failed k = do {
     ok \<leftarrow> Send os p data;
     if ok then k else State_Monad.return failed }"

definition recv_or ::
    "'e SocketOs \<Rightarrow> PortType \<Rightarrow> nat \<Rightarrow> 'a \<Rightarrow> (bytes \<Rightarrow> ('e, 'a) client) \<Rightarrow> ('e, 'a) client" where
  "recv_or os p n failed k = do {
     r \<leftarrow> Receive os p n;
     case r of None \<Rightarrow> State_Monad.return failed | Some bs \<Rightarrow> k bs }"

definition rejectMalformedResponse :: "PortType \<Rightarrow> 'a \<Rightarrow> ('e, 'a) client" where
  "rejectMalformedResponse p failed = do { PoisonAndClose p; State_Monad.return failed }"

section \<open>The connection manager\<close>

definition CloseClients :: "('e, unit) client" where
  "CloseClients = put_world (\<lambda>w. w\<lparr>cw_open := (\<lambda>_. False)\<rparr>)"

definition connectPort :: "'e SocketOs \<Rightarrow> string \<Rightarrow> u16 \<Rightarrow> PortType \<Rightarrow> ('e, bool) client" where
  "connectPort os host port p = do {
     put_world (\<lambda>w. w\<lparr>cw_open := (cw_open w)(p := False)\<rparr>);
     ok \<leftarrow> on_env (os_connect os host port p);
     (if ok
      then put_world (\<lambda>w. w\<lparr>cw_open := (cw_open w)(p := True),
        cw_delivered := (cw_delivered w)(p := cw_delivered w p @ completeRequests (cw_stream w p)),
        cw_stream := (cw_stream w)(p := [])\<rparr>)
      else State_Monad.return ());
     State_Monad.return ok }"

definition finishConnect :: "bool \<Rightarrow> ('e, bool) client" where
  "finishConnect ok = do {
     put_world (\<lambda>w. w\<lparr>cw_session := FinishConnect ok (cw_session w)\<rparr>);
     State_Monad.return ok }"

definition ConnectMultiPort :: "'e SocketOs \<Rightarrow> string \<Rightarrow> u16 \<Rightarrow> ('e, bool) client" where
  "ConnectMultiPort os host port = do {
     put_world (\<lambda>w. w\<lparr>cw_tracked := [], cw_session := BeginConnect (cw_session w)\<rparr>);
     CloseClients;
     put_world (\<lambda>w. w\<lparr>cw_app := clearProcessForDisconnect (cw_app w)\<rparr>);
     main \<leftarrow> connectPort os host port PORT_MAIN;
     if \<not> main then finishConnect False
     else do {
       debug \<leftarrow> connectPort os host port PORT_DEBUG;
       if \<not> debug then do { CloseClients; finishConnect False }
       else do {
         err \<leftarrow> connectPort os host port PORT_ERROR;
         if \<not> err then do { CloseClients; finishConnect False }
         else finishConnect True }}}"

definition DisconnectMultiPort :: "('e, unit) client" where
  "DisconnectMultiPort = do {
     put_world (\<lambda>w. w\<lparr>cw_tracked := [], cw_session := Disconnect (cw_session w),
       cw_app := clearProcessForDisconnect (cw_app w)\<rparr>);
     CloseClients }"

section \<open>Leases and execution\<close>

definition acquireLease :: "('e, RequestLease) client" where
  "acquireLease = get_world (\<lambda>w. AcquireRequest None (cw_session w))"

definition leaseCurrent :: "RequestLease \<Rightarrow> ('e, bool) client" where
  "leaseCurrent l = get_world (\<lambda>w. isCurrent (cw_session w) l)"

text \<open>A transaction lease is its request lease with the flag \<open>valid_\<close>; its test is \<open>leaseCurrent\<close>.\<close>

definition TransactionLease :: "'e SocketOs \<Rightarrow> PortType \<Rightarrow> ('e, RequestLease) client" where
  "TransactionLease os p = do {
     l \<leftarrow> acquireLease;
     if \<not> rl_valid l then State_Monad.return l
     else do {
       locked \<leftarrow> on_env (os_lockTransaction os p);
       if \<not> locked then State_Monad.return (l\<lparr>rl_valid := False\<rparr>)
       else do {
         current \<leftarrow> leaseCurrent l;
         State_Monad.return (l\<lparr>rl_valid := current\<rparr>) }}}"

definition EnsureOpenHandle :: "('e, int option) client" where
  "EnsureOpenHandle = get_world (\<lambda>w.
     if ac_processHandle (cw_app w) \<noteq> 0 then Some (ac_processHandle (cw_app w)) else None)"

definition ExecuteRequestWithLock ::
    "'e SocketOs \<Rightarrow> PortType \<Rightarrow> RequestLease \<Rightarrow> 'a \<Rightarrow> ('e, 'a) client \<Rightarrow> ('e, 'a) client" where
  "ExecuteRequestWithLock os p l failed request = do {
     locked \<leftarrow> on_env (os_lockRequest os p);
     if \<not> locked then State_Monad.return failed
     else do {
       current \<leftarrow> leaseCurrent l;
       connected \<leftarrow> get_world (\<lambda>w. cw_open w p);
       if \<not> current \<or> \<not> connected then State_Monad.return failed
       else request }}"

definition execute ::
    "'e SocketOs \<Rightarrow> PortType \<Rightarrow> 'a \<Rightarrow> (int \<Rightarrow> ('e, 'a) client) \<Rightarrow> ('e, 'a) client" where
  "execute os p failed fn = do {
     l \<leftarrow> TransactionLease os p;
     current \<leftarrow> leaseCurrent l;
     if \<not> current then State_Monad.return failed
     else do {
       h \<leftarrow> EnsureOpenHandle;
       case h of
         None \<Rightarrow> State_Monad.return failed
       | Some handle \<Rightarrow> ExecuteRequestWithLock os p l failed (fn handle) }}"

definition executeNoHandle ::
    "'e SocketOs \<Rightarrow> PortType \<Rightarrow> 'a \<Rightarrow> ('e, 'a) client \<Rightarrow> ('e, 'a) client" where
  "executeNoHandle os p failed fn = do {
     l \<leftarrow> TransactionLease os p;
     current \<leftarrow> leaseCurrent l;
     if \<not> current then State_Monad.return failed
     else ExecuteRequestWithLock os p l failed fn }"

definition sendCommandWithHandle ::
    "'e SocketOs \<Rightarrow> PortType \<Rightarrow> u8 \<Rightarrow> int \<Rightarrow> 'a \<Rightarrow> ('e, 'a) client \<Rightarrow> ('e, 'a) client" where
  "sendCommandWithHandle os p cmd handle failed k =
     send_or os p [cmd] failed (send_or os p (i32_bytes handle) failed k)"

end
