(* ===== verification/SocketCommands.thy ===== *)
theory SocketCommands
  imports SocketClient
begin

text \<open>
  The commands of the client, \<open>gui/socket/MemoryCommands.cpp\<close>, \<open>ProcessCommands.cpp\<close>,
  \<open>BreakpointCommands.cpp\<close>, \<open>UxnBreakpointCommands.cpp\<close>, \<open>SymbolCommands.cpp\<close> and the process handles of
  \<open>client_singleton.cpp\<close>: what each one sends, in which pieces, how it reads and checks the
  answer, and which flags of its result are set at which point. A packed struct is the
  concatenation of its fields, and a received struct is read at the offsets of its fields. A result of type
  option is \<open>Some\<close> when the command returns \<open>true\<close>.
\<close>

section \<open>Results\<close>

record MemoryWriteIoResult =
  mio_requestStarted :: bool
  mio_responseReceived :: bool
  mio_writtenBytes :: int

record BreakpointMutationIoResult =
  bio_requestStarted :: bool
  bio_responseReceived :: bool
  bio_applied :: bool

record UxnOperationIoResult =
  uio_requestStarted :: bool
  uio_responseReceived :: bool
  uio_applied :: bool
  uio_errorCode :: int

record DriverInitializationIoResult =
  dio_requestStarted :: bool
  dio_responseReceived :: bool
  dio_accepted :: bool
  dio_message :: string

record KernelBreakpointReclaimIoResult =
  rio_requestStarted :: bool
  rio_responseReceived :: bool
  rio_applied :: bool

section \<open>Memory\<close>

abbreviation kMaxNetworkAllocSize :: nat where
  "kMaxNetworkAllocSize \<equiv> 268435456"

definition isValidReadSize :: "u32 \<Rightarrow> bool" where
  "isValidReadSize n \<longleftrightarrow> n > 0 \<and> unat n \<le> kMaxNetworkAllocSize"

fun batchTotalOk :: "(u64 \<times> int) list \<Rightarrow> nat \<Rightarrow> bool" where
  "batchTotalOk [] totalBytes = True"
| "batchTotalOk ((a, n) # rest) totalBytes =
     (if n \<le> 0 \<or> nat n > kMaxNetworkAllocSize then False
      else if totalBytes + nat n > kMaxNetworkAllocSize then False
      else batchTotalOk rest (totalBytes + nat n))"

definition validateBatchReadAddresses :: "(u64 \<times> int) list \<Rightarrow> bool" where
  "validateBatchReadAddresses addrs \<longleftrightarrow>
     addrs \<noteq> [] \<and> length addrs \<le> 100000 \<and> length addrs \<le> INT_MAX \<and> batchTotalOk addrs 0"

definition ReadProcessMemoryBytes ::
    "'e SocketOs \<Rightarrow> u64 \<Rightarrow> u32 \<Rightarrow> PortType \<Rightarrow> ('e, bytes option) client" where
  "ReadProcessMemoryBytes os address n p =
     (if \<not> isValidReadSize n then State_Monad.return None
      else execute os p None (\<lambda>handle.
        send_or os p
          (CMD_READPROCESSMEMORY # i32_bytes handle @ u64_bytes address @ u32_bytes n @ [0]) None
        (recv_or os p 4 None (\<lambda>hdr.
        recv_or os p (unat n) None (\<lambda>out.
          let read = i32_at hdr 0 in
          if read < 0 \<or> nat read > unat n then rejectMalformedResponse p None
          else if read = 0 then State_Monad.return None
          else State_Monad.return (Some (take (nat read) out)))))))"

definition WriteProcessMemoryDetailed ::
    "'e SocketOs \<Rightarrow> u64 \<Rightarrow> bytes \<Rightarrow> PortType \<Rightarrow> ('e, MemoryWriteIoResult) client" where
  "WriteProcessMemoryDetailed os address data p =
     (let result = \<lambda>started received n.
        \<lparr>mio_requestStarted = started, mio_responseReceived = received, mio_writtenBytes = n\<rparr> in
      if data = [] \<or> length data > unat UINT32_MAX \<or> \<not> isValidReadSize (of_nat (length data))
      then State_Monad.return (result False False 0)
      else execute os p (result False False 0) (\<lambda>handle.
        send_or os p
          (CMD_WRITEPROCESSMEMORY # i32_bytes handle @ u64_bytes address @
           u32_bytes (of_nat (length data))) (result False False 0)
        (send_or os p data (result True False 0)
        (recv_or os p 4 (result True False 0) (\<lambda>output.
          let written = i32_at output 0 in
          if written < 0 \<or> nat written > length data
          then rejectMalformedResponse p (result True True written)
          else State_Monad.return (result True True written))))))"

fun requestedSizeOf :: "u64 \<Rightarrow> (u64 \<times> int) list \<Rightarrow> u32 \<Rightarrow> u32" where
  "requestedSizeOf addr [] best = best"
| "requestedSizeOf addr ((a, n) # rest) best =
     requestedSizeOf addr rest (if a = addr then max best (of_int n) else best)"

fun recvBatchItems ::
    "'e SocketOs \<Rightarrow> PortType \<Rightarrow> (u64 \<times> int) list \<Rightarrow> nat \<Rightarrow> (u64 \<times> bytes) list \<Rightarrow>
       ('e, (u64 \<times> bytes) list option) client" where
  "recvBatchItems os p addrs 0 items = State_Monad.return (Some items)"
| "recvBatchItems os p addrs (Suc i) items =
     recv_or os p 8 None (\<lambda>a.
     recv_or os p 4 None (\<lambda>l.
       let addr = u64_at a 0; vlen = u32_at l 0; requestedSize = requestedSizeOf addr addrs 0 in
       if requestedSize = 0 \<or> vlen > requestedSize then rejectMalformedResponse p None
       else if vlen > 0
       then recv_or os p (unat vlen) None (\<lambda>data.
              recvBatchItems os p addrs i (items @ [(addr, data)]))
       else recvBatchItems os p addrs i (items @ [(addr, [])])))"

definition ReadBratchAddr ::
    "'e SocketOs \<Rightarrow> (u64 \<times> int) list \<Rightarrow> PortType \<Rightarrow> ('e, (u64 \<times> bytes) list option) client" where
  "ReadBratchAddr os addrs p =
     (if \<not> validateBatchReadAddresses addrs then State_Monad.return None
      else execute os p None (\<lambda>handle.
        sendCommandWithHandle os p CMD_READBRATCHADDR handle None
        (send_or os p (i32_bytes (int (length addrs))) None
        (send_or os p (concat (map (\<lambda>(a, n). u64_bytes a @ u32_bytes (of_int n)) addrs)) None
        (recv_or os p 4 None (\<lambda>r.
          let result = i32_at r 0 in
          if result < 0 \<or> result > int (length addrs) then rejectMalformedResponse p None
          else recvBatchItems os p addrs (nat result) []))))))"

section \<open>Server, driver and processes\<close>

definition isValidCount :: "int \<Rightarrow> int \<Rightarrow> bool" where
  "isValidCount v maxValue \<longleftrightarrow> v \<ge> 0 \<and> v \<le> maxValue"

definition GetMemType :: "'e SocketOs \<Rightarrow> PortType \<Rightarrow> ('e, int option) client" where
  "GetMemType os p = executeNoHandle os p None
     (send_or os p [CMD_GETMEMTYPE] None
     (recv_or os p 1 None (\<lambda>t.
       if t ! 0 > 4 then rejectMalformedResponse p None
       else State_Monad.return (Some (uint (t ! 0))))))"

definition FetchServerVersion :: "'e SocketOs \<Rightarrow> PortType \<Rightarrow> ('e, (int \<times> string) option) client" where
  "FetchServerVersion os p = executeNoHandle os p None
     (send_or os p [CMD_GETVERSION] None
     (recv_or os p 5 None (\<lambda>v.
       let version = i32_at v 0; stringsize = unat (v ! 4) in
       if stringsize > 0
       then recv_or os p stringsize None (\<lambda>s. State_Monad.return (Some (version, chars_of s)))
       else State_Monad.return (Some (version, [])))))"

definition parseTimestampMs :: "string \<Rightarrow> nat option" where
  "parseTimestampMs text =
     (let s = dropWhile isspace (takeWhile (\<lambda>c. of_char c \<noteq> (0 :: nat)) text);
          negative = (s \<noteq> [] \<and> hd s = CHR ''-'');
          s' = (if s \<noteq> [] \<and> (hd s = CHR ''-'' \<or> hd s = CHR ''+'') then tl s else s);
          digits = takeWhile isdigit s';
          v = dec_value digits;
          rest = dropWhile (\<lambda>c. c \<in> {CHR '' '', CHR 0x09, CHR 0x0D, CHR 0x0A}) (dropWhile isdigit s')
      in if digits = [] \<or> v \<ge> 2 ^ 64 \<or> rest \<noteq> [] then None
         else Some (if negative then (2 ^ 64 - v) mod 2 ^ 64 else v))"

definition driverMessage ::
    "'e SocketOs \<Rightarrow> string \<Rightarrow> ('e, string) client" where
  "driverMessage os response =
     (case parseTimestampMs response of
        None \<Rightarrow> State_Monad.return ''driver initialized; timestamp parse failed''
      | Some ms \<Rightarrow>
          if ms div 1000 = 0
          then State_Monad.return ''driver initialized; invalid timestamp''
          else do {
            t \<leftarrow> on_env (os_localtime os (ms div 1000));
            State_Monad.return (case t of
              None \<Rightarrow> ''driver initialized; timestamp formatting failed''
            | Some dateTime \<Rightarrow> dateTime) })"

definition InitDriverTracked ::
    "'e SocketOs \<Rightarrow> string \<Rightarrow> PortType \<Rightarrow> ('e, DriverInitializationIoResult) client" where
  "InitDriverTracked os cardName p =
     (let none = \<lparr>dio_requestStarted = False, dio_responseReceived = False, dio_accepted = False,
                  dio_message = ''''\<rparr>;
          started = none\<lparr>dio_requestStarted := True\<rparr> in
      if cardName = [] \<or> length cardName > 4096
      then State_Monad.return (none\<lparr>dio_message := ''invalid driver cardName length''\<rparr>)
      else do {
        (result, response) \<leftarrow> executeNoHandle os p (none, [])
          (send_or os p [CMD_INITRWDRIVER] (started, [])
          (send_or os p (i32_bytes (int (length cardName))) (started, [])
          (send_or os p (bytes_of cardName) (started, [])
          (recv_or os p 4 (started, []) (\<lambda>r.
          recv_or os p 4 (started, []) (\<lambda>l.
            let serverResult = i32_at r 0; responseLength = i32_at l 0 in
            if \<not> isValidCount responseLength 65536 then rejectMalformedResponse p (started, [])
            else
              let received = \<lambda>body. State_Monad.return
                (started\<lparr>dio_responseReceived := True, dio_accepted := (serverResult > 0)\<rparr>, body)
              in if responseLength > 0
                 then recv_or os p (nat responseLength) (started, []) received
                 else received []))))));
        if \<not> dio_responseReceived result then State_Monad.return result
        else if \<not> dio_accepted result
        then State_Monad.return (result\<lparr>dio_message := chars_of response\<rparr>)
        else do {
          message \<leftarrow> driverMessage os (chars_of response);
          State_Monad.return (result\<lparr>dio_message := message\<rparr>) }})"

definition SetKernelBreakpointForceReclaim ::
    "'e SocketOs \<Rightarrow> bool \<Rightarrow> PortType \<Rightarrow> ('e, KernelBreakpointReclaimIoResult) client" where
  "SetKernelBreakpointForceReclaim os enabled p =
     (let result = \<lambda>started received applied.
        \<lparr>rio_requestStarted = started, rio_responseReceived = received, rio_applied = applied\<rparr> in
      executeNoHandle os p (result False False False)
        (send_or os p [CMD_SETKERNELHWBPRECLAIM] (result True False False)
        (send_or os p [if enabled then 1 else 0] (result True False False)
        (recv_or os p 4 (result True False False) (\<lambda>r.
          State_Monad.return (result True True (i32_at r 0 \<noteq> 0)))))))"

fun recvProcesses ::
    "'e SocketOs \<Rightarrow> PortType \<Rightarrow> nat \<Rightarrow> nat \<Rightarrow> (int \<times> string) list \<Rightarrow>
       ('e, (int \<times> string) list option) client" where
  "recvProcesses os p 0 totalNameBytes items = State_Monad.return (Some items)"
| "recvProcesses os p (Suc i) totalNameBytes items =
     recv_or os p 8 None (\<lambda>proc.
       let pid = i32_at proc 0; n = i32_at proc 4 in
       if \<not> isValidCount n 65536 \<or> totalNameBytes > 67108864 - nat n
       then rejectMalformedResponse p None
       else if n > 0
       then recv_or os p (nat n) None (\<lambda>name.
              recvProcesses os p i (totalNameBytes + nat n) (items @ [(pid, chars_of name)]))
       else recvProcesses os p i (totalNameBytes + nat n) (items @ [(pid, [])]))"

definition FetchProcessList :: "'e SocketOs \<Rightarrow> PortType \<Rightarrow> ('e, (int \<times> string) list option) client" where
  "FetchProcessList os p = executeNoHandle os p None
     (send_or os p [CMD_GETPROCESSLIST] None
     (recv_or os p 4 None (\<lambda>l.
       let len = i32_at l 0 in
       if \<not> isValidCount len 65536 then rejectMalformedResponse p None
       else recvProcesses os p (nat len) 0 [])))"

fun recvModules ::
    "'e SocketOs \<Rightarrow> PortType \<Rightarrow> nat \<Rightarrow> nat \<Rightarrow> ModuleInfo list \<Rightarrow>
       ('e, ModuleInfo list option) client" where
  "recvModules os p 0 totalNameBytes items = State_Monad.return (Some items)"
| "recvModules os p (Suc i) totalNameBytes items =
     recv_or os p 24 None (\<lambda>entry.
       let moduleSize = (ucast (u32_at entry 16) :: u64); n = i32_at entry 20;
           item = (\<lambda>name. \<lparr>mi_base = u64_at entry 8, mi_size = moduleSize, mi_type = i32_at entry 0,
                     mi_flag = i32_at entry 4, mi_name = name\<rparr>) in
       if moduleSize = 0 \<or> \<not> isValidCount n 65536 \<or> totalNameBytes > 67108864 - nat n
       then rejectMalformedResponse p None
       else if n > 0
       then recv_or os p (nat n) None (\<lambda>name.
              recvModules os p i (totalNameBytes + nat n) (items @ [item (chars_of name)]))
       else recvModules os p i (totalNameBytes + nat n) (items @ [item []]))"

definition FetchModuleList :: "'e SocketOs \<Rightarrow> PortType \<Rightarrow> ('e, ModuleInfo list option) client" where
  "FetchModuleList os p = execute os p None (\<lambda>handle.
     sendCommandWithHandle os p CMD_GETMODULELIST handle None
     (recv_or os p 4 None (\<lambda>l.
       let len = i32_at l 0 in
       if \<not> isValidCount len 65536 then rejectMalformedResponse p None
       else recvModules os p (nat len) 0 [])))"

definition OpenProcessHandle :: "'e SocketOs \<Rightarrow> int \<Rightarrow> PortType \<Rightarrow> ('e, int option) client" where
  "OpenProcessHandle os pid p = do {
     lease \<leftarrow> acquireLease;
     if \<not> rl_valid lease then State_Monad.return None
     else ExecuteRequestWithLock os p lease None
       (send_or os p (CMD_OPENPROCESS # i32_bytes pid) None
       (recv_or os p 4 None (\<lambda>h.
         let handle = i32_at h 0 in
         State_Monad.return (if handle = 0 then None else Some handle)))) }"

definition CloseProcessHandle :: "'e SocketOs \<Rightarrow> int \<Rightarrow> PortType \<Rightarrow> ('e, bool) client" where
  "CloseProcessHandle os handle p =
     (if handle = 0 then State_Monad.return True
      else do {
        lease \<leftarrow> acquireLease;
        if \<not> rl_valid lease then State_Monad.return False
        else ExecuteRequestWithLock os p lease False
          (send_or os p [CMD_CLOSEHANDLE] False
          (send_or os p (i32_bytes handle) False
          (recv_or os p 4 False (\<lambda>r. State_Monad.return (i32_at r 0 \<noteq> 0))))) })"

section \<open>Hardware breakpoints\<close>

definition isValidBreakpointType :: "u32 \<Rightarrow> bool" where
  "isValidBreakpointType bpType \<longleftrightarrow> bpType \<ge> 1 \<and> bpType \<le> 4"

definition isValidBreakpointSize :: "u32 \<Rightarrow> bool" where
  "isValidBreakpointSize bpSize \<longleftrightarrow> bpSize = 1 \<or> bpSize = 2 \<or> bpSize = 4 \<or> bpSize = 8"

definition trackBreakpointAddress :: "u64 \<Rightarrow> ('e, unit) client" where
  "trackBreakpointAddress a = put_world (\<lambda>w.
     if a \<in> set (cw_tracked w) then w else w\<lparr>cw_tracked := cw_tracked w @ [a]\<rparr>)"

definition untrackBreakpointAddress :: "u64 \<Rightarrow> ('e, unit) client" where
  "untrackBreakpointAddress a = put_world (\<lambda>w. w\<lparr>cw_tracked := removeAll a (cw_tracked w)\<rparr>)"

definition clearTrackedBreakpointAddresses :: "('e, unit) client" where
  "clearTrackedBreakpointAddresses = put_world (\<lambda>w. w\<lparr>cw_tracked := []\<rparr>)"

definition mutateBreakpointTracked ::
    "'e SocketOs \<Rightarrow> u8 \<Rightarrow> PortType \<Rightarrow> bytes \<Rightarrow> ('e, BreakpointMutationIoResult) client" where
  "mutateBreakpointTracked os command p payload =
     (let result = \<lambda>started received applied.
        \<lparr>bio_requestStarted = started, bio_responseReceived = received, bio_applied = applied\<rparr> in
      execute os p (result False False False) (\<lambda>handle.
        sendCommandWithHandle os p command handle (result False False False)
        (send_or os p payload (result True False False)
        (recv_or os p 4 (result True False False) (\<lambda>r.
          State_Monad.return (result True True (i32_at r 0 > 0)))))))"

definition SetKernelBreakpointTracked ::
    "'e SocketOs \<Rightarrow> u64 \<Rightarrow> u32 \<Rightarrow> u32 \<Rightarrow> PortType \<Rightarrow> ('e, BreakpointMutationIoResult) client" where
  "SetKernelBreakpointTracked os address bpType bpSize p =
     (if \<not> isValidBreakpointType bpType \<or> \<not> isValidBreakpointSize bpSize
      then State_Monad.return
        \<lparr>bio_requestStarted = False, bio_responseReceived = False, bio_applied = False\<rparr>
      else do {
        result \<leftarrow> mutateBreakpointTracked os CMD_KERNEL_SETBREAKPOINT p
          (u64_bytes address @ u32_bytes bpType @ u32_bytes bpSize);
        (if bio_responseReceived result \<and> bio_applied result
         then trackBreakpointAddress address else State_Monad.return ());
        State_Monad.return result })"

definition RemoveKernelBreakpointTracked ::
    "'e SocketOs \<Rightarrow> u64 \<Rightarrow> PortType \<Rightarrow> ('e, BreakpointMutationIoResult) client" where
  "RemoveKernelBreakpointTracked os address p = do {
     result \<leftarrow> mutateBreakpointTracked os CMD_KERNEL_REMOVEBREAKPOINT p (u64_bytes address);
     (if bio_responseReceived result \<and> bio_applied result
      then untrackBreakpointAddress address else State_Monad.return ());
     State_Monad.return result }"

definition SuspendKernelBreakpointTracked ::
    "'e SocketOs \<Rightarrow> u64 \<Rightarrow> PortType \<Rightarrow> ('e, BreakpointMutationIoResult) client" where
  "SuspendKernelBreakpointTracked os address p =
     mutateBreakpointTracked os CMD_KERNEL_SUSPENDBREAKPOINT p (u64_bytes address)"

definition ResumeKernelBreakpointTracked ::
    "'e SocketOs \<Rightarrow> u64 \<Rightarrow> PortType \<Rightarrow> ('e, BreakpointMutationIoResult) client" where
  "ResumeKernelBreakpointTracked os address p =
     mutateBreakpointTracked os CMD_KERNEL_RESUMEBREAKPOINT p (u64_bytes address)"

fun removeAllTracked :: "'e SocketOs \<Rightarrow> PortType \<Rightarrow> u64 list \<Rightarrow> bool \<Rightarrow> ('e, bool) client" where
  "removeAllTracked os p [] allRemoved = State_Monad.return allRemoved"
| "removeAllTracked os p (a # rest) allRemoved = do {
     r \<leftarrow> RemoveKernelBreakpointTracked os a p;
     removeAllTracked os p rest (allRemoved \<and> bio_responseReceived r \<and> bio_applied r) }"

definition ClearTrackedKernelBreakpoints :: "'e SocketOs \<Rightarrow> PortType \<Rightarrow> ('e, bool) client" where
  "ClearTrackedKernelBreakpoints os p = do {
     l \<leftarrow> TransactionLease os p;
     current \<leftarrow> leaseCurrent l;
     if \<not> current
     then do { clearTrackedBreakpointAddresses; State_Monad.return False }
     else do {
       addresses \<leftarrow> get_world cw_tracked;
       allRemoved \<leftarrow> removeAllTracked os p addresses True;
       clearTrackedBreakpointAddresses;
       State_Monad.return allRemoved }}"

text \<open>The hits are returned as the raw structs of 304 bytes each.\<close>

definition ReadKernelBreakpointInfo ::
    "'e SocketOs \<Rightarrow> u64 \<Rightarrow> PortType \<Rightarrow> ('e, (bytes list \<times> u64) option) client" where
  "ReadKernelBreakpointInfo os address p = execute os p None (\<lambda>handle.
     sendCommandWithHandle os p CMD_KERNEL_READHWBPINFO handle None
     (send_or os p (u64_bytes address) None
     (recv_or os p 4 None (\<lambda>r.
     recv_or os p 8 None (\<lambda>c.
       let result = i32_at r 0; totalCount = u64_at c 0 in
       if result < 0 \<or> result > 100000 \<or> nat result > unat totalCount
       then rejectMalformedResponse p None
       else if result > 0
       then recv_or os p (nat result * 304) None (\<lambda>infos.
              State_Monad.return (Some
                (map (\<lambda>i. take 304 (drop (i * 304) infos)) [0..<nat result], totalCount)))
       else State_Monad.return (Some ([], totalCount)))))))"

definition decodeSlot :: "bytes \<Rightarrow> BreakpointSlot" where
  "decodeSlot e = \<lparr>bs_eventId = u64_at e 0, bs_moduleHandle = u64_at e 8, bs_address = u64_at e 16,
     bs_tid = i32_at e 24, bs_onCpu = i32_at e 28, bs_type = u32_at e 32, bs_length = u32_at e 36,
     bs_state = u32_at e 40, bs_source = u32_at e 44, bs_flags = u32_at e 48\<rparr>"

fun recvSlots ::
    "'e SocketOs \<Rightarrow> PortType \<Rightarrow> nat \<Rightarrow> BreakpointSlot list \<Rightarrow> ('e, BreakpointSlot list option) client" where
  "recvSlots os p 0 slots = State_Monad.return (Some slots)"
| "recvSlots os p (Suc i) slots =
     recv_or os p 56 None (\<lambda>e. recvSlots os p i (slots @ [decodeSlot e]))"

definition threadHeaderMalformed :: "u32 \<Rightarrow> bytes \<Rightarrow> bool" where
  "threadHeaderMalformed capacity h \<longleftrightarrow>
     (let tid = i32_at h 0; queryResult = i32_at h 4; errorCode = i32_at h 8;
          n = u32_at h 12; totalCount = u32_at h 16 in
      (queryResult \<noteq> 0 \<and> queryResult \<noteq> 1) \<or> tid \<le> 0 \<or> n > capacity \<or> n > 64 \<or>
      totalCount < n \<or> (queryResult \<noteq> 0 \<and> errorCode \<noteq> 0) \<or>
      (queryResult = 0 \<and> errorCode \<le> 0))"

definition decodeThread :: "bytes \<Rightarrow> BreakpointSlot list \<Rightarrow> BreakpointThreadSlots" where
  "decodeThread h slots = \<lparr>bt_tid = i32_at h 0, bt_querySucceeded = (i32_at h 4 \<noteq> 0),
     bt_errorCode = i32_at h 8, bt_count = u32_at h 12, bt_totalCount = u32_at h 16,
     bt_brpCount = u32_at h 20, bt_wrpCount = u32_at h 24, bt_enabledCount = u32_at h 28,
     bt_activeCount = u32_at h 32, bt_perfCount = u32_at h 36, bt_ptraceCount = u32_at h 40,
     bt_moduleCount = u32_at h 44, bt_slots = slots\<rparr>"

fun recvThreads ::
    "'e SocketOs \<Rightarrow> PortType \<Rightarrow> u32 \<Rightarrow> nat \<Rightarrow> BreakpointThreadSlots list \<Rightarrow>
       ('e, BreakpointThreadSlots list option) client" where
  "recvThreads os p capacity 0 threads = State_Monad.return (Some threads)"
| "recvThreads os p capacity (Suc i) threads =
     recv_or os p 48 None (\<lambda>h.
       if threadHeaderMalformed capacity h then rejectMalformedResponse p None
       else if i32_at h 4 = 0 \<and> u32_at h 12 \<noteq> 0 then rejectMalformedResponse p None
       else do {
         slots \<leftarrow> recvSlots os p (unat (u32_at h 12)) [];
         case slots of
           None \<Rightarrow> State_Monad.return None
         | Some ss \<Rightarrow> recvThreads os p capacity i (threads @ [decodeThread h ss]) })"

definition QueryKernelBreakpointThreads ::
    "'e SocketOs \<Rightarrow> u32 \<Rightarrow> PortType \<Rightarrow> ('e, BreakpointThreadSlots list option) client" where
  "QueryKernelBreakpointThreads os capacity p =
     (if capacity = 0 \<or> capacity > 64 then State_Monad.return None
      else execute os p None (\<lambda>handle.
        sendCommandWithHandle os p CMD_KERNEL_QUERYHWBPTHREADS handle None
        (send_or os p (u32_bytes capacity) None
        (recv_or os p 4 None (\<lambda>r.
        recv_or os p 4 None (\<lambda>c.
          let result = i32_at r 0; threadCount = u32_at c 0 in
          if (result \<noteq> 0 \<and> result \<noteq> 1) \<or> (result = 0 \<and> threadCount \<noteq> 0)
          then rejectMalformedResponse p None
          else if result = 0 then State_Monad.return None
          else if threadCount > 65536 then rejectMalformedResponse p None
          else recvThreads os p capacity (unat threadCount) []))))))"

section \<open>UXN breakpoints\<close>

definition uxnIo :: "bool \<Rightarrow> bool \<Rightarrow> bool \<Rightarrow> int \<Rightarrow> UxnOperationIoResult" where
  "uxnIo started received applied errorCode =
     \<lparr>uio_requestStarted = started, uio_responseReceived = received, uio_applied = applied,
      uio_errorCode = errorCode\<rparr>"

text \<open>
  \<open>receiveResult\<close> after the request has been sent; \<open>k\<close> continues with the result when the
  function returns \<open>true\<close>. \<open>payload\<close> is the zero-initialised output struct.
\<close>

definition receiveResult ::
    "'e SocketOs \<Rightarrow> PortType \<Rightarrow> bytes \<Rightarrow>
       (UxnOperationIoResult \<Rightarrow> ('e, UxnOperationIoResult \<times> bytes) client) \<Rightarrow>
       ('e, UxnOperationIoResult \<times> bytes) client" where
  "receiveResult os p payload k =
     recv_or os p 8 (uxnIo True False False 0, payload) (\<lambda>wire.
       let result = i32_at wire 0; errorCode = i32_at wire 4 in
       if (result \<noteq> 0 \<and> result \<noteq> 1) \<or> (result = 1 \<and> errorCode \<noteq> 0) \<or>
          (result = 0 \<and> errorCode \<le> 0)
       then rejectMalformedResponse p (uxnIo True True False 0, payload)
       else k (uxnIo True True (result = 1) errorCode))"

definition receiveResultWithPayload ::
    "'e SocketOs \<Rightarrow> PortType \<Rightarrow> nat \<Rightarrow> ('e, UxnOperationIoResult \<times> bytes) client" where
  "receiveResultWithPayload os p n =
     receiveResult os p (replicate n 0) (\<lambda>io.
       recv_or os p n (io, replicate n 0) (\<lambda>payload. State_Monad.return (io, payload)))"

definition InstallUxnBreakpointTracked ::
    "'e SocketOs \<Rightarrow> u64 \<Rightarrow> u32 \<Rightarrow> PortType \<Rightarrow> ('e, UxnOperationIoResult \<times> bytes) client" where
  "InstallUxnBreakpointTracked os address flags p =
     (let zero = replicate 24 0 in
      execute os p (uxnIo False False False 0, zero) (\<lambda>handle.
        sendCommandWithHandle os p CMD_KERNEL_UXN_INSTALL handle (uxnIo False False False 0, zero)
        (send_or os p (u64_bytes address @ u32_bytes flags) (uxnIo True False False 0, zero)
        (receiveResultWithPayload os p 24))))"

definition RemoveUxnBreakpointTracked ::
    "'e SocketOs \<Rightarrow> u64 \<Rightarrow> PortType \<Rightarrow> ('e, UxnOperationIoResult \<times> bytes) client" where
  "RemoveUxnBreakpointTracked os address p =
     execute os p (uxnIo False False False 0, []) (\<lambda>handle.
       sendCommandWithHandle os p CMD_KERNEL_UXN_REMOVE handle (uxnIo False False False 0, [])
       (send_or os p (u64_bytes address) (uxnIo True False False 0, [])
       (receiveResult os p [] (\<lambda>io. State_Monad.return (io, [])))))"

definition WaitUxnBreakpointTracked ::
    "'e SocketOs \<Rightarrow> u32 \<Rightarrow> u32 \<Rightarrow> u64 \<Rightarrow> PortType \<Rightarrow> ('e, UxnOperationIoResult \<times> bytes) client" where
  "WaitUxnBreakpointTracked os slot timeoutMs lastSequence p =
     (let zero = replicate 880 0 in
      if timeoutMs = 0 \<or> timeoutMs > 60000 \<or> (slot \<noteq> UINT32_MAX \<and> slot \<ge> 16)
      then State_Monad.return (uxnIo False False False 0, zero)
      else execute os p (uxnIo False False False 0, zero) (\<lambda>_.
        send_or os p [CMD_KERNEL_UXN_WAIT] (uxnIo False False False 0, zero)
        (send_or os p (u32_bytes slot @ u32_bytes timeoutMs @ u64_bytes lastSequence)
           (uxnIo True False False 0, zero)
        (receiveResultWithPayload os p 880))))"

definition ResumeUxnBreakpointTracked ::
    "'e SocketOs \<Rightarrow> bytes \<Rightarrow> PortType \<Rightarrow> ('e, UxnOperationIoResult \<times> bytes) client" where
  "ResumeUxnBreakpointTracked os request p =
     execute os p (uxnIo False False False 0, []) (\<lambda>_.
       send_or os p [CMD_KERNEL_UXN_RESUME] (uxnIo False False False 0, [])
       (send_or os p request (uxnIo True False False 0, [])
       (receiveResult os p [] (\<lambda>io. State_Monad.return (io, [])))))"

definition QueryUxnBreakpointStatusTracked ::
    "'e SocketOs \<Rightarrow> u32 \<Rightarrow> PortType \<Rightarrow> ('e, UxnOperationIoResult \<times> bytes) client" where
  "QueryUxnBreakpointStatusTracked os slot p =
     (let zero = replicate 80 0 in
      execute os p (uxnIo False False False 0, zero) (\<lambda>_.
        send_or os p [CMD_KERNEL_UXN_STATUS] (uxnIo False False False 0, zero)
        (send_or os p (u32_bytes slot) (uxnIo True False False 0, zero)
        (receiveResultWithPayload os p 80))))"

definition ClearUxnBreakpointsTracked ::
    "'e SocketOs \<Rightarrow> PortType \<Rightarrow> ('e, UxnOperationIoResult \<times> bytes) client" where
  "ClearUxnBreakpointsTracked os p =
     executeNoHandle os p (uxnIo False False False 0, [])
       (send_or os p [CMD_KERNEL_UXN_CLEAR] (uxnIo True False False 0, [])
       (receiveResult os p [] (\<lambda>io. State_Monad.return (io, []))))"

section \<open>Symbols\<close>

definition SymbolInit :: "'e SocketOs \<Rightarrow> u64 \<Rightarrow> PortType \<Rightarrow> ('e, int option) client" where
  "SymbolInit os moduleBase p = execute os p None (\<lambda>handle.
     send_or os p [CMD_SYMBOL_INIT] None
     (send_or os p (i32_bytes handle @ u64_bytes moduleBase) None
     (recv_or os p 8 None (\<lambda>out.
       let result = i32_at out 0; totalCount = i32_at out 4 in
       if \<not> isValidCount totalCount 1000000 then rejectMalformedResponse p None
       else State_Monad.return (if result = 0 then Some totalCount else None)))))"

fun recvSymbols ::
    "'e SocketOs \<Rightarrow> PortType \<Rightarrow> nat \<Rightarrow> SymbolInfo list \<Rightarrow> ('e, SymbolInfo list option) client" where
  "recvSymbols os p 0 symbols = State_Monad.return (Some symbols)"
| "recvSymbols os p (Suc i) symbols =
     recv_or os p 12 None (\<lambda>entry.
       let address = u64_at entry 0; n = i32_at entry 8 in
       if \<not> isValidCount n 65536 then rejectMalformedResponse p None
       else if n > 0
       then recv_or os p (nat n) None (\<lambda>name.
              recvSymbols os p i (symbols @ [\<lparr>si_address = address, si_name = chars_of name\<rparr>]))
       else recvSymbols os p i (symbols @ [\<lparr>si_address = address, si_name = []\<rparr>]))"

definition SymbolGetList ::
    "'e SocketOs \<Rightarrow> int \<Rightarrow> int \<Rightarrow> PortType \<Rightarrow> ('e, (SymbolInfo list \<times> int) option) client" where
  "SymbolGetList os off n p =
     (if off < 0 \<or> n < 0 \<or> n > 1000 then State_Monad.return None
      else execute os p None (\<lambda>_.
        send_or os p [CMD_SYMBOL_GETLIST] None
        (send_or os p (i32_bytes off @ i32_bytes n) None
        (recv_or os p 8 None (\<lambda>out.
          let totalCount = i32_at out 0; actualCount = i32_at out 4 in
          if \<not> isValidCount totalCount 1000000 \<or> actualCount < 0 \<or> actualCount > n
          then rejectMalformedResponse p None
          else do {
            symbols \<leftarrow> recvSymbols os p (nat actualCount) [];
            State_Monad.return (case symbols of
              None \<Rightarrow> None | Some ss \<Rightarrow> Some (ss, totalCount)) })))))"

definition SymbolFind ::
    "'e SocketOs \<Rightarrow> u64 \<Rightarrow> string \<Rightarrow> PortType \<Rightarrow> ('e, u64 option) client" where
  "SymbolFind os moduleBase name p =
     (if name = [] \<or> length name > 65536 then State_Monad.return None
      else execute os p None (\<lambda>handle.
        send_or os p [CMD_SYMBOL_FIND] None
        (send_or os p (i32_bytes handle @ u64_bytes moduleBase @ i32_bytes (int (length name))) None
        (send_or os p (bytes_of name) None
        (recv_or os p 12 None (\<lambda>out.
          State_Monad.return (if i32_at out 0 = 0 then Some (u64_at out 4) else None)))))))"

end
