(* ===== verification/SocketContract.thy ===== *)
theory SocketContract
  imports SocketCommands
begin

text \<open>
  What the commands put on the wire. \<open>sends p acc Q m\<close> is a rule-based account of a computation on port
  \<open>p\<close>: it may only append to the stream of \<open>p\<close>, may only close ports and poison the session, and
  when it ends, with the bytes \<open>acc\<close> that the command had sent before and those that \<open>m\<close> has added,
  \<open>Q\<close> holds of its result, of all these bytes and of whether the port is still open. The rules
  follow the statements of the sources. With them each command is shown to keep an open stream
  a sequence of complete requests, and to have handed over no request when its result says that
  it had not started.
\<close>

section \<open>Sending and receiving\<close>

lemma run_world_simps [simp]:
  "run_state (get_world f) w = (f w, w)"
  "run_state (put_world g) w = ((), g w)"
  by (simp_all add: get_world_def put_world_def)

lemma on_envE:
  assumes "run_state (on_env m) w = (a, w')"
  obtains e where "w' = w\<lparr>cw_env := e\<rparr>"
  using assms by (auto simp: on_env_def split: prod.splits)

lemma run_PoisonAndClose [simp]:
  "run_state (PoisonAndClose p) w =
     ((), w\<lparr>cw_session := MarkPoisoned (cw_session w), cw_open := (cw_open w)(p := False)\<rparr>)"
  by (simp add: PoisonAndClose_def)

lemma sendLoop_spec:
  assumes "run_state (sendLoop os p data) w = (ok, w')"
  shows "\<exists>t u e. data = t @ u \<and>
    (if ok
     then u = [] \<and> w' = w\<lparr>cw_env := e, cw_stream := (cw_stream w)(p := cw_stream w p @ t)\<rparr>
     else u \<noteq> [] \<and> w' = w\<lparr>cw_env := e, cw_stream := (cw_stream w)(p := cw_stream w p @ t),
       cw_session := MarkPoisoned (cw_session w), cw_open := (cw_open w)(p := False)\<rparr>)"
  using assms
proof (induction os p data arbitrary: w rule: sendLoop.induct)
  case (1 os p data)
  show ?case
  proof (cases "data = []")
    case True
    with "1.prems" sendLoop.simps [of os p data] show ?thesis
      by (auto intro!: exI [of _ "cw_env w"])
  next
    case False
    from "1.prems" False obtain sent w1 where s: "run_state (on_env (os_send os p data)) w = (sent, w1)"
      and rest: "run_state (if sent \<le> 0 then do { PoisonAndClose p; State_Monad.return False }
        else do { acceptBytes p (take (nat sent) data); sendLoop os p (drop (nat sent) data) }) w1 = (ok, w')"
      unfolding sendLoop.simps [of os p data] by (auto elim: run_bindE simp del: run_state_bind)
    from s obtain e1 where w1: "w1 = w\<lparr>cw_env := e1\<rparr>" by (rule on_envE)
    show ?thesis
    proof (cases "sent \<le> 0")
      case True
      with rest w1 False show ?thesis
        by (intro exI [of _ "[]"] exI [of _ data] exI [of _ e1]) auto
    next
      case sent: False
      let ?w = "w1\<lparr>cw_stream := (cw_stream w1)(p := cw_stream w1 p @ take (nat sent) data)\<rparr>"
      from rest sent have "run_state (sendLoop os p (drop (nat sent) data)) ?w = (ok, w')"
        by (simp add: acceptBytes_def run_bind_iff)
      from "1.IH" [OF False sent this] obtain t u e where
        "drop (nat sent) data = t @ u" and
        "if ok then u = [] \<and> w' = ?w\<lparr>cw_env := e, cw_stream := (cw_stream ?w)(p := cw_stream ?w p @ t)\<rparr>
         else u \<noteq> [] \<and> w' = ?w\<lparr>cw_env := e, cw_stream := (cw_stream ?w)(p := cw_stream ?w p @ t),
           cw_session := MarkPoisoned (cw_session ?w), cw_open := (cw_open ?w)(p := False)\<rparr>"
        by blast
      moreover from this(1) have "data = (take (nat sent) data @ t) @ u"
        by (metis append.assoc append_take_drop_id)
      ultimately show ?thesis using w1
        by (intro exI [of _ "take (nat sent) data @ t"] exI [of _ u] exI [of _ e]) (auto split: if_splits)
    qed
  qed
qed

lemma recvLoop_spec:
  assumes "run_state (recvLoop os p n acc) w = (r, w')"
  shows "\<exists>e. case r of
      Some bs \<Rightarrow> length bs = length acc + n \<and> w' = w\<lparr>cw_env := e\<rparr>
    | None \<Rightarrow> w' = w\<lparr>cw_env := e, cw_session := MarkPoisoned (cw_session w),
        cw_open := (cw_open w)(p := False)\<rparr>"
  using assms
proof (induction os p n acc arbitrary: w rule: recvLoop.induct)
  case (1 os p n acc)
  show ?case
  proof (cases "n = 0")
    case True
    with "1.prems" recvLoop.simps [of os p n acc] show ?thesis
      by (auto intro!: exI [of _ "cw_env w"])
  next
    case False
    from "1.prems" False obtain rc w1 where s: "run_state (on_env (os_recv os p n)) w = (rc, w1)"
      and rest: "run_state (case rc of
          None \<Rightarrow> do { PoisonAndClose p; State_Monad.return None }
        | Some bs \<Rightarrow> if bs = [] then do { PoisonAndClose p; State_Monad.return None }
            else recvLoop os p (n - length bs) (acc @ take n bs)) w1 = (r, w')"
      unfolding recvLoop.simps [of os p n acc] by (auto elim: run_bindE simp del: run_state_bind)
    from s obtain e1 where w1: "w1 = w\<lparr>cw_env := e1\<rparr>" by (rule on_envE)
    show ?thesis
    proof (cases "rc = None \<or> rc = Some []")
      case True
      with rest w1 show ?thesis by (auto simp: run_bind_iff)
    next
      case more: False
      then obtain bs where bs: "rc = Some bs" "bs \<noteq> []" by auto
      with rest have "run_state (recvLoop os p (n - length bs) (acc @ take n bs)) w1 = (r, w')" by simp
      from "1.IH" [OF False bs(2) this] w1 show ?thesis by (cases r) auto
    qed
  qed
qed

section \<open>The account of a computation\<close>

named_theorems sends_intros

definition sends ::
    "PortType \<Rightarrow> bytes \<Rightarrow> ('a \<Rightarrow> bytes \<Rightarrow> bool \<Rightarrow> bool) \<Rightarrow> ('e, 'a) client \<Rightarrow> bool" where
  "sends p acc Q m \<longleftrightarrow> (\<forall>w r w'. run_state m w = (r, w') \<longrightarrow>
     cw_delivered w' = cw_delivered w \<and> (\<forall>q. cw_open w' q \<longrightarrow> cw_open w q) \<and>
     (\<forall>q. q \<noteq> p \<longrightarrow> cw_stream w' q = cw_stream w q) \<and>
     (\<exists>t. cw_stream w' p = cw_stream w p @ t \<and> (\<not> cw_open w p \<longrightarrow> t = []) \<and>
        Q r (acc @ t) (cw_open w' p)))"

lemma sendsI:
  assumes "\<And>w r w'. run_state m w = (r, w') \<Longrightarrow> cw_delivered w' = cw_delivered w"
    "\<And>w r w' q. run_state m w = (r, w') \<Longrightarrow> cw_open w' q \<Longrightarrow> cw_open w q"
    "\<And>w r w' q. run_state m w = (r, w') \<Longrightarrow> q \<noteq> p \<Longrightarrow> cw_stream w' q = cw_stream w q"
    "\<And>w r w'. run_state m w = (r, w') \<Longrightarrow>
       \<exists>t. cw_stream w' p = cw_stream w p @ t \<and> (\<not> cw_open w p \<longrightarrow> t = []) \<and> Q r (acc @ t) (cw_open w' p)"
  shows "sends p acc Q m"
  unfolding sends_def using assms by blast

lemma sendsD:
  assumes "sends p acc Q m" "run_state m w = (r, w')"
  shows "cw_delivered w' = cw_delivered w" "cw_open w' q \<Longrightarrow> cw_open w q"
    "q \<noteq> p \<Longrightarrow> cw_stream w' q = cw_stream w q"
    "\<exists>t. cw_stream w' p = cw_stream w p @ t \<and> (\<not> cw_open w p \<longrightarrow> t = []) \<and> Q r (acc @ t) (cw_open w' p)"
  using assms unfolding sends_def by blast+

lemma sends_return:
  "(\<And>op. Q a acc op) \<Longrightarrow> sends p acc Q (State_Monad.return a)"
  by (auto simp: sends_def)

lemma sends_if [sends_intros]:
  "(b \<Longrightarrow> sends p acc Q m) \<Longrightarrow> (\<not> b \<Longrightarrow> sends p acc Q n) \<Longrightarrow> sends p acc Q (if b then m else n)"
  by simp

lemma sends_let [sends_intros]: "sends p acc Q (g x) \<Longrightarrow> sends p acc Q (let y = x in g y)"
  by simp

lemma sends_case_option [sends_intros]:
  "(x = None \<Longrightarrow> sends p acc Q m) \<Longrightarrow> (\<And>a. x = Some a \<Longrightarrow> sends p acc Q (g a)) \<Longrightarrow>
     sends p acc Q (case x of None \<Rightarrow> m | Some a \<Rightarrow> g a)"
  by (cases x) auto

lemma sends_case_prod [sends_intros]:
  "(\<And>a b. x = (a, b) \<Longrightarrow> sends p acc Q (g a b)) \<Longrightarrow> sends p acc Q (case x of (a, b) \<Rightarrow> g a b)"
  by (cases x) auto

text \<open>After the first part of a sequence either the second part runs by itself, or it only returns.\<close>

lemma sends_bind_or_return:
  assumes m: "sends p acc R m"
    and f: "\<And>a t op. R a (acc @ t) op \<Longrightarrow>
      sends p (acc @ t) Q (f a) \<or> (\<exists>b. f a = State_Monad.return b \<and> Q b (acc @ t) op)"
  shows "sends p acc Q (State_Monad.bind m f)"
proof (rule sendsI)
  fix w r w' assume "run_state (State_Monad.bind m f) w = (r, w')"
  then obtain a w1 where 1: "run_state m w = (a, w1)" and 2: "run_state (f a) w1 = (r, w')"
    by (rule run_bindE)
  note ma = sendsD [OF m 1]
  from ma(4) obtain t where t: "cw_stream w1 p = cw_stream w p @ t"
    "\<not> cw_open w p \<longrightarrow> t = []" "R a (acc @ t) (cw_open w1 p)" by blast
  have fa: "cw_delivered w' = cw_delivered w1" "\<And>q. cw_open w' q \<Longrightarrow> cw_open w1 q"
    "\<And>q. q \<noteq> p \<Longrightarrow> cw_stream w' q = cw_stream w1 q"
    "\<exists>u. cw_stream w' p = cw_stream w1 p @ u \<and> (\<not> cw_open w1 p \<longrightarrow> u = []) \<and>
       Q r ((acc @ t) @ u) (cw_open w' p)"
    using f [OF t(3)] 2 by (auto dest: sendsD)
  show "cw_delivered w' = cw_delivered w" using fa(1) ma(1) by simp
  show "cw_open w q" if "cw_open w' q" for q using fa(2) ma(2) that by blast
  show "cw_stream w' q = cw_stream w q" if "q \<noteq> p" for q using fa(3) ma(3) that by simp
  from fa(4) obtain u where u: "cw_stream w' p = cw_stream w1 p @ u"
    "\<not> cw_open w1 p \<longrightarrow> u = []" "Q r ((acc @ t) @ u) (cw_open w' p)" by blast
  show "\<exists>t. cw_stream w' p = cw_stream w p @ t \<and> (\<not> cw_open w p \<longrightarrow> t = []) \<and>
      Q r (acc @ t) (cw_open w' p)"
    using t u ma(2) [of p] by (intro exI [of _ "t @ u"]) auto
qed

lemma sends_bind:
  assumes "sends p acc R m" "\<And>a t op. R a (acc @ t) op \<Longrightarrow> sends p (acc @ t) Q (f a)"
  shows "sends p acc Q (State_Monad.bind m f)"
  by (rule sends_bind_or_return [OF assms(1)]) (use assms(2) in blast)

lemma sends_Send:
  assumes "Q True (acc @ data) True" "Q True (acc @ data) False"
    and "\<And>t u. data = t @ u \<Longrightarrow> t = [] \<or> u \<noteq> [] \<Longrightarrow> Q False (acc @ t) False"
  shows "sends p acc Q (Send os p data)"
proof (rule sendsI)
  fix w r w' assume run: "run_state (Send os p data) w = (r, w')"
  have *: "(\<not> cw_open w p \<and> \<not> r \<and> w' = w) \<or> (cw_open w p \<and> run_state (sendLoop os p data) w = (r, w'))"
    using run by (auto simp: Send_def split: if_splits)
  then show "cw_delivered w' = cw_delivered w" by (auto dest!: sendLoop_spec split: if_splits)
  from * show "cw_open w q" if "cw_open w' q" for q
    using that by (auto dest!: sendLoop_spec split: if_splits)
  from * show "cw_stream w' q = cw_stream w q" if "q \<noteq> p" for q
    using that by (auto dest!: sendLoop_spec split: if_splits)
  from * show "\<exists>t. cw_stream w' p = cw_stream w p @ t \<and> (\<not> cw_open w p \<longrightarrow> t = []) \<and>
      Q r (acc @ t) (cw_open w' p)"
  proof (elim disjE conjE)
    assume "\<not> cw_open w p" "\<not> r" "w' = w"
    with assms(3) [of "[]"] show ?thesis by auto
  next
    assume "cw_open w p" "run_state (sendLoop os p data) w = (r, w')"
    with sendLoop_spec [OF this(2)] assms show ?thesis
      by (cases r) auto
  qed
qed

lemma sends_Receive:
  assumes "\<And>bs op. length bs = n \<Longrightarrow> Q (Some bs) acc op" "Q None acc False"
  shows "sends p acc Q (Receive os p n)"
proof (rule sendsI)
  fix w r w' assume run: "run_state (Receive os p n) w = (r, w')"
  have *: "(\<not> cw_open w p \<and> r = None \<and> w' = w) \<or> (cw_open w p \<and> run_state (recvLoop os p n []) w = (r, w'))"
    using run by (auto simp: Receive_def split: if_splits)
  then show "cw_delivered w' = cw_delivered w" by (auto dest!: recvLoop_spec split: option.splits)
  from * show "cw_open w q" if "cw_open w' q" for q
    using that by (auto dest!: recvLoop_spec split: option.splits if_splits)
  from * show "cw_stream w' q = cw_stream w q" if "q \<noteq> p" for q
    using that by (auto dest!: recvLoop_spec split: option.splits)
  from * show "\<exists>t. cw_stream w' p = cw_stream w p @ t \<and> (\<not> cw_open w p \<longrightarrow> t = []) \<and>
      Q r (acc @ t) (cw_open w' p)"
    using assms by (auto dest!: recvLoop_spec split: option.splits)
qed

section \<open>Framing\<close>

text \<open>
  Requests that change the device or the target: driver initialisation, process handles, memory
  writes and every breakpoint operation. \<open>quiet s\<close>: the server finds no such request in \<open>s\<close>.
\<close>

definition mutating :: "bytes \<Rightarrow> bool" where
  "mutating r \<longleftrightarrow> r \<noteq> [] \<and> hd r \<in> {CMD_INITRWDRIVER, CMD_OPENPROCESS, CMD_CLOSEHANDLE,
     CMD_WRITEPROCESSMEMORY, CMD_KERNEL_SETBREAKPOINT, CMD_KERNEL_REMOVEBREAKPOINT,
     CMD_KERNEL_SUSPENDBREAKPOINT, CMD_KERNEL_RESUMEBREAKPOINT, CMD_SETKERNELHWBPRECLAIM,
     CMD_KERNEL_UXN_INSTALL, CMD_KERNEL_UXN_REMOVE, CMD_KERNEL_UXN_RESUME, CMD_KERNEL_UXN_CLEAR}"

definition quiet :: "bytes \<Rightarrow> bool" where
  "quiet s \<longleftrightarrow> filter mutating (completeRequests s) = []"

text \<open>\<open>fits r\<close>: the bytes \<open>r\<close> are a part of one request; \<open>whole r\<close>: they are one request.\<close>

definition fits :: "bytes \<Rightarrow> bool" where
  "fits r \<longleftrightarrow> (\<forall>n. requestSize r = Some n \<longrightarrow> length r \<le> n)"

definition whole :: "bytes \<Rightarrow> bool" where
  "whole r \<longleftrightarrow> requestSize r = Some (length r)"

definition framed :: "('a \<Rightarrow> bool) \<Rightarrow> 'a \<Rightarrow> bytes \<Rightarrow> bool \<Rightarrow> bool" where
  "framed started r t op \<longleftrightarrow> (op \<longrightarrow> inSync t) \<and> (\<not> started r \<longrightarrow> quiet t)"

lemma quiet_Nil [simp]: "quiet []"
  by (simp add: quiet_def)

lemma fits_part:
  assumes "fits (t @ u)" "u \<noteq> []"
  shows "completeRequests t = []"
proof (rule completeRequests_partial)
  fix n assume "requestSize t = Some n"
  with assms requestSize_append [of t n u] show "length t < n"
    by (cases u) (auto simp: fits_def)
qed

lemma whole_inSync: "whole r \<Longrightarrow> inSync r"
  by (simp add: whole_def inSync_request)

lemma whole_quiet: "whole r \<Longrightarrow> \<not> mutating r \<Longrightarrow> quiet r"
  using completeRequests_step [of r "length r" "[]"] by (simp add: whole_def quiet_def)

lemma framed_send:
  assumes "fits (acc @ data)" "0 < length data" "sends p (acc @ data) (framed started) k"
  shows "sends p acc (framed started) (send_or os p data failed k)"
  unfolding send_or_def
proof (rule sends_bind_or_return)
  let ?R = "\<lambda>ok t op. (ok \<longrightarrow> t = acc @ data) \<and> (\<not> ok \<longrightarrow> \<not> op \<and> completeRequests t = [])"
  show "sends p acc ?R (Send os p data)"
  proof (rule sends_Send)
    fix t u assume "data = t @ u" "t = [] \<or> u \<noteq> []"
    with assms(1,2) have "fits ((acc @ t) @ u)" "u \<noteq> []" by auto
    then show "?R False (acc @ t) False" using fits_part by blast
  qed simp_all
  fix ok t op assume "?R ok (acc @ t) op"
  with assms(3) show "sends p (acc @ t) (framed started) (if ok then k else State_Monad.return failed) \<or>
      (\<exists>b. (if ok then k else State_Monad.return failed) = State_Monad.return b \<and>
           framed started b (acc @ t) op)"
    by (cases ok) (auto simp: framed_def quiet_def)
qed

lemma framed_recv:
  assumes "started failed \<or> quiet acc" "\<And>bs. length bs = n \<Longrightarrow> sends p acc (framed started) (k bs)"
  shows "sends p acc (framed started) (recv_or os p n failed k)"
  unfolding recv_or_def
proof (rule sends_bind_or_return)
  let ?R = "\<lambda>(r :: bytes option) t op. t = acc \<and> (case r of None \<Rightarrow> \<not> op | Some bs \<Rightarrow> length bs = n)"
  show "sends p acc ?R (Receive os p n)" by (rule sends_Receive) auto
  fix r t op assume R: "?R r (acc @ t) op"
  let ?f = "case r of None \<Rightarrow> State_Monad.return failed | Some bs \<Rightarrow> k bs"
  from R assms show "sends p (acc @ t) (framed started) ?f \<or>
      (\<exists>b. ?f = State_Monad.return b \<and> framed started b (acc @ t) op)"
    by (cases r) (auto simp: framed_def)
qed

lemma framed_reject:
  "started failed \<or> quiet acc \<Longrightarrow> sends p acc (framed started) (rejectMalformedResponse p failed)"
  by (auto simp: sends_def rejectMalformedResponse_def framed_def)

lemma framed_return:
  "inSync acc \<Longrightarrow> started a \<or> quiet acc \<Longrightarrow> sends p acc (framed started) (State_Monad.return a)"
  by (rule sends_return) (auto simp: framed_def)

section \<open>Leases\<close>

text \<open>A computation is silent when it touches nothing but the operating system's own state.\<close>

named_theorems silent_intros

definition silent :: "('e, 'a) client \<Rightarrow> bool" where
  "silent m \<longleftrightarrow> (\<forall>w r w'. run_state m w = (r, w') \<longrightarrow> (\<exists>e. w' = w\<lparr>cw_env := e\<rparr>))"

lemma env_refl: "\<exists>e. w = w\<lparr>cw_env := e\<rparr>"
  by (rule exI [of _ "cw_env w"]) simp

lemma silent_basic [silent_intros]:
  "silent (on_env m)" "silent (get_world f)" "silent (State_Monad.return a)"
  unfolding silent_def by (auto elim: on_envE intro: env_refl)

lemma silent_bind [silent_intros]:
  "silent m \<Longrightarrow> (\<And>a. silent (f a)) \<Longrightarrow> silent (State_Monad.bind m f)"
  unfolding silent_def run_bind_iff by force

lemma silent_if [silent_intros]: "silent m \<Longrightarrow> silent n \<Longrightarrow> silent (if b then m else n)"
  by simp

lemma silent_lease [silent_intros]:
  "silent acquireLease" "silent (leaseCurrent l)" "silent EnsureOpenHandle"
  "silent (TransactionLease os p)"
  unfolding TransactionLease_def acquireLease_def leaseCurrent_def EnsureOpenHandle_def
  by (intro silent_intros)+

lemma sends_silent:
  assumes "silent m" "\<And>a. sends p acc Q (f a)"
  shows "sends p acc Q (State_Monad.bind m f)"
proof (rule sends_bind)
  show "sends p acc (\<lambda>_ t _. t = acc) m"
    using assms(1) unfolding silent_def sends_def by fastforce
qed (use assms(2) in simp)

lemma framed_idle: "sends p [] (framed started) (State_Monad.return a)"
  by (rule framed_return) auto

lemma framed_ExecuteRequestWithLock:
  assumes "sends p [] (framed started) m"
  shows "sends p [] (framed started) (ExecuteRequestWithLock os p l failed m)"
  unfolding ExecuteRequestWithLock_def
  by (intro sends_silent sends_if framed_idle silent_intros assms)

lemma framed_execute:
  assumes "\<And>h. sends p [] (framed started) (fn h)"
  shows "sends p [] (framed started) (execute os p failed fn)"
  unfolding execute_def
  by (intro sends_silent sends_if sends_case_option framed_idle framed_ExecuteRequestWithLock
      silent_intros assms)

lemma framed_executeNoHandle:
  assumes "sends p [] (framed started) fn"
  shows "sends p [] (framed started) (executeNoHandle os p failed fn)"
  unfolding executeNoHandle_def
  by (intro sends_silent sends_if framed_idle framed_ExecuteRequestWithLock silent_intros assms)

section \<open>Parts of requests\<close>

lemma fits_whole: "whole r \<Longrightarrow> fits r"
  by (simp add: whole_def fits_def)

lemma fits_header: "length r \<le> fixedSize c \<Longrightarrow> fits (c # r)"
  by (simp add: fits_def)

lemma whole_fixed:
  "length r = fixedSize c \<Longrightarrow> variableSize c r = 0 \<Longrightarrow> whole (c # r)"
  by (simp add: whole_def)

lemma whole_variable:
  "length h = fixedSize c \<Longrightarrow> variableSize c h = length d \<Longrightarrow> whole (c # h @ d)"
  by (simp add: whole_def)

lemmas size_defs = fixedSize_def variableSize_def Let_def

section \<open>The commands\<close>

text \<open>
  The rules for a request \<open>acc\<close> that has been sent as a whole, and from which only
  receives, checks and returns follow.
\<close>

lemma answer_recv:
  assumes "whole acc" "started failed \<or> \<not> mutating acc"
    "\<And>bs. length bs = n \<Longrightarrow> sends p acc (framed started) (k bs)"
  shows "sends p acc (framed started) (recv_or os p n failed k)"
  by (rule framed_recv) (use assms whole_quiet in auto)

lemma answer_reject:
  "whole acc \<Longrightarrow> started failed \<or> \<not> mutating acc \<Longrightarrow>
     sends p acc (framed started) (rejectMalformedResponse p failed)"
  by (rule framed_reject) (use whole_quiet in auto)

lemma answer_return:
  "whole acc \<Longrightarrow> started a \<or> \<not> mutating acc \<Longrightarrow>
     sends p acc (framed started) (State_Monad.return a)"
  by (rule framed_return) (use whole_quiet whole_inSync in auto)

lemmas answer = answer_recv answer_reject answer_return sends_if sends_let

lemmas frame_simps = fits_header fits_whole whole_fixed size_defs mutating_def

text \<open>The loops that read an answer send nothing.\<close>

abbreviation receives :: "PortType \<Rightarrow> bytes \<Rightarrow> ('e, 'a) client \<Rightarrow> bool" where
  "receives p acc \<equiv> sends p acc (\<lambda>_ t _. t = acc)"

lemma receives_return: "receives p acc (State_Monad.return a)"
  by (rule sends_return) simp

lemma receives_bind:
  "receives p acc m \<Longrightarrow> (\<And>a. sends p acc Q (f a)) \<Longrightarrow> sends p acc Q (State_Monad.bind m f)"
  by (erule sends_bind) simp

lemma receives_recv_or:
  "(\<And>bs. length bs = n \<Longrightarrow> receives p acc (k bs)) \<Longrightarrow> receives p acc (recv_or os p n failed k)"
  unfolding recv_or_def
  by (rule sends_bind [where R = "\<lambda>r t _. t = acc \<and> (\<forall>bs. r = Some bs \<longrightarrow> length bs = n)"])
    (auto intro!: sends_Receive sends_case_option receives_return)

lemma receives_reject: "receives p acc (rejectMalformedResponse p failed)"
  by (auto simp: sends_def rejectMalformedResponse_def)

lemmas receives_rules = receives_recv_or receives_reject receives_return sends_if sends_let

lemma receives_recvBatchItems: "receives p acc (recvBatchItems os p addrs n items)"
  by (induction n arbitrary: items)
    (simp_all only: recvBatchItems.simps, (intro receives_rules | assumption)+)

lemma receives_recvProcesses: "receives p acc (recvProcesses os p n names items)"
  by (induction n arbitrary: names items)
    (simp_all only: recvProcesses.simps, (intro receives_rules | assumption)+)

lemma receives_recvModules: "receives p acc (recvModules os p n names items)"
  by (induction n arbitrary: names items)
    (simp_all only: recvModules.simps, (intro receives_rules | assumption)+)

lemma receives_recvSlots: "receives p acc (recvSlots os p n slots)"
  by (induction n arbitrary: slots)
    (simp_all only: recvSlots.simps, (intro receives_rules | assumption)+)

lemma receives_recvThreads: "receives p acc (recvThreads os p capacity n threads)"
  by (induction n arbitrary: threads)
    (simp_all only: recvThreads.simps,
      (intro receives_rules receives_bind [OF receives_recvSlots] sends_case_option | assumption)+)

lemma receives_recvSymbols: "receives p acc (recvSymbols os p n symbols)"
  by (induction n arbitrary: symbols)
    (simp_all only: recvSymbols.simps, (intro receives_rules | assumption)+)

lemma answer_receives:
  assumes "whole acc" "\<not> mutating acc" "receives p acc m"
  shows "sends p acc (framed started) m"
  using assms(3) unfolding sends_def
  by (auto simp: framed_def whole_inSync [OF assms(1)] whole_quiet [OF assms(1,2)])

lemmas answer_loops = receives_recvBatchItems receives_recvProcesses receives_recvModules
  receives_recvThreads receives_recvSymbols

subsection \<open>Memory\<close>

lemma bytes_ne [simp]: "u32_bytes w \<noteq> []" "u64_bytes v \<noteq> []" "i32_bytes i \<noteq> []"
  by (simp_all flip: length_greater_0_conv)

lemma framed_ReadProcessMemoryBytes:
  "sends p [] (framed started) (ReadProcessMemoryBytes os a n p)"
  unfolding ReadProcessMemoryBytes_def
  by (intro sends_if framed_idle framed_execute framed_send answer) (simp_all add: frame_simps)

lemma u32_at_bytes' [simp]: "u32_at (u32_bytes w) 0 = w"
  using u32_at_bytes [of w "[]"] by simp

lemma i32_at_bytes' [simp]: "- (2 ^ 31) \<le> i \<Longrightarrow> i < 2 ^ 31 \<Longrightarrow> i32_at (i32_bytes i) 0 = i"
  using i32_at_bytes [of i "[]"] by simp

lemma whole_write:
  assumes "length bs \<le> unat UINT32_MAX" "isValidReadSize (of_nat (length bs))"
  shows "whole (CMD_WRITEPROCESSMEMORY # i32_bytes h @ u64_bytes a @
    u32_bytes (of_nat (length bs)) @ bs)"
proof -
  let ?h = "i32_bytes h @ u64_bytes a @ u32_bytes (of_nat (length bs))"
  have len: "unat (of_nat (length bs) :: u32) = length bs"
    using assms(1) by (simp add: unsigned_of_nat take_bit_nat_eq_self)
  have "u32_at ?h 12 = of_nat (length bs)" by (simp add: at_drop [where n = 4] at_drop [where n = 8])
  with len assms(2) have "variableSize CMD_WRITEPROCESSMEMORY ?h = length bs"
    by (simp add: variableSize_def Let_def isValidReadSize_def)
  then show ?thesis using whole_variable [of ?h CMD_WRITEPROCESSMEMORY bs]
    by (simp add: fixedSize_def)
qed

lemma framed_WriteProcessMemoryDetailed:
  "sends p [] (framed mio_requestStarted) (WriteProcessMemoryDetailed os a bs p)"
  unfolding WriteProcessMemoryDetailed_def Let_def
  by (intro sends_if framed_idle framed_execute framed_send answer)
    (simp_all add: frame_simps whole_write [unfolded mutating_def])

lemma length_wire_addrs [simp]:
  "length (concat (map (\<lambda>(a, n). u64_bytes a @ u32_bytes (of_int n)) addrs)) = 12 * length addrs"
  by (induction addrs) auto

lemma whole_batch:
  assumes "validateBatchReadAddresses addrs"
  shows "whole (CMD_READBRATCHADDR # i32_bytes h @ i32_bytes (int (length addrs)) @
    concat (map (\<lambda>(a, n). u64_bytes a @ u32_bytes (of_int n)) addrs))"
proof -
  let ?h = "i32_bytes h @ i32_bytes (int (length addrs))"
  from assms have len: "0 < length addrs" "length addrs \<le> 100000"
    by (auto simp: validateBatchReadAddresses_def)
  then have "i32_at ?h 4 = int (length addrs)" by (simp add: at_drop [where n = 4])
  with len have "variableSize CMD_READBRATCHADDR ?h = 12 * length addrs"
    by (simp add: variableSize_def)
  then show ?thesis using whole_variable [of ?h CMD_READBRATCHADDR] by (simp add: fixedSize_def)
qed

lemma framed_sendCommandWithHandle:
  "4 \<le> fixedSize c \<Longrightarrow> sends p (c # i32_bytes h) (framed started) k \<Longrightarrow>
     sends p [] (framed started) (sendCommandWithHandle os p c h failed k)"
  unfolding sendCommandWithHandle_def
  by (intro framed_send) (auto intro: fits_header)

lemma framed_ReadBratchAddr: "sends p [] (framed started) (ReadBratchAddr os addrs p)"
  unfolding ReadBratchAddr_def
  by (intro sends_if framed_idle framed_execute framed_sendCommandWithHandle framed_send answer
      answer_receives answer_loops)
    (auto simp: frame_simps whole_batch validateBatchReadAddresses_def)

subsection \<open>Server, driver and processes\<close>

lemma framed_GetMemType: "sends p [] (framed started) (GetMemType os p)"
  unfolding GetMemType_def
  by (intro framed_executeNoHandle framed_send answer) (simp_all add: frame_simps)

lemma framed_FetchServerVersion: "sends p [] (framed started) (FetchServerVersion os p)"
  unfolding FetchServerVersion_def
  by (intro framed_executeNoHandle framed_send answer) (simp_all add: frame_simps)

lemma framed_FetchProcessList: "sends p [] (framed started) (FetchProcessList os p)"
  unfolding FetchProcessList_def
  by (intro framed_executeNoHandle framed_send answer answer_receives answer_loops)
    (simp_all add: frame_simps)

lemma framed_FetchModuleList: "sends p [] (framed started) (FetchModuleList os p)"
  unfolding FetchModuleList_def
  by (intro framed_execute framed_sendCommandWithHandle answer answer_receives answer_loops)
    (simp_all add: frame_simps)

lemma framed_SetKernelBreakpointForceReclaim:
  "sends p [] (framed rio_requestStarted) (SetKernelBreakpointForceReclaim os enabled p)"
  unfolding SetKernelBreakpointForceReclaim_def Let_def
  by (intro framed_executeNoHandle framed_send answer) (simp_all add: frame_simps)

lemma framed_OpenProcessHandle: "sends p [] (framed (\<lambda>_. True)) (OpenProcessHandle os pid p)"
  unfolding OpenProcessHandle_def
  by (intro sends_silent silent_intros sends_if framed_idle framed_ExecuteRequestWithLock framed_send
      answer) (simp_all add: frame_simps)

lemma framed_CloseProcessHandle: "sends p [] (framed (\<lambda>_. True)) (CloseProcessHandle os h p)"
  unfolding CloseProcessHandle_def
  by (intro sends_silent silent_intros sends_if framed_idle framed_ExecuteRequestWithLock framed_send
      answer) (simp_all add: frame_simps)

lemma whole_init:
  assumes "name \<noteq> []" "length name \<le> 4096"
  shows "whole (CMD_INITRWDRIVER # i32_bytes (int (length name)) @ bytes_of name)"
  using assms whole_variable [of "i32_bytes (int (length name))" CMD_INITRWDRIVER "bytes_of name"]
  by (simp add: size_defs bytes_of_def)

lemma bytes_of_Nil [simp]: "bytes_of s = [] \<longleftrightarrow> s = []"
  by (simp add: bytes_of_def)

text \<open>Work on the result after the exchange, which leaves every port alone.\<close>

lemma sends_after:
  assumes m: "sends p acc Q m"
    and f: "\<And>a w b w'. run_state (f a) w = (b, w') \<Longrightarrow>
      (\<exists>e tr. w' = w\<lparr>cw_env := e, cw_tracked := tr\<rparr>) \<and> (\<forall>t op. Q a t op \<longrightarrow> R b t op)"
  shows "sends p acc R (State_Monad.bind m f)"
  unfolding sends_def
proof (intro allI impI)
  fix w r w' assume "run_state (State_Monad.bind m f) w = (r, w')"
  then obtain a w1 where 1: "run_state m w = (a, w1)" and 2: "run_state (f a) w1 = (r, w')"
    by (rule run_bindE)
  from f [OF 2] have "cw_delivered w' = cw_delivered w1" "cw_open w' = cw_open w1"
    "cw_stream w' = cw_stream w1" "\<And>t op. Q a t op \<Longrightarrow> R r t op" by auto
  with m 1 show "cw_delivered w' = cw_delivered w \<and> (\<forall>q. cw_open w' q \<longrightarrow> cw_open w q) \<and>
     (\<forall>q. q \<noteq> p \<longrightarrow> cw_stream w' q = cw_stream w q) \<and>
     (\<exists>t. cw_stream w' p = cw_stream w p @ t \<and> (\<not> cw_open w p \<longrightarrow> t = []) \<and>
        R r (acc @ t) (cw_open w' p))"
    unfolding sends_def by fastforce
qed

lemma env_tracked:
  assumes "silent m" "run_state m w = (r, w')"
  shows "\<exists>e tr. w' = w\<lparr>cw_env := e, cw_tracked := tr\<rparr>"
proof -
  from assms obtain e where "w' = w\<lparr>cw_env := e\<rparr>" unfolding silent_def by blast
  then have "w' = w\<lparr>cw_env := e, cw_tracked := cw_tracked w\<rparr>" by simp
  then show ?thesis by blast
qed

lemma driverMessage_silent: "silent (driverMessage os response)"
  unfolding driverMessage_def
  by (cases "parseTimestampMs response") (auto intro!: silent_intros)

lemma framed_InitDriverTracked:
  "sends p [] (framed dio_requestStarted) (InitDriverTracked os cardName p)"
  unfolding InitDriverTracked_def Let_def
proof (intro sends_if framed_idle, goal_cases)
  case 1
  then have name: "cardName \<noteq> []" "length cardName \<le> 4096" by auto
  show ?case
  proof (rule sends_after [where Q = "framed (\<lambda>x. dio_requestStarted (fst x))"], goal_cases)
    case 1
    show ?case
      by (intro framed_executeNoHandle framed_send answer)
        (use name in \<open>simp_all add: frame_simps whole_init [unfolded mutating_def]\<close>)
  next
    case (2 a w b w')
    then show ?case
      using env_tracked [OF silent_basic(3)] env_tracked [OF driverMessage_silent]
      by (cases a) (auto simp: framed_def split: if_splits prod.splits)
  qed
qed

subsection \<open>Hardware breakpoints\<close>

lemma framed_mutateBreakpointTracked:
  assumes "fixedSize c = 4 + length payload" "\<And>fixed. variableSize c fixed = 0" "payload \<noteq> []"
  shows "sends p [] (framed bio_requestStarted) (mutateBreakpointTracked os c p payload)"
  unfolding mutateBreakpointTracked_def Let_def
  by (intro framed_execute framed_sendCommandWithHandle framed_send answer)
    (use assms in \<open>simp_all add: fits_header whole_fixed\<close>)

lemma tracked_refl: "\<exists>tr. w = w\<lparr>cw_tracked := tr\<rparr>"
  by (rule exI [of _ "cw_tracked w"]) simp

lemma sends_tracked:
  assumes "sends p acc Q m"
    and "\<And>r. g r \<in> {State_Monad.return (), trackBreakpointAddress a, untrackBreakpointAddress a}"
  shows "sends p acc Q (do { r \<leftarrow> m; g r; State_Monad.return r })"
proof (rule sends_after [OF assms(1)])
  fix r w b w' assume run: "run_state (do { g r; State_Monad.return r }) w = (b, w')"
  have "b = r \<and> (\<exists>tr. w' = w\<lparr>cw_tracked := tr\<rparr>)"
    using assms(2) [of r] run
    by (auto simp: trackBreakpointAddress_def untrackBreakpointAddress_def split: if_splits
        intro: tracked_refl)
  then obtain tr where "b = r" "w' = w\<lparr>cw_env := cw_env w, cw_tracked := tr\<rparr>" by auto
  then show "(\<exists>e tr. w' = w\<lparr>cw_env := e, cw_tracked := tr\<rparr>) \<and> (\<forall>t op. Q r t op \<longrightarrow> Q b t op)"
    by blast
qed

lemma framed_SetKernelBreakpointTracked:
  "sends p [] (framed bio_requestStarted) (SetKernelBreakpointTracked os a bpType bpSize p)"
  unfolding SetKernelBreakpointTracked_def
  by (intro sends_if framed_idle sends_tracked [where a = a] framed_mutateBreakpointTracked)
    (simp_all add: size_defs)

lemma framed_RemoveKernelBreakpointTracked:
  "sends p [] (framed bio_requestStarted) (RemoveKernelBreakpointTracked os a p)"
  unfolding RemoveKernelBreakpointTracked_def
  by (intro sends_tracked [where a = a] framed_mutateBreakpointTracked) (simp_all add: size_defs)

lemma framed_SuspendKernelBreakpointTracked:
  "sends p [] (framed bio_requestStarted) (SuspendKernelBreakpointTracked os a p)"
  unfolding SuspendKernelBreakpointTracked_def
  by (rule framed_mutateBreakpointTracked) (simp_all add: size_defs)

lemma framed_ResumeKernelBreakpointTracked:
  "sends p [] (framed bio_requestStarted) (ResumeKernelBreakpointTracked os a p)"
  unfolding ResumeKernelBreakpointTracked_def
  by (rule framed_mutateBreakpointTracked) (simp_all add: size_defs)

lemma framed_ReadKernelBreakpointInfo:
  "sends p [] (framed started) (ReadKernelBreakpointInfo os a p)"
  unfolding ReadKernelBreakpointInfo_def
  by (intro framed_execute framed_sendCommandWithHandle framed_send answer)
    (simp_all add: frame_simps)

lemma framed_QueryKernelBreakpointThreads:
  "sends p [] (framed started) (QueryKernelBreakpointThreads os capacity p)"
  unfolding QueryKernelBreakpointThreads_def
  by (intro sends_if framed_idle framed_execute framed_sendCommandWithHandle framed_send answer
      answer_receives answer_loops) (simp_all add: frame_simps)

subsection \<open>UXN breakpoints\<close>

abbreviation uxn_started :: "UxnOperationIoResult \<times> bytes \<Rightarrow> bool" where
  "uxn_started r \<equiv> uio_requestStarted (fst r)"

lemma uxnIo_started [simp]: "uio_requestStarted (uxnIo s r a e) = s"
  by (simp add: uxnIo_def)

lemma answer_receiveResult:
  assumes "whole acc"
    and "\<And>io. uio_requestStarted io \<Longrightarrow> sends p acc (framed uxn_started) (k io)"
  shows "sends p acc (framed uxn_started) (receiveResult os p payload k)"
  unfolding receiveResult_def
  by (intro answer) (use assms in \<open>simp_all\<close>)

lemma answer_receiveResultWithPayload:
  "whole acc \<Longrightarrow> sends p acc (framed uxn_started) (receiveResultWithPayload os p n)"
  unfolding receiveResultWithPayload_def
  by (intro answer_receiveResult answer) simp_all

lemmas uxn_answer = answer_receiveResult answer_receiveResultWithPayload answer_return

lemma framed_InstallUxnBreakpointTracked:
  "sends p [] (framed uxn_started) (InstallUxnBreakpointTracked os a flags p)"
  unfolding InstallUxnBreakpointTracked_def Let_def
  by (intro framed_execute framed_sendCommandWithHandle framed_send uxn_answer)
    (simp_all add: frame_simps)

lemma framed_RemoveUxnBreakpointTracked:
  "sends p [] (framed uxn_started) (RemoveUxnBreakpointTracked os a p)"
  unfolding RemoveUxnBreakpointTracked_def
  by (intro framed_execute framed_sendCommandWithHandle framed_send uxn_answer)
    (simp_all add: frame_simps)

lemma framed_WaitUxnBreakpointTracked:
  "sends p [] (framed uxn_started) (WaitUxnBreakpointTracked os slot timeoutMs seq p)"
  unfolding WaitUxnBreakpointTracked_def Let_def
  by (intro sends_if framed_idle framed_execute framed_send uxn_answer) (simp_all add: frame_simps)

lemma framed_ResumeUxnBreakpointTracked:
  "length request = 280 \<Longrightarrow>
     sends p [] (framed uxn_started) (ResumeUxnBreakpointTracked os request p)"
  unfolding ResumeUxnBreakpointTracked_def
  by (intro framed_execute framed_send uxn_answer) (auto simp: frame_simps)

lemma framed_QueryUxnBreakpointStatusTracked:
  "sends p [] (framed uxn_started) (QueryUxnBreakpointStatusTracked os slot p)"
  unfolding QueryUxnBreakpointStatusTracked_def Let_def
  by (intro framed_execute framed_send uxn_answer) (simp_all add: frame_simps)

lemma framed_ClearUxnBreakpointsTracked:
  "sends p [] (framed uxn_started) (ClearUxnBreakpointsTracked os p)"
  unfolding ClearUxnBreakpointsTracked_def
  by (intro framed_executeNoHandle framed_send uxn_answer) (simp_all add: frame_simps)

subsection \<open>Symbols\<close>

lemma framed_SymbolInit: "sends p [] (framed started) (SymbolInit os base p)"
  unfolding SymbolInit_def
  by (intro framed_execute framed_send answer) (simp_all add: frame_simps)

lemma framed_SymbolGetList: "sends p [] (framed started) (SymbolGetList os off n p)"
  unfolding SymbolGetList_def
  by (intro sends_if framed_idle framed_execute framed_send answer
      receives_bind [OF receives_recvSymbols]) (simp_all add: frame_simps)

lemma whole_find:
  assumes "name \<noteq> []" "length name \<le> 4096"
  shows "whole (CMD_SYMBOL_FIND # i32_bytes h @ u64_bytes base @ i32_bytes (int (length name)) @
    bytes_of name)"
proof -
  let ?h = "i32_bytes h @ u64_bytes base @ i32_bytes (int (length name))"
  have "i32_at ?h 12 = int (length name)"
    using assms(2) by (simp add: at_drop [where n = 4] at_drop [where n = 8])
  with assms have "variableSize CMD_SYMBOL_FIND ?h = length (bytes_of name)"
    by (simp add: variableSize_def bytes_of_def)
  then show ?thesis using whole_variable [of ?h CMD_SYMBOL_FIND "bytes_of name"] by (simp add: fixedSize_def)
qed

text \<open>The server takes the bytes of a name of at most 4096 characters.\<close>

lemma framed_SymbolFind:
  assumes "length name \<le> 4096"
  shows "sends p [] (framed started) (SymbolFind os base name p)"
  unfolding SymbolFind_def
  by (intro sends_if framed_idle framed_execute framed_send answer)
    (use assms in \<open>simp_all add: frame_simps whole_find [unfolded mutating_def]\<close>)

section \<open>The stream invariant\<close>

text \<open>
  On every open port the bytes sent are a sequence of complete requests. What the device has been
  asked to change is the list of the mutating requests that have gone out as a whole, on the
  earlier connections and on the current one.
\<close>

definition stream_inv :: "'e ClientWorld \<Rightarrow> bool" where
  "stream_inv w \<longleftrightarrow> (\<forall>p. cw_open w p \<longrightarrow> inSync (cw_stream w p))"

definition device_effects :: "'e ClientWorld \<Rightarrow> PortType \<Rightarrow> bytes list" where
  "device_effects w p = filter mutating (cw_delivered w p @ completeRequests (cw_stream w p))"

lemma framed_keeps_unless:
  assumes "sends p [] (framed started) m"
  shows "keeps_unless stream_inv device_effects started m"
proof (rule keeps_unlessI)
  fix w r w' assume inv: "stream_inv w" and run: "run_state m w = (r, w')"
  note m = sendsD [OF assms run]
  from m(4) obtain t where t: "cw_stream w' p = cw_stream w p @ t" "\<not> cw_open w p \<longrightarrow> t = []"
    "framed started r t (cw_open w' p)" by auto
  have "inSync (cw_stream w' q)" if "cw_open w' q" for q
    using that inv t m(2,3) [of q] inSync_append [of "cw_stream w p" t]
    by (cases "q = p") (auto simp: stream_inv_def framed_def)
  moreover have "device_effects w' q = device_effects w q" if "\<not> started r" for q
  proof (cases "q = p \<and> cw_open w p")
    case True
    with inv have "inSync (cw_stream w p)" by (simp add: stream_inv_def)
    with True t that m(1) completeRequests_append [of "cw_stream w p" t] show ?thesis
      by (simp add: device_effects_def framed_def quiet_def)
  next
    case False
    with t(1,2) m(1,3) show ?thesis by (cases "q = p") (auto simp: device_effects_def)
  qed
  ultimately show "stream_inv w' \<and> (\<not> started r \<longrightarrow> device_effects w' = device_effects w)"
    by (auto simp: stream_inv_def)
qed

lemma framed_keeps: "sends p [] (framed (\<lambda>_. False)) m \<Longrightarrow> keeps stream_inv device_effects m"
  using framed_keeps_unless [of p "\<lambda>_. False" m] by (auto simp: keeps_def keeps_unless_def)

lemma silent_keeps: "silent m \<Longrightarrow> keeps stream_inv device_effects m"
  by (fastforce simp: keeps_def silent_def stream_inv_def device_effects_def)

text \<open>\<open>in_sync m\<close>: the computation keeps the stream invariant, whatever it asks of the device.\<close>

abbreviation in_sync :: "('e, 'a) client \<Rightarrow> bool" where
  "in_sync \<equiv> keeps stream_inv (\<lambda>_. ())"

named_theorems in_sync_intros

lemma keeps_in_sync: "keeps stream_inv device_effects m \<Longrightarrow> in_sync m"
  by (simp add: keeps_def)

lemma framed_in_sync: "sends p [] (framed started) m \<Longrightarrow> in_sync m"
  using framed_keeps_unless [of p started m] by (simp add: keeps_def keeps_unless_def)

lemma in_sync_silent: "silent m \<Longrightarrow> in_sync m"
  by (rule keeps_in_sync) (rule silent_keeps)

lemmas in_sync_local [in_sync_intros] = in_sync_silent [OF silent_basic(1)]
  in_sync_silent [OF silent_basic(2)] in_sync_silent [OF silent_lease(1)]
  in_sync_silent [OF silent_lease(2)] in_sync_silent [OF silent_lease(4)]

lemma in_sync_put_world:
  "(\<And>w. cw_open (g w) = cw_open w \<and> cw_stream (g w) = cw_stream w) \<Longrightarrow> in_sync (put_world g)"
  by (auto simp: keeps_def stream_inv_def)

lemmas in_sync_commands [in_sync_intros] =
  framed_in_sync [OF framed_ReadProcessMemoryBytes] framed_in_sync [OF framed_WriteProcessMemoryDetailed]
  framed_in_sync [OF framed_ReadBratchAddr] framed_in_sync [OF framed_GetMemType]
  framed_in_sync [OF framed_FetchServerVersion] framed_in_sync [OF framed_FetchProcessList]
  framed_in_sync [OF framed_FetchModuleList]
  framed_in_sync [OF framed_SetKernelBreakpointForceReclaim]
  framed_in_sync [OF framed_OpenProcessHandle] framed_in_sync [OF framed_CloseProcessHandle]
  framed_in_sync [OF framed_InitDriverTracked]
  framed_in_sync [OF framed_SetKernelBreakpointTracked]
  framed_in_sync [OF framed_RemoveKernelBreakpointTracked]
  framed_in_sync [OF framed_SuspendKernelBreakpointTracked]
  framed_in_sync [OF framed_ResumeKernelBreakpointTracked]
  framed_in_sync [OF framed_ReadKernelBreakpointInfo]
  framed_in_sync [OF framed_QueryKernelBreakpointThreads]
  framed_in_sync [OF framed_InstallUxnBreakpointTracked]
  framed_in_sync [OF framed_RemoveUxnBreakpointTracked]
  framed_in_sync [OF framed_WaitUxnBreakpointTracked]
  framed_in_sync [OF framed_QueryUxnBreakpointStatusTracked]
  framed_in_sync [OF framed_ClearUxnBreakpointsTracked]
  framed_in_sync [OF framed_SymbolInit] framed_in_sync [OF framed_SymbolGetList]

lemma in_sync_CloseClients [in_sync_intros]: "in_sync CloseClients"
  by (auto simp: CloseClients_def keeps_def stream_inv_def)

lemma in_sync_connectPort [in_sync_intros]: "in_sync (connectPort os host port p)"
proof -
  have "in_sync (put_world (\<lambda>w. w\<lparr>cw_open := (cw_open w)(p := True),
      cw_delivered := (cw_delivered w)(p := cw_delivered w p @ completeRequests (cw_stream w p)),
      cw_stream := (cw_stream w)(p := [])\<rparr>))"
    by (auto simp: keeps_def stream_inv_def)
  moreover have "in_sync (put_world (\<lambda>w. w\<lparr>cw_open := (cw_open w)(p := False)\<rparr>))"
    by (auto simp: keeps_def stream_inv_def)
  ultimately show ?thesis unfolding connectPort_def by (intro keeps_intros in_sync_intros)
qed

lemma in_sync_finishConnect [in_sync_intros]: "in_sync (finishConnect ok)"
  unfolding finishConnect_def by (intro keeps_intros in_sync_put_world) simp

lemma in_sync_ConnectMultiPort [in_sync_intros]: "in_sync (ConnectMultiPort os host port)"
  unfolding ConnectMultiPort_def
  by (intro keeps_intros in_sync_intros in_sync_put_world) simp_all

lemma in_sync_DisconnectMultiPort [in_sync_intros]: "in_sync DisconnectMultiPort"
  unfolding DisconnectMultiPort_def
  by (intro keeps_intros in_sync_intros in_sync_put_world) simp_all

lemma in_sync_removeAllTracked: "in_sync (removeAllTracked os p addresses ok)"
  by (induction addresses arbitrary: ok)
    (simp_all only: removeAllTracked.simps, (intro keeps_intros in_sync_intros | assumption)+)

lemma in_sync_ClearTrackedKernelBreakpoints [in_sync_intros]:
  "in_sync (ClearTrackedKernelBreakpoints os p)"
  unfolding ClearTrackedKernelBreakpoints_def clearTrackedBreakpointAddresses_def
  by (intro keeps_intros in_sync_intros in_sync_removeAllTracked in_sync_put_world) simp_all

section \<open>What a confirmed command has sent\<close>

text \<open>\<open>sent_when confirmed full\<close>: a confirmed result means that exactly the bytes \<open>full\<close> have gone out.\<close>

definition sent_when :: "('a \<Rightarrow> bool) \<Rightarrow> bytes \<Rightarrow> 'a \<Rightarrow> bytes \<Rightarrow> bool \<Rightarrow> bool" where
  "sent_when confirmed full r t op \<longleftrightarrow> (confirmed r \<longrightarrow> t = full)"

lemma sent_send:
  assumes "\<not> confirmed failed" "sends p (acc @ data) (sent_when confirmed full) k"
  shows "sends p acc (sent_when confirmed full) (send_or os p data failed k)"
  unfolding send_or_def
proof (rule sends_bind)
  show "sends p acc (\<lambda>ok t op. ok \<longrightarrow> t = acc @ data) (Send os p data)" by (rule sends_Send) simp_all
  show "sends p (acc @ t) (sent_when confirmed full) (if ok then k else State_Monad.return failed)"
    if "ok \<longrightarrow> acc @ t = acc @ data" for ok t
    using that assms by (cases ok) (auto simp: sent_when_def intro: sends_return)
qed

lemma sent_return:
  "(confirmed a \<Longrightarrow> acc = full) \<Longrightarrow> sends p acc (sent_when confirmed full) (State_Monad.return a)"
  by (rule sends_return) (simp add: sent_when_def)

lemma sent_answer: "receives p full m \<Longrightarrow> sends p full (sent_when confirmed full) m"
  unfolding sends_def sent_when_def by fast

lemma run_silentE:
  assumes "run_state (State_Monad.bind m f) w = (r, w')" "silent m"
  obtains a e where "run_state m w = (a, w\<lparr>cw_env := e\<rparr>)" "run_state (f a) (w\<lparr>cw_env := e\<rparr>) = (r, w')"
proof -
  from assms(1) obtain a w1 where 1: "run_state m w = (a, w1)" "run_state (f a) w1 = (r, w')"
    by (rule run_bindE)
  with assms(2) obtain e where "w1 = w\<lparr>cw_env := e\<rparr>" unfolding silent_def by blast
  with 1 that show ?thesis by simp
qed

text \<open>A run of \<open>execute\<close> either gives up before the request or runs it with the handle in use.\<close>

lemma run_ExecuteRequestWithLockE:
  assumes "run_state (ExecuteRequestWithLock os p l failed m) w = (r, w')"
  obtains e where "r = failed" "w' = w\<lparr>cw_env := e\<rparr>"
  | e where "run_state m (w\<lparr>cw_env := e\<rparr>) = (r, w')"
  using assms unfolding ExecuteRequestWithLock_def leaseCurrent_def
  by (elim run_silentE [OF _ silent_basic(1)])
    (auto split: if_splits elim!: run_silentE [OF _ silent_basic(2)] simp del: run_state_bind)

lemma run_executeE:
  assumes "run_state (execute os p failed fn) w = (r, w')"
  obtains e where "r = failed" "w' = w\<lparr>cw_env := e\<rparr>"
  | e where "ac_processHandle (cw_app w) \<noteq> 0"
      "run_state (fn (ac_processHandle (cw_app w))) (w\<lparr>cw_env := e\<rparr>) = (r, w')"
  using assms unfolding execute_def EnsureOpenHandle_def leaseCurrent_def
  by (elim run_silentE [OF _ silent_lease(4)] run_silentE [OF _ silent_basic(2)])
    (auto split: if_splits elim!: run_silentE [OF _ silent_basic(2)] run_ExecuteRequestWithLockE
      simp del: run_state_bind)

text \<open>The request of one write, as the server reads it.\<close>

definition write_request :: "int \<Rightarrow> u64 \<Rightarrow> bytes \<Rightarrow> bytes" where
  "write_request handle address data =
     CMD_WRITEPROCESSMEMORY # i32_bytes handle @ u64_bytes address @
       u32_bytes (of_nat (length data)) @ data"

lemma completeRequests_whole: "whole r \<Longrightarrow> completeRequests r = [r]"
  using completeRequests_step [of r "length r" "[]"] by (simp add: whole_def)

lemma execute_confirmed:
  assumes run: "run_state (execute os p failed fn) w = (r, w')"
    and confirmed: "confirmed r" "\<not> confirmed failed"
    and fn: "\<And>h. sends p [] (sent_when confirmed (full h)) (fn h)"
    and full: "\<And>h. whole (full h) \<and> mutating (full h)"
    and sync: "stream_inv w"
  shows "device_effects w' =
    (device_effects w)(p := device_effects w p @ [full (ac_processHandle (cw_app w))])"
proof -
  let ?h = "ac_processHandle (cw_app w)"
  from run confirmed obtain e where "run_state (fn ?h) (w\<lparr>cw_env := e\<rparr>) = (r, w')"
    by (auto elim: run_executeE)
  note m = sendsD [OF fn this]
  have "full ?h \<noteq> []" using full [of ?h] by (auto simp: whole_def)
  with m(4) confirmed have "cw_stream w' p = cw_stream w p @ full ?h" "cw_open w p"
    by (auto simp: sent_when_def)
  moreover from this(2) have "inSync (cw_stream w p)" using sync by (simp add: stream_inv_def)
  ultimately show ?thesis using m(1,3) full completeRequests_whole [of "full ?h"]
    by (auto simp: device_effects_def completeRequests_append fun_eq_iff)
qed

lemma WriteProcessMemoryDetailed_confirmed:
  assumes run: "run_state (WriteProcessMemoryDetailed os a bs p) w = (r, w')"
    and confirmed: "mio_responseReceived r" and sync: "stream_inv w"
  shows "device_effects w' = (device_effects w)
    (p := device_effects w p @ [write_request (ac_processHandle (cw_app w)) a bs])"
proof (cases "bs = [] \<or> length bs > unat UINT32_MAX \<or> \<not> isValidReadSize (of_nat (length bs))")
  case True
  with run confirmed show ?thesis by (auto simp: WriteProcessMemoryDetailed_def Let_def)
next
  case False
  then have "whole (write_request h a bs) \<and> mutating (write_request h a bs)" for h
    using whole_write [of bs] by (simp add: write_request_def mutating_def)
  moreover have full: "[] @ (CMD_WRITEPROCESSMEMORY # i32_bytes h @ u64_bytes a @
      u32_bytes (of_nat (length bs))) @ bs = write_request h a bs" for h
    by (simp add: write_request_def)
  ultimately show ?thesis
    using run [unfolded WriteProcessMemoryDetailed_def Let_def if_not_P [OF False]]
    by (elim execute_confirmed [where confirmed = mio_responseReceived, OF _ confirmed _ _ _ sync])
      (simp, intro sent_send, simp_all only: append_assoc full,
        simp_all add: sent_answer receives_rules)
qed

definition breakpoint_request :: "u8 \<Rightarrow> int \<Rightarrow> bytes \<Rightarrow> bytes" where
  "breakpoint_request command handle payload = command # i32_bytes handle @ payload"

lemma mutateBreakpointTracked_confirmed:
  assumes run: "run_state (mutateBreakpointTracked os c p payload) w = (r, w')"
    and confirmed: "bio_responseReceived r" and sync: "stream_inv w"
    and c: "fixedSize c = 4 + length payload" "\<And>fixed. variableSize c fixed = 0" "mutating [c]"
  shows "device_effects w' = (device_effects w)
    (p := device_effects w p @ [breakpoint_request c (ac_processHandle (cw_app w)) payload])"
proof -
  have "whole (breakpoint_request c h payload) \<and> mutating (breakpoint_request c h payload)" for h
    using c whole_fixed [of "i32_bytes h @ payload" c] by (simp add: breakpoint_request_def mutating_def)
  moreover have full: "([] @ [c] @ i32_bytes h) @ payload = breakpoint_request c h payload" for h
    by (simp add: breakpoint_request_def)
  ultimately show ?thesis
    using run [unfolded mutateBreakpointTracked_def Let_def sendCommandWithHandle_def]
    by (elim execute_confirmed [where confirmed = bio_responseReceived, OF _ confirmed _ _ _ sync])
      (simp, intro sent_send, simp_all only: append_assoc full,
        simp_all add: sent_answer receives_rules)
qed

section \<open>Symbol names\<close>

text \<open>The part of a symbol request in front of the name.\<close>

definition find_header :: "int \<Rightarrow> u64 \<Rightarrow> nat \<Rightarrow> bytes" where
  "find_header handle base n = CMD_SYMBOL_FIND # i32_bytes handle @ u64_bytes base @ i32_bytes (int n)"

lemma whole_find_header:
  assumes "4096 < n" "n \<le> 65536"
  shows "whole (find_header h base n)"
proof -
  let ?h = "i32_bytes h @ u64_bytes base @ i32_bytes (int n)"
  have "i32_at ?h 12 = int n"
    using assms(2) by (simp add: at_drop [where n = 4] at_drop [where n = 8])
  with assms show ?thesis unfolding find_header_def
    by (intro whole_fixed) (simp_all add: fixedSize_def variableSize_def)
qed

lemma SymbolFind_long_name_sent:
  assumes run: "run_state (SymbolFind os base name p) w = (Some a, w')"
    and name: "4096 < length name" and sync: "stream_inv w"
  shows "completeRequests (cw_stream w' p) = completeRequests (cw_stream w p) @
    find_header (ac_processHandle (cw_app w)) base (length name) # completeRequests (bytes_of name)"
proof -
  let ?h = "ac_processHandle (cw_app w)" and ?n = "length name"
  let ?full = "find_header ?h base ?n @ bytes_of name"
  let ?fn = "\<lambda>h. send_or os p [CMD_SYMBOL_FIND] None
        (send_or os p (i32_bytes h @ u64_bytes base @ i32_bytes (int ?n)) None
        (send_or os p (bytes_of name) None
        (recv_or os p 12 None (\<lambda>out.
          State_Monad.return (if i32_at out 0 = 0 then Some (u64_at out 4) else None)))))"
  from run have le: "?n \<le> 65536" and exec: "run_state (execute os p None ?fn) w = (Some a, w')"
    by (auto simp: SymbolFind_def split: if_splits)
  from exec obtain e where fn: "run_state (?fn ?h) (w\<lparr>cw_env := e\<rparr>) = (Some a, w')"
    by (rule run_executeE) simp_all
  have full: "[] @ [CMD_SYMBOL_FIND] @ i32_bytes ?h @ u64_bytes base @ i32_bytes (int ?n) @
      bytes_of name = ?full"
    by (simp add: find_header_def)
  have "sends p [] (sent_when (\<lambda>r. r \<noteq> None) ?full) (?fn ?h)"
    by (intro sent_send, simp_all only: append_assoc full, simp_all add: sent_answer receives_rules)
  from sendsD(4) [OF this fn] have "cw_stream w' p = cw_stream w p @ ?full" "cw_open w p"
    by (auto simp: sent_when_def find_header_def)
  moreover from this(2) have "inSync (cw_stream w p)" using sync by (simp add: stream_inv_def)
  ultimately show ?thesis
    using whole_find_header [OF name le] completeRequests_whole [of "find_header ?h base ?n"]
      whole_inSync [of "find_header ?h base ?n"]
    by (simp add: completeRequests_append)
qed

end
