(* ===== verification/ClientServer.thy ===== *)
theory ClientServer
  imports SocketContract CEServer
begin

text \<open>
  Client and server together. The network of the client model is replaced by the server model: a port is a
  connection with bytes on the way to the server and bytes on the way back, and the worker of the connection
  serves a request when the client waits for the answer. How many bytes the client's system calls move at a time
  is arbitrary. The lemmas show what the client decodes from what the server encodes.
\<close>

section \<open>A network with the server behind it\<close>

record 'd Link =
  lk_in :: "PortType \<Rightarrow> bytes"
  lk_out :: "PortType \<Rightarrow> bytes"
  lk_open :: "PortType \<Rightarrow> bool"
  lk_running :: bool
  lk_device :: 'd
  lk_tick :: nat

definition conn_of :: "PortType \<Rightarrow> 'd Link \<Rightarrow> 'd ServerConn" where
  "conn_of p l = \<lparr>sc_in = lk_in l p, sc_out = lk_out l p, sc_open = lk_open l p, sc_running = lk_running l,
     sc_device = lk_device l\<rparr>"

definition put_conn :: "PortType \<Rightarrow> 'd ServerConn \<Rightarrow> 'd Link \<Rightarrow> 'd Link" where
  "put_conn p s l = l\<lparr>lk_in := (lk_in l)(p := sc_in s), lk_out := (lk_out l)(p := sc_out s),
     lk_open := (lk_open l)(p := sc_open s), lk_running := sc_running s, lk_device := sc_device s\<rparr>"

definition serve :: "'d CApi \<Rightarrow> PortType \<Rightarrow> 'd Link \<Rightarrow> 'd Link" where
  "serve api p l =
     (case requestSize (lk_in l p) of
        Some n \<Rightarrow>
          if n \<le> length (lk_in l p) then put_conn p (snd (run_state (workerRound api) (conn_of p l))) l else l
      | None \<Rightarrow> l)"

text \<open>How many of \<open>n\<close> bytes a system call moves; \<open>chunk\<close> is the network's choice.\<close>

definition piece :: "(nat \<Rightarrow> nat) \<Rightarrow> 'd Link \<Rightarrow> nat \<Rightarrow> nat" where
  "piece chunk l n = max 1 (min n (chunk (lk_tick l)))"

definition link_send :: "(nat \<Rightarrow> nat) \<Rightarrow> PortType \<Rightarrow> bytes \<Rightarrow> ('d Link, int) state" where
  "link_send chunk p data = State (\<lambda>l.
     if \<not> lk_open l p then (- 1, l)
     else
       let n = piece chunk l (length data) in
       (int n, l\<lparr>lk_in := (lk_in l)(p := lk_in l p @ take n data), lk_tick := Suc (lk_tick l)\<rparr>))"

definition link_recv :: "'d CApi \<Rightarrow> (nat \<Rightarrow> nat) \<Rightarrow> PortType \<Rightarrow> nat \<Rightarrow> ('d Link, bytes option) state" where
  "link_recv api chunk p n = State (\<lambda>l.
     let l = (if lk_out l p = [] then serve api p l else l) in
     if lk_out l p = [] then (None, l)
     else
       let k = piece chunk l (min n (length (lk_out l p))) in
       (Some (take k (lk_out l p)),
        l\<lparr>lk_out := (lk_out l)(p := drop k (lk_out l p)), lk_tick := Suc (lk_tick l)\<rparr>))"

definition link_os :: "'d CApi \<Rightarrow> (nat \<Rightarrow> nat) \<Rightarrow> 'd Link SocketOs" where
  "link_os api chunk =
     \<lparr>os_send = link_send chunk, os_recv = link_recv api chunk,
      os_connect = (\<lambda>_ _ _. State_Monad.return False),
      os_lockTransaction = (\<lambda>_. State_Monad.return True),
      os_lockRequest = (\<lambda>_. State_Monad.return True),
      os_localtime = (\<lambda>_. State_Monad.return None),
      os_now = State_Monad.return 0,
      os_loadToken = (\<lambda>_. State_Monad.return False)\<rparr>"

lemma link_os_sel [simp]:
  "os_lockTransaction (link_os api chunk) p = State_Monad.return True"
  "os_lockRequest (link_os api chunk) p = State_Monad.return True"
  "os_now (link_os api chunk) = State_Monad.return 0" "os_loadToken (link_os api chunk) t = State_Monad.return False"
  by (simp_all add: link_os_def)

text \<open>A server whose answers get out, and whose uninitialised variables leave the device alone.\<close>

definition healthy :: "'d CApi \<Rightarrow> bool" where
  "healthy api \<longleftrightarrow>
     (\<forall>data. api_send api data = State_Monad.return (length data)) \<and>
     (\<forall>n d. snd (run_state (api_junk api n) d) = d)"

section \<open>The server's side\<close>

text \<open>
  \<open>srv i d m o' d'\<close>: with the input \<open>i\<close> and the device \<open>d\<close>, \<open>m\<close> reads all of \<open>i\<close>, sends \<open>out\<close>, leaves the device \<open>d'\<close> and the
  connection open.
\<close>

definition srv :: "bytes \<Rightarrow> 'd \<Rightarrow> ('d, 'a) server \<Rightarrow> bytes \<Rightarrow> 'd \<Rightarrow> bool" where
  "srv i d m out d' \<longleftrightarrow>
     (\<forall>s. sc_open s \<and> sc_in s = i \<and> sc_device s = d \<longrightarrow>
        snd (run_state m s) = s\<lparr>sc_in := [], sc_out := sc_out s @ out, sc_device := d'\<rparr>)"

named_theorems srv_intros

lemma srv_return [srv_intros]: "srv [] d (State_Monad.return a) [] d"
  by (simp add: srv_def)

lemma srv_receive_or [srv_intros]:
  "length b = n \<Longrightarrow> srv i d (k b) out d' \<Longrightarrow> srv (b @ i) d (receive_or n failed k) out d'"
  by (auto simp: srv_def receive_or_def run_state_bind run_receive)

lemma srv_receive_into [srv_intros]:
  "length b = length buf \<Longrightarrow> srv i d (k b) out d' \<Longrightarrow> srv (b @ i) d (do { x \<leftarrow> receive_into buf; k x }) out d'"
  by (auto simp: srv_def receive_into_def run_state_bind run_receive)

lemma run_junk_healthy:
  "healthy api \<Longrightarrow> run_state (on_device (api_junk api n)) s = (fst (run_state (api_junk api n) (sc_device s)), s)"
  by (cases s) (simp add: on_device_def healthy_def case_prod_beta)

lemma srv_receive_junk [srv_intros]:
  "healthy api \<Longrightarrow> length b = n \<Longrightarrow> srv i d (k b) out d' \<Longrightarrow>
     srv (b @ i) d (do { x \<leftarrow> receive_junk api n; k x }) out d'"
  by (auto simp: srv_def receive_junk_def receive_into_def run_state_bind run_receive run_junk_healthy)

lemma srv_device [srv_intros]:
  "run_state m d = (a, d1) \<Longrightarrow> srv i d1 (k a) out d' \<Longrightarrow> srv i d (do { x \<leftarrow> on_device m; k x }) out d'"
  by (auto simp: srv_def run_state_bind on_device_def split: prod.splits)

lemma run_send_healthy:
  "healthy api \<Longrightarrow> sc_open s \<Longrightarrow> run_state (sc_send api data) s = (True, s\<lparr>sc_out := sc_out s @ data\<rparr>)"
  by (auto simp: sc_send_def healthy_def run_state_bind State_Monad.get_def State_Monad.update_def
      State_Monad.set_def on_device_def)

lemma srv_send [srv_intros]:
  "healthy api \<Longrightarrow> srv i d (k True) out d' \<Longrightarrow> srv i d (do { ok \<leftarrow> sc_send api data; k ok }) (data @ out) d'"
  by (auto simp: srv_def run_state_bind run_send_healthy split: prod.splits)

lemma run_sends_healthy:
  assumes "healthy api" "sc_open s"
  shows "run_state (sendSeq api bs) s = (True, s\<lparr>sc_out := sc_out s @ concat bs\<rparr>)"
    and "run_state (sendEach api bs) s = ((), s\<lparr>sc_out := sc_out s @ concat bs\<rparr>)"
  using assms(2)
  by (induction bs arbitrary: s) (simp_all add: run_state_bind run_send_healthy [OF assms(1)])

lemma srv_sends [srv_intros]:
  "healthy api \<Longrightarrow> srv i d (k True) out d' \<Longrightarrow> srv i d (do { ok \<leftarrow> sendSeq api bs; k ok }) (concat bs @ out) d'"
  "healthy api \<Longrightarrow> srv i d (j ()) out d' \<Longrightarrow> srv i d (do { u \<leftarrow> sendEach api bs; j u }) (concat bs @ out) d'"
  by (auto simp: srv_def run_state_bind run_sends_healthy split: prod.splits)

text \<open>A request \<open>r\<close> of the client, its answer and what it does to the device.\<close>

definition answers :: "'d CApi \<Rightarrow> 'd \<Rightarrow> bytes \<Rightarrow> bytes \<Rightarrow> 'd \<Rightarrow> bool" where
  "answers api d r out d' \<longleftrightarrow> requestSize r = Some (length r) \<and> srv r d (workerRound api) out d'"

lemma srv_workerRound:
  assumes "srv r d (DispatchCommand_V2 api c) out d'"
  shows "srv (c # r) d (workerRound api) out d'"
proof -
  have "srv ([c] @ r) d (receive_or 1 (State_Monad.return False) (\<lambda>command. do {
       DispatchCommand_V2 api (command ! 0); State_Monad.return True })) out d'"
    by (rule srv_receive_or) (use assms in \<open>auto simp: srv_def run_state_bind split: prod.splits\<close>)
  then show ?thesis by (auto simp: srv_def workerRound_def State_Monad.get_def run_state_bind)
qed

lemma answersI:
  assumes "length f = fixedSize c" "length v = variableSize c f"
    and "srv (f @ v) d (DispatchCommand_V2 api c) out d'"
  shows "answers api d (c # f @ v) out d'"
  using assms by (simp add: answers_def srv_workerRound)

section \<open>The client's side\<close>

text \<open>
  \<open>linked p w0 i out d w\<close>: \<open>w\<close> is the world \<open>w0\<close> except for the bytes on the wire and the device: \<open>i\<close> is on the way to the
  server, \<open>out\<close> on the way back.
\<close>

definition linked :: "PortType \<Rightarrow> 'd Link ClientWorld \<Rightarrow> bytes \<Rightarrow> bytes \<Rightarrow> 'd \<Rightarrow> 'd Link ClientWorld \<Rightarrow> bool" where
  "linked p w0 i out d w \<longleftrightarrow>
     cw_open w0 p \<and> lk_open (cw_env w) p \<and> lk_in (cw_env w) p = i \<and> lk_out (cw_env w) p = out \<and>
     lk_device (cw_env w) = d \<and> cw_session w = cw_session w0 \<and> cw_app w = cw_app w0 \<and> cw_open w = cw_open w0 \<and>
     cw_tracked w = cw_tracked w0"

definition clt :: "('d Link ClientWorld \<Rightarrow> bool) \<Rightarrow> ('d Link, 'a) client \<Rightarrow> 'a \<Rightarrow> ('d Link ClientWorld \<Rightarrow> bool) \<Rightarrow> bool" where
  "clt P m a Q \<longleftrightarrow> (\<forall>w. P w \<longrightarrow> (\<exists>w'. run_state m w = (a, w') \<and> Q w'))"

lemma link_sendLoop:
  "linked p w0 i out d w \<Longrightarrow>
     \<exists>w'. run_state (sendLoop (link_os api chunk) p data) w = (True, w') \<and> linked p w0 (i @ data) out d w'"
proof (induction data arbitrary: i w rule: length_induct)
  case (1 data)
  show ?case
  proof (cases "data = []")
    case True
    with 1(2) show ?thesis by (subst sendLoop.simps) simp
  next
    case False
    let ?l = "cw_env w" let ?n = "piece chunk ?l (length data)"
    let ?l' = "?l\<lparr>lk_in := (lk_in ?l)(p := i @ take ?n data), lk_tick := Suc (lk_tick ?l)\<rparr>"
    let ?w = "w\<lparr>cw_env := ?l', cw_stream := (cw_stream w)(p := cw_stream w p @ take ?n data)\<rparr>"
    have n: "0 < ?n" "?n \<le> length data" using False by (auto simp: piece_def Suc_le_eq)
    have "linked p w0 (i @ take ?n data) out d ?w" using 1(2) by (simp add: linked_def)
    moreover have "length (drop ?n data) < length data" using n by simp
    ultimately obtain w' where
      w': "run_state (sendLoop (link_os api chunk) p (drop ?n data)) ?w = (True, w')"
      "linked p w0 ((i @ take ?n data) @ drop ?n data) out d w'"
      using 1(1) by blast
    have "run_state (sendLoop (link_os api chunk) p data) w =
        run_state (sendLoop (link_os api chunk) p (drop ?n data)) ?w"
      using False 1(2) n
      by (subst sendLoop.simps)
        (simp add: run_state_bind on_env_def link_os_def link_send_def linked_def Let_def acceptBytes_def)
    with w' show ?thesis by simp
  qed
qed

lemma clt_send:
  assumes "clt (linked p w0 (i @ data) out d) k a Q"
  shows "clt (linked p w0 i out d) (send_or (link_os api chunk) p data failed k) a Q"
  unfolding clt_def
proof (intro allI impI)
  fix w assume w: "linked p w0 i out d w"
  then obtain w1 where "run_state (sendLoop (link_os api chunk) p data) w = (True, w1)" "linked p w0 (i @ data) out d w1"
    using link_sendLoop [OF w] by blast
  with assms w show "\<exists>w'. run_state (send_or (link_os api chunk) p data failed k) w = (a, w') \<and> Q w'"
    by (auto simp: clt_def send_or_def Send_def run_state_bind linked_def)
qed

lemma link_recvLoop:
  "linked p w0 i (b @ out) d w \<Longrightarrow>
     \<exists>w'. run_state (recvLoop (link_os api chunk) p (length b) acc) w = (Some (acc @ b), w') \<and> linked p w0 i out d w'"
proof (induction b arbitrary: acc w rule: length_induct)
  case (1 b)
  show ?case
  proof (cases "b = []")
    case True
    with 1(2) show ?thesis by (subst recvLoop.simps) simp
  next
    case False
    let ?l = "cw_env w" let ?n = "piece chunk ?l (length b)"
    let ?l' = "?l\<lparr>lk_out := (lk_out ?l)(p := drop ?n b @ out), lk_tick := Suc (lk_tick ?l)\<rparr>"
    let ?w = "w\<lparr>cw_env := ?l'\<rparr>"
    have n: "0 < ?n" "?n \<le> length b" using False by (auto simp: piece_def Suc_le_eq)
    have "linked p w0 i (drop ?n b @ out) d ?w" using 1(2) by (simp add: linked_def)
    moreover have "length (drop ?n b) < length b" using n by simp
    ultimately obtain w' where
      w': "run_state (recvLoop (link_os api chunk) p (length (drop ?n b)) (acc @ take ?n b)) ?w =
          (Some ((acc @ take ?n b) @ drop ?n b), w')" "linked p w0 i out d w'"
      using 1(1) by blast
    have "run_state (recvLoop (link_os api chunk) p (length b) acc) w =
        run_state (recvLoop (link_os api chunk) p (length (drop ?n b)) (acc @ take ?n b)) ?w"
      using False 1(2) n
      by (subst recvLoop.simps)
        (simp add: run_state_bind on_env_def link_os_def link_recv_def linked_def Let_def min_absorb1)
    with w' show ?thesis by simp
  qed
qed

lemma clt_recv:
  assumes "length b = n" "clt (linked p w0 i out d) (k b) a Q"
  shows "clt (linked p w0 i (b @ out) d) (recv_or (link_os api chunk) p n failed k) a Q"
  unfolding clt_def
proof (intro allI impI)
  fix w assume w: "linked p w0 i (b @ out) d w"
  then obtain w1 where "run_state (recvLoop (link_os api chunk) p (length b) []) w = (Some ([] @ b), w1)"
    "linked p w0 i out d w1"
    using link_recvLoop [OF w, of api chunk "[]"] by blast
  with assms w show "\<exists>w'. run_state (recv_or (link_os api chunk) p n failed k) w = (a, w') \<and> Q w'"
    by (auto simp: clt_def recv_or_def Receive_def run_state_bind linked_def)
qed

text \<open>The first bytes of an answer: the worker serves the request while the client waits.\<close>

lemma link_recvLoop_serve:
  assumes "answers api d r out d'" "out \<noteq> []" "0 < n" "linked p w0 r [] d w"
  shows "run_state (recvLoop (link_os api chunk) p n acc) w =
      run_state (recvLoop (link_os api chunk) p n acc) (w\<lparr>cw_env := serve api p (cw_env w)\<rparr>) \<and>
    linked p w0 [] out d' (w\<lparr>cw_env := serve api p (cw_env w)\<rparr>)"
proof -
  have "snd (run_state (workerRound api) (conn_of p (cw_env w))) =
      (conn_of p (cw_env w))\<lparr>sc_in := [], sc_out := out, sc_device := d'\<rparr>"
    using assms(1,4) by (simp add: answers_def srv_def linked_def conn_of_def)
  then have out: "lk_out (serve api p (cw_env w)) p = out" and
    link: "linked p w0 [] out d' (w\<lparr>cw_env := serve api p (cw_env w)\<rparr>)"
    using assms(1,4) by (simp_all add: serve_def answers_def put_conn_def conn_of_def linked_def)
  then show ?thesis using assms(2,3,4)
    by (subst (1 2) recvLoop.simps)
      (simp add: run_state_bind on_env_def link_os_def link_recv_def linked_def Let_def)
qed

lemma clt_serve:
  assumes "answers api d r out d'" "out \<noteq> []" "0 < n"
    and "clt (linked p w0 [] out d') (recv_or (link_os api chunk) p n failed k) a Q"
  shows "clt (linked p w0 r [] d) (recv_or (link_os api chunk) p n failed k) a Q"
  unfolding clt_def
proof (intro allI impI)
  fix w assume w: "linked p w0 r [] d w"
  from link_recvLoop_serve [OF assms(1-3) w]
  have "run_state (recv_or (link_os api chunk) p n failed k) w =
      run_state (recv_or (link_os api chunk) p n failed k) (w\<lparr>cw_env := serve api p (cw_env w)\<rparr>)"
    and "linked p w0 [] out d' (w\<lparr>cw_env := serve api p (cw_env w)\<rparr>)"
    using w by (auto simp: recv_or_def Receive_def run_state_bind linked_def)
  with assms(4) show "\<exists>w'. run_state (recv_or (link_os api chunk) p n failed k) w = (a, w') \<and> Q w'"
    by (simp add: clt_def)
qed

lemma clt_first:
  assumes "answers api d r' (b @ out) d'" "r = r'" "length b = n" "0 < n"
    and "clt (linked p w0 [] out d') (k b) a Q"
  shows "clt (linked p w0 r [] d) (recv_or (link_os api chunk) p n failed k) a Q"
  unfolding assms(2) by (rule clt_serve [OF assms(1) _ _ clt_recv]) (use assms(3-5) in auto)

lemma clt_return: "P = Q \<Longrightarrow> clt P (State_Monad.return a) a Q"
  by (simp add: clt_def)

lemma clt_reject:
  "clt (linked p w0 i out d) (rejectMalformedResponse p a) a
     (\<lambda>w. \<not> cw_open w p \<and> cw_session w = MarkPoisoned (cw_session w0) \<and> lk_device (cw_env w) = d)"
  by (simp add: clt_def rejectMalformedResponse_def run_state_bind linked_def)

text \<open>A connected client with a process handle.\<close>

definition ready :: "int \<Rightarrow> 'd Link ClientWorld \<Rightarrow> bool" where
  "ready h w \<longleftrightarrow> ds_state (cw_session w) = Connected \<and> ac_processHandle (cw_app w) = h \<and> h \<noteq> 0 \<and>
     - (2 ^ 31) \<le> h \<and> h < 2 ^ 31"

lemma clt_execute:
  assumes "ready h w0" "clt (linked p w0 i out d) (fn h) a Q"
  shows "clt (linked p w0 i out d) (execute (link_os api chunk) p failed fn) a Q"
    and "clt (linked p w0 i out d) (executeNoHandle (link_os api chunk) p failed (fn h)) a Q"
  using assms
  by (auto simp: clt_def execute_def executeNoHandle_def TransactionLease_def acquireLease_def leaseCurrent_def
      EnsureOpenHandle_def ExecuteRequestWithLock_def on_env_def run_state_bind linked_def ready_def
      AcquireRequest_def isCurrent_def)

section \<open>Fields of structs\<close>

lemmas field_skip =
  at_drop(1) [of 4 _ "i32_bytes _"] at_drop(1) [of 4 _ "u32_bytes _"] at_drop(1) [of 8 _ "u64_bytes _"]
  at_drop(2) [of 4 _ "i32_bytes _"] at_drop(2) [of 4 _ "u32_bytes _"] at_drop(2) [of 8 _ "u64_bytes _"]
  at_drop(3) [of 4 _ "i32_bytes _"] at_drop(3) [of 4 _ "u32_bytes _"] at_drop(3) [of 8 _ "u64_bytes _"]

lemma field_first:
  "u32_at (u32_bytes w @ xs) 0 = w" "u32_at (u32_bytes w) 0 = w"
  "u32_at (i32_bytes i @ xs) 0 = of_int i" "u32_at (i32_bytes i) 0 = of_int i"
  "u64_at (u64_bytes v @ xs) 0 = v" "u64_at (u64_bytes v) 0 = v"
  "i32_at (u32_bytes w @ xs) 0 = sint w" "i32_at (u32_bytes w) 0 = sint w"
  by (simp_all add: i32_bytes_def u32_at_def u64_at_def i32_at_def)

lemma field_i32:
  "- (2 ^ 31) \<le> i \<Longrightarrow> i < 2 ^ 31 \<Longrightarrow> i32_at (i32_bytes i @ xs) 0 = i"
  "- (2 ^ 31) \<le> i \<Longrightarrow> i < 2 ^ 31 \<Longrightarrow> i32_at (i32_bytes i) 0 = i"
  using i32_at_bytes [of i xs] i32_at_bytes [of i "[]"] by simp_all

lemmas fields = field_skip field_first field_i32

section \<open>Memory\<close>

lemma write_answer:
  assumes "healthy api" "0 < length data" "length data \<le> kMaxNetworkAllocSize"
    and "run_state (api_WriteProcessMemory api (of_int h) address data) d = (n, d')"
  shows "answers api d (CMD_WRITEPROCESSMEMORY # (i32_bytes h @ u64_bytes address @ u32_bytes (of_nat (length data))) @ data)
    (i32_bytes n @ []) d'"
proof (rule answersI)
  let ?f = "i32_bytes h @ u64_bytes address @ u32_bytes (of_nat (length data))"
  have len: "unat (of_nat (length data) :: u32) = length data"
    using assms(3) by (simp add: unat_of_nat take_bit_nat_eq_self)
  then have sz: "u32_at ?f 12 = of_nat (length data)" by (simp add: fields)
  show "length ?f = fixedSize CMD_WRITEPROCESSMEMORY" by (simp add: fixedSize_def)
  show "length data = variableSize CMD_WRITEPROCESSMEMORY ?f"
    using assms(3) len sz by (simp add: variableSize_def)
  have "srv (data @ []) d (receive_or (length data) (do { sc_send api (i32_bytes 0); State_Monad.return 0 })
     (\<lambda>buf. do {
       written \<leftarrow> on_device (api_WriteProcessMemory api (of_int h) address buf);
       sc_send api (i32_bytes written);
       State_Monad.return 0 })) (i32_bytes n @ []) d'"
    by (intro srv_receive_or srv_device [OF assms(4)] srv_intros assms(1)) simp
  then have "srv (?f @ data) d (case_WRITEPROCESSMEMORY api) (i32_bytes n @ []) d'"
    unfolding case_WRITEPROCESSMEMORY_def
    by (intro srv_receive_or) (use assms(2,3) len in \<open>simp_all add: fields\<close>)
  then show "srv (?f @ data) d (DispatchCommand_V2 api CMD_WRITEPROCESSMEMORY) (i32_bytes n @ []) d'"
    by (simp add: DispatchCommand_V2_def)
qed

lemma clt_write:
  assumes "healthy api" "ready h w" "data \<noteq> []" "length data \<le> kMaxNetworkAllocSize"
    and "run_state (api_WriteProcessMemory api (of_int h) address data) d = (n, d')"
    and "0 \<le> n" "nat n \<le> length data"
  shows "clt (linked p w [] [] d) (WriteProcessMemoryDetailed (link_os api chunk) address data p)
     \<lparr>mio_requestStarted = True, mio_responseReceived = True, mio_writtenBytes = n\<rparr> (linked p w [] [] d')"
proof -
  have len: "unat (of_nat (length data) :: u32) = length data"
    using assms(4) by (simp add: unat_of_nat take_bit_nat_eq_self)
  have valid: "\<not> (data = [] \<or> length data > unat UINT32_MAX \<or> \<not> isValidReadSize (of_nat (length data)))"
    using assms(3,4) len by (simp add: isValidReadSize_def word_greater_zero_iff unat_gt_0 [symmetric])
  note ans = write_answer [OF assms(1) _ assms(4,5)]
  show ?thesis
    unfolding WriteProcessMemoryDetailed_def Let_def if_not_P [OF valid]
    by (intro clt_execute [OF assms(2)] clt_send clt_first [OF ans])
      (use assms(3,4,6,7) in \<open>simp_all add: fields clt_return\<close>)
qed

lemma read_answer:
  assumes "healthy api" "0 < n" "unat n \<le> kMaxNetworkAllocSize"
    and "run_state (api_ReadProcessMemory api (of_int h) address (replicate (unat n) 0)) d = ((got, buf), d')"
  shows "answers api d (CMD_READPROCESSMEMORY # (i32_bytes h @ u64_bytes address @ u32_bytes n @ [0]) @ [])
    (i32_bytes got @ buf @ []) d'"
proof (rule answersI)
  let ?f = "i32_bytes h @ u64_bytes address @ u32_bytes n @ [0]"
  show "length ?f = fixedSize CMD_READPROCESSMEMORY" by (simp add: fixedSize_def)
  show "length [] = variableSize CMD_READPROCESSMEMORY ?f" by (simp add: variableSize_def)
  have "srv [] d (do {
      (realread, data) \<leftarrow> on_device (api_ReadProcessMemory api (of_int h) address (replicate (unat n) 0));
      sc_send api (i32_bytes realread);
      sc_send api data;
      State_Monad.return 0 }) (i32_bytes got @ buf @ []) d'"
    by (rule srv_device [OF assms(4)]) (unfold prod.case, intro srv_intros assms(1))
  moreover have "\<not> (n = 0 \<or> int (unat n) > MAX_NETWORK_ALLOC_SIZE)"
    using assms(2,3) by (auto simp del: of_nat_unat)
  ultimately have "srv (?f @ []) d (case_READPROCESSMEMORY api) (i32_bytes got @ buf @ []) d'"
    unfolding case_READPROCESSMEMORY_def
    by (intro srv_receive_or) (simp_all add: fields del: of_nat_unat)
  then show "srv (?f @ []) d (DispatchCommand_V2 api CMD_READPROCESSMEMORY) (i32_bytes got @ buf @ []) d'"
    by (simp add: DispatchCommand_V2_def)
qed

lemma clt_read:
  assumes "healthy api" "ready h w" "isValidReadSize n"
    and "run_state (api_ReadProcessMemory api (of_int h) address (replicate (unat n) 0)) d = ((got, buf), d')"
    and "length buf = unat n" "0 \<le> got" "nat got \<le> unat n"
  shows "clt (linked p w [] [] d) (ReadProcessMemoryBytes (link_os api chunk) address n p)
     (if got = 0 then None else Some (take (nat got) buf)) (linked p w [] [] d')"
proof -
  have valid: "\<not> \<not> isValidReadSize n" using assms(3) by simp
  note n = assms(3) [unfolded isValidReadSize_def]
  note ans = read_answer [OF assms(1) conjunct1 [OF n] conjunct2 [OF n] assms(4)]
  show ?thesis
    unfolding ReadProcessMemoryBytes_def Let_def if_not_P [OF valid]
    by (intro clt_execute [OF assms(2)] clt_send clt_first [OF ans] clt_recv)
      (use assms(5-7) n in \<open>auto simp: fields clt_return\<close>)
qed

section \<open>Processes\<close>

text \<open>The client accepts names of at most 64 KiB each and 64 MiB together; \<open>used\<close> bytes have been read before.\<close>

definition fit_names :: "nat \<Rightarrow> string list \<Rightarrow> bool" where
  "fit_names used names \<longleftrightarrow> (\<forall>s\<in>set names. length s \<le> 65536) \<and> used + sum_list (map length names) \<le> 67108864"

lemma fit_names_Nil: "used \<le> 67108864 \<Longrightarrow> fit_names used []"
  by (simp add: fit_names_def)

lemma fit_names_Cons:
  "fit_names used (s # names) \<longleftrightarrow> length s \<le> 65536 \<and> used + length s \<le> 67108864 \<and> fit_names (used + length s) names"
  by (auto simp: fit_names_def)

definition fits_i32 :: "int \<Rightarrow> bool" where
  "fits_i32 i \<longleftrightarrow> - (2 ^ 31) \<le> i \<and> i < 2 ^ 31"

lemma ClampIntCount_fits: "fits_i32 (ClampIntCount n)" "0 \<le> ClampIntCount n"
  by (simp_all add: ClampIntCount_def fits_i32_def)

lemma field_clamp:
  "i32_at (i32_bytes (ClampIntCount n) @ xs) 0 = ClampIntCount n" "i32_at (i32_bytes (ClampIntCount n)) 0 = ClampIntCount n"
  using ClampIntCount_fits(1) [of n] field_i32(1) [of "ClampIntCount n" xs] field_i32(2) [of "ClampIntCount n"] by (simp_all add: fits_i32_def)

lemma ClampIntCount_valid:
  "isValidCount (ClampIntCount n) 65536 \<longleftrightarrow> n \<le> 65536" "isValidCount (int n) 65536 \<longleftrightarrow> n \<le> 65536"
  by (simp_all add: ClampIntCount_def isValidCount_def)

lemma ClampIntCount_small: "n \<le> 65536 \<Longrightarrow> ClampIntCount n = int n"
  by (simp add: ClampIntCount_def)

lemma clt_weaken: "clt P m a Q \<Longrightarrow> (\<And>w. Q w \<Longrightarrow> R w) \<Longrightarrow> clt P m a R"
  unfolding clt_def by blast

text \<open>What a command leaves behind that ends with a complete answer or with a rejected one.\<close>

definition concluded :: "PortType \<Rightarrow> 'd Link ClientWorld \<Rightarrow> 'd \<Rightarrow> bool \<Rightarrow> 'd Link ClientWorld \<Rightarrow> bool" where
  "concluded p w0 d ok w \<longleftrightarrow> lk_device (cw_env w) = d \<and>
     (if ok then linked p w0 [] [] d w else \<not> cw_open w p \<and> cw_session w = MarkPoisoned (cw_session w0))"

lemma clt_done: "a = b \<Longrightarrow> ok \<Longrightarrow> clt (linked p w0 [] [] d) (State_Monad.return a) b (concluded p w0 d ok)"
  by (auto simp: clt_def concluded_def linked_def)

lemma clt_refuse: "a = b \<Longrightarrow> \<not> ok \<Longrightarrow> clt (linked p w0 i out d) (rejectMalformedResponse p a) b (concluded p w0 d ok)"
  using clt_reject [of p w0 i out d a] by (auto simp: clt_def concluded_def)

lemma clt_name:
  assumes "length name \<le> 65536" "clt (linked p w0 [] out d) (k name) a Q"
  shows "clt (linked p w0 [] (bytes_of (take (nat (ClampIntCount (length name))) name) @ out) d)
    (if ClampIntCount (length name) > 0
     then recv_or (link_os api chunk) p (nat (ClampIntCount (length name))) failed (\<lambda>b. k (chars_of b))
     else k []) a Q"
  using assms by (auto simp: ClampIntCount_small intro!: clt_recv)

text \<open>
  The lists of the protocol: each entry is a struct and the name whose length the struct announces. \<open>entry\<close> is the
  server's struct, \<open>decode\<close> the client's entry, \<open>accept\<close> the client's check of an entry after \<open>used\<close> bytes of names, and
  \<open>recv\<close> the client's loop.
\<close>

definition wire_name :: "string \<Rightarrow> bytes" where
  "wire_name name = bytes_of (take (nat (ClampIntCount (length name))) name)"

definition wire_list :: "('x \<Rightarrow> bytes) \<Rightarrow> ('x \<Rightarrow> string) \<Rightarrow> 'x list \<Rightarrow> bytes" where
  "wire_list entry name xs = concat (map (\<lambda>x. entry x @ wire_name (name x)) xs)"

fun accepts :: "('x \<Rightarrow> nat \<Rightarrow> bool) \<Rightarrow> ('x \<Rightarrow> string) \<Rightarrow> nat \<Rightarrow> 'x list \<Rightarrow> bool" where
  "accepts accept name used [] = True"
| "accepts accept name used (x # xs) =
     (accept x used \<and> accepts accept name (used + length (name x)) xs)"

lemma link_recvList:
  assumes "\<And>used items. recv 0 used items = State_Monad.return (Some items)"
    and "\<And>i used items. recv (Suc i) used items =
      recv_or (link_os api chunk) p m None (\<lambda>e.
        if bad e used then rejectMalformedResponse p None
        else if size_of e > 0
        then recv_or (link_os api chunk) p (nat (size_of e)) None (\<lambda>b.
          recv i (used + nat (size_of e)) (items @ [decode e (chars_of b)]))
        else recv i (used + nat (size_of e)) (items @ [decode e []]))"
    and "\<And>x. x \<in> set xs \<Longrightarrow> length (entry x) = m \<and> size_of (entry x) = ClampIntCount (length (name x))"
    and "\<And>x used. x \<in> set xs \<Longrightarrow> within used \<Longrightarrow> bad (entry x) used \<longleftrightarrow> \<not> accept x used"
    and "\<And>x used. x \<in> set xs \<Longrightarrow> accept x used \<Longrightarrow> length (name x) \<le> 65536 \<and> within (used + length (name x))"
    and "within used"
  shows "clt (linked p w0 [] (wire_list entry name xs) d) (recv (length xs) used items)
    (if accepts accept name used xs then Some (items @ map (\<lambda>x. decode (entry x) (name x)) xs) else None)
    (concluded p w0 d (accepts accept name used xs))"
  using assms(3-6)
proof (induction xs arbitrary: used items)
  case Nil
  then show ?case by (simp add: assms(1) wire_list_def clt_done)
next
  case (Cons x xs)
  have wire: "wire_list entry name (x # xs) = entry x @ (wire_name (name x) @ wire_list entry name xs)"
    by (simp add: wire_list_def)
  have x: "length (entry x) = m" "size_of (entry x) = ClampIntCount (length (name x))"
    "bad (entry x) used \<longleftrightarrow> \<not> accept x used"
    using Cons.prems by auto
  show ?case
  proof (cases "accept x used")
    case True
    then have ok: "\<not> \<not> accept x used" and len: "length (name x) \<le> 65536" "within (used + length (name x))"
      using Cons.prems(3) [of x used] by auto
    note IH = Cons.IH [OF Cons.prems(1-3) len(2), of "items @ [decode (entry x) (name x)]"]
    show ?thesis
      unfolding wire length_Cons assms(2)
      by (rule clt_recv, rule x(1), unfold x(2,3) if_not_P [OF ok] wire_name_def,
          rule clt_name [where k = "\<lambda>s. recv (length xs) (used + nat (ClampIntCount (length (name x))))
            (items @ [decode (entry x) s])"])
        (use True len IH in \<open>auto simp: ClampIntCount_small split: if_splits\<close>)
  next
    case False
    then show ?thesis
      unfolding wire length_Cons assms(2)
      by - (rule clt_recv, rule x(1), unfold x(2,3) if_P [OF False], rule clt_refuse, simp_all)
  qed
qed

lemma fit_names_iff_accepts:
  "used \<le> 67108864 \<Longrightarrow>
     accepts (\<lambda>x used. P x \<and> length (name x) \<le> 65536 \<and> used + length (name x) \<le> 67108864) name used xs \<longleftrightarrow>
     (\<forall>x\<in>set xs. P x) \<and> fit_names used (map name xs)"
  by (induction xs arbitrary: used) (auto simp: fit_names_Nil fit_names_Cons)

lemma process_wire:
  "concat (concat (map processParts ps)) =
     wire_list (\<lambda>(pid, name). i32_bytes pid @ i32_bytes (ClampIntCount (length name))) snd ps"
proof -
  have "concat (processParts (pid, name)) =
      (i32_bytes pid @ i32_bytes (ClampIntCount (length name))) @ wire_name name" for pid name
    using ClampIntCount_fits(2) [of "length name"] by (auto simp: processParts_def Let_def wire_name_def)
  then show ?thesis by (induction ps) (auto simp: wire_list_def)
qed

lemma link_recvProcesses:
  assumes "\<forall>q\<in>set ps. fits_i32 (fst q)"
  shows "clt (linked p w0 [] (concat (concat (map processParts ps))) d)
    (recvProcesses (link_os api chunk) p (length ps) 0 [])
    (if fit_names 0 (map snd ps) then Some ps else None) (concluded p w0 d (fit_names 0 (map snd ps)))"
proof -
  let ?entry = "\<lambda>(pid, name). i32_bytes pid @ i32_bytes (ClampIntCount (length name))"
  let ?accept = "\<lambda>x used. True \<and> length (snd x) \<le> 65536 \<and> used + length (snd x) \<le> 67108864"
  have "clt (linked p w0 [] (wire_list ?entry snd ps) d) (recvProcesses (link_os api chunk) p (length ps) 0 [])
    (if accepts ?accept snd 0 ps then Some ([] @ map (\<lambda>x. (i32_at (?entry x) 0, snd x)) ps) else None)
    (concluded p w0 d (accepts ?accept snd 0 ps))"
    by (rule link_recvList [where m = 8 and within = "\<lambda>used. used \<le> 67108864" and decode = "\<lambda>e s. (i32_at e 0, s)" and
      size_of = "\<lambda>e. i32_at e 4" and
      bad = "\<lambda>e used. \<not> isValidCount (i32_at e 4) 65536 \<or> used > 67108864 - nat (i32_at e 4)"])
      (auto simp: field_clamp fields ClampIntCount_valid ClampIntCount_small Let_def)
  moreover have "map (\<lambda>x. (i32_at (?entry x) 0, snd x)) ps = ps"
    by (rule map_idI) (use assms in \<open>auto simp: fits_i32_def fields\<close>)
  ultimately show ?thesis unfolding process_wire
    by (auto simp: fit_names_iff_accepts [where P = "\<lambda>_. True", simplified] split: if_splits)
qed

lemma processes_answer:
  assumes "healthy api" "run_state (api_GetProcessListInfo api) d = (ps, d')"
  shows "answers api d (CMD_GETPROCESSLIST # [] @ [])
    (i32_bytes (ClampIntCount (length ps)) @
     concat (concat (map processParts (take (nat (ClampIntCount (length ps))) ps))) @ []) d'"
proof (rule answersI)
  have "srv [] d (case_GETPROCESSLIST api) (i32_bytes (ClampIntCount (length ps)) @
      concat (concat (map processParts (take (nat (ClampIntCount (length ps))) ps))) @ []) d'"
    unfolding case_GETPROCESSLIST_def Let_def
    by (intro srv_device [OF assms(2)] srv_send assms(1)) (unfold not_True_eq_False if_False, intro srv_intros assms(1))
  then show "srv ([] @ []) d (DispatchCommand_V2 api CMD_GETPROCESSLIST) (i32_bytes (ClampIntCount (length ps)) @
      concat (concat (map processParts (take (nat (ClampIntCount (length ps))) ps))) @ []) d'"
    by (simp add: DispatchCommand_V2_def)
qed (simp_all add: fixedSize_def variableSize_def)

text \<open>
  C12. The client sees the processes of the device. Whatever list the device gives the server, and however the network
  cuts the bytes, the client decodes exactly this list, every pid and name in order, when it has at most 65536
  entries with names of at most 64 KiB each and 64 MiB together. A longer list is refused as a whole and the
  connection is poisoned; the client never returns a part of a list.
\<close>

theorem processes_end_to_end:
  assumes "healthy api" "ready h w" "linked p w [] [] d w"
    and "run_state (api_GetProcessListInfo api) d = (ps, d')" "\<forall>q\<in>set ps. fits_i32 (fst q)"
  shows "\<exists>w'. run_state (FetchProcessList (link_os api chunk) p) w =
      (if length ps \<le> 65536 \<and> fit_names 0 (map snd ps) then Some ps else None, w') \<and>
    concluded p w d' (length ps \<le> 65536 \<and> fit_names 0 (map snd ps)) w'"
proof -
  note ans = processes_answer [OF assms(1,4)]
  have "clt (linked p w [] [] d) (FetchProcessList (link_os api chunk) p)
     (if length ps \<le> 65536 \<and> fit_names 0 (map snd ps) then Some ps else None)
     (concluded p w d' (length ps \<le> 65536 \<and> fit_names 0 (map snd ps)))"
    unfolding FetchProcessList_def Let_def
    by (intro clt_execute(2) [OF assms(2)] clt_send clt_first [OF ans])
      (use link_recvProcesses [OF assms(5), of p w d' api chunk] in
        \<open>auto simp: field_clamp ClampIntCount_valid ClampIntCount_small intro!: clt_refuse split: if_splits\<close>)
  with assms(3) show ?thesis by (simp add: clt_def)
qed

text \<open>A client that is connected to a server with the device \<open>d\<close>, for examples.\<close>

definition demo_link :: "'d \<Rightarrow> 'd Link ClientWorld" where
  "demo_link d =
     \<lparr>cw_env = \<lparr>lk_in = (\<lambda>_. []), lk_out = (\<lambda>_. []), lk_open = (\<lambda>_. True), lk_running = True, lk_device = d, lk_tick = 0\<rparr>,
      cw_session = \<lparr>ds_state = Connected, ds_generation = 1\<rparr>,
      cw_app = \<lparr>ac_selectedPid = 42, ac_processHandle = 1, ac_processRevision = 2, ac_selectedName = ''init'',
        ac_moduleCache = \<lparr>mc_modules = [], mc_symbols = Map.empty, mc_valid = False, mc_lastRefreshTime = 0\<rparr>\<rparr>,
      cw_open = (\<lambda>_. True), cw_stream = (\<lambda>_. []), cw_delivered = (\<lambda>_. []), cw_tracked = []\<rparr>"

lemma demo_link_ready: "ready 1 (demo_link d)" "linked p (demo_link d) [] [] d (demo_link d)"
  by (simp_all add: demo_link_def ready_def linked_def)

theorem processes_end_to_end_witness:
  "\<exists>w'. run_state (FetchProcessList (link_os (null_api\<lparr>api_GetProcessListInfo :=
       State_Monad.return [(1, ''init''), (42, [])]\<rparr>) (\<lambda>_. 3)) PORT_MAIN) (demo_link ()) =
     (Some [(1, ''init''), (42, [])], w') \<and> cw_open w' PORT_MAIN"
proof -
  let ?api = "null_api\<lparr>api_GetProcessListInfo := State_Monad.return [(1, ''init''), (42, [])]\<rparr> :: unit CApi"
  have "healthy ?api" by (simp add: healthy_def null_api_def)
  moreover have "run_state (api_GetProcessListInfo ?api) () = ([(1, ''init''), (42, [])], ())" by simp
  ultimately show ?thesis
    using processes_end_to_end [OF _ demo_link_ready, of ?api "()" "[(1, ''init''), (42, [])]" "()" "\<lambda>_. 3" PORT_MAIN]
    by (auto simp: fits_i32_def fit_names_def concluded_def linked_def demo_link_def)
qed

section \<open>Modules\<close>

text \<open>What the client shows for a module of the device: a size of 4 GiB or more is cut to 32 bits.\<close>

definition shown_module :: "ServerModule \<Rightarrow> ModuleInfo" where
  "shown_module m = \<lparr>mi_base = sm_baseAddress m, mi_size = min (sm_moduleSize m) (ucast UINT32_MAX),
     mi_type = sm_type m, mi_flag = sm_flag m, mi_name = sm_moduleName m\<rparr>"

definition fit_modules :: "ServerModule list \<Rightarrow> bool" where
  "fit_modules ms \<longleftrightarrow> length ms \<le> 65536 \<and> (\<forall>m\<in>set ms. sm_moduleSize m \<noteq> 0) \<and> fit_names 0 (map sm_moduleName ms)"

lemma ucast_ClampUint32Size: "(ucast (ClampUint32Size n) :: u64) = min n (ucast UINT32_MAX)"
  by (auto simp: ClampUint32Size_def min_def word_le_nat_alt word_less_nat_alt word_unat_eq_iff
      unsigned_ucast_eq take_bit_nat_eq_self)

definition module_entry :: "ServerModule \<Rightarrow> bytes" where
  "module_entry m = i32_bytes (sm_type m) @ i32_bytes (sm_flag m) @ u64_bytes (sm_baseAddress m) @
     u32_bytes (ClampUint32Size (sm_moduleSize m)) @ i32_bytes (ClampIntCount (length (sm_moduleName m)))"

lemma module_wire: "concat (concat (map moduleParts ms)) = wire_list module_entry sm_moduleName ms"
proof -
  have "concat (moduleParts m) = module_entry m @ wire_name (sm_moduleName m)" for m
    using ClampIntCount_fits(2) [of "length (sm_moduleName m)"]
    by (auto simp: moduleParts_def Let_def wire_name_def module_entry_def)
  then show ?thesis by (induction ms) (auto simp: wire_list_def)
qed

lemma module_entry_fields:
  assumes "fits_i32 (sm_type m)" "fits_i32 (sm_flag m)"
  shows "length (module_entry m) = 24" "i32_at (module_entry m) 0 = sm_type m" "i32_at (module_entry m) 4 = sm_flag m"
    "u64_at (module_entry m) 8 = sm_baseAddress m" "ucast (u32_at (module_entry m) 16) = min (sm_moduleSize m) (ucast UINT32_MAX)"
    "i32_at (module_entry m) 20 = ClampIntCount (length (sm_moduleName m))"
  using assms by (simp_all add: module_entry_def fits_i32_def fields field_clamp ucast_ClampUint32Size)

lemma link_recvModules:
  assumes "\<forall>m\<in>set ms. fits_i32 (sm_type m) \<and> fits_i32 (sm_flag m)" "length ms \<le> 65536"
  shows "clt (linked p w0 [] (concat (concat (map moduleParts ms))) d)
    (recvModules (link_os api chunk) p (length ms) 0 [])
    (if fit_modules ms then Some (map shown_module ms) else None) (concluded p w0 d (fit_modules ms))"
proof -
  let ?accept = "\<lambda>m used. sm_moduleSize m \<noteq> 0 \<and> length (sm_moduleName m) \<le> 65536 \<and>
    used + length (sm_moduleName m) \<le> 67108864"
  let ?item = "\<lambda>entry name. \<lparr>mi_base = u64_at entry 8, mi_size = ucast (u32_at entry 16), mi_type = i32_at entry 0,
    mi_flag = i32_at entry 4, mi_name = name\<rparr>"
  have nz: "min n 4294967295 = (0 :: u64) \<longleftrightarrow> n = 0" for n
    by (auto simp: min_def)
  have "clt (linked p w0 [] (wire_list module_entry sm_moduleName ms) d)
    (recvModules (link_os api chunk) p (length ms) 0 [])
    (if accepts ?accept sm_moduleName 0 ms
     then Some ([] @ map (\<lambda>m. ?item (module_entry m) (sm_moduleName m)) ms) else None)
    (concluded p w0 d (accepts ?accept sm_moduleName 0 ms))"
    by (rule link_recvList [where m = 24 and within = "\<lambda>used. used \<le> 67108864" and decode = ?item and
      size_of = "\<lambda>e. i32_at e 20" and
      bad = "\<lambda>e used. (ucast (u32_at e 16) :: u64) = 0 \<or> \<not> isValidCount (i32_at e 20) 65536 \<or>
        used > 67108864 - nat (i32_at e 20)"])
      (use assms(1) in \<open>auto simp: module_entry_fields nz ClampIntCount_valid ClampIntCount_small Let_def\<close>)
  moreover have "map (\<lambda>m. ?item (module_entry m) (sm_moduleName m)) ms = map shown_module ms"
    using assms(1) by (auto simp: module_entry_fields shown_module_def)
  moreover have "accepts ?accept sm_moduleName 0 ms \<longleftrightarrow> fit_modules ms"
    using assms(2) fit_names_iff_accepts [of 0 "\<lambda>m. sm_moduleSize m \<noteq> 0" sm_moduleName ms] by (simp add: fit_modules_def)
  ultimately show ?thesis unfolding module_wire by (simp only: append_Nil)
qed

lemma modules_answer:
  assumes "healthy api" "run_state (api_GetModuleList api h) d = (ms, d')" "fits_i32 h"
  shows "answers api d (CMD_GETMODULELIST # i32_bytes h @ [])
    (i32_bytes (ClampIntCount (length ms)) @
     concat (concat (map moduleParts (take (nat (ClampIntCount (length ms))) ms))) @ []) d'"
    (is "answers _ _ _ ?out _")
proof (rule answersI)
  have h: "i32_at (i32_bytes h) 0 = h" using assms(3) by (simp add: fits_i32_def fields)
  have "srv (i32_bytes h @ []) d (case_GETMODULELIST api) ?out d'"
    unfolding case_GETMODULELIST_def Let_def
    by (rule srv_receive_into, simp, unfold h)
      (intro srv_device [OF assms(2)] srv_send assms(1), unfold not_True_eq_False if_False, intro srv_intros assms(1))
  then show "srv (i32_bytes h @ []) d (DispatchCommand_V2 api CMD_GETMODULELIST) ?out d'"
    by (simp add: DispatchCommand_V2_def)
qed (simp_all add: fixedSize_def variableSize_def)

text \<open>
  C13. The client sees the modules of the device. It decodes exactly the module list of the server, in order, with the size
  of each module cut to 32 bits, when the list is within the same limits and no module is empty; otherwise the
  list is refused as a whole and the connection is poisoned.
\<close>

theorem modules_end_to_end:
  assumes "healthy api" "ready h w" "linked p w [] [] d w"
    and "run_state (api_GetModuleList api h) d = (ms, d')"
    and "\<forall>m\<in>set ms. fits_i32 (sm_type m) \<and> fits_i32 (sm_flag m)"
  shows "\<exists>w'. run_state (FetchModuleList (link_os api chunk) p) w =
      (if fit_modules ms then Some (map shown_module ms) else None, w') \<and> concluded p w d' (fit_modules ms) w'"
proof -
  have "fits_i32 h" using assms(2) by (simp add: ready_def fits_i32_def)
  note ans = modules_answer [OF assms(1,4) this]
  have "clt (linked p w [] [] d) (FetchModuleList (link_os api chunk) p)
     (if fit_modules ms then Some (map shown_module ms) else None) (concluded p w d' (fit_modules ms))"
    unfolding FetchModuleList_def sendCommandWithHandle_def Let_def
    by (intro clt_execute(1) [OF assms(2)] clt_send clt_first [OF ans])
      (use link_recvModules [OF assms(5), of p w d' api chunk] in
        \<open>auto simp: field_clamp ClampIntCount_valid ClampIntCount_small fit_modules_def intro!: clt_refuse split: if_splits\<close>)
  with assms(3) show ?thesis by (simp add: clt_def)
qed

definition demo_modules :: "ServerModule list" where
  "demo_modules = [\<lparr>sm_type = 1, sm_flag = 5, sm_baseAddress = 0x7000000000, sm_moduleSize = 0x200000000,
     sm_moduleName = ''libc.so''\<rparr>]"

theorem modules_end_to_end_witness:
  "\<exists>w'. run_state (FetchModuleList (link_os (null_api\<lparr>api_GetModuleList := \<lambda>_. State_Monad.return demo_modules\<rparr>)
       (\<lambda>_. 3)) PORT_MAIN) (demo_link ()) =
     (Some [\<lparr>mi_base = 0x7000000000, mi_size = 0xFFFFFFFF, mi_type = 1, mi_flag = 5, mi_name = ''libc.so''\<rparr>], w') \<and>
     cw_open w' PORT_MAIN"
proof -
  let ?api = "null_api\<lparr>api_GetModuleList := \<lambda>_. State_Monad.return demo_modules\<rparr> :: unit CApi"
  have "healthy ?api" by (simp add: healthy_def null_api_def)
  moreover have "run_state (api_GetModuleList ?api 1) () = (demo_modules, ())" by simp
  ultimately show ?thesis
    using modules_end_to_end [OF _ demo_link_ready, of ?api "()" demo_modules "()" "\<lambda>_. 3" PORT_MAIN]
    by (auto simp: demo_modules_def fits_i32_def fit_modules_def fit_names_def shown_module_def concluded_def
        linked_def demo_link_def min_def)
qed

section \<open>Symbols\<close>

definition symbol_entry :: "u64 \<times> string \<Rightarrow> bytes" where
  "symbol_entry e = u64_bytes (fst e) @ i32_bytes (ClampIntCount (length (snd e)))"

definition shown_symbol :: "u64 \<times> string \<Rightarrow> SymbolInfo" where
  "shown_symbol e = \<lparr>si_address = fst e, si_name = snd e\<rparr>"

definition short_names :: "(u64 \<times> string) list \<Rightarrow> bool" where
  "short_names es \<longleftrightarrow> (\<forall>e\<in>set es. length (snd e) \<le> 65536)"

lemma symbol_wire: "concat (concat (map symbolParts es)) = wire_list symbol_entry snd es"
proof -
  have "concat (symbolParts e) = symbol_entry e @ wire_name (snd e)" for e
    using ClampIntCount_fits(2) [of "length (snd e)"]
    by (auto simp: symbolParts_def Let_def wire_name_def symbol_entry_def split: prod.splits)
  then show ?thesis by (induction es) (auto simp: wire_list_def)
qed

lemma accepts_all: "accepts (\<lambda>x _. P x) name used xs \<longleftrightarrow> (\<forall>x\<in>set xs. P x)"
  by (induction xs arbitrary: used) auto

lemma link_recvSymbols:
  "clt (linked p w0 [] (concat (concat (map symbolParts es))) d)
    (recvSymbols (link_os api chunk) p (length es) [])
    (if short_names es then Some (map shown_symbol es) else None)
    (concluded p w0 d (short_names es))"
proof -
  let ?accept = "\<lambda>e _. length (snd e) \<le> 65536"
  let ?item = "\<lambda>e s. \<lparr>si_address = u64_at e 0, si_name = s\<rparr>"
  have "clt (linked p w0 [] (wire_list symbol_entry snd es) d)
    ((\<lambda>i used items. recvSymbols (link_os api chunk) p i items) (length es) 0 [])
    (if accepts ?accept snd 0 es then Some ([] @ map (\<lambda>e. ?item (symbol_entry e) (snd e)) es) else None)
    (concluded p w0 d (accepts ?accept snd 0 es))"
    by (rule link_recvList [where m = 12 and within = "\<lambda>_. True" and decode = ?item and
      size_of = "\<lambda>e. i32_at e 8" and bad = "\<lambda>e used. \<not> isValidCount (i32_at e 8) 65536"])
      (auto simp: symbol_entry_def fields field_clamp ClampIntCount_valid Let_def)
  moreover have "map (\<lambda>e. ?item (symbol_entry e) (snd e)) es = map shown_symbol es"
    by (simp add: symbol_entry_def fields shown_symbol_def)
  ultimately show ?thesis unfolding symbol_wire accepts_all short_names_def by (simp only: append_Nil)
qed

lemma symbols_answer:
  assumes "healthy api" "run_state (api_SymbolGetList api off n) d = (es, d1)"
    and "run_state (api_SymbolGetCount api) d1 = (number, d')" "fits_i32 off" "fits_i32 n"
  shows "answers api d (CMD_SYMBOL_GETLIST # (i32_bytes off @ i32_bytes n) @ [])
    ((i32_bytes number @ i32_bytes (ClampIntCount (length es))) @
     concat (concat (map symbolParts (take (nat (ClampIntCount (length es))) es))) @ []) d'"
    (is "answers _ _ _ ?out _")
proof (rule answersI)
  let ?f = "i32_bytes off @ i32_bytes n"
  have f: "i32_at ?f 0 = off" "i32_at ?f 4 = n" using assms(4,5) by (simp_all add: fits_i32_def fields)
  have "srv (?f @ []) d (case_SYMBOL_GETLIST api) ?out d'"
    unfolding case_SYMBOL_GETLIST_def Let_def
    by (rule srv_receive_or, simp, unfold f)
      (intro srv_device [OF assms(2)] srv_device [OF assms(3)] srv_send srv_intros assms(1))
  then show "srv (?f @ []) d (DispatchCommand_V2 api CMD_SYMBOL_GETLIST) ?out d'"
    by (simp add: DispatchCommand_V2_def)
qed (simp_all add: fixedSize_def variableSize_def)

text \<open>A page of symbols that the client accepts: as many as asked for at most, from a table of at most a million.\<close>

definition fit_symbols :: "int \<Rightarrow> int \<Rightarrow> (u64 \<times> string) list \<Rightarrow> bool" where
  "fit_symbols n number es \<longleftrightarrow> 0 \<le> number \<and> number \<le> 1000000 \<and> int (length es) \<le> n \<and> short_names es"

lemma clt_page:
  assumes "length es \<le> 65536"
  shows "clt (linked p w0 [] (concat (concat (map symbolParts es))) d)
    (do { symbols \<leftarrow> recvSymbols (link_os api chunk) p (length es) [];
       State_Monad.return (case symbols of None \<Rightarrow> None | Some ss \<Rightarrow> Some (ss, number)) })
    (if short_names es
     then Some (map shown_symbol es, number) else None)
    (concluded p w0 d (short_names es))"
  using link_recvSymbols [of p w0 es d api chunk] by (auto simp: clt_def run_state_bind split: if_splits)

lemma symbols_end_to_end:
  assumes "healthy api" "ready h w" "linked p w [] [] d w" "0 \<le> off" "fits_i32 off" "0 \<le> n" "n \<le> 1000"
    and "run_state (api_SymbolGetList api off n) d = (es, d1)"
    and "run_state (api_SymbolGetCount api) d1 = (number, d')" "fits_i32 number"
  shows "\<exists>w'. run_state (SymbolGetList (link_os api chunk) off n p) w =
      (if fit_symbols n number es then Some (map shown_symbol es, number) else None, w') \<and>
    concluded p w d' (fit_symbols n number es) w'"
proof -
  have "fits_i32 n" using assms(6,7) by (simp add: fits_i32_def)
  note ans = symbols_answer [OF assms(1,8,9,5) this]
  have hdr: "i32_at (i32_bytes number @ i32_bytes (ClampIntCount (length es))) 0 = number"
    "i32_at (i32_bytes number @ i32_bytes (ClampIntCount (length es))) 4 = ClampIntCount (length es)"
    using assms(10) by (simp_all add: fits_i32_def fields field_clamp)
  have args: "\<not> (off < 0 \<or> n < 0 \<or> n > 1000)" using assms(4,6,7) by simp
  have big: "ClampIntCount (length es) > n \<longleftrightarrow> int (length es) > n" using assms(7) by (simp add: ClampIntCount_def)
  have "clt (linked p w [] [] d) (SymbolGetList (link_os api chunk) off n p)
     (if fit_symbols n number es then Some (map shown_symbol es, number) else None)
     (concluded p w d' (fit_symbols n number es))"
    unfolding SymbolGetList_def Let_def if_not_P [OF args]
    by (intro clt_execute(1) [OF assms(2)] clt_send clt_first [OF ans], simp, simp, simp, unfold hdr, cases
        "0 \<le> number \<and> number \<le> 1000000 \<and> int (length es) \<le> n")
      (use big ClampIntCount_fits(2) [of "length es"] assms(7) clt_page [of es p w d' api chunk number] in
        \<open>auto simp: isValidCount_def fit_symbols_def ClampIntCount_small intro!: clt_refuse split: if_splits\<close>)
  with assms(3) show ?thesis by (simp add: clt_def)
qed

end
