(* ===== verification/ModuleLookup.thy ===== *)
theory ModuleLookup
  imports MemTypes
begin

text \<open>
  The pure helpers of \<open>gui/mem/MemService.cpp\<close> (lines 16 to 172): trimming and lower-casing of
  names, checked address arithmetic, decoding of a pointer, validation of a module list, and the
  two ways a client names a module. The loops of the sources are index loops; the lemmas give
  their closed forms and what a successful lookup returns.
\<close>

unbundle bit_operations_syntax

section \<open>Text\<close>

function trim_begin :: "string \<Rightarrow> nat \<Rightarrow> nat" where
  "trim_begin s b = (if b < length s \<and> isspace (s ! b) then trim_begin s (b + 1) else b)"
  by pat_completeness auto
termination
  by (relation "measure (\<lambda>(s, b). length s - b)") auto

fun trim_end :: "string \<Rightarrow> nat \<Rightarrow> nat \<Rightarrow> nat" where
  "trim_end s b 0 = 0"
| "trim_end s b (Suc e) = (if Suc e > b \<and> isspace (s ! e) then trim_end s b e else Suc e)"

definition trimAscii :: "string \<Rightarrow> string" where
  "trimAscii s =
     (let b = trim_begin s 0; e = trim_end s b (length s) in substr s b (e - b))"

definition lowerAscii :: "string \<Rightarrow> string" where
  "lowerAscii s = map tolower s"

definition moduleBaseName :: "string \<Rightarrow> string" where
  "moduleBaseName path =
     (case str_find_last_of path [CHR ''/'', CHR 0x5C] of
        None \<Rightarrow> path
      | Some slash \<Rightarrow> drop (slash + 1) path)"

section \<open>Addresses\<close>

definition addAddressOffset :: "u64 \<Rightarrow> u64 \<Rightarrow> u64 option" where
  "addAddressOffset base off =
     (if base > UINT64_MAX - off then None else Some (base + off))"

definition decodePointer :: "bytes \<Rightarrow> u64 option" where
  "decodePointer bs =
     (if length bs \<noteq> 8 then None
      else Some (fold (\<lambda>i value. value OR push_bit (i * 8) (ucast (bs ! i))) [0..<8] 0))"

section \<open>Module lists\<close>

fun validateModules_loop :: "ModuleInfo list \<Rightarrow> nat \<Rightarrow> Error option" where
  "validateModules_loop [] totalNameBytes = None"
| "validateModules_loop (m # ms) totalNameBytes =
     (if mi_base m = 0 \<or> mi_size m = 0 \<or> mi_base m > UINT64_MAX - mi_size m \<or>
         length (mi_name m) > kMaxTextBytes * 16 \<or>
         totalNameBytes > kMaxModuleNameBytesTotal - length (mi_name m)
      then Some (mkError ProtocolError ''module response contains an invalid entry'' False)
      else validateModules_loop ms (totalNameBytes + length (mi_name m)))"

definition validateModules :: "ModuleInfo list \<Rightarrow> Error option" where
  "validateModules ms =
     (if length ms > kMaxModuleCount
      then Some (mkError ProtocolError ''module response exceeds the service limit'' False)
      else validateModules_loop ms 0)"

record ModuleGroup =
  mg_key :: string
  mg_module :: ModuleInfo

fun groupModules_insert :: "string \<Rightarrow> ModuleInfo \<Rightarrow> ModuleGroup list \<Rightarrow> ModuleGroup list" where
  "groupModules_insert key m [] = [\<lparr>mg_key = key, mg_module = m\<rparr>]"
| "groupModules_insert key m (g # gs) =
     (if mg_key g = key
      then (if mi_base m < mi_base (mg_module g) then g\<lparr>mg_module := m\<rparr> else g) # gs
      else g # groupModules_insert key m gs)"

fun groupModules_loop :: "ModuleInfo list \<Rightarrow> ModuleGroup list \<Rightarrow> ModuleGroup list" where
  "groupModules_loop [] groups = groups"
| "groupModules_loop (m # ms) groups =
     groupModules_loop ms (groupModules_insert (lowerAscii (mi_name m)) m groups)"

definition groupModules :: "ModuleInfo list \<Rightarrow> ModuleGroup list" where
  "groupModules ms = groupModules_loop ms []"

definition resolveModuleByName :: "ModuleInfo list \<Rightarrow> string \<Rightarrow> Error + ModuleInfo" where
  "resolveModuleByName ms rawQuery =
     (let query = lowerAscii (trimAscii rawQuery) in
      if query = [] then Inl (mkError InvalidArgument ''module name must not be empty'' False)
      else
        let groups = groupModules ms;
            full = filter (\<lambda>g. mg_key g = query) groups;
            base = filter (\<lambda>g. lowerAscii (moduleBaseName (mi_name (mg_module g))) = query) groups;
            substring = filter (\<lambda>g. str_find (mg_key g) query 0 \<noteq> None) groups;
            matches = (if full \<noteq> [] then full else if base \<noteq> [] then base else substring)
        in case matches of
             [] \<Rightarrow> Inl (mkError InvalidArgument
                         ''module name did not match a loaded module'' False)
           | [g] \<Rightarrow> Inr (mg_module g)
           | _ \<Rightarrow> Inl (mkError InvalidArgument ''module name is ambiguous'' False))"

fun lowest_of_key :: "string \<Rightarrow> ModuleInfo list \<Rightarrow> ModuleInfo \<Rightarrow> ModuleInfo" where
  "lowest_of_key key [] resolved = resolved"
| "lowest_of_key key (m # ms) resolved =
     lowest_of_key key ms
       (if lowerAscii (mi_name m) = key \<and> mi_base m < mi_base resolved then m else resolved)"

definition resolveModuleByBase :: "ModuleInfo list \<Rightarrow> u64 \<Rightarrow> Error + ModuleInfo" where
  "resolveModuleByBase ms base =
     (case List.find (\<lambda>m. mi_base m = base) ms of
        None \<Rightarrow> Inl (mkError InvalidArgument ''module base did not match a loaded module'' False)
      | Some exact \<Rightarrow> Inr (lowest_of_key (lowerAscii (mi_name exact)) ms exact))"

section \<open>Text: closed forms\<close>

declare trim_begin.simps [simp del]

lemma trim_begin_dropWhile:
  "b \<le> length s \<Longrightarrow> drop (trim_begin s b) s = dropWhile isspace (drop b s) \<and>
     b \<le> trim_begin s b \<and> trim_begin s b \<le> length s"
proof (induction s b rule: trim_begin.induct)
  case (1 s b)
  show ?case
  proof (cases "b < length s \<and> isspace (s ! b)")
    case True
    then show ?thesis
      using 1 by (auto simp: trim_begin.simps [of s b] Cons_nth_drop_Suc [symmetric])
  next
    case False
    then have "trim_begin s b = b" by (subst trim_begin.simps) auto
    moreover have "dropWhile isspace (drop b s) = drop b s"
      using False by (cases "b < length s") (auto simp: Cons_nth_drop_Suc [symmetric])
    ultimately show ?thesis using 1(2) by simp
  qed
qed

lemma trim_end_dropWhile:
  "b \<le> e \<Longrightarrow> e \<le> length s \<Longrightarrow>
     substr s b (trim_end s b e - b) = rev (dropWhile isspace (rev (substr s b (e - b)))) \<and>
     b \<le> trim_end s b e"
proof (induction s b e rule: trim_end.induct)
  case (2 s b e)
  show ?case
  proof (cases "b \<le> e")
    case True
    with 2(3) have "substr s b (Suc e - b) = substr s b (e - b) @ [s ! e]"
      by (simp add: substr_def Suc_diff_le take_Suc_conv_app_nth)
    with 2 True show ?thesis by auto
  next
    case False
    with 2(2) have "b = Suc e" by simp
    then show ?thesis by (simp add: substr_def)
  qed
qed (simp add: substr_def)

lemma trimAscii_eq: "trimAscii s = rev (dropWhile isspace (rev (dropWhile isspace s)))"
proof -
  let ?b = "trim_begin s 0"
  have b: "drop ?b s = dropWhile isspace s" "?b \<le> length s"
    using trim_begin_dropWhile [of 0 s] by auto
  have "substr s ?b (trim_end s ?b (length s) - ?b) =
      rev (dropWhile isspace (rev (substr s ?b (length s - ?b))))"
    using trim_end_dropWhile [OF b(2) order_refl] by simp
  moreover have "substr s ?b (length s - ?b) = dropWhile isspace s"
    by (simp add: substr_def b(1) [symmetric])
  ultimately show ?thesis by (simp add: trimAscii_def Let_def)
qed

lemma tolower_idem [simp]: "tolower (tolower c) = tolower c"
proof -
  have "of_char (char_of (n + 32 :: nat) :: char) = (n + 32 :: nat)" if "n \<le> 90" for n :: nat
    using that by (simp add: of_char_of)
  then show ?thesis by (auto simp: tolower_def Let_def)
qed

lemma lowerAscii_idem [simp]: "lowerAscii (lowerAscii s) = lowerAscii s"
  by (simp add: lowerAscii_def)

lemma tolower_slash_iff [simp]:
  "tolower c \<in> {CHR ''/'', CHR 0x5C} \<longleftrightarrow> c \<in> {CHR ''/'', CHR 0x5C}"
proof (cases "65 \<le> (of_char c :: nat) \<and> (of_char c :: nat) \<le> 90")
  case True
  then have "of_char (tolower c) = (of_char c + 32 :: nat)"
    by (simp add: tolower_def Let_def of_char_of)
  moreover have "of_char (CHR ''/'') = (47 :: nat)" "of_char (CHR 0x5C) = (92 :: nat)"
    by simp_all
  ultimately show ?thesis using True by auto
next
  case False
  then show ?thesis by (auto simp: tolower_def Let_def)
qed

lemma lowerAscii_moduleBaseName: "lowerAscii (moduleBaseName s) = moduleBaseName (lowerAscii s)"
proof -
  have "find (\<lambda>i. map tolower s ! i \<in> {CHR ''/'', CHR 0x5C}) xs =
        find (\<lambda>i. s ! i \<in> {CHR ''/'', CHR 0x5C}) xs" if "set xs \<subseteq> {..<length s}" for xs
    using that by (induction xs) (simp_all del: insert_iff)
  then have "str_find_last_of (map tolower s) [CHR ''/'', CHR 0x5C] =
      str_find_last_of s [CHR ''/'', CHR 0x5C]"
    unfolding str_find_last_of_def by (simp add: lessThan_atLeast0 del: insert_iff)
  then show ?thesis
    by (simp add: moduleBaseName_def lowerAscii_def drop_map split: option.splits)
qed

section \<open>Addresses\<close>

lemma addAddressOffset_Some_iff:
  "addAddressOffset a d = Some r \<longleftrightarrow> unat a + unat d < 2 ^ 64 \<and> r = a + d"
  unfolding addAddressOffset_def UINT64_MAX_eq using word_no_wrap_iff [of d a] by auto

lemma addAddressOffset_unat:
  "addAddressOffset a d = Some r \<Longrightarrow> unat r = unat a + unat d"
  by (auto simp: addAddressOffset_Some_iff unat_word_ariths)

lemma fold_or_bytes_bit:
  "bit (fold (\<lambda>i v. v OR push_bit (i * 8) (ucast (bs ! i :: u8))) xs (v0 :: u64)) n \<longleftrightarrow>
     bit v0 n \<or> (\<exists>i \<in> set xs. n < 64 \<and> i * 8 \<le> n \<and> n - i * 8 < 8 \<and> bit (bs ! i) (n - i * 8))"
proof (induction xs arbitrary: v0)
  case (Cons x xs)
  have "bit (push_bit (x * 8) (ucast (bs ! x) :: u64)) n \<longleftrightarrow>
      n < 64 \<and> x * 8 \<le> n \<and> n - x * 8 < 8 \<and> bit (bs ! x) (n - x * 8)"
    by (auto simp: bit_push_bit_iff bit_ucast_iff dest: bit_imp_le_length)
  with Cons show ?case by (auto simp: bit_or_iff)
qed simp

text \<open>The pointer that a little-endian target stores is the pointer that is decoded.\<close>

lemma decodePointer_le:
  assumes "bs = map (\<lambda>i. ucast (drop_bit (i * 8) v)) [0..<8]"
  shows "decodePointer bs = Some v"
proof -
  have "fold (\<lambda>i value. value OR push_bit (i * 8) (ucast (bs ! i))) [0..<8] 0 = v" (is "?w = v")
  proof (rule bit_eqI)
    fix n assume "possible_bit TYPE(64 word) n"
    then have n: "n < 64" by simp
    have nth: "bs ! i = ucast (drop_bit (i * 8) v)" if "i < 8" for i
      using assms that by (simp add: nth_append del: upt_Suc)
    have "bit ?w n \<longleftrightarrow> (\<exists>i < 8. i * 8 \<le> n \<and> n - i * 8 < 8 \<and> bit (bs ! i) (n - i * 8))"
      unfolding fold_or_bytes_bit using n by (simp add: Bex_def del: upt_Suc)
    also have "\<dots> \<longleftrightarrow> (\<exists>i < 8. i * 8 \<le> n \<and> n - i * 8 < 8 \<and> bit v n)"
      using n by (auto simp: nth bit_ucast_iff bit_drop_bit_eq)
    also have "\<dots> \<longleftrightarrow> bit v n"
    proof -
      have "n div 8 < 8" "n div 8 * 8 \<le> n" "n - n div 8 * 8 < 8" using n by auto
      then show ?thesis by blast
    qed
    finally show "bit ?w n \<longleftrightarrow> bit v n" .
  qed
  moreover have "length bs = 8" using assms by simp
  ultimately show ?thesis by (simp only: decodePointer_def) simp
qed

section \<open>Module groups\<close>

text \<open>
  \<open>groups_of ms gs\<close>: the groups \<open>gs\<close> describe the modules \<open>ms\<close>. There is one group per
  lower-case name, and it holds a module of that name with the lowest base.
\<close>

definition groups_of :: "ModuleInfo list \<Rightarrow> ModuleGroup list \<Rightarrow> bool" where
  "groups_of ms gs \<longleftrightarrow>
     distinct (map mg_key gs) \<and>
     set (map mg_key gs) = (\<lambda>m. lowerAscii (mi_name m)) ` set ms \<and>
     (\<forall>g \<in> set gs. mg_module g \<in> set ms \<and> lowerAscii (mi_name (mg_module g)) = mg_key g \<and>
        (\<forall>m \<in> set ms. lowerAscii (mi_name m) = mg_key g \<longrightarrow> mi_base (mg_module g) \<le> mi_base m))"

lemma keys_groupModules_insert:
  "map mg_key (groupModules_insert key m gs) =
     (if key \<in> set (map mg_key gs) then map mg_key gs else map mg_key gs @ [key])"
  by (induction gs) auto

lemma set_groupModules_insert:
  assumes "distinct (map mg_key gs)" "g \<in> set (groupModules_insert key m gs)"
  shows "(g \<in> set gs \<and> (mg_key g = key \<longrightarrow> mi_base (mg_module g) \<le> mi_base m)) \<or>
         (mg_key g = key \<and> mg_module g = m \<and>
          (\<forall>h \<in> set gs. mg_key h = key \<longrightarrow> mi_base m \<le> mi_base (mg_module h)))"
  using assms
proof (induction gs)
  case (Cons h gs)
  show ?case
  proof (cases "mg_key h = key")
    case True
    with Cons.prems(1) have "\<And>x. x \<in> set gs \<Longrightarrow> mg_key x \<noteq> key" by (metis distinct.simps(2) image_eqI list.simps(9) set_map)
    with True Cons.prems(2) show ?thesis by (auto split: if_splits)
  next
    case False
    with Cons show ?thesis by auto
  qed
qed simp

lemma groups_of_insert:
  assumes "groups_of ms gs"
  shows "groups_of (ms @ [m]) (groupModules_insert (lowerAscii (mi_name m)) m gs)"
proof -
  let ?k = "lowerAscii (mi_name m)" and ?gs = "groupModules_insert (lowerAscii (mi_name m)) m gs"
  from assms have d: "distinct (map mg_key gs)"
    and ks: "set (map mg_key gs) = (\<lambda>m. lowerAscii (mi_name m)) ` set ms"
    by (auto simp: groups_of_def)
  have "distinct (map mg_key ?gs)" using d by (auto simp: keys_groupModules_insert)
  moreover have "set (map mg_key ?gs) = (\<lambda>m. lowerAscii (mi_name m)) ` set (ms @ [m])"
    using ks by (simp only: keys_groupModules_insert) auto
  moreover have "mg_module g \<in> set (ms @ [m]) \<and> lowerAscii (mi_name (mg_module g)) = mg_key g \<and>
      (\<forall>n \<in> set (ms @ [m]). lowerAscii (mi_name n) = mg_key g \<longrightarrow> mi_base (mg_module g) \<le> mi_base n)"
    if g: "g \<in> set ?gs" for g
    using set_groupModules_insert [OF d g]
  proof
    assume *: "g \<in> set gs \<and> (mg_key g = ?k \<longrightarrow> mi_base (mg_module g) \<le> mi_base m)"
    with assms show ?thesis by (auto simp: groups_of_def)
  next
    assume *: "mg_key g = ?k \<and> mg_module g = m \<and>
      (\<forall>h \<in> set gs. mg_key h = ?k \<longrightarrow> mi_base m \<le> mi_base (mg_module h))"
    have "mi_base m \<le> mi_base n" if n: "n \<in> set ms" "lowerAscii (mi_name n) = ?k" for n
    proof -
      from n have "?k \<in> set (map mg_key gs)" unfolding ks by (metis image_eqI)
      then obtain h where h: "h \<in> set gs" "mg_key h = ?k" by auto
      with * have "mi_base m \<le> mi_base (mg_module h)" by blast
      also have "\<dots> \<le> mi_base n" using assms h n by (auto simp: groups_of_def)
      finally show ?thesis .
    qed
    with * show ?thesis by auto
  qed
  ultimately show ?thesis unfolding groups_of_def by blast
qed

lemma groups_of_loop: "groups_of ms gs \<Longrightarrow> groups_of (ms @ ns) (groupModules_loop ns gs)"
proof (induction ns arbitrary: ms gs)
  case (Cons n ns)
  from Cons.IH [OF groups_of_insert [OF Cons.prems, of n]] show ?case by simp
qed simp

lemma groups_of_groupModules: "groups_of ms (groupModules ms)"
  using groups_of_loop [of "[]" "[]" ms] by (simp add: groupModules_def groups_of_def)

section \<open>Looking a module up\<close>

text \<open>
  What a name means, over the set of lower-case module names: an exact name wins over a file
  name, and a file name over a part of a name.
\<close>

definition candidate_keys :: "string set \<Rightarrow> string \<Rightarrow> string set" where
  "candidate_keys K q =
     (if q \<in> K then {q}
      else if \<exists>k \<in> K. moduleBaseName k = q then {k \<in> K. moduleBaseName k = q}
      else {k \<in> K. contains_str k q})"

abbreviation module_keys :: "ModuleInfo list \<Rightarrow> string set" where
  "module_keys ms \<equiv> (\<lambda>m. lowerAscii (mi_name m)) ` set ms"

definition lowest_module :: "ModuleInfo list \<Rightarrow> ModuleInfo \<Rightarrow> bool" where
  "lowest_module ms m \<longleftrightarrow> m \<in> set ms \<and>
     (\<forall>n \<in> set ms. lowerAscii (mi_name n) = lowerAscii (mi_name m) \<longrightarrow> mi_base m \<le> mi_base n)"

lemma set_keys_filter:
  "set (map mg_key (filter (\<lambda>g. P (mg_key g)) gs)) = {k \<in> set (map mg_key gs). P k}"
  by auto

lemma singleton_keys_iff:
  "distinct (map mg_key gs) \<Longrightarrow> (\<exists>k. set (map mg_key gs) = {k}) \<longleftrightarrow> length gs = 1"
  using distinct_card [of "map mg_key gs"]
  by (metis One_nat_def card_1_singleton_iff length_map)

definition name_matches :: "ModuleInfo list \<Rightarrow> string \<Rightarrow> ModuleGroup list" where
  "name_matches ms query =
     (let groups = groupModules ms;
          full = filter (\<lambda>g. mg_key g = query) groups;
          base = filter (\<lambda>g. moduleBaseName (mg_key g) = query) groups
      in if full \<noteq> [] then full else if base \<noteq> [] then base
         else filter (\<lambda>g. contains_str (mg_key g) query) groups)"

lemma resolveModuleByName_matches:
  "resolveModuleByName ms raw =
     (let query = lowerAscii (trimAscii raw) in
      if query = [] then Inl (mkError InvalidArgument ''module name must not be empty'' False)
      else case name_matches ms query of
             [] \<Rightarrow> Inl (mkError InvalidArgument
                         ''module name did not match a loaded module'' False)
           | [g] \<Rightarrow> Inr (mg_module g)
           | _ \<Rightarrow> Inl (mkError InvalidArgument ''module name is ambiguous'' False))"
proof -
  have "filter (\<lambda>g. lowerAscii (moduleBaseName (mi_name (mg_module g))) = q) (groupModules ms) =
        filter (\<lambda>g. moduleBaseName (mg_key g) = q) (groupModules ms)" for q
    using groups_of_groupModules [of ms]
    by (intro filter_cong) (auto simp: groups_of_def lowerAscii_moduleBaseName)
  then show ?thesis by (simp add: resolveModuleByName_def name_matches_def Let_def)
qed

lemma name_matches_spec:
  shows "distinct (map mg_key (name_matches ms q))"
    and "set (map mg_key (name_matches ms q)) = candidate_keys (module_keys ms) q"
    and "g \<in> set (name_matches ms q) \<Longrightarrow>
      lowest_module ms (mg_module g) \<and> lowerAscii (mi_name (mg_module g)) = mg_key g"
proof -
  have gs: "distinct (map mg_key (groupModules ms))"
    "set (map mg_key (groupModules ms)) = module_keys ms"
    "\<And>g. g \<in> set (groupModules ms) \<Longrightarrow> lowest_module ms (mg_module g) \<and>
       lowerAscii (mi_name (mg_module g)) = mg_key g"
    using groups_of_groupModules [of ms] by (auto simp: groups_of_def lowest_module_def)
  show "distinct (map mg_key (name_matches ms q))"
    using gs(1) by (auto simp: name_matches_def Let_def distinct_map_filter)
  show "g \<in> set (name_matches ms q) \<Longrightarrow>
      lowest_module ms (mg_module g) \<and> lowerAscii (mi_name (mg_module g)) = mg_key g"
    by (rule gs(3)) (auto simp: name_matches_def Let_def split: if_splits)
  have keys: "set (map mg_key (filter (\<lambda>g. P (mg_key g)) (groupModules ms))) =
      {k \<in> module_keys ms. P k}" for P
    unfolding set_keys_filter gs(2) ..
  have empty: "filter (\<lambda>g. P (mg_key g)) (groupModules ms) = [] \<longleftrightarrow> {k \<in> module_keys ms. P k} = {}"
    for P using keys [of P] by (metis (lifting) empty_set list.map_disc_iff set_empty)
  show "set (map mg_key (name_matches ms q)) = candidate_keys (module_keys ms) q"
    using keys [of "\<lambda>k. k = q"] keys [of "\<lambda>k. moduleBaseName k = q"]
      keys [of "\<lambda>k. contains_str k q"] empty [of "\<lambda>k. k = q"]
      empty [of "\<lambda>k. moduleBaseName k = q"]
    by (auto simp: name_matches_def candidate_keys_def Let_def simp del: set_map)
qed

lemma resolveModuleByBase_lowest:
  "lowest_of_key key ms r \<in> insert r (set ms) \<and>
     mi_base (lowest_of_key key ms r) \<le> mi_base r \<and>
     (lowest_of_key key ms r = r \<or> lowerAscii (mi_name (lowest_of_key key ms r)) = key) \<and>
     (\<forall>n \<in> set ms. lowerAscii (mi_name n) = key \<longrightarrow> mi_base (lowest_of_key key ms r) \<le> mi_base n)"
proof (induction ms arbitrary: r)
  case (Cons m ms)
  let ?r = "if lowerAscii (mi_name m) = key \<and> mi_base m < mi_base r then m else r"
  from Cons.IH [of ?r] show ?case by (auto split: if_splits)
qed simp

section \<open>Properties\<close>

text \<open>
  C35. Looking a module up by name. The query is trimmed and compared without case. A lookup
  succeeds exactly when the query is not empty and names one lower-case module name (an exact name
  before a file name, a file name before a part of a name); the result is a loaded
  segment of that module with the lowest base. Every failure is a non-retryable invalid argument.
\<close>

theorem resolveModuleByName_correct:
  "case resolveModuleByName ms raw of
     Inr m \<Rightarrow> lowerAscii (trimAscii raw) \<noteq> [] \<and>
       candidate_keys (module_keys ms) (lowerAscii (trimAscii raw)) = {lowerAscii (mi_name m)} \<and>
       lowest_module ms m
   | Inl e \<Rightarrow> er_code e = InvalidArgument \<and> er_retryable e = False \<and>
       (lowerAscii (trimAscii raw) = [] \<or>
        (\<forall>k. candidate_keys (module_keys ms) (lowerAscii (trimAscii raw)) \<noteq> {k}))"
proof -
  let ?q = "lowerAscii (trimAscii raw)"
  note spec = name_matches_spec(1,2) [of ms ?q] name_matches_spec(3) [of _ ms ?q]
  have one: "(\<exists>k. candidate_keys (module_keys ms) ?q = {k}) \<longleftrightarrow> length (name_matches ms ?q) = 1"
    using singleton_keys_iff [OF spec(1)] unfolding spec(2) .
  show ?thesis
  proof (cases "?q = []")
    case False
    consider (none) "name_matches ms ?q = []" | (single) g where "name_matches ms ?q = [g]"
      | (many) g h gs where "name_matches ms ?q = g # h # gs"
      by (metis list.exhaust)
    then show ?thesis
    proof cases
      case single
      with spec(2) have "candidate_keys (module_keys ms) ?q = {mg_key g}" by simp
      with single spec(3) [of g] False show ?thesis
        by (simp add: resolveModuleByName_matches Let_def)
    qed (use one False in \<open>auto simp: resolveModuleByName_matches Let_def\<close>)
  qed (simp add: resolveModuleByName_matches)
qed

text \<open>
  Looking a module up by the base of one of its segments. The lookup fails exactly when no
  loaded segment starts at that base; otherwise the result is the lowest segment of the module
  that owns the first segment with that base.
\<close>

theorem resolveModuleByBase_correct:
  "case resolveModuleByBase ms base of
     Inr m \<Rightarrow> lowest_module ms m \<and>
       (\<exists>n \<in> set ms. mi_base n = base \<and> lowerAscii (mi_name n) = lowerAscii (mi_name m))
   | Inl e \<Rightarrow> er_code e = InvalidArgument \<and> base \<notin> mi_base ` set ms"
proof (cases "List.find (\<lambda>m. mi_base m = base) ms")
  case None
  moreover from None have "base \<notin> mi_base ` set ms" by (auto simp: find_None_iff)
  ultimately show ?thesis by (simp add: resolveModuleByBase_def)
next
  case (Some exact)
  then have e: "exact \<in> set ms" "mi_base exact = base" by (auto dest: find_SomeD)
  let ?m = "lowest_of_key (lowerAscii (mi_name exact)) ms exact"
  from resolveModuleByBase_lowest [of "lowerAscii (mi_name exact)" ms exact] e
  have "lowest_module ms ?m" "lowerAscii (mi_name exact) = lowerAscii (mi_name ?m)"
    by (auto simp: lowest_module_def)
  with Some e show ?thesis by (auto simp: resolveModuleByBase_def)
qed

lemma validateModules_loop_None_iff:
  "acc \<le> kMaxModuleNameBytesTotal \<Longrightarrow> validateModules_loop ms acc = None \<longleftrightarrow>
     (\<forall>m \<in> set ms. mi_base m \<noteq> 0 \<and> mi_size m \<noteq> 0 \<and> unat (mi_base m) + unat (mi_size m) < 2 ^ 64 \<and>
        length (mi_name m) \<le> 65536) \<and>
     acc + (\<Sum>m\<leftarrow>ms. length (mi_name m)) \<le> kMaxModuleNameBytesTotal"
proof (induction ms arbitrary: acc)
  case (Cons m ms)
  have w: "mi_base m > UINT64_MAX - mi_size m \<longleftrightarrow> 2 ^ 64 \<le> unat (mi_base m) + unat (mi_size m)"
    unfolding UINT64_MAX_eq using word_no_wrap_iff [of "mi_size m" "mi_base m"] by simp
  show ?case
  proof (cases "acc + length (mi_name m) \<le> kMaxModuleNameBytesTotal")
    case True
    with Cons.IH [OF True] show ?thesis
      by (simp only: validateModules_loop.simps w) (auto simp: limit_defs)
  next
    case False
    then show ?thesis
      by (simp only: validateModules_loop.simps w) (auto simp: limit_defs)
  qed
qed simp

text \<open>
  A module list is accepted exactly when it has at most 65536 entries, every segment is
  non-empty, starts above zero and ends inside the address space, every name has at most
  64 KiB and the names together have at most 64 MiB. The running subtraction of
  the loop never underflows on the way to that answer.
\<close>

theorem validateModules_None_iff:
  "validateModules ms = None \<longleftrightarrow>
     length ms \<le> 65536 \<and>
     list_all (\<lambda>m. mi_base m \<noteq> 0 \<and> mi_size m \<noteq> 0 \<and>
        unat (mi_base m) + unat (mi_size m) < 2 ^ 64 \<and> length (mi_name m) \<le> 65536) ms \<and>
     (\<Sum>m\<leftarrow>ms. length (mi_name m)) \<le> 67108864"
  using validateModules_loop_None_iff [of 0 ms]
  by (auto simp: validateModules_def limit_defs list_all_iff)

end
