(* ===== verification/HttpRequest.thy ===== *)
theory HttpRequest
  imports ModuleLookup
begin

text \<open>
  The HTTP front of the local IPC server: the checks of \<open>gui/ipc/IpcHttpRequest.cpp\<close> on the head of a request.
  Strings are read by position as in the source. \<open>parseHeaders\<close> is a loop over the lines and a
  map of header names is an association list without duplicates; an error is \<open>Inl\<close> with its text.
  The lemmas give closed forms: what a number in \<open>Content-Length\<close> must look like, what an accepted
  head looks like, and that a head which is printed from its parts is read back as them.
\<close>

section \<open>Definitions\<close>

abbreviation CRLF :: string where
  "CRLF \<equiv> [CHR 0x0D, CHR 0x0A]"

abbreviation SIZE_MAX :: nat where
  "SIZE_MAX \<equiv> 18446744073709551615"

definition kMaxRequestBytes :: nat where
  "kMaxRequestBytes = 1024 * 1024"

record RequestHead =
  rh_contentLength :: nat

record ValidationResult =
  vr_statusCode :: nat
  vr_error :: string
  vr_request :: RequestHead

record RequestLine =
  rl_method :: string
  rl_target :: string

type_synonym HeaderMap = "(string \<times> string) list"

definition accepted :: "ValidationResult \<Rightarrow> bool" where
  "accepted r \<longleftrightarrow> vr_statusCode r = 0"

definition reject :: "nat \<Rightarrow> string \<Rightarrow> ValidationResult" where
  "reject statusCode err =
     \<lparr>vr_statusCode = statusCode, vr_error = err, vr_request = \<lparr>rh_contentLength = 0\<rparr>\<rparr>"

definition isTokenCharacter :: "char \<Rightarrow> bool" where
  "isTokenCharacter c \<longleftrightarrow> isalnum c \<or> c \<in> set ''!#$%&'' \<or> c = CHR 0x27 \<or> c \<in> set ''*+-.^_'' \<or>
     c = CHR 0x60 \<or> c \<in> set ''|~''"

abbreviation isOws :: "char \<Rightarrow> bool" where
  "isOws c \<equiv> c = CHR '' '' \<or> c = CHR 0x09"

function ows_begin :: "string \<Rightarrow> nat \<Rightarrow> nat" where
  "ows_begin s b = (if b < length s \<and> isOws (s ! b) then ows_begin s (b + 1) else b)"
  by pat_completeness auto
termination
  by (relation "measure (\<lambda>(s, b). length s - b)") auto

fun ows_end :: "string \<Rightarrow> nat \<Rightarrow> nat \<Rightarrow> nat" where
  "ows_end s b 0 = 0"
| "ows_end s b (Suc e) = (if Suc e > b \<and> isOws (s ! e) then ows_end s b e else Suc e)"

definition trimOptionalWhitespace :: "string \<Rightarrow> string" where
  "trimOptionalWhitespace s =
     (let b = ows_begin s 0; e = ows_end s b (length s) in substr s b (e - b))"

definition parseRequestLine :: "string \<Rightarrow> RequestLine option" where
  "parseRequestLine line =
     (case str_find_char line (CHR '' '') 0 of
        None \<Rightarrow> None
      | Some methodEnd \<Rightarrow>
          if methodEnd = 0 then None
          else case str_find_char line (CHR '' '') (methodEnd + 1) of
            None \<Rightarrow> None
          | Some targetEnd \<Rightarrow>
              if targetEnd = methodEnd + 1 then None
              else if str_find_char line (CHR '' '') (targetEnd + 1) \<noteq> None then None
              else
                let version = drop (targetEnd + 1) line in
                if version \<noteq> ''HTTP/1.0'' \<and> version \<noteq> ''HTTP/1.1'' then None
                else Some \<lparr>rl_method = substr line 0 methodEnd,
                  rl_target = substr line (methodEnd + 1) (targetEnd - methodEnd - 1)\<rparr>)"

definition validHeaderValueChar :: "char \<Rightarrow> bool" where
  "validHeaderValueChar c \<longleftrightarrow>
     (let n = of_char c :: nat in \<not> ((n < 0x20 \<and> c \<noteq> CHR 0x09) \<or> n = 0x7F))"

function parseHeaders :: "string \<Rightarrow> nat \<Rightarrow> HeaderMap \<Rightarrow> string + HeaderMap" where
  "parseHeaders input lineStart out =
     (if \<not> lineStart < length input then Inr out
      else
        let lineEnd = (case str_find input CRLF lineStart of None \<Rightarrow> length input | Some e \<Rightarrow> e) in
        if lineEnd = lineStart then Inl ''Unexpected empty HTTP header''
        else if isOws (input ! lineStart) then Inl ''Folded HTTP headers are not supported''
        else case str_find_char input (CHR '':'') lineStart of
          None \<Rightarrow> Inl ''Malformed HTTP header''
        | Some colon \<Rightarrow>
            if colon \<ge> lineEnd \<or> colon = lineStart then Inl ''Malformed HTTP header''
            else if \<not> (\<forall>i \<in> set [lineStart..<colon]. isTokenCharacter (input ! i))
            then Inl ''Invalid HTTP header name''
            else if \<not> (\<forall>i \<in> set [colon + 1..<lineEnd]. validHeaderValueChar (input ! i))
            then Inl ''Invalid HTTP header value''
            else
              let name = lowerAscii (substr input lineStart (colon - lineStart));
                  val = trimOptionalWhitespace (substr input (colon + 1) (lineEnd - colon - 1)) in
              if map_of out name \<noteq> None then Inl ''Duplicate HTTP header''
              else if lineEnd = length input then Inr (out @ [(name, val)])
              else parseHeaders input (lineEnd + 2) (out @ [(name, val)]))"
  by pat_completeness auto
termination
proof (relation "measure (\<lambda>(input, lineStart, out). length input - lineStart)", goal_cases)
  case (2 input lineStart out lineEnd colon name val)
  then have "lineStart \<le> lineEnd" by (auto split: option.splits dest: str_find_SomeD)
  with 2(1) show ?case by simp
qed simp

declare ows_begin.simps [simp del] parseHeaders.simps [simp del]

fun contentLength_loop :: "string \<Rightarrow> nat \<Rightarrow> nat option" where
  "contentLength_loop [] parsed = Some parsed"
| "contentLength_loop (ch # rest) parsed =
     (if \<not> isdigit ch then None
      else
        let digit = of_char ch - 48 in
        if parsed > (SIZE_MAX - digit) div 10 then None
        else contentLength_loop rest (parsed * 10 + digit))"

definition parseContentLength :: "string \<Rightarrow> nat option" where
  "parseContentLength v = (if v = [] then None else contentLength_loop v 0)"

definition equalsIgnoreCase :: "string \<Rightarrow> string \<Rightarrow> bool" where
  "equalsIgnoreCase l r \<longleftrightarrow>
     length l = length r \<and> (\<forall>i < length l. tolower (l ! i) = tolower (r ! i))"

definition isJsonContentType :: "string \<Rightarrow> bool" where
  "isJsonContentType v =
     equalsIgnoreCase (trimOptionalWhitespace
       (case str_find_char v (CHR '';'') 0 of None \<Rightarrow> v | Some n \<Rightarrow> substr v 0 n)) ''application/json''"

definition pathWithoutQuery :: "string \<Rightarrow> string" where
  "pathWithoutQuery target =
     (case str_find_char target (CHR ''?'') 0 of None \<Rightarrow> target | Some query \<Rightarrow> substr target 0 query)"

definition ValidateRequestHead :: "string \<Rightarrow> nat \<Rightarrow> ValidationResult" where
  "ValidateRequestHead headers maxRequestBytes =
     (if length headers > maxRequestBytes then reject 413 ''HTTP request too large''
      else case str_find headers CRLF 0 of
        None \<Rightarrow> reject 400 ''Invalid HTTP request line''
      | Some requestLineEnd \<Rightarrow>
        case parseRequestLine (substr headers 0 requestLineEnd) of
          None \<Rightarrow> reject 400 ''Invalid HTTP request line''
        | Some requestLine \<Rightarrow>
          if pathWithoutQuery (rl_target requestLine) \<noteq> ''/'' then reject 404 ''Unknown IPC endpoint''
          else if rl_method requestLine \<noteq> ''POST'' then reject 405 ''Unsupported HTTP method''
          else case parseHeaders headers (requestLineEnd + 2) [] of
            Inl headerError \<Rightarrow> reject 400 headerError
          | Inr parsedHeaders \<Rightarrow>
            if map_of parsedHeaders ''transfer-encoding'' \<noteq> None
            then reject 400 ''Transfer-Encoding is not supported''
            else case map_of parsedHeaders ''content-length'' of
              None \<Rightarrow> reject 400 ''Missing Content-Length''
            | Some contentLength \<Rightarrow>
              case parseContentLength contentLength of
                None \<Rightarrow> reject 400 ''Invalid Content-Length''
              | Some bodyLength \<Rightarrow>
                if (case map_of parsedHeaders ''content-type'' of
                      None \<Rightarrow> True | Some v \<Rightarrow> \<not> isJsonContentType v)
                then reject 415 ''Content-Type must be application/json''
                else if (case map_of parsedHeaders ''origin'' of None \<Rightarrow> False | Some v \<Rightarrow> v \<noteq> [])
                then reject 403 ''Browser-originated IPC requests are not allowed''
                else if bodyLength > maxRequestBytes \<or>
                  length headers + 4 > maxRequestBytes - bodyLength
                then reject 413 ''HTTP request too large''
                else \<lparr>vr_statusCode = 0, vr_error = [],
                  vr_request = \<lparr>rh_contentLength = bodyLength\<rparr>\<rparr>)"

section \<open>Content length\<close>

lemma contentLength_loop_iff:
  "acc \<le> SIZE_MAX \<Longrightarrow> contentLength_loop ds acc = Some n \<longleftrightarrow>
     (\<forall>d \<in> set ds. isdigit d) \<and> n = dec_from acc ds \<and> n \<le> SIZE_MAX"
proof (induction ds arbitrary: acc)
  case Nil
  then show ?case by auto
next
  case (Cons d ds)
  let ?digit = "of_char d - 48 :: nat" and ?next = "acc * 10 + (of_char d - 48 :: nat)"
  have "isdigit d \<Longrightarrow> ?digit \<le> 9" by (auto simp: isdigit_def Let_def)
  then have *: "isdigit d \<Longrightarrow> acc > (SIZE_MAX - ?digit) div 10 \<longleftrightarrow> ?next > SIZE_MAX" by linarith
  show ?case
  proof (cases "isdigit d \<and> ?next \<le> SIZE_MAX")
    case True
    with * Cons.IH [of ?next] show ?thesis by (simp add: Let_def)
  next
    case False
    with * dec_from_ge [of ?next ds] show ?thesis by (auto simp: Let_def)
  qed
qed

text \<open>
  The length of a request body is read exactly: a value is accepted if and only if it is not
  empty, consists of decimal digits and denotes a number that a 64-bit \<open>size_t\<close> holds, and the result is that
  number. No sign, no space and no overflow gets through.
\<close>

theorem parseContentLength_iff:
  "parseContentLength v = Some n \<longleftrightarrow>
     v \<noteq> [] \<and> (\<forall>d \<in> set v. isdigit d) \<and> n = dec_value v \<and> n \<le> SIZE_MAX"
  by (simp add: parseContentLength_def contentLength_loop_iff)

theorem parseContentLength_iff_witness:
  "parseContentLength ''1048576'' = Some 1048576 \<and> parseContentLength ''+1'' = None"
  using parseContentLength_iff [of "''1048576''" 1048576] parseContentLength_iff [of "''+1''"]
  by (auto simp: isdigit_def dec_from_def)

section \<open>Lines\<close>

lemma find_map: "List.find P (map g xs) = map_option g (List.find (P \<circ> g) xs)"
  by (induction xs) auto

lemma str_find_drop:
  assumes "p \<le> length s"
  shows "str_find s pat p = map_option (\<lambda>i. p + i) (str_find (drop p s) pat 0)"
proof -
  have "[p..<Suc (length s)] = map (\<lambda>i. p + i) [0..<Suc (length s - p)]"
    using assms map_add_upt [of p "Suc (length s - p)"] by (simp add: add.commute Suc_diff_le del: upt_Suc)
  then show ?thesis by (simp add: str_find_def find_map comp_def add.commute del: upt_Suc)
qed

lemma str_find_char_drop:
  assumes "p \<le> length s"
  shows "str_find_char s c p = map_option (\<lambda>i. p + i) (str_find_char (drop p s) c 0)"
proof -
  have "[p..<length s] = map (\<lambda>i. p + i) [0..<length s - p]"
    using assms map_add_upt [of p "length s - p"] by (simp add: add.commute)
  moreover have "List.find (\<lambda>i. s ! (p + i) = c) [0..<length s - p] =
      List.find (\<lambda>i. drop p s ! i = c) [0..<length s - p]"
    using assms by (intro find_cong) auto
  ultimately show ?thesis by (simp add: str_find_char_def find_map comp_def)
qed

text \<open>The first line of a text and what follows its end; \<open>None\<close> when the text has no line end.\<close>

definition split_line :: "string \<Rightarrow> string \<times> string option" where
  "split_line s =
     (case str_find s CRLF 0 of
        None \<Rightarrow> (s, None)
      | Some e \<Rightarrow> (take e s, Some (drop (e + 2) s)))"

text \<open>A header line: a name of token characters, a colon, and a value without control characters.\<close>

definition wf_header :: "string \<times> string \<Rightarrow> bool" where
  "wf_header h \<longleftrightarrow> fst h \<noteq> [] \<and> (\<forall>c \<in> set (fst h). isTokenCharacter c) \<and>
     (\<forall>c \<in> set (snd h). validHeaderValueChar c)"

abbreviation render_header :: "string \<times> string \<Rightarrow> string" where
  "render_header h \<equiv> fst h @ CHR '':'' # snd h"

definition normal_header :: "string \<times> string \<Rightarrow> string \<times> string" where
  "normal_header h = (lowerAscii (fst h), trimOptionalWhitespace (snd h))"

lemma token_not_special:
  "isTokenCharacter c \<Longrightarrow> c \<noteq> CHR '':'' \<and> c \<noteq> CHR 0x0D \<and> \<not> isOws c"
  by (auto simp: isTokenCharacter_def isalnum_def)

lemma value_not_cr: "validHeaderValueChar c \<Longrightarrow> c \<noteq> CHR 0x0D"
  by (auto simp: validHeaderValueChar_def)

lemma str_find_char_prefix:
  "c \<notin> set u \<Longrightarrow> str_find_char (u @ c # v) c 0 = Some (length u)"
  unfolding str_find_char_def find_Some_iff
  by (rule exI [of _ "length u"]) (auto simp: nth_append dest: nth_mem)

lemma no_cr_find: "CHR 0x0D \<notin> set u \<Longrightarrow> str_find u CRLF 0 = None"
  by (auto simp: str_find_None_iff dest: in_set_takeD in_set_dropD)
    (metis in_set_dropD in_set_takeD list.set_intros(1))

lemma no_cr_find_end:
  assumes "CHR 0x0D \<notin> set u"
  shows "str_find (u @ CRLF @ v) CRLF 0 = Some (length u)"
  unfolding str_find_def find_Some_iff
proof (intro exI conjI allI impI)
  fix j assume "j < length u"
  with assms have "hd (drop j (u @ CRLF @ v)) \<noteq> CHR 0x0D" "drop j (u @ CRLF @ v) \<noteq> []"
    by (auto simp: hd_drop_conv_nth nth_append dest: nth_mem)
  moreover from \<open>j < length u\<close> have "[0..<Suc (length (u @ CRLF @ v))] ! j = j"
    by (simp del: upt_Suc)
  ultimately show "take (length CRLF) (drop ([0..<Suc (length (u @ CRLF @ v))] ! j) (u @ CRLF @ v)) \<noteq> CRLF"
    by (cases "drop j (u @ CRLF @ v)") (auto simp del: upt_Suc)
qed (auto simp del: upt_Suc simp: nth_upt)

text \<open>
  One round of the loop: the text from the current position on begins with the line \<open>l\<close>, which ends at
  the end of the text or at the first line end.
\<close>

definition first_line :: "string \<Rightarrow> string \<Rightarrow> bool" where
  "first_line l rest \<longleftrightarrow>
     str_find (l @ rest) CRLF 0 = (if rest = [] then None else Some (length l))"

lemma nth_between:
  "i \<in> {length u..<length u + length v} \<Longrightarrow> (u @ v @ w) ! i = v ! (i - length u)"
  by (auto simp: nth_append)

lemma all_between:
  "(\<forall>i \<in> {length u..<length u + length v}. P ((u @ v @ w) ! i)) \<longleftrightarrow> (\<forall>c \<in> set v. P c)"
proof
  assume *: "\<forall>i \<in> {length u..<length u + length v}. P ((u @ v @ w) ! i)"
  show "\<forall>c \<in> set v. P c"
  proof
    fix c assume "c \<in> set v"
    then obtain k where "k < length v" "v ! k = c" by (auto simp: in_set_conv_nth)
    with * [rule_format, of "length u + k"] show "P c" by (simp add: nth_append)
  qed
qed (auto simp: nth_between)

lemma parseHeaders_round:
  assumes line: "first_line (n @ CHR '':'' # v) rest" and n: "CHR '':'' \<notin> set n"
    and input: "input = pre @ n @ CHR '':'' # v @ rest"
  shows "parseHeaders input (length pre) out = Inr r \<longleftrightarrow>
    wf_header (n, v) \<and> map_of out (lowerAscii n) = None \<and>
    (let out' = out @ [normal_header (n, v)] in
     if rest = [] then r = out'
     else parseHeaders input (length pre + length n + 1 + length v + 2) out' = Inr r)"
proof -
  let ?e = "length pre + length n + 1 + length v" and ?c = "length pre + length n"
  have dropped: "drop (length pre) input = (n @ CHR '':'' # v) @ rest" using input by simp
  have "length pre \<le> length input" using input by simp
  note find = str_find_drop [OF this] str_find_char_drop [OF this]
  have lineEnd: "(case str_find input CRLF (length pre) of None \<Rightarrow> length input | Some e \<Rightarrow> e) = ?e"
    using line input unfolding find dropped first_line_def by auto
  have colon: "str_find_char input (CHR '':'') (length pre) = Some ?c"
    using n unfolding find dropped by (simp add: str_find_char_prefix)
  have name: "(\<forall>i \<in> set [length pre..<?c]. P (input ! i)) \<longleftrightarrow> (\<forall>c \<in> set n. P c)" for P
    using all_between [of pre n P "CHR '':'' # v @ rest"] input by simp
  have val: "(\<forall>i \<in> set [?c + 1..<?e]. P (input ! i)) \<longleftrightarrow> (\<forall>c \<in> set v. P c)" for P
    using all_between [of "pre @ n @ '':''" v P rest] input unfolding set_upt by simp
  have parts: "substr input (length pre) (?c - length pre) = n"
    "substr input (?c + 1) (?e - ?c - 1) = v" using input by (simp_all add: substr_def)
  have start: "length pre < length input" "(?e = length pre) = False"
    "?c \<ge> ?e \<or> ?c = length pre \<longleftrightarrow> n = []" "?e = length input \<longleftrightarrow> rest = []"
    using input by auto
  note round = parseHeaders.simps [of input "length pre" out, unfolded lineEnd colon option.case
      Let_def name val parts start if_False not_True_eq_False]
  show ?thesis
  proof (cases "wf_header (n, v)")
    case True
    then have n: "n \<noteq> []" "\<forall>c \<in> set n. isTokenCharacter c" "\<forall>c \<in> set v. validHeaderValueChar c"
      by (simp_all add: wf_header_def)
    have "input ! length pre = hd n" using n(1) input by (simp add: nth_append hd_conv_nth)
    moreover have "isTokenCharacter (hd n)" using n(1,2) by simp
    ultimately have "\<not> isOws (input ! length pre)" using token_not_special by metis
    with True n show ?thesis
      unfolding round by (auto simp: normal_header_def Let_def start(1))
  next
    case False
    then have "n = [] \<or> \<not> (\<forall>c \<in> set n. isTokenCharacter c) \<or> \<not> (\<forall>c \<in> set v. validHeaderValueChar c)"
      by (simp add: wf_header_def)
    with False show ?thesis
      unfolding round by (elim disjE) (simp_all add: start(1) Let_def)
  qed
qed

text \<open>A line without a colon, or with nothing in front of it, ends the loop with an error.\<close>

lemma parseHeaders_bad_round:
  assumes line: "first_line l rest" "l @ rest \<noteq> []" and bad: "CHR '':'' \<notin> set l"
    and input: "input = pre @ l @ rest"
  shows "parseHeaders input (length pre) out \<noteq> Inr r"
proof -
  have dropped: "drop (length pre) input = l @ rest" using input by simp
  have "length pre \<le> length input" using input by simp
  note find = str_find_drop [OF this] str_find_char_drop [OF this]
  have lineEnd: "(case str_find input CRLF (length pre) of None \<Rightarrow> length input | Some e \<Rightarrow> e) =
      length pre + length l"
    using line(1) input unfolding find dropped first_line_def by auto
  have "str_find_char input (CHR '':'') (length pre) = Some c \<Longrightarrow> c \<ge> length pre + length l" for c
    using bad unfolding find dropped
    by (auto dest!: str_find_char_SomeD(3) simp: nth_append split: if_splits)
      (metis leI nth_mem)
  moreover have "length pre < length input" using line(2) input by (cases l) auto
  ultimately show ?thesis
    unfolding parseHeaders.simps [of input "length pre" out] lineEnd
    by (auto simp: Let_def split: option.splits)
qed

text \<open>The text of a list of headers: the lines with a line end between them.\<close>

fun header_text :: "(string \<times> string) list \<Rightarrow> string" where
  "header_text [] = []"
| "header_text [h] = render_header h"
| "header_text (h # hs) = render_header h @ CRLF @ header_text hs"

lemma render_no_cr: "wf_header h \<Longrightarrow> CHR 0x0D \<notin> set (render_header h)"
  by (auto simp: wf_header_def dest: token_not_special value_not_cr)

lemma first_line_render:
  assumes "wf_header h" "rest = [] \<or> (\<exists>t. rest = CRLF @ t)"
  shows "first_line (render_header h) rest"
  using assms(2) no_cr_find [OF render_no_cr [OF assms(1)]] no_cr_find_end [OF render_no_cr [OF assms(1)]]
  unfolding first_line_def by fastforce

abbreviation fresh_headers :: "HeaderMap \<Rightarrow> (string \<times> string) list \<Rightarrow> bool" where
  "fresh_headers out hs \<equiv> (\<forall>h \<in> set hs. wf_header h) \<and>
     distinct (map fst out @ map (\<lambda>h. lowerAscii (fst h)) hs)"

lemma map_of_fresh: "map_of out n = None \<longleftrightarrow> n \<notin> fst ` set out"
  by (simp add: map_of_eq_None_iff)

lemma parseHeaders_end: "length input \<le> n \<Longrightarrow> parseHeaders input n out = Inr out"
  by (simp add: parseHeaders.simps)

lemma parseHeaders_render:
  assumes "fresh_headers out hs" "t = [] \<or> t = CRLF \<and> hs \<noteq> []"
  shows "parseHeaders (pre @ header_text hs @ t) (length pre) out = Inr (out @ map normal_header hs)"
  using assms
proof (induction hs arbitrary: pre out rule: header_text.induct)
  case 1
  then show ?case by (simp add: parseHeaders_end)
next
  case (2 h)
  from 2 have h: "wf_header h" "CHR '':'' \<notin> set (fst h)" "map_of out (lowerAscii (fst h)) = None"
    by (auto simp: wf_header_def map_of_fresh dest: token_not_special)
  have "first_line (render_header h) t" using 2 by (intro first_line_render [OF h(1)]) auto
  from parseHeaders_round [OF this h(2), of _ pre] h show ?case
    using 2 by (cases "t = []") (auto simp: parseHeaders_end)
next
  case (3 h g hs)
  let ?t = "header_text (g # hs) @ t"
  from 3 have h: "wf_header h" "CHR '':'' \<notin> set (fst h)" "map_of out (lowerAscii (fst h)) = None"
    by (auto simp: wf_header_def map_of_fresh dest: token_not_special)
  have "first_line (render_header h) (CRLF @ ?t)" by (intro first_line_render [OF h(1)]) auto
  note round = parseHeaders_round [OF this h(2), of _ pre]
  have "parseHeaders ((pre @ render_header h @ CRLF) @ ?t) (length (pre @ render_header h @ CRLF))
      (out @ [normal_header h]) = Inr ((out @ [normal_header h]) @ map normal_header (g # hs))"
    using "3.prems" by (intro "3.IH") (auto simp: normal_header_def)
  with round h show ?case by (simp add: add.assoc)
qed

lemma split_first_line:
  assumes "body \<noteq> []"
  obtains l rest where "body = l @ rest" "first_line l rest" "rest = [] \<or> (\<exists>t. rest = CRLF @ t)"
proof (cases "str_find body CRLF 0")
  case None
  then show ?thesis using that [of body "[]"] by (simp add: first_line_def)
next
  case (Some e)
  note e = str_find_SomeD [OF this]
  have "body = take e body @ drop e body" by simp
  moreover have "drop e body = CRLF @ drop (e + 2) body"
    using e(3) append_take_drop_id [of 2 "drop e body"] by (simp add: numeral_2_eq_2)
  ultimately show ?thesis
    using that [of "take e body" "drop e body"] Some e(2) by (auto simp: first_line_def)
qed

lemma parseHeaders_sound:
  assumes "parseHeaders (pre @ body) (length pre) out = Inr r" "distinct (map fst out)"
  shows "\<exists>hs t. body = header_text hs @ t \<and> (t = [] \<or> t = CRLF \<and> hs \<noteq> []) \<and>
    fresh_headers out hs \<and> r = out @ map normal_header hs"
  using assms
proof (induction body arbitrary: pre out rule: length_induct)
  case (1 body)
  show ?case
  proof (cases "body = []")
    case True
    with "1.prems" show ?thesis
      by (intro exI [of _ "[]"]) (simp add: parseHeaders_end)
  next
    case False
    then obtain l rest where body: "body = l @ rest" "first_line l rest"
      and rest: "rest = [] \<or> (\<exists>t. rest = CRLF @ t)" by (rule split_first_line)
    from parseHeaders_bad_round [OF body(2), of "pre @ body" pre out r] body(1) False "1.prems"(1)
    have "CHR '':'' \<in> set l" by auto
    then obtain n v where l: "l = n @ CHR '':'' # v" "CHR '':'' \<notin> set n"
      by (metis split_list_first)
    note round = parseHeaders_round [OF body(2) [unfolded l(1)] l(2), of "pre @ body" pre out r]
    let ?out = "out @ [normal_header (n, v)]"
    from round "1.prems"(1) body(1) l(1) have h: "wf_header (n, v)" "lowerAscii n \<notin> fst ` set out"
      and next_round: "if rest = [] then r = ?out
        else parseHeaders (pre @ body) (length pre + length n + 1 + length v + 2) ?out = Inr r"
      by (auto simp: map_of_fresh Let_def)
    have distinct: "distinct (map fst ?out)"
      using h "1.prems"(2) by (simp add: normal_header_def)
    from rest show ?thesis
    proof (elim disjE exE)
      assume "rest = []"
      with h body(1) l(1) next_round "1.prems"(2) show ?thesis
        by (intro exI [of _ "[(n, v)]"] exI [of _ "[]"]) auto
    next
      fix t assume t: "rest = CRLF @ t"
      let ?pre = "pre @ l @ CRLF"
      have "parseHeaders (?pre @ t) (length ?pre) ?out = Inr r"
        using next_round t body(1) l(1) by (simp add: add.assoc)
      moreover have "length t < length body" using t body(1) by simp
      ultimately obtain hs u where hs: "t = header_text hs @ u" "u = [] \<or> u = CRLF \<and> hs \<noteq> []"
        "fresh_headers ?out hs" "r = ?out @ map normal_header hs"
        using "1.IH" distinct by blast
      show ?thesis
      proof (cases hs)
        case Nil
        with hs t body(1) l(1) h "1.prems"(2) show ?thesis
          by (intro exI [of _ "[(n, v)]"] exI [of _ CRLF]) auto
      next
        case (Cons g gs)
        with hs t body(1) l(1) h show ?thesis
          by (intro exI [of _ "(n, v) # hs"] exI [of _ u]) (auto simp: normal_header_def)
      qed
    qed
  qed
qed

section \<open>Request heads\<close>

lemma str_find_char_Some_iff:
  "str_find_char s c 0 = Some i \<longleftrightarrow> i < length s \<and> s ! i = c \<and> (\<forall>j < i. s ! j \<noteq> c)"
proof
  assume "str_find_char s c 0 = Some i"
  from str_find_char_SomeD [OF this] show "i < length s \<and> s ! i = c \<and> (\<forall>j < i. s ! j \<noteq> c)" by auto
next
  assume "i < length s \<and> s ! i = c \<and> (\<forall>j < i. s ! j \<noteq> c)"
  then show "str_find_char s c 0 = Some i"
    unfolding str_find_char_def find_Some_iff by (auto intro!: exI [of _ i])
qed

lemma str_find_Some_iff:
  "str_find s pat 0 = Some i \<longleftrightarrow> i \<le> length s \<and> take (length pat) (drop i s) = pat \<and>
     (\<forall>j < i. take (length pat) (drop j s) \<noteq> pat)"
proof
  assume "str_find s pat 0 = Some i"
  then show "i \<le> length s \<and> take (length pat) (drop i s) = pat \<and>
      (\<forall>j < i. take (length pat) (drop j s) \<noteq> pat)"
    unfolding str_find_def find_Some_iff by (auto simp del: upt_Suc)
next
  assume "i \<le> length s \<and> take (length pat) (drop i s) = pat \<and>
      (\<forall>j < i. take (length pat) (drop j s) \<noteq> pat)"
  then show "str_find s pat 0 = Some i"
    unfolding str_find_def find_Some_iff by (intro exI [of _ i]) (auto simp del: upt_Suc)
qed

lemma str_find_char_cases:
  obtains "str_find_char s c 0 = None" "c \<notin> set s"
  | u v where "s = u @ c # v" "c \<notin> set u" "str_find_char s c 0 = Some (length u)"
proof (cases "c \<in> set s")
  case True
  then obtain u v where "s = u @ c # v" "c \<notin> set u" by (metis split_list_first)
  with that(2) str_find_char_prefix show ?thesis by metis
next
  case False
  then have "str_find_char s c 0 = None" by (auto simp: str_find_char_None_iff dest: nth_mem)
  with that(1) False show ?thesis by blast
qed

lemma first_occurrence_unique:
  fixes c :: char
  assumes "u @ c # v = u' @ c # v'" "c \<notin> set u" "c \<notin> set u'"
  shows "u = u' \<and> v = v'"
proof -
  from str_find_char_prefix [OF assms(2), of v] str_find_char_prefix [OF assms(3), of v'] assms(1)
  have "length u = length u'" by simp
  with assms(1) show ?thesis by simp
qed

lemma parseRequestLine_iff:
  "parseRequestLine line = Some r \<longleftrightarrow>
     (\<exists>version. line = rl_method r @ '' '' @ rl_target r @ '' '' @ version \<and>
        (version = ''HTTP/1.0'' \<or> version = ''HTTP/1.1'') \<and> rl_method r \<noteq> [] \<and> rl_target r \<noteq> [] \<and>
        CHR '' '' \<notin> set (rl_method r) \<and> CHR '' '' \<notin> set (rl_target r))" (is "?L \<longleftrightarrow> ?R")
proof (cases rule: str_find_char_cases [of line "CHR '' ''"])
  case 1
  then show ?thesis by (auto simp: parseRequestLine_def)
next
  case line: (2 m u)
  let ?sp = "CHR '' ''"
  have rest: "str_find_char line ?sp (length m + 1) =
      map_option (\<lambda>i. length m + 1 + i) (str_find_char u ?sp 0)"
    using line(1) str_find_char_drop [of "length m + 1" line ?sp] by simp
  show ?thesis
  proof (cases rule: str_find_char_cases [of u ?sp])
    case 1
    with line rest have "\<not> ?L" by (simp add: parseRequestLine_def)
    moreover have "\<not> ?R"
    proof
      assume ?R
      then obtain version where "line = rl_method r @ ?sp # rl_target r @ ?sp # version"
        "?sp \<notin> set (rl_method r)" by auto
      from first_occurrence_unique [OF this(1) [unfolded line(1)] line(2) this(2)] 1(2) show False by auto
    qed
    ultimately show ?thesis by simp
  next
    case u: (2 t v)
    have "str_find_char line ?sp (length m + 1 + length t + 1) =
        map_option (\<lambda>i. length m + 1 + length t + 1 + i) (str_find_char v ?sp 0)"
      using line(1) u(1) str_find_char_drop [of "length m + 1 + length t + 1" line ?sp] by simp
    moreover have "str_find_char v ?sp 0 = None \<longleftrightarrow> ?sp \<notin> set v"
      by (cases rule: str_find_char_cases [of v ?sp]) auto
    moreover have parts: "substr line 0 (length m) = m" "substr line (length m + 1) (length t) = t"
      "drop (length m + 1 + length t + 1) line = v" using line(1) u(1) by (simp_all add: substr_def)
    ultimately have L: "?L \<longleftrightarrow> m \<noteq> [] \<and> t \<noteq> [] \<and> ?sp \<notin> set v \<and>
        (v = ''HTTP/1.0'' \<or> v = ''HTTP/1.1'') \<and> r = \<lparr>rl_method = m, rl_target = t\<rparr>"
      using line(3) u(3) rest by (auto simp: parseRequestLine_def Let_def)
    have "line = rl_method r @ '' '' @ rl_target r @ '' '' @ version \<and> ?sp \<notin> set (rl_method r) \<and>
        ?sp \<notin> set (rl_target r) \<longleftrightarrow> r = \<lparr>rl_method = m, rl_target = t\<rparr> \<and> version = v" for version
      using line(1,2) u(1,2) first_occurrence_unique [of "rl_method r" ?sp _ m u]
        first_occurrence_unique [of "rl_target r" ?sp version t v]
      by (cases r) auto
    then have "?R \<longleftrightarrow> m \<noteq> [] \<and> t \<noteq> [] \<and> (v = ''HTTP/1.0'' \<or> v = ''HTTP/1.1'') \<and>
        r = \<lparr>rl_method = m, rl_target = t\<rparr>"
      by (metis RequestLine.select_convs)
    moreover have "v = ''HTTP/1.0'' \<or> v = ''HTTP/1.1'' \<Longrightarrow> ?sp \<notin> set v" by auto
    ultimately show ?thesis using L by blast
  qed
qed

text \<open>What the headers of an accepted request say: \<open>hs\<close> with lower-case names and trimmed values.\<close>

definition headers_ok :: "HeaderMap \<Rightarrow> nat \<Rightarrow> bool" where
  "headers_ok hs n \<longleftrightarrow> map_of hs ''transfer-encoding'' = None \<and>
     (\<exists>v. map_of hs ''content-length'' = Some v \<and> parseContentLength v = Some n) \<and>
     (\<exists>v. map_of hs ''content-type'' = Some v \<and> isJsonContentType v) \<and>
     (\<forall>v. map_of hs ''origin'' = Some v \<longrightarrow> v = [])"

lemma accepted_unfold:
  "accepted (ValidateRequestHead h limit) \<and>
     rh_contentLength (vr_request (ValidateRequestHead h limit)) = n \<longleftrightarrow>
   (\<exists>e r hs. str_find h CRLF 0 = Some e \<and> parseRequestLine (substr h 0 e) = Some r \<and>
      pathWithoutQuery (rl_target r) = ''/'' \<and> rl_method r = ''POST'' \<and>
      parseHeaders h (e + 2) [] = Inr hs \<and> headers_ok hs n \<and> length h + 4 + n \<le> limit)"
  by (auto simp: ValidateRequestHead_def accepted_def reject_def headers_ok_def
      split: option.splits if_splits sum.splits)

lemma pathWithoutQuery_root:
  "pathWithoutQuery t = ''/'' \<longleftrightarrow> t = ''/'' \<or> (\<exists>q. t = ''/?'' @ q)"
proof (cases rule: str_find_char_cases [of t "CHR ''?''"])
  case 1
  then show ?thesis by (auto simp: pathWithoutQuery_def)
next
  case (2 u v)
  then show ?thesis
    by (auto simp: pathWithoutQuery_def substr_def append_eq_Cons_conv Cons_eq_append_conv)
qed

lemma first_line_crlf: "first_line l (CRLF @ t) \<longleftrightarrow> \<not> contains_str l CRLF"
proof -
  have same: "take 2 (drop i (l @ CRLF @ t)) = CRLF \<longleftrightarrow> take 2 (drop i l) = CRLF" if "i < length l" for i
  proof (cases "i + 1 < length l")
    case True
    then show ?thesis by (auto simp: numeral_2_eq_2)
  next
    case False
    with that have "length (drop i l) = Suc 0" "i + 1 = length l" by auto
    then obtain x where "drop i l = [x]" unfolding length_Suc_conv by auto
    with \<open>i + 1 = length l\<close> show ?thesis by (simp add: numeral_2_eq_2)
  qed
  have "first_line l (CRLF @ t) \<longleftrightarrow> (\<forall>i < length l. take 2 (drop i (l @ CRLF @ t)) \<noteq> CRLF)"
    unfolding first_line_def by (simp add: str_find_Some_iff numeral_2_eq_2)
  also have "\<dots> \<longleftrightarrow> (\<forall>i < length l. take 2 (drop i l) \<noteq> CRLF)" using same by simp
  also have "\<dots> \<longleftrightarrow> (\<forall>i \<le> length l. take 2 (drop i l) \<noteq> CRLF)"
    by (metis drop_all le_less list.distinct(1) order_refl take_Nil)
  also have "\<dots> \<longleftrightarrow> \<not> contains_str l CRLF" by (simp add: str_find_None_iff numeral_2_eq_2)
  finally show ?thesis .
qed

abbreviation request_line :: "string \<Rightarrow> string \<Rightarrow> string" where
  "request_line target version \<equiv> ''POST '' @ target @ '' '' @ version"

definition request_head :: "string \<Rightarrow> string \<Rightarrow> (string \<times> string) list \<Rightarrow> string \<Rightarrow> string" where
  "request_head target version hs t = request_line target version @ CRLF @ header_text hs @ t"

definition wf_head :: "string \<Rightarrow> string \<Rightarrow> (string \<times> string) list \<Rightarrow> string \<Rightarrow> bool" where
  "wf_head target version hs t \<longleftrightarrow> (version = ''HTTP/1.0'' \<or> version = ''HTTP/1.1'') \<and>
     (target = ''/'' \<or> (\<exists>q. target = ''/?'' @ q)) \<and> CHR '' '' \<notin> set target \<and>
     \<not> contains_str (request_line target version) CRLF \<and> (t = [] \<or> t = CRLF \<and> hs \<noteq> []) \<and>
     fresh_headers [] hs"

lemma head_grammar:
  "accepted (ValidateRequestHead h limit) \<and>
     rh_contentLength (vr_request (ValidateRequestHead h limit)) = n \<longleftrightarrow>
   (\<exists>target version hs t. h = request_head target version hs t \<and> wf_head target version hs t \<and>
      headers_ok (map normal_header hs) n \<and> length h + 4 + n \<le> limit)"
  unfolding accepted_unfold
proof (intro iffI; elim exE conjE)
  fix e r hs
  assume e: "str_find h CRLF 0 = Some e" and r: "parseRequestLine (substr h 0 e) = Some r"
    "pathWithoutQuery (rl_target r) = ''/''" "rl_method r = ''POST''"
    and hs: "parseHeaders h (e + 2) [] = Inr hs" "headers_ok hs n" and limit: "length h + 4 + n \<le> limit"
  note se = str_find_SomeD [OF e]
  from r obtain version where line: "take e h = request_line (rl_target r) version"
    "version = ''HTTP/1.0'' \<or> version = ''HTTP/1.1''" "CHR '' '' \<notin> set (rl_target r)"
    unfolding parseRequestLine_iff by (auto simp: substr_def)
  have h: "h = (take e h @ CRLF) @ drop (e + 2) h"
    using se(3) append_take_drop_id [of 2 "drop e h"] append_take_drop_id [of e h]
    by (simp add: numeral_2_eq_2 add.commute)
  moreover have len: "length (take e h @ CRLF) = e + 2" using se(2) by simp
  ultimately have "parseHeaders ((take e h @ CRLF) @ drop (e + 2) h) (length (take e h @ CRLF)) [] = Inr hs"
    using hs(1) by metis
  from parseHeaders_sound [OF this] obtain hl t where hl: "drop (e + 2) h = header_text hl @ t"
    "t = [] \<or> t = CRLF \<and> hl \<noteq> []" "fresh_headers [] hl" "hs = map normal_header hl" by auto
  have "first_line (take e h) (CRLF @ drop (e + 2) h)"
    unfolding first_line_def using e h se(2) by (metis append.assoc append_is_Nil_conv length_take
        list.simps(3) min.absorb2 add_leD1)
  then have "\<not> contains_str (take e h) CRLF" unfolding first_line_crlf .
  moreover from h hl(1) line(1) have "h = request_head (rl_target r) version hl t"
    unfolding request_head_def by (metis append.assoc)
  moreover from r(2) have "rl_target r = ''/'' \<or> (\<exists>q. rl_target r = ''/?'' @ q)"
    unfolding pathWithoutQuery_root .
  ultimately show "\<exists>target version hs t. h = request_head target version hs t \<and>
      wf_head target version hs t \<and> headers_ok (map normal_header hs) n \<and> length h + 4 + n \<le> limit"
    using line(2,3) line(1) hl hs(2) limit unfolding wf_head_def
    by (intro exI [of _ "rl_target r"] exI [of _ version] exI [of _ hl] exI [of _ t]) simp
next
  fix target version hs t
  assume h: "h = request_head target version hs t" and wf: "wf_head target version hs t"
    and ok: "headers_ok (map normal_header hs) n" "length h + 4 + n \<le> limit"
  let ?line = "request_line target version"
  from wf have "first_line ?line (CRLF @ header_text hs @ t)"
    unfolding first_line_crlf wf_head_def by blast
  with h have e: "str_find h CRLF 0 = Some (length ?line)"
    unfolding first_line_def request_head_def by simp
  have "substr h 0 (length ?line) = ?line" using h by (simp add: substr_def request_head_def)
  moreover have "parseRequestLine ?line = Some \<lparr>rl_method = ''POST'', rl_target = target\<rparr>"
    using wf unfolding parseRequestLine_iff wf_head_def by (intro exI [of _ version]) auto
  moreover have "parseHeaders h (length ?line + 2) [] = Inr (map normal_header hs)"
    using wf parseHeaders_render [where out = "[]" and hs = hs and t = t and pre = "?line @ CRLF"] h
    unfolding wf_head_def request_head_def by simp
  moreover have "pathWithoutQuery target = ''/''"
    using wf unfolding pathWithoutQuery_root wf_head_def by blast
  ultimately show "\<exists>e r hs. str_find h CRLF 0 = Some e \<and> parseRequestLine (substr h 0 e) = Some r \<and>
      pathWithoutQuery (rl_target r) = ''/'' \<and> rl_method r = ''POST'' \<and>
      parseHeaders h (e + 2) [] = Inr hs \<and> headers_ok hs n \<and> length h + 4 + n \<le> limit"
    using e ok by (intro exI [of _ "length ?line"] exI [of _ "\<lparr>rl_method = ''POST'', rl_target = target\<rparr>"]
        exI [of _ "map normal_header hs"]) simp
qed

text \<open>
  C14. The check of a request head is exactly this grammar. A head is accepted with body length \<open>n\<close>
  if and only if it is \<open>POST\<close> of the path \<open>/\<close> (with or without a query) in HTTP/1.0 or 1.1, followed by
  header lines with token names that differ in more than case and values without control characters,
  without a transfer encoding, with a decimal content length \<open>n\<close>, a JSON content type and no non-empty
  origin, and head, blank line and body together stay within the limit. Nothing else is accepted,
  so the length of the body cannot be read in two ways.
\<close>

theorem ValidateRequestHead_grammar:
  "accepted (ValidateRequestHead h limit) \<and>
     rh_contentLength (vr_request (ValidateRequestHead h limit)) = n \<longleftrightarrow>
   (\<exists>target version hs t. h = request_head target version hs t \<and> wf_head target version hs t \<and>
      headers_ok (map normal_header hs) n \<and> length h + 4 + n \<le> limit)"
  by (rule head_grammar)

section \<open>Reading a request from a socket\<close>

text \<open>
  The reading loop of \<open>IpcServer::HandleClient\<close> in \<open>gui/ipc/IpcServer.cpp\<close>. A socket is the list of what its \<open>recv\<close> calls
  return, with an empty string for a result that is not positive; after the last element the
  socket delivers nothing more. \<open>head\<close> holds \<open>headerEnd\<close> and \<open>contentLength\<close> once the head is known.
\<close>

datatype RequestRead =
    Rejected nat string
  | NoHeader
  | TooLarge
  | IncompleteBody
  | Body string

definition finishRead :: "string \<Rightarrow> (nat \<times> nat) option \<Rightarrow> bool \<Rightarrow> RequestRead" where
  "finishRead raw head requestTooLarge =
     (case head of
        None \<Rightarrow> NoHeader
      | Some (headerEnd, contentLength) \<Rightarrow>
          let bodyStart = headerEnd + 4 in
          if requestTooLarge then TooLarge
          else if length raw < bodyStart \<or> length raw - bodyStart < contentLength then IncompleteBody
          else Body (substr raw bodyStart contentLength))"

definition bodyComplete :: "string \<Rightarrow> (nat \<times> nat) option \<Rightarrow> bool" where
  "bodyComplete raw head =
     (case head of
        None \<Rightarrow> False
      | Some (headerEnd, contentLength) \<Rightarrow>
          length raw \<ge> headerEnd + 4 \<and> length raw - (headerEnd + 4) \<ge> contentLength)"

fun readLoop :: "string \<Rightarrow> (nat \<times> nat) option \<Rightarrow> string list \<Rightarrow> RequestRead" where
  "readLoop raw head [] = finishRead raw head False"
| "readLoop raw head (buf # chunks) =
     (if buf = [] then finishRead raw head False
      else
        let raw = raw @ buf;
            continue = (\<lambda>head.
              if bodyComplete raw head then finishRead raw head False
              else if length raw > kMaxRequestBytes then finishRead raw head True
              else readLoop raw head chunks)
        in case head of
             Some _ \<Rightarrow> continue head
           | None \<Rightarrow>
               (case str_find raw (CRLF @ CRLF) 0 of
                  None \<Rightarrow> continue None
                | Some headerEnd \<Rightarrow>
                    let validation = ValidateRequestHead (substr raw 0 headerEnd) kMaxRequestBytes in
                    if \<not> accepted validation
                    then Rejected (vr_statusCode validation) (vr_error validation)
                    else continue (Some (headerEnd, rh_contentLength (vr_request validation)))))"

definition readRequest :: "string list \<Rightarrow> RequestRead" where
  "readRequest chunks = readLoop [] None chunks"

text \<open>The body that a whole stream of bytes carries, if it starts with an acceptable head.\<close>

definition request_body :: "string \<Rightarrow> string option" where
  "request_body s =
     (case str_find s (CRLF @ CRLF) 0 of
        None \<Rightarrow> None
      | Some e \<Rightarrow>
          let v = ValidateRequestHead (take e s) kMaxRequestBytes; n = rh_contentLength (vr_request v) in
          if accepted v \<and> e + 4 + n \<le> length s then Some (take n (drop (e + 4) s)) else None)"

fun body_of :: "RequestRead \<Rightarrow> string option" where
  "body_of (Body b) = Some b"
| "body_of _ = None"

lemma str_find_append:
  assumes "str_find s pat 0 = Some e"
  shows "str_find (s @ t) pat 0 = Some e"
proof -
  have "take (length pat) (drop j (s @ t)) = take (length pat) (drop j s)" if "j \<le> e" for j
    using that str_find_SomeD(2) [OF assms] by simp
  with assms show ?thesis
    unfolding str_find_Some_iff by (simp del: take_append drop_append)
qed

lemma finishRead_body:
  "body_of (finishRead raw (Some (e, n)) False) =
     (if e + 4 + n \<le> length raw then Some (take n (drop (e + 4) raw)) else None)"
  by (auto simp: finishRead_def substr_def Let_def)

text \<open>What the loop knows about the bytes it has: the head it has found, if any.\<close>

definition head_known :: "string \<Rightarrow> (nat \<times> nat) option \<Rightarrow> bool" where
  "head_known raw head =
     (case head of
        None \<Rightarrow> str_find raw (CRLF @ CRLF) 0 = None
      | Some (e, n) \<Rightarrow> str_find raw (CRLF @ CRLF) 0 = Some e \<and>
          accepted (ValidateRequestHead (take e raw) kMaxRequestBytes) \<and>
          rh_contentLength (vr_request (ValidateRequestHead (take e raw) kMaxRequestBytes)) = n)"

lemma head_known_append:
  assumes "head_known raw (Some h)"
  shows "head_known (raw @ t) (Some h)"
proof -
  obtain e n where h: "h = (e, n)" by (cases h)
  with assms have e: "str_find raw (CRLF @ CRLF) 0 = Some e" by (simp add: head_known_def)
  then have "e \<le> length raw" by (auto dest: str_find_SomeD)
  with str_find_append [OF e] assms h show ?thesis by (simp add: head_known_def)
qed

lemma request_body_known:
  "head_known raw (Some (e, n)) \<Longrightarrow> request_body raw =
     (if e + 4 + n \<le> length raw then Some (take n (drop (e + 4) raw)) else None)"
  by (auto simp: head_known_def request_body_def Let_def)

lemma head_bound:
  assumes "head_known raw (Some (e, n))"
  shows "e + 4 + n \<le> kMaxRequestBytes"
  using assms accepted_unfold [of "take e raw" kMaxRequestBytes n]
  by (auto simp: head_known_def dest: str_find_SomeD)

lemma str_find_new:
  assumes "str_find s pat 0 = None" "str_find (s @ t) pat 0 = Some e"
  shows "length s < e + length pat"
proof (rule ccontr)
  assume "\<not> length s < e + length pat"
  then have "take (length pat) (drop e s) = pat" "e \<le> length s"
    using str_find_SomeD(3) [OF assms(2)] by auto
  with assms(1) show False by (auto simp: str_find_None_iff)
qed

lemma request_body_bound:
  assumes "request_body s = Some b"
  obtains e n where "head_known s (Some (e, n))" "e + 4 + n \<le> kMaxRequestBytes"
proof -
  from assms obtain e where "head_known s
      (Some (e, rh_contentLength (vr_request (ValidateRequestHead (take e s) kMaxRequestBytes))))"
    by (auto simp: request_body_def head_known_def Let_def split: option.splits if_splits)
  with that head_bound show ?thesis by blast
qed

lemma readLoop_body:
  assumes "head_known raw head" "[] \<notin> set chunks"
  shows "body_of (readLoop raw head chunks) = request_body (raw @ concat chunks)"
  using assms
proof (induction chunks arbitrary: raw head)
  case Nil
  then show ?case
    by (cases head) (auto simp: finishRead_def head_known_def request_body_def Let_def substr_def)
next
  case (Cons buf chunks)
  from Cons.prems(2) have buf: "buf \<noteq> []" by auto
  let ?raw = "raw @ buf" and ?all = "raw @ concat (buf # chunks)"
  let ?continue = "\<lambda>head. if bodyComplete ?raw head then finishRead ?raw head False
      else if length ?raw > kMaxRequestBytes then finishRead ?raw head True
      else readLoop ?raw head chunks"
  have continue: "body_of (?continue h) = request_body ?all" if h: "head_known ?raw h" for h
  proof (cases h)
    case None
    have "request_body ?all = None" if "length ?raw > kMaxRequestBytes"
    proof (rule ccontr)
      assume "request_body ?all \<noteq> None"
      then obtain e n where e: "head_known ?all (Some (e, n))" "e + 4 + n \<le> kMaxRequestBytes"
        by (auto elim: request_body_bound)
      with h None str_find_new [of ?raw "CRLF @ CRLF" "concat chunks" e] that show False
        by (simp add: head_known_def)
    qed
    with None h Cons show ?thesis by (auto simp: bodyComplete_def finishRead_def)
  next
    case (Some en)
    then obtain e n where en: "h = Some (e, n)" by (cases en) auto
    from request_body_known [of ?all e n] head_known_append [of ?raw "(e, n)" "concat chunks"] h en
    have all: "request_body ?all =
      (if e + 4 + n \<le> length ?all then Some (take n (drop (e + 4) ?all)) else None)" by simp
    from head_bound [of ?raw e n] h en have "e + 4 + n \<le> kMaxRequestBytes" by simp
    moreover have "bodyComplete ?raw h \<longleftrightarrow> e + 4 + n \<le> length ?raw"
      using en by (auto simp: bodyComplete_def)
    moreover have "take n (drop (e + 4) ?all) = take n (drop (e + 4) ?raw)" if "e + 4 + n \<le> length ?raw"
      using that by simp
    ultimately show ?thesis
      using all en h Cons finishRead_body [of ?raw e n] by auto
  qed
  show ?case
  proof (cases head)
    case (Some h)
    with Cons.prems(1) continue [of "Some h"] head_known_append [of raw h buf] buf show ?thesis
      by (simp add: Let_def split: if_splits)
  next
    case None
    show ?thesis
    proof (cases "str_find ?raw (CRLF @ CRLF) 0")
      case None
      with \<open>head = None\<close> continue [of None] buf show ?thesis by (simp add: Let_def head_known_def)
    next
      case (Some e)
      let ?v = "ValidateRequestHead (substr ?raw 0 e) kMaxRequestBytes"
      have "e \<le> length ?raw" using Some by (auto dest: str_find_SomeD)
      then have v: "take e ?all = substr ?raw 0 e" by (simp add: substr_def)
      note all = str_find_append [OF Some, of "concat chunks"]
      show ?thesis
      proof (cases "accepted ?v")
        case True
        with Some have "head_known ?raw (Some (e, rh_contentLength (vr_request ?v)))"
          by (simp add: head_known_def substr_def)
        from continue [OF this] \<open>head = None\<close> Some True buf show ?thesis
          by (simp add: Let_def)
      next
        case False
        with all v have "request_body ?all = None" by (simp add: request_body_def Let_def)
        with \<open>head = None\<close> Some False buf show ?thesis by (simp add: Let_def)
      qed
    qed
  qed
qed

text \<open>
  C15. How the network cuts a request into pieces does not matter. For any sequence of non-empty pieces, the
  body that the server goes on to handle is the one that the whole stream of bytes determines: the
  bytes after the first blank line, as many as the accepted head announces. No cutting makes the
  server handle a body that another cutting would have refused or read differently.
\<close>

theorem readRequest_fragmentation:
  assumes "[] \<notin> set chunks"
  shows "body_of (readRequest chunks) = request_body (concat chunks)"
  using readLoop_body [of "[]" None chunks] assms
  by (simp add: readRequest_def head_known_def str_find_None_iff)

definition demo_chunks :: "string list" where
  "demo_chunks = [''POST / HT'', ''TP/1.1'' @ CRLF @ ''Content-Type: application/json'' @ [CHR 0x0D],
     CHR 0x0A # ''Content-Length: 2'' @ CRLF @ [CHR 0x0D], CHR 0x0A # ''{'', ''}'']"

lemma str_find_char_absent: "c \<notin> set s \<Longrightarrow> str_find_char s c 0 = None"
  by (auto simp: str_find_char_None_iff dest: nth_mem)

lemma demo_headers:
  "fresh_headers [] [(''Content-Type'', '' application/json''), (''Content-Length'', '' 2'')]"
  "map normal_header [(''Content-Type'', '' application/json''), (''Content-Length'', '' 2'')] =
     [(''content-type'', ''application/json''), (''content-length'', ''2'')]"
  "isJsonContentType ''application/json''" "parseContentLength ''2'' = Some 2"
proof -
  have "trimOptionalWhitespace '' 2'' = ''2''" "lowerAscii ''Content-Type'' = ''content-type''"
    "lowerAscii ''Content-Length'' = ''content-length''"
    "trimOptionalWhitespace '' application/json'' = ''application/json''"
    "trimOptionalWhitespace ''application/json'' = ''application/json''" by code_simp+
  then show "map normal_header [(''Content-Type'', '' application/json''), (''Content-Length'', '' 2'')] =
     [(''content-type'', ''application/json''), (''content-length'', ''2'')]"
    "isJsonContentType ''application/json''"
    by (simp_all add: normal_header_def isJsonContentType_def equalsIgnoreCase_def str_find_char_absent)
qed (simp_all add: wf_header_def isTokenCharacter_def isalnum_def validHeaderValueChar_def
      lowerAscii_def tolower_def parseContentLength_def isdigit_def)

lemma demo_head:
  defines "h \<equiv> request_head ''/'' ''HTTP/1.1''
      [(''Content-Type'', '' application/json''), (''Content-Length'', '' 2'')] []"
  shows "accepted (ValidateRequestHead h kMaxRequestBytes) \<and>
    rh_contentLength (vr_request (ValidateRequestHead h kMaxRequestBytes)) = 2"
  unfolding head_grammar
proof (intro exI conjI)
  show "h = request_head ''/'' ''HTTP/1.1''
      [(''Content-Type'', '' application/json''), (''Content-Length'', '' 2'')] []"
    by (simp add: h_def)
  show "wf_head ''/'' ''HTTP/1.1''
      [(''Content-Type'', '' application/json''), (''Content-Length'', '' 2'')] []"
    unfolding wf_head_def using demo_headers(1) by (simp add: no_cr_find)
  show "headers_ok (map normal_header
      [(''Content-Type'', '' application/json''), (''Content-Length'', '' 2'')]) 2"
    unfolding headers_ok_def demo_headers(2) using demo_headers(3,4) by simp
  show "length h + 4 + 2 \<le> kMaxRequestBytes" by (simp add: h_def request_head_def kMaxRequestBytes_def)
qed

theorem readRequest_fragmentation_witness:
  "[] \<notin> set demo_chunks \<and> body_of (readRequest demo_chunks) = Some ''{}''"
proof -
  have "[] \<notin> set demo_chunks" by (simp add: demo_chunks_def)
  moreover have "str_find (concat demo_chunks) (CRLF @ CRLF) 0 = Some 66" by code_simp
  moreover have "take 66 (concat demo_chunks) = request_head ''/'' ''HTTP/1.1''
      [(''Content-Type'', '' application/json''), (''Content-Length'', '' 2'')] []" by code_simp
  moreover have "drop 70 (concat demo_chunks) = ''{}''" "length (concat demo_chunks) = 72" by code_simp+
  ultimately show ?thesis using readRequest_fragmentation demo_head
    by (simp add: request_body_def Let_def)
qed

end
