(* ===== verification/IpcJson.thy ===== *)
theory IpcJson
  imports HttpRequest CLibrary
begin

text \<open>
  The parameters and the texts of the IPC server, from \<open>gui/ipc/IpcServer.cpp\<close> (lines 22 to 312 and 640 to
  760): reading of typed parameters from a JSON value, hexadecimal bytes and addresses. A JSON value
  is what the library distinguishes; a signed and an unsigned integer are different kinds of
  number, and of a floating-point number only its truncation is kept, which is all that the sources use.
  A thrown exception is a value of \<open>IpcException\<close>, the left side of the result.
\<close>

section \<open>Values and exceptions\<close>

datatype json =
    JNull
  | JBool bool
  | JUnsigned u64
  | JInteger int
  | JFloat int
  | JString string
  | JArray "json list"
  | JObject "(string \<times> json) list"

text \<open>
  \<open>MissingKey\<close> is \<open>json::out_of_range\<close> and \<open>WrongType\<close> is \<open>json::type_error\<close>. \<open>Undefined\<close> stands for a conversion of a number
  that C++ leaves undefined.
\<close>

datatype IpcException = invalid_argument string | MissingKey string | WrongType | Undefined

type_synonym 'a throws = "IpcException + 'a"

definition is_object :: "json \<Rightarrow> bool" where
  "is_object j = (case j of JObject _ \<Rightarrow> True | _ \<Rightarrow> False)"

definition members :: "json \<Rightarrow> string \<Rightarrow> json option" where
  "members j = (case j of JObject m \<Rightarrow> map_of m | _ \<Rightarrow> Map.empty)"

abbreviation contains_key :: "json \<Rightarrow> string \<Rightarrow> bool" where
  "contains_key j key \<equiv> members j key \<noteq> None"

definition at_key :: "json \<Rightarrow> string \<Rightarrow> json throws" where
  "at_key j key =
     (if \<not> is_object j then Inl WrongType
      else case members j key of None \<Rightarrow> Inl (MissingKey key) | Some v \<Rightarrow> Inr v)"

definition throw :: "string \<Rightarrow> 'a throws" where
  "throw message = Inl (invalid_argument message)"

definition bind_throws :: "'a throws \<Rightarrow> ('a \<Rightarrow> 'b throws) \<Rightarrow> 'b throws" where
  "bind_throws m f = (case m of Inl e \<Rightarrow> Inl e | Inr a \<Rightarrow> f a)"

lemma bind_throws_simps [simp]: "bind_throws (Inl e) f = Inl e" "bind_throws (Inr a) f = f a"
  by (simp_all add: bind_throws_def)

lemma bind_throws_Inr: "bind_throws m f = Inr b \<longleftrightarrow> (\<exists>a. m = Inr a \<and> f a = Inr b)"
  by (cases m) auto

definition isBlankString :: "string \<Rightarrow> bool" where
  "isBlankString s = (\<forall>c \<in> set s. isspace c)"

section \<open>Parameters\<close>

text \<open>
  The integer that a number of the JSON library stands for, when it is an integer, and the
  beginning that the positive parameters share: \<open>value\<close> of a positive integer.
\<close>

definition positiveInteger :: "string \<Rightarrow> json \<Rightarrow> nat throws" where
  "positiveInteger key raw =
     (case raw of
        JUnsigned n \<Rightarrow> Inr (unat n)
      | JInteger i \<Rightarrow> if i \<le> 0 then throw (key @ '' must be positive'') else Inr (nat i)
      | _ \<Rightarrow> throw (key @ '' must be an integer''))"

definition getPositiveSizeParam :: "json \<Rightarrow> string \<Rightarrow> u32 \<Rightarrow> u32 \<Rightarrow> u32 throws" where
  "getPositiveSizeParam params key defaultValue maxValue =
     (case members params key of
        None \<Rightarrow> Inr defaultValue
      | Some raw \<Rightarrow> bind_throws (positiveInteger key raw) (\<lambda>v.
          if v = 0 then throw (key @ '' must be positive'')
          else if v > unat maxValue then Inr maxValue
          else Inr (of_nat v)))"

definition getStringParam :: "json \<Rightarrow> string \<Rightarrow> string \<Rightarrow> bool \<Rightarrow> bool \<Rightarrow> nat \<Rightarrow> string throws" where
  "getStringParam params key defaultValue required allowEmpty maxLength =
     (case members params key of
        None \<Rightarrow> if required then throw (key @ '' is required'') else Inr defaultValue
      | Some (JString v) \<Rightarrow>
          if \<not> allowEmpty \<and> isBlankString v then throw (key @ '' must not be empty'')
          else if length v > maxLength then throw (key @ '' is too long'')
          else Inr v
      | Some _ \<Rightarrow> throw (key @ '' must be a string''))"

abbreviation INT64_MAX :: int where
  "INT64_MAX \<equiv> 9223372036854775807"

definition signedInteger :: "string \<Rightarrow> json \<Rightarrow> int throws" where
  "signedInteger key raw =
     (case raw of
        JUnsigned n \<Rightarrow> Inr (min (uint n) INT64_MAX)
      | JInteger i \<Rightarrow> Inr i
      | _ \<Rightarrow> throw (key @ '' must be an integer''))"

definition getClampedIntParam :: "json \<Rightarrow> string \<Rightarrow> int \<Rightarrow> int \<Rightarrow> int \<Rightarrow> int throws" where
  "getClampedIntParam params key defaultValue minValue maxValue =
     (case members params key of
        None \<Rightarrow> Inr defaultValue
      | Some raw \<Rightarrow> bind_throws (signedInteger key raw) (\<lambda>v.
          Inr (if v < minValue then minValue else if v > maxValue then maxValue else v)))"

definition getRequiredPositiveIntParam :: "json \<Rightarrow> string \<Rightarrow> int throws" where
  "getRequiredPositiveIntParam params key =
     (case members params key of
        None \<Rightarrow> throw (key @ '' is required'')
      | Some raw \<Rightarrow> bind_throws (positiveInteger key raw) (\<lambda>v.
          if v = 0 \<or> v > INT_MAX then throw (key @ '' out of range'') else Inr (int v)))"

definition getOptionalPositiveUintParam :: "json \<Rightarrow> string \<Rightarrow> u32 \<Rightarrow> u32 \<Rightarrow> u32 throws" where
  "getOptionalPositiveUintParam params key defaultValue maxValue =
     (case members params key of
        None \<Rightarrow> Inr defaultValue
      | Some raw \<Rightarrow> bind_throws (positiveInteger key raw) (\<lambda>v.
          if v = 0 \<or> v > unat maxValue then throw (key @ '' out of range'') else Inr (of_nat v)))"

definition getOptionalBoolParam :: "json \<Rightarrow> string \<Rightarrow> bool \<Rightarrow> bool throws" where
  "getOptionalBoolParam params key defaultValue =
     (case members params key of
        None \<Rightarrow> Inr defaultValue
      | Some (JBool b) \<Rightarrow> Inr b
      | Some _ \<Rightarrow> throw (key @ '' must be a boolean''))"

text \<open>
  \<open>requestTimeoutSeconds\<close>. The sum \<open>timeoutMs + 999\<close> is taken at 64 bits and the quotient is cut to 32 bits, as
  compilers do it where the language leaves the overflow open.
\<close>

definition requestTimeoutSeconds :: "json \<Rightarrow> int throws" where
  "requestTimeoutSeconds request =
     (if \<not> is_object request then Inr 30
      else bind_throws
        (case members request ''method'' of
           None \<Rightarrow> Inr []
         | Some (JString s) \<Rightarrow> Inr s
         | Some _ \<Rightarrow> Inl WrongType) (\<lambda>method.
        if method \<noteq> ''uxn_wait'' then Inr 30
        else case members request ''params'' of
          None \<Rightarrow> Inr 30
        | Some params \<Rightarrow>
          (case members params ''timeout_ms'' of
             None \<Rightarrow> Inr 30
           | Some timeout \<Rightarrow>
             (case signedInteger ''timeout_ms'' timeout of
                Inl _ \<Rightarrow> Inr 30
              | Inr timeoutMs \<Rightarrow>
                  if timeoutMs \<le> 0 then Inr 30
                  else
                    let t = sint (of_int (timeoutMs + 999) :: u64);
                        seconds = (if t < 0 then - (- t div 1000) else t div 1000)
                    in Inr (min 70 (sint (of_int seconds :: u32) + 5))))))"

section \<open>Hexadecimal\<close>

definition BytesToHex :: "bytes \<Rightarrow> string" where
  "BytesToHex data = concat (map (\<lambda>b. [hex_digit (unat b div 16), hex_digit (unat b mod 16)]) data)"

fun hexPairs :: "string \<Rightarrow> bytes throws" where
  "hexPairs (c # d # cs) =
     (case (HexNibble c, HexNibble d) of
        (Some hi, Some lo) \<Rightarrow>
          bind_throws (hexPairs cs) (\<lambda>rest. Inr (of_nat (hi * 16 + lo) # rest))
      | _ \<Rightarrow> throw ''hex string contains non-hex characters'')"
| "hexPairs _ = Inr []"

definition HexToBytes :: "string \<Rightarrow> bytes throws" where
  "HexToBytes hex =
     (let cleaned = filter (\<lambda>c. \<not> isspace c) hex in
      if length cleaned mod 2 \<noteq> 0
      then throw ''hex string must contain an even number of digits''
      else hexPairs cleaned)"

definition formatAddress :: "u64 \<Rightarrow> string" where
  "formatAddress address = ''0x'' @ hex_digits (unat address)"

section \<open>Addresses\<close>

definition isBlank :: "char \<Rightarrow> bool" where
  "isBlank c \<longleftrightarrow> c \<in> {CHR '' '', CHR 0x09, CHR 0x0D, CHR 0x0A}"

definition trimBlank :: "string \<Rightarrow> string" where
  "trimBlank s = rev (dropWhile isBlank (rev (dropWhile isBlank s)))"

definition ParseAddress :: "json \<Rightarrow> string \<Rightarrow> u64 throws" where
  "ParseAddress params key = bind_throws (at_key params key) (\<lambda>v.
     case v of
       JString s0 \<Rightarrow>
         let s = trimBlank s0; invalid = throw (''invalid address: '' @ key) in
         if s = [] \<or> hd s = CHR ''-'' then invalid
         else
           let base = (if length s > 2 \<and> s ! 0 = CHR ''0'' \<and> s ! 1 \<in> {CHR ''x'', CHR ''X''}
                       then 16 else 10) in
           (case strtoull base s of
              None \<Rightarrow> invalid
            | Some (parsed, erange, rest) \<Rightarrow> if rest \<noteq> [] \<or> erange then invalid else Inr parsed)
     | JUnsigned n \<Rightarrow> Inr n
     | JInteger i \<Rightarrow> if i < 0 then throw (''invalid address: '' @ key) else Inr (of_int i)
     | JFloat t \<Rightarrow> if 0 \<le> t \<and> t < 2 ^ 64 then Inr (of_int t) else Inl Undefined
     | _ \<Rightarrow> Inl WrongType)"

definition ParseUxnSlot :: "json \<Rightarrow> string \<Rightarrow> u32 \<Rightarrow> u32 throws" where
  "ParseUxnSlot params key defaultValue =
     (if \<not> contains_key params key then Inr defaultValue
      else bind_throws (ParseAddress params key) (\<lambda>v.
        if v \<noteq> ucast kUxnWaitAnySlot \<and> v \<ge> ucast kMaxUxnSlots
        then throw (key @ '' must be 0-15 or 4294967295 for any slot'')
        else Inr (ucast v)))"

fun parseAddresses :: "json list \<Rightarrow> string \<Rightarrow> u64 list throws" where
  "parseAddresses [] key = Inr []"
| "parseAddresses (v # vs) key =
     bind_throws (ParseAddress (JObject [(key, v)]) key) (\<lambda>a.
     bind_throws (parseAddresses vs key) (\<lambda>rest. Inr (a # rest)))"

definition ParseUxnRegisters :: "json \<Rightarrow> UxnRegisters throws" where
  "ParseUxnRegisters v =
     (case members v ''general'' of
        Some (JArray values) \<Rightarrow>
          if length values \<noteq> 31
          then throw ''registers.general must contain exactly 31 values''
          else
            bind_throws (parseAddresses values ''value'') (\<lambda>general.
            bind_throws (ParseAddress v ''sp'') (\<lambda>sp.
            bind_throws (ParseAddress v ''pc'') (\<lambda>pc.
            bind_throws (ParseAddress v ''pstate'') (\<lambda>pstate.
              Inr \<lparr>ur_general = general, ur_stackPointer = sp, ur_programCounter = pc,
                   ur_pstate = pstate\<rparr>))))
      | _ \<Rightarrow> throw ''registers.general must contain exactly 31 values'')"

section \<open>Round trips\<close>

lemma hex_digit_not_blank:
  assumes "d < 16"
  shows "\<not> isBlank (hex_digit d)"
proof -
  have ne: "hex_digit d \<noteq> c" if "(of_char c :: nat) < 48" for c
    using hex_digit_clean(3) [OF assms] that by auto
  show ?thesis using ne [of "CHR '' ''"] ne [of "CHR 0x09"] ne [of "CHR 0x0D"] ne [of "CHR 0x0A"]
    by (simp add: isBlank_def)
qed

lemma hexPairs_BytesToHex: "hexPairs (BytesToHex bs) = Inr bs"
proof (induction bs)
  case (Cons b bs)
  have "unat b < 256" using unsigned_less [of b, where ?'a = nat] by simp
  then have "unat b div 16 < 16" "unat b mod 16 < 16" by auto
  with Cons show ?case
    by (simp add: BytesToHex_def div_mult_mod_eq)
qed (simp add: BytesToHex_def)

lemma BytesToHex_digits:
  assumes "c \<in> set (BytesToHex bs)"
  shows "\<exists>d < 16. c = hex_digit d"
proof -
  from assms obtain b :: u8 where "c = hex_digit (unat b div 16) \<or> c = hex_digit (unat b mod 16)"
    by (auto simp: BytesToHex_def)
  moreover have "unat b div 16 < 16" using unsigned_less [of b, where ?'a = nat] by simp
  moreover have "unat b mod 16 < 16" by simp
  ultimately show ?thesis by blast
qed

lemma BytesToHex_length [simp]: "length (BytesToHex bs) = 2 * length bs"
  by (induction bs) (auto simp: BytesToHex_def)

lemma BytesToHex_clean [simp]: "filter (\<lambda>c. \<not> isspace c) (BytesToHex bs) = BytesToHex bs"
  unfolding filter_id_conv using BytesToHex_digits hex_digit_clean(1) by blast

text \<open>
  Bytes survive the trip through text: what the server prints for a read is read back as the same
  bytes by the parser of a write, for every byte string.
\<close>

theorem HexToBytes_BytesToHex: "HexToBytes (BytesToHex bs) = Inr bs"
  by (simp add: HexToBytes_def hexPairs_BytesToHex)

lemma trimBlank_clean:
  assumes "s \<noteq> []" "\<not> isBlank (hd s)" "\<not> isBlank (last s)"
  shows "trimBlank s = s"
proof -
  have front: "dropWhile P xs = xs" if "xs \<noteq> []" "\<not> P (hd xs)" for P and xs :: string
    using that by (cases xs) auto
  have "dropWhile isBlank s = s" using front assms by blast
  moreover have "dropWhile isBlank (rev s) = rev s" using front [of "rev s" isBlank] assms by (simp add: hd_rev)
  ultimately show ?thesis unfolding trimBlank_def by (simp only: rev_rev_ident)
qed

lemma ParseAddress_printed:
  assumes "members v key = Some (JString (formatAddress a))"
  shows "ParseAddress v key = Inr a"
proof -
  let ?d = "hex_digits (unat a)"
  have printed: "formatAddress a = CHR ''0'' # CHR ''x'' # ?d" by (simp add: formatAddress_def)
  have "last ?d \<in> set ?d" by simp
  then have "\<not> isBlank (last ?d)" using hex_digits_range hex_digit_not_blank by metis
  then have trim: "trimBlank (formatAddress a) = CHR ''0'' # CHR ''x'' # ?d"
    unfolding printed by (intro trimBlank_clean) (auto simp: isBlank_def)
  have "is_object v" using assms by (auto simp: members_def is_object_def split: json.split_asm)
  moreover have "2 < length (CHR ''0'' # CHR ''x'' # ?d)" using hex_digits_ne [of "unat a"] by (cases ?d) auto
  ultimately show ?thesis
    using strtoull_hex_digits [of a] trim assms by (simp add: ParseAddress_def at_key_def Let_def)
qed

text \<open>
  Addresses survive the trip through text: every address that the server prints is read back as the
  same 64-bit address.
\<close>

theorem ParseAddress_formatAddress:
  "ParseAddress (JObject [(key, JString (formatAddress a))]) key = Inr a"
  by (rule ParseAddress_printed) (simp add: members_def)

lemma parseAddresses_printed:
  "parseAddresses (map (\<lambda>a. JString (formatAddress a)) as) key = Inr as"
  by (induction as) (simp_all add: ParseAddress_printed members_def)

text \<open>
  The test for a minus sign looks behind spaces, tabs and line ends only, while \<open>strtoull\<close> also skips vertical tabs
  and form feeds: a negative number behind one of these is accepted.
\<close>

lemma ParseAddress_accepts_negative:
  "ParseAddress (JObject [(''address'', JString (CHR 0x0B # ''-1''))]) ''address'' = Inr UINT64_MAX"
  by (simp add: ParseAddress_def at_key_def is_object_def members_def trimBlank_def isBlank_def Let_def
      strtoull_def isspace_def digit_value_def HexNibble_def)

section \<open>Time limits\<close>

lemma sint_small_u64: "0 \<le> k \<Longrightarrow> k < 2 ^ 63 \<Longrightarrow> sint (of_int k :: u64) = k"
  unfolding sint_sbintrunc' by (simp add: signed_take_bit_int_eq_self)

lemma sint_small_u32: "0 \<le> k \<Longrightarrow> k < 2 ^ 31 \<Longrightarrow> sint (of_int k :: u32) = k"
  unfolding sint_sbintrunc' by (simp add: signed_take_bit_int_eq_self)

text \<open>
  The time that the server allows a \<open>uxn_wait\<close> request covers the wait itself: for every wait of 1 to 60000
  milliseconds that the method accepts, it is the wait rounded up to seconds and five seconds more,
  so at least five seconds longer than the wait and at most 65 seconds.
\<close>

theorem requestTimeoutSeconds_covers_wait:
  assumes "members request ''method'' = Some (JString ''uxn_wait'')"
    and "members request ''params'' = Some params"
    and "members params ''timeout_ms'' = Some (JUnsigned n)" and "1 \<le> unat n" "unat n \<le> 60000"
  shows "\<exists>t. requestTimeoutSeconds request = Inr t \<and> int (unat n) + 5000 \<le> t * 1000 \<and>
    t * 1000 < int (unat n) + 6000 \<and> t \<le> 65"
proof -
  let ?m = "int (unat n)"
  have "uint n = ?m" by simp
  with assms(4,5) have u: "1 \<le> uint n" "uint n \<le> 60000" by linarith+
  have object: "is_object request" using assms(1) by (auto simp: members_def is_object_def split: json.split_asm)
  have sum: "sint (of_int (?m + 999) :: u64) = ?m + 999"
    using u by (intro sint_small_u64) auto
  have "sint (of_int ((?m + 999) div 1000) :: u32) = (?m + 999) div 1000"
    using u by (intro sint_small_u32) auto
  then have "requestTimeoutSeconds request = Inr (min 70 ((?m + 999) div 1000 + 5))"
    using assms(1-3) u object sum
    by (simp add: requestTimeoutSeconds_def signedInteger_def Let_def)
  moreover have "(?m + 999) div 1000 \<le> 60" using u by simp
  ultimately show ?thesis by (auto intro!: exI [of _ "(?m + 999) div 1000 + 5"])
qed

theorem requestTimeoutSeconds_covers_wait_witness:
  "\<exists>t. requestTimeoutSeconds (JObject [(''method'', JString ''uxn_wait''),
       (''params'', JObject [(''timeout_ms'', JUnsigned 1500)])]) = Inr t \<and> 6500 \<le> t * 1000 \<and> t \<le> 65"
  using requestTimeoutSeconds_covers_wait [of "JObject [(''method'', JString ''uxn_wait''),
       (''params'', JObject [(''timeout_ms'', JUnsigned 1500)])]" "JObject [(''timeout_ms'', JUnsigned 1500)]" 1500]
  by (auto simp: members_def)

text \<open>
  Beyond that range the quotient is cut to 32 bits before the limit of 70 seconds is applied, so the
  result can be negative. The method rejects such a wait before it touches a socket.
\<close>

lemma requestTimeoutSeconds_wraps:
  "requestTimeoutSeconds (JObject [(''method'', JString ''uxn_wait''),
     (''params'', JObject [(''timeout_ms'', JUnsigned 2147483648000)])]) = Inr (- 2147483643)"
  by (simp add: requestTimeoutSeconds_def is_object_def members_def signedInteger_def Let_def)

end
