(* ===== verification/MemBackend.thy ===== *)
theory MemBackend
  imports ModuleLookup
begin

text \<open>
  The interface \<open>IMemBackend\<close> of \<open>gui/mem/IMemBackend.h\<close> with its two kinds of transactions, and
  the context validation that every operation of \<open>MemService\<close> runs before, between and after
  its backend calls.

  A backend is a record of computations over a world \<open>'w\<close>. Every call, also one that is
  \<open>const\<close> in C++, is a computation that returns a value and a new world: the device, the
  connection, other threads and the clock may all move between two calls, and an arbitrary
  world transformer covers every such interleaving. An out parameter that is meaningful only when a
  call returns \<open>true\<close> is the value of an option. The destruction of a transaction
  releases locks and is not a step of its own, since the model never fixes what other threads do in
  the meantime. \<open>MemRuntime\<close> adds what the service takes from the C++ runtime: the
  clock and the cancellation flags.
\<close>

record 'w IMemReadTransaction =
  rt_valid :: "('w, bool) state"
  rt_fetchModules :: "('w, ModuleInfo list option) state"
  rt_readMemory :: "u64 \<Rightarrow> u32 \<Rightarrow> ('w, bytes option) state"
  rt_readMemoryBatch :: "MemoryReadRequest list \<Rightarrow> ('w, MemoryBlock list option) state"

record 'w IMemSymbolTransaction =
  sy_valid :: "('w, bool) state"
  sy_fetchModules :: "('w, ModuleInfo list option) state"
  sy_initialize :: "u64 \<Rightarrow> ('w, int option) state"
  sy_fetch :: "nat \<Rightarrow> nat \<Rightarrow> ('w, (SymbolInfo list \<times> int) option) state"
  sy_find :: "u64 \<Rightarrow> string \<Rightarrow> ('w, u64 option) state"

record 'w IMemBackend =
  be_isConnected :: "('w, bool) state"
  be_isPoisoned :: "('w, bool) state"
  be_connectionGeneration :: "('w, u64) state"
  be_targetSnapshot :: "('w, TargetSnapshot) state"
  be_processName :: "('w, string) state"
  be_connect :: "string \<Rightarrow> u16 \<Rightarrow> ('w, bool) state"
  be_disconnect :: "('w, bool) state"
  be_fetchServerVersion :: "('w, (int \<times> string) option) state"
  be_fetchMemoryType :: "('w, (int \<times> string) option) state"
  be_initializeDriver ::
    "OperationContext \<Rightarrow> string \<Rightarrow> bool \<Rightarrow> ('w, DriverInitializationBackendResult) state"
  be_fetchProcesses :: "OperationContext \<Rightarrow> ('w, ProcessInfo list option) state"
  be_openProcess :: "OperationContext \<Rightarrow> int \<Rightarrow> string \<Rightarrow> ('w, bool) state"
  be_beginReadTransaction :: "OperationContext \<Rightarrow> ('w, 'w IMemReadTransaction option) state"
  be_beginSymbolTransaction :: "OperationContext \<Rightarrow> ('w, 'w IMemSymbolTransaction option) state"
  be_readMemory :: "OperationContext \<Rightarrow> u64 \<Rightarrow> u32 \<Rightarrow> ('w, bytes option) state"
  be_readMemoryBatch ::
    "OperationContext \<Rightarrow> MemoryReadRequest list \<Rightarrow> ('w, MemoryBlock list option) state"
  be_writeMemory :: "OperationContext \<Rightarrow> u64 \<Rightarrow> bytes \<Rightarrow> ('w, MemoryWriteBackendResult) state"
  be_setBreakpoint ::
    "OperationContext \<Rightarrow> u64 \<Rightarrow> BreakpointAccess \<Rightarrow> u32 \<Rightarrow>
       ('w, BreakpointMutationBackendResult) state"
  be_removeBreakpoint :: "OperationContext \<Rightarrow> u64 \<Rightarrow> ('w, BreakpointMutationBackendResult) state"
  be_suspendBreakpoint :: "OperationContext \<Rightarrow> u64 \<Rightarrow> ('w, BreakpointMutationBackendResult) state"
  be_resumeBreakpoint :: "OperationContext \<Rightarrow> u64 \<Rightarrow> ('w, BreakpointMutationBackendResult) state"
  be_fetchBreakpointHits ::
    "OperationContext \<Rightarrow> u64 \<Rightarrow> nat \<Rightarrow> ('w, (BreakpointHit list \<times> nat) option) state"
  be_fetchBreakpointSlots ::
    "OperationContext \<Rightarrow> u32 \<Rightarrow> ('w, BreakpointThreadSlots list option) state"
  be_installUxnBreakpoint :: "OperationContext \<Rightarrow> u64 \<Rightarrow> ('w, UxnInstallBackendResult) state"
  be_removeUxnBreakpoint :: "OperationContext \<Rightarrow> u64 \<Rightarrow> ('w, UxnOperationBackendResult) state"
  be_waitUxnBreakpoint ::
    "OperationContext \<Rightarrow> u32 \<Rightarrow> u32 \<Rightarrow> u64 \<Rightarrow> ('w, UxnWaitBackendResult) state"
  be_resumeUxnBreakpoint ::
    "OperationContext \<Rightarrow> u32 \<Rightarrow> bool \<Rightarrow> UxnRegisters \<Rightarrow> ('w, UxnOperationBackendResult) state"
  be_queryUxnBreakpointStatus :: "OperationContext \<Rightarrow> u32 \<Rightarrow> ('w, UxnStatusBackendResult) state"
  be_clearUxnBreakpoints :: "OperationContext \<Rightarrow> ('w, UxnOperationBackendResult) state"

record 'w MemRuntime = "'w IMemBackend" +
  rn_now :: "('w, int) state"
  rn_loadToken :: "nat \<Rightarrow> ('w, bool) state"

section \<open>The shape of an operation\<close>

text \<open>
  \<open>return_if_error v k\<close> is the statement
  \<open>if (const auto error = v) return failureFrom<T>(*error);\<close> followed by \<open>k\<close>.
\<close>

definition return_if_error ::
    "('w, Error option) state \<Rightarrow> ('w, 'a Result) state \<Rightarrow> ('w, 'a Result) state" where
  "return_if_error v k = do {
     e \<leftarrow> v;
     case e of Some err \<Rightarrow> State_Monad.return (failureFrom err) | None \<Rightarrow> k }"

definition fail :: "ErrorCode \<Rightarrow> string \<Rightarrow> bool \<Rightarrow> ('w, 'a Result) state" where
  "fail code message retryable = State_Monad.return (failure code message retryable)"

definition cancelRequested :: "'w MemRuntime \<Rightarrow> OperationContext \<Rightarrow> ('w, bool) state" where
  "cancelRequested be ctx =
     (case oc_cancellation ctx of
        None \<Rightarrow> State_Monad.return False
      | Some token \<Rightarrow> rn_loadToken be token)"

definition deadlineExpired :: "'w MemRuntime \<Rightarrow> OperationContext \<Rightarrow> ('w, bool) state" where
  "deadlineExpired be ctx = do { now \<leftarrow> rn_now be; State_Monad.return (now \<ge> oc_deadline ctx) }"

definition validateTarget :: "'w MemRuntime \<Rightarrow> OperationContext \<Rightarrow> ('w, Error option) state" where
  "validateTarget be ctx =
     (case oc_target ctx of
        None \<Rightarrow> State_Monad.return (Some (mkError NoTarget ''no target process is attached'' False))
      | Some t \<Rightarrow>
          if \<not> isAttached t
          then State_Monad.return (Some (mkError NoTarget ''no target process is attached'' False))
          else if ts_connectionGeneration t \<noteq> oc_connectionGeneration ctx
          then State_Monad.return (Some (mkError ConnectionChanged
                 ''target belongs to another connection generation'' True))
          else do {
            current \<leftarrow> be_targetSnapshot be;
            State_Monad.return
              (if current \<noteq> t
               then Some (mkError TargetChanged
                      ''target process changed while the operation was pending'' False)
               else None) })"

definition validateConnection ::
    "'w MemRuntime \<Rightarrow> OperationContext \<Rightarrow> bool \<Rightarrow> bool \<Rightarrow> ('w, Error option) state" where
  "validateConnection be ctx requireConnected requireTarget = do {
     generation \<leftarrow> be_connectionGeneration be;
     if generation \<noteq> oc_connectionGeneration ctx
     then do {
       poisoned \<leftarrow> be_isPoisoned be;
       State_Monad.return (Some
         (if poisoned
          then mkError ConnectionPoisoned
                 ''connection lost protocol synchronization; reconnect is required'' True
          else mkError ConnectionChanged
                 ''connection changed while the operation was pending'' True)) }
     else do {
       poisoned \<leftarrow> (if requireConnected then be_isPoisoned be else State_Monad.return False);
       if poisoned
       then State_Monad.return (Some (mkError ConnectionPoisoned
              ''connection is poisoned and must be reconnected'' True))
       else do {
         connected \<leftarrow> (if requireConnected then be_isConnected be else State_Monad.return True);
         if \<not> connected
         then State_Monad.return (Some (mkError NotConnected
                ''MiniMem is not connected to the Android server'' True))
         else if requireTarget then validateTarget be ctx
         else State_Monad.return None }}}"

definition validateContext ::
    "'w MemRuntime \<Rightarrow> OperationContext \<Rightarrow> bool \<Rightarrow> bool \<Rightarrow> bool \<Rightarrow> ('w, Error option) state" where
  "validateContext be ctx requireConnected requireTarget checkCancellation = do {
     cancelled \<leftarrow>
       (if checkCancellation then cancelRequested be ctx else State_Monad.return False);
     if cancelled
     then State_Monad.return (Some (mkError CancelRequested ''operation was cancelled'' False))
     else do {
       expired \<leftarrow>
         (if checkCancellation then deadlineExpired be ctx else State_Monad.return False);
       if expired
       then State_Monad.return (Some (mkError Timeout ''operation deadline has expired'' True))
       else validateConnection be ctx requireConnected requireTarget }}"

definition captureContext :: "'w MemRuntime \<Rightarrow> bool \<Rightarrow> ('w, OperationContext) state" where
  "captureContext be includeTarget = do {
     generation \<leftarrow> be_connectionGeneration be;
     target \<leftarrow> (if includeTarget
       then do { t \<leftarrow> be_targetSnapshot be; State_Monad.return (Some t) }
       else State_Monad.return None);
     State_Monad.return \<lparr>oc_connectionGeneration = generation, oc_target = target,
       oc_cancellation = None, oc_deadline = time_point_max\<rparr> }"

definition connectionSnapshot :: "'w MemRuntime \<Rightarrow> ('w, ConnectionSnapshot) state" where
  "connectionSnapshot be = do {
     connected \<leftarrow> be_isConnected be;
     poisoned \<leftarrow> be_isPoisoned be;
     generation \<leftarrow> be_connectionGeneration be;
     State_Monad.return
       \<lparr>cs_connected = connected, cs_poisoned = poisoned, cs_generation = generation\<rparr> }"

section \<open>Taking runs apart\<close>

declare run_state_bind [simp del]

lemma run_return_if_error:
  "run_state (return_if_error v k) w = (r, w') \<longleftrightarrow>
     (\<exists>e w1. run_state v w = (Some e, w1) \<and> r = Failure e \<and> w' = w1) \<or>
     (\<exists>w1. run_state v w = (None, w1) \<and> run_state k w1 = (r, w'))"
  unfolding return_if_error_def run_bind_iff
  by (auto split: option.splits)

lemma run_return_if_error_Success:
  "run_state (return_if_error v k) w = (Success a, w') \<longleftrightarrow>
     (\<exists>w1. run_state v w = (None, w1) \<and> run_state k w1 = (Success a, w'))"
  by (auto simp: run_return_if_error)

lemma return_if_error_SuccessE:
  assumes "run_state (return_if_error v k) w = (Success a, w')"
  obtains w1 where "run_state v w = (None, w1)" "run_state k w1 = (Success a, w')"
  using assms by (auto simp: run_return_if_error)

lemma run_fail [simp]: "run_state (fail c m r) w = (failure c m r, w)"
  by (simp add: fail_def)

lemma keeps_return_if_error [keeps_intros]:
  "keeps invar f v \<Longrightarrow> keeps invar f k \<Longrightarrow> keeps invar f (return_if_error v k)"
  unfolding return_if_error_def by (intro keeps_intros)

lemma keeps_fail [keeps_intros]: "keeps invar f (fail c m r)"
  by (simp add: keeps_def)

lemma keeps_validateContext:
  assumes "keeps invar f (be_connectionGeneration be)" "keeps invar f (be_isPoisoned be)"
    "keeps invar f (be_isConnected be)" "keeps invar f (be_targetSnapshot be)"
    "keeps invar f (rn_now be)" "\<And>t. keeps invar f (rn_loadToken be t)"
  shows "keeps invar f (validateContext be ctx rc rt cc)"
  unfolding validateContext_def validateConnection_def validateTarget_def cancelRequested_def
    deadlineExpired_def
  by (intro keeps_intros assms)

text \<open>What a passed validation has seen of the target.\<close>

lemma validateContext_target:
  assumes "run_state (validateContext be ctx rc True cc) w = (None, w')"
  obtains t where "oc_target ctx = Some t" "isAttached t"
    "ts_connectionGeneration t = oc_connectionGeneration ctx"
    "\<exists>w1. run_state (be_targetSnapshot be) w1 = (t, w')"
  using assms
  by (auto simp: validateContext_def validateConnection_def validateTarget_def run_bind_iff
      split: if_splits option.splits)

text \<open>The codes with which a validation fails.\<close>

lemma validateContext_code:
  assumes "run_state (validateContext be ctx rc rt cc) w = (Some e, w')"
  shows "er_code e \<in> {CancelRequested, Timeout, ConnectionPoisoned, ConnectionChanged,
    NotConnected, NoTarget, TargetChanged}"
  using assms
  by (auto simp: validateContext_def validateConnection_def validateTarget_def elim!: run_bindE
      split: if_split_asm option.split_asm)

lemma return_if_errorE:
  assumes "run_state (return_if_error v k) w = (r, w')"
  obtains e where "run_state v w = (Some e, w')" "r = Failure e"
    | w1 where "run_state v w = (None, w1)" "run_state k w1 = (r, w')"
  using assms by (auto simp: run_return_if_error)

section \<open>What the service relies on\<close>

text \<open>
  \<open>mem_backend\<close> is the contract between the service and its backend. \<open>effects\<close> observes
  the requests with an effect on the device (writes, breakpoints, UXN slots, driver) that have
  been handed over completely, and \<open>invar\<close> is what the backend maintains about its own state. The
  contract says that the observers of the session have no such effect, and that a result whose
  \<open>requestStarted\<close> flag is off comes from a call that has not handed over a request. The service's
  promise to its callers, that a failure marked retryable may be retried, is proved from this
  contract alone.
\<close>

locale mem_backend =
  fixes be :: "'w MemRuntime" and invar :: "'w \<Rightarrow> bool" and effects :: "'w \<Rightarrow> 'l"
  assumes observers:
    "keeps invar effects (be_isConnected be)" "keeps invar effects (be_isPoisoned be)"
    "keeps invar effects (be_connectionGeneration be)" "keeps invar effects (be_targetSnapshot be)"
    "keeps invar effects (be_fetchMemoryType be)" "keeps invar effects (rn_now be)"
    "keeps invar effects (rn_loadToken be token)"
  and write_started:
    "keeps_unless invar effects wb_requestStarted (be_writeMemory be ctx a bs)"
  and breakpoint_started:
    "keeps_unless invar effects bmb_requestStarted (be_setBreakpoint be ctx a access sz)"
    "keeps_unless invar effects bmb_requestStarted (be_removeBreakpoint be ctx a)"
    "keeps_unless invar effects bmb_requestStarted (be_suspendBreakpoint be ctx a)"
    "keeps_unless invar effects bmb_requestStarted (be_resumeBreakpoint be ctx a)"
  and uxn_started:
    "keeps_unless invar effects uo_requestStarted (be_installUxnBreakpoint be ctx a)"
    "keeps_unless invar effects uo_requestStarted (be_removeUxnBreakpoint be ctx a)"
    "keeps_unless invar effects uo_requestStarted (be_resumeUxnBreakpoint be ctx slot wr regs)"
    "keeps_unless invar effects uo_requestStarted (be_clearUxnBreakpoints be ctx)"
begin

lemma validate_frame: "keeps invar effects (validateContext be ctx rc rt cc)"
  by (intro keeps_validateContext observers)

lemmas validate_frameD = keepsD [OF validate_frame]

lemmas write_startedD = keeps_unlessD [OF write_started]

end

section \<open>A session at rest\<close>

text \<open>
  A runtime whose connection of generation 1 stays up with one target attached and whose device
  answers no request. It instantiates the interface, and examples override single calls of it.
\<close>

definition rest_target :: TargetSnapshot where
  "rest_target = \<lparr>ts_pid = 42, ts_processHandle = 1, ts_processRevision = 2,
     ts_connectionGeneration = 1\<rparr>"

definition rest_context :: OperationContext where
  "rest_context = \<lparr>oc_connectionGeneration = 1, oc_target = Some rest_target,
     oc_cancellation = None, oc_deadline = time_point_max\<rparr>"

definition not_sent :: UxnOperationBackendResult where
  "not_sent = \<lparr>uo_requestStarted = False, uo_responseReceived = False, uo_applied = False,
     uo_errorCode = 0\<rparr>"

definition rest_runtime :: "'w MemRuntime" where
  "rest_runtime =
     (let bp = \<lparr>bmb_requestStarted = False, bmb_responseReceived = False, bmb_applied = False\<rparr> in
      \<lparr>be_isConnected = State_Monad.return True,
       be_isPoisoned = State_Monad.return False,
       be_connectionGeneration = State_Monad.return 1,
       be_targetSnapshot = State_Monad.return rest_target,
       be_processName = State_Monad.return ''init'',
       be_connect = (\<lambda>_ _. State_Monad.return False),
       be_disconnect = State_Monad.return False,
       be_fetchServerVersion = State_Monad.return None,
       be_fetchMemoryType = State_Monad.return None,
       be_initializeDriver = (\<lambda>_ _ _. State_Monad.return
         \<lparr>dib_requestStarted = False, dib_responseReceived = False, dib_accepted = False,
          dib_message = '''', dib_reclaimRequestStarted = False,
          dib_reclaimResponseReceived = False, dib_reclaimApplied = False\<rparr>),
       be_fetchProcesses = (\<lambda>_. State_Monad.return None),
       be_openProcess = (\<lambda>_ _ _. State_Monad.return False),
       be_beginReadTransaction = (\<lambda>_. State_Monad.return None),
       be_beginSymbolTransaction = (\<lambda>_. State_Monad.return None),
       be_readMemory = (\<lambda>_ _ _. State_Monad.return None),
       be_readMemoryBatch = (\<lambda>_ _. State_Monad.return None),
       be_writeMemory = (\<lambda>_ _ _. State_Monad.return
         \<lparr>wb_requestStarted = False, wb_responseReceived = False, wb_writtenBytes = 0\<rparr>),
       be_setBreakpoint = (\<lambda>_ _ _ _. State_Monad.return bp),
       be_removeBreakpoint = (\<lambda>_ _. State_Monad.return bp),
       be_suspendBreakpoint = (\<lambda>_ _. State_Monad.return bp),
       be_resumeBreakpoint = (\<lambda>_ _. State_Monad.return bp),
       be_fetchBreakpointHits = (\<lambda>_ _ _. State_Monad.return None),
       be_fetchBreakpointSlots = (\<lambda>_ _. State_Monad.return None),
       be_installUxnBreakpoint = (\<lambda>_ _. State_Monad.return
         (UxnOperationBackendResult.extend not_sent
            (UxnInstallBackendResult.fields 0 0 0 0))),
       be_removeUxnBreakpoint = (\<lambda>_ _. State_Monad.return not_sent),
       be_waitUxnBreakpoint = (\<lambda>_ _ _ _. State_Monad.return
         (UxnOperationBackendResult.extend not_sent (UxnWaitBackendResult.fields
            \<lparr>ue_slot = 0, ue_pid = 0, ue_tid = 0, ue_state = 0, ue_sequence = 0, ue_address = 0,
             ue_page = 0, ue_faultAddress = 0, ue_esr = 0, ue_hits = 0, ue_falseHits = 0,
             ue_registers = \<lparr>ur_general = replicate 31 0, ur_stackPointer = 0,
               ur_programCounter = 0, ur_pstate = 0\<rparr>,
             ue_fpsimd = \<lparr>ufs_vector = [], ufs_fpsr = 0, ufs_fpcr = 0, ufs_valid = False\<rparr>\<rparr>))),
       be_resumeUxnBreakpoint = (\<lambda>_ _ _ _. State_Monad.return not_sent),
       be_queryUxnBreakpointStatus = (\<lambda>_ _. State_Monad.return
         (UxnOperationBackendResult.extend not_sent (UxnStatusBackendResult.fields
            \<lparr>us_slot = 0, us_used = False, us_pid = 0, us_tid = 0, us_state = 0, us_lastError = 0,
             us_address = 0, us_page = 0, us_hits = 0, us_falseHits = 0, us_stepHits = 0,
             us_resumes = 0, us_sequence = 0, us_target = TargetSnapshot_default\<rparr>))),
       be_clearUxnBreakpoints = (\<lambda>_. State_Monad.return not_sent),
       rn_now = State_Monad.return 0,
       rn_loadToken = (\<lambda>_. State_Monad.return False)\<rparr>)"

lemma validateContext_rest:
  assumes "be_connectionGeneration be = State_Monad.return 1"
    "be_isPoisoned be = State_Monad.return False" "be_isConnected be = State_Monad.return True"
    "be_targetSnapshot be = State_Monad.return rest_target" "rn_now be = State_Monad.return 0"
  shows "validateContext be rest_context rc rt cc = State_Monad.return None"
  by (simp add: validateContext_def validateConnection_def validateTarget_def cancelRequested_def
      deadlineExpired_def assms rest_context_def rest_target_def isAttached_def)

lemma return_if_error_return [simp]: "return_if_error (State_Monad.return None) k = k"
  by (simp add: return_if_error_def)

lemma rest_runtime_sel [simp]:
  "be_connectionGeneration rest_runtime = State_Monad.return 1"
  "be_isPoisoned rest_runtime = State_Monad.return False"
  "be_isConnected rest_runtime = State_Monad.return True"
  "be_targetSnapshot rest_runtime = State_Monad.return rest_target"
  "be_processName rest_runtime = State_Monad.return ''init''"
  "rn_now rest_runtime = State_Monad.return 0"
  by (simp_all add: rest_runtime_def Let_def)

lemma rest_context_sel [simp]:
  "oc_connectionGeneration rest_context = 1" "oc_target rest_context = Some rest_target"
  "oc_cancellation rest_context = None" "oc_deadline rest_context = time_point_max"
  by (simp_all add: rest_context_def)

lemma isAttached_rest [simp]: "isAttached rest_target"
  by (simp add: isAttached_def rest_target_def)

end
