(* ===== verification/MemServiceMemory.thy ===== *)
theory MemServiceMemory
  imports MemBackend
begin

text \<open>
  Reading and writing target memory: \<open>MemService::readMemory\<close>, \<open>readMemoryBatch\<close> and \<open>writeMemory\<close>
  of \<open>gui/mem/MemService.cpp\<close>. The batch read accepts the blocks of the device in any order and
  assigns each one greedily to a request; the greedy choice is shown to be complete. The write is
  the operation with an effect: the locale \<open>write_backend\<close> states what the backend promises
  about its result flags, and a failure that invites a retry is shown to have left the device alone.
\<close>

section \<open>Operations\<close>

definition readMemory ::
    "'w MemRuntime \<Rightarrow> OperationContext \<Rightarrow> MemoryReadRequest \<Rightarrow> ('w, MemoryBlock Result) state" where
  "readMemory be ctx req =
     (if rq_size req = 0 \<or> rq_size req > kMaxMemoryReadBytes
      then fail InvalidArgument ''memory read size is outside the service limit'' False
      else if rq_address req > UINT64_MAX - ucast (rq_size req - 1)
      then fail InvalidArgument ''memory read range overflows the address space'' False
      else return_if_error (validateContext be ctx True True True) (do {
        r \<leftarrow> be_readMemory be ctx (rq_address req) (rq_size req);
        case r of
          None \<Rightarrow>
            return_if_error (validateContext be ctx True True False)
              (fail ProtocolError ''failed to read target memory'' True)
        | Some bytes \<Rightarrow>
            if bytes = [] \<or> length bytes > unat (rq_size req)
            then fail ProtocolError ''memory read returned an invalid byte count'' False
            else return_if_error (validateContext be ctx True True True)
              (State_Monad.return (Success
                 \<lparr>mb_address = rq_address req, mb_bytes = bytes, mb_target = the (oc_target ctx)\<rparr>)) }))"

fun checkBatchItems :: "MemoryReadRequest list \<Rightarrow> u64 \<Rightarrow> Error option" where
  "checkBatchItems [] totalBytes = None"
| "checkBatchItems (item # items) totalBytes =
     (if rq_size item = 0 \<or> rq_size item > kMaxMemoryReadBytes \<or>
         totalBytes > kMaxMemoryBatchBytes - ucast (rq_size item)
      then Some (mkError InvalidArgument
             ''memory batch byte size exceeds the service limit'' False)
      else if rq_address item > UINT64_MAX - ucast (rq_size item - 1)
      then Some (mkError InvalidArgument
             ''memory batch item range overflows the address space'' False)
      else checkBatchItems items (totalBytes + ucast (rq_size item)))"

definition bestMatch ::
    "MemoryReadRequest list \<Rightarrow> bool list \<Rightarrow> MemoryBlock \<Rightarrow> nat \<times> u32" where
  "bestMatch items matched block =
     fold (\<lambda>i (best, bestSize).
        if \<not> matched ! i \<and> rq_address (items ! i) = mb_address block \<and>
           length (mb_bytes block) \<le> unat (rq_size (items ! i)) \<and>
           rq_size (items ! i) < bestSize
        then (i, rq_size (items ! i)) else (best, bestSize))
       [0..<length items] (length items, UINT32_MAX)"

fun matchBlocks ::
    "MemoryReadRequest list \<Rightarrow> TargetSnapshot \<Rightarrow> bool list \<Rightarrow> MemoryBlock list \<Rightarrow>
       MemoryBlock list option" where
  "matchBlocks items target matched [] = Some []"
| "matchBlocks items target matched (block # blocks) =
     (let best = fst (bestMatch items matched block) in
      if best = length items then None
      else case matchBlocks items target (matched[best := True]) blocks of
             None \<Rightarrow> None
           | Some rest \<Rightarrow> Some (block\<lparr>mb_target := target\<rparr> # rest))"

definition readMemoryBatch ::
    "'w MemRuntime \<Rightarrow> OperationContext \<Rightarrow> MemoryBatchReadRequest \<Rightarrow>
       ('w, MemoryBatch Result) state" where
  "readMemoryBatch be ctx req =
     (if bq_items req = [] \<or> length (bq_items req) > kMaxMemoryBatchCount
      then fail InvalidArgument ''memory batch count is outside the service limit'' False
      else case checkBatchItems (bq_items req) 0 of
        Some err \<Rightarrow> State_Monad.return (Failure err)
      | None \<Rightarrow>
        return_if_error (validateContext be ctx True True True) (do {
          r \<leftarrow> be_readMemoryBatch be ctx (bq_items req);
          case r of
            None \<Rightarrow>
              return_if_error (validateContext be ctx True True False)
                (fail ProtocolError ''failed to read memory batch'' True)
          | Some blocks \<Rightarrow>
              if length blocks \<noteq> length (bq_items req)
              then fail ProtocolError ''memory batch returned an incomplete result set'' False
              else case matchBlocks (bq_items req) (the (oc_target ctx))
                          (replicate (length (bq_items req)) False) blocks of
                None \<Rightarrow> fail ProtocolError
                  ''memory batch returned an unknown address or invalid byte count'' False
              | Some items \<Rightarrow>
                  return_if_error (validateContext be ctx True True True)
                    (State_Monad.return (Success
                       \<lparr>mbt_items = items, mbt_target = the (oc_target ctx)\<rparr>)) }))"

definition writeMemory ::
    "'w MemRuntime \<Rightarrow> OperationContext \<Rightarrow> MemoryWriteRequest \<Rightarrow> ('w, WriteReceipt Result) state" where
  "writeMemory be ctx req =
     (if wq_bytes req = [] \<or> length (wq_bytes req) > kMaxMemoryWriteBytes
      then fail InvalidArgument ''memory write size is outside the service limit'' False
      else if wq_address req > UINT64_MAX - (of_nat (length (wq_bytes req)) - 1)
      then fail InvalidArgument ''memory write range overflows the address space'' False
      else return_if_error (validateContext be ctx True True True) (do {
        r \<leftarrow> be_writeMemory be ctx (wq_address req) (wq_bytes req);
        if \<not> wb_requestStarted r
        then return_if_error (validateContext be ctx True True False)
          (fail ProtocolError ''memory write was rejected before it started'' True)
        else if \<not> wb_responseReceived r
        then fail CompletionUnknown
          ''memory write was sent but no complete response was received; do not retry automatically''
          False
        else if wb_writtenBytes r < 0 \<or> nat (wb_writtenBytes r) > length (wq_bytes req)
        then fail ProtocolError ''memory write returned an invalid byte count'' False
        else if nat (wb_writtenBytes r) \<noteq> length (wq_bytes req)
        then State_Monad.return (Failure
          \<lparr>er_code = PartialWrite,
           er_message = ''memory write completed only a contiguous prefix'',
           er_retryable = False,
           er_affectedBytes = Some (of_int (wb_writtenBytes r)),
           er_nativeCode = None\<rparr>)
        else do {
          e \<leftarrow> validateContext be ctx True True False;
          case e of
            Some _ \<Rightarrow> fail CompletionUnknown
              ''server confirmed the write after the original target changed; do not retry automatically''
              False
          | None \<Rightarrow> do {
              cancelled \<leftarrow> cancelRequested be ctx;
              expired \<leftarrow> deadlineExpired be ctx;
              State_Monad.return (Success
                \<lparr>wr_address = wq_address req,
                 wr_requestedBytes = of_nat (length (wq_bytes req)),
                 wr_writtenBytes = of_int (wb_writtenBytes r),
                 wr_completedAfterCancelRequest = cancelled,
                 wr_completedAfterDeadline = expired,
                 wr_target = the (oc_target ctx)\<rparr>) }}}))"

section \<open>Single reads\<close>

text \<open>
  A successful read returns a non-empty prefix of at most the requested size, at the requested
  address, for a range that does not wrap around the address space; the target of the block
  is the attached target of the context, and the last backend call saw that target as current.
\<close>

theorem readMemory_success:
  assumes "run_state (readMemory be ctx req) w = (Success b, w')"
  shows "mb_address b = rq_address req \<and>
    0 < length (mb_bytes b) \<and> length (mb_bytes b) \<le> unat (rq_size req) \<and>
    unat (rq_size req) \<le> 16777216 \<and> unat (rq_address req) + unat (rq_size req) \<le> 2 ^ 64 \<and>
    oc_target ctx = Some (mb_target b) \<and> isAttached (mb_target b) \<and>
    (\<exists>w1. run_state (be_targetSnapshot be) w1 = (mb_target b, w'))"
proof -
  from assms have size: "rq_size req \<noteq> 0" "\<not> rq_size req > 16777216"
    and range: "\<not> rq_address req > UINT64_MAX - ucast (rq_size req - 1)"
    by (auto simp: readMemory_def limit_defs split: if_splits)
  from assms size range obtain bytes w1 where bytes: "bytes \<noteq> []" "length bytes \<le> unat (rq_size req)"
    and v: "run_state (validateContext be ctx True True True) w1 = (None, w')"
    and b: "b = \<lparr>mb_address = rq_address req, mb_bytes = bytes, mb_target = the (oc_target ctx)\<rparr>"
    by (auto simp: readMemory_def limit_defs run_return_if_error_Success run_bind_iff
        split: if_splits option.splits)
  from v obtain t where t: "oc_target ctx = Some t" "isAttached t"
    "\<exists>w1. run_state (be_targetSnapshot be) w1 = (t, w')"
    by (rule validateContext_target)
  have nz: "(ucast (rq_size req) :: u64) \<noteq> 0"
    using size(1) by (metis unat_ucast_u32_u64 unsigned_0 unsigned_eq_0_iff)
  have "unat (rq_address req) + unat (rq_size req) \<le> 2 ^ 64"
    using range unfolding ucast_pred_u32 [OF size(1)] range_no_wrap [OF nz] by simp
  moreover have "unat (rq_size req) \<le> 16777216"
    using size(2) by (simp add: not_less word_le_nat_alt)
  ultimately show ?thesis using bytes b t by auto
qed

definition demo_read_runtime :: "unit MemRuntime" where
  "demo_read_runtime = rest_runtime
     \<lparr>be_readMemory := \<lambda>_ _ _. State_Monad.return (Some [0x7f, 0x45, 0x4c])\<rparr>"

theorem readMemory_success_witness:
  "length (mb_bytes \<lparr>mb_address = 0x1000, mb_bytes = [0x7f, 0x45, 0x4c :: u8],
     mb_target = rest_target\<rparr>) \<le> unat (4 :: u32) \<and>
   run_state (readMemory demo_read_runtime rest_context \<lparr>rq_address = 0x1000, rq_size = 4\<rparr>) () =
     (Success \<lparr>mb_address = 0x1000, mb_bytes = [0x7f, 0x45, 0x4c], mb_target = rest_target\<rparr>, ())"
proof -
  have run: "run_state (readMemory demo_read_runtime rest_context \<lparr>rq_address = 0x1000, rq_size = 4\<rparr>) () =
     (Success \<lparr>mb_address = 0x1000, mb_bytes = [0x7f, 0x45, 0x4c], mb_target = rest_target\<rparr>, ())"
    by (simp add: readMemory_def limit_defs demo_read_runtime_def validateContext_rest)
  from readMemory_success [OF run] run show ?thesis by simp
qed

section \<open>Batched reads\<close>

text \<open>
  A block fits a request when it answers its address with at most its size. The specification of
  the matching knows nothing of an order of choice: \<open>assigns\<close> holds for a list of distinct,
  still unmatched requests, one for each block.
\<close>

definition fits :: "MemoryReadRequest \<Rightarrow> MemoryBlock \<Rightarrow> bool" where
  "fits req block \<longleftrightarrow>
     rq_address req = mb_address block \<and> length (mb_bytes block) \<le> unat (rq_size req)"

definition assigns ::
    "MemoryReadRequest list \<Rightarrow> bool list \<Rightarrow> nat list \<Rightarrow> MemoryBlock list \<Rightarrow> bool" where
  "assigns items matched js blocks \<longleftrightarrow> distinct js \<and>
     list_all2 (\<lambda>j b. j < length items \<and> \<not> matched ! j \<and> fits (items ! j) b) js blocks"

lemma checkBatchItems_None:
  assumes "checkBatchItems items acc = None" "acc \<le> kMaxMemoryBatchBytes"
  shows "(\<forall>r \<in> set items. 0 < rq_size r \<and> rq_size r \<le> kMaxMemoryReadBytes \<and>
            unat (rq_address r) + unat (rq_size r) \<le> 2 ^ 64) \<and>
         unat acc + (\<Sum>r\<leftarrow>items. unat (rq_size r)) \<le> 16777216"
  using assms
proof (induction items arbitrary: acc)
  case Nil
  then show ?case by (simp add: limit_defs word_le_nat_alt)
next
  case (Cons r items)
  let ?s = "ucast (rq_size r) :: u64"
  from Cons.prems have r: "rq_size r \<noteq> 0" "rq_size r \<le> 16777216"
    "\<not> acc > 16777216 - ?s" "\<not> rq_address r > UINT64_MAX - ucast (rq_size r - 1)"
    and rest: "checkBatchItems items (acc + ?s) = None"
    by (auto simp: limit_defs split: if_splits)
  have s: "unat ?s \<le> 16777216" using r(2) by (simp add: word_le_nat_alt)
  then have "?s \<le> 16777216" by (simp add: word_le_nat_alt)
  then have "unat (16777216 - ?s) = 16777216 - unat ?s" by (simp add: unat_sub)
  with r(3) have sum: "unat acc + unat ?s \<le> 16777216"
    using s by (simp add: not_less word_le_nat_alt)
  then have add: "unat (acc + ?s) = unat acc + unat ?s"
    by (simp add: unat_word_ariths)
  with sum have "acc + ?s \<le> kMaxMemoryBatchBytes"
    by (simp add: limit_defs word_le_nat_alt)
  note IH = Cons.IH [OF rest this, unfolded add]
  have nz: "?s \<noteq> 0"
    using r(1) by (metis unat_ucast_u32_u64 unsigned_0 unsigned_eq_0_iff)
  have "unat (rq_address r) + unat (rq_size r) \<le> 2 ^ 64"
    using r(4) unfolding ucast_pred_u32 [OF r(1)] range_no_wrap [OF nz] by simp
  with IH r show ?case by (auto simp: limit_defs word_neq_0_conv add.assoc)
qed

lemma bestMatch_fold:
  fixes items matched block
  defines "cand \<equiv> \<lambda>i. \<not> matched ! i \<and> fits (items ! i) block"
  assumes "\<forall>r \<in> set items. rq_size r < UINT32_MAX" "k \<le> length items"
    and "fold (\<lambda>i (best, bestSize).
        if \<not> matched ! i \<and> rq_address (items ! i) = mb_address block \<and>
           length (mb_bytes block) \<le> unat (rq_size (items ! i)) \<and>
           rq_size (items ! i) < bestSize
        then (i, rq_size (items ! i)) else (best, bestSize))
       [0..<k] (length items, UINT32_MAX) = (best, bs)"
  shows "if \<exists>i<k. cand i
     then best < k \<and> cand best \<and> bs = rq_size (items ! best) \<and>
          (\<forall>i<k. cand i \<longrightarrow> rq_size (items ! best) \<le> rq_size (items ! i))
     else best = length items \<and> bs = UINT32_MAX"
  using assms(3,4)
proof (induction k arbitrary: best bs)
  case 0
  then show ?case by simp
next
  case (Suc k)
  let ?f = "\<lambda>i (best, bestSize).
        if \<not> matched ! i \<and> rq_address (items ! i) = mb_address block \<and>
           length (mb_bytes block) \<le> unat (rq_size (items ! i)) \<and>
           rq_size (items ! i) < bestSize
        then (i, rq_size (items ! i)) else (best, bestSize)"
  obtain b0 s0 where prev: "fold ?f [0..<k] (length items, UINT32_MAX) = (b0, s0)"
    by fastforce
  note IH = Suc.IH [OF _ prev]
  have size: "rq_size (items ! k) < UINT32_MAX" using Suc.prems(1) assms(2) by simp
  have step: "(best, bs) = (if cand k \<and> rq_size (items ! k) < s0 then (k, rq_size (items ! k))
     else (b0, s0))"
    using Suc.prems(2) prev by (simp add: cand_def fits_def conj_ac)
  show ?case
  proof (cases "\<exists>i<k. cand i")
    case True
    with IH Suc.prems(1) step show ?thesis
      by (auto simp: less_Suc_eq split: if_splits intro: less_imp_le order.trans)
  next
    case False
    with IH Suc.prems(1) step size show ?thesis
      by (auto simp: less_Suc_eq split: if_splits)
  qed
qed

lemma bestMatch_eq:
  assumes "\<forall>r \<in> set items. rq_size r < UINT32_MAX" "bestMatch items matched block = (best, bs)"
  shows "if \<exists>i<length items. \<not> matched ! i \<and> fits (items ! i) block
     then best < length items \<and> \<not> matched ! best \<and> fits (items ! best) block \<and>
          (\<forall>i<length items. \<not> matched ! i \<and> fits (items ! i) block \<longrightarrow>
             rq_size (items ! best) \<le> rq_size (items ! i))
     else best = length items"
  using bestMatch_fold [OF assms(1) order.refl assms(2) [unfolded bestMatch_def]]
  by (auto split: if_splits)

lemma matchBlocks_sound:
  assumes "\<forall>r \<in> set items. rq_size r < UINT32_MAX" "length matched = length items"
    and "matchBlocks items t matched blocks = Some rs"
  shows "rs = map (mb_target_update (\<lambda>_. t)) blocks \<and> (\<exists>js. assigns items matched js blocks)"
  using assms(2,3)
proof (induction blocks arbitrary: matched rs)
  case Nil
  then show ?case by (auto simp: assigns_def)
next
  case (Cons b blocks)
  obtain best bs where bm: "bestMatch items matched b = (best, bs)" by fastforce
  from Cons.prems bm obtain rest where best: "best \<noteq> length items"
    and rest: "matchBlocks items t (matched[best := True]) blocks = Some rest"
    and rs: "rs = b\<lparr>mb_target := t\<rparr> # rest"
    by (auto simp: Let_def split: if_splits option.splits)
  with bestMatch_eq [OF assms(1) bm]
  have b: "best < length items" "\<not> matched ! best" "fits (items ! best) b"
    by (auto split: if_splits)
  from Cons.IH [OF _ rest] Cons.prems(1) obtain js
    where js: "assigns items (matched[best := True]) js blocks"
      and eq: "rest = map (mb_target_update (\<lambda>_. t)) blocks" by auto
  have *: "\<not> matched ! j \<and> j \<noteq> best" if "\<not> matched[best := True] ! j" for j
    using that b(1) Cons.prems(1) by (cases "j = best") auto
  from js have "assigns items matched (best # js) (b # blocks)"
    using b * by (auto simp: assigns_def list_all2_conv_all_nth in_set_conv_nth nth_Cons split: nat.splits)
  with rs eq show ?case by auto
qed

text \<open>
  The exchange step: when the chosen request is used for a later block in some assignment,
  that later block can take the request that the assignment had meant for the current one.
\<close>

lemma assigns_exchange:
  assumes "assigns items matched (j # js) (b # blocks)" "length matched = length items"
    and best: "best < length items" "\<not> matched ! best" "fits (items ! best) b"
      "rq_size (items ! best) \<le> rq_size (items ! j)"
  shows "assigns items (matched[best := True]) (map (\<lambda>x. if x = best then j else x) js) blocks"
proof -
  from assms(1) have j: "j < length items" "\<not> matched ! j" "fits (items ! j) b" "j \<notin> set js"
    and js: "distinct js"
      "list_all2 (\<lambda>j b. j < length items \<and> \<not> matched ! j \<and> fits (items ! j) b) js blocks"
    by (auto simp: assigns_def)
  have size: "unat (rq_size (items ! best)) \<le> unat (rq_size (items ! j))"
    using best(4) by (simp add: word_le_nat_alt)
  have "distinct (map (\<lambda>x. if x = best then j else x) js)"
    using js(1) j(4) by (auto simp: distinct_map inj_on_def)
  moreover have "list_all2 (\<lambda>x c. (if x = best then j else x) < length items \<and>
      \<not> matched[best := True] ! (if x = best then j else x) \<and>
      fits (items ! (if x = best then j else x)) c) js blocks"
    using js(2)
  proof (rule list.rel_mono_strong)
    fix x c
    assume "x \<in> set js" "x < length items \<and> \<not> matched ! x \<and> fits (items ! x) c"
    with j best size show "(if x = best then j else x) < length items \<and>
      \<not> matched[best := True] ! (if x = best then j else x) \<and>
      fits (items ! (if x = best then j else x)) c"
      by (cases "x = best", cases "j = best") (auto simp: fits_def)
  qed
  ultimately show ?thesis by (simp add: assigns_def list_all2_map1)
qed

lemma matchBlocks_complete:
  assumes "\<forall>r \<in> set items. rq_size r < UINT32_MAX" "length matched = length items"
    and "assigns items matched js blocks"
  shows "matchBlocks items t matched blocks \<noteq> None"
  using assms(2,3)
proof (induction blocks arbitrary: matched js)
  case Nil
  then show ?case by simp
next
  case (Cons b blocks)
  from Cons.prems(2) obtain j js' where js: "js = j # js'"
    by (auto simp: assigns_def list_all2_Cons2)
  with Cons.prems(2) have j: "j < length items" "\<not> matched ! j" "fits (items ! j) b"
    by (auto simp: assigns_def)
  obtain best bs where bm: "bestMatch items matched b = (best, bs)" by fastforce
  from bestMatch_eq [OF assms(1) bm] j
  have best: "best < length items" "\<not> matched ! best" "fits (items ! best) b"
    "rq_size (items ! best) \<le> rq_size (items ! j)"
    by (auto split: if_splits)
  from assigns_exchange [OF Cons.prems(2) [unfolded js] Cons.prems(1) best]
  have "matchBlocks items t (matched[best := True]) blocks \<noteq> None"
    using Cons.prems(1) by (intro Cons.IH) auto
  with best(1) bm show ?case by (auto simp: Let_def)
qed

text \<open>
  C32. The greedy matching of the answer of a batch read decides exactly whether the blocks of the
  device can be given to distinct requests: it accepts if and only if some assignment exists, in
  whatever order the blocks arrive and with equal addresses requested at different sizes.
\<close>

theorem matchBlocks_iff_assignment:
  assumes "checkBatchItems items 0 = None"
  shows "matchBlocks items t (replicate (length items) False) blocks \<noteq> None \<longleftrightarrow>
    (\<exists>js. distinct js \<and> list_all2 (\<lambda>j b. j < length items \<and> fits (items ! j) b) js blocks)"
proof -
  have small: "\<forall>r \<in> set items. rq_size r < UINT32_MAX"
    using checkBatchItems_None [OF assms] by (auto simp: limit_defs word_less_nat_alt word_le_nat_alt)
  have "(\<exists>js. assigns items (replicate (length items) False) js blocks) \<longleftrightarrow>
    (\<exists>js. distinct js \<and> list_all2 (\<lambda>j b. j < length items \<and> fits (items ! j) b) js blocks)"
    by (auto simp: assigns_def list_all2_conv_all_nth)
  with matchBlocks_sound [OF small, of "replicate (length items) False" t blocks]
    matchBlocks_complete [OF small, of "replicate (length items) False" _ blocks t]
  show ?thesis by auto
qed

theorem matchBlocks_iff_assignment_witness:
  "matchBlocks [\<lparr>rq_address = 16, rq_size = 8\<rparr>, \<lparr>rq_address = 16, rq_size = 2\<rparr>] rest_target
     (replicate (length [\<lparr>rq_address = 16, rq_size = 8\<rparr>, \<lparr>rq_address = 16, rq_size = 2\<rparr>]) False)
     [\<lparr>mb_address = 16, mb_bytes = [1, 2], mb_target = rest_target\<rparr>,
      \<lparr>mb_address = 16, mb_bytes = [1, 2, 3, 4], mb_target = rest_target\<rparr>] \<noteq> None"
  by (subst matchBlocks_iff_assignment)
    (simp add: limit_defs, rule exI [of _ "[1, 0]"], simp add: fits_def)

text \<open>
  A successful batch read answers every request once: as many blocks as requests, each one a
  block of the device for the address of its own request and no longer than asked, stamped with the
  target of the context; the requests together ask for at most 16 MiB and no range wraps around.
\<close>

theorem readMemoryBatch_success:
  assumes "run_state (readMemoryBatch be ctx req) w = (Success batch, w')"
  shows "length (mbt_items batch) = length (bq_items req) \<and>
    (\<exists>js. distinct js \<and> set js = {..<length (bq_items req)} \<and>
       list_all2 (\<lambda>j b. fits (bq_items req ! j) b \<and> mb_target b = mbt_target batch)
         js (mbt_items batch)) \<and>
    (\<Sum>r\<leftarrow>bq_items req. unat (rq_size r)) \<le> 16777216 \<and>
    (\<forall>r \<in> set (bq_items req). unat (rq_address r) + unat (rq_size r) \<le> 2 ^ 64) \<and>
    oc_target ctx = Some (mbt_target batch) \<and> isAttached (mbt_target batch)"
proof -
  let ?items = "bq_items req"
  from assms have chk: "checkBatchItems ?items 0 = None"
    by (auto simp: readMemoryBatch_def split: if_splits option.splits)
  note req = checkBatchItems_None [OF this]
  from assms chk obtain blocks w1 where len: "length blocks = length ?items"
    and m: "matchBlocks ?items (the (oc_target ctx)) (replicate (length ?items) False) blocks =
      Some (mbt_items batch)"
    and t: "mbt_target batch = the (oc_target ctx)"
    and v: "run_state (validateContext be ctx True True True) w1 = (None, w')"
    by (auto simp: readMemoryBatch_def elim!: return_if_error_SuccessE run_bindE
        split: if_split_asm option.split_asm)
  have "\<forall>r \<in> set ?items. rq_size r < UINT32_MAX"
    using req by (auto simp: limit_defs word_less_nat_alt word_le_nat_alt)
  from matchBlocks_sound [OF this _ m] obtain js where js: "assigns ?items (replicate (length ?items) False) js blocks"
    and items: "mbt_items batch = map (mb_target_update (\<lambda>_. mbt_target batch)) blocks"
    using t by auto
  from js len have "distinct js" "length js = length ?items" "set js \<subseteq> {..<length ?items}"
    by (auto simp: assigns_def list_all2_conv_all_nth in_set_conv_nth)
  then have "set js = {..<length ?items}"
    by (intro card_subset_eq) (auto simp: distinct_card)
  moreover have "list_all2 (\<lambda>j b. fits (?items ! j) b \<and> mb_target b = mbt_target batch)
      js (mbt_items batch)"
    using js by (auto simp: items assigns_def list_all2_conv_all_nth fits_def)
  ultimately show ?thesis
    using v \<open>distinct js\<close> req t items len by (auto elim!: validateContext_target simp: limit_defs)
qed

definition demo_batch_runtime :: "unit MemRuntime" where
  "demo_batch_runtime = rest_runtime
     \<lparr>be_readMemoryBatch := \<lambda>_ _. State_Monad.return
        (Some [\<lparr>mb_address = 32, mb_bytes = [9], mb_target = TargetSnapshot_default\<rparr>,
               \<lparr>mb_address = 16, mb_bytes = [1, 2], mb_target = TargetSnapshot_default\<rparr>])\<rparr>"

theorem readMemoryBatch_success_witness:
  "\<exists>batch. run_state (readMemoryBatch demo_batch_runtime rest_context
      \<lparr>bq_items = [\<lparr>rq_address = 16, rq_size = 2\<rparr>, \<lparr>rq_address = 32, rq_size = 4\<rparr>]\<rparr>) () =
      (Success batch, ()) \<and> length (mbt_items batch) = 2 \<and> mbt_target batch = rest_target"
proof -
  let ?req = "\<lparr>bq_items = [\<lparr>rq_address = 16, rq_size = 2\<rparr>, \<lparr>rq_address = 32, rq_size = 4\<rparr>]\<rparr>"
  have run: "run_state (readMemoryBatch demo_batch_runtime rest_context ?req) () =
    (Success \<lparr>mbt_items =
        [\<lparr>mb_address = 32, mb_bytes = [9], mb_target = rest_target\<rparr>,
         \<lparr>mb_address = 16, mb_bytes = [1, 2], mb_target = rest_target\<rparr>],
      mbt_target = rest_target\<rparr>, ())"
    by (simp add: readMemoryBatch_def limit_defs demo_batch_runtime_def validateContext_rest
        bestMatch_def Let_def upt_rec)
  from readMemoryBatch_success [OF run] run show ?thesis by auto
qed

section \<open>Writes\<close>

text \<open>
  C30. What a write reports is what the device confirmed. A success comes from one backend
  call that was sent, answered in full and confirmed every byte of the request, for the
  attached target of the context; a partial write names the exact length of the prefix the device
  confirmed, which is shorter than the request.
\<close>

theorem writeMemory_reports_confirmed:
  assumes "run_state (writeMemory be ctx req) w = (res, w')"
  shows "case res of
      Success rc \<Rightarrow>
        wr_address rc = wq_address req \<and> unat (wr_writtenBytes rc) = length (wq_bytes req) \<and>
        wr_requestedBytes rc = wr_writtenBytes rc \<and> oc_target ctx = Some (wr_target rc) \<and>
        unat (wq_address req) + length (wq_bytes req) \<le> 2 ^ 64 \<and>
        (\<exists>w1 w2 r. run_state (be_writeMemory be ctx (wq_address req) (wq_bytes req)) w1 = (r, w2) \<and>
           wb_requestStarted r \<and> wb_responseReceived r \<and>
           wb_writtenBytes r = int (length (wq_bytes req)))
    | Failure e \<Rightarrow> er_code e = PartialWrite \<longrightarrow>
        (\<exists>n w1 w2 r. er_affectedBytes e = Some n \<and> unat n < length (wq_bytes req) \<and>
           run_state (be_writeMemory be ctx (wq_address req) (wq_bytes req)) w1 = (r, w2) \<and>
           wb_responseReceived r \<and> wb_writtenBytes r = int (unat n))"
proof (cases "wq_bytes req = [] \<or> length (wq_bytes req) > kMaxMemoryWriteBytes \<or>
    wq_address req > UINT64_MAX - (of_nat (length (wq_bytes req)) - 1)")
  case True
  with assms show ?thesis by (auto simp: writeMemory_def failure_def split: if_splits)
next
  case False
  let ?n = "length (wq_bytes req)" and ?call = "be_writeMemory be ctx (wq_address req) (wq_bytes req)"
  from False have n: "0 < ?n" "?n \<le> 1048576" by (auto simp: limit_defs)
  then have un: "unat (of_nat ?n :: u32) = ?n" "unat (of_nat ?n :: u64) = ?n"
    by (simp_all add: unat_of_nat)
  have "of_nat ?n \<noteq> (0 :: u64)" using n un(2) by (metis less_numeral_extra(3) unsigned_0)
  with False have range: "unat (wq_address req) + ?n \<le> 2 ^ 64"
    using range_no_wrap [of "of_nat ?n" "wq_address req"] un(2) by auto
  from assms False consider
      (validation) e w1 where "run_state (validateContext be ctx True True True) w1 = (Some e, w')"
        "res = Failure e"
    | (late) e w1 where "run_state (validateContext be ctx True True False) w1 = (Some e, w')"
        "res = Failure e"
    | (code) e where "res = Failure e" "er_code e \<noteq> PartialWrite"
    | (partial) r w1 w2 m where "run_state ?call w1 = (r, w2)" "wb_responseReceived r"
        "\<not> wb_writtenBytes r < 0" "\<not> ?n < nat (wb_writtenBytes r)" "nat (wb_writtenBytes r) \<noteq> ?n"
        "res = Failure \<lparr>er_code = PartialWrite, er_message = m, er_retryable = False,
           er_affectedBytes = Some (of_int (wb_writtenBytes r)), er_nativeCode = None\<rparr>"
    | (ok) r w1 w2 w3 c d where "run_state ?call w1 = (r, w2)"
        "wb_requestStarted r" "wb_responseReceived r" "\<not> wb_writtenBytes r < 0"
        "nat (wb_writtenBytes r) = ?n"
        "run_state (validateContext be ctx True True False) w2 = (None, w3)"
        "res = Success \<lparr>wr_address = wq_address req, wr_requestedBytes = of_nat ?n,
           wr_writtenBytes = of_int (wb_writtenBytes r), wr_completedAfterCancelRequest = c,
           wr_completedAfterDeadline = d, wr_target = the (oc_target ctx)\<rparr>"
    unfolding writeMemory_def
    by (auto simp: failure_def elim!: return_if_errorE run_bindE split: if_split_asm option.split_asm)
  then show ?thesis
  proof cases
    case partial
    then have u: "uint (of_int (wb_writtenBytes r) :: u64) = wb_writtenBytes r"
      using n by (simp add: unsigned_of_int take_bit_int_eq_self)
    then have "unat (of_int (wb_writtenBytes r) :: u64) = nat (wb_writtenBytes r)"
      by (metis nat_uint_eq)
    with partial u show ?thesis by auto
  next
    case ok
    then have "wb_writtenBytes r = int ?n" by simp
    with ok un range show ?thesis by (auto elim!: validateContext_target)
  qed (auto dest: validateContext_code)
qed

definition demo_write_runtime :: "bytes MemRuntime" where
  "demo_write_runtime = rest_runtime
     \<lparr>be_writeMemory := \<lambda>_ _ bs. State (\<lambda>mem.
        (\<lparr>wb_requestStarted = True, wb_responseReceived = True, wb_writtenBytes = 2\<rparr>,
         take 2 bs @ drop 2 mem))\<rparr>"

theorem writeMemory_reports_confirmed_witness:
  "\<exists>e. fst (run_state (writeMemory demo_write_runtime rest_context
      \<lparr>wq_address = 0x2000, wq_bytes = [1, 2, 3]\<rparr>) [0, 0, 0, 0]) = Failure e \<and>
     er_code e = PartialWrite \<and> (\<exists>n. er_affectedBytes e = Some n \<and> unat n < 3)"
proof -
  let ?req = "\<lparr>wq_address = 0x2000, wq_bytes = [1, 2, 3]\<rparr>"
  have run: "run_state (writeMemory demo_write_runtime rest_context ?req) [0, 0, 0, 0] =
    (Failure \<lparr>er_code = PartialWrite,
       er_message = ''memory write completed only a contiguous prefix'', er_retryable = False,
       er_affectedBytes = Some 2, er_nativeCode = None\<rparr>, [1, 2, 0, 0])"
    by (simp add: writeMemory_def limit_defs demo_write_runtime_def validateContext_rest
        run_state_bind)
  from writeMemory_reports_confirmed [OF run] run show ?thesis by auto
qed

context mem_backend
begin

lemma writeMemory_retry_safe:
  assumes "run_state (writeMemory be ctx req) w = (res, w')" "invar w"
  shows "invar w' \<and> (\<not> result_ok res \<and> er_retryable (result_error res) \<longrightarrow> effects w' = effects w)"
  using assms unfolding writeMemory_def cancelRequested_def deadlineExpired_def
  by (auto elim!: return_if_errorE run_bindE split: if_split_asm option.split_asm
      simp: failure_def
      dest!: validate_frameD write_startedD keepsD [OF observers(6)] keepsD [OF observers(7)])

text \<open>A successful write is one confirmed call of the backend, and nothing else has an effect.\<close>

lemma writeMemory_success_request:
  assumes "run_state (writeMemory be ctx req) w = (Success r, w')" "invar w"
  shows "\<exists>w1 io w2. run_state (be_writeMemory be ctx (wq_address req) (wq_bytes req)) w1 = (io, w2) \<and>
    wb_responseReceived io \<and> invar w1 \<and> effects w1 = effects w \<and> effects w' = effects w2"
proof -
  from assms(1) obtain w1 io w2 w3 c w4 x where
    1: "run_state (validateContext be ctx True True True) w = (None, w1)" and
    2: "run_state (be_writeMemory be ctx (wq_address req) (wq_bytes req)) w1 = (io, w2)"
      "wb_responseReceived io" and
    3: "run_state (validateContext be ctx True True False) w2 = (None, w3)"
      "run_state (cancelRequested be ctx) w3 = (c, w4)"
      "run_state (deadlineExpired be ctx) w4 = (x, w')"
    unfolding writeMemory_def
    by (auto elim!: return_if_error_SuccessE run_bindE split: if_split_asm option.split_asm)
  have frame: "keeps invar effects (cancelRequested be ctx)" "keeps invar effects (deadlineExpired be ctx)"
    unfolding cancelRequested_def deadlineExpired_def by (intro keeps_intros observers)+
  from validate_frameD [OF 1 assms(2)] have w1: "invar w1" "effects w1 = effects w" by auto
  from write_startedD [OF 2(1) w1(1)] have "invar w2" by simp
  with validate_frameD [OF 3(1)] keepsD [OF frame(1) 3(2)] keepsD [OF frame(2) 3(3)]
  have "effects w' = effects w2" by simp
  with 2 w1 show ?thesis by blast
qed

end

end
