(* ===== verification/MemServiceQuery.thy ===== *)
theory MemServiceQuery
  imports MemBackend
begin

text \<open>
  The session and query operations of \<open>gui/mem/MemService.cpp\<close>: status, versions, connecting,
  driver initialisation, the process and module lists with their paging, and the resolution of
  module names and pointer chains. A mutex of the service serialises calls of the same
  operation and is not visible in the result of one call, so it does not occur in the model.
\<close>

section \<open>Session operations\<close>

abbreviation kKernelMemoryType :: int where
  "kKernelMemoryType \<equiv> 3"

definition requireKernelMemoryMode ::
    "'w MemRuntime \<Rightarrow> OperationContext \<Rightarrow> bool \<Rightarrow> ('w, Error option) state" where
  "requireKernelMemoryMode be ctx requireTarget = do {
     r \<leftarrow> be_fetchMemoryType be;
     case r of
       None \<Rightarrow> do {
         e \<leftarrow> validateContext be ctx True requireTarget False;
         State_Monad.return (case e of
           Some err \<Rightarrow> Some err
         | None \<Rightarrow> Some (mkError ProtocolError ''failed to query current memory mode'' True)) }
     | Some (memoryType, memoryTypeName) \<Rightarrow>
         if memoryType \<noteq> kKernelMemoryType
         then State_Monad.return (Some (mkError PermissionDenied
                ''UXN exception breakpoints require Kernel memory mode'' False))
         else validateContext be ctx True requireTarget True }"

definition status :: "'w MemRuntime \<Rightarrow> OperationContext \<Rightarrow> ('w, Status Result) state" where
  "status be ctx =
     return_if_error (validateContext be ctx False False True) (do {
       connection \<leftarrow> connectionSnapshot be;
       target \<leftarrow> be_targetSnapshot be;
       name \<leftarrow> be_processName be;
       finalTarget \<leftarrow> be_targetSnapshot be;
       return_if_error (validateContext be ctx False False True)
         (if finalTarget \<noteq> target
          then fail TargetChanged ''status changed while it was being collected'' True
          else State_Monad.return (Success
            \<lparr>st_connection = connection, st_target = target, st_processName = name\<rparr>)) })"

definition serverVersion ::
    "'w MemRuntime \<Rightarrow> OperationContext \<Rightarrow> ('w, ServerVersion Result) state" where
  "serverVersion be ctx =
     return_if_error (validateContext be ctx True False True) (do {
       r \<leftarrow> be_fetchServerVersion be;
       case r of
         None \<Rightarrow>
           return_if_error (validateContext be ctx True False False)
             (fail ProtocolError ''failed to fetch server version'' True)
       | Some (version, versionString) \<Rightarrow>
           return_if_error (validateContext be ctx True False True)
             (State_Monad.return (Success
                \<lparr>sv_version = version, sv_versionString = versionString\<rparr>)) })"

definition memoryType ::
    "'w MemRuntime \<Rightarrow> OperationContext \<Rightarrow> ('w, MemoryTypeInfo Result) state" where
  "memoryType be ctx =
     return_if_error (validateContext be ctx True False True) (do {
       r \<leftarrow> be_fetchMemoryType be;
       case r of
         None \<Rightarrow>
           return_if_error (validateContext be ctx True False False)
             (fail ProtocolError ''failed to fetch memory type'' True)
       | Some (type, name) \<Rightarrow>
           return_if_error (validateContext be ctx True False True)
             (State_Monad.return (Success \<lparr>mti_type = type, mti_name = name\<rparr>)) })"

definition connect ::
    "'w MemRuntime \<Rightarrow> OperationContext \<Rightarrow> ConnectRequest \<Rightarrow> ('w, ConnectionReceipt Result) state" where
  "connect be ctx req =
     (if cq_host req = [] \<or> length (cq_host req) > kMaxTextBytes \<or> cq_port req = 0
      then fail InvalidArgument ''host and port are required'' False
      else return_if_error (validateContext be ctx False False True) (do {
        generation \<leftarrow> be_connectionGeneration be;
        if generation \<noteq> oc_connectionGeneration ctx
        then fail ConnectionChanged ''connection changed before connect started'' True
        else do {
          ok \<leftarrow> be_connect be (cq_host req) (cq_port req);
          if \<not> ok
          then fail ProtocolError ''failed to connect all Android server ports'' True
          else do {
            connected \<leftarrow> be_isConnected be;
            unusable \<leftarrow>
              (if \<not> connected then State_Monad.return True else be_isPoisoned be);
            if unusable
            then fail ProtocolError
                   ''connection backend did not enter a usable connected state'' True
            else do {
              generation' \<leftarrow> be_connectionGeneration be;
              State_Monad.return (Success
                \<lparr>cr_connected = True, cr_generation = generation'\<rparr>) }}}}))"

definition disconnect ::
    "'w MemRuntime \<Rightarrow> OperationContext \<Rightarrow> ('w, DisconnectReceipt Result) state" where
  "disconnect be ctx =
     return_if_error (validateContext be ctx False False True) (do {
       generation \<leftarrow> be_connectionGeneration be;
       if generation \<noteq> oc_connectionGeneration ctx
       then fail ConnectionChanged ''connection changed before disconnect started'' True
       else do {
         connected \<leftarrow> be_isConnected be;
         wasConnected \<leftarrow> (if connected then State_Monad.return True else be_isPoisoned be);
         ok \<leftarrow> be_disconnect be;
         if \<not> ok
         then fail InternalError ''failed to disconnect socket clients'' False
         else do {
           stillConnected \<leftarrow> be_isConnected be;
           active \<leftarrow> (if stillConnected then State_Monad.return True else be_isPoisoned be);
           if active
           then fail InternalError ''connection backend remained active after disconnect'' False
           else do {
             generation' \<leftarrow> be_connectionGeneration be;
             State_Monad.return (Success
               \<lparr>dr_wasConnected = wasConnected, dr_generation = generation'\<rparr>) }}}})"

definition initializeDriver ::
    "'w MemRuntime \<Rightarrow> OperationContext \<Rightarrow> DriverInitializeRequest \<Rightarrow>
       ('w, DriverInitializationReceipt Result) state" where
  "initializeDriver be ctx req =
     (if diq_card req = [] \<or> length (diq_card req) > kMaxDriverCardBytes
      then fail InvalidArgument ''driver card name must contain 1 to 4096 bytes'' False
      else return_if_error (validateContext be ctx True False True) (do {
        r \<leftarrow> be_initializeDriver be ctx (diq_card req) (diq_forceReclaimHardwareBreakpoints req);
        if \<not> dib_responseReceived r
        then (if dib_requestStarted r
              then fail CompletionUnknown
                ''driver initialization was sent but its completion could not be confirmed; reconnect before continuing and do not retry automatically''
                False
              else return_if_error (validateContext be ctx True False True)
                (fail ProtocolError ''driver initialization could not be sent'' True))
        else if \<not> dib_accepted r
        then fail PermissionDenied
          (if dib_message r = [] then ''Android server rejected driver initialization''
           else dib_message r) False
        else if \<not> dib_reclaimResponseReceived r
        then (if dib_reclaimRequestStarted r
              then fail CompletionUnknown
                ''driver initialized, but Kernel breakpoint reclaim configuration completion could not be confirmed; reconnect before continuing''
                False
              else fail ProtocolError
                ''driver initialized, but Kernel breakpoint reclaim configuration could not be sent''
                True)
        else if \<not> dib_reclaimApplied r
        then fail ProtocolError
          ''driver initialized, but Kernel breakpoint reclaim configuration was rejected'' False
        else do {
          e \<leftarrow> validateContext be ctx True False False;
          case e of
            Some err \<Rightarrow> fail CompletionUnknown
              (''server confirmed driver initialization, but the original connection context is no longer current: ''
               @ er_message err) False
          | None \<Rightarrow> do {
              cancelled \<leftarrow> cancelRequested be ctx;
              expired \<leftarrow> deadlineExpired be ctx;
              State_Monad.return (Success
                \<lparr>dir_message = dib_message r,
                 dir_completedAfterCancelRequest = cancelled,
                 dir_completedAfterDeadline = expired,
                 dir_connectionGeneration = oc_connectionGeneration ctx\<rparr>) }}}))"

section \<open>Processes\<close>

definition nameMatches :: "string \<Rightarrow> string \<Rightarrow> bool" where
  "nameMatches filt name \<longleftrightarrow> filt = [] \<or> contains_str (lowerAscii name) filt"

fun filterProcesses :: "string \<Rightarrow> ProcessInfo list \<Rightarrow> nat \<Rightarrow> ProcessInfo list option" where
  "filterProcesses filt [] totalNameBytes = Some []"
| "filterProcesses filt (p # ps) totalNameBytes =
     (if pi_pid p \<le> 0 \<or> length (pi_name p) > kMaxTextBytes * 16 \<or>
         totalNameBytes > kMaxProcessNameBytesTotal - length (pi_name p)
      then None
      else case filterProcesses filt ps (totalNameBytes + length (pi_name p)) of
             None \<Rightarrow> None
           | Some rest \<Rightarrow> Some (if nameMatches filt (pi_name p) then p # rest else rest))"

text \<open>
  The page of a list at an offset: the offset cut to the length, the items, and the offset of the next
  page. \<open>pageOf\<close> is the paging code that \<open>listProcesses\<close> and \<open>listModules\<close> share.
\<close>

definition pageOf :: "'a list \<Rightarrow> nat \<Rightarrow> nat \<Rightarrow> nat \<times> 'a list \<times> nat option" where
  "pageOf xs reqOffset reqLimit =
     (let total = length xs;
          off = min reqOffset total;
          end = min total (off + reqLimit)
      in (off, map (\<lambda>i. xs ! i) [off..<end], if end < total then Some end else None))"

definition listProcesses ::
    "'w MemRuntime \<Rightarrow> OperationContext \<Rightarrow> ProcessListRequest \<Rightarrow> ('w, ProcessPage Result) state" where
  "listProcesses be ctx req =
     (if plq_limit req = 0 \<or> plq_limit req > kMaxProcessPageSize \<or>
         length (plq_filter req) > kMaxTextBytes
      then fail InvalidArgument ''invalid process list filter or page size'' False
      else return_if_error (validateContext be ctx True False True) (do {
        r \<leftarrow> be_fetchProcesses be ctx;
        case r of
          None \<Rightarrow>
            return_if_error (validateContext be ctx True False False)
              (fail ProtocolError ''failed to fetch process list'' True)
        | Some processes \<Rightarrow>
            (case filterProcesses (lowerAscii (plq_filter req)) processes 0 of
               None \<Rightarrow> fail ProtocolError ''process response contains an invalid entry'' False
             | Some filtered \<Rightarrow>
                 (case pageOf filtered (plq_offset req) (plq_limit req) of (off, items, next) \<Rightarrow>
                    return_if_error (validateContext be ctx True False True)
                      (State_Monad.return (Success
                         \<lparr>pp_items = items, pp_total = length filtered, pp_offset = off,
                          pp_nextOffset = next\<rparr>)))) }))"

definition targetMoved :: "'w MemRuntime \<Rightarrow> OperationContext \<Rightarrow> ('w, bool) state" where
  "targetMoved be ctx =
     (case oc_target ctx of
        None \<Rightarrow> State_Monad.return False
      | Some t \<Rightarrow> do { current \<leftarrow> be_targetSnapshot be; State_Monad.return (current \<noteq> t) })"

definition lookupName :: "'w MemRuntime \<Rightarrow> OperationContext \<Rightarrow> int \<Rightarrow> string \<Rightarrow> ('w, string) state" where
  "lookupName be ctx pid name =
     (if name \<noteq> [] then State_Monad.return name
      else do {
        r \<leftarrow> be_fetchProcesses be ctx;
        State_Monad.return
          (case r of
             None \<Rightarrow> name
           | Some processes \<Rightarrow>
               (case List.find (\<lambda>p. pi_pid p = pid) processes of
                  None \<Rightarrow> name
                | Some p \<Rightarrow> pi_name p)) })"

definition openProcess ::
    "'w MemRuntime \<Rightarrow> OperationContext \<Rightarrow> OpenProcessRequest \<Rightarrow> ('w, OpenProcessResult Result) state" where
  "openProcess be ctx req =
     (if opq_pid req \<le> 0 \<or> length (opq_name req) > kMaxTextBytes
      then fail InvalidArgument ''pid must be positive and process name must be bounded'' False
      else return_if_error (validateContext be ctx True False True) (do {
        moved \<leftarrow> targetMoved be ctx;
        if moved
        then fail TargetChanged ''target changed before process selection started'' False
        else do {
          name \<leftarrow> lookupName be ctx (opq_pid req) (opq_name req);
          return_if_error (validateContext be ctx True False True) (do {
            moved' \<leftarrow> targetMoved be ctx;
            if moved'
            then fail TargetChanged ''target changed before process open was sent'' False
            else do {
              ok \<leftarrow> be_openProcess be ctx (opq_pid req) name;
              if \<not> ok
              then return_if_error (validateContext be ctx True False False)
                     (fail ProtocolError ''failed to open the requested process'' False)
              else return_if_error (validateContext be ctx True False False) (do {
                target \<leftarrow> be_targetSnapshot be;
                if \<not> isAttached target \<or> ts_pid target \<noteq> opq_pid req \<or>
                   ts_connectionGeneration target \<noteq> oc_connectionGeneration ctx
                then fail TargetChanged ''opened process does not match the requested target'' False
                else do {
                  pname \<leftarrow> be_processName be;
                  finalTarget \<leftarrow> be_targetSnapshot be;
                  return_if_error (validateContext be ctx True False False)
                    (if finalTarget \<noteq> target
                     then fail TargetChanged
                       ''target changed while the process open result was collected'' False
                     else State_Monad.return (Success
                       \<lparr>opr_target = target, opr_name = pname\<rparr>)) }}) }}) }}))"

section \<open>Modules and pointers\<close>

definition fetchModulesOnce ::
    "'w MemRuntime \<Rightarrow> OperationContext \<Rightarrow> ('w, ModuleInfo list option) state" where
  "fetchModulesOnce be ctx = do {
     transaction \<leftarrow> be_beginReadTransaction be ctx;
     case transaction of
       None \<Rightarrow> State_Monad.return None
     | Some tx \<Rightarrow> do {
         valid \<leftarrow> rt_valid tx;
         if \<not> valid then State_Monad.return None else rt_fetchModules tx }}"

definition listModules ::
    "'w MemRuntime \<Rightarrow> OperationContext \<Rightarrow> ModuleListRequest \<Rightarrow> ('w, ModulePage Result) state" where
  "listModules be ctx req =
     (if mlq_limit req = 0 \<or> mlq_limit req > kMaxModulePageSize \<or>
         length (mlq_filter req) > kMaxTextBytes
      then fail InvalidArgument ''invalid module list filter or page size'' False
      else return_if_error (validateContext be ctx True True True) (do {
        r \<leftarrow> fetchModulesOnce be ctx;
        case r of
          None \<Rightarrow>
            return_if_error (validateContext be ctx True True False)
              (fail ProtocolError ''failed to fetch module list'' True)
        | Some modules \<Rightarrow>
            return_if_error (validateContext be ctx True True True)
            (case validateModules modules of
               Some err \<Rightarrow> State_Monad.return (failureFrom err)
             | None \<Rightarrow>
                 let filt = lowerAscii (mlq_filter req);
                     filtered = filter (\<lambda>m. nameMatches filt (mi_name m)) modules
                 in (case pageOf filtered (mlq_offset req) (mlq_limit req) of (off, items, next) \<Rightarrow>
                      return_if_error (validateContext be ctx True True True)
                        (State_Monad.return (Success
                           \<lparr>mp_items = items, mp_total = length filtered, mp_offset = off,
                            mp_nextOffset = next, mp_target = the (oc_target ctx)\<rparr>)))) }))"

definition resolveModule ::
    "'w MemRuntime \<Rightarrow> OperationContext \<Rightarrow> ModuleResolveRequest \<Rightarrow>
       ('w, ResolvedModule Result) state" where
  "resolveModule be ctx req =
     (if length (mrq_name req) > kMaxTextBytes
      then fail InvalidArgument ''module name exceeds 4096 bytes'' False
      else return_if_error (validateContext be ctx True True True) (do {
        r \<leftarrow> fetchModulesOnce be ctx;
        case r of
          None \<Rightarrow>
            return_if_error (validateContext be ctx True True False)
              (fail ProtocolError ''failed to fetch modules'' True)
        | Some modules \<Rightarrow>
            return_if_error (validateContext be ctx True True True)
            (case validateModules modules of
               Some err \<Rightarrow> State_Monad.return (failureFrom err)
             | None \<Rightarrow>
                 (case resolveModuleByName modules (mrq_name req) of
                    Inl err \<Rightarrow> State_Monad.return (failureFrom err)
                  | Inr m \<Rightarrow>
                      return_if_error (validateContext be ctx True True True)
                        (State_Monad.return (Success
                           \<lparr>rm_module = m, rm_target = the (oc_target ctx)\<rparr>)))) }))"

definition dereference ::
    "'w MemRuntime \<Rightarrow> OperationContext \<Rightarrow> 'w IMemReadTransaction \<Rightarrow> u64 \<Rightarrow> u64 \<Rightarrow> bool \<Rightarrow>
       ('w, u64 option) state" where
  "dereference be ctx tx address off addOffset = do {
     e \<leftarrow> validateContext be ctx True False True;
     case e of
       Some _ \<Rightarrow> State_Monad.return None
     | None \<Rightarrow> do {
         r \<leftarrow> rt_readMemory tx address 8;
         State_Monad.return
           (case r of
              None \<Rightarrow> None
            | Some bytes \<Rightarrow>
                (case decodePointer bytes of
                   None \<Rightarrow> None
                 | Some pointer \<Rightarrow>
                     if addOffset then addAddressOffset pointer off else Some pointer)) }}"

fun followOffsets ::
    "'w MemRuntime \<Rightarrow> OperationContext \<Rightarrow> 'w IMemReadTransaction \<Rightarrow> u64 \<Rightarrow> nat \<Rightarrow> u64 list \<Rightarrow>
       ('w, (u64 \<times> nat) option) state" where
  "followOffsets be ctx tx address n [] = State_Monad.return (Some (address, n))"
| "followOffsets be ctx tx address n (off # offs) = do {
     next \<leftarrow> dereference be ctx tx address off True;
     case next of
       None \<Rightarrow> State_Monad.return None
     | Some address' \<Rightarrow> followOffsets be ctx tx address' (Suc n) offs }"

definition resolvePointer_chain ::
    "'w MemRuntime \<Rightarrow> OperationContext \<Rightarrow> PointerResolveRequest \<Rightarrow> 'w IMemReadTransaction \<Rightarrow>
       ModuleInfo \<Rightarrow> u64 \<Rightarrow> ('w, PointerResolution Result) state" where
  "resolvePointer_chain be ctx req tx m startAddress = do {
     followed \<leftarrow> followOffsets be ctx tx startAddress 0 (prq_offsets req);
     case followed of
       None \<Rightarrow>
         return_if_error (validateContext be ctx True True False)
           (fail ProtocolError ''failed to resolve pointer offset chain'' True)
     | Some (address, n) \<Rightarrow> do {
         final \<leftarrow>
           (if prq_dereferenceFinal req
            then do {
              d \<leftarrow> dereference be ctx tx address 0 False;
              State_Monad.return (case d of None \<Rightarrow> None | Some a \<Rightarrow> Some (a, Suc n)) }
            else State_Monad.return (Some (address, n)));
         case final of
           None \<Rightarrow>
             return_if_error (validateContext be ctx True True False)
               (fail ProtocolError ''failed to dereference final pointer'' True)
         | Some (address', n') \<Rightarrow>
             return_if_error (validateContext be ctx True True True)
               (State_Monad.return (Success
                  \<lparr>pr_module = m, pr_startAddress = startAddress, pr_address = address',
                   pr_dereferenceCount = n', pr_dereferencedFinal = prq_dereferenceFinal req,
                   pr_target = the (oc_target ctx)\<rparr>)) }}"

definition resolvePointer ::
    "'w MemRuntime \<Rightarrow> OperationContext \<Rightarrow> PointerResolveRequest \<Rightarrow>
       ('w, PointerResolution Result) state" where
  "resolvePointer be ctx req =
     (if prq_moduleName req = [] \<or> length (prq_moduleName req) > kMaxTextBytes \<or>
         length (prq_offsets req) > kMaxPointerOffsetCount
      then fail InvalidArgument ''invalid module name or pointer offset count'' False
      else return_if_error (validateContext be ctx True True True) (do {
        transaction \<leftarrow> be_beginReadTransaction be ctx;
        valid \<leftarrow> (case transaction of
                    None \<Rightarrow> State_Monad.return False
                  | Some tx \<Rightarrow> rt_valid tx);
        if \<not> valid
        then return_if_error (validateContext be ctx True True False)
               (fail ProtocolError ''failed to acquire pointer transaction'' True)
        else do {
          let tx = the transaction;
          r \<leftarrow> rt_fetchModules tx;
          case r of
            None \<Rightarrow> fail ProtocolError ''failed to fetch modules inside pointer transaction'' True
          | Some modules \<Rightarrow>
              (case validateModules modules of
                 Some err \<Rightarrow> State_Monad.return (failureFrom err)
               | None \<Rightarrow>
                   (case resolveModuleByName modules (prq_moduleName req) of
                      Inl err \<Rightarrow> State_Monad.return (failureFrom err)
                    | Inr m \<Rightarrow>
                        (case addAddressOffset (mi_base m) (prq_baseOffset req) of
                           None \<Rightarrow> fail InvalidArgument ''module base plus offset overflows uint64'' False
                         | Some startAddress \<Rightarrow>
                             resolvePointer_chain be ctx req tx m startAddress))) }}))"

section \<open>Paging\<close>

lemma pageOf_eq:
  "pageOf xs o1 n = (min o1 (length xs), take n (drop o1 xs),
     if o1 + n < length xs then Some (o1 + n) else None)"
proof -
  have "map (\<lambda>i. xs ! i) [min o1 (length xs)..<min (length xs) (min o1 (length xs) + n)] =
    take n (drop o1 xs)"
    by (rule nth_equalityI) (auto simp: min_def split: if_splits)
  then show ?thesis by (auto simp: pageOf_def Let_def)
qed

lemma filterProcesses_Some:
  assumes "filterProcesses filt ps acc = Some qs"
  shows "qs = filter (\<lambda>p. nameMatches filt (pi_name p)) ps" "\<forall>p \<in> set ps. 0 < pi_pid p"
  using assms by (induction ps arbitrary: acc qs) (auto split: if_splits option.splits)

text \<open>
  Following \<open>nextOffset\<close> from the first page collects a list completely: \<open>collectPages\<close> is the loop
  of a client that asks page after page, with the fuel of one round for each item.
\<close>

fun collectPages :: "nat \<Rightarrow> (nat \<Rightarrow> 'a list \<times> nat option) \<Rightarrow> nat \<Rightarrow> 'a list option" where
  "collectPages 0 page off = None"
| "collectPages (Suc fuel) page off =
     (case page off of
        (items, None) \<Rightarrow> Some items
      | (items, Some next) \<Rightarrow>
          (case collectPages fuel page next of
             None \<Rightarrow> None
           | Some rest \<Rightarrow> Some (items @ rest)))"

lemma collectPages_pageOf:
  assumes "0 < n" "length xs - off < fuel"
  shows "collectPages fuel (\<lambda>o1. snd (pageOf xs o1 n)) off = Some (drop off xs)"
  using assms(2)
proof (induction fuel arbitrary: off)
  case (Suc fuel)
  show ?case
  proof (cases "off + n < length xs")
    case True
    with Suc.prems assms(1) have "length xs - (off + n) < fuel" by arith
    from Suc.IH [OF this] True show ?thesis
      by (simp add: pageOf_eq) (metis append_take_drop_id drop_drop add.commute)
  next
    case False
    then show ?thesis by (simp add: pageOf_eq)
  qed
qed simp


text \<open>
  A successful process switch leaves the requested process selected: the returned target is
  attached, has the requested pid and belongs to the connection of the context, and it was still
  the current target when the name had been collected.
\<close>

theorem openProcess_success:
  assumes "run_state (openProcess be ctx req) w = (Success r, w')"
  shows "ts_pid (opr_target r) = opq_pid req \<and> 0 < opq_pid req \<and> isAttached (opr_target r) \<and>
    ts_connectionGeneration (opr_target r) = oc_connectionGeneration ctx \<and>
    (\<exists>name w1 w2. run_state (be_openProcess be ctx (opq_pid req) name) w1 = (True, w2)) \<and>
    (\<exists>w1 w2 w3 w4. run_state (be_processName be) w1 = (opr_name r, w2) \<and>
       run_state (be_targetSnapshot be) w2 = (opr_target r, w3) \<and>
       run_state (validateContext be ctx True False False) w3 = (None, w4) \<and> w4 = w')"
  using assms unfolding openProcess_def
  by (auto elim!: return_if_error_SuccessE run_bindE split: if_split_asm) blast+

section \<open>Pointer chains\<close>

text \<open>
  The reference for a pointer chain, over mathematical numbers: \<open>stored a\<close> is the pointer that the
  target stores at address \<open>a\<close>.
\<close>

fun pointerChain :: "(nat \<Rightarrow> nat) \<Rightarrow> nat \<Rightarrow> nat list \<Rightarrow> nat" where
  "pointerChain stored a [] = a"
| "pointerChain stored a (d # ds) = pointerChain stored (stored a + d) ds"

definition storesPointers :: "'w IMemReadTransaction \<Rightarrow> (nat \<Rightarrow> nat) \<Rightarrow> bool" where
  "storesPointers tx stored \<longleftrightarrow>
     (\<forall>a w bs w'. run_state (rt_readMemory tx a 8) w = (Some bs, w') \<longrightarrow>
        (\<exists>v :: u64. bs = map (\<lambda>i. ucast (drop_bit (i * 8) v)) [0..<8] \<and> unat v = stored (unat a)))"

lemma dereference_stored:
  assumes "storesPointers tx stored"
    and "run_state (dereference be ctx tx a off addOffset) w = (Some a', w')"
  shows "unat a' = stored (unat a) + (if addOffset then unat off else 0)"
proof -
  from assms(2) obtain bs w1 w2 v where read: "run_state (rt_readMemory tx a 8) w1 = (Some bs, w2)"
    and dec: "decodePointer bs = Some v"
    and a': "(if addOffset then addAddressOffset v off else Some v) = Some a'"
    unfolding dereference_def by (auto elim!: run_bindE split: option.split_asm)
  from assms(1) read obtain v' where "bs = map (\<lambda>i. ucast (drop_bit (i * 8) (v' :: u64))) [0..<8]"
    "unat v' = stored (unat a)"
    unfolding storesPointers_def by blast
  with decodePointer_le [OF this(1)] dec have "unat v = stored (unat a)" by simp
  with a' show ?thesis by (auto dest: addAddressOffset_unat split: if_splits)
qed

lemma followOffsets_chain:
  assumes "storesPointers tx stored"
    and "run_state (followOffsets be ctx tx a n offs) w = (Some (a', n'), w')"
  shows "unat a' = pointerChain stored (unat a) (map unat offs) \<and> n' = n + length offs"
  using assms(2)
proof (induction offs arbitrary: a n w)
  case (Cons d offs)
  then obtain a1 w1 where d: "run_state (dereference be ctx tx a d True) w = (Some a1, w1)"
    and rest: "run_state (followOffsets be ctx tx a1 (Suc n) offs) w1 = (Some (a', n'), w')"
    by (auto elim!: run_bindE split: option.split_asm)
  from Cons.IH [OF rest] dereference_stored [OF assms(1) d] show ?case by simp
qed simp

text \<open>
  C31. Pointer resolution computes the pointer chain of the request. For a transaction that
  reads the pointers a target stores in little-endian order, a success starts at the base of
  the one module the name resolves to plus the base offset and returns the address that the
  chain reaches in exact arithmetic: no addition has wrapped around. The number of
  dereferences is the number of offsets, plus one when the final address is dereferenced.
\<close>

theorem resolvePointer_chain_correct:
  assumes run: "run_state (resolvePointer be ctx req) w = (Success r, w')"
    and tx: "\<And>w tx w'. run_state (be_beginReadTransaction be ctx) w = (Some tx, w') \<Longrightarrow>
      storesPointers tx stored \<and>
      (\<forall>w ms w'. run_state (rt_fetchModules tx) w = (Some ms, w') \<longrightarrow> ms = modules)"
  shows "resolveModuleByName modules (prq_moduleName req) = Inr (pr_module r) \<and>
    unat (pr_startAddress r) = unat (mi_base (pr_module r)) + unat (prq_baseOffset req) \<and>
    unat (pr_address r) =
      (let a = pointerChain stored (unat (pr_startAddress r)) (map unat (prq_offsets req))
       in if prq_dereferenceFinal req then stored a else a) \<and>
    pr_dereferenceCount r =
      length (prq_offsets req) + (if prq_dereferenceFinal req then 1 else 0) \<and>
    oc_target ctx = Some (pr_target r)"
proof -
  from run obtain t m start w1 w2 w3 w4 ms
    where t: "run_state (be_beginReadTransaction be ctx) w1 = (Some t, w2)"
      and ms: "run_state (rt_fetchModules t) w3 = (Some ms, w4)"
      and m: "resolveModuleByName ms (prq_moduleName req) = Inr m"
      and start: "addAddressOffset (mi_base m) (prq_baseOffset req) = Some start"
      and chain: "run_state (resolvePointer_chain be ctx req t m start) w4 = (Success r, w')"
    unfolding resolvePointer_def
    by (auto elim!: return_if_error_SuccessE run_bindE
        split: if_split_asm option.split_asm sum.split_asm)
  note stored = conjunct1 [OF tx [OF t]]
  from chain obtain a n w5 w6 a' n' w7
    where f: "run_state (followOffsets be ctx t start 0 (prq_offsets req)) w4 = (Some (a, n), w5)"
    and last: "if prq_dereferenceFinal req
       then run_state (dereference be ctx t a 0 False) w5 = (Some a', w6) \<and> n' = Suc n
       else a' = a \<and> n' = n"
    and v: "run_state (validateContext be ctx True True True) w7 = (None, w')"
    and r: "r = \<lparr>pr_module = m, pr_startAddress = start, pr_address = a',
         pr_dereferenceCount = n', pr_dereferencedFinal = prq_dereferenceFinal req,
         pr_target = the (oc_target ctx)\<rparr>"
    unfolding resolvePointer_chain_def
    by (auto elim!: return_if_error_SuccessE run_bindE split: if_split_asm option.split_asm)
  from followOffsets_chain [OF stored f] last
    dereference_stored [OF stored, of be ctx a 0 False w5 a' w6]
  have "unat a' = (let a = pointerChain stored (unat start) (map unat (prq_offsets req))
       in if prq_dereferenceFinal req then stored a else a)"
    "n' = length (prq_offsets req) + (if prq_dereferenceFinal req then 1 else 0)"
    by (auto simp: Let_def split: if_split_asm)
  moreover have "ms = modules" using tx [OF t] ms by blast
  ultimately show ?thesis
    using r m addAddressOffset_unat [OF start] v by (auto elim!: validateContext_target)
qed

section \<open>Examples\<close>

definition demo_module :: ModuleInfo where
  "demo_module = \<lparr>mi_base = 0x7000, mi_size = 0x1000, mi_type = 0, mi_flag = 5,
     mi_name = ''libgame.so''\<rparr>"

definition demo_transaction :: "unit IMemReadTransaction" where
  "demo_transaction =
     \<lparr>rt_valid = State_Monad.return True,
      rt_fetchModules = State_Monad.return (Some [demo_module]),
      rt_readMemory = (\<lambda>a n. State_Monad.return
        (Some (map (\<lambda>i. ucast (drop_bit (i * 8) (0x9000 :: u64))) [0..<8]))),
      rt_readMemoryBatch = (\<lambda>_. State_Monad.return None)\<rparr>"

definition demo_query_runtime :: "unit MemRuntime" where
  "demo_query_runtime = rest_runtime
     \<lparr>be_beginReadTransaction := \<lambda>_. State_Monad.return (Some demo_transaction),
      be_openProcess := \<lambda>_ _ _. State_Monad.return True\<rparr>"

lemma demo_query_runtime_sel [simp]:
  "be_connectionGeneration demo_query_runtime = State_Monad.return 1"
  "be_isPoisoned demo_query_runtime = State_Monad.return False"
  "be_isConnected demo_query_runtime = State_Monad.return True"
  "be_targetSnapshot demo_query_runtime = State_Monad.return rest_target"
  "be_processName demo_query_runtime = State_Monad.return ''init''"
  "rn_now demo_query_runtime = State_Monad.return 0"
  "be_beginReadTransaction demo_query_runtime ctx = State_Monad.return (Some demo_transaction)"
  "be_openProcess demo_query_runtime ctx p n = State_Monad.return True"
  by (simp_all add: demo_query_runtime_def)

theorem openProcess_success_witness:
  "\<exists>r. run_state (openProcess demo_query_runtime rest_context
       \<lparr>opq_pid = 42, opq_name = ''init''\<rparr>) () = (Success r, ()) \<and>
     ts_pid (opr_target r) = 42 \<and> isAttached (opr_target r)"
proof -
  have run: "run_state (openProcess demo_query_runtime rest_context
       \<lparr>opq_pid = 42, opq_name = ''init''\<rparr>) () =
     (Success \<lparr>opr_target = rest_target, opr_name = ''init''\<rparr>, ())"
    by (simp add: openProcess_def limit_defs validateContext_rest targetMoved_def lookupName_def)
      (simp add: rest_target_def)
  from openProcess_success [OF run] run show ?thesis by auto
qed

lemma demo_fetch [simp]:
  "fetchModulesOnce demo_query_runtime ctx = State_Monad.return (Some [demo_module])"
  by (simp add: fetchModulesOnce_def demo_transaction_def)

lemma demo_validateModules [simp]: "validateModules [demo_module] = None"
  by (simp add: validateModules_def limit_defs demo_module_def)

definition demo_page :: "nat \<Rightarrow> ModulePage" where
  "demo_page off = \<lparr>mp_items = drop off [demo_module], mp_total = 1, mp_offset = min off 1,
     mp_nextOffset = None, mp_target = rest_target\<rparr>"


lemma demo_pointer: "decodePointer (map (\<lambda>i. ucast (drop_bit (i * 8) (0x9000 :: u64))) [0..<8]) = Some 0x9000"
  by (rule decodePointer_le) (rule refl)

lemma demo_resolveModule: "resolveModuleByName [demo_module] ''libgame.so'' = Inr demo_module"
  by code_simp

theorem resolvePointer_chain_correct_witness:
  "\<exists>r. run_state (resolvePointer demo_query_runtime rest_context
      \<lparr>prq_moduleName = ''libgame.so'', prq_baseOffset = 0x10, prq_offsets = [0x20],
       prq_dereferenceFinal = False\<rparr>) () = (Success r, ()) \<and>
     unat (pr_startAddress r) = 0x7010 \<and> unat (pr_address r) = 0x9020 \<and> pr_dereferenceCount r = 1"
proof -
  let ?req = "\<lparr>prq_moduleName = ''libgame.so'', prq_baseOffset = 0x10, prq_offsets = [0x20],
       prq_dereferenceFinal = False\<rparr>"
  let ?r = "\<lparr>pr_module = demo_module, pr_startAddress = 0x7010, pr_address = 0x9020,
       pr_dereferenceCount = 1, pr_dereferencedFinal = False, pr_target = rest_target\<rparr>"
  have m: "mi_base demo_module = 0x7000" by (simp add: demo_module_def)
  have tx: "rt_valid demo_transaction = State_Monad.return True"
    "rt_fetchModules demo_transaction = State_Monad.return (Some [demo_module])"
    "rt_readMemory demo_transaction a n = State_Monad.return
        (Some (map (\<lambda>i. ucast (drop_bit (i * 8) (0x9000 :: u64))) [0..<8]))" for a n
    by (simp_all add: demo_transaction_def)
  have run: "run_state (resolvePointer demo_query_runtime rest_context ?req) () = (Success ?r, ())"
    by (simp add: resolvePointer_def limit_defs validateContext_rest tx demo_resolveModule m
        addAddressOffset_def resolvePointer_chain_def dereference_def demo_pointer del: upt_Suc upt.simps)
  have "storesPointers demo_transaction (\<lambda>_. 0x9000)"
    unfolding storesPointers_def tx by (auto intro!: exI [of _ "0x9000 :: u64"])
  then have tx': "storesPointers t (\<lambda>_. 0x9000) \<and>
      (\<forall>w ms w'. run_state (rt_fetchModules t) w = (Some ms, w') \<longrightarrow> ms = [demo_module])"
    if "run_state (be_beginReadTransaction demo_query_runtime rest_context) w = (Some t, w')" for w t w'
    using that by (auto simp: tx)
  from resolvePointer_chain_correct [OF run tx'] run m show ?thesis by auto
qed

end
