(* ===== verification/MemServiceBreakpoint.thy ===== *)
theory MemServiceBreakpoint
  imports MemServiceQuery
begin

text \<open>
  Hardware breakpoints in \<open>gui/mem/MemService.cpp\<close>. These operations keep state of their own, the
  cumulative hit count last seen for each address of the current target
  (\<open>breakpointCounterTarget_\<close>, \<open>breakpointHitTotals_\<close>), guarded by \<open>breakpointMutex_\<close>. The
  state of the model is a record of that state and the world of the backend; \<open>on_world\<close> lifts a
  backend call to it.
\<close>

section \<open>State\<close>

record 'w BreakpointServiceState =
  bp_world :: 'w
  bp_counterTarget :: TargetSnapshot
  bp_hitTotals :: "u64 \<rightharpoonup> nat"

definition on_world :: "('w, 'a) state \<Rightarrow> ('w BreakpointServiceState, 'a) state" where
  "on_world m = State (\<lambda>s. case run_state m (bp_world s) of (a, w') \<Rightarrow> (a, s\<lparr>bp_world := w'\<rparr>))"

definition countersFor ::
    "TargetSnapshot \<Rightarrow> 'w BreakpointServiceState \<Rightarrow> 'w BreakpointServiceState" where
  "countersFor t s =
     (if bp_counterTarget s \<noteq> t
      then s\<lparr>bp_counterTarget := t, bp_hitTotals := Map.empty\<rparr> else s)"

definition selectCounterTarget ::
    "TargetSnapshot \<Rightarrow> ('w BreakpointServiceState, unit) state" where
  "selectCounterTarget t = State (\<lambda>s. ((), countersFor t s))"

definition eraseHitTotal :: "u64 \<Rightarrow> ('w BreakpointServiceState, unit) state" where
  "eraseHitTotal a = State (\<lambda>s. ((), s\<lparr>bp_hitTotals := (bp_hitTotals s)(a := None)\<rparr>))"

definition findHitTotal :: "u64 \<Rightarrow> ('w BreakpointServiceState, nat option) state" where
  "findHitTotal a = State (\<lambda>s. (bp_hitTotals s a, s))"

definition storeHitTotal :: "u64 \<Rightarrow> nat \<Rightarrow> ('w BreakpointServiceState, unit) state" where
  "storeHitTotal a n = State (\<lambda>s. ((), s\<lparr>bp_hitTotals := (bp_hitTotals s)(a \<mapsto> n)\<rparr>))"

section \<open>Operations\<close>

fun breakpointActionName :: "BreakpointAction \<Rightarrow> string" where
  "breakpointActionName BpSet = ''set''"
| "breakpointActionName BpRemove = ''remove''"
| "breakpointActionName BpSuspend = ''suspend''"
| "breakpointActionName BpResume = ''resume''"

definition mutateOnBackend ::
    "'w MemRuntime \<Rightarrow> OperationContext \<Rightarrow> u64 \<Rightarrow> BreakpointAction \<Rightarrow> BreakpointSetRequest option \<Rightarrow>
       ('w, BreakpointMutationBackendResult) state" where
  "mutateOnBackend be ctx address action setRequest =
     (case action of
        BpSet \<Rightarrow>
          (case setRequest of
             Some q \<Rightarrow> be_setBreakpoint be ctx address (bsq_access q) (bsq_size q)
           | None \<Rightarrow> State_Monad.return
               \<lparr>bmb_requestStarted = False, bmb_responseReceived = False, bmb_applied = False\<rparr>)
      | BpRemove \<Rightarrow> be_removeBreakpoint be ctx address
      | BpSuspend \<Rightarrow> be_suspendBreakpoint be ctx address
      | BpResume \<Rightarrow> be_resumeBreakpoint be ctx address)"

definition mutateBreakpoint ::
    "'w MemRuntime \<Rightarrow> OperationContext \<Rightarrow> u64 \<Rightarrow> BreakpointAction \<Rightarrow> BreakpointSetRequest option \<Rightarrow>
       ('w BreakpointServiceState, BreakpointMutationReceipt Result) state" where
  "mutateBreakpoint be ctx address action setRequest =
     (if address = 0 then fail InvalidArgument ''breakpoint address must not be zero'' False
      else return_if_error (on_world (validateContext be ctx True True True))
       (return_if_error (on_world (validateContext be ctx True True True)) (do {
        selectCounterTarget (the (oc_target ctx));
        r \<leftarrow> on_world (mutateOnBackend be ctx address action setRequest);
        if \<not> bmb_responseReceived r
        then (if bmb_requestStarted r
              then fail CompletionUnknown
                (''breakpoint '' @ breakpointActionName action @
                 '' was sent but its completion could not be confirmed; reconnect before continuing and do not retry automatically'')
                False
              else return_if_error (on_world (validateContext be ctx True True True))
                (fail ProtocolError
                   (''breakpoint '' @ breakpointActionName action @ '' could not be sent'') True))
        else if \<not> bmb_applied r
        then fail ProtocolError
          (''Android server rejected breakpoint '' @ breakpointActionName action) False
        else do {
          e \<leftarrow> on_world (validateContext be ctx True True False);
          case e of
            Some _ \<Rightarrow> fail CompletionUnknown
              (''server confirmed breakpoint '' @ breakpointActionName action @
               '' after the original target changed; do not retry automatically'') False
          | None \<Rightarrow> do {
              (if action = BpSet \<or> action = BpRemove then eraseHitTotal address
               else State_Monad.return ());
              State_Monad.return (Success
                \<lparr>bmr_address = address, bmr_action = action,
                 bmr_target = the (oc_target ctx)\<rparr>) }}})))"

definition setBreakpoint ::
    "'w MemRuntime \<Rightarrow> OperationContext \<Rightarrow> BreakpointSetRequest \<Rightarrow>
       ('w BreakpointServiceState, BreakpointMutationReceipt Result) state" where
  "setBreakpoint be ctx req =
     (let access = bsq_access req; size = bsq_size req in
      if access < 1 \<or> access > 4 \<or>
         (size \<noteq> 1 \<and> size \<noteq> 2 \<and> size \<noteq> 4 \<and> size \<noteq> 8) \<or>
         (access = BreakpointAccess_Execute \<and> size \<noteq> 4)
      then fail InvalidArgument ''invalid breakpoint access or size'' False
      else mutateBreakpoint be ctx (bsq_address req) BpSet (Some req))"

definition removeBreakpoint ::
    "'w MemRuntime \<Rightarrow> OperationContext \<Rightarrow> BreakpointAddressRequest \<Rightarrow>
       ('w BreakpointServiceState, BreakpointMutationReceipt Result) state" where
  "removeBreakpoint be ctx req = mutateBreakpoint be ctx (baq_address req) BpRemove None"

definition suspendBreakpoint ::
    "'w MemRuntime \<Rightarrow> OperationContext \<Rightarrow> BreakpointAddressRequest \<Rightarrow>
       ('w BreakpointServiceState, BreakpointMutationReceipt Result) state" where
  "suspendBreakpoint be ctx req = mutateBreakpoint be ctx (baq_address req) BpSuspend None"

definition resumeBreakpoint ::
    "'w MemRuntime \<Rightarrow> OperationContext \<Rightarrow> BreakpointAddressRequest \<Rightarrow>
       ('w BreakpointServiceState, BreakpointMutationReceipt Result) state" where
  "resumeBreakpoint be ctx req = mutateBreakpoint be ctx (baq_address req) BpResume None"

definition breakpointHits ::
    "'w MemRuntime \<Rightarrow> OperationContext \<Rightarrow> BreakpointHitBatchRequest \<Rightarrow>
       ('w BreakpointServiceState, BreakpointHitBatch Result) state" where
  "breakpointHits be ctx req =
     (if bhq_address req = 0 \<or> bhq_limit req = 0 \<or> bhq_limit req > kMaxBreakpointHitCount
      then fail InvalidArgument ''invalid breakpoint address or hit limit'' False
      else return_if_error (on_world (validateContext be ctx True True True)) (do {
        selectCounterTarget (the (oc_target ctx));
        previousTotal \<leftarrow> findHitTotal (bhq_address req);
        r \<leftarrow> on_world (be_fetchBreakpointHits be ctx (bhq_address req) (bhq_limit req));
        case r of
          None \<Rightarrow>
            return_if_error (on_world (validateContext be ctx True True False))
              (fail ProtocolError ''failed to fetch breakpoint hits'' True)
        | Some (hits, totalHits) \<Rightarrow>
            if length hits > bhq_limit req \<or> totalHits < length hits
            then fail ProtocolError ''breakpoint hit response is inconsistent'' False
            else
              let continued = (case previousTotal of None \<Rightarrow> False | Some p \<Rightarrow> totalHits \<ge> p);
                  newHits = (if continued then totalHits - the previousTotal else totalHits)
              in if continued \<and> newHits < length hits
                 then fail ProtocolError
                   ''breakpoint cumulative count regressed behind returned hits'' False
                 else return_if_error (on_world (validateContext be ctx True True True)) (do {
                   storeHitTotal (bhq_address req) totalHits;
                   State_Monad.return (Success
                     \<lparr>bhb_address = bhq_address req, bhb_items = hits, bhb_available = totalHits,
                      bhb_dropped = (if newHits > length hits then newHits - length hits else 0),
                      bhb_target = the (oc_target ctx)\<rparr>) }) }))"

definition threadSlotsInconsistent :: "u32 \<Rightarrow> BreakpointThreadSlots \<Rightarrow> bool" where
  "threadSlotsInconsistent capacity t \<longleftrightarrow>
     bt_tid t \<le> 0 \<or> bt_count t > capacity \<or>
     unat (bt_count t) \<noteq> length (bt_slots t) \<or>
     bt_totalCount t < bt_count t \<or>
     bt_brpCount t > bt_totalCount t \<or> bt_wrpCount t > bt_totalCount t \<or>
     bt_enabledCount t > bt_totalCount t \<or> bt_activeCount t > bt_totalCount t \<or>
     bt_perfCount t > bt_totalCount t \<or> bt_ptraceCount t > bt_totalCount t \<or>
     bt_moduleCount t > bt_totalCount t \<or>
     (bt_querySucceeded t \<and> bt_errorCode t \<noteq> 0) \<or>
     (\<not> bt_querySucceeded t \<and> (bt_count t \<noteq> 0 \<or> bt_errorCode t \<le> 0))"

definition breakpointSlots ::
    "'w MemRuntime \<Rightarrow> OperationContext \<Rightarrow> u32 \<Rightarrow> ('w, BreakpointSlotsSnapshot Result) state" where
  "breakpointSlots be ctx capacity =
     (if capacity = 0 \<or> capacity > kMaxBreakpointQueryEntries
      then fail InvalidArgument ''breakpoint slot capacity must be between 1 and 64'' False
      else return_if_error (validateContext be ctx True True True) (do {
        mt \<leftarrow> be_fetchMemoryType be;
        case mt of
          None \<Rightarrow> fail ProtocolError ''failed to query current memory mode'' True
        | Some (memType, memTypeName) \<Rightarrow>
            if memType \<noteq> kKernelMemoryType
            then fail PermissionDenied ''hwbp_query_task requires Kernel memory mode'' False
            else return_if_error (validateContext be ctx True True True)
             (return_if_error (validateContext be ctx True True True) (do {
              r \<leftarrow> be_fetchBreakpointSlots be ctx capacity;
              case r of
                None \<Rightarrow>
                  return_if_error (validateContext be ctx True True False)
                    (fail ProtocolError ''failed to query hardware breakpoint slots'' True)
              | Some threads \<Rightarrow>
                  if length threads > kMaxBreakpointQueryThreads
                  then fail ProtocolError
                    ''hardware breakpoint slot response contains too many threads'' False
                  else if list_ex (threadSlotsInconsistent capacity) threads
                  then fail ProtocolError
                    ''hardware breakpoint slot response is inconsistent'' False
                  else return_if_error (validateContext be ctx True True True)
                    (State_Monad.return (Success
                       \<lparr>bss_threads = threads, bss_target = the (oc_target ctx)\<rparr>)) })) }))"

section \<open>Runs on the service state\<close>

lemma run_on_world:
  "run_state (on_world m) s = (a, s') \<longleftrightarrow>
     (\<exists>w'. run_state m (bp_world s) = (a, w') \<and> s' = s\<lparr>bp_world := w'\<rparr>)"
  by (auto simp: on_world_def split: prod.splits)

lemma on_worldE:
  assumes "run_state (on_world m) s = (a, s')"
  obtains w' where "run_state m (bp_world s) = (a, w')" "s' = s\<lparr>bp_world := w'\<rparr>"
  using assms by (auto simp: run_on_world)

lemma on_world_return [simp]: "on_world (State_Monad.return a) = State_Monad.return a"
  by (simp add: on_world_def State_Monad.return_def)

lemma run_counter_simps [simp]:
  "run_state (selectCounterTarget t) s = ((), countersFor t s)"
  "run_state (eraseHitTotal a) s = ((), s\<lparr>bp_hitTotals := (bp_hitTotals s)(a := None)\<rparr>)"
  "run_state (findHitTotal a) s = (bp_hitTotals s a, s)"
  "run_state (storeHitTotal a n) s = ((), s\<lparr>bp_hitTotals := (bp_hitTotals s)(a \<mapsto> n)\<rparr>)"
  by (simp_all add: selectCounterTarget_def eraseHitTotal_def findHitTotal_def storeHitTotal_def)

lemma countersFor_simps [simp]:
  "bp_world (countersFor t s) = bp_world s"
  "bp_counterTarget (countersFor t s) = t"
  "countersFor t (s\<lparr>bp_world := w\<rparr>) = (countersFor t s)\<lparr>bp_world := w\<rparr>"
  by (simp_all add: countersFor_def)

text \<open>The hit count that a state remembers for an address of a target, 0 when there is none.\<close>

definition lastTotal :: "TargetSnapshot \<Rightarrow> u64 \<Rightarrow> 'w BreakpointServiceState \<Rightarrow> nat" where
  "lastTotal t a s =
     (if bp_counterTarget s = t then case bp_hitTotals s a of None \<Rightarrow> 0 | Some n \<Rightarrow> n else 0)"

section \<open>Hit accounting\<close>

lemma breakpointHits_account:
  assumes "run_state (breakpointHits be ctx req) s = (Success b, s')"
  shows "oc_target ctx = Some (bhb_target b)"
    and "lastTotal (bhb_target b) (bhq_address req) s' = bhb_available b"
    and "length (bhb_items b) + bhb_dropped b =
      bhb_available b - (let p = lastTotal (bhb_target b) (bhq_address req) s
                         in if p \<le> bhb_available b then p else 0)"
    and "length (bhb_items b) \<le> bhq_limit req"
proof -
  let ?t = "the (oc_target ctx)" and ?a = "bhq_address req"
  have "(\<exists>w1. run_state (validateContext be ctx True True True) (bp_world s) = (None, w1)) \<and>
     bhb_target b = ?t \<and> bp_counterTarget s' = ?t \<and>
     bp_hitTotals s' ?a = Some (bhb_available b) \<and> length (bhb_items b) \<le> bhq_limit req \<and>
     length (bhb_items b) + bhb_dropped b = (case bp_hitTotals (countersFor ?t s) ?a of
        None \<Rightarrow> bhb_available b
      | Some p \<Rightarrow> if p \<le> bhb_available b then bhb_available b - p else bhb_available b)"
    using assms unfolding breakpointHits_def
    by (auto simp: Let_def elim!: return_if_error_SuccessE run_bindE on_worldE
        split: if_split_asm option.split_asm)
  then show "oc_target ctx = Some (bhb_target b)"
    "lastTotal (bhb_target b) (bhq_address req) s' = bhb_available b"
    "length (bhb_items b) + bhb_dropped b =
      bhb_available b - (let p = lastTotal (bhb_target b) (bhq_address req) s
                         in if p \<le> bhb_available b then p else 0)"
    "length (bhb_items b) \<le> bhq_limit req"
    by (auto simp: lastTotal_def countersFor_def Let_def elim!: validateContext_target
        split: option.split_asm)
qed

text \<open>
  A client polls one breakpoint: successful calls of \<open>breakpointHits\<close> for one address and context,
  between which the world may move but the counters of this address stay as they are.
\<close>

inductive polls ::
    "'w MemRuntime \<Rightarrow> OperationContext \<Rightarrow> u64 \<Rightarrow> 'w BreakpointServiceState \<Rightarrow>
       BreakpointHitBatch list \<Rightarrow> 'w BreakpointServiceState \<Rightarrow> bool"
  for be ctx a where
  polls_done: "polls be ctx a s [] s"
| polls_more: "run_state (breakpointHits be ctx req) s = (Success b, s1) \<Longrightarrow> bhq_address req = a \<Longrightarrow>
     bp_counterTarget s2 = bp_counterTarget s1 \<Longrightarrow> bp_hitTotals s2 a = bp_hitTotals s1 a \<Longrightarrow>
     polls be ctx a s2 bs s' \<Longrightarrow> polls be ctx a s (b # bs) s'"

lemma lastTotal_cong:
  "bp_counterTarget s2 = bp_counterTarget s1 \<Longrightarrow> bp_hitTotals s2 a = bp_hitTotals s1 a \<Longrightarrow>
     lastTotal t a s2 = lastTotal t a s1"
  by (simp add: lastTotal_def)

lemma polls_account:
  assumes "polls be ctx a s bs s'" "oc_target ctx = Some t"
    and "sorted (lastTotal t a s # map bhb_available bs)"
  shows "(\<Sum>b\<leftarrow>bs. length (bhb_items b) + bhb_dropped b) + lastTotal t a s = lastTotal t a s'"
  using assms(1,3)
proof (induction rule: polls.induct)
  case (polls_more req s b s1 s2 bs s')
  note acc = breakpointHits_account [OF polls_more.hyps(1)]
  from acc(1) assms(2) have t: "bhb_target b = t" by simp
  have last: "lastTotal t a s2 = bhb_available b"
    using acc(2) polls_more.hyps(2-4) t by (simp add: lastTotal_cong [of s2 s1])
  moreover have "lastTotal t a s \<le> bhb_available b" using polls_more.prems by simp
  ultimately show ?case
    using polls_more acc(3) t by (auto simp: Let_def)
qed simp


definition demo_hit :: BreakpointHit where
  "demo_hit = \<lparr>bh_hitAddress = 0x4000, bh_hitTime = 1, bh_registers = replicate 31 0,
     bh_stackPointer = 0, bh_programCounter = 0x4000, bh_pstate = 0, bh_originalX0 = 0,
     bh_syscallNumber = 0\<rparr>"

definition demo_hits_runtime :: "nat MemRuntime" where
  "demo_hits_runtime = rest_runtime
     \<lparr>be_fetchBreakpointHits := \<lambda>_ _ _. State (\<lambda>n. (Some ([demo_hit], n + 3), n + 3))\<rparr>"

definition demo_hits_state :: "nat \<Rightarrow> (u64 \<rightharpoonup> nat) \<Rightarrow> nat BreakpointServiceState" where
  "demo_hits_state n m = \<lparr>bp_world = n, bp_counterTarget = rest_target, bp_hitTotals = m\<rparr>"


section \<open>Mutations\<close>

text \<open>
  What a confirmed breakpoint mutation does to the counters: the counter of the address is
  forgotten by a set and a remove and kept by a suspend and a resume, those of the other
  addresses are kept, and all counters of another target are forgotten first.
\<close>

theorem mutateBreakpoint_counters:
  assumes "run_state (mutateBreakpoint be ctx a action setReq) s = (Success r, s')"
  shows "oc_target ctx = Some (bmr_target r) \<and> a \<noteq> 0 \<and>
    (\<forall>a'. lastTotal (bmr_target r) a' s' =
       (if a' = a \<and> action \<in> {BpSet, BpRemove} then 0 else lastTotal (bmr_target r) a' s)) \<and>
    (\<exists>w1 w2 res. run_state (mutateOnBackend be ctx a action setReq) w1 = (res, w2) \<and>
       bmb_responseReceived res \<and> bmb_applied res)"
proof -
  let ?t = "the (oc_target ctx)"
  have "(\<exists>w1. run_state (validateContext be ctx True True True) (bp_world s) = (None, w1)) \<and>
     bmr_target r = ?t \<and> a \<noteq> 0 \<and> bp_counterTarget s' = ?t \<and>
     bp_hitTotals s' = (bp_hitTotals (countersFor ?t s))
       (a := if action \<in> {BpSet, BpRemove} then None else bp_hitTotals (countersFor ?t s) a) \<and>
    (\<exists>w1 w2 res. run_state (mutateOnBackend be ctx a action setReq) w1 = (res, w2) \<and>
       bmb_responseReceived res \<and> bmb_applied res)"
    using assms unfolding mutateBreakpoint_def
    by (auto elim!: return_if_error_SuccessE run_bindE on_worldE
        split: if_split_asm option.split_asm) blast+
  then show ?thesis by (auto simp: lastTotal_def countersFor_def elim!: validateContext_target)
qed

definition demo_mutate_runtime :: "nat MemRuntime" where
  "demo_mutate_runtime = rest_runtime
     \<lparr>be_removeBreakpoint := \<lambda>_ _. State (\<lambda>n.
        (\<lparr>bmb_requestStarted = True, bmb_responseReceived = True, bmb_applied = True\<rparr>, Suc n))\<rparr>"

theorem mutateBreakpoint_counters_witness:
  "\<exists>r s'. run_state (mutateBreakpoint demo_mutate_runtime rest_context 0x4000 BpRemove None)
       (demo_hits_state 0 (Map.empty(0x4000 \<mapsto> 7, 0x5000 \<mapsto> 8))) = (Success r, s') \<and>
     lastTotal (bmr_target r) 0x4000 s' = 0 \<and> lastTotal (bmr_target r) 0x5000 s' = 8"
proof -
  have run: "run_state (mutateBreakpoint demo_mutate_runtime rest_context 0x4000 BpRemove None)
       (demo_hits_state 0 (Map.empty(0x4000 \<mapsto> 7, 0x5000 \<mapsto> 8))) =
     (Success \<lparr>bmr_address = 0x4000, bmr_action = BpRemove, bmr_target = rest_target\<rparr>,
      demo_hits_state 1 (Map.empty(0x5000 \<mapsto> 8)))"
    by (simp add: mutateBreakpoint_def mutateOnBackend_def demo_mutate_runtime_def
        demo_hits_state_def validateContext_rest run_state_bind on_world_def [of "State _"]
        countersFor_def fun_upd_twist)
  from mutateBreakpoint_counters [OF run] run show ?thesis
    by (auto simp: lastTotal_def demo_hits_state_def)
qed

context mem_backend
begin

lemma mutateOnBackend_started:
  "keeps_unless invar effects bmb_requestStarted (mutateOnBackend be ctx a action setReq)"
  using breakpoint_started unfolding mutateOnBackend_def
  by (auto split: BreakpointAction.split option.split intro!: keeps_unlessI)

lemma mutateBreakpoint_retry_safe:
  assumes "run_state (mutateBreakpoint be ctx a action setReq) s = (res, s')" "invar (bp_world s)"
  shows "invar (bp_world s') \<and>
    (\<not> result_ok res \<and> er_retryable (result_error res) \<longrightarrow> effects (bp_world s') = effects (bp_world s))"
  using assms unfolding mutateBreakpoint_def
  by (auto elim!: return_if_errorE run_bindE on_worldE split: if_split_asm option.split_asm
      simp: failure_def dest!: validate_frameD keeps_unlessD [OF mutateOnBackend_started])

lemma mutateBreakpoint_success_request:
  assumes "run_state (mutateBreakpoint be ctx a action setReq) s = (Success r, s')"
    and "invar (bp_world s)"
  shows "\<exists>w1 io w2. run_state (mutateOnBackend be ctx a action setReq) w1 = (io, w2) \<and>
    bmb_responseReceived io \<and> invar w1 \<and> effects w1 = effects (bp_world s) \<and>
    effects (bp_world s') = effects w2"
proof -
  from assms(1) obtain w1 w2 w3 io w4 where
    1: "run_state (validateContext be ctx True True True) (bp_world s) = (None, w1)"
      "run_state (validateContext be ctx True True True) w1 = (None, w2)" and
    2: "run_state (mutateOnBackend be ctx a action setReq) w2 = (io, w3)" "bmb_responseReceived io" and
    3: "run_state (validateContext be ctx True True False) w3 = (None, w4)" "bp_world s' = w4"
    unfolding mutateBreakpoint_def
    by (auto elim!: return_if_error_SuccessE run_bindE on_worldE
        split: if_split_asm option.split_asm)
  from validate_frameD [OF 1(1) assms(2)] validate_frameD [OF 1(2)]
  have w2: "invar w2" "effects w2 = effects (bp_world s)" by auto
  from keeps_unlessD [OF mutateOnBackend_started 2(1) w2(1)] have "invar w3" by simp
  with validate_frameD [OF 3(1)] 3(2) have "effects (bp_world s') = effects w3" by simp
  with 2 w2 show ?thesis by blast
qed

end

end
