(* ===== verification/MemServiceUxn.thy ===== *)
theory MemServiceUxn
  imports CLibrary MemServiceQuery
begin

text \<open>
  UXN exception breakpoints in \<open>gui/mem/MemService.cpp\<close>: the translation of a backend
  result into an error (\<open>uxnNativeFailure\<close>, \<open>validateUxnIoResult\<close>) and the six operations. A
  failure of these operations is retryable only if nothing was sent or if the device itself
  reported a timeout; an answer for another slot, process or address never passes.
\<close>

declare run_state_bind [simp del]

section \<open>Results\<close>

definition uxnNativeFailure :: "string \<Rightarrow> int \<Rightarrow> 'a Result" where
  "uxnNativeFailure operation nativeCode =
     (let (code, retryable) =
        (if nativeCode = 22 then (InvalidArgument, False)
         else if nativeCode = 110 then (Timeout, True)
         else if nativeCode = 13 \<or> nativeCode = 1 \<or> nativeCode = 95 then (PermissionDenied, False)
         else if nativeCode = 125 then (CancelRequested, False)
         else (ProtocolError, False))
      in Failure
        \<lparr>er_code = code,
         er_message = ''UXN '' @ operation @ '' failed'' @
           (if nativeCode > 0 then '' (Linux errno '' @ decimal (nat nativeCode) @ '')'' else []),
         er_retryable = retryable, er_affectedBytes = None, er_nativeCode = Some nativeCode\<rparr>)"

definition uxnNotSent ::
    "'w MemRuntime \<Rightarrow> OperationContext \<Rightarrow> string \<Rightarrow> bool \<Rightarrow> ('w, 'a Result) state" where
  "uxnNotSent be ctx operation requireTarget = do {
     generation \<leftarrow> be_connectionGeneration be;
     if generation \<noteq> oc_connectionGeneration ctx
     then do {
       poisoned \<leftarrow> be_isPoisoned be;
       fail (if poisoned then ConnectionPoisoned else ConnectionChanged)
         ''connection changed before the UXN request could be sent'' True }
     else do {
       poisoned \<leftarrow> be_isPoisoned be;
       if poisoned
       then fail ConnectionPoisoned ''connection is poisoned and must be reconnected'' True
       else do {
         connected \<leftarrow> be_isConnected be;
         if \<not> connected
         then fail NotConnected ''MiniMem is not connected to the Android server'' True
         else do {
           moved \<leftarrow>
             (if requireTarget
              then (case oc_target ctx of
                      None \<Rightarrow> State_Monad.return True
                    | Some t \<Rightarrow> do {
                        current \<leftarrow> be_targetSnapshot be;
                        State_Monad.return (current \<noteq> t) })
              else State_Monad.return False);
           if moved
           then fail TargetChanged ''target changed before the UXN request could be sent'' False
           else fail ProtocolError (''UXN '' @ operation @ '' could not be sent'') True }}}}"

definition validateUxnIoResult ::
    "'w MemRuntime \<Rightarrow> OperationContext \<Rightarrow> 'z UxnOperationBackendResult_scheme \<Rightarrow> string \<Rightarrow> bool \<Rightarrow>
       ('w, 'a Result option) state" where
  "validateUxnIoResult be ctx r operation requireTarget =
     (if \<not> uo_responseReceived r
      then (if uo_requestStarted r
            then State_Monad.return (Some (failure CompletionUnknown
              (''UXN '' @ operation @
               '' was sent but no complete response was received; reconnect before continuing'') False))
            else do {
              f \<leftarrow> uxnNotSent be ctx operation requireTarget;
              State_Monad.return (Some f) })
      else if \<not> uo_applied r
      then State_Monad.return (Some (uxnNativeFailure operation (uo_errorCode r)))
      else if uo_errorCode r \<noteq> 0
      then State_Monad.return (Some (failure ProtocolError
        (''UXN '' @ operation @ '' returned an invalid success error code'') False))
      else State_Monad.return None)"

definition return_if_failure ::
    "('w, 'a Result option) state \<Rightarrow> ('w, 'a Result) state \<Rightarrow> ('w, 'a Result) state" where
  "return_if_failure v k = do {
     f \<leftarrow> v;
     case f of Some r \<Rightarrow> State_Monad.return r | None \<Rightarrow> k }"

definition completed_unless ::
    "('w, Error option) state \<Rightarrow> string \<Rightarrow> ('w, 'a Result) state \<Rightarrow> ('w, 'a Result) state" where
  "completed_unless v message k = do {
     e \<leftarrow> v;
     case e of Some _ \<Rightarrow> fail CompletionUnknown message False | None \<Rightarrow> k }"

section \<open>Operations\<close>

definition installUxnBreakpoint ::
    "'w MemRuntime \<Rightarrow> OperationContext \<Rightarrow> UxnInstallRequest \<Rightarrow> ('w, UxnInstallReceipt Result) state" where
  "installUxnBreakpoint be ctx req =
     (if uiq_address req = 0 \<or> uiq_address req AND 3 \<noteq> 0
      then fail InvalidArgument ''UXN breakpoint address must be non-zero and 4-byte aligned'' False
      else return_if_error (validateContext be ctx True True True)
       (return_if_error (requireKernelMemoryMode be ctx True)
        (return_if_error (validateContext be ctx True True True) (do {
          r \<leftarrow> be_installUxnBreakpoint be ctx (uiq_address req);
          return_if_failure (validateUxnIoResult be ctx r ''install'' True)
            (if ui_pid r \<noteq> of_int (ts_pid (the (oc_target ctx))) \<or>
                ui_address r \<noteq> uiq_address req \<or> ui_flags r \<noteq> 0 \<or> ui_slot r \<ge> kMaxUxnSlots
             then fail ProtocolError ''UXN install response does not match the requested target'' False
             else completed_unless (validateContext be ctx True True False)
               ''UXN install completed after the original target changed''
               (State_Monad.return (Success
                  \<lparr>uir_slot = ui_slot r, uir_address = ui_address r,
                   uir_target = the (oc_target ctx)\<rparr>))) }))))"

definition removeUxnBreakpoint ::
    "'w MemRuntime \<Rightarrow> OperationContext \<Rightarrow> UxnRemoveRequest \<Rightarrow> ('w, UxnMutationReceipt Result) state" where
  "removeUxnBreakpoint be ctx req =
     (if urq_address req = 0 \<or> urq_address req AND 3 \<noteq> 0
      then fail InvalidArgument ''UXN breakpoint address must be non-zero and 4-byte aligned'' False
      else return_if_error (validateContext be ctx True True True)
       (return_if_error (requireKernelMemoryMode be ctx True)
        (return_if_error (validateContext be ctx True True True) (do {
          r \<leftarrow> be_removeUxnBreakpoint be ctx (urq_address req);
          return_if_failure (validateUxnIoResult be ctx r ''remove'' True)
            (completed_unless (validateContext be ctx True True False)
               ''UXN remove completed after the original target changed''
               (State_Monad.return (Success
                  \<lparr>umr_slot = 0, umr_address = urq_address req,
                   umr_target = the (oc_target ctx)\<rparr>))) }))))"

definition uxnEventInconsistent :: "OperationContext \<Rightarrow> UxnWaitRequest \<Rightarrow> UxnEvent \<Rightarrow> bool" where
  "uxnEventInconsistent ctx req event \<longleftrightarrow>
     ue_slot event \<ge> kMaxUxnSlots \<or>
     (uwq_slot req \<noteq> kUxnWaitAnySlot \<and> ue_slot event \<noteq> uwq_slot req) \<or>
     ue_pid event \<noteq> of_int (ts_pid (the (oc_target ctx))) \<or>
     ue_tid event = 0 \<or> ue_state event \<noteq> UxnState_Paused \<or>
     ue_sequence event \<le> uwq_lastSequence req \<or> ue_address event = 0 \<or>
     ur_programCounter (ue_registers event) = 0"

definition waitUxnBreakpoint ::
    "'w MemRuntime \<Rightarrow> OperationContext \<Rightarrow> UxnWaitRequest \<Rightarrow> ('w, UxnEvent Result) state" where
  "waitUxnBreakpoint be ctx req =
     (if (uwq_slot req \<noteq> kUxnWaitAnySlot \<and> uwq_slot req \<ge> kMaxUxnSlots) \<or>
         uwq_timeoutMs req = 0 \<or> uwq_timeoutMs req > kMaxUxnWaitTimeoutMs
      then fail InvalidArgument ''UXN wait requires slot 0-15 (or any) and timeout 1-60000 ms'' False
      else return_if_error (validateContext be ctx True True True)
       (return_if_error (requireKernelMemoryMode be ctx True) (do {
         r \<leftarrow> be_waitUxnBreakpoint be ctx (uwq_slot req) (uwq_timeoutMs req) (uwq_lastSequence req);
         return_if_failure (validateUxnIoResult be ctx r ''wait'' True)
           (if uxnEventInconsistent ctx req (uw_event r)
            then fail ProtocolError ''UXN wait returned an inconsistent event'' False
            else completed_unless (validateContext be ctx True True False)
              ''UXN wait returned a paused event after the original target changed''
              (State_Monad.return (Success (uw_event r)))) })))"

definition resumeUxnBreakpoint ::
    "'w MemRuntime \<Rightarrow> OperationContext \<Rightarrow> UxnResumeRequest \<Rightarrow> ('w, UxnMutationReceipt Result) state" where
  "resumeUxnBreakpoint be ctx req =
     (if usq_slot req \<ge> kMaxUxnSlots
      then fail InvalidArgument ''UXN slot must be between 0 and 15'' False
      else return_if_error (validateContext be ctx True True True)
       (return_if_error (requireKernelMemoryMode be ctx True)
        (return_if_error (validateContext be ctx True True True) (do {
          r \<leftarrow> be_resumeUxnBreakpoint be ctx (usq_slot req) (usq_writeRegisters req) (usq_registers req);
          return_if_failure (validateUxnIoResult be ctx r ''resume'' True)
            (completed_unless (validateContext be ctx True True False)
               ''UXN resume completed after the original target changed''
               (State_Monad.return (Success
                  \<lparr>umr_slot = usq_slot req, umr_address = 0,
                   umr_target = the (oc_target ctx)\<rparr>))) }))))"

definition uxnStatusInconsistent :: "OperationContext \<Rightarrow> UxnStatusRequest \<Rightarrow> UxnStatus \<Rightarrow> bool" where
  "uxnStatusInconsistent ctx req st \<longleftrightarrow>
     us_slot st \<noteq> utq_slot req \<or> us_state st > UxnState_Stepping \<or>
     (us_used st \<and> us_pid st \<noteq> of_int (ts_pid (the (oc_target ctx)))) \<or>
     (\<not> us_used st \<and> us_state st \<noteq> UxnState_Empty)"

definition queryUxnBreakpointStatus ::
    "'w MemRuntime \<Rightarrow> OperationContext \<Rightarrow> UxnStatusRequest \<Rightarrow> ('w, UxnStatus Result) state" where
  "queryUxnBreakpointStatus be ctx req =
     (if utq_slot req \<ge> kMaxUxnSlots
      then fail InvalidArgument ''UXN slot must be between 0 and 15'' False
      else return_if_error (validateContext be ctx True True True)
       (return_if_error (requireKernelMemoryMode be ctx True) (do {
         r \<leftarrow> be_queryUxnBreakpointStatus be ctx (utq_slot req);
         return_if_failure (validateUxnIoResult be ctx r ''status'' True)
           (if uxnStatusInconsistent ctx req (usb_status r)
            then fail ProtocolError ''UXN status response is inconsistent'' False
            else return_if_error (validateContext be ctx True True True)
              (State_Monad.return (Success
                 ((usb_status r)\<lparr>us_target := the (oc_target ctx)\<rparr>)))) })))"

definition clearUxnBreakpoints ::
    "'w MemRuntime \<Rightarrow> OperationContext \<Rightarrow> ('w, UxnClearReceipt Result) state" where
  "clearUxnBreakpoints be ctx =
     return_if_error (validateContext be ctx True False True)
      (return_if_error (requireKernelMemoryMode be ctx False) (do {
        r \<leftarrow> be_clearUxnBreakpoints be ctx;
        return_if_failure (validateUxnIoResult be ctx r ''clear'' False)
          (completed_unless (validateContext be ctx True False False)
             ''UXN clear completed after the connection changed''
             (do { t \<leftarrow> be_targetSnapshot be;
                   State_Monad.return (Success \<lparr>ucr_target = t\<rparr>) })) }))"

section \<open>Failures and retries\<close>

lemma return_if_failureE:
  assumes "run_state (return_if_failure v k) w = (r, w')"
  obtains f where "run_state v w = (Some f, w')" "r = f"
    | w1 where "run_state v w = (None, w1)" "run_state k w1 = (r, w')"
  using assms unfolding return_if_failure_def
  by (auto elim!: run_bindE split: option.split_asm)

lemma completed_unlessE:
  assumes "run_state (completed_unless v m k) w = (r, w')"
  obtains e where "run_state v w = (Some e, w')" "failure CompletionUnknown m False = r"
    | w1 where "run_state v w = (None, w1)" "run_state k w1 = (r, w')"
  using assms unfolding completed_unless_def
  by (auto elim!: run_bindE split: option.split_asm)

lemma uxnNativeFailure_retryable:
  "uxnNativeFailure operation n = Failure e \<Longrightarrow> er_retryable e \<Longrightarrow> er_nativeCode e = Some 110"
  by (auto simp: uxnNativeFailure_def Let_def split: if_split_asm)

lemma uxnNativeFailure_not_Success [simp]: "uxnNativeFailure operation n \<noteq> Success a"
  by (auto simp: uxnNativeFailure_def split: prod.splits)

lemma uxnNotSent_not_Success: "run_state (uxnNotSent be ctx op rt) w = (Success a, w') \<Longrightarrow> False"
  unfolding uxnNotSent_def by (auto elim!: run_bindE split: if_split_asm option.split_asm)

lemma validateUxnIoResult_not_Success:
  "run_state (validateUxnIoResult be ctx r op rt) w = (Some (Success a), w') \<Longrightarrow> False"
  unfolding validateUxnIoResult_def
  by (auto elim!: run_bindE dest: uxnNotSent_not_Success split: if_split_asm)

lemma validateUxnIoResult_None:
  "run_state (validateUxnIoResult be ctx r op rt) w = (None, w') \<Longrightarrow>
     w' = w \<and> uo_responseReceived r \<and> uo_applied r \<and> uo_errorCode r = 0"
  unfolding validateUxnIoResult_def by (auto elim!: run_bindE split: if_split_asm)

lemma validateUxnIoResult_retryable:
  assumes "run_state (validateUxnIoResult be ctx r op rt) w = (Some (Failure e), w')" "er_retryable e"
  shows "\<not> uo_requestStarted r \<or> er_nativeCode e = Some 110"
  using assms unfolding validateUxnIoResult_def
  by (auto elim!: run_bindE dest: uxnNativeFailure_retryable split: if_split_asm)

text \<open>
  \<open>retry_safe invar effects m\<close>: \<open>m\<close> preserves the invariant, and when it fails with a retryable error
  then no request with an effect has been handed over, unless the device reported a timeout
  (Linux errno 110) itself.
\<close>

definition retry_safe :: "('w \<Rightarrow> bool) \<Rightarrow> ('w \<Rightarrow> 'l) \<Rightarrow> ('w, 'a Result) state \<Rightarrow> bool" where
  "retry_safe invar effects m \<longleftrightarrow>
     (\<forall>w res w'. invar w \<and> run_state m w = (res, w') \<longrightarrow> invar w' \<and>
        (\<forall>e. res = Failure e \<and> er_retryable e \<longrightarrow>
           effects w' = effects w \<or> er_nativeCode e = Some 110))"

definition settled :: "('w \<Rightarrow> bool) \<Rightarrow> ('w, 'a Result) state \<Rightarrow> bool" where
  "settled invar m \<longleftrightarrow>
     (\<forall>w res w'. invar w \<and> run_state m w = (res, w') \<longrightarrow> invar w' \<and>
        (\<forall>e. res = Failure e \<longrightarrow> \<not> er_retryable e))"

lemma retry_safe_fail: "retry_safe invar effects (fail c m r)"
  by (auto simp: retry_safe_def)

lemma retry_safe_return_if_error:
  assumes "keeps invar effects v" "retry_safe invar effects k"
  shows "retry_safe invar effects (return_if_error v k)"
  unfolding retry_safe_def
proof (intro allI impI, elim conjE)
  fix w res w'
  assume w: "invar w" and "run_state (return_if_error v k) w = (res, w')"
  then consider e where "run_state v w = (Some e, w')"
    | w1 where "run_state v w = (None, w1)" "run_state k w1 = (res, w')"
    by (auto elim: return_if_errorE)
  then show "invar w' \<and> (\<forall>e. res = Failure e \<and> er_retryable e \<longrightarrow>
      effects w' = effects w \<or> er_nativeCode e = Some 110)"
  proof cases
    case 1
    from keepsD [OF assms(1) this w] show ?thesis by blast
  next
    case 2
    from keepsD [OF assms(1) 2(1) w] 2(2) assms(2) show ?thesis
      unfolding retry_safe_def by metis
  qed
qed

lemma settled_fail: "\<not> r \<Longrightarrow> settled invar (fail c m r)"
  by (auto simp: settled_def)

lemma settled_completed_unless:
  assumes "keeps invar effects v" "settled invar k"
  shows "settled invar (completed_unless v m k)"
  unfolding settled_def
proof (intro allI impI, elim conjE)
  fix w res w'
  assume w: "invar w" and "run_state (completed_unless v m k) w = (res, w')"
  then consider e where "run_state v w = (Some e, w')" "failure CompletionUnknown m False = res"
    | w1 where "run_state v w = (None, w1)" "run_state k w1 = (res, w')"
    by (auto elim: completed_unlessE)
  then show "invar w' \<and> (\<forall>e. res = Failure e \<longrightarrow> \<not> er_retryable e)"
  proof cases
    case 1
    with keepsD [OF assms(1) 1(1) w] show ?thesis by (auto simp: failure_def)
  next
    case 2
    from keepsD [OF assms(1) 2(1) w] 2(2) assms(2) show ?thesis unfolding settled_def by blast
  qed
qed

context mem_backend
begin

lemma kernel_mode_frame: "keeps invar effects (requireKernelMemoryMode be ctx rt)"
  unfolding requireKernelMemoryMode_def by (intro keeps_intros observers validate_frame)

lemma uxn_io_frame: "keeps invar effects (validateUxnIoResult be ctx r op rt)"
  unfolding validateUxnIoResult_def uxnNotSent_def by (intro keeps_intros observers)

lemma retry_safe_request:
  fixes k :: "'z UxnOperationBackendResult_scheme \<Rightarrow> ('w, 'a Result) state"
  assumes op: "keeps_unless invar effects uo_requestStarted op"
    and cont: "\<And>r. settled invar (k r)"
  shows "retry_safe invar effects
    (do { r \<leftarrow> op; return_if_failure (validateUxnIoResult be ctx r name rt) (k r) })"
  unfolding retry_safe_def
proof (intro allI impI, elim conjE run_bindE)
  fix w res w' r w1
  assume w: "invar w" and op1: "run_state op w = (r, w1)"
    and ret: "run_state (return_if_failure (validateUxnIoResult be ctx r name rt) (k r)) w1 = (res, w')"
  note w1 = keeps_unlessD [OF op op1 w]
  from ret consider f where "run_state (validateUxnIoResult be ctx r name rt) w1 = (Some f, w')" "res = f"
    | w2 where "run_state (validateUxnIoResult be ctx r name rt) w1 =
          (None :: 'a Result option, w2)"
        "run_state (k r) w2 = (res, w')"
    by (rule return_if_failureE)
  then show "invar w' \<and> (\<forall>e. res = Failure e \<and> er_retryable e \<longrightarrow>
      effects w' = effects w \<or> er_nativeCode e = Some 110)"
  proof cases
    case 1
    from keepsD [OF uxn_io_frame 1(1)] w1 1 validateUxnIoResult_retryable show ?thesis by fastforce
  next
    case 2
    from keepsD [OF uxn_io_frame 2(1)] w1 2(2) cont show ?thesis unfolding settled_def by blast
  qed
qed

lemma settled_receipt:
  "settled invar (completed_unless (validateContext be ctx True True False) m
     (State_Monad.return (Success r)))"
  by (rule settled_completed_unless [OF validate_frame]) (simp add: settled_def)

lemmas retry_safe_rules = retry_safe_return_if_error validate_frame kernel_mode_frame
  retry_safe_request uxn_started settled_receipt

lemma installUxn_retry_safe: "retry_safe invar effects (installUxnBreakpoint be ctx req)"
  unfolding installUxnBreakpoint_def
  by (auto simp: retry_safe_fail settled_fail intro!: retry_safe_rules)

lemma removeUxn_retry_safe: "retry_safe invar effects (removeUxnBreakpoint be ctx rreq)"
  unfolding removeUxnBreakpoint_def
  by (auto simp: retry_safe_fail intro!: retry_safe_rules)

lemma resumeUxn_retry_safe: "retry_safe invar effects (resumeUxnBreakpoint be ctx sreq)"
  unfolding resumeUxnBreakpoint_def
  by (auto simp: retry_safe_fail intro!: retry_safe_rules)

lemma clearUxn_retry_safe: "retry_safe invar effects (clearUxnBreakpoints be ctx)"
proof -
  have "settled invar (do { t \<leftarrow> be_targetSnapshot be;
      State_Monad.return (Success \<lparr>ucr_target = t\<rparr>) })"
    by (auto simp: settled_def elim!: run_bindE dest: keepsD [OF observers(4)])
  then show ?thesis
    unfolding clearUxnBreakpoints_def
    by (intro retry_safe_rules settled_completed_unless [OF validate_frame])
qed

end

section \<open>Events\<close>

lemma waitUxn_event:
  assumes "run_state (waitUxnBreakpoint be ctx req) w = (Success e, w')"
  shows "unat (ue_slot e) < 16 \<and> (uwq_slot req = kUxnWaitAnySlot \<or> ue_slot e = uwq_slot req) \<and>
    ue_state e = UxnState_Paused \<and> uwq_lastSequence req < ue_sequence e \<and> ue_tid e \<noteq> 0 \<and>
    (\<exists>t. oc_target ctx = Some t \<and> ue_pid e = of_int (ts_pid t))"
proof -
  have "\<not> uxnEventInconsistent ctx req e \<and>
    (\<exists>w1 w2. run_state (validateContext be ctx True True True) w1 = (None, w2))"
    using assms unfolding waitUxnBreakpoint_def
    by (auto elim!: return_if_error_SuccessE return_if_failureE completed_unlessE run_bindE
        split: if_split_asm dest: validateUxnIoResult_not_Success) 
  then show ?thesis
    by (auto simp: uxnEventInconsistent_def limit_defs not_le word_less_nat_alt
        elim!: validateContext_target)
qed

text \<open>
  A client waits for events in a loop and passes the sequence of the last event it has seen.
\<close>

inductive uxn_events ::
    "'w MemRuntime \<Rightarrow> OperationContext \<Rightarrow> u64 \<Rightarrow> UxnEvent list \<Rightarrow> bool"
  for be ctx where
  no_event: "uxn_events be ctx s []"
| next_event: "run_state (waitUxnBreakpoint be ctx req) w = (Success e, w') \<Longrightarrow>
     uwq_lastSequence req = s \<Longrightarrow> uxn_events be ctx (ue_sequence e) es \<Longrightarrow>
     uxn_events be ctx s (e # es)"

lemma uxn_events_sorted:
  "uxn_events be ctx s es \<Longrightarrow> sorted_wrt (<) (s # map ue_sequence es)"
proof (induction rule: uxn_events.induct)
  case (next_event req w e w' s es)
  from waitUxn_event [OF next_event.hyps(1)] next_event.hyps(2) have "s < ue_sequence e" by simp
  with next_event.IH show ?case by (auto intro: less_trans)
qed simp

text \<open>
  C38. A client that waits for UXN events and passes on the last sequence number never sees an event
  twice, whatever the device answers: the sequence numbers of the events it gets are strictly
  increasing, so the events are pairwise distinct.
\<close>

theorem waitUxn_no_duplicate_event:
  assumes "uxn_events be ctx s es"
  shows "sorted_wrt (<) (map ue_sequence es) \<and> distinct es"
proof -
  from uxn_events_sorted [OF assms] have "sorted_wrt (<) (map ue_sequence es)" by simp
  then show ?thesis by (metis distinct_map strict_sorted_iff)
qed

definition demo_event :: "u64 \<Rightarrow> UxnEvent" where
  "demo_event n = \<lparr>ue_slot = 2, ue_pid = 42, ue_tid = 43, ue_state = UxnState_Paused,
     ue_sequence = n, ue_address = 0x4000, ue_page = 0x4000, ue_faultAddress = 0x4000, ue_esr = 0,
     ue_hits = 1, ue_falseHits = 0,
     ue_registers = \<lparr>ur_general = replicate 31 0, ur_stackPointer = 0, ur_programCounter = 0x4000,
       ur_pstate = 0\<rparr>,
     ue_fpsimd = \<lparr>ufs_vector = [], ufs_fpsr = 0, ufs_fpcr = 0, ufs_valid = False\<rparr>\<rparr>"

definition demo_uxn_runtime :: "u64 MemRuntime" where
  "demo_uxn_runtime = rest_runtime
     \<lparr>be_fetchMemoryType := State_Monad.return (Some (3, ''Kernel'')),
      be_waitUxnBreakpoint := \<lambda>_ _ _ _. State (\<lambda>n.
        (\<lparr>uo_requestStarted = True, uo_responseReceived = True, uo_applied = True,
          uo_errorCode = 0, uw_event = demo_event (n + 1)\<rparr>, n + 1))\<rparr>"

theorem waitUxn_no_duplicate_event_witness:
  "uxn_events demo_uxn_runtime rest_context 0 [demo_event 1, demo_event 2] \<and>
   distinct [demo_event 1, demo_event 2]"
proof -
  have run: "run_state (waitUxnBreakpoint demo_uxn_runtime rest_context
      \<lparr>uwq_slot = 2, uwq_timeoutMs = 1000, uwq_lastSequence = n\<rparr>) n =
    (Success (demo_event (n + 1)), n + 1)" if "n < n + 1" for n
    using that
    by (simp add: waitUxnBreakpoint_def limit_defs demo_uxn_runtime_def validateContext_rest
        requireKernelMemoryMode_def validateUxnIoResult_def return_if_failure_def
        completed_unless_def uxnEventInconsistent_def demo_event_def run_state_bind)
      (simp add: rest_target_def not_le)
  have "uxn_events demo_uxn_runtime rest_context 0 [demo_event 1, demo_event 2]"
    using run [of 0] run [of 1]
    by (intro next_event [where req = "\<lparr>uwq_slot = 2, uwq_timeoutMs = 1000, uwq_lastSequence = 0\<rparr>"
            and w = 0 and w' = 1]
          next_event [where req = "\<lparr>uwq_slot = 2, uwq_timeoutMs = 1000, uwq_lastSequence = 1\<rparr>"
            and w = 1 and w' = 2] no_event)
      (simp_all add: demo_event_def)
  with waitUxn_no_duplicate_event [OF this] show ?thesis by simp
qed

end
