(* ===== verification/MemServiceSymbol.thy ===== *)
theory MemServiceSymbol
  imports MemServiceQuery
begin

text \<open>
  Symbol tables in \<open>gui/mem/MemService.cpp\<close>: loading a whole table page by page, listing one page
  and resolving a name. All three run inside a symbol transaction, which keeps the module list,
  the initialisation and the pages of one table together.
\<close>

section \<open>Operations\<close>

fun checkSymbols :: "SymbolInfo list \<Rightarrow> nat \<Rightarrow> nat option" where
  "checkSymbols [] nameBytes = Some nameBytes"
| "checkSymbols (s # ss) nameBytes =
     (if length (si_name s) > kMaxTextBytes * 16 \<or>
         nameBytes > kMaxSymbolNameBytesTotal - length (si_name s)
      then None
      else checkSymbols ss (nameBytes + length (si_name s)))"

function loadPages ::
    "'w IMemSymbolTransaction \<Rightarrow> int \<Rightarrow> nat \<Rightarrow> nat \<Rightarrow> SymbolInfo list \<Rightarrow>
       ('w, SymbolInfo list Result) state" where
  "loadPages tx totalCount off nameBytes items =
     (if off < nat totalCount
      then do {
        let n = min kMaxSymbolPageSize (nat totalCount - off);
        r \<leftarrow> sy_fetch tx off n;
        case r of
          None \<Rightarrow> fail SymbolSessionChanged ''symbol table changed while it was being loaded'' False
        | Some (page, observedTotal) \<Rightarrow>
            if observedTotal \<noteq> totalCount \<or> length page > n
            then fail SymbolSessionChanged ''symbol table changed while it was being loaded'' False
            else (case checkSymbols page nameBytes of
                    None \<Rightarrow> fail ProtocolError ''symbol response exceeds the service limit'' False
                  | Some nameBytes' \<Rightarrow>
                      loadPages tx totalCount (off + kMaxSymbolPageSize) nameBytes' (items @ page)) }
      else State_Monad.return (Success items))"
  by pat_completeness auto
termination
  by (relation "measure (\<lambda>(tx, totalCount, off, nb, items). nat totalCount - off)")
    (auto simp: limit_defs)

declare loadPages.simps [simp del]

definition beginSymbols ::
    "'w MemRuntime \<Rightarrow> OperationContext \<Rightarrow> ('w, 'w IMemSymbolTransaction option) state" where
  "beginSymbols be ctx = do {
     transaction \<leftarrow> be_beginSymbolTransaction be ctx;
     case transaction of
       None \<Rightarrow> State_Monad.return None
     | Some tx \<Rightarrow> do {
         valid \<leftarrow> sy_valid tx;
         State_Monad.return (if valid then Some tx else None) }}"

definition loadSymbolTable ::
    "'w MemRuntime \<Rightarrow> OperationContext \<Rightarrow> SymbolTableRequest \<Rightarrow> ('w, SymbolTable Result) state" where
  "loadSymbolTable be ctx req =
     (if stq_moduleBase req = 0
      then fail InvalidArgument ''module base must not be zero'' False
      else return_if_error (validateContext be ctx True True True) (do {
        transaction \<leftarrow> beginSymbols be ctx;
        case transaction of
          None \<Rightarrow>
            return_if_error (validateContext be ctx True True False)
              (fail ProtocolError ''failed to acquire symbol transaction'' True)
        | Some tx \<Rightarrow> do {
            ms \<leftarrow> sy_fetchModules tx;
            case ms of
              None \<Rightarrow> fail ProtocolError ''failed to fetch modules inside symbol transaction'' True
            | Some modules \<Rightarrow>
                (case validateModules modules of
                   Some err \<Rightarrow> State_Monad.return (failureFrom err)
                 | None \<Rightarrow>
                     (case resolveModuleByBase modules (stq_moduleBase req) of
                        Inl err \<Rightarrow> State_Monad.return (failureFrom err)
                      | Inr m \<Rightarrow> do {
                          i \<leftarrow> sy_initialize tx (mi_base m);
                          case i of
                            None \<Rightarrow> fail ProtocolError ''failed to initialize module symbol table'' True
                          | Some totalCount \<Rightarrow>
                              if totalCount < 0 \<or> nat totalCount > kMaxSymbolCount
                              then fail ProtocolError ''failed to initialize module symbol table'' True
                              else do {
                                loaded \<leftarrow> loadPages tx totalCount 0 0 [];
                                case loaded of
                                  Failure err \<Rightarrow> State_Monad.return (Failure err)
                                | Success items \<Rightarrow>
                                    if length items \<noteq> nat totalCount
                                    then fail ProtocolError
                                      ''symbol table returned an incomplete item count'' False
                                    else return_if_error (validateContext be ctx True True True)
                                      (State_Monad.return (Success
                                         \<lparr>stb_module = m, stb_items = items,
                                          stb_target = the (oc_target ctx)\<rparr>)) }})) }}))"

definition listSymbols ::
    "'w MemRuntime \<Rightarrow> OperationContext \<Rightarrow> SymbolListRequest \<Rightarrow> ('w, SymbolPage Result) state" where
  "listSymbols be ctx req =
     (if slq_moduleBase req = 0 \<or> slq_limit req = 0 \<or> slq_limit req > kMaxSymbolPageSize \<or>
         slq_offset req > INT_MAX
      then fail InvalidArgument ''invalid module base, symbol offset, or page size'' False
      else return_if_error (validateContext be ctx True True True) (do {
        transaction \<leftarrow> beginSymbols be ctx;
        case transaction of
          None \<Rightarrow>
            return_if_error (validateContext be ctx True True False)
              (fail ProtocolError ''failed to acquire symbol transaction'' True)
        | Some tx \<Rightarrow> do {
            ms \<leftarrow> sy_fetchModules tx;
            case ms of
              None \<Rightarrow> fail ProtocolError ''failed to fetch modules inside symbol transaction'' True
            | Some modules \<Rightarrow>
                (case validateModules modules of
                   Some err \<Rightarrow> State_Monad.return (failureFrom err)
                 | None \<Rightarrow>
                     (case resolveModuleByBase modules (slq_moduleBase req) of
                        Inl err \<Rightarrow> State_Monad.return (failureFrom err)
                      | Inr m \<Rightarrow> do {
                          i \<leftarrow> sy_initialize tx (mi_base m);
                          case i of
                            None \<Rightarrow> fail ProtocolError ''failed to initialize module symbol table'' True
                          | Some initializedTotal \<Rightarrow>
                              if initializedTotal < 0 \<or> nat initializedTotal > kMaxSymbolCount
                              then fail ProtocolError ''failed to initialize module symbol table'' True
                              else do {
                                let pageOffset = min (slq_offset req) (nat initializedTotal);
                                let pageLimit = min (slq_limit req) (nat initializedTotal - pageOffset);
                                symbols \<leftarrow>
                                  (if pageLimit > 0
                                   then do {
                                     r \<leftarrow> sy_fetch tx pageOffset pageLimit;
                                     State_Monad.return
                                       (case r of
                                          None \<Rightarrow> None
                                        | Some (symbols, observedTotal) \<Rightarrow>
                                            if observedTotal \<noteq> initializedTotal \<or> symbols = [] \<or>
                                               length symbols > pageLimit
                                            then None else Some symbols) }
                                   else State_Monad.return (Some []));
                                case symbols of
                                  None \<Rightarrow> fail SymbolSessionChanged
                                    ''symbol table changed while its page was being loaded'' False
                                | Some ss \<Rightarrow>
                                    if checkSymbols ss 0 = None
                                    then fail ProtocolError
                                      ''symbol page exceeds the service limit'' False
                                    else return_if_error (validateContext be ctx True True True)
                                      (State_Monad.return (Success
                                         \<lparr>sp_module = m, sp_items = ss,
                                          sp_total = nat initializedTotal, sp_offset = pageOffset,
                                          sp_nextOffset =
                                            (if pageOffset + length ss < nat initializedTotal
                                             then Some (pageOffset + length ss) else None),
                                          sp_target = the (oc_target ctx)\<rparr>)) }})) }}))"

definition resolveSymbol ::
    "'w MemRuntime \<Rightarrow> OperationContext \<Rightarrow> SymbolResolveRequest \<Rightarrow> ('w, ResolvedSymbol Result) state" where
  "resolveSymbol be ctx req =
     (if srq_moduleBase req = 0 \<or> srq_name req = [] \<or> length (srq_name req) > kMaxTextBytes * 16
      then fail InvalidArgument ''invalid module base or symbol name'' False
      else return_if_error (validateContext be ctx True True True) (do {
        transaction \<leftarrow> beginSymbols be ctx;
        case transaction of
          None \<Rightarrow> fail ProtocolError ''failed to acquire symbol transaction'' True
        | Some tx \<Rightarrow> do {
            ms \<leftarrow> sy_fetchModules tx;
            case ms of
              None \<Rightarrow> fail ProtocolError ''failed to fetch modules inside symbol transaction'' True
            | Some modules \<Rightarrow>
                (case resolveModuleByBase modules (srq_moduleBase req) of
                   Inl err \<Rightarrow> State_Monad.return (failureFrom err)
                 | Inr m \<Rightarrow> do {
                     found \<leftarrow> sy_find tx (mi_base m) (srq_name req);
                     case found of
                       None \<Rightarrow>
                         return_if_error (validateContext be ctx True True False)
                           (fail InvalidArgument ''symbol was not found in the requested module'' False)
                     | Some address \<Rightarrow>
                         return_if_error (validateContext be ctx True True True)
                           (State_Monad.return (Success
                              \<lparr>rs_module = m, rs_name = srq_name req, rs_address = address,
                               rs_target = the (oc_target ctx)\<rparr>)) }) }}))"

section \<open>Complete tables\<close>

text \<open>
  \<open>servesTable tx table\<close>: what the transaction answers is a part of one table, from the
  requested offset on, though perhaps less than was asked for.
\<close>

definition servesTable :: "'w IMemSymbolTransaction \<Rightarrow> SymbolInfo list \<Rightarrow> bool" where
  "servesTable tx table \<longleftrightarrow>
     (\<forall>off n w page obs w'. run_state (sy_fetch tx off n) w = (Some (page, obs), w') \<longrightarrow>
        (\<exists>k. page = take k (drop off table)))"

lemma loadPages_step:
  assumes "run_state (loadPages tx c off nb items) w = (Success items', w')" "off < nat c"
  obtains page w1 nb' where "\<not> min kMaxSymbolPageSize (nat c - off) < length page"
    "run_state (sy_fetch tx off (min kMaxSymbolPageSize (nat c - off))) w = (Some (page, c), w1)"
    "run_state (loadPages tx c (off + kMaxSymbolPageSize) nb' (items @ page)) w1 = (Success items', w')"
  using assms loadPages.simps [of tx c off nb items]
  by (auto simp: Let_def elim!: run_bindE split: if_split_asm option.split_asm)

lemma loadPages_complete:
  assumes "run_state (loadPages tx c off nb items) w = (Success items', w')" "off \<le> nat c"
  shows "\<exists>rest. items' = items @ rest \<and> length rest \<le> nat c - off \<and>
    (servesTable tx table \<and> length rest = nat c - off \<longrightarrow>
       rest = take (nat c - off) (drop off table))"
  using assms
proof (induction "nat c - off" arbitrary: off nb items w rule: less_induct)
  case less
  show ?case
  proof (cases "off < nat c")
    case False
    with less.prems show ?thesis by (simp add: loadPages.simps)
  next
    case True
    let ?p = "kMaxSymbolPageSize"
    let ?n = "min ?p (nat c - off)" and ?off = "off + ?p"
    from loadPages_step [OF less.prems(1) True] obtain page w1 nb' where page: "\<not> ?n < length page"
      and fetch: "run_state (sy_fetch tx off ?n) w = (Some (page, c), w1)"
      and rest: "run_state (loadPages tx c ?off nb' (items @ page)) w1 = (Success items', w')" .
    note page = page [unfolded not_less]
    have pos: "0 < ?p" by (simp add: limit_defs)
    have pageq: "page = take ?n (drop off table)" if "servesTable tx table" "length page = ?n"
    proof -
      from that(1) fetch obtain k where "page = take k (drop off table)"
        unfolding servesTable_def by blast
      with that(2) show ?thesis by (metis length_take min.absorb1 min.cobounded2 nle_le take_take take_all_iff length_drop)
    qed
    show ?thesis
    proof (cases "?off \<le> nat c")
      case False
      with rest have "items' = items @ page" by (simp add: loadPages.simps)
      moreover have "?n = nat c - off" using False True by simp
      ultimately show ?thesis using page pageq by auto
    next
      case off: True
      have "nat c - ?off < nat c - off" using True pos by arith
      from less.hyps [OF this rest off] obtain r where r: "items' = items @ page @ r"
        "length r \<le> nat c - ?off"
        "servesTable tx table \<and> length r = nat c - ?off \<longrightarrow> r = take (nat c - ?off) (drop ?off table)"
        by auto
      have n: "?n = ?p" using off by simp
      have "page @ r = take (nat c - off) (drop off table)"
        if "servesTable tx table" "length (page @ r) = nat c - off"
      proof -
        from that(2) r(2) page n off have "length page = ?p" "length r = nat c - ?off" by auto
        with that(1) r(3) pageq n have "page = take ?p (drop off table)"
          "r = take (nat c - ?off) (drop ?off table)" by auto
        moreover have "nat c - off = ?p + (nat c - ?off)" using off by simp
        ultimately show ?thesis by (simp add: take_add add.commute)
      qed
      with r page n off show ?thesis by (intro exI [of _ "page @ r"]) auto
    qed
  qed
qed

text \<open>
  C37. A symbol table is loaded completely or not at all. Against a transaction that
  serves parts of one table and may answer with short pages, a successful load returns as many symbols as
  the initialisation announced, and they are exactly the symbols of the table in its order:
  a short page anywhere makes the load fail.
\<close>

theorem loadSymbolTable_complete:
  assumes run: "run_state (loadSymbolTable be ctx req) w = (Success r, w')"
    and tx: "\<And>w tx w'. run_state (be_beginSymbolTransaction be ctx) w = (Some tx, w') \<Longrightarrow>
      servesTable tx table \<and>
      (\<forall>m w n w'. run_state (sy_initialize tx m) w = (Some n, w') \<longrightarrow> n = int (length table))"
  shows "stb_items r = table \<and> length table \<le> 1000000 \<and> oc_target ctx = Some (stb_target r)"
proof -
  have "\<exists>t c w1 w2 w3 w4 w5 w6 w7 m.
     run_state (be_beginSymbolTransaction be ctx) w1 = (Some t, w2) \<and>
     run_state (sy_initialize t m) w3 = (Some c, w4) \<and> \<not> c < 0 \<and> \<not> nat c > kMaxSymbolCount \<and>
     run_state (loadPages t c 0 0 []) w4 = (Success (stb_items r), w5) \<and>
     length (stb_items r) = nat c \<and> stb_target r = the (oc_target ctx) \<and>
     run_state (validateContext be ctx True True True) w6 = (None, w7)"
    using run unfolding loadSymbolTable_def beginSymbols_def
    by (auto elim!: return_if_error_SuccessE run_bindE
        split: if_split_asm option.split_asm sum.split_asm Result.split_asm) blast
  then obtain t c w1 w2 w3 w4 w5 w6 w7 m where
    t: "run_state (be_beginSymbolTransaction be ctx) w1 = (Some t, w2)"
    and c: "run_state (sy_initialize t m) w3 = (Some c, w4)" "\<not> nat c > kMaxSymbolCount"
    and load: "run_state (loadPages t c 0 0 []) w4 = (Success (stb_items r), w5)"
    and len: "length (stb_items r) = nat c" and tgt: "stb_target r = the (oc_target ctx)"
    and v: "run_state (validateContext be ctx True True True) w6 = (None, w7)"
    by blast
  from tx [OF t] c(1) have "c = int (length table)" by blast
  with loadPages_complete [OF load, of table] tx [OF t] len have "stb_items r = table" by simp
  with len c(2) tgt v show ?thesis by (auto simp: limit_defs elim!: validateContext_target)
qed

definition demo_table :: "SymbolInfo list" where
  "demo_table = [\<lparr>si_address = 0x7010, si_name = ''main''\<rparr>, \<lparr>si_address = 0x7020, si_name = ''tick''\<rparr>]"

definition demo_symbol_transaction :: "unit IMemSymbolTransaction" where
  "demo_symbol_transaction =
     \<lparr>sy_valid = State_Monad.return True,
      sy_fetchModules = State_Monad.return (Some [demo_module]),
      sy_initialize = (\<lambda>_. State_Monad.return (Some 2)),
      sy_fetch = (\<lambda>off n. State_Monad.return (Some (take n (drop off demo_table), 2))),
      sy_find = (\<lambda>_ _. State_Monad.return None)\<rparr>"

definition demo_symbol_runtime :: "unit MemRuntime" where
  "demo_symbol_runtime = rest_runtime
     \<lparr>be_beginSymbolTransaction := \<lambda>_. State_Monad.return (Some demo_symbol_transaction)\<rparr>"

lemma demo_resolveBase: "resolveModuleByBase [demo_module] 0x7000 = Inr demo_module"
  by code_simp

theorem loadSymbolTable_complete_witness:
  "\<exists>r. run_state (loadSymbolTable demo_symbol_runtime rest_context \<lparr>stq_moduleBase = 0x7000\<rparr>) () =
     (Success r, ()) \<and> stb_items r = demo_table"
proof -
  have m: "mi_base demo_module = 0x7000" by (simp add: demo_module_def)
  have tx: "sy_valid demo_symbol_transaction = State_Monad.return True"
    "sy_fetchModules demo_symbol_transaction = State_Monad.return (Some [demo_module])"
    "sy_initialize demo_symbol_transaction b = State_Monad.return (Some 2)"
    "sy_fetch demo_symbol_transaction off n =
       State_Monad.return (Some (take n (drop off demo_table), 2))" for b off n
    by (simp_all add: demo_symbol_transaction_def)
  have load: "loadPages demo_symbol_transaction 2 0 0 [] = State_Monad.return (Success demo_table)"
    by (subst loadPages.simps, subst loadPages.simps)
      (simp add: tx limit_defs demo_table_def Let_def)
  have run: "run_state (loadSymbolTable demo_symbol_runtime rest_context \<lparr>stq_moduleBase = 0x7000\<rparr>) () =
     (Success \<lparr>stb_module = demo_module, stb_items = demo_table, stb_target = rest_target\<rparr>, ())"
    by (simp add: loadSymbolTable_def limit_defs validateContext_rest tx beginSymbols_def
        demo_symbol_runtime_def demo_resolveBase m load) (simp add: demo_table_def)
  have "servesTable demo_symbol_transaction demo_table"
    unfolding servesTable_def tx by auto
  then have tx': "servesTable t demo_table \<and>
      (\<forall>m w n w'. run_state (sy_initialize t m) w = (Some n, w') \<longrightarrow> n = int (length demo_table))"
    if "run_state (be_beginSymbolTransaction demo_symbol_runtime rest_context) w = (Some t, w')" for w t w'
    using that by (auto simp: tx demo_symbol_runtime_def demo_table_def)
  from loadSymbolTable_complete [OF run tx'] run show ?thesis by auto
qed

end
