(* ===== verification/MemServiceFrame.thy ===== *)
theory MemServiceFrame
  imports MemServiceMemory MemServiceBreakpoint MemServiceUxn MemServiceSymbol
begin

text \<open>
  What the queries of the memory service leave alone. \<open>mem_service\<close> extends the contract of the backend: the calls
  that only ask the device hand over no request with an effect, and opening a process preserves the
  backend's invariant. From it every query of the service is shown to have no effect, and every
  operation to preserve the invariant.
\<close>

section \<open>The contract of the queries\<close>

text \<open>
  \<open>quiet_read\<close> and \<open>quiet_symbols\<close> are what a transaction that the backend hands out promises. A symbol
  name is only looked up without loss of the framing when the device accepts its length,
  \<open>kMaxTextBytes\<close>.
\<close>

definition quiet_read :: "('w \<Rightarrow> bool) \<Rightarrow> ('w \<Rightarrow> 'l) \<Rightarrow> 'w IMemReadTransaction \<Rightarrow> bool" where
  "quiet_read invar effects tx \<longleftrightarrow> keeps invar effects (rt_valid tx) \<and>
     keeps invar effects (rt_fetchModules tx) \<and>
     (\<forall>a n. keeps invar effects (rt_readMemory tx a n)) \<and>
     (\<forall>rs. keeps invar effects (rt_readMemoryBatch tx rs))"

definition quiet_symbols :: "('w \<Rightarrow> bool) \<Rightarrow> ('w \<Rightarrow> 'l) \<Rightarrow> 'w IMemSymbolTransaction \<Rightarrow> bool" where
  "quiet_symbols invar effects tx \<longleftrightarrow> keeps invar effects (sy_valid tx) \<and>
     keeps invar effects (sy_fetchModules tx) \<and>
     (\<forall>a. keeps invar effects (sy_initialize tx a)) \<and>
     (\<forall>off n. keeps invar effects (sy_fetch tx off n)) \<and>
     (\<forall>a name. length name \<le> kMaxTextBytes \<longrightarrow> keeps invar effects (sy_find tx a name))"

lemma quiet_readD:
  assumes "quiet_read invar effects tx"
  shows "keeps invar effects (rt_valid tx)" "keeps invar effects (rt_fetchModules tx)"
    "keeps invar effects (rt_readMemory tx a n)" "keeps invar effects (rt_readMemoryBatch tx rs)"
  using assms by (simp_all add: quiet_read_def)

lemma quiet_symbolsD:
  assumes "quiet_symbols invar effects tx"
  shows "keeps invar effects (sy_valid tx)" "keeps invar effects (sy_fetchModules tx)"
    "keeps invar effects (sy_initialize tx a)" "keeps invar effects (sy_fetch tx off n)"
    "length name \<le> kMaxTextBytes \<Longrightarrow> keeps invar effects (sy_find tx a name)"
  using assms by (simp_all add: quiet_symbols_def)

locale mem_service = mem_backend be invar effects
  for be :: "'w MemRuntime" and invar :: "'w \<Rightarrow> bool" and effects :: "'w \<Rightarrow> 'l" +
  assumes queries:
    "keeps invar effects (be_processName be)" "keeps invar effects (be_fetchServerVersion be)"
    "keeps invar effects (be_fetchProcesses be ctx)" "keeps invar effects (be_readMemory be ctx a n)"
    "keeps invar effects (be_readMemoryBatch be ctx rs)"
    "keeps invar effects (be_fetchBreakpointHits be ctx a limit)"
    "keeps invar effects (be_fetchBreakpointSlots be ctx capacity)"
    "keeps invar effects (be_waitUxnBreakpoint be ctx slot timeoutMs sequence)"
    "keeps invar effects (be_queryUxnBreakpointStatus be ctx slot)"
    "keeps invar effects (be_beginReadTransaction be ctx)"
    "keeps invar effects (be_beginSymbolTransaction be ctx)"
  and read_transaction:
    "run_state (be_beginReadTransaction be ctx) w = (Some rtx, w1) \<Longrightarrow> quiet_read invar effects rtx"
  and symbol_transaction:
    "run_state (be_beginSymbolTransaction be ctx) w = (Some stx, w1) \<Longrightarrow> quiet_symbols invar effects stx"
  and open_invar: "keeps invar (\<lambda>_. ()) (be_openProcess be ctx pid name)"

lemma keeps_bind_run:
  assumes "keeps invar f m" "\<And>a s s1. run_state m s = (a, s1) \<Longrightarrow> keeps invar f (g a)"
  shows "keeps invar f (State_Monad.bind m g)"
proof (rule keepsI, elim run_bindE)
  fix s b s' a s1
  assume "invar s" "run_state m s = (a, s1)" "run_state (g a) s1 = (b, s')"
  with keepsD [OF assms(1)] keepsD [OF assms(2)] show "invar s' \<and> f s' = f s" by metis
qed

lemma keeps_case_sum [keeps_intros]:
  "(\<And>a. x = Inl a \<Longrightarrow> keeps invar f (g a)) \<Longrightarrow> (\<And>b. x = Inr b \<Longrightarrow> keeps invar f (h b)) \<Longrightarrow>
     keeps invar f (case x of Inl a \<Rightarrow> g a | Inr b \<Rightarrow> h b)"
  by (cases x) auto

lemma keeps_case_Result [keeps_intros]:
  "(\<And>a. x = Success a \<Longrightarrow> keeps invar f (g a)) \<Longrightarrow> (\<And>e. x = Failure e \<Longrightarrow> keeps invar f (h e)) \<Longrightarrow>
     keeps invar f (case x of Success a \<Rightarrow> g a | Failure e \<Rightarrow> h e)"
  by (cases x) auto

lemma keeps_completed_unless [keeps_intros]:
  "keeps invar f v \<Longrightarrow> keeps invar f k \<Longrightarrow> keeps invar f (completed_unless v msg k)"
  unfolding completed_unless_def by (intro keeps_intros)

lemma keeps_return_if_failure [keeps_intros]:
  "keeps invar f v \<Longrightarrow> keeps invar f k \<Longrightarrow> keeps invar f (return_if_failure v k)"
  unfolding return_if_failure_def by (intro keeps_intros)

lemma keeps_invar: "keeps invar f m \<Longrightarrow> keeps invar (\<lambda>_. ()) m"
  by (auto simp: keeps_def)

section \<open>The queries of the service\<close>

lemma keeps_loadPages:
  assumes "quiet_symbols invar effects tx"
  shows "keeps invar effects (loadPages tx totalCount off nameBytes items)"
  using assms
proof (induction tx totalCount off nameBytes items rule: loadPages.induct)
  case (1 tx totalCount off nameBytes items)
  show ?case
    unfolding loadPages.simps [of tx totalCount off]
    by (intro keeps_intros quiet_symbolsD [OF 1(2)]) (rule 1(1) [OF _ refl _ _ 1(2)]; simp)
qed

context mem_service
begin

lemma capture_frame: "keeps invar effects (captureContext be rt)"
  unfolding captureContext_def by (intro keeps_intros observers)

lemmas query_frame = validate_frame kernel_mode_frame uxn_io_frame observers queries

lemma status_frame: "keeps invar effects (status be ctx)"
  unfolding status_def connectionSnapshot_def by (intro keeps_intros query_frame)

lemma serverVersion_frame: "keeps invar effects (serverVersion be ctx)"
  unfolding serverVersion_def by (intro keeps_intros query_frame)

lemma memoryType_frame: "keeps invar effects (memoryType be ctx)"
  unfolding memoryType_def by (intro keeps_intros query_frame)

lemma listProcesses_frame: "keeps invar effects (listProcesses be ctx req)"
  unfolding listProcesses_def by (intro keeps_intros query_frame)

lemma readMemory_frame: "keeps invar effects (readMemory be ctx req)"
  unfolding readMemory_def by (intro keeps_intros query_frame)

lemma readMemoryBatch_frame: "keeps invar effects (readMemoryBatch be ctx breq)"
  unfolding readMemoryBatch_def by (intro keeps_intros query_frame)

lemma breakpointSlots_frame: "keeps invar effects (breakpointSlots be ctx capacity)"
  unfolding breakpointSlots_def by (intro keeps_intros query_frame)

lemma waitUxn_frame: "keeps invar effects (waitUxnBreakpoint be ctx wreq)"
  unfolding waitUxnBreakpoint_def by (intro keeps_intros query_frame)

lemma queryUxnStatus_frame: "keeps invar effects (queryUxnBreakpointStatus be ctx treq)"
  unfolding queryUxnBreakpointStatus_def by (intro keeps_intros query_frame)

lemma keeps_transaction:
  assumes "\<And>tx. quiet_read invar effects tx \<Longrightarrow> keeps invar effects (k (Some tx))"
    and "keeps invar effects (k None)"
  shows "keeps invar effects (do { t \<leftarrow> be_beginReadTransaction be ctx; k t })"
proof (rule keeps_bind_run [OF queries(10)])
  fix t s s1
  assume "run_state (be_beginReadTransaction be ctx) s = (t, s1)"
  then show "keeps invar effects (k t)"
    using assms read_transaction by (cases t) auto
qed

lemma fetchModulesOnce_frame: "keeps invar effects (fetchModulesOnce be ctx)"
  unfolding fetchModulesOnce_def
  by (rule keeps_transaction) (auto intro!: keeps_intros dest: quiet_readD)

lemma listModules_frame: "keeps invar effects (listModules be ctx mreq)"
  unfolding listModules_def by (intro keeps_intros query_frame fetchModulesOnce_frame)

lemma resolveModule_frame: "keeps invar effects (resolveModule be ctx nreq)"
  unfolding resolveModule_def by (intro keeps_intros query_frame fetchModulesOnce_frame)

lemma dereference_frame:
  "quiet_read invar effects tx \<Longrightarrow> keeps invar effects (dereference be ctx tx a off add)"
  unfolding dereference_def by (intro keeps_intros query_frame quiet_readD)

lemma followOffsets_frame:
  "quiet_read invar effects tx \<Longrightarrow> keeps invar effects (followOffsets be ctx tx a n offs)"
proof (induction offs arbitrary: a n)
  case (Cons off offs)
  then show ?case unfolding followOffsets.simps by (intro keeps_intros query_frame dereference_frame) auto
qed (simp add: keeps_return)

lemma resolvePointer_frame: "keeps invar effects (resolvePointer be ctx preq)"
proof -
  have chain: "keeps invar effects (resolvePointer_chain be ctx preq tx m start)"
    if "quiet_read invar effects tx" for tx m start
    unfolding resolvePointer_chain_def
    by (intro keeps_intros query_frame followOffsets_frame [OF that] dereference_frame [OF that])
  show ?thesis
    unfolding resolvePointer_def
    by (intro keeps_if keeps_fail keeps_return_if_error validate_frame keeps_transaction)
      (auto intro!: keeps_intros query_frame chain dest: quiet_readD(1,2))
qed

lemma beginSymbols_frame:
  assumes "\<And>tx. quiet_symbols invar effects tx \<Longrightarrow> keeps invar effects (k (Some tx))"
    and "keeps invar effects (k None)"
  shows "keeps invar effects (do { t \<leftarrow> beginSymbols be ctx; k t })"
proof -
  have quiet: "quiet_symbols invar effects tx"
    if "run_state (beginSymbols be ctx) w = (Some tx, w1)" for tx w w1
    using that unfolding beginSymbols_def
    by (auto elim!: run_bindE split: option.split_asm if_split_asm) (erule symbol_transaction)
  have "keeps invar effects (beginSymbols be ctx)"
    unfolding beginSymbols_def
  proof (rule keeps_bind_run [OF queries(11)])
    fix t s s1
    assume "run_state (be_beginSymbolTransaction be ctx) s = (t, s1)"
    then show "keeps invar effects (case t of None \<Rightarrow> State_Monad.return None
        | Some tx \<Rightarrow> do { valid \<leftarrow> sy_valid tx; State_Monad.return (if valid then Some tx else None) })"
      by (cases t) (auto intro!: keeps_intros dest: symbol_transaction quiet_symbolsD)
  qed
  then show ?thesis
  proof (rule keeps_bind_run)
    fix t s s1
    assume "run_state (beginSymbols be ctx) s = (t, s1)"
    then show "keeps invar effects (k t)" using quiet assms by (cases t) auto
  qed
qed

lemma loadSymbolTable_frame: "keeps invar effects (loadSymbolTable be ctx treq)"
  unfolding loadSymbolTable_def
  by (intro keeps_if keeps_fail keeps_return_if_error validate_frame beginSymbols_frame)
    (auto simp del: failureFrom_eq intro!: keeps_intros query_frame keeps_loadPages dest: quiet_symbolsD)

lemma listSymbols_frame: "keeps invar effects (listSymbols be ctx lreq)"
  unfolding listSymbols_def
  by (intro keeps_if keeps_fail keeps_return_if_error validate_frame beginSymbols_frame)
    (auto simp del: failureFrom_eq intro!: keeps_intros query_frame dest: quiet_symbolsD)

lemma resolveSymbol_frame:
  "length (srq_name rreq) \<le> kMaxTextBytes \<Longrightarrow> keeps invar effects (resolveSymbol be ctx rreq)"
  unfolding resolveSymbol_def
  by (intro keeps_if keeps_fail keeps_return_if_error validate_frame beginSymbols_frame)
    (auto simp del: failureFrom_eq intro!: keeps_intros query_frame dest: quiet_symbolsD)

section \<open>Hits and process switches\<close>

abbreviation service_invar :: "'w BreakpointServiceState \<Rightarrow> bool" where
  "service_invar s \<equiv> invar (bp_world s)"

abbreviation service_effects :: "'w BreakpointServiceState \<Rightarrow> 'l" where
  "service_effects s \<equiv> effects (bp_world s)"

lemma keeps_counters [keeps_intros]:
  "keeps service_invar service_effects (selectCounterTarget t)"
  "keeps service_invar service_effects (findHitTotal a)"
  "keeps service_invar service_effects (storeHitTotal a n)"
  "keeps service_invar service_effects (eraseHitTotal a)"
  by (auto simp: keeps_def)

lemma keeps_on_world [keeps_intros]:
  "keeps invar effects m \<Longrightarrow> keeps service_invar service_effects (on_world m)"
  by (auto simp: keeps_def elim!: on_worldE)

lemma breakpointHits_frame: "keeps service_invar service_effects (breakpointHits be ctx hreq)"
  unfolding breakpointHits_def by (intro keeps_intros query_frame)

lemma mutateBreakpoint_invar:
  "keeps service_invar (\<lambda>_. ()) (mutateBreakpoint be ctx address action setRequest)"
proof -
  have w: "keeps service_invar (\<lambda>_. ()) (on_world m)" if "keeps invar (\<lambda>_. ()) m" for m :: "('w, 'x) state"
    using that by (auto simp: keeps_def elim!: on_worldE)
  have m: "keeps invar (\<lambda>_. ()) (mutateOnBackend be ctx address action setRequest)"
    using keeps_unlessD [OF mutateOnBackend_started] by (auto simp: keeps_def)
  show ?thesis
    unfolding mutateBreakpoint_def
    by (intro keeps_intros w m keeps_invar [OF validate_frame] keeps_invar [OF keeps_counters(1)]
        keeps_invar [OF keeps_counters(4)])
qed

lemma openProcess_invar: "keeps invar (\<lambda>_. ()) (openProcess be ctx oreq)"
proof -
  note q = keeps_invar [OF validate_frame] keeps_invar [OF observers(4)] keeps_invar [OF queries(1)]
    keeps_invar [OF queries(3)]
  show ?thesis
    unfolding openProcess_def targetMoved_def lookupName_def by (intro keeps_intros q open_invar)
qed

end

end
