(* ===== verification/IpcServer.thy ===== *)
theory IpcServer
  imports IpcJson MemServiceFrame
begin

text \<open>
  The methods of the IPC server, from \<open>gui/ipc/IpcServer.cpp\<close> (lines 222 to 312 and 591 to 1376): one definition per
  registered method, \<open>DispatchRequest\<close> and the end of \<open>HandleClient\<close>. The server's state is
  the memory service it drives and its table of symbols; the service runs on any backend \<open>be\<close>. Log
  lines are left out.

  What the sources take from outside of the repository is the record \<open>IpcLibrary\<close>: the parser and the
  printer of JSON, the text of a library exception and the text of a system error number. The Lua engine is
  part of the repository and not modelled; it is a computation on the server's state.
\<close>

section \<open>State and outcomes\<close>

declare run_state_bind [simp del]

record 'w IpcState =
  ip_service :: "'w BreakpointServiceState"
  ip_legacySymbolTable :: "SymbolTable option"

text \<open>
  A method answers with a JSON value or ends with an exception. \<open>Diverges\<close> is the outcome of a loop that has not
  ended within the number of rounds that the model allows it, \<open>rounds\<close> below.
\<close>

datatype 'a outcome = Returns 'a | Throws IpcException | Diverges

type_synonym 'w Handler = "json \<Rightarrow> ('w IpcState, json outcome) state"

record 'w IpcLibrary =
  li_parse :: "string \<Rightarrow> string + json"
  li_dump :: "json \<Rightarrow> string"
  li_what :: "IpcException \<Rightarrow> string"
  li_errorText :: "int \<Rightarrow> string"
  li_luaInitialize :: "('w IpcState, bool \<times> string) state"
  li_luaExecute :: "string \<Rightarrow> int \<Rightarrow> ('w IpcState, bool \<times> string \<times> string) state"

definition on_service :: "('w BreakpointServiceState, 'a) state \<Rightarrow> ('w IpcState, 'a) state" where
  "on_service m = State (\<lambda>s. case run_state m (ip_service s) of (a, v') \<Rightarrow> (a, s\<lparr>ip_service := v'\<rparr>))"

definition call :: "('w, 'a) state \<Rightarrow> ('w IpcState, 'a) state" where
  "call m = on_service (on_world m)"

definition answer :: "json \<Rightarrow> ('s, json outcome) state" where
  "answer j = State_Monad.return (Returns j)"

definition parsed :: "'a throws \<Rightarrow> ('a \<Rightarrow> ('s, json outcome) state) \<Rightarrow> ('s, json outcome) state" where
  "parsed v k = (case v of Inl e \<Rightarrow> State_Monad.return (Throws e) | Inr a \<Rightarrow> k a)"

section \<open>Answers\<close>

definition utf8 :: "nat list \<Rightarrow> string" where
  "utf8 = map char_of"

definition errorReply :: "string \<Rightarrow> json" where
  "errorReply message = JObject [(''success'', JBool False), (''error'', JString message)]"

definition successReply :: "json \<Rightarrow> json" where
  "successReply result = JObject [(''success'', JBool True), (''result'', result)]"

definition serviceFailure :: "Error \<Rightarrow> json" where
  "serviceFailure e = JObject
     ([(''success'', JBool False),
       (''error'', JString (er_message e)),
       (''error_code'', JString (errorCodeName (er_code e))),
       (''retryable'', JBool (er_retryable e))] @
      (case er_affectedBytes e of
         None \<Rightarrow> [] | Some n \<Rightarrow> [(''result'', JObject [(''written'', JUnsigned n)])]) @
      (case er_nativeCode e of
         None \<Rightarrow> [] | Some n \<Rightarrow> [(''native_error_code'', JInteger n)]))"

text \<open>\<open>respond r f\<close> is \<open>if (!r.ok()) return serviceFailure(r.error());\<close> followed by the answer \<open>f\<close>.\<close>

definition respond :: "('a \<Rightarrow> json) \<Rightarrow> 'a Result \<Rightarrow> ('s, json outcome) state" where
  "respond f r = answer (case r of Failure e \<Rightarrow> serviceFailure e | Success v \<Rightarrow> successReply (f v))"

abbreviation jsize :: "nat \<Rightarrow> json" where
  "jsize n \<equiv> JUnsigned (of_nat n)"

abbreviation ju32 :: "u32 \<Rightarrow> json" where
  "ju32 n \<equiv> JUnsigned (ucast n)"

abbreviation jaddress :: "u64 \<Rightarrow> json" where
  "jaddress a \<equiv> JString (formatAddress a)"

definition ipc_isValidBreakpointSize :: "u32 \<Rightarrow> bool" where
  "ipc_isValidBreakpointSize n \<longleftrightarrow> n = 1 \<or> n = 2 \<or> n = 4 \<or> n = 8"

definition uxnRegistersJson :: "UxnRegisters \<Rightarrow> json" where
  "uxnRegistersJson registers = JObject
     [(''general'', JArray (map jaddress (ur_general registers))),
      (''sp'', jaddress (ur_stackPointer registers)),
      (''pc'', jaddress (ur_programCounter registers)),
      (''pstate'', jaddress (ur_pstate registers))]"

definition uxnEventJson :: "UxnEvent \<Rightarrow> json" where
  "uxnEventJson event = JObject
     [(''slot'', ju32 (ue_slot event)),
      (''pid'', ju32 (ue_pid event)),
      (''tid'', ju32 (ue_tid event)),
      (''state'', ju32 (ue_state event)),
      (''sequence'', JUnsigned (ue_sequence event)),
      (''address'', jaddress (ue_address event)),
      (''page'', jaddress (ue_page event)),
      (''fault_address'', jaddress (ue_faultAddress event)),
      (''esr'', jaddress (ue_esr event)),
      (''hits'', JUnsigned (ue_hits event)),
      (''false_hits'', JUnsigned (ue_falseHits event)),
      (''registers'', uxnRegistersJson (ue_registers event)),
      (''fpsimd'', JObject
        [(''valid'', JBool (ufs_valid (ue_fpsimd event))),
         (''fpsr'', jaddress (ucast (ufs_fpsr (ue_fpsimd event)))),
         (''fpcr'', jaddress (ucast (ufs_fpcr (ue_fpsimd event)))),
         (''vector'', JArray (map (\<lambda>v. JObject
            [(''low'', jaddress (uf_low v)), (''high'', jaddress (uf_high v))])
            (ufs_vector (ue_fpsimd event))))])]"

section \<open>Session and processes\<close>

definition kMaxIpcMemoryTransferBytes :: u32 where
  "kMaxIpcMemoryTransferBytes = 65536"

definition kMaxIpcStringParamBytes :: nat where
  "kMaxIpcStringParamBytes = 4096"

definition kMaxIpcLuaCodeBytes :: nat where
  "kMaxIpcLuaCodeBytes = 262144"

definition kMaxIpcOffsetChainLength :: nat where
  "kMaxIpcOffsetChainLength = 1024"

definition get_status :: "'w MemRuntime \<Rightarrow> 'w Handler" where
  "get_status be p = do {
     ctx \<leftarrow> call (captureContext be False);
     r \<leftarrow> call (status be ctx);
     respond (\<lambda>v. JObject
       [(''connected'', JBool (cs_connected (st_connection v))),
        (''connection_poisoned'', JBool (cs_poisoned (st_connection v))),
        (''connection_generation'', JUnsigned (cs_generation (st_connection v))),
        (''pid'', JInteger (ts_pid (st_target v))),
        (''process_name'', JString (st_processName v)),
        (''handle'', JInteger (ts_processHandle (st_target v))),
        (''process_revision'', JUnsigned (ts_processRevision (st_target v)))]) r }"

definition get_version :: "'w MemRuntime \<Rightarrow> 'w Handler" where
  "get_version be p = do {
     ctx \<leftarrow> call (captureContext be False);
     r \<leftarrow> call (serverVersion be ctx);
     respond (\<lambda>v. JObject
       [(''version'', JInteger (sv_version v)), (''version_string'', JString (sv_versionString v))]) r }"

definition get_architecture :: "'w MemRuntime \<Rightarrow> 'w Handler" where
  "get_architecture be p = do {
     ctx \<leftarrow> call (captureContext be False);
     r \<leftarrow> call (memoryType be ctx);
     respond (\<lambda>v. JObject [(''type'', JInteger (mti_type v)), (''name'', JString (mti_name v))]) r }"

text \<open>
  The loop of \<open>list_processes\<close> asks the device again for every page, so it ends when the list is not longer than
  the next offset. Nothing in the loop bounds the length of the list.
\<close>

fun list_processes_loop ::
    "'w MemRuntime \<Rightarrow> OperationContext \<Rightarrow> nat \<Rightarrow> nat \<Rightarrow> ProcessInfo list \<Rightarrow>
       ('w, ProcessInfo list Result option) state" where
  "list_processes_loop be ctx 0 offset list = State_Monad.return None"
| "list_processes_loop be ctx (Suc rounds) offset list = do {
     r \<leftarrow> listProcesses be ctx \<lparr>plq_filter = [], plq_offset = offset, plq_limit = kMaxProcessPageSize\<rparr>;
     case r of
       Failure e \<Rightarrow> State_Monad.return (Some (Failure e))
     | Success page \<Rightarrow>
         (case pp_nextOffset page of
            None \<Rightarrow> State_Monad.return (Some (Success (list @ pp_items page)))
          | Some next \<Rightarrow> list_processes_loop be ctx rounds next (list @ pp_items page)) }"

definition list_processes :: "nat \<Rightarrow> 'w MemRuntime \<Rightarrow> 'w Handler" where
  "list_processes rounds be p = do {
     ctx \<leftarrow> call (captureContext be False);
     r \<leftarrow> call (list_processes_loop be ctx rounds 0 []);
     case r of
       None \<Rightarrow> State_Monad.return Diverges
     | Some r \<Rightarrow> respond (\<lambda>list. JArray (map (\<lambda>q. JObject
         [(''pid'', JInteger (pi_pid q)), (''name'', JString (pi_name q))]) list)) r }"

definition open_process :: "'w MemRuntime \<Rightarrow> 'w Handler" where
  "open_process be p =
     parsed (getRequiredPositiveIntParam p ''pid'') (\<lambda>pid. do {
     ctx \<leftarrow> call (captureContext be True);
     r \<leftarrow> call (openProcess be ctx \<lparr>opq_pid = pid, opq_name = []\<rparr>);
     respond (\<lambda>v. JObject
       [(''handle'', JInteger (ts_processHandle (opr_target v))),
        (''pid'', JInteger (ts_pid (opr_target v))),
        (''process_name'', JString (opr_name v)),
        (''process_revision'', JUnsigned (ts_processRevision (opr_target v))),
        (''connection_generation'', JUnsigned (ts_connectionGeneration (opr_target v)))]) r })"

definition list_modules :: "'w MemRuntime \<Rightarrow> 'w Handler" where
  "list_modules be p =
     parsed (getStringParam p ''filter'' [] False True kMaxIpcStringParamBytes) (\<lambda>filter.
     parsed (getClampedIntParam p ''offset'' 0 0 (int INT_MAX)) (\<lambda>offset.
     parsed (getClampedIntParam p ''count'' 200 1 1000) (\<lambda>count. do {
     ctx \<leftarrow> call (captureContext be True);
     r \<leftarrow> call (listModules be ctx
       \<lparr>mlq_filter = filter, mlq_offset = nat offset, mlq_limit = nat count\<rparr>);
     respond (\<lambda>v. JObject
       [(''total'', jsize (mp_total v)), (''offset'', jsize (mp_offset v)),
        (''modules'', JArray (map (\<lambda>m. JObject
          [(''base'', jaddress (mi_base m)), (''size'', JUnsigned (mi_size m)),
           (''type'', JInteger (mi_type m)), (''flag'', JInteger (mi_flag m)),
           (''name'', JString (mi_name m))]) (mp_items v)))]) r })))"

section \<open>Memory\<close>

definition read_memory :: "'w MemRuntime \<Rightarrow> 'w Handler" where
  "read_memory be p =
     parsed (ParseAddress p ''address'') (\<lambda>addr.
     parsed (getPositiveSizeParam p ''size'' 256 kMaxIpcMemoryTransferBytes) (\<lambda>size. do {
     ctx \<leftarrow> call (captureContext be True);
     r \<leftarrow> call (readMemory be ctx \<lparr>rq_address = addr, rq_size = size\<rparr>);
     respond (\<lambda>v. JObject
       [(''hex'', JString (BytesToHex (mb_bytes v))), (''size'', jsize (length (mb_bytes v)))]) r }))"

definition write_memory :: "'w MemRuntime \<Rightarrow> 'w Handler" where
  "write_memory be p =
     parsed (ParseAddress p ''address'') (\<lambda>addr.
     parsed (getStringParam p ''hex'' [] True False kMaxRequestBytes) (\<lambda>hexStr.
     parsed (HexToBytes hexStr) (\<lambda>data.
       if data = [] then answer (errorReply ''hex is empty'')
       else if length data > unat kMaxIpcMemoryTransferBytes
       then answer (errorReply ''write data exceeds IPC limit'')
       else do {
         ctx \<leftarrow> call (captureContext be True);
         r \<leftarrow> call (writeMemory be ctx \<lparr>wq_address = addr, wq_bytes = data\<rparr>);
         respond (\<lambda>v. JObject [(''written'', ju32 (wr_writtenBytes v))]) r })))"

text \<open>The items of a batch: \<open>Inl\<close> is the answer of an early return.\<close>

fun batchItems :: "json list \<Rightarrow> u64 \<Rightarrow> (json + MemoryReadRequest list) throws" where
  "batchItems [] totalBytes = Inr (Inr [])"
| "batchItems (item # items) totalBytes =
     bind_throws (ParseAddress item ''address'') (\<lambda>a.
     bind_throws (getPositiveSizeParam item ''size'' 4 kMaxIpcMemoryTransferBytes) (\<lambda>s.
       if totalBytes > kMaxMemoryBatchBytes - ucast s
       then Inr (Inl (errorReply ''read_batch total size exceeds IPC limit''))
       else bind_throws (batchItems items (totalBytes + ucast s)) (\<lambda>r. Inr
         (case r of Inl j \<Rightarrow> Inl j | Inr rest \<Rightarrow> Inr (\<lparr>rq_address = a, rq_size = s\<rparr> # rest)))))"

definition read_batch :: "'w MemRuntime \<Rightarrow> 'w Handler" where
  "read_batch be p =
     (case members p ''addresses'' of
        None \<Rightarrow> State_Monad.return (Throws (invalid_argument ''addresses is required''))
      | Some (JArray addrsArr) \<Rightarrow>
          if addrsArr = [] \<or> length addrsArr > kMaxMemoryBatchCount
          then answer (errorReply (''addresses '' @
            utf8 [0xE6, 0x95, 0xB0, 0xE9, 0x87, 0x8F, 0xE8, 0xB6, 0x85, 0xE5, 0x87, 0xBA, 0xE9, 0x99,
              0x90, 0xE5, 0x88, 0xB6]))
          else parsed (batchItems addrsArr 0) (\<lambda>items.
            case items of
              Inl reply \<Rightarrow> answer reply
            | Inr requests \<Rightarrow> do {
                ctx \<leftarrow> call (captureContext be True);
                r \<leftarrow> call (readMemoryBatch be ctx \<lparr>bq_items = requests\<rparr>);
                respond (\<lambda>v. JArray (map (\<lambda>block. JObject
                  [(''address'', jaddress (mb_address block)),
                   (''hex'', JString (BytesToHex (mb_bytes block)))]) (mbt_items v))) r })
      | Some _ \<Rightarrow> answer (errorReply (''addresses '' @
          utf8 [0xE5, 0xBF, 0x85, 0xE9, 0xA1, 0xBB, 0xE6, 0x98, 0xAF, 0xE6, 0x95, 0xB0, 0xE7, 0xBB, 0x84])))"

section \<open>Breakpoints\<close>

definition set_breakpoint :: "'w MemRuntime \<Rightarrow> 'w Handler" where
  "set_breakpoint be p =
     parsed (ParseAddress p ''address'') (\<lambda>addr.
     parsed (getOptionalPositiveUintParam p ''bp_type'' 2 4) (\<lambda>bpType.
     parsed (getOptionalPositiveUintParam p ''bp_size'' 4 8) (\<lambda>bpSize.
       if bpType < 1 \<or> bpType > 4
       then answer (errorReply (''bp_type '' @
         utf8 [0xE5, 0xBF, 0x85, 0xE9, 0xA1, 0xBB, 0xE5, 0x9C, 0xA8] @ '' 1 '' @
         utf8 [0xE5, 0x88, 0xB0] @ '' 4 '' @ utf8 [0xE4, 0xB9, 0x8B, 0xE9, 0x97, 0xB4]))
       else if \<not> ipc_isValidBreakpointSize bpSize
       then answer (errorReply (''bp_size '' @
         utf8 [0xE5, 0xBF, 0x85, 0xE9, 0xA1, 0xBB, 0xE4, 0xB8, 0xBA] @ '' 1'' @
         utf8 [0xE3, 0x80, 0x81] @ ''2'' @ utf8 [0xE3, 0x80, 0x81] @ ''4 '' @
         utf8 [0xE6, 0x88, 0x96] @ '' 8''))
       else do {
         let bpSize = (if bpType = 4 then 4 else bpSize);
         ctx \<leftarrow> call (captureContext be True);
         r \<leftarrow> on_service (setBreakpoint be ctx
           \<lparr>bsq_address = addr, bsq_access = bpType, bsq_size = bpSize\<rparr>);
         respond (\<lambda>_. JNull) r })))"

definition address_request ::
    "'w MemRuntime \<Rightarrow> ('w MemRuntime \<Rightarrow> OperationContext \<Rightarrow> BreakpointAddressRequest \<Rightarrow>
       ('w BreakpointServiceState, BreakpointMutationReceipt Result) state) \<Rightarrow> 'w Handler" where
  "address_request be operation p =
     parsed (ParseAddress p ''address'') (\<lambda>addr. do {
     ctx \<leftarrow> call (captureContext be True);
     r \<leftarrow> on_service (operation be ctx \<lparr>baq_address = addr\<rparr>);
     respond (\<lambda>_. JNull) r })"

definition remove_breakpoint :: "'w MemRuntime \<Rightarrow> 'w Handler" where
  "remove_breakpoint be = address_request be removeBreakpoint"

definition suspend_breakpoint :: "'w MemRuntime \<Rightarrow> 'w Handler" where
  "suspend_breakpoint be = address_request be suspendBreakpoint"

definition resume_breakpoint :: "'w MemRuntime \<Rightarrow> 'w Handler" where
  "resume_breakpoint be = address_request be resumeBreakpoint"

definition read_bp_info :: "'w MemRuntime \<Rightarrow> 'w Handler" where
  "read_bp_info be p =
     parsed (ParseAddress p ''address'') (\<lambda>addr. do {
     ctx \<leftarrow> call (captureContext be True);
     r \<leftarrow> on_service (breakpointHits be ctx
       \<lparr>bhq_address = addr, bhq_limit = kMaxBreakpointHitCount\<rparr>);
     respond (\<lambda>v. JObject
       [(''total_hits'', jsize (bhb_available v)),
        (''returned'', jsize (length (bhb_items v))),
        (''dropped'', jsize (bhb_dropped v)),
        (''hits'', JArray (map (\<lambda>h. JObject
          [(''hit_addr'', jaddress (bh_hitAddress h)),
           (''hit_time'', JUnsigned (bh_hitTime h)),
           (''pc'', jaddress (bh_programCounter h)),
           (''sp'', jaddress (bh_stackPointer h)),
           (''pstate'', JUnsigned (bh_pstate h)),
           (''regs'', JArray (map (\<lambda>i. JUnsigned (bh_registers h ! i)) [0..<31]))])
          (bhb_items v)))]) r })"

definition slotJson :: "BreakpointSlot \<Rightarrow> json" where
  "slotJson slot = JObject
     [(''event_id'', jaddress (bs_eventId slot)),
      (''module_handle'', jaddress (bs_moduleHandle slot)),
      (''address'', jaddress (bs_address slot)),
      (''tid'', JInteger (bs_tid slot)),
      (''on_cpu'', JInteger (bs_onCpu slot)),
      (''type'', ju32 (bs_type slot)),
      (''length'', ju32 (bs_length slot)),
      (''state'', ju32 (bs_state slot)),
      (''source'', ju32 (bs_source slot)),
      (''flags'', ju32 (bs_flags slot))]"

definition threadJson :: "(int \<Rightarrow> string) \<Rightarrow> BreakpointThreadSlots \<Rightarrow> json" where
  "threadJson errorText thread = JObject
     ([(''tid'', JInteger (bt_tid thread)),
       (''query_succeeded'', JBool (bt_querySucceeded thread)),
       (''error_code'', JInteger (bt_errorCode thread)),
       (''total_count'', ju32 (bt_totalCount thread)),
       (''count'', ju32 (bt_count thread)),
       (''brp_count'', ju32 (bt_brpCount thread)),
       (''wrp_count'', ju32 (bt_wrpCount thread)),
       (''enabled_count'', ju32 (bt_enabledCount thread)),
       (''active_count'', ju32 (bt_activeCount thread)),
       (''perf_count'', ju32 (bt_perfCount thread)),
       (''ptrace_count'', ju32 (bt_ptraceCount thread)),
       (''module_count'', ju32 (bt_moduleCount thread)),
       (''slots'', JArray (map slotJson (bt_slots thread)))] @
      (if \<not> bt_querySucceeded thread \<and> bt_errorCode thread \<noteq> 0
       then [(''error'', JString (errorText (bt_errorCode thread)))] else []))"

definition query_hwbp_slots :: "(int \<Rightarrow> string) \<Rightarrow> 'w MemRuntime \<Rightarrow> 'w Handler" where
  "query_hwbp_slots errorText be p =
     parsed (getPositiveSizeParam p ''capacity'' kMaxBreakpointQueryEntries kMaxBreakpointQueryEntries)
     (\<lambda>capacity. do {
     ctx \<leftarrow> call (captureContext be True);
     r \<leftarrow> call (breakpointSlots be ctx capacity);
     respond (\<lambda>v. JObject
       [(''pid'', JInteger (ts_pid (bss_target v))),
        (''capacity'', ju32 capacity),
        (''thread_count'', jsize (length (bss_threads v))),
        (''successful_threads'', jsize (length (filter bt_querySucceeded (bss_threads v)))),
        (''failed_threads'', jsize (length (filter (\<lambda>t. \<not> bt_querySucceeded t) (bss_threads v)))),
        (''returned_slots'', jsize (sum_list (map (\<lambda>t. length (bt_slots t)) (bss_threads v)))),
        (''threads'', JArray (map (threadJson errorText) (bss_threads v)))]) r })"

definition uxn_install :: "'w MemRuntime \<Rightarrow> 'w Handler" where
  "uxn_install be p =
     parsed (ParseAddress p ''address'') (\<lambda>address. do {
     ctx \<leftarrow> call (captureContext be True);
     r \<leftarrow> call (installUxnBreakpoint be ctx \<lparr>uiq_address = address\<rparr>);
     respond (\<lambda>v. JObject
       [(''slot'', ju32 (uir_slot v)), (''address'', jaddress (uir_address v)),
        (''pid'', JInteger (ts_pid (uir_target v)))]) r })"

definition uxn_remove :: "'w MemRuntime \<Rightarrow> 'w Handler" where
  "uxn_remove be p =
     parsed (ParseAddress p ''address'') (\<lambda>address. do {
     ctx \<leftarrow> call (captureContext be True);
     r \<leftarrow> call (removeUxnBreakpoint be ctx \<lparr>urq_address = address\<rparr>);
     respond (\<lambda>v. JObject
       [(''address'', jaddress (umr_address v)), (''pid'', JInteger (ts_pid (umr_target v)))]) r })"

definition uxn_wait :: "'w MemRuntime \<Rightarrow> 'w Handler" where
  "uxn_wait be p =
     parsed (ParseUxnSlot p ''slot'' kUxnWaitAnySlot) (\<lambda>slot.
     parsed (getOptionalPositiveUintParam p ''timeout_ms'' 1000 kMaxUxnWaitTimeoutMs) (\<lambda>timeoutMs.
     parsed (if contains_key p ''last_sequence'' then ParseAddress p ''last_sequence'' else Inr 0)
     (\<lambda>lastSequence. do {
     ctx \<leftarrow> call (captureContext be True);
     r \<leftarrow> call (waitUxnBreakpoint be ctx
       \<lparr>uwq_slot = slot, uwq_timeoutMs = timeoutMs, uwq_lastSequence = lastSequence\<rparr>);
     respond uxnEventJson r })))"

definition UxnRegisters_default :: UxnRegisters where
  "UxnRegisters_default = \<lparr>ur_general = replicate 31 0, ur_stackPointer = 0, ur_programCounter = 0,
     ur_pstate = 0\<rparr>"

definition uxn_resume :: "'w MemRuntime \<Rightarrow> 'w Handler" where
  "uxn_resume be p =
     parsed (ParseUxnSlot p ''slot'' kUxnWaitAnySlot) (\<lambda>slot.
       if slot = kUxnWaitAnySlot
       then State_Monad.return (Throws (invalid_argument ''slot is required for UXN resume''))
       else parsed
         (case members p ''registers'' of
            None \<Rightarrow> Inr (False, UxnRegisters_default)
          | Some v \<Rightarrow> bind_throws (ParseUxnRegisters v) (\<lambda>registers. Inr (True, registers)))
       (\<lambda>(writeRegisters, registers). do {
       ctx \<leftarrow> call (captureContext be True);
       r \<leftarrow> call (resumeUxnBreakpoint be ctx
         \<lparr>usq_slot = slot, usq_writeRegisters = writeRegisters, usq_registers = registers\<rparr>);
       respond (\<lambda>v. JObject
         [(''slot'', ju32 (umr_slot v)), (''pid'', JInteger (ts_pid (umr_target v))),
          (''registers_written'', JBool writeRegisters)]) r }))"

definition uxn_status :: "'w MemRuntime \<Rightarrow> 'w Handler" where
  "uxn_status be p =
     parsed (ParseUxnSlot p ''slot'' kUxnWaitAnySlot) (\<lambda>slot.
       if slot = kUxnWaitAnySlot
       then State_Monad.return (Throws (invalid_argument ''slot is required for UXN status''))
       else do {
         ctx \<leftarrow> call (captureContext be True);
         r \<leftarrow> call (queryUxnBreakpointStatus be ctx \<lparr>utq_slot = slot\<rparr>);
         respond (\<lambda>st. JObject
           [(''slot'', ju32 (us_slot st)), (''used'', JBool (us_used st)),
            (''pid'', ju32 (us_pid st)), (''tid'', ju32 (us_tid st)),
            (''state'', ju32 (us_state st)), (''last_error'', JInteger (us_lastError st)),
            (''address'', jaddress (us_address st)), (''page'', jaddress (us_page st)),
            (''hits'', JUnsigned (us_hits st)), (''false_hits'', JUnsigned (us_falseHits st)),
            (''step_hits'', JUnsigned (us_stepHits st)), (''resumes'', JUnsigned (us_resumes st)),
            (''sequence'', JUnsigned (us_sequence st))]) r })"

definition uxn_clear :: "'w MemRuntime \<Rightarrow> 'w Handler" where
  "uxn_clear be p = do {
     ctx \<leftarrow> call (captureContext be False);
     r \<leftarrow> call (clearUxnBreakpoints be ctx);
     respond (\<lambda>v. JObject [(''pid'', JInteger (ts_pid (ucr_target v)))]) r }"

section \<open>Scripts, modules and symbols\<close>

definition execute_lua :: "'w IpcLibrary \<Rightarrow> 'w Handler" where
  "execute_lua lib p =
     parsed (getStringParam p ''code'' [] True False kMaxIpcLuaCodeBytes) (\<lambda>code.
     parsed (getClampedIntParam p ''timeout_seconds'' 30 1 30) (\<lambda>timeoutSeconds. do {
       (initialized, initializationError) \<leftarrow> li_luaInitialize lib;
       if \<not> initialized
       then answer (errorReply (''Lua '' @
         utf8 [0xE5, 0xBC, 0x95, 0xE6, 0x93, 0x8E, 0xE5, 0x88, 0x9D, 0xE5, 0xA7, 0x8B, 0xE5, 0x8C, 0x96,
           0xE5, 0xA4, 0xB1, 0xE8, 0xB4, 0xA5] @ '': '' @ initializationError))
       else do {
         (success, error, output) \<leftarrow> li_luaExecute lib code timeoutSeconds;
         answer
           (if \<not> success
            then JObject [(''success'', JBool False), (''error'', JString error), (''output'', JString output)]
            else successReply (JObject [(''output'', JString output)])) } }))"

definition get_module_base :: "'w MemRuntime \<Rightarrow> 'w Handler" where
  "get_module_base be p =
     parsed (getStringParam p ''name'' [] True False kMaxIpcStringParamBytes) (\<lambda>name. do {
     ctx \<leftarrow> call (captureContext be True);
     r \<leftarrow> call (resolveModule be ctx \<lparr>mrq_name = name\<rparr>);
     respond (\<lambda>v. JObject [(''base'', jaddress (mi_base (rm_module v)))]) r })"

definition resolve_offset_chain :: "'w MemRuntime \<Rightarrow> 'w Handler" where
  "resolve_offset_chain be p =
     parsed (getStringParam p ''module'' [] True False kMaxIpcStringParamBytes) (\<lambda>moduleName.
     parsed (ParseAddress p ''base_offset'') (\<lambda>baseOffset.
     parsed
       (case members p ''offsets'' of
          None \<Rightarrow> Inr []
        | Some (JArray offsetValues) \<Rightarrow>
            if length offsetValues > kMaxIpcOffsetChainLength then throw ''offsets is too long''
            else parseAddresses offsetValues ''offset''
        | Some _ \<Rightarrow> throw ''offsets must be an array'') (\<lambda>offsets.
     parsed (getOptionalBoolParam p ''deref_final'' True) (\<lambda>derefFinal. do {
     ctx \<leftarrow> call (captureContext be True);
     r \<leftarrow> call (resolvePointer be ctx
       \<lparr>prq_moduleName = moduleName, prq_baseOffset = baseOffset, prq_offsets = offsets,
        prq_dereferenceFinal = derefFinal\<rparr>);
     respond (\<lambda>v. JObject
       [(''address'', jaddress (pr_address v)), (''module_base'', jaddress (mi_base (pr_module v))),
        (''dereference_count'', jsize (pr_dereferenceCount v))]) r }))))"

definition symbol_init :: "'w MemRuntime \<Rightarrow> 'w Handler" where
  "symbol_init be p =
     parsed (ParseAddress p ''module_base'') (\<lambda>moduleBase. do {
     ctx \<leftarrow> call (captureContext be True);
     r \<leftarrow> call (loadSymbolTable be ctx \<lparr>stq_moduleBase = moduleBase\<rparr>);
     case r of
       Failure e \<Rightarrow> answer (serviceFailure e)
     | Success table \<Rightarrow> do {
         State_Monad.update (\<lambda>s. s\<lparr>ip_legacySymbolTable := Some table\<rparr>);
         answer (successReply (JObject [(''total_count'', jsize (length (stb_items table)))])) } })"

definition symbolsReply :: "SymbolInfo list \<Rightarrow> nat \<Rightarrow> nat \<Rightarrow> json" where
  "symbolsReply symbols totalCount pageOffset = successReply (JObject
     [(''total'', jsize totalCount), (''offset'', jsize pageOffset),
      (''symbols'', JArray (map (\<lambda>symbol. JObject
        [(''address'', jaddress (si_address symbol)), (''name'', JString (si_name symbol))]) symbols))])"

definition symbol_list :: "'w MemRuntime \<Rightarrow> 'w Handler" where
  "symbol_list be p =
     parsed (getClampedIntParam p ''offset'' 0 0 (int INT_MAX)) (\<lambda>offset.
     parsed (getClampedIntParam p ''count'' 100 1 1000) (\<lambda>count.
     parsed
       (case members p ''module_base'' of
          None \<Rightarrow> Inr None
        | Some v \<Rightarrow>
            if v = JNull \<or> v = JString [] then Inr None
            else bind_throws (ParseAddress p ''module_base'') (\<lambda>a. Inr (Some a))) (\<lambda>moduleBase.
     case moduleBase of
       Some base \<Rightarrow> do {
         ctx \<leftarrow> call (captureContext be True);
         r \<leftarrow> call (listSymbols be ctx
           \<lparr>slq_moduleBase = base, slq_offset = nat offset, slq_limit = nat count\<rparr>);
         case r of
           Failure e \<Rightarrow> answer (serviceFailure e)
         | Success v \<Rightarrow> answer (symbolsReply (sp_items v) (sp_total v) (sp_offset v)) }
     | None \<Rightarrow> do {
         current \<leftarrow> call (captureContext be True);
         s \<leftarrow> State_Monad.get;
         answer
           (case (ip_legacySymbolTable s, oc_target current) of
              (Some table, Some target) \<Rightarrow>
                if stb_target table = target
                then
                  let totalCount = length (stb_items table);
                      pageOffset = min (nat offset) totalCount;
                      end = min totalCount (pageOffset + nat count)
                  in symbolsReply (take (end - pageOffset) (drop pageOffset (stb_items table)))
                       totalCount pageOffset
                else JObject [(''success'', JBool False),
                       (''error'', JString ''symbol table is not initialized for the current target''),
                       (''error_code'', JString ''symbol_session_changed''), (''retryable'', JBool False)]
            | _ \<Rightarrow> JObject [(''success'', JBool False),
                       (''error'', JString ''symbol table is not initialized for the current target''),
                       (''error_code'', JString ''symbol_session_changed''), (''retryable'', JBool False)]) })))"

definition symbol_find :: "'w MemRuntime \<Rightarrow> 'w Handler" where
  "symbol_find be p =
     parsed (ParseAddress p ''module_base'') (\<lambda>moduleBase.
     parsed (getStringParam p ''name'' [] True False kMaxIpcStringParamBytes) (\<lambda>name. do {
     ctx \<leftarrow> call (captureContext be True);
     r \<leftarrow> call (resolveSymbol be ctx \<lparr>srq_moduleBase = moduleBase, srq_name = name\<rparr>);
     respond (\<lambda>v. JObject [(''address'', jaddress (rs_address v))]) r }))"

section \<open>Dispatch\<close>

definition RegisterBuiltinMethods :: "'w IpcLibrary \<Rightarrow> nat \<Rightarrow> 'w MemRuntime \<Rightarrow> (string \<times> 'w Handler) list" where
  "RegisterBuiltinMethods lib rounds be =
     [(''get_status'', get_status be), (''get_version'', get_version be),
      (''get_architecture'', get_architecture be), (''list_processes'', list_processes rounds be),
      (''open_process'', open_process be), (''list_modules'', list_modules be),
      (''read_memory'', read_memory be), (''write_memory'', write_memory be),
      (''read_batch'', read_batch be), (''set_breakpoint'', set_breakpoint be),
      (''remove_breakpoint'', remove_breakpoint be), (''suspend_breakpoint'', suspend_breakpoint be),
      (''resume_breakpoint'', resume_breakpoint be), (''read_bp_info'', read_bp_info be),
      (''query_hwbp_slots'', query_hwbp_slots (li_errorText lib) be), (''uxn_install'', uxn_install be),
      (''uxn_remove'', uxn_remove be), (''uxn_wait'', uxn_wait be), (''uxn_resume'', uxn_resume be),
      (''uxn_status'', uxn_status be), (''uxn_clear'', uxn_clear be), (''execute_lua'', execute_lua lib),
      (''get_module_base'', get_module_base be), (''resolve_offset_chain'', resolve_offset_chain be),
      (''symbol_init'', symbol_init be), (''symbol_list'', symbol_list be), (''symbol_find'', symbol_find be)]"

definition DispatchRequest :: "'w IpcLibrary \<Rightarrow> nat \<Rightarrow> 'w MemRuntime \<Rightarrow> 'w Handler" where
  "DispatchRequest lib rounds be request =
     (case members request ''method'' of
        Some (JString method) \<Rightarrow>
          let params = (case members request ''params'' of None \<Rightarrow> JObject [] | Some v \<Rightarrow> v) in
          if \<not> is_object params then answer (errorReply ''params must be an object'')
          else (case map_of (RegisterBuiltinMethods lib rounds be) method of
            None \<Rightarrow> answer (errorReply
              (utf8 [0xE6, 0x9C, 0xAA, 0xE7, 0x9F, 0xA5, 0xE6, 0x96, 0xB9, 0xE6, 0xB3, 0x95] @ '': '' @ method))
          | Some handler \<Rightarrow> do {
              r \<leftarrow> handler params;
              case r of
                Throws e \<Rightarrow> answer (errorReply
                  (utf8 [0xE6, 0x89, 0xA7, 0xE8, 0xA1, 0x8C, 0xE9, 0x94, 0x99, 0xE8, 0xAF, 0xAF] @ '': '' @
                   li_what lib e))
              | _ \<Rightarrow> State_Monad.return r })
      | _ \<Rightarrow> answer (errorReply
          (utf8 [0xE7, 0xBC, 0xBA, 0xE5, 0xB0, 0x91] @ '' method '' @
           utf8 [0xE5, 0xAD, 0x97, 0xE6, 0xAE, 0xB5])))"

definition reasonPhrase :: "nat \<Rightarrow> string" where
  "reasonPhrase statusCode =
     (if statusCode = 200 then ''OK'' else if statusCode = 400 then ''Bad Request''
      else if statusCode = 403 then ''Forbidden'' else if statusCode = 404 then ''Not Found''
      else if statusCode = 405 then ''Method Not Allowed'' else if statusCode = 413 then ''Payload Too Large''
      else if statusCode = 415 then ''Unsupported Media Type''
      else if statusCode = 500 then ''Internal Server Error'' else ''Unknown'')"

definition BuildHttpResponse :: "nat \<Rightarrow> string \<Rightarrow> string" where
  "BuildHttpResponse statusCode body =
     ''HTTP/1.1 '' @ decimal statusCode @ '' '' @ reasonPhrase statusCode @ CRLF @
     ''Content-Type: application/json; charset=utf-8'' @ CRLF @
     ''X-Content-Type-Options: nosniff'' @ CRLF @
     ''Content-Length: '' @ decimal (length body) @ CRLF @
     ''Connection: close'' @ CRLF @
     CRLF @
     body"

text \<open>
  \<open>handleBody\<close> is the part of \<open>HandleClient\<close> from \<open>json::parse\<close> on, and \<open>HandleClient\<close> is the whole: the chunks that \<open>recv\<close>
  returns go in, the bytes for \<open>send\<close> come out. \<open>ScopedTimeout\<close> bounds the socket calls below, whose
  failures the backend has already.
\<close>

definition handleBody ::
    "'w IpcLibrary \<Rightarrow> nat \<Rightarrow> 'w MemRuntime \<Rightarrow> string \<Rightarrow> ('w IpcState, (nat \<times> json) option) state" where
  "handleBody lib rounds be body =
     (case li_parse lib body of
        Inl what \<Rightarrow> State_Monad.return (Some (400, errorReply (''JSON '' @
          utf8 [0xE8, 0xA7, 0xA3, 0xE6, 0x9E, 0x90, 0xE9, 0x94, 0x99, 0xE8, 0xAF, 0xAF] @ '': '' @ what)))
      | Inr request \<Rightarrow>
          (case requestTimeoutSeconds request of
             Inl e \<Rightarrow> State_Monad.return (Some (500, errorReply (li_what lib e)))
           | Inr seconds \<Rightarrow> do {
               r \<leftarrow> DispatchRequest lib rounds be request;
               State_Monad.return
                 (case r of
                    Returns response \<Rightarrow> Some (200, response)
                  | Throws e \<Rightarrow> Some (500, errorReply (li_what lib e))
                  | Diverges \<Rightarrow> None) }))"

definition HandleClient ::
    "'w IpcLibrary \<Rightarrow> nat \<Rightarrow> 'w MemRuntime \<Rightarrow> string list \<Rightarrow> ('w IpcState, string option) state" where
  "HandleClient lib rounds be chunks = do {
     r \<leftarrow> (case readRequest chunks of
       Rejected earlyStatusCode earlyError \<Rightarrow>
         State_Monad.return (Some (earlyStatusCode, errorReply earlyError))
     | NoHeader \<Rightarrow> State_Monad.return (Some (400, errorReply ''Invalid HTTP request''))
     | TooLarge \<Rightarrow> State_Monad.return (Some (413, errorReply ''HTTP request too large''))
     | IncompleteBody \<Rightarrow> State_Monad.return (Some (400, errorReply ''Incomplete HTTP request body''))
     | Body body \<Rightarrow> handleBody lib rounds be body);
     State_Monad.return (map_option (\<lambda>(statusCode, response).
       BuildHttpResponse statusCode (li_dump lib response)) r) }"

section \<open>Every answer has the shape that clients rely on\<close>

text \<open>
  A client reads \<open>success\<close>, then \<open>result\<close> or \<open>error\<close>. \<open>replies d m\<close>: whatever \<open>m\<close> answers has that
  shape, and \<open>m\<close> may only diverge when \<open>d\<close> holds.
\<close>

definition wellFormedReply :: "json \<Rightarrow> bool" where
  "wellFormedReply j \<longleftrightarrow>
     (members j ''success'' = Some (JBool True) \<and> contains_key j ''result'') \<or>
     (members j ''success'' = Some (JBool False) \<and> (\<exists>m. members j ''error'' = Some (JString m)))"

definition replies :: "bool \<Rightarrow> ('s, json outcome) state \<Rightarrow> bool" where
  "replies d m \<longleftrightarrow> (\<forall>s r s'. run_state m s = (r, s') \<longrightarrow>
     (case r of Returns j \<Rightarrow> wellFormedReply j | Throws e \<Rightarrow> True | Diverges \<Rightarrow> d))"

named_theorems replies_intros

lemma wellFormed_simps [simp]:
  "wellFormedReply (errorReply m)" "wellFormedReply (successReply r)" "wellFormedReply (serviceFailure e)"
  by (auto simp: wellFormedReply_def errorReply_def successReply_def serviceFailure_def members_def)

lemma replies_answer [replies_intros]: "wellFormedReply j \<Longrightarrow> replies d (answer j)"
  by (auto simp: replies_def answer_def)

lemma replies_other [replies_intros]:
  "replies d (State_Monad.return (Throws e))" "replies True (State_Monad.return Diverges)"
  by (auto simp: replies_def)

lemma replies_respond [replies_intros]: "replies d (respond f r)"
  unfolding respond_def by (rule replies_answer) (auto split: Result.split)

lemma replies_bind [replies_intros]: "(\<And>a. replies d (k a)) \<Longrightarrow> replies d (State_Monad.bind m k)"
  unfolding replies_def by (blast elim: run_bindE)

lemma replies_parsed [replies_intros]: "(\<And>a. replies d (k a)) \<Longrightarrow> replies d (parsed v k)"
  unfolding parsed_def by (cases v) (auto intro: replies_other)

lemma replies_if [replies_intros]: "replies d m \<Longrightarrow> replies d n \<Longrightarrow> replies d (if b then m else n)"
  by simp

lemma replies_let [replies_intros]: "replies d (k x) \<Longrightarrow> replies d (let y = x in k y)"
  by simp

lemma replies_case [replies_intros]:
  "(\<And>a b. replies d (g a b)) \<Longrightarrow> replies d (case x of (a, b) \<Rightarrow> g a b)"
  "replies d n \<Longrightarrow> (\<And>a. replies d (h a)) \<Longrightarrow> replies d (case y of None \<Rightarrow> n | Some a \<Rightarrow> h a)"
  "(\<And>a. replies d (l a)) \<Longrightarrow> (\<And>b. replies d (r b)) \<Longrightarrow> replies d (case z of Inl a \<Rightarrow> l a | Inr b \<Rightarrow> r b)"
  "(\<And>a. replies d (p a)) \<Longrightarrow> (\<And>e. replies d (q e)) \<Longrightarrow> replies d (case u of Success a \<Rightarrow> p a | Failure e \<Rightarrow> q e)"
  by (simp_all split: prod.split option.split sum.split Result.split)

lemma replies_json_case [replies_intros]:
  assumes "\<And>xs. replies d (f xs)" "replies d n"
  shows "replies d (case v of JArray xs \<Rightarrow> f xs | _ \<Rightarrow> n)"
  using assms by (cases v) auto

lemma map_sum_Inl [simp]: "(case r of Inl a \<Rightarrow> Inl a | Inr b \<Rightarrow> Inr (g b)) = Inl j \<longleftrightarrow> r = Inl j"
  by (cases r) auto

lemma batchItems_reply: "batchItems items n = Inr (Inl j) \<Longrightarrow> wellFormedReply j"
  by (induction items n rule: batchItems.induct) (auto simp: bind_throws_Inr split: if_split_asm)

lemma replies_queries [replies_intros]:
  "replies d (get_status be p)" "replies d (get_version be p)" "replies d (get_architecture be p)"
  "replies True (list_processes rounds be p)" "replies d (open_process be p)" "replies d (list_modules be p)"
  "replies d (read_memory be p)" "replies d (read_bp_info be p)" "replies d (query_hwbp_slots et be p)"
  "replies d (get_module_base be p)" "replies d (resolve_offset_chain be p)" "replies d (symbol_find be p)"
  unfolding get_status_def get_version_def get_architecture_def list_processes_def open_process_def
    list_modules_def read_memory_def read_bp_info_def query_hwbp_slots_def get_module_base_def
    resolve_offset_chain_def symbol_find_def
  by (intro replies_intros)+

lemma replies_mutations [replies_intros]:
  "replies d (write_memory be p)" "replies d (set_breakpoint be p)" "replies d (remove_breakpoint be p)"
  "replies d (suspend_breakpoint be p)" "replies d (resume_breakpoint be p)" "replies d (uxn_install be p)"
  "replies d (uxn_remove be p)" "replies d (uxn_wait be p)" "replies d (uxn_resume be p)"
  "replies d (uxn_status be p)" "replies d (uxn_clear be p)"
  unfolding write_memory_def set_breakpoint_def remove_breakpoint_def suspend_breakpoint_def
    resume_breakpoint_def address_request_def uxn_install_def uxn_remove_def uxn_wait_def uxn_resume_def
    uxn_status_def uxn_clear_def
  by (intro replies_intros wellFormed_simps)+

lemma replies_read_batch [replies_intros]: "replies d (read_batch be p)"
proof -
  have batch: "replies d (parsed (batchItems xs 0) (\<lambda>items. case items of Inl reply \<Rightarrow> answer reply | Inr rs \<Rightarrow> k rs))"
    if "\<And>rs. replies d (k rs)" for xs and k :: "MemoryReadRequest list \<Rightarrow> ('w IpcState, json outcome) state"
    using that batchItems_reply [of xs 0]
    by (auto simp: parsed_def intro: replies_intros split: sum.split)
  show ?thesis
    unfolding read_batch_def
    by (intro replies_json_case replies_case(2) replies_if batch replies_answer replies_bind
        replies_respond replies_other wellFormed_simps)
qed

lemma replies_execute_lua [replies_intros]: "replies d (execute_lua lib p)"
  unfolding execute_lua_def
  by (intro replies_intros wellFormed_simps) (auto simp: wellFormedReply_def successReply_def members_def)

lemma replies_symbols [replies_intros]: "replies d (symbol_init be p)" "replies d (symbol_list be p)"
  unfolding symbol_init_def symbol_list_def
  by (intro replies_intros wellFormed_simps;
      auto simp: symbolsReply_def wellFormedReply_def successReply_def members_def Let_def
        split: option.split)+

lemma handler_replies:
  assumes "map_of (RegisterBuiltinMethods lib rounds be) method = Some handler"
  shows "replies (method = ''list_processes'') (handler p)"
  using assms unfolding RegisterBuiltinMethods_def
  by (auto split: if_split_asm intro: replies_intros)

lemma repliesD:
  "replies d m \<Longrightarrow> run_state m s = (r, s') \<Longrightarrow>
     case r of Returns j \<Rightarrow> wellFormedReply j | Throws e \<Rightarrow> True | Diverges \<Rightarrow> d"
  unfolding replies_def by blast

lemma caught_run:
  assumes "replies d m"
    and "run_state (do { r \<leftarrow> m; case r of Throws e \<Rightarrow> answer (errorReply (t e)) | _ \<Rightarrow> State_Monad.return r }) s =
      (r, s')"
  shows "case r of Returns j \<Rightarrow> wellFormedReply j | Throws e \<Rightarrow> False | Diverges \<Rightarrow> d"
  using assms(2)
proof (rule run_bindE)
  fix a s1
  assume m: "run_state m s = (a, s1)"
    and "run_state (case a of Throws e \<Rightarrow> answer (errorReply (t e)) | _ \<Rightarrow> State_Monad.return a) s1 = (r, s')"
  with repliesD [OF assms(1) m] show ?thesis by (cases a) (auto simp: answer_def)
qed

text \<open>
  C17. Whatever request a client sends and whatever the backend does, the dispatcher answers with an
  object whose \<open>success\<close> is a boolean, with a \<open>result\<close> when it is true and a text in \<open>error\<close> when it is
  false. No exception leaves it, and no method but \<open>list_processes\<close> has a loop that could run
  without end.
\<close>

theorem DispatchRequest_answers:
  "case fst (run_state (DispatchRequest lib rounds be request) s) of
     Returns j \<Rightarrow> wellFormedReply j
   | Throws e \<Rightarrow> False
   | Diverges \<Rightarrow> members request ''method'' = Some (JString ''list_processes'')"
proof -
  obtain r s' where run: "run_state (DispatchRequest lib rounds be request) s = (r, s')" by fastforce
  have "case r of Returns j \<Rightarrow> wellFormedReply j | Throws e \<Rightarrow> False
    | Diverges \<Rightarrow> members request ''method'' = Some (JString ''list_processes'')"
    using run unfolding DispatchRequest_def Let_def
    by (auto simp: answer_def [of "errorReply _"] dest!: caught_run [OF handler_replies, rotated]
        split: option.split_asm json.split_asm if_split_asm outcome.splits)
  with run show ?thesis by simp
qed

section \<open>Registers\<close>

text \<open>
  The registers of a paused thread survive the trip through an IPC client: what the server prints for an
  event of \<open>uxn_wait\<close> is read back by \<open>uxn_resume\<close> as the same registers.
\<close>

theorem ParseUxnRegisters_uxnRegistersJson:
  assumes "length (ur_general r) = 31"
  shows "ParseUxnRegisters (uxnRegistersJson r) = Inr r"
proof -
  have "members (uxnRegistersJson r) ''general'' = Some (JArray (map jaddress (ur_general r)))"
    by (simp add: uxnRegistersJson_def members_def)
  moreover have "ParseAddress (uxnRegistersJson r) ''sp'' = Inr (ur_stackPointer r)"
    "ParseAddress (uxnRegistersJson r) ''pc'' = Inr (ur_programCounter r)"
    "ParseAddress (uxnRegistersJson r) ''pstate'' = Inr (ur_pstate r)"
    by (rule ParseAddress_printed; simp add: uxnRegistersJson_def members_def)+
  ultimately show ?thesis
    using assms by (simp add: ParseUxnRegisters_def parseAddresses_printed)
qed

theorem ParseUxnRegisters_uxnRegistersJson_witness:
  "ParseUxnRegisters (uxnRegistersJson UxnRegisters_default) = Inr UxnRegisters_default"
  by (rule ParseUxnRegisters_uxnRegistersJson) (simp add: UxnRegisters_default_def)

end
