(* ===== verification/IpcContract.thy ===== *)
theory IpcContract
  imports IpcServer
begin

text \<open>
  What an IPC client may rely on, for every backend that honours the contract \<open>mem_service\<close>: no method breaks the
  invariant of the backend, the queries have no effect on the device, and an answer marked
  retryable means that nothing has been done. The end of the loop of \<open>list_processes\<close> is shown under a
  bound on the length of the device's list.
\<close>

declare run_state_bind [simp del]

section \<open>Running on the server's state\<close>

abbreviation ipc_world :: "'w IpcState \<Rightarrow> 'w" where
  "ipc_world s \<equiv> bp_world (ip_service s)"

lemma on_serviceE:
  assumes "run_state (on_service m) s = (a, s')"
  obtains v' where "run_state m (ip_service s) = (a, v')" "s' = s\<lparr>ip_service := v'\<rparr>"
  using assms by (auto simp: on_service_def split: prod.splits)

lemma callE:
  assumes "run_state (call m) s = (a, s')"
  obtains w' where "run_state m (ipc_world s) = (a, w')" "ipc_world s' = w'"
    "ip_legacySymbolTable s' = ip_legacySymbolTable s"
  using assms unfolding call_def by (elim on_serviceE on_worldE) auto

lemma run_answer [simp]: "run_state (answer j) s = (r, s') \<longleftrightarrow> r = Returns j \<and> s' = s"
  by (auto simp: answer_def)

lemma run_respond [simp]:
  "run_state (respond f v) s = (r, s') \<longleftrightarrow>
     r = Returns (case v of Failure e \<Rightarrow> serviceFailure e | Success a \<Rightarrow> successReply (f a)) \<and> s' = s"
  by (simp add: respond_def)

lemma run_parsed_Returns:
  "run_state (parsed v k) s = (Returns j, s') \<longleftrightarrow> (\<exists>a. v = Inr a \<and> run_state (k a) s = (Returns j, s'))"
  by (cases v) (auto simp: parsed_def)

definition marks_retryable :: "json \<Rightarrow> bool" where
  "marks_retryable j \<longleftrightarrow> members j ''retryable'' = Some (JBool True)"

lemma marks_retryable_simps [simp]:
  "\<not> marks_retryable (successReply r)" "\<not> marks_retryable (errorReply m)"
  "marks_retryable (serviceFailure e) \<longleftrightarrow> er_retryable e"
  by (auto simp: marks_retryable_def successReply_def errorReply_def serviceFailure_def members_def)

lemma serviceFailure_native [simp]:
  "members (serviceFailure e) ''native_error_code'' = map_option JInteger (er_nativeCode e)"
  by (auto simp: serviceFailure_def members_def split: option.split)

section \<open>Dispatch\<close>

text \<open>
  A dispatched request is answered by the dispatcher itself, with an error and without a change of
  state, or by the handler of its method.
\<close>

definition asks_for :: "json \<Rightarrow> string \<Rightarrow> bool" where
  "asks_for request route \<longleftrightarrow> members request ''method'' = Some (JString route)"

definition request_params :: "json \<Rightarrow> json" where
  "request_params request = (case members request ''params'' of None \<Rightarrow> JObject [] | Some v \<Rightarrow> v)"

lemma DispatchRequestE:
  assumes "run_state (DispatchRequest lib rounds be request) s = (r, s')"
  obtains m where "r = Returns (errorReply m)" "s' = s"
  | route handler e m where "asks_for request route"
      "map_of (RegisterBuiltinMethods lib rounds be) route = Some handler"
      "run_state (handler (request_params request)) s = (Throws e, s')" "r = Returns (errorReply m)"
  | route handler where "asks_for request route"
      "map_of (RegisterBuiltinMethods lib rounds be) route = Some handler"
      "run_state (handler (request_params request)) s = (r, s')" "\<And>e. r \<noteq> Throws e"
proof (cases "\<exists>route handler. asks_for request route \<and> is_object (request_params request) \<and>
    map_of (RegisterBuiltinMethods lib rounds be) route = Some handler")
  case True
  then obtain route handler where m: "asks_for request route" "is_object (request_params request)"
    "map_of (RegisterBuiltinMethods lib rounds be) route = Some handler" by blast
  have "members request ''params'' = None \<or> (\<exists>v. members request ''params'' = Some v)" by auto
  with assms m obtain a s1 where a: "run_state (handler (request_params request)) s = (a, s1)"
    "run_state (case a of Throws e \<Rightarrow> answer (errorReply
        (utf8 [0xE6, 0x89, 0xA7, 0xE8, 0xA1, 0x8C, 0xE9, 0x94, 0x99, 0xE8, 0xAF, 0xAF] @ '': '' @
         li_what lib e)) | _ \<Rightarrow> State_Monad.return a) s1 = (r, s')"
    unfolding DispatchRequest_def asks_for_def request_params_def by (auto elim!: run_bindE)
  then show thesis using that(2,3) m by (cases a) auto
next
  case False
  then show thesis
    using assms that(1) unfolding DispatchRequest_def asks_for_def request_params_def Let_def
    by (auto split: option.split_asm json.split_asm if_split_asm)
qed

section \<open>Queries\<close>

lemma keeps_answers [keeps_intros]:
  "keeps invar f (answer j)" "keeps invar f (respond g v)"
  "(\<And>a. x = Inr a \<Longrightarrow> keeps invar f (k a)) \<Longrightarrow> keeps invar f (parsed x k)"
  by (auto simp: keeps_def parsed_def split: sum.split)

lemma keeps_get [keeps_intros]: "keeps invar f State_Monad.get"
  by (auto simp: keeps_def State_Monad.get_def)

lemma keeps_json_case [keeps_intros]:
  assumes "\<And>xs. keeps invar f (g xs)" "keeps invar f n"
  shows "keeps invar f (case v of JArray xs \<Rightarrow> g xs | _ \<Rightarrow> n)"
  using assms by (cases v) auto

lemma getStringParam_length:
  "getStringParam p key d r e n = Inr v \<Longrightarrow> length d \<le> n \<Longrightarrow> length v \<le> n"
  by (auto simp: getStringParam_def throw_def split: option.split_asm json.split_asm if_split_asm)

context mem_service
begin

abbreviation ipc_invar :: "'w IpcState \<Rightarrow> bool" where
  "ipc_invar s \<equiv> invar (ipc_world s)"

abbreviation ipc_effects :: "'w IpcState \<Rightarrow> 'l" where
  "ipc_effects s \<equiv> effects (ipc_world s)"

lemma keeps_on_service: "keeps service_invar service_effects m \<Longrightarrow> keeps ipc_invar ipc_effects (on_service m)"
  by (auto simp: keeps_def elim!: on_serviceE)

lemma keeps_call: "keeps invar effects m \<Longrightarrow> keeps ipc_invar ipc_effects (call m)"
  unfolding call_def by (intro keeps_on_service keeps_on_world)

lemma keeps_symbolTable: "keeps ipc_invar ipc_effects (State_Monad.update (\<lambda>s. s\<lparr>ip_legacySymbolTable := t\<rparr>))"
  by (auto simp: keeps_def State_Monad.update_def State_Monad.get_def State_Monad.set_def run_state_bind)

lemma list_processes_loop_frame: "keeps invar effects (list_processes_loop be ctx rounds off ps)"
proof (induction rounds arbitrary: off ps)
  case (Suc rounds)
  then show ?case unfolding list_processes_loop.simps by (intro keeps_intros listProcesses_frame) auto
qed (simp add: keeps_return)

lemmas ipc_frame = keeps_call capture_frame status_frame serverVersion_frame memoryType_frame
  listProcesses_frame readMemory_frame readMemoryBatch_frame breakpointSlots_frame waitUxn_frame
  queryUxnStatus_frame listModules_frame resolveModule_frame resolvePointer_frame loadSymbolTable_frame
  listSymbols_frame list_processes_loop_frame keeps_symbolTable keeps_on_service breakpointHits_frame

lemma queries_frame:
  "keeps ipc_invar ipc_effects (get_status be p)" "keeps ipc_invar ipc_effects (get_version be p)"
  "keeps ipc_invar ipc_effects (get_architecture be p)" "keeps ipc_invar ipc_effects (list_processes n be p)"
  "keeps ipc_invar ipc_effects (list_modules be p)" "keeps ipc_invar ipc_effects (read_memory be p)"
  "keeps ipc_invar ipc_effects (read_batch be p)" "keeps ipc_invar ipc_effects (read_bp_info be p)"
  "keeps ipc_invar ipc_effects (query_hwbp_slots et be p)" "keeps ipc_invar ipc_effects (uxn_wait be p)"
  "keeps ipc_invar ipc_effects (uxn_status be p)" "keeps ipc_invar ipc_effects (get_module_base be p)"
  "keeps ipc_invar ipc_effects (resolve_offset_chain be p)" "keeps ipc_invar ipc_effects (symbol_init be p)"
  "keeps ipc_invar ipc_effects (symbol_list be p)"
  unfolding get_status_def get_version_def get_architecture_def list_processes_def list_modules_def
    read_memory_def read_batch_def read_bp_info_def query_hwbp_slots_def uxn_wait_def uxn_status_def
    get_module_base_def resolve_offset_chain_def symbol_init_def symbol_list_def
  by (intro keeps_intros ipc_frame)+

lemma symbol_find_frame: "keeps ipc_invar ipc_effects (symbol_find be p)"
  unfolding symbol_find_def
  by (intro keeps_intros ipc_frame resolveSymbol_frame)
    (auto dest!: getStringParam_length simp: limit_defs kMaxIpcStringParamBytes_def)

section \<open>Retries\<close>

text \<open>
  \<open>honest m\<close>: \<open>m\<close> preserves the invariant, and an answer marked retryable means that the device has been given no
  request with an effect, unless the device itself reported a timeout (Linux errno 110).
\<close>

definition honest :: "('w IpcState, json outcome) state \<Rightarrow> bool" where
  "honest m \<longleftrightarrow> (\<forall>s r s'. ipc_invar s \<and> run_state m s = (r, s') \<longrightarrow> ipc_invar s' \<and>
     (\<forall>j. r = Returns j \<and> marks_retryable j \<longrightarrow> ipc_effects s' = ipc_effects s \<or>
        members j ''native_error_code'' = Some (JInteger 110)))"

lemma honest_keeps: "keeps ipc_invar ipc_effects m \<Longrightarrow> honest m"
  by (auto simp: keeps_def honest_def)

lemma honest_bind: "keeps ipc_invar ipc_effects m \<Longrightarrow> (\<And>a. honest (k a)) \<Longrightarrow> honest (State_Monad.bind m k)"
  unfolding honest_def by (fastforce elim!: run_bindE dest: keepsD)

lemma honest_parsed: "(\<And>a. honest (k a)) \<Longrightarrow> honest (parsed v k)"
  by (cases v) (auto simp: parsed_def intro: honest_keeps keeps_return)

lemma honest_if: "honest m \<Longrightarrow> honest n \<Longrightarrow> honest (if b then m else n)"
  by simp

lemma honest_respond:
  assumes "\<And>s r s'. ipc_invar s \<Longrightarrow> run_state m s = (r, s') \<Longrightarrow> ipc_invar s' \<and>
    (\<forall>e. r = Failure e \<and> er_retryable e \<longrightarrow> ipc_effects s' = ipc_effects s \<or> er_nativeCode e = Some 110)"
  shows "honest (do { r \<leftarrow> m; respond f r })"
  unfolding honest_def
  by (auto elim!: run_bindE split: Result.split_asm dest!: assms [rotated])

lemma honest_call:
  assumes "retry_safe invar effects m"
  shows "honest (do { r \<leftarrow> call m; respond f r })"
  using assms by (intro honest_respond) (auto simp: retry_safe_def elim!: callE)

lemma honest_breakpoint:
  "honest (do { r \<leftarrow> on_service (mutateBreakpoint be ctx a action setReq); respond f r })"
  by (intro honest_respond) (auto elim!: on_serviceE dest!: mutateBreakpoint_retry_safe)

lemma honest_setBreakpoint: "honest (do { r \<leftarrow> on_service (setBreakpoint be ctx q); respond f r })"
  unfolding setBreakpoint_def Let_def using honest_breakpoint
  by (cases "bsq_access q < 1 \<or> bsq_access q > 4 \<or>
      (bsq_size q \<noteq> 1 \<and> bsq_size q \<noteq> 2 \<and> bsq_size q \<noteq> 4 \<and> bsq_size q \<noteq> 8) \<or>
      (bsq_access q = BreakpointAccess_Execute \<and> bsq_size q \<noteq> 4)")
    (auto intro!: honest_respond elim!: on_serviceE)

lemma writeMemory_honest: "retry_safe invar effects (writeMemory be ctx req)"
  by (auto simp: retry_safe_def dest!: writeMemory_retry_safe)

lemmas honest_rules = honest_parsed honest_if honest_bind [OF keeps_call [OF capture_frame]]
  honest_call honest_breakpoint honest_setBreakpoint writeMemory_honest installUxn_retry_safe
  removeUxn_retry_safe resumeUxn_retry_safe clearUxn_retry_safe

lemma mutations_honest:
  "honest (write_memory be p)" "honest (set_breakpoint be p)" "honest (remove_breakpoint be p)"
  "honest (suspend_breakpoint be p)" "honest (resume_breakpoint be p)" "honest (uxn_install be p)"
  "honest (uxn_remove be p)" "honest (uxn_resume be p)" "honest (uxn_clear be p)"
  unfolding write_memory_def set_breakpoint_def remove_breakpoint_def suspend_breakpoint_def
    resume_breakpoint_def address_request_def removeBreakpoint_def suspendBreakpoint_def
    resumeBreakpoint_def uxn_install_def uxn_remove_def uxn_resume_def uxn_clear_def Let_def case_prod_beta
  by (intro honest_rules; (rule honest_keeps, intro keeps_intros)?)+

lemma open_process_invar: "keeps ipc_invar (\<lambda>_. ()) (open_process be p)"
proof -
  have c: "keeps ipc_invar (\<lambda>_. ()) (call m)" if "keeps invar (\<lambda>_. ()) m" for m :: "('w, 'x) state"
    using that by (auto simp: keeps_def elim!: callE)
  show ?thesis
    unfolding open_process_def by (intro keeps_intros c openProcess_invar keeps_invar [OF capture_frame])
qed

text \<open>The handlers, without the two that are set apart.\<close>

lemma handler_honest:
  assumes "map_of (RegisterBuiltinMethods lib rounds be) route = Some handler"
    and "route \<noteq> ''open_process''" "route \<noteq> ''execute_lua''"
  shows "honest (handler p)"
  using assms unfolding RegisterBuiltinMethods_def
  by (auto split: if_split_asm intro: mutations_honest honest_keeps queries_frame symbol_find_frame)

lemma handler_invar:
  assumes "map_of (RegisterBuiltinMethods lib rounds be) route = Some handler" "route \<noteq> ''execute_lua''"
  shows "keeps ipc_invar (\<lambda>_. ()) (handler p)"
proof (cases "route = ''open_process''")
  case True
  with assms(1) open_process_invar show ?thesis by (simp add: RegisterBuiltinMethods_def)
next
  case False
  from handler_honest [OF assms(1) False assms(2)] show ?thesis
    by (auto simp: honest_def keeps_def)
qed

lemma handler_query:
  assumes "map_of (RegisterBuiltinMethods lib rounds be) route = Some handler"
    and "route \<notin> {''open_process'', ''write_memory'', ''set_breakpoint'', ''remove_breakpoint'',
      ''suspend_breakpoint'', ''resume_breakpoint'', ''uxn_install'', ''uxn_remove'', ''uxn_resume'',
      ''uxn_clear'', ''execute_lua''}"
  shows "keeps ipc_invar ipc_effects (handler p)"
  using assms unfolding RegisterBuiltinMethods_def
  by (auto split: if_split_asm intro: queries_frame symbol_find_frame)

lemma DispatchRequest_honest:
  assumes "\<not> asks_for request ''open_process''" "\<not> asks_for request ''execute_lua''"
  shows "honest (DispatchRequest lib rounds be request)"
  unfolding honest_def
proof (intro allI impI, elim conjE)
  fix s r s'
  assume inv: "ipc_invar s" and run: "run_state (DispatchRequest lib rounds be request) s = (r, s')"
  have h: "honest (handler p)" if "asks_for request route"
    "map_of (RegisterBuiltinMethods lib rounds be) route = Some handler" for route handler p
    using that assms by (intro handler_honest) auto
  show "ipc_invar s' \<and> (\<forall>j. r = Returns j \<and> marks_retryable j \<longrightarrow> ipc_effects s' = ipc_effects s \<or>
      members j ''native_error_code'' = Some (JInteger 110))"
    using run
  proof (cases rule: DispatchRequestE)
    case (2 route handler e m)
    with h [OF 2(1,2)] inv show ?thesis unfolding honest_def by fastforce
  next
    case (3 route handler)
    with h [OF 3(1,2)] inv show ?thesis unfolding honest_def by blast
  qed (use inv in simp)
qed

lemma DispatchRequest_keeps:
  assumes "\<And>route handler. asks_for request route \<Longrightarrow>
      map_of (RegisterBuiltinMethods lib rounds be) route = Some handler \<Longrightarrow>
      keeps ipc_invar f (handler (request_params request))"
  shows "keeps ipc_invar f (DispatchRequest lib rounds be request)"
proof (rule keepsI)
  fix s r s'
  assume inv: "ipc_invar s" and run: "run_state (DispatchRequest lib rounds be request) s = (r, s')"
  show "ipc_invar s' \<and> f s' = f s"
    using run
  proof (cases rule: DispatchRequestE)
    case (2 route handler e m)
    from keepsD [OF assms [OF 2(1,2)] 2(3) inv] show ?thesis .
  next
    case (3 route handler)
    from keepsD [OF assms [OF 3(1,2)] 3(3) inv] show ?thesis .
  qed (use inv in simp)
qed

lemma DispatchRequest_invar:
  "\<not> asks_for request ''execute_lua'' \<Longrightarrow> keeps ipc_invar (\<lambda>_. ()) (DispatchRequest lib rounds be request)"
  by (rule DispatchRequest_keeps, rule handler_invar) auto

lemma DispatchRequest_query:
  assumes "\<And>m. m \<in> {''open_process'', ''write_memory'', ''set_breakpoint'', ''remove_breakpoint'',
      ''suspend_breakpoint'', ''resume_breakpoint'', ''uxn_install'', ''uxn_remove'', ''uxn_resume'',
      ''uxn_clear'', ''execute_lua''} \<Longrightarrow> \<not> asks_for request m"
  shows "keeps ipc_invar ipc_effects (DispatchRequest lib rounds be request)"
  by (rule DispatchRequest_keeps, rule handler_query, assumption) (use assms in blast)

end

section \<open>The loop of \<open>list_processes\<close>\<close>

lemma filterProcesses_length: "filterProcesses filt ps n = Some qs \<Longrightarrow> length qs \<le> length ps"
  by (metis filterProcesses_Some(1) length_filter_le)

lemma listProcesses_next:
  assumes "run_state (listProcesses be ctx req) w = (Success page, w')" "pp_nextOffset page = Some next"
    and "\<And>w ps w'. run_state (be_fetchProcesses be ctx) w = (Some ps, w') \<Longrightarrow> length ps \<le> N"
  shows "next = plq_offset req + plq_limit req \<and> next < N"
  using assms(1,2) unfolding listProcesses_def
  by (auto simp: pageOf_eq elim!: return_if_error_SuccessE run_bindE
      dest!: filterProcesses_length assms(3) split: option.split_asm if_split_asm)

lemma list_processes_loop_returns:
  assumes bound: "\<And>w ps w'. run_state (be_fetchProcesses be ctx) w = (Some ps, w') \<Longrightarrow> length ps \<le> N"
    and "N < off + 1000 * rounds"
    and "run_state (list_processes_loop be ctx rounds off ps) w = (r, w')"
    and "off \<le> N"
  shows "r \<noteq> None"
  using assms(2-)
proof (induction rounds arbitrary: off ps w)
  case (Suc rounds)
  from Suc.prems(2) show ?case
    unfolding list_processes_loop.simps
  proof (rule run_bindE)
    fix a s1
    assume a: "run_state (listProcesses be ctx \<lparr>plq_filter = [], plq_offset = off,
        plq_limit = kMaxProcessPageSize\<rparr>) w = (a, s1)"
      and k: "run_state (case a of Success page \<Rightarrow> (case pp_nextOffset page of
          None \<Rightarrow> State_Monad.return (Some (Success (ps @ pp_items page)))
        | Some next \<Rightarrow> list_processes_loop be ctx rounds next (ps @ pp_items page))
        | Failure e \<Rightarrow> State_Monad.return (Some (Failure e))) s1 = (r, w')"
    show ?thesis
    proof (cases "\<exists>page next. a = Success page \<and> pp_nextOffset page = Some next")
      case True
      then obtain page "next" where n: "a = Success page" "pp_nextOffset page = Some next" by blast
      have "next = off + kMaxProcessPageSize \<and> next < N"
        using listProcesses_next [OF a [unfolded n(1)] n(2), of N] bound by simp
      then have "next = off + 1000" "next < N" by (auto simp: limit_defs)
      with Suc.IH [of "next" "ps @ pp_items page" s1] Suc.prems(1) k n show ?thesis by auto
    next
      case False
      with k show ?thesis by (auto split: Result.split_asm option.split_asm)
    qed
  qed
qed simp

end
