(* ===== verification/SystemMemBackend.thy ===== *)
theory SystemMemBackend
  imports SocketContract MemServiceMemory MemServiceQuery MemServiceBreakpoint MemServiceUxn
    MemServiceSymbol
begin

text \<open>
  The backend that the program runs, \<open>SystemMemBackend\<close> of \<open>gui/mem/SystemMemService.cpp\<close>: it joins the
  memory service to the socket commands, the session and the selected process. The definitions
  follow the source operation by operation; \<open>systemBackend\<close> collects them into the interface. The
  second part shows that the backend honours the contract \<open>mem_backend\<close> of the service, so that the
  lemmas of the service hold for the composed program.
\<close>

unbundle bit_operations_syntax

section \<open>Conversions\<close>

definition memoryTypeName :: "int \<Rightarrow> string" where
  "memoryTypeName t =
     (if t = 0 then ''Null'' else if t = 1 then ''IO'' else if t = 2 then ''Syscall''
      else if t = 3 then ''Kernel'' else if t = 4 then ''SysHook'' else ''Unknown'')"

definition contextMatches :: "OperationContext \<Rightarrow> RequestLease \<Rightarrow> ('e, bool) client" where
  "contextMatches ctx l = get_world (\<lambda>w.
     case oc_target ctx of
       None \<Rightarrow> False
     | Some t \<Rightarrow> isCurrent (cw_session w) l \<and>
         rl_generation l = oc_connectionGeneration ctx \<and>
         matchesStableTarget t (rl_generation l) (cw_app w))"

definition toBreakpointBackendResult ::
    "BreakpointMutationIoResult \<Rightarrow> BreakpointMutationBackendResult" where
  "toBreakpointBackendResult io =
     \<lparr>bmb_requestStarted = bio_requestStarted io, bmb_responseReceived = bio_responseReceived io,
      bmb_applied = bio_applied io\<rparr>"

definition toUxnBackendResult :: "UxnOperationIoResult \<Rightarrow> UxnOperationBackendResult" where
  "toUxnBackendResult io =
     \<lparr>uo_requestStarted = uio_requestStarted io, uo_responseReceived = uio_responseReceived io,
      uo_applied = uio_applied io, uo_errorCode = uio_errorCode io\<rparr>"

definition toUxnRegisters :: "bytes \<Rightarrow> nat \<Rightarrow> UxnRegisters" where
  "toUxnRegisters b off =
     \<lparr>ur_general = map (\<lambda>i. u64_at b (off + 8 * i)) [0..<31],
      ur_stackPointer = u64_at b (off + 248), ur_programCounter = u64_at b (off + 256),
      ur_pstate = u64_at b (off + 264)\<rparr>"

definition toWireUxnRegisters :: "UxnRegisters \<Rightarrow> bytes" where
  "toWireUxnRegisters r =
     concat (map (\<lambda>i. u64_bytes (if i < length (ur_general r) then ur_general r ! i else 0)) [0..<31]) @
     u64_bytes (ur_stackPointer r) @ u64_bytes (ur_programCounter r) @ u64_bytes (ur_pstate r)"

definition toUxnEvent :: "bytes \<Rightarrow> UxnEvent" where
  "toUxnEvent b =
     \<lparr>ue_slot = u32_at b 0, ue_pid = u32_at b 4, ue_tid = u32_at b 8, ue_state = u32_at b 12,
      ue_sequence = u64_at b 16, ue_address = u64_at b 24, ue_page = u64_at b 32,
      ue_faultAddress = u64_at b 40, ue_esr = u64_at b 48, ue_hits = u64_at b 56,
      ue_falseHits = u64_at b 64, ue_registers = toUxnRegisters b 72,
      ue_fpsimd = \<lparr>ufs_vector = map (\<lambda>i. \<lparr>uf_low = u64_at b (352 + 16 * i),
                       uf_high = u64_at b (360 + 16 * i)\<rparr>) [0..<32],
        ufs_fpsr = u32_at b 864, ufs_fpcr = u32_at b 868, ufs_valid = (u32_at b 872 AND 1 \<noteq> 0)\<rparr>\<rparr>"

definition toBreakpointHit :: "bytes \<Rightarrow> BreakpointHit" where
  "toBreakpointHit b =
     \<lparr>bh_hitAddress = u64_at b 0, bh_hitTime = u64_at b 8,
      bh_registers = map (\<lambda>i. u64_at b (16 + 8 * i)) [0..<31],
      bh_stackPointer = u64_at b 264, bh_programCounter = u64_at b 272, bh_pstate = u64_at b 280,
      bh_originalX0 = u64_at b 288, bh_syscallNumber = u64_at b 296\<rparr>"

definition toUxnStatus :: "bytes \<Rightarrow> UxnStatus" where
  "toUxnStatus b =
     \<lparr>us_slot = u32_at b 0, us_used = (u32_at b 4 \<noteq> 0), us_pid = u32_at b 8, us_tid = u32_at b 12,
      us_state = u32_at b 16, us_lastError = i32_at b 20, us_address = u64_at b 24,
      us_page = u64_at b 32, us_hits = u64_at b 40, us_falseHits = u64_at b 48,
      us_stepHits = u64_at b 56, us_resumes = u64_at b 64, us_sequence = u64_at b 72,
      us_target = TargetSnapshot_default\<rparr>"

definition uxnExtend :: "UxnOperationIoResult \<Rightarrow> 'z \<Rightarrow> 'z UxnOperationBackendResult_scheme" where
  "uxnExtend io fs = UxnOperationBackendResult.extend (toUxnBackendResult io) fs"

section \<open>Transactions\<close>

definition readTransaction ::
    "'e SocketOs \<Rightarrow> OperationContext \<Rightarrow> RequestLease \<Rightarrow> bool \<Rightarrow> 'e ClientWorld IMemReadTransaction" where
  "readTransaction os ctx l valid0 =
     (let valid = (if valid0 then contextMatches ctx l else State_Monad.return False) in
      \<lparr>rt_valid = valid,
       rt_fetchModules = do {
         ok \<leftarrow> valid; if ok then FetchModuleList os PORT_MAIN else State_Monad.return None },
       rt_readMemory = (\<lambda>address n. do {
         ok \<leftarrow> valid;
         if ok then ReadProcessMemoryBytes os address n PORT_MAIN else State_Monad.return None }),
       rt_readMemoryBatch = (\<lambda>requests. do {
         ok \<leftarrow> valid;
         if \<not> ok then State_Monad.return None
         else do {
           out \<leftarrow> ReadBratchAddr os
             (map (\<lambda>r. (rq_address r, sint (rq_size r))) requests) PORT_MAIN;
           State_Monad.return (map_option (map (\<lambda>(a, d).
             \<lparr>mb_address = a, mb_bytes = d, mb_target = TargetSnapshot_default\<rparr>)) out) }})\<rparr>)"

definition SystemReadTransaction ::
    "'e SocketOs \<Rightarrow> OperationContext \<Rightarrow> ('e, 'e ClientWorld IMemReadTransaction) client" where
  "SystemReadTransaction os ctx = do {
     l \<leftarrow> TransactionLease os PORT_MAIN;
     valid \<leftarrow> contextMatches ctx l;
     State_Monad.return (readTransaction os ctx l valid) }"

definition symbolTransaction ::
    "'e SocketOs \<Rightarrow> OperationContext \<Rightarrow> RequestLease \<Rightarrow> bool \<Rightarrow> 'e ClientWorld IMemSymbolTransaction" where
  "symbolTransaction os ctx l valid0 =
     (let valid = (if valid0 then contextMatches ctx l else State_Monad.return False) in
      \<lparr>sy_valid = valid,
       sy_fetchModules = do {
         ok \<leftarrow> valid; if ok then FetchModuleList os PORT_MAIN else State_Monad.return None },
       sy_initialize = (\<lambda>moduleBase. do {
         ok \<leftarrow> valid; if ok then SymbolInit os moduleBase PORT_MAIN else State_Monad.return None }),
       sy_fetch = (\<lambda>off n. do {
         ok \<leftarrow> valid;
         if \<not> ok \<or> off > INT_MAX \<or> n > INT_MAX then State_Monad.return None
         else SymbolGetList os (int off) (int n) PORT_MAIN }),
       sy_find = (\<lambda>moduleBase name. do {
         ok \<leftarrow> valid;
         if ok then SymbolFind os moduleBase name PORT_MAIN else State_Monad.return None })\<rparr>)"

definition SystemSymbolTransaction ::
    "'e SocketOs \<Rightarrow> OperationContext \<Rightarrow> ('e, 'e ClientWorld IMemSymbolTransaction) client" where
  "SystemSymbolTransaction os ctx = do {
     l \<leftarrow> TransactionLease os PORT_MAIN;
     valid \<leftarrow> contextMatches ctx l;
     State_Monad.return (symbolTransaction os ctx l valid) }"

section \<open>Backend operations\<close>

definition clearUxnIfKernel :: "'e SocketOs \<Rightarrow> ('e, unit) client" where
  "clearUxnIfKernel os = do {
     t \<leftarrow> GetMemType os PORT_MAIN;
     if t = Some 3 then do { ClearUxnBreakpointsTracked os PORT_MAIN; State_Monad.return () }
     else State_Monad.return () }"

definition sys_connect :: "'e SocketOs \<Rightarrow> string \<Rightarrow> u16 \<Rightarrow> ('e, bool) client" where
  "sys_connect os host port = do {
     connected \<leftarrow> get_world (\<lambda>w. IsConnected (cw_session w));
     (if connected then clearUxnIfKernel os else State_Monad.return ());
     ConnectMultiPort os host port }"

definition sys_disconnect :: "'e SocketOs \<Rightarrow> ('e, bool) client" where
  "sys_disconnect os = do {
     connected \<leftarrow> get_world (\<lambda>w. IsConnected (cw_session w));
     (if connected then clearUxnIfKernel os else State_Monad.return ());
     DisconnectMultiPort;
     State_Monad.return True }"

definition sys_fetchMemoryType :: "'e SocketOs \<Rightarrow> ('e, (int \<times> string) option) client" where
  "sys_fetchMemoryType os = do {
     t \<leftarrow> GetMemType os PORT_MAIN;
     State_Monad.return (map_option (\<lambda>t. (t, memoryTypeName t)) t) }"

definition sys_initializeDriver ::
    "'e SocketOs \<Rightarrow> OperationContext \<Rightarrow> string \<Rightarrow> bool \<Rightarrow> ('e, DriverInitializationBackendResult) client" where
  "sys_initializeDriver os ctx cardName reclaim = do {
     l \<leftarrow> TransactionLease os PORT_MAIN;
     current \<leftarrow> leaseCurrent l;
     if \<not> current \<or> rl_generation l \<noteq> oc_connectionGeneration ctx
     then State_Monad.return
       \<lparr>dib_requestStarted = False, dib_responseReceived = False, dib_accepted = False,
        dib_message = '''', dib_reclaimRequestStarted = False,
        dib_reclaimResponseReceived = False, dib_reclaimApplied = False\<rparr>
     else do {
       io \<leftarrow> InitDriverTracked os cardName PORT_MAIN;
       let result = \<lparr>dib_requestStarted = dio_requestStarted io,
         dib_responseReceived = dio_responseReceived io, dib_accepted = dio_accepted io,
         dib_message = dio_message io, dib_reclaimRequestStarted = False,
         dib_reclaimResponseReceived = False, dib_reclaimApplied = False\<rparr>;
       if \<not> dio_accepted io then State_Monad.return result
       else do {
         rc \<leftarrow> SetKernelBreakpointForceReclaim os reclaim PORT_MAIN;
         let result = result\<lparr>dib_reclaimRequestStarted := rio_requestStarted rc,
           dib_reclaimResponseReceived := rio_responseReceived rc,
           dib_reclaimApplied := rio_applied rc\<rparr>;
         State_Monad.return
           (if \<not> rio_responseReceived rc
            then result\<lparr>dib_message :=
              ''driver initialized; breakpoint reclaim configuration response missing''\<rparr>
            else if \<not> rio_applied rc
            then result\<lparr>dib_message :=
              ''driver initialized; breakpoint reclaim configuration rejected''\<rparr>
            else result) }}}"

definition sys_fetchProcesses ::
    "'e SocketOs \<Rightarrow> OperationContext \<Rightarrow> ('e, ProcessInfo list option) client" where
  "sys_fetchProcesses os ctx = do {
     l \<leftarrow> TransactionLease os PORT_MAIN;
     current \<leftarrow> leaseCurrent l;
     if \<not> current \<or> rl_generation l \<noteq> oc_connectionGeneration ctx
     then State_Monad.return None
     else do {
       items \<leftarrow> FetchProcessList os PORT_MAIN;
       State_Monad.return
         (map_option (map (\<lambda>(pid, name). \<lparr>pi_pid = pid, pi_name = name\<rparr>)) items) }}"

definition mutationAbort :: "('e, bool) client" where
  "mutationAbort = do {
     put_world (\<lambda>w. w\<lparr>cw_app := finish (clearTarget (cw_app w))\<rparr>);
     State_Monad.return False }"

definition sys_openProcess ::
    "'e SocketOs \<Rightarrow> OperationContext \<Rightarrow> int \<Rightarrow> string \<Rightarrow> ('e, bool) client" where
  "sys_openProcess os ctx pid name = do {
     requestLease \<leftarrow> acquireLease;
     current \<leftarrow> leaseCurrent requestLease;
     if \<not> current \<or> rl_generation requestLease \<noteq> oc_connectionGeneration ctx
     then State_Monad.return False
     else do {
       mutation \<leftarrow> State (\<lambda>w.
         case beginTargetMutation (oc_target ctx) (rl_generation requestLease) (cw_app w) of
           (m, a) \<Rightarrow> (m, w\<lparr>cw_app := a\<rparr>));
       case mutation of
         None \<Rightarrow> State_Monad.return False
       | Some previous \<Rightarrow> do {
           l \<leftarrow> TransactionLease os PORT_MAIN;
           lcurrent \<leftarrow> leaseCurrent l;
           if \<not> lcurrent \<or> rl_generation l \<noteq> rl_generation requestLease
           then mutationAbort
           else do {
             (if isAttached previous
              then do {
                clearUxnIfKernel os;
                ClearTrackedKernelBreakpoints os PORT_MAIN;
                CloseProcessHandle os (ts_processHandle previous) PORT_MAIN;
                State_Monad.return () }
              else State_Monad.return ());
             current' \<leftarrow> leaseCurrent requestLease;
             if \<not> current' then mutationAbort
             else do {
               handle \<leftarrow> OpenProcessHandle os pid PORT_MAIN;
               current'' \<leftarrow> leaseCurrent requestLease;
               case handle of
                 None \<Rightarrow> mutationAbort
               | Some h \<Rightarrow>
                   if h = 0 \<or> \<not> current'' then mutationAbort
                   else do {
                     put_world (\<lambda>w. w\<lparr>cw_app := finish (publish pid h name (cw_app w))\<rparr>);
                     State_Monad.return True }}}}}}"

definition withContext ::
    "'e SocketOs \<Rightarrow> PortType \<Rightarrow> OperationContext \<Rightarrow> 'a \<Rightarrow> ('e, 'a) client \<Rightarrow> ('e, 'a) client" where
  "withContext os p ctx none k = do {
     l \<leftarrow> TransactionLease os p;
     ok \<leftarrow> contextMatches ctx l;
     if \<not> ok then State_Monad.return none else k }"

definition sys_beginReadTransaction ::
    "'e SocketOs \<Rightarrow> OperationContext \<Rightarrow> ('e, 'e ClientWorld IMemReadTransaction option) client" where
  "sys_beginReadTransaction os ctx = do {
     tx \<leftarrow> SystemReadTransaction os ctx;
     ok \<leftarrow> rt_valid tx;
     State_Monad.return (if ok then Some tx else None) }"

definition sys_beginSymbolTransaction ::
    "'e SocketOs \<Rightarrow> OperationContext \<Rightarrow> ('e, 'e ClientWorld IMemSymbolTransaction option) client" where
  "sys_beginSymbolTransaction os ctx = do {
     tx \<leftarrow> SystemSymbolTransaction os ctx;
     ok \<leftarrow> sy_valid tx;
     State_Monad.return (if ok then Some tx else None) }"

definition sys_readMemory ::
    "'e SocketOs \<Rightarrow> OperationContext \<Rightarrow> u64 \<Rightarrow> u32 \<Rightarrow> ('e, bytes option) client" where
  "sys_readMemory os ctx address n = do {
     tx \<leftarrow> SystemReadTransaction os ctx;
     ok \<leftarrow> rt_valid tx;
     if ok then rt_readMemory tx address n else State_Monad.return None }"

definition sys_readMemoryBatch ::
    "'e SocketOs \<Rightarrow> OperationContext \<Rightarrow> MemoryReadRequest list \<Rightarrow> ('e, MemoryBlock list option) client" where
  "sys_readMemoryBatch os ctx requests = do {
     tx \<leftarrow> SystemReadTransaction os ctx;
     ok \<leftarrow> rt_valid tx;
     if ok then rt_readMemoryBatch tx requests else State_Monad.return None }"

definition sys_writeMemory ::
    "'e SocketOs \<Rightarrow> OperationContext \<Rightarrow> u64 \<Rightarrow> bytes \<Rightarrow> ('e, MemoryWriteBackendResult) client" where
  "sys_writeMemory os ctx address data =
     withContext os PORT_MAIN ctx
       \<lparr>wb_requestStarted = False, wb_responseReceived = False, wb_writtenBytes = 0\<rparr>
       (do { io \<leftarrow> WriteProcessMemoryDetailed os address data PORT_MAIN;
             State_Monad.return \<lparr>wb_requestStarted = mio_requestStarted io,
               wb_responseReceived = mio_responseReceived io,
               wb_writtenBytes = mio_writtenBytes io\<rparr> })"

abbreviation noMutation :: BreakpointMutationBackendResult where
  "noMutation \<equiv> \<lparr>bmb_requestStarted = False, bmb_responseReceived = False, bmb_applied = False\<rparr>"

definition sys_setBreakpoint ::
    "'e SocketOs \<Rightarrow> OperationContext \<Rightarrow> u64 \<Rightarrow> BreakpointAccess \<Rightarrow> u32 \<Rightarrow>
       ('e, BreakpointMutationBackendResult) client" where
  "sys_setBreakpoint os ctx address access n =
     withContext os PORT_MAIN ctx noMutation (do {
       io \<leftarrow> SetKernelBreakpointTracked os address access n PORT_MAIN;
       State_Monad.return (toBreakpointBackendResult io) })"

definition sys_removeBreakpoint ::
    "'e SocketOs \<Rightarrow> OperationContext \<Rightarrow> u64 \<Rightarrow> ('e, BreakpointMutationBackendResult) client" where
  "sys_removeBreakpoint os ctx address =
     withContext os PORT_MAIN ctx noMutation (do {
       io \<leftarrow> RemoveKernelBreakpointTracked os address PORT_MAIN;
       State_Monad.return (toBreakpointBackendResult io) })"

definition sys_suspendBreakpoint ::
    "'e SocketOs \<Rightarrow> OperationContext \<Rightarrow> u64 \<Rightarrow> ('e, BreakpointMutationBackendResult) client" where
  "sys_suspendBreakpoint os ctx address =
     withContext os PORT_MAIN ctx noMutation (do {
       io \<leftarrow> SuspendKernelBreakpointTracked os address PORT_MAIN;
       State_Monad.return (toBreakpointBackendResult io) })"

definition sys_resumeBreakpoint ::
    "'e SocketOs \<Rightarrow> OperationContext \<Rightarrow> u64 \<Rightarrow> ('e, BreakpointMutationBackendResult) client" where
  "sys_resumeBreakpoint os ctx address =
     withContext os PORT_MAIN ctx noMutation (do {
       io \<leftarrow> ResumeKernelBreakpointTracked os address PORT_MAIN;
       State_Monad.return (toBreakpointBackendResult io) })"

definition sys_fetchBreakpointHits ::
    "'e SocketOs \<Rightarrow> OperationContext \<Rightarrow> u64 \<Rightarrow> nat \<Rightarrow> ('e, (BreakpointHit list \<times> nat) option) client" where
  "sys_fetchBreakpointHits os ctx address limit =
     withContext os PORT_DEBUG ctx None (do {
       r \<leftarrow> ReadKernelBreakpointInfo os address PORT_DEBUG;
       State_Monad.return (case r of
         None \<Rightarrow> None
       | Some (raw, totalHits) \<Rightarrow>
           let first = (if length raw > limit then length raw - limit else 0) in
           Some (map toBreakpointHit (drop first raw), unat totalHits)) })"

definition sys_fetchBreakpointSlots ::
    "'e SocketOs \<Rightarrow> OperationContext \<Rightarrow> u32 \<Rightarrow> ('e, BreakpointThreadSlots list option) client" where
  "sys_fetchBreakpointSlots os ctx capacity =
     withContext os PORT_MAIN ctx None (QueryKernelBreakpointThreads os capacity PORT_MAIN)"

definition sys_installUxnBreakpoint ::
    "'e SocketOs \<Rightarrow> OperationContext \<Rightarrow> u64 \<Rightarrow> ('e, UxnInstallBackendResult) client" where
  "sys_installUxnBreakpoint os ctx address =
     withContext os PORT_MAIN ctx
       (uxnExtend (uxnIo False False False 0) (UxnInstallBackendResult.fields 0 0 0 0))
       (do { (io, b) \<leftarrow> InstallUxnBreakpointTracked os address 0 PORT_MAIN;
             State_Monad.return (uxnExtend io (UxnInstallBackendResult.fields
               (u32_at b 0) (u32_at b 4) (u64_at b 8) (u32_at b 16))) })"

definition sys_removeUxnBreakpoint ::
    "'e SocketOs \<Rightarrow> OperationContext \<Rightarrow> u64 \<Rightarrow> ('e, UxnOperationBackendResult) client" where
  "sys_removeUxnBreakpoint os ctx address =
     withContext os PORT_MAIN ctx (toUxnBackendResult (uxnIo False False False 0))
       (do { (io, _) \<leftarrow> RemoveUxnBreakpointTracked os address PORT_MAIN;
             State_Monad.return (toUxnBackendResult io) })"

definition sys_waitUxnBreakpoint ::
    "'e SocketOs \<Rightarrow> OperationContext \<Rightarrow> u32 \<Rightarrow> u32 \<Rightarrow> u64 \<Rightarrow> ('e, UxnWaitBackendResult) client" where
  "sys_waitUxnBreakpoint os ctx slot timeoutMs lastSequence =
     withContext os PORT_DEBUG ctx
       (uxnExtend (uxnIo False False False 0)
          (UxnWaitBackendResult.fields (toUxnEvent (replicate 880 0))))
       (do { (io, b) \<leftarrow> WaitUxnBreakpointTracked os slot timeoutMs lastSequence PORT_DEBUG;
             State_Monad.return (uxnExtend io (UxnWaitBackendResult.fields (toUxnEvent b))) })"

definition sys_resumeUxnBreakpoint ::
    "'e SocketOs \<Rightarrow> OperationContext \<Rightarrow> u32 \<Rightarrow> bool \<Rightarrow> UxnRegisters \<Rightarrow>
       ('e, UxnOperationBackendResult) client" where
  "sys_resumeUxnBreakpoint os ctx slot writeRegisters registers =
     withContext os PORT_MAIN ctx (toUxnBackendResult (uxnIo False False False 0))
       (do { (io, _) \<leftarrow> ResumeUxnBreakpointTracked os
               (u32_bytes slot @ u32_bytes (if writeRegisters then 1 else 0) @
                (if writeRegisters then toWireUxnRegisters registers else replicate 272 0)) PORT_MAIN;
             State_Monad.return (toUxnBackendResult io) })"

definition sys_queryUxnBreakpointStatus ::
    "'e SocketOs \<Rightarrow> OperationContext \<Rightarrow> u32 \<Rightarrow> ('e, UxnStatusBackendResult) client" where
  "sys_queryUxnBreakpointStatus os ctx slot =
     withContext os PORT_MAIN ctx
       (uxnExtend (uxnIo False False False 0)
          (UxnStatusBackendResult.fields (toUxnStatus (replicate 80 0))))
       (do { (io, b) \<leftarrow> QueryUxnBreakpointStatusTracked os slot PORT_MAIN;
             State_Monad.return (uxnExtend io (UxnStatusBackendResult.fields (toUxnStatus b))) })"

definition sys_clearUxnBreakpoints ::
    "'e SocketOs \<Rightarrow> OperationContext \<Rightarrow> ('e, UxnOperationBackendResult) client" where
  "sys_clearUxnBreakpoints os ctx = do {
     l \<leftarrow> TransactionLease os PORT_MAIN;
     current \<leftarrow> leaseCurrent l;
     if \<not> current \<or> rl_generation l \<noteq> oc_connectionGeneration ctx
     then State_Monad.return (toUxnBackendResult (uxnIo False False False 0))
     else do {
       (io, _) \<leftarrow> ClearUxnBreakpointsTracked os PORT_MAIN;
       State_Monad.return (toUxnBackendResult io) }}"

definition systemBackend :: "'e SocketOs \<Rightarrow> 'e ClientWorld MemRuntime" where
  "systemBackend os =
     \<lparr>be_isConnected = get_world (\<lambda>w. IsConnected (cw_session w)),
      be_isPoisoned = get_world (\<lambda>w. IsPoisoned (cw_session w)),
      be_connectionGeneration = get_world (\<lambda>w. ds_generation (cw_session w)),
      be_targetSnapshot = get_world (\<lambda>w. snapshotTarget (ds_generation (cw_session w)) (cw_app w)),
      be_processName = get_world (\<lambda>w. ac_selectedName (cw_app w)),
      be_connect = sys_connect os,
      be_disconnect = sys_disconnect os,
      be_fetchServerVersion = FetchServerVersion os PORT_MAIN,
      be_fetchMemoryType = sys_fetchMemoryType os,
      be_initializeDriver = sys_initializeDriver os,
      be_fetchProcesses = sys_fetchProcesses os,
      be_openProcess = sys_openProcess os,
      be_beginReadTransaction = sys_beginReadTransaction os,
      be_beginSymbolTransaction = sys_beginSymbolTransaction os,
      be_readMemory = sys_readMemory os,
      be_readMemoryBatch = sys_readMemoryBatch os,
      be_writeMemory = sys_writeMemory os,
      be_setBreakpoint = sys_setBreakpoint os,
      be_removeBreakpoint = sys_removeBreakpoint os,
      be_suspendBreakpoint = sys_suspendBreakpoint os,
      be_resumeBreakpoint = sys_resumeBreakpoint os,
      be_fetchBreakpointHits = sys_fetchBreakpointHits os,
      be_fetchBreakpointSlots = sys_fetchBreakpointSlots os,
      be_installUxnBreakpoint = sys_installUxnBreakpoint os,
      be_removeUxnBreakpoint = sys_removeUxnBreakpoint os,
      be_waitUxnBreakpoint = sys_waitUxnBreakpoint os,
      be_resumeUxnBreakpoint = sys_resumeUxnBreakpoint os,
      be_queryUxnBreakpointStatus = sys_queryUxnBreakpointStatus os,
      be_clearUxnBreakpoints = sys_clearUxnBreakpoints os,
      rn_now = on_env (os_now os),
      rn_loadToken = (\<lambda>t. on_env (os_loadToken os t))\<rparr>"

section \<open>The backend honours the contract of the service\<close>

lemma systemBackend_sel [simp]:
  "be_isConnected (systemBackend os) = get_world (\<lambda>w. IsConnected (cw_session w))"
  "be_isPoisoned (systemBackend os) = get_world (\<lambda>w. IsPoisoned (cw_session w))"
  "be_connectionGeneration (systemBackend os) = get_world (\<lambda>w. ds_generation (cw_session w))"
  "be_targetSnapshot (systemBackend os) =
     get_world (\<lambda>w. snapshotTarget (ds_generation (cw_session w)) (cw_app w))"
  "be_processName (systemBackend os) = get_world (\<lambda>w. ac_selectedName (cw_app w))"
  "be_connect (systemBackend os) = sys_connect os"
  "be_disconnect (systemBackend os) = sys_disconnect os"
  "be_fetchServerVersion (systemBackend os) = FetchServerVersion os PORT_MAIN"
  "be_fetchMemoryType (systemBackend os) = sys_fetchMemoryType os"
  "be_initializeDriver (systemBackend os) = sys_initializeDriver os"
  "be_fetchProcesses (systemBackend os) = sys_fetchProcesses os"
  "be_openProcess (systemBackend os) = sys_openProcess os"
  "be_beginReadTransaction (systemBackend os) = sys_beginReadTransaction os"
  "be_beginSymbolTransaction (systemBackend os) = sys_beginSymbolTransaction os"
  "be_readMemory (systemBackend os) = sys_readMemory os"
  "be_readMemoryBatch (systemBackend os) = sys_readMemoryBatch os"
  "be_writeMemory (systemBackend os) = sys_writeMemory os"
  "be_setBreakpoint (systemBackend os) = sys_setBreakpoint os"
  "be_removeBreakpoint (systemBackend os) = sys_removeBreakpoint os"
  "be_suspendBreakpoint (systemBackend os) = sys_suspendBreakpoint os"
  "be_resumeBreakpoint (systemBackend os) = sys_resumeBreakpoint os"
  "be_fetchBreakpointHits (systemBackend os) = sys_fetchBreakpointHits os"
  "be_fetchBreakpointSlots (systemBackend os) = sys_fetchBreakpointSlots os"
  "be_installUxnBreakpoint (systemBackend os) = sys_installUxnBreakpoint os"
  "be_removeUxnBreakpoint (systemBackend os) = sys_removeUxnBreakpoint os"
  "be_waitUxnBreakpoint (systemBackend os) = sys_waitUxnBreakpoint os"
  "be_resumeUxnBreakpoint (systemBackend os) = sys_resumeUxnBreakpoint os"
  "be_queryUxnBreakpointStatus (systemBackend os) = sys_queryUxnBreakpointStatus os"
  "be_clearUxnBreakpoints (systemBackend os) = sys_clearUxnBreakpoints os"
  "rn_now (systemBackend os) = on_env (os_now os)"
  "rn_loadToken (systemBackend os) t = on_env (os_loadToken os t)"
  by (simp_all add: systemBackend_def)

lemma contextMatches_silent [silent_intros]: "silent (contextMatches ctx l)"
  unfolding contextMatches_def by (rule silent_intros)

lemma withContext_keeps_unless:
  assumes "keeps_unless stream_inv device_effects started k"
  shows "keeps_unless stream_inv device_effects started (withContext os p ctx none k)"
  unfolding withContext_def
  by (intro keeps_unless_bind keeps_unless_if assms silent_keeps silent_intros)
    (intro keeps_unless_weaken keeps_return)

lemma keeps_unless_uxn_map:
  assumes m: "keeps_unless stream_inv device_effects uxn_started m"
    and g: "\<And>io b. started (g io b) = uio_requestStarted io"
  shows "keeps_unless stream_inv device_effects started
    (do { (io, b) \<leftarrow> m; State_Monad.return (g io b) })"
proof -
  have "keeps_unless stream_inv device_effects started
      (do { r \<leftarrow> m; State_Monad.return (g (fst r) (snd r)) })"
    by (rule keeps_unless_map [OF m]) (rule g)
  then show ?thesis by (simp add: case_prod_beta')
qed

lemma uxnExtend_started [simp]: "uo_requestStarted (uxnExtend io fs) = uio_requestStarted io"
  by (simp add: uxnExtend_def toUxnBackendResult_def UxnOperationBackendResult.defs)

lemma toUxnBackendResult_started [simp]:
  "uo_requestStarted (toUxnBackendResult io) = uio_requestStarted io"
  by (simp add: toUxnBackendResult_def)

lemma length_toWireUxnRegisters [simp]: "length (toWireUxnRegisters r) = 272"
proof -
  have "length (concat (map (\<lambda>i. u64_bytes (g i)) xs)) = 8 * length xs" for g :: "nat \<Rightarrow> u64" and xs
    by (induction xs) auto
  then show ?thesis by (simp add: toWireUxnRegisters_def)
qed

lemma sys_writeMemory_started:
  "keeps_unless stream_inv device_effects wb_requestStarted (sys_writeMemory os ctx a bs)"
  unfolding sys_writeMemory_def
  by (intro withContext_keeps_unless
      keeps_unless_map [OF framed_keeps_unless [OF framed_WriteProcessMemoryDetailed]]) simp

lemma keeps_unless_bp_map:
  assumes "sends p [] (framed bio_requestStarted) m"
  shows "keeps_unless stream_inv device_effects bmb_requestStarted
    (do { io \<leftarrow> m; State_Monad.return (toBreakpointBackendResult io) })"
  by (rule keeps_unless_map [OF framed_keeps_unless [OF assms]])
    (simp add: toBreakpointBackendResult_def)

lemma sys_breakpoint_started:
  "keeps_unless stream_inv device_effects bmb_requestStarted (sys_setBreakpoint os ctx a access n)"
  "keeps_unless stream_inv device_effects bmb_requestStarted (sys_removeBreakpoint os ctx a)"
  "keeps_unless stream_inv device_effects bmb_requestStarted (sys_suspendBreakpoint os ctx a)"
  "keeps_unless stream_inv device_effects bmb_requestStarted (sys_resumeBreakpoint os ctx a)"
  unfolding sys_setBreakpoint_def sys_removeBreakpoint_def sys_suspendBreakpoint_def
    sys_resumeBreakpoint_def
  by (rule withContext_keeps_unless, rule keeps_unless_bp_map,
      rule framed_SetKernelBreakpointTracked framed_RemoveKernelBreakpointTracked
        framed_SuspendKernelBreakpointTracked framed_ResumeKernelBreakpointTracked)+

lemma sys_uxn_started:
  "keeps_unless stream_inv device_effects uo_requestStarted (sys_installUxnBreakpoint os ctx a)"
  "keeps_unless stream_inv device_effects uo_requestStarted (sys_removeUxnBreakpoint os ctx a)"
  "keeps_unless stream_inv device_effects uo_requestStarted
     (sys_resumeUxnBreakpoint os ctx slot wr regs)"
  unfolding sys_installUxnBreakpoint_def sys_removeUxnBreakpoint_def sys_resumeUxnBreakpoint_def
  by (rule withContext_keeps_unless, rule keeps_unless_uxn_map, rule framed_keeps_unless,
      (rule framed_InstallUxnBreakpointTracked framed_RemoveUxnBreakpointTracked
        framed_ResumeUxnBreakpointTracked; simp), simp)+

lemma sys_clearUxn_started:
  "keeps_unless stream_inv device_effects uo_requestStarted (sys_clearUxnBreakpoints os ctx)"
  unfolding sys_clearUxnBreakpoints_def
  by (intro keeps_unless_bind keeps_unless_if keeps_unless_uxn_map silent_keeps silent_intros
      framed_keeps_unless [OF framed_ClearUxnBreakpointsTracked])
    (auto intro!: keeps_unless_weaken keeps_return)

lemma sys_observers:
  "keeps stream_inv device_effects (get_world f)" "keeps stream_inv device_effects (on_env m)"
  "keeps stream_inv device_effects (sys_fetchMemoryType os)"
  unfolding sys_fetchMemoryType_def
  by (intro keeps_intros silent_keeps silent_intros framed_keeps [OF framed_GetMemType])+

interpretation sys: mem_backend "systemBackend os" stream_inv device_effects
  by unfold_locales
    (simp_all only: systemBackend_sel sys_observers sys_writeMemory_started sys_breakpoint_started
      sys_uxn_started sys_clearUxn_started)

section \<open>Confirmed requests\<close>

lemma env_simps [simp]:
  "stream_inv (w\<lparr>cw_env := e\<rparr>) = stream_inv w" "device_effects (w\<lparr>cw_env := e\<rparr>) = device_effects w"
  "device_effects (w\<lparr>cw_tracked := tr\<rparr>) = device_effects w"
  by (simp_all add: stream_inv_def device_effects_def fun_eq_iff)

lemma run_withContextE:
  assumes "run_state (withContext os p ctx none k) w = (r, w')"
  obtains e where "r = none" "w' = w\<lparr>cw_env := e\<rparr>"
  | e t where "oc_target ctx = Some t" "ac_processHandle (cw_app w) = ts_processHandle t"
      "run_state k (w\<lparr>cw_env := e\<rparr>) = (r, w')"
  using assms unfolding withContext_def contextMatches_def
  by (elim run_silentE [OF _ silent_lease(4)])
    (auto split: if_splits option.splits elim!: run_silentE [OF _ silent_basic(2)]
      simp: matchesStableTarget_def matchesLoads_def simp del: run_state_bind)

lemma sys_writeMemory_confirmed:
  assumes "run_state (sys_writeMemory os ctx a bs) w = (r, w')" "wb_responseReceived r" "stream_inv w"
  shows "\<exists>t. oc_target ctx = Some t \<and> device_effects w' = (device_effects w)
    (PORT_MAIN := device_effects w PORT_MAIN @ [write_request (ts_processHandle t) a bs])"
  using assms(1,2) unfolding sys_writeMemory_def
  by (auto elim!: run_withContextE run_bindE simp: assms(3)
      dest!: WriteProcessMemoryDetailed_confirmed simp del: run_state_bind)



text \<open>The wire request of a breakpoint operation.\<close>

definition action_request ::
    "BreakpointAction \<Rightarrow> BreakpointSetRequest option \<Rightarrow> int \<Rightarrow> u64 \<Rightarrow> bytes" where
  "action_request action setRequest handle address =
     (case action of
        BpSet \<Rightarrow> (case setRequest of
          Some q \<Rightarrow> breakpoint_request CMD_KERNEL_SETBREAKPOINT handle
            (u64_bytes address @ u32_bytes (bsq_access q) @ u32_bytes (bsq_size q))
        | None \<Rightarrow> [])
      | BpRemove \<Rightarrow> breakpoint_request CMD_KERNEL_REMOVEBREAKPOINT handle (u64_bytes address)
      | BpSuspend \<Rightarrow> breakpoint_request CMD_KERNEL_SUSPENDBREAKPOINT handle (u64_bytes address)
      | BpResume \<Rightarrow> breakpoint_request CMD_KERNEL_RESUMEBREAKPOINT handle (u64_bytes address))"

lemma tracked_effects:
  "run_state (trackBreakpointAddress a) w = (u, w') \<Longrightarrow> device_effects w' = device_effects w"
  "run_state (untrackBreakpointAddress a) w = (u, w') \<Longrightarrow> device_effects w' = device_effects w"
  by (auto simp: trackBreakpointAddress_def untrackBreakpointAddress_def split: if_splits)

lemma bp_command_sizes:
  "fixedSize CMD_KERNEL_SETBREAKPOINT = 20" "fixedSize CMD_KERNEL_REMOVEBREAKPOINT = 12"
  "fixedSize CMD_KERNEL_SUSPENDBREAKPOINT = 12" "fixedSize CMD_KERNEL_RESUMEBREAKPOINT = 12"
  "variableSize CMD_KERNEL_SETBREAKPOINT f = 0" "variableSize CMD_KERNEL_REMOVEBREAKPOINT f = 0"
  "variableSize CMD_KERNEL_SUSPENDBREAKPOINT f = 0" "variableSize CMD_KERNEL_RESUMEBREAKPOINT f = 0"
  by (simp_all add: size_defs)

lemma bp_tracked_confirmed:
  assumes "bio_responseReceived r" "stream_inv w"
  shows
    "run_state (SetKernelBreakpointTracked os a ty sz PORT_MAIN) w = (r, w') \<Longrightarrow>
       device_effects w' = (device_effects w)(PORT_MAIN := device_effects w PORT_MAIN @
         [breakpoint_request CMD_KERNEL_SETBREAKPOINT (ac_processHandle (cw_app w))
           (u64_bytes a @ u32_bytes ty @ u32_bytes sz)])"
    "run_state (RemoveKernelBreakpointTracked os a PORT_MAIN) w = (r, w') \<Longrightarrow>
       device_effects w' = (device_effects w)(PORT_MAIN := device_effects w PORT_MAIN @
         [breakpoint_request CMD_KERNEL_REMOVEBREAKPOINT (ac_processHandle (cw_app w)) (u64_bytes a)])"
    "run_state (SuspendKernelBreakpointTracked os a PORT_MAIN) w = (r, w') \<Longrightarrow>
       device_effects w' = (device_effects w)(PORT_MAIN := device_effects w PORT_MAIN @
         [breakpoint_request CMD_KERNEL_SUSPENDBREAKPOINT (ac_processHandle (cw_app w)) (u64_bytes a)])"
    "run_state (ResumeKernelBreakpointTracked os a PORT_MAIN) w = (r, w') \<Longrightarrow>
       device_effects w' = (device_effects w)(PORT_MAIN := device_effects w PORT_MAIN @
         [breakpoint_request CMD_KERNEL_RESUMEBREAKPOINT (ac_processHandle (cw_app w)) (u64_bytes a)])"
  using assms(1) unfolding SetKernelBreakpointTracked_def RemoveKernelBreakpointTracked_def
    SuspendKernelBreakpointTracked_def ResumeKernelBreakpointTracked_def
  by (auto elim!: run_bindE split: if_split_asm
      simp: bp_command_sizes mutating_def tracked_effects
        mutateBreakpointTracked_confirmed [OF _ assms]
      simp del: run_state_bind)

lemma mutateOnBackend_confirmed:
  assumes "run_state (mutateOnBackend (systemBackend os) ctx a action setReq) w = (r, w')"
    and "bmb_responseReceived r" and "stream_inv w"
  shows "\<exists>t. oc_target ctx = Some t \<and> device_effects w' = (device_effects w)(PORT_MAIN :=
    device_effects w PORT_MAIN @ [action_request action setReq (ts_processHandle t) a])"
proof -
  have inv: "stream_inv (w\<lparr>cw_env := e\<rparr>)" for e using assms(3) by simp
  show ?thesis
    using assms(1,2)
    unfolding mutateOnBackend_def systemBackend_sel sys_setBreakpoint_def sys_removeBreakpoint_def
      sys_suspendBreakpoint_def sys_resumeBreakpoint_def
    by (auto elim!: run_withContextE run_bindE split: BreakpointAction.splits option.splits
        simp: action_request_def toBreakpointBackendResult_def bp_tracked_confirmed [OF _ inv]
        simp del: run_state_bind)
qed

section \<open>Every operation keeps the streams in order\<close>

lemma in_sync_context [in_sync_intros]: "in_sync (contextMatches ctx l)"
  by (rule in_sync_silent) (rule silent_intros)

lemma in_sync_withContext [in_sync_intros]: "in_sync k \<Longrightarrow> in_sync (withContext os p ctx none k)"
  unfolding withContext_def by (intro keeps_intros in_sync_intros)

lemma in_sync_clearUxnIfKernel [in_sync_intros]: "in_sync (clearUxnIfKernel os)"
  unfolding clearUxnIfKernel_def by (intro keeps_intros in_sync_intros)

lemma in_sync_connect [in_sync_intros]: "in_sync (sys_connect os host port)"
  unfolding sys_connect_def by (intro keeps_intros in_sync_intros)

lemma in_sync_disconnect [in_sync_intros]: "in_sync (sys_disconnect os)"
  unfolding sys_disconnect_def by (intro keeps_intros in_sync_intros)

lemma in_sync_fetchMemoryType [in_sync_intros]: "in_sync (sys_fetchMemoryType os)"
  unfolding sys_fetchMemoryType_def by (intro keeps_intros in_sync_intros)

lemma in_sync_initializeDriver [in_sync_intros]:
  "in_sync (sys_initializeDriver os ctx cardName reclaim)"
  unfolding sys_initializeDriver_def by (intro keeps_intros in_sync_intros)

lemma in_sync_fetchProcesses [in_sync_intros]: "in_sync (sys_fetchProcesses os ctx)"
  unfolding sys_fetchProcesses_def by (intro keeps_intros in_sync_intros)

lemma in_sync_beginMutation [in_sync_intros]:
  "in_sync (State (\<lambda>w. case beginTargetMutation expected g (cw_app w) of (m, a) \<Rightarrow> (m, w\<lparr>cw_app := a\<rparr>)))"
  by (auto simp: keeps_def stream_inv_def split: prod.splits)

lemma in_sync_openProcess [in_sync_intros]: "in_sync (sys_openProcess os ctx pid name)"
  unfolding sys_openProcess_def mutationAbort_def
  by (intro keeps_intros in_sync_intros in_sync_put_world) simp_all

lemma in_sync_readTransaction [in_sync_intros]:
  "in_sync (rt_valid (readTransaction os ctx l v))"
  "in_sync (rt_fetchModules (readTransaction os ctx l v))"
  "in_sync (rt_readMemory (readTransaction os ctx l v) a n)"
  "in_sync (rt_readMemoryBatch (readTransaction os ctx l v) requests)"
  unfolding readTransaction_def Let_def IMemReadTransaction.simps
  by (intro keeps_intros in_sync_intros)+

lemma in_sync_symbolTransaction [in_sync_intros]:
  "in_sync (sy_valid (symbolTransaction os ctx l v))"
  "in_sync (sy_fetchModules (symbolTransaction os ctx l v))"
  "in_sync (sy_initialize (symbolTransaction os ctx l v) base)"
  "in_sync (sy_fetch (symbolTransaction os ctx l v) off n)"
  unfolding symbolTransaction_def Let_def IMemSymbolTransaction.simps
  by (intro keeps_intros in_sync_intros)+

lemma in_sync_symbolFind:
  "length name \<le> 4096 \<Longrightarrow> in_sync (sy_find (symbolTransaction os ctx l v) base name)"
  unfolding symbolTransaction_def Let_def IMemSymbolTransaction.simps
  by (intro keeps_intros in_sync_intros framed_in_sync [OF framed_SymbolFind])

lemma in_sync_begin [in_sync_intros]:
  "in_sync (sys_beginReadTransaction os ctx)" "in_sync (sys_beginSymbolTransaction os ctx)"
  "in_sync (sys_readMemory os ctx a n)" "in_sync (sys_readMemoryBatch os ctx requests)"
  unfolding sys_beginReadTransaction_def sys_beginSymbolTransaction_def sys_readMemory_def
    sys_readMemoryBatch_def SystemReadTransaction_def SystemSymbolTransaction_def State_Monad.bind_assoc
    State_Monad.bind_left_identity
  by (intro keeps_intros in_sync_intros)+

lemma in_sync_mutations [in_sync_intros]:
  "in_sync (sys_writeMemory os ctx a bs)" "in_sync (sys_setBreakpoint os ctx a access n)"
  "in_sync (sys_removeBreakpoint os ctx a)" "in_sync (sys_suspendBreakpoint os ctx a)"
  "in_sync (sys_resumeBreakpoint os ctx a)" "in_sync (sys_fetchBreakpointHits os ctx a limit)"
  "in_sync (sys_fetchBreakpointSlots os ctx capacity)"
  unfolding sys_writeMemory_def sys_setBreakpoint_def sys_removeBreakpoint_def
    sys_suspendBreakpoint_def sys_resumeBreakpoint_def sys_fetchBreakpointHits_def
    sys_fetchBreakpointSlots_def
  by (intro keeps_intros in_sync_intros)+

lemma in_sync_uxn [in_sync_intros]:
  "in_sync (sys_installUxnBreakpoint os ctx a)" "in_sync (sys_removeUxnBreakpoint os ctx a)"
  "in_sync (sys_waitUxnBreakpoint os ctx slot timeoutMs seq)"
  "in_sync (sys_queryUxnBreakpointStatus os ctx slot)" "in_sync (sys_clearUxnBreakpoints os ctx)"
  unfolding sys_installUxnBreakpoint_def sys_removeUxnBreakpoint_def sys_waitUxnBreakpoint_def
    sys_queryUxnBreakpointStatus_def sys_clearUxnBreakpoints_def
  by (intro keeps_intros in_sync_intros)+

lemma in_sync_resumeUxn [in_sync_intros]: "in_sync (sys_resumeUxnBreakpoint os ctx slot wr regs)"
  unfolding sys_resumeUxnBreakpoint_def
  by (intro keeps_intros in_sync_intros framed_in_sync [OF framed_ResumeUxnBreakpointTracked]) simp

text \<open>
  \<open>backend_step os w w'\<close>: one call of the backend, or of a transaction it has handed out, takes the
  client from \<open>w\<close> to \<open>w'\<close>. Symbol names are those the server accepts. A client starts with all ports closed.
\<close>

inductive backend_step :: "'e SocketOs \<Rightarrow> 'e ClientWorld \<Rightarrow> 'e ClientWorld \<Rightarrow> bool" for os where
  "run_state (sys_connect os host port) w = (r, w') \<Longrightarrow> backend_step os w w'"
| "run_state (sys_disconnect os) w = (r, w') \<Longrightarrow> backend_step os w w'"
| "run_state (FetchServerVersion os PORT_MAIN) w = (r, w') \<Longrightarrow> backend_step os w w'"
| "run_state (sys_fetchMemoryType os) w = (r, w') \<Longrightarrow> backend_step os w w'"
| "run_state (sys_initializeDriver os ctx cardName reclaim) w = (r, w') \<Longrightarrow> backend_step os w w'"
| "run_state (sys_fetchProcesses os ctx) w = (r, w') \<Longrightarrow> backend_step os w w'"
| "run_state (sys_openProcess os ctx pid name) w = (r, w') \<Longrightarrow> backend_step os w w'"
| "run_state (sys_beginReadTransaction os ctx) w = (r, w') \<Longrightarrow> backend_step os w w'"
| "run_state (sys_beginSymbolTransaction os ctx) w = (r, w') \<Longrightarrow> backend_step os w w'"
| "run_state (rt_fetchModules (readTransaction os ctx l v)) w = (r, w') \<Longrightarrow> backend_step os w w'"
| "run_state (rt_readMemory (readTransaction os ctx l v) a n) w = (r, w') \<Longrightarrow> backend_step os w w'"
| "run_state (rt_readMemoryBatch (readTransaction os ctx l v) rs) w = (r, w') \<Longrightarrow> backend_step os w w'"
| "run_state (sy_fetchModules (symbolTransaction os ctx l v)) w = (r, w') \<Longrightarrow> backend_step os w w'"
| "run_state (sy_initialize (symbolTransaction os ctx l v) a) w = (r, w') \<Longrightarrow> backend_step os w w'"
| "run_state (sy_fetch (symbolTransaction os ctx l v) off m) w = (r, w') \<Longrightarrow> backend_step os w w'"
| "length name \<le> 4096 \<Longrightarrow> run_state (sy_find (symbolTransaction os ctx l v) a name) w = (r, w') \<Longrightarrow>
     backend_step os w w'"
| "run_state (sys_readMemory os ctx a n) w = (r, w') \<Longrightarrow> backend_step os w w'"
| "run_state (sys_readMemoryBatch os ctx rs) w = (r, w') \<Longrightarrow> backend_step os w w'"
| "run_state (sys_writeMemory os ctx a bs) w = (r, w') \<Longrightarrow> backend_step os w w'"
| "run_state (sys_setBreakpoint os ctx a access n) w = (r, w') \<Longrightarrow> backend_step os w w'"
| "run_state (sys_removeBreakpoint os ctx a) w = (r, w') \<Longrightarrow> backend_step os w w'"
| "run_state (sys_suspendBreakpoint os ctx a) w = (r, w') \<Longrightarrow> backend_step os w w'"
| "run_state (sys_resumeBreakpoint os ctx a) w = (r, w') \<Longrightarrow> backend_step os w w'"
| "run_state (sys_fetchBreakpointHits os ctx a m) w = (r, w') \<Longrightarrow> backend_step os w w'"
| "run_state (sys_fetchBreakpointSlots os ctx n) w = (r, w') \<Longrightarrow> backend_step os w w'"
| "run_state (sys_installUxnBreakpoint os ctx a) w = (r, w') \<Longrightarrow> backend_step os w w'"
| "run_state (sys_removeUxnBreakpoint os ctx a) w = (r, w') \<Longrightarrow> backend_step os w w'"
| "run_state (sys_waitUxnBreakpoint os ctx slot timeoutMs seq) w = (r, w') \<Longrightarrow> backend_step os w w'"
| "run_state (sys_resumeUxnBreakpoint os ctx slot wr regs) w = (r, w') \<Longrightarrow> backend_step os w w'"
| "run_state (sys_queryUxnBreakpointStatus os ctx slot) w = (r, w') \<Longrightarrow> backend_step os w w'"
| "run_state (sys_clearUxnBreakpoints os ctx) w = (r, w') \<Longrightarrow> backend_step os w w'"

inductive client_reachable :: "'e SocketOs \<Rightarrow> 'e ClientWorld \<Rightarrow> bool" for os where
  start: "\<forall>p. \<not> cw_open w p \<Longrightarrow> client_reachable os w"
| step: "client_reachable os w \<Longrightarrow> backend_step os w w' \<Longrightarrow> client_reachable os w'"

lemma in_syncD: "run_state m w = (r, w') \<Longrightarrow> in_sync m \<Longrightarrow> stream_inv w \<Longrightarrow> stream_inv w'"
  by (simp add: keeps_def)

lemma backend_step_stream_inv:
  assumes "backend_step os w w'" "stream_inv w"
  shows "stream_inv w'"
  using assms
  by cases (erule in_syncD, (rule in_sync_intros | erule in_sync_symbolFind), assumption)+

lemma client_reachable_stream_inv: "client_reachable os w \<Longrightarrow> stream_inv w"
proof (induction rule: client_reachable.induct)
  case (start w)
  then show ?case by (simp add: stream_inv_def)
qed (rule backend_step_stream_inv)

end
