(* ===== verification/IpcSystem.thy ===== *)
theory IpcSystem
  imports IpcContract SystemMemBackend
begin

text \<open>
  The IPC server over the real backend: the socket client honours the contract \<open>mem_service\<close>, so everything that
  \<open>IpcContract\<close> shows holds for it. The wire requests of a write that an IPC client has asked for are
  identified, and the length of a process list is bounded by the protocol.
\<close>

declare run_state_bind [simp del]

section \<open>The queries of the backend\<close>

lemmas keeps_lease [keeps_intros] = silent_lease [THEN silent_keeps] contextMatches_silent [THEN silent_keeps]

lemma keeps_withContext [keeps_intros]:
  "keeps stream_inv device_effects k \<Longrightarrow> keeps stream_inv device_effects (withContext os p ctx none k)"
  unfolding withContext_def by (intro keeps_intros)

text \<open>Waiting for an event and asking for a slot are requests without an effect.\<close>

lemma framed_uxn_queries:
  "sends p [] (framed started) (WaitUxnBreakpointTracked os slot timeoutMs seq p)"
  "sends p [] (framed started) (QueryUxnBreakpointStatusTracked os slot p)"
  unfolding WaitUxnBreakpointTracked_def QueryUxnBreakpointStatusTracked_def Let_def
    receiveResultWithPayload_def receiveResult_def
  by (intro sends_if framed_idle framed_execute framed_send answer; simp add: frame_simps)+

lemma sys_queries:
  "keeps stream_inv device_effects (FetchServerVersion os p)"
  "keeps stream_inv device_effects (sys_fetchProcesses os ctx)"
  "keeps stream_inv device_effects (sys_fetchBreakpointHits os ctx a limit)"
  "keeps stream_inv device_effects (sys_fetchBreakpointSlots os ctx capacity)"
  "keeps stream_inv device_effects (sys_waitUxnBreakpoint os ctx slot timeoutMs sequence)"
  "keeps stream_inv device_effects (sys_queryUxnBreakpointStatus os ctx slot)"
  unfolding sys_fetchProcesses_def sys_fetchBreakpointHits_def sys_fetchBreakpointSlots_def
    sys_waitUxnBreakpoint_def sys_queryUxnBreakpointStatus_def
  by (intro keeps_intros framed_keeps [OF framed_FetchServerVersion]
      framed_keeps [OF framed_FetchProcessList] framed_keeps [OF framed_ReadKernelBreakpointInfo]
      framed_keeps [OF framed_QueryKernelBreakpointThreads] framed_keeps [OF framed_uxn_queries(1)]
      framed_keeps [OF framed_uxn_queries(2)])+

lemma readTransaction_quiet: "quiet_read stream_inv device_effects (readTransaction os ctx l v)"
  unfolding quiet_read_def readTransaction_def Let_def IMemReadTransaction.simps
  by (intro conjI allI keeps_intros framed_keeps [OF framed_FetchModuleList]
      framed_keeps [OF framed_ReadProcessMemoryBytes] framed_keeps [OF framed_ReadBratchAddr])

lemma symbolTransaction_quiet: "quiet_symbols stream_inv device_effects (symbolTransaction os ctx l v)"
  unfolding quiet_symbols_def symbolTransaction_def Let_def IMemSymbolTransaction.simps
  by (intro conjI allI impI keeps_intros framed_keeps [OF framed_FetchModuleList]
      framed_keeps [OF framed_SymbolInit] framed_keeps [OF framed_SymbolGetList]
      framed_keeps [OF framed_SymbolFind]) (simp add: kMaxTextBytes_def)

lemma sys_begin_quiet:
  "keeps stream_inv device_effects (sys_beginReadTransaction os ctx)"
  "keeps stream_inv device_effects (sys_beginSymbolTransaction os ctx)"
  "keeps stream_inv device_effects (sys_readMemory os ctx a n)"
  "keeps stream_inv device_effects (sys_readMemoryBatch os ctx requests)"
  unfolding sys_beginReadTransaction_def sys_beginSymbolTransaction_def sys_readMemory_def
    sys_readMemoryBatch_def SystemReadTransaction_def SystemSymbolTransaction_def State_Monad.bind_assoc
    State_Monad.bind_left_identity
  by (intro keeps_intros quiet_readD [OF readTransaction_quiet] quiet_symbolsD [OF symbolTransaction_quiet])+

lemma sys_transactions:
  "run_state (sys_beginReadTransaction os ctx) w = (Some rtx, w1) \<Longrightarrow> quiet_read stream_inv device_effects rtx"
  "run_state (sys_beginSymbolTransaction os ctx) w = (Some stx, w1) \<Longrightarrow> quiet_symbols stream_inv device_effects stx"
  unfolding sys_beginReadTransaction_def sys_beginSymbolTransaction_def SystemReadTransaction_def
    SystemSymbolTransaction_def
  by (auto elim!: run_bindE split: if_split_asm intro: readTransaction_quiet symbolTransaction_quiet)

interpretation sysq: mem_service "systemBackend os" stream_inv device_effects
  by unfold_locales
    (simp_all only: systemBackend_sel sys_observers sys_queries sys_begin_quiet sys_transactions
      in_sync_openProcess)

section \<open>Process lists are bounded\<close>

text \<open>\<open>yields Q m\<close>: every result of \<open>m\<close> satisfies \<open>Q\<close>.\<close>

definition yields :: "('a \<Rightarrow> bool) \<Rightarrow> ('s, 'a) state \<Rightarrow> bool" where
  "yields Q m \<longleftrightarrow> (\<forall>s. Q (fst (run_state m s)))"

lemma yields_bind: "(\<And>a. yields Q (k a)) \<Longrightarrow> yields Q (State_Monad.bind m k)"
  by (auto simp: yields_def run_state_bind split: prod.split)

lemma yields_return: "Q a \<Longrightarrow> yields Q (State_Monad.return a)"
  by (simp add: yields_def)

lemma yields_if: "yields Q m \<Longrightarrow> yields Q n \<Longrightarrow> yields Q (if b then m else n)"
  by simp

lemma yields_io:
  "Q failed \<Longrightarrow> yields Q k \<Longrightarrow> yields Q (send_or os p data failed k)"
  "Q failed \<Longrightarrow> (\<And>bs. yields Q (f bs)) \<Longrightarrow> yields Q (recv_or os p n failed f)"
  "Q failed \<Longrightarrow> yields Q (rejectMalformedResponse p failed)"
  "Q failed \<Longrightarrow> yields Q k \<Longrightarrow> yields Q (executeNoHandle os p failed k)"
  unfolding send_or_def recv_or_def rejectMalformedResponse_def executeNoHandle_def
    ExecuteRequestWithLock_def
  by (intro yields_bind yields_if yields_return; simp split: option.split add: yields_return)+

lemmas yields_intros = yields_if yields_return yields_io

lemma recvProcesses_length:
  "yields (\<lambda>r. \<forall>ps. r = Some ps \<longrightarrow> length ps \<le> N) (recvProcesses os p i nameBytes items)"
  if "length items + i \<le> N"
  using that
proof (induction i arbitrary: nameBytes items)
  case (Suc i)
  then show ?case unfolding recvProcesses.simps Let_def by (intro yields_intros) auto
qed (simp add: yields_def)

lemma FetchProcessList_length:
  "yields (\<lambda>r. \<forall>ps. r = Some ps \<longrightarrow> length ps \<le> 65536) (FetchProcessList os p)"
  unfolding FetchProcessList_def Let_def
  by (intro yields_io yields_return) (auto simp: isValidCount_def intro!: recvProcesses_length yields_io)

lemma sys_fetchProcesses_length:
  assumes "run_state (sys_fetchProcesses os ctx) w = (Some ps, w')"
  shows "length ps \<le> 65536"
  using assms FetchProcessList_length [of os PORT_MAIN] unfolding sys_fetchProcesses_def yields_def
  by (auto elim!: run_bindE split: if_split_asm) (metis fst_conv)

lemma list_processes_ends:
  "fst (run_state (list_processes 66 (systemBackend os) p) s) \<noteq> Diverges"
proof -
  have "r \<noteq> None" if "run_state (list_processes_loop (systemBackend os) ctx 66 0 []) w = (r, w')" for ctx w r w'
    using that by (rule list_processes_loop_returns [where N = 65536, rotated 2])
      (auto dest: sys_fetchProcesses_length)
  then show ?thesis
    unfolding list_processes_def
    by (auto simp: run_state_bind respond_def answer_def call_def on_service_def on_world_def
        split: prod.split option.split)
qed

lemma list_processes_registered:
  "map_of (RegisterBuiltinMethods lib rounds be) ''list_processes'' = Some (list_processes rounds be)"
  by (simp add: RegisterBuiltinMethods_def)

section \<open>Contexts and writes\<close>

lemma captureContext_system:
  "run_state (captureContext (systemBackend os) True) w =
     (\<lparr>oc_connectionGeneration = ds_generation (cw_session w),
       oc_target = Some (snapshotTarget (ds_generation (cw_session w)) (cw_app w)),
       oc_cancellation = None, oc_deadline = time_point_max\<rparr>, w)"
  by (simp add: captureContext_def get_world_def run_state_bind)

lemma write_memory_success:
  assumes "run_state (write_memory be p) s = (Returns j, s')" "members j ''success'' = Some (JBool True)"
  obtains addr hexStr bytes ctx r w1 where "ParseAddress p ''address'' = Inr addr"
    "members p ''hex'' = Some (JString hexStr)" "HexToBytes hexStr = Inr bytes"
    "run_state (captureContext be True) (ipc_world s) = (ctx, w1)"
    "run_state (writeMemory be ctx \<lparr>wq_address = addr, wq_bytes = bytes\<rparr>) w1 = (Success r, ipc_world s')"
    "j = successReply (JObject [(''written'', ju32 (wr_writtenBytes r))])"
proof -
  have hexed: "members p ''hex'' = Some (JString h)" if "getStringParam p ''hex'' [] True False n = Inr h" for h n
    using that by (auto simp: getStringParam_def throw_def split: option.split_asm json.split_asm if_split_asm)
  have no: "members (errorReply m) ''success'' \<noteq> Some (JBool True)"
    "members (serviceFailure e) ''success'' \<noteq> Some (JBool True)" for m e
    by (simp_all add: errorReply_def serviceFailure_def members_def)
  from assms show thesis
    unfolding write_memory_def run_parsed_Returns
    by (auto elim!: run_bindE callE dest!: hexed intro: that split: if_split_asm Result.split_asm simp: no)
qed

end
