(* ===== verification/EndToEnd.thy ===== *)
theory EndToEnd
  imports ClientServer IpcSystem
begin

text \<open>
  From a client of the IPC server to the device: the memory service over the real backend, with the server model behind its
  sockets. The lemmas follow one read and one write through all layers.
\<close>

section \<open>A client with an attached process\<close>

declare run_state_bind [simp del]

definition attached :: "int \<Rightarrow> 'd Link ClientWorld \<Rightarrow> bool" where
  "attached h w \<longleftrightarrow> ready h w \<and> ac_selectedPid (cw_app w) > 0 \<and> ac_processRevision (cw_app w) AND 1 = 0"

definition context_of :: "'e ClientWorld \<Rightarrow> OperationContext" where
  "context_of w = \<lparr>oc_connectionGeneration = ds_generation (cw_session w),
     oc_target = Some (snapshotTarget (ds_generation (cw_session w)) (cw_app w)),
     oc_cancellation = None, oc_deadline = time_point_max\<rparr>"

abbreviation "link_backend api chunk \<equiv> systemBackend (link_os api chunk)"

lemma clt_bind: "clt P m a Q \<Longrightarrow> clt Q (k a) b R \<Longrightarrow> clt P (State_Monad.bind m k) b R"
  by (auto simp: clt_def run_state_bind)

lemma clt_validate:
  assumes "attached h w0"
  shows "clt (linked PORT_MAIN w0 i out d) (validateContext (link_backend api chunk) (context_of w0) rc rt cc) None
    (linked PORT_MAIN w0 i out d)"
  using assms
  by (auto simp: clt_def validateContext_def validateConnection_def validateTarget_def cancelRequested_def
      deadlineExpired_def context_of_def on_env_def run_state_bind linked_def attached_def ready_def
      snapshotTarget_def isAttached_def IsConnected_def IsPoisoned_def systemBackend_def)

lemma clt_return_if_error:
  "clt P v None Q \<Longrightarrow> clt Q k a R \<Longrightarrow> clt P (return_if_error v k) a R"
  unfolding return_if_error_def by (rule clt_bind) auto

text \<open>The lease and the check of the context before an operation of the backend.\<close>

lemma clt_context:
  assumes "attached h w0" "clt (linked PORT_MAIN w0 i out d) k a Q"
  shows "clt (linked PORT_MAIN w0 i out d) (withContext (link_os api chunk) PORT_MAIN (context_of w0) none k) a Q"
  using assms
  by (auto simp: clt_def withContext_def TransactionLease_def acquireLease_def leaseCurrent_def contextMatches_def
      context_of_def on_env_def run_state_bind linked_def attached_def ready_def AcquireRequest_def
      isCurrent_def snapshotTarget_def matchesStableTarget_def matchesLoads_def)

lemma clt_sys_readMemory:
  assumes "attached h w0" "clt (linked PORT_MAIN w0 i out d) (ReadProcessMemoryBytes (link_os api chunk) address n PORT_MAIN) a Q"
  shows "clt (linked PORT_MAIN w0 i out d) (sys_readMemory (link_os api chunk) (context_of w0) address n) a Q"
  using assms
  by (auto simp: clt_def sys_readMemory_def SystemReadTransaction_def readTransaction_def Let_def TransactionLease_def
      acquireLease_def leaseCurrent_def contextMatches_def
      context_of_def on_env_def run_state_bind linked_def attached_def ready_def AcquireRequest_def
      isCurrent_def snapshotTarget_def matchesStableTarget_def matchesLoads_def)

section \<open>One read\<close>

lemma clt_readMemory:
  assumes "healthy api" "attached h w0"
    and "0 < n" "n \<le> kMaxMemoryReadBytes" "unat address + unat n \<le> 2 ^ 64"
    and "run_state (api_ReadProcessMemory api (of_int h) address (replicate (unat n) 0)) d = ((got, buf), d')"
    and "length buf = unat n" "0 < got" "nat got \<le> unat n"
  shows "clt (linked PORT_MAIN w0 [] [] d)
    (readMemory (link_backend api chunk) (context_of w0) \<lparr>rq_address = address, rq_size = n\<rparr>)
    (Success \<lparr>mb_address = address, mb_bytes = take (nat got) buf, mb_target = the (oc_target (context_of w0))\<rparr>)
    (linked PORT_MAIN w0 [] [] d')"
proof -
  have valid: "isValidReadSize n"
    using assms(3,4) by (simp add: isValidReadSize_def kMaxMemoryReadBytes_def word_le_nat_alt)
  have h: "ready h w0" using assms(2) by (simp add: attached_def)
  have nz: "(ucast n :: u64) \<noteq> 0"
    using assms(3) by (metis unat_ucast_u32_u64 unsigned_0 unsigned_eq_0_iff word_neq_0_conv)
  have wrap: "\<not> address > UINT64_MAX - ucast (n - 1)"
    using assms(3,5) nz range_no_wrap [of "ucast n" address] by (simp add: ucast_pred_u32)
  have "clt (linked PORT_MAIN w0 [] [] d) (ReadProcessMemoryBytes (link_os api chunk) address n PORT_MAIN)
     (Some (take (nat got) buf)) (linked PORT_MAIN w0 [] [] d')"
    using clt_read [OF assms(1) h valid assms(6,7) _ assms(9), of PORT_MAIN chunk] assms(8) by simp
  note io = clt_sys_readMemory [OF assms(2) this]
  have sel: "be_readMemory (link_backend api chunk) = sys_readMemory (link_os api chunk)" by (simp add: systemBackend_def)
  have got: "\<not> (take (nat got) buf = [] \<or> length (take (nat got) buf) > unat n)" "\<not> (n = 0 \<or> n > kMaxMemoryReadBytes)"
    using assms(3,4,7-9) by (auto simp: not_less)
  show ?thesis
    unfolding readMemory_def MemoryReadRequest.simps if_not_P [OF wrap] if_not_P [OF got(2)] sel
    by (rule clt_return_if_error [OF clt_validate [OF assms(2)]], rule clt_bind [OF io],
        unfold option.case if_not_P [OF got(1)], rule clt_return_if_error [OF clt_validate [OF assms(2)]],
        rule clt_return) simp
qed

section \<open>One write\<close>

lemma clt_writeMemory:
  assumes "healthy api" "attached h w0"
    and "data \<noteq> []" "length data \<le> kMaxMemoryWriteBytes" "unat address + length data \<le> 2 ^ 64"
    and "run_state (api_WriteProcessMemory api (of_int h) address data) d = (int (length data), d')"
  shows "clt (linked PORT_MAIN w0 [] [] d)
    (writeMemory (link_backend api chunk) (context_of w0) \<lparr>wq_address = address, wq_bytes = data\<rparr>)
    (Success \<lparr>wr_address = address, wr_requestedBytes = of_nat (length data), wr_writtenBytes = of_nat (length data),
       wr_completedAfterCancelRequest = False, wr_completedAfterDeadline = False,
       wr_target = the (oc_target (context_of w0))\<rparr>)
    (linked PORT_MAIN w0 [] [] d')"
proof -
  have h: "ready h w0" using assms(2) by (simp add: attached_def)
  have len: "length data \<le> kMaxNetworkAllocSize" "unat (of_nat (length data) :: u64) = length data"
    using assms(4) by (simp_all add: kMaxMemoryWriteBytes_def unat_of_nat take_bit_nat_eq_self)
  have nz: "(of_nat (length data) :: u64) \<noteq> 0" using assms(3) len(2) by auto
  have guards: "\<not> (data = [] \<or> length data > kMaxMemoryWriteBytes)"
    "\<not> address > UINT64_MAX - (of_nat (length data) - 1)"
    using assms(3-5) nz len(2) range_no_wrap [of "of_nat (length data)" address] by auto
  have "clt (linked PORT_MAIN w0 [] [] d) (sys_writeMemory (link_os api chunk) (context_of w0) address data)
     \<lparr>wb_requestStarted = True, wb_responseReceived = True, wb_writtenBytes = int (length data)\<rparr>
     (linked PORT_MAIN w0 [] [] d')"
    unfolding sys_writeMemory_def
    by (rule clt_context [OF assms(2)], rule clt_bind [OF clt_write [OF assms(1) h assms(3) len(1) assms(6)]])
      (simp_all add: clt_return)
  note io = this
  have sel: "be_writeMemory (link_backend api chunk) = sys_writeMemory (link_os api chunk)" by (simp add: systemBackend_def)
  have late: "clt (linked PORT_MAIN w0 [] [] d') (cancelRequested (link_backend api chunk) (context_of w0)) False (linked PORT_MAIN w0 [] [] d')"
    "clt (linked PORT_MAIN w0 [] [] d') (deadlineExpired (link_backend api chunk) (context_of w0)) False (linked PORT_MAIN w0 [] [] d')"
    by (auto simp: clt_def cancelRequested_def deadlineExpired_def context_of_def systemBackend_def on_env_def run_state_bind)
  show ?thesis
    unfolding writeMemory_def MemoryWriteRequest.simps if_not_P [OF guards(1)] if_not_P [OF guards(2)] sel
    by (rule clt_return_if_error [OF clt_validate [OF assms(2)]], rule clt_bind [OF io], simp,
        rule clt_bind [OF clt_validate [OF assms(2)]], simp, rule clt_bind [OF late(1)], rule clt_bind [OF late(2)],
        simp add: clt_return)
qed

section \<open>Through the IPC server\<close>

lemma run_call:
  "run_state m (ipc_world s) = (a, w') \<Longrightarrow>
     run_state (call m) s = (a, s\<lparr>ip_service := (ip_service s)\<lparr>bp_world := w'\<rparr>\<rparr>)"
  by (simp add: call_def on_service_def on_world_def)

lemma run_captured:
  assumes "clt (linked PORT_MAIN (ipc_world s) [] [] d) (k (context_of (ipc_world s))) r Q"
    and "linked PORT_MAIN (ipc_world s) [] [] d (ipc_world s)"
  obtains w' where "Q w'" "run_state (do { ctx \<leftarrow> call (captureContext (systemBackend os) True); call (k ctx) }) s =
    (r, s\<lparr>ip_service := (ip_service s)\<lparr>bp_world := w'\<rparr>\<rparr>)"
proof -
  from assms obtain w' where w': "run_state (k (context_of (ipc_world s))) (ipc_world s) = (r, w')" "Q w'"
    by (auto simp: clt_def)
  have "run_state (call (captureContext (systemBackend os) True)) s = (context_of (ipc_world s), s)"
    using run_call [OF captureContext_system] by (simp add: context_of_def)
  with run_call [OF w'(1)] w'(2) show thesis by (intro that) (simp_all add: run_state_bind)
qed

lemma run_DispatchRequest:
  assumes "asks_for request route" "is_object (request_params request)"
    and "map_of (RegisterBuiltinMethods lib rounds be) route = Some handler"
    and "run_state (handler (request_params request)) s = (Returns j, s')"
  shows "run_state (DispatchRequest lib rounds be request) s = (Returns j, s')"
  using assms unfolding DispatchRequest_def asks_for_def request_params_def Let_def
  by (auto simp: run_state_bind split: option.splits)

lemma getPositiveSizeParam_range:
  assumes "getPositiveSizeParam p key dflt upper = Inr n" "0 < dflt" "dflt \<le> upper"
  shows "0 < n \<and> n \<le> upper"
proof -
  have "0 < (of_nat v :: u32) \<and> (of_nat v :: u32) \<le> upper" if "v \<noteq> 0" "v \<le> unat upper" for v
  proof -
    have "unat (of_nat v :: u32) = v"
      using le_less_trans [OF that(2) unsigned_less [of upper]] by (simp add: unat_of_nat take_bit_nat_eq_self)
    with that show ?thesis by (simp add: word_le_nat_alt word_greater_zero_iff unat_eq_zero [symmetric])
  qed
  with assms show ?thesis
    by (auto simp: getPositiveSizeParam_def bind_throws_def throw_def
        split: option.split_asm if_split_asm sum.split_asm)
qed

lemma dispatch_read_end_to_end:
  assumes "healthy api" "attached h (ipc_world s)" "linked PORT_MAIN (ipc_world s) [] [] d (ipc_world s)"
    and "asks_for request ''read_memory''" "is_object (request_params request)"
    and "ParseAddress (request_params request) ''address'' = Inr address"
    and "getPositiveSizeParam (request_params request) ''size'' 256 kMaxIpcMemoryTransferBytes = Inr n"
    and "unat address + unat n \<le> 2 ^ 64"
    and "run_state (api_ReadProcessMemory api (of_int h) address (replicate (unat n) 0)) d = ((got, buf), d')"
    and "length buf = unat n" "0 < got" "nat got \<le> unat n"
  shows "\<exists>s'. run_state (DispatchRequest lib rounds (link_backend api chunk) request) s =
      (Returns (successReply (JObject [(''hex'', JString (BytesToHex (take (nat got) buf))), (''size'', jsize (nat got))])), s') \<and>
    linked PORT_MAIN (ipc_world s) [] [] d' (ipc_world s')"
proof -
  have n: "0 < n" "n \<le> kMaxMemoryReadBytes"
    using getPositiveSizeParam_range [OF assms(7)] order_trans [of n 65536 16777216]
    by (auto simp: kMaxIpcMemoryTransferBytes_def kMaxMemoryReadBytes_def)
  let ?k = "\<lambda>ctx. readMemory (link_backend api chunk) ctx \<lparr>rq_address = address, rq_size = n\<rparr>"
  obtain w' where w': "linked PORT_MAIN (ipc_world s) [] [] d' w'"
    and run: "run_state (do { ctx \<leftarrow> call (captureContext (link_backend api chunk) True); call (?k ctx) }) s =
      (Success \<lparr>mb_address = address, mb_bytes = take (nat got) buf,
        mb_target = the (oc_target (context_of (ipc_world s)))\<rparr>, s\<lparr>ip_service := (ip_service s)\<lparr>bp_world := w'\<rparr>\<rparr>)"
    by (rule run_captured [where k = ?k and os = "link_os api chunk", OF clt_readMemory [OF assms(1,2) n assms(8-12)] assms(3)]) blast
  from run have "run_state (read_memory (link_backend api chunk) (request_params request)) s =
      (Returns (successReply (JObject [(''hex'', JString (BytesToHex (take (nat got) buf))), (''size'', jsize (nat got))])),
       s\<lparr>ip_service := (ip_service s)\<lparr>bp_world := w'\<rparr>\<rparr>)"
    using assms(6,7,10,12)
    by (auto simp: read_memory_def parsed_def run_state_bind respond_def answer_def split: prod.splits)
  from run_DispatchRequest [where handler = "read_memory (link_backend api chunk)", OF assms(4,5) _ this] w' show ?thesis by (auto simp: RegisterBuiltinMethods_def)
qed

lemma dispatch_write_end_to_end:
  assumes "healthy api" "attached h (ipc_world s)" "linked PORT_MAIN (ipc_world s) [] [] d (ipc_world s)"
    and "asks_for request ''write_memory''" "is_object (request_params request)"
    and "ParseAddress (request_params request) ''address'' = Inr address"
    and "getStringParam (request_params request) ''hex'' [] True False kMaxRequestBytes = Inr hexStr"
    and "HexToBytes hexStr = Inr data" "data \<noteq> []" "length data \<le> unat kMaxIpcMemoryTransferBytes"
    and "unat address + length data \<le> 2 ^ 64"
    and "run_state (api_WriteProcessMemory api (of_int h) address data) d = (int (length data), d')"
  shows "\<exists>s'. run_state (DispatchRequest lib rounds (link_backend api chunk) request) s =
      (Returns (successReply (JObject [(''written'', ju32 (of_nat (length data)))])), s') \<and>
    linked PORT_MAIN (ipc_world s) [] [] d' (ipc_world s')"
proof -
  have len: "length data \<le> kMaxMemoryWriteBytes"
    using assms(10) by (simp add: kMaxIpcMemoryTransferBytes_def kMaxMemoryWriteBytes_def)
  let ?k = "\<lambda>ctx. writeMemory (link_backend api chunk) ctx \<lparr>wq_address = address, wq_bytes = data\<rparr>"
  obtain w' r where w': "linked PORT_MAIN (ipc_world s) [] [] d' w'" "wr_writtenBytes r = of_nat (length data)"
    and run: "run_state (do { ctx \<leftarrow> call (captureContext (link_backend api chunk) True); call (?k ctx) }) s =
      (Success r, s\<lparr>ip_service := (ip_service s)\<lparr>bp_world := w'\<rparr>\<rparr>)"
    by (rule run_captured [where k = ?k and os = "link_os api chunk", OF clt_writeMemory [OF assms(1,2,9) len assms(11,12)] assms(3)]) auto
  from run have "run_state (write_memory (link_backend api chunk) (request_params request)) s =
      (Returns (successReply (JObject [(''written'', ju32 (of_nat (length data)))])),
       s\<lparr>ip_service := (ip_service s)\<lparr>bp_world := w'\<rparr>\<rparr>)"
    using assms(6-10) w'(2)
    by (auto simp: write_memory_def parsed_def run_state_bind respond_def answer_def split: prod.splits)
  from run_DispatchRequest [where handler = "write_memory (link_backend api chunk)", OF assms(4,5) _ this] w' show ?thesis by (auto simp: RegisterBuiltinMethods_def)
qed

end
