(* ===== verification/MemoryWrite.thy ===== *)
theory MemoryWrite
  imports MemoryOp
begin

text \<open>
  Writing memory of another process, for both implementations of \<open>engine/common/IMemoryOp.hpp\<close>. \<open>rw_memory os P s\<close> says what the kernel
  does for the engine \<open>s\<close>: in a state with \<open>P m\<close> the process has the memory \<open>m\<close>, it is read within a page up to the first byte that is
  not there, and a write to bytes that are there stores them. Then \<open>Write\<close> stores all bytes and \<open>Read\<close> delivers them again.
\<close>

section \<open>Memory after a write\<close>

definition stored :: "u64 \<Rightarrow> bytes \<Rightarrow> (u64 \<Rightarrow> u8 option) \<Rightarrow> u64 \<Rightarrow> u8 option" where
  "stored a data m x = (if unat (x - a) < length data then Some (data ! unat (x - a)) else m x)"

definition present :: "(u64 \<Rightarrow> u8 option) \<Rightarrow> u64 \<Rightarrow> nat \<Rightarrow> bool" where
  "present m a n \<longleftrightarrow> (\<forall>i < n. m (a + of_nat i) \<noteq> None)"

lemma stored_present: "present m a n \<Longrightarrow> present (stored b data m) a n"
  by (simp add: present_def stored_def)

text \<open>What was written is read back.\<close>

lemma readable_prefix_stored:
  assumes "length data \<le> 2 ^ 64"
  shows "readable_prefix (stored a data m) a (length data) = data"
proof (rule readable_prefix_area, intro allI impI)
  fix i assume "i < length data"
  moreover with assms have "unat (of_nat i :: u64) = i" by (simp add: unsigned_of_nat take_bit_nat_eq_self)
  ultimately show "stored a data m (a + of_nat i) = Some (data ! i)" by (simp add: stored_def)
qed

section \<open>The kernel\<close>

definition vm_writes :: "'k Os \<Rightarrow> int \<Rightarrow> ((u64 \<Rightarrow> u8 option) \<Rightarrow> 'k \<Rightarrow> bool) \<Rightarrow> bool" where
  "vm_writes os pid P \<longleftrightarrow> (\<forall>m a data k r k'. P m k \<and> a \<noteq> 0 \<and> data \<noteq> [] \<and> unat a + length data \<le> 2 ^ 64 \<and> present m a (length data) \<and>
     run_state (os_vm_writev os pid a data) k = (r, k') \<longrightarrow> r = Some (length data) \<and> P (stored a data m) k')"

definition ni_writes :: "'k Os \<Rightarrow> int \<Rightarrow> int \<Rightarrow> ((u64 \<Rightarrow> u8 option) \<Rightarrow> 'k \<Rightarrow> bool) \<Rightarrow> bool" where
  "ni_writes os fd pid P \<longleftrightarrow> (\<forall>m a data k ret err pkt user k'. P m k \<and> a \<noteq> 0 \<and> data \<noteq> [] \<and> unat a + length data \<le> 2 ^ 64 \<and>
     present m a (length data) \<and>
     run_state (os_read os fd (ni_header NI_CMD_WRITE_PROCESS_MEMORY (of_int pid) a 0 (of_nat (length data)) @ data) []) k =
       ((ret, err, pkt, user), k') \<longrightarrow> ret = int (length data) \<and> P (stored a data m) k')"

definition rw_memory :: "'k Os \<Rightarrow> ((u64 \<Rightarrow> u8 option) \<Rightarrow> 'k \<Rightarrow> bool) \<Rightarrow> 'k Engine \<Rightarrow> bool" where
  "rw_memory os P s \<longleftrightarrow> (\<exists>p < 64. os_pagesize os = 2 ^ p) \<and>
     (if mio_type (en_memIO s) = MemType_Kernel
      then IsValidPidHandle (mio_handle (en_memIO s)) \<and>
        (case kd_ni (en_driver s) of None \<Rightarrow> False
         | Some fd \<Rightarrow> 0 \<le> fd \<and> (\<forall>m. ni_reads os fd (uint (mio_handle (en_memIO s))) m (P m)) \<and>
             ni_writes os fd (uint (mio_handle (en_memIO s))) P)
      else (\<forall>m. vm_reads os (mio_pid (en_memIO s)) m (P m)) \<and> vm_writes os (mio_pid (en_memIO s)) P)"

lemma rw_memory_device:
  "rw_memory os P s \<Longrightarrow> P m (kd_kernel (en_driver s)) \<Longrightarrow> device_memory os (P m) m s"
  by (auto simp: rw_memory_def device_memory_def split: option.splits if_splits)

section \<open>Both implementations write what they are given\<close>

lemma mem_Write_stores:
  assumes rw: "rw_memory os P s" and m: "P m (kd_kernel (en_driver s))" "present m a (length data)"
    and a: "a \<noteq> 0" "data \<noteq> []" "unat a + length data \<le> 2 ^ 64"
    and run: "run_state (mem_Write os a data) s = (n, s')"
  shows "n = length data \<and> rw_memory os P s' \<and> P (stored a data m) (kd_kernel (en_driver s')) \<and> en_memIO s' = en_memIO s"
proof (cases "mio_type (en_memIO s) = MemType_Kernel")
  case True
  let ?h = "mio_handle (en_memIO s)"
  from rw True obtain fd where fd: "kd_ni (en_driver s) = Some fd" "0 \<le> fd" "ni_writes os fd (uint ?h) P" "IsValidPidHandle ?h"
    by (auto simp: rw_memory_def split: option.splits)
  have "?h \<noteq> 0" using fd(4) by (auto simp: IsValidPidHandle_def)
  let ?pkt = "ni_header NI_CMD_WRITE_PROCESS_MEMORY (of_int (uint ?h)) a 0 (of_nat (length data)) @ data"
  obtain ret err pkt user k' where os: "run_state (os_read os fd ?pkt []) (kd_kernel (en_driver s)) = ((ret, err, pkt, user), k')"
    by (metis prod.exhaust)
  from fd(3) m a os have ret: "ret = int (length data)" "P (stored a data m) k'" unfolding ni_writes_def by blast+
  from run True os fd a \<open>?h \<noteq> 0\<close> ret(1)
  have "n = length data" "s' = s\<lparr>en_driver := (en_driver s)\<lparr>kd_kernel := k'\<rparr>\<rparr>"
    by (auto simp: mem_Write_def virtual_def on_driver_def kern_Write_def drv_WriteMemory_def with_driver_def driverLocked_def
        on_kernel_def ni_write_memory_def ni_cmd_def Let_def split: if_splits)
  with ret(2) rw True fd show ?thesis by (simp add: rw_memory_def)
next
  case False
  with rw have vm: "vm_writes os (mio_pid (en_memIO s)) P" by (simp add: rw_memory_def)
  obtain r k' where os: "run_state (os_vm_writev os (mio_pid (en_memIO s)) a data) (kd_kernel (en_driver s)) = (r, k')" by fastforce
  with vm m a have r: "r = Some (length data)" "P (stored a data m) k'" unfolding vm_writes_def by blast+
  from run False os a r(1) have "n = length data" "s' = s\<lparr>en_driver := (en_driver s)\<lparr>kd_kernel := k'\<rparr>\<rparr>"
    by (auto simp: mem_Write_def virtual_def on_os_def on_driver_def on_kernel_def sys_Write_def)
  with r(2) rw False show ?thesis by (simp add: rw_memory_def)
qed

end
