(* ===== verification/DeviceEndToEnd.thy ===== *)
theory DeviceEndToEnd
  imports EndToEnd ServerMemory MemoryWrite
begin

text \<open>
  The two programs together: a client of the IPC server, the memory service, the sockets, the dispatcher of the server, its API and the engine
  that moves the memory, down to the system calls. \<open>server_api\<close> takes the place of the parameter of the dispatcher.
\<close>

section \<open>The API behind the dispatcher\<close>

lemma sint_handle: "- (2 ^ 31) \<le> h \<Longrightarrow> h < 2 ^ 31 \<Longrightarrow> sint (of_int h :: u32) = h"
  by (simp add: signed_of_int signed_take_bit_int_eq_self)

lemma attached_range: "attached h w \<Longrightarrow> sint (of_int h :: u32) = h"
  by (rule sint_handle) (simp_all add: attached_def ready_def)

text \<open>A client that is idle after an operation is as ready for the next one as before.\<close>

lemma linked_idle:
  assumes "linked p w0 [] [] d w" "attached h w0"
  shows "linked p w [] [] d w" "attached h w"
  using assms by (auto simp: linked_def attached_def ready_def)

lemma server_read:
  assumes "attached h w" "process_handle_open h dev" "memory_ready os P m (dv_engine dev)" "a \<noteq> 0" "unat a + n \<le> 2 ^ 64"
  shows "\<exists>e. run_state (api_ReadProcessMemory (server_api os net junk) (of_int h) a (replicate n 0)) dev =
      ((int (length (readable_prefix m a n)), readable_prefix m a n @ replicate (n - length (readable_prefix m a n)) 0),
       dev\<lparr>dv_engine := e\<rparr>) \<and> memory_ready os P m e"
  using ReadProcessMemory_device [OF assms(2-4), of "replicate n 0"] assms(5) attached_range [OF assms(1)]
  by (simp add: server_api_def filled_def)

lemma server_write:
  assumes "attached h w" "process_handle_open h dev" "rw_memory os P (dv_engine dev)" "P m (kd_kernel (the_driver dev))"
    and "present m a (length data)" "a \<noteq> 0" "data \<noteq> []" "unat a + length data \<le> 2 ^ 64"
  shows "\<exists>e. run_state (api_WriteProcessMemory (server_api os net junk) (of_int h) a data) dev = (int (length data), dev\<lparr>dv_engine := e\<rparr>) \<and>
    rw_memory os P e \<and> P (stored a data m) (kd_kernel (en_driver e))"
proof -
  obtain n e where run: "run_state (mem_Write os a data) (dv_engine dev) = (n, e)" by fastforce
  from assms(4) have "P m (kd_kernel (en_driver (dv_engine dev)))" by (simp add: the_driver_def)
  from mem_Write_stores [OF assms(3) this assms(5-8) run]
  have "n = length data" "rw_memory os P e" "P (stored a data m) (kd_kernel (en_driver e))" by auto
  with run assms(2) attached_range [OF assms(1)] show ?thesis
    by (auto simp: server_api_def CApi_WriteProcessMemory_def run_if_process on_engine_def run_state_bind)
qed

section \<open>A read\<close>

lemma read_reaches_device:
  assumes "healthy (server_api os net junk)" "attached h (ipc_world s)" "linked PORT_MAIN (ipc_world s) [] [] dev (ipc_world s)"
    and "asks_for request ''read_memory''" "is_object (request_params request)"
    and "ParseAddress (request_params request) ''address'' = Inr address"
    and "getPositiveSizeParam (request_params request) ''size'' 256 kMaxIpcMemoryTransferBytes = Inr n"
    and "address \<noteq> 0" "unat address + unat n \<le> 2 ^ 64"
    and "process_handle_open h dev" "memory_ready os P m (dv_engine dev)" "readable_prefix m address (unat n) \<noteq> []"
  shows "\<exists>s' e. run_state (DispatchRequest lib rounds (systemBackend (link_os (server_api os net junk) chunk)) request) s =
      (Returns (successReply (JObject [(''hex'', JString (BytesToHex (readable_prefix m address (unat n)))),
         (''size'', jsize (length (readable_prefix m address (unat n))))])), s') \<and>
    linked PORT_MAIN (ipc_world s) [] [] (dev\<lparr>dv_engine := e\<rparr>) (ipc_world s') \<and> memory_ready os P m e"
proof -
  let ?got = "readable_prefix m address (unat n)"
  obtain e where e: "run_state (api_ReadProcessMemory (server_api os net junk) (of_int h) address (replicate (unat n) 0)) dev =
      ((int (length ?got), ?got @ replicate (unat n - length ?got) 0), dev\<lparr>dv_engine := e\<rparr>)" "memory_ready os P m e"
    using server_read [OF assms(2,10,11,8,9)] by blast
  have len: "length ?got \<le> unat n" by (rule length_readable_prefix)
  from dispatch_read_end_to_end [OF assms(1-7,9) e(1), of lib rounds chunk] len assms(12) e(2) show ?thesis by auto
qed

text \<open>
  A write followed by a read of the same bytes.
\<close>

lemma write_then_read:
  assumes "healthy (server_api os net junk)" "attached h (ipc_world s)" "linked PORT_MAIN (ipc_world s) [] [] dev (ipc_world s)"
    and "asks_for w ''write_memory''" "is_object (request_params w)"
    and "ParseAddress (request_params w) ''address'' = Inr address"
    and "getStringParam (request_params w) ''hex'' [] True False kMaxRequestBytes = Inr hexStr"
    and "HexToBytes hexStr = Inr data" "data \<noteq> []" "length data \<le> unat kMaxIpcMemoryTransferBytes"
    and "asks_for r ''read_memory''" "is_object (request_params r)"
    and "ParseAddress (request_params r) ''address'' = Inr address"
    and "getPositiveSizeParam (request_params r) ''size'' 256 kMaxIpcMemoryTransferBytes = Inr (of_nat (length data))"
    and "address \<noteq> 0" "unat address + length data \<le> 2 ^ 64"
    and "process_handle_open h dev" "rw_memory os P (dv_engine dev)" "P m (kd_kernel (the_driver dev))" "present m address (length data)"
  shows "\<exists>s1 s2. run_state (DispatchRequest lib rounds (systemBackend (link_os (server_api os net junk) chunk)) w) s =
      (Returns (successReply (JObject [(''written'', ju32 (of_nat (length data)))])), s1) \<and>
    run_state (DispatchRequest lib rounds (systemBackend (link_os (server_api os net junk) chunk)) r) s1 =
      (Returns (successReply (JObject [(''hex'', JString (BytesToHex data)), (''size'', jsize (length data))])), s2)"
proof -
  obtain e where e: "run_state (api_WriteProcessMemory (server_api os net junk) (of_int h) address data) dev =
      (int (length data), dev\<lparr>dv_engine := e\<rparr>)" "rw_memory os P e" "P (stored address data m) (kd_kernel (en_driver e))"
    using server_write [OF assms(2,17-20,15,9,16)] by blast
  obtain s1 where s1: "run_state (DispatchRequest lib rounds (systemBackend (link_os (server_api os net junk) chunk)) w) s =
      (Returns (successReply (JObject [(''written'', ju32 (of_nat (length data)))])), s1)"
    "linked PORT_MAIN (ipc_world s) [] [] (dev\<lparr>dv_engine := e\<rparr>) (ipc_world s1)"
    using dispatch_write_end_to_end [OF assms(1-10,16) e(1)] by blast
  have small: "length data \<le> 65536" using assms(10) by (simp add: kMaxIpcMemoryTransferBytes_def)
  then have len: "unat (of_nat (length data) :: u32) = length data" by (simp add: unsigned_of_nat take_bit_nat_eq_self)
  have again: "readable_prefix (stored address data m) address (length data) = data"
    using small by (intro readable_prefix_stored) simp
  have rdy: "memory_ready os (P (stored address data m)) (stored address data m) e"
    using rw_memory_device [OF e(2,3)] e(2) by (simp add: memory_ready_def rw_memory_def)
  have "process_handle_open h (dev\<lparr>dv_engine := e\<rparr>)" using assms(17) by (simp add: process_handle_open_def)
  moreover have "readable_prefix (stored address data m) address (unat (of_nat (length data) :: u32)) \<noteq> []"
    using assms(9) by (simp add: len again)
  moreover have "unat address + unat (of_nat (length data) :: u32) \<le> 2 ^ 64" using assms(16) by (simp add: len)
  ultimately show ?thesis
    using read_reaches_device [OF assms(1) linked_idle(2,1) [OF s1(2) assms(2)] assms(11-15), where P = "P (stored address data m)" and m = "stored address data m"] rdy s1(1)
    by (fastforce simp: len again)
qed

end
