(* ===== verification/ScriptCommands.thy ===== *)
theory ScriptCommands
  imports DeviceEndToEnd
begin

text \<open>
  The commands of the client that scripts and windows call and the memory service does not: the rest of \<open>gui/socket/MemoryCommands.cpp\<close>,
  \<open>ProcessCommands.cpp\<close> and \<open>BreakpointCommands.cpp\<close>. They keep the streams in step with the server, and against the model of the server
  a range that is read by pages is exactly its readable pages.
\<close>

section \<open>Memory\<close>

text \<open>The results with the reference parameters that they set: \<open>outWritten\<close>, and \<open>Realread\<close> with the buffer once it has been received. \<open>ReadProcessMemoryInto\<close> is
  \<open>ReadProcessMemory_\<close>.\<close>

definition WriteProcessMemoryBytes :: "'e SocketOs \<Rightarrow> u64 \<Rightarrow> u32 \<Rightarrow> bytes \<Rightarrow> PortType \<Rightarrow> ('e, bool \<times> int) client" where
  "WriteProcessMemoryBytes os address n data p =
     (if \<not> isValidReadSize n \<or> length data \<noteq> unat n then State_Monad.return (False, 0)
      else do {
        result \<leftarrow> WriteProcessMemoryDetailed os address data p;
        State_Monad.return (mio_responseReceived result \<and> mio_writtenBytes result = sint n, mio_writtenBytes result) })"

definition ReadProcessMemoryInto :: "'e SocketOs \<Rightarrow> u64 \<Rightarrow> u32 \<Rightarrow> PortType \<Rightarrow> ('e, bool \<times> int \<times> bytes option) client" where
  "ReadProcessMemoryInto os address n p =
     (if \<not> isValidReadSize n then State_Monad.return (False, 0, None)
      else execute os p (False, 0, None) (\<lambda>handle.
        send_or os p
          (CMD_READPROCESSMEMORY # i32_bytes handle @ u64_bytes address @ u32_bytes n @ [0]) (False, 0, None)
        (recv_or os p 4 (False, 0, None) (\<lambda>hdr.
          let Realread = i32_at hdr 0 in
          recv_or os p (unat n) (False, Realread, None) (\<lambda>out.
            if Realread < 0 \<or> nat Realread > unat n then rejectMalformedResponse p (False, Realread, Some out)
            else if Realread = 0 then State_Monad.return (False, Realread, Some out)
            else State_Monad.return (True, Realread, Some out))))))"

definition kBatchPageSize :: nat where
  "kBatchPageSize = 4096"

fun recvPages :: "'e SocketOs \<Rightarrow> PortType \<Rightarrow> nat \<Rightarrow> (u64 \<times> bytes) list \<Rightarrow> ('e, (u64 \<times> bytes) list option) client" where
  "recvPages os p 0 receivedPages = State_Monad.return (Some receivedPages)"
| "recvPages os p (Suc i) receivedPages =
     recv_or os p 8 None (\<lambda>a.
     recv_or os p kBatchPageSize None (\<lambda>data. recvPages os p i (receivedPages @ [(u64_at a 0, data)])))"

definition ReadBratchMemory :: "'e SocketOs \<Rightarrow> u64 \<Rightarrow> u32 \<Rightarrow> PortType \<Rightarrow> ('e, (u64 \<times> bytes) list option) client" where
  "ReadBratchMemory os address n p =
     (if \<not> isValidReadSize n then State_Monad.return None
      else execute os p None (\<lambda>handle.
        send_or os p (CMD_READBRATCHMEMORY # i32_bytes handle @ u64_bytes address @ u32_bytes n) None
        (recv_or os p 4 None (\<lambda>l.
          let len = i32_at l 0; expectedPages = (unat n + kBatchPageSize - 1) div kBatchPageSize in
          if len = 0 then State_Monad.return (Some [])
          else if len < 0 then rejectMalformedResponse p None
          else if nat len > expectedPages then rejectMalformedResponse p None
          else recvPages os p (nat len) []))))"

section \<open>Driver and modules\<close>

definition InitDriver :: "'e SocketOs \<Rightarrow> string \<Rightarrow> PortType \<Rightarrow> ('e, bool \<times> string) client" where
  "InitDriver os Card p = do {
     result \<leftarrow> InitDriverTracked os Card p;
     State_Monad.return (dio_responseReceived result, dio_message result) }"

definition kMaxSoNameSize :: nat where
  "kMaxSoNameSize = 4096"

definition isSharedObjectName :: "string \<Rightarrow> bool" where
  "isSharedObjectName moduleName \<longleftrightarrow>
     moduleName \<noteq> [] \<and> length moduleName \<le> kMaxSoNameSize \<and> contains_str moduleName ''.so''"

definition GetSoBaseByName :: "'e SocketOs \<Rightarrow> string \<Rightarrow> PortType \<Rightarrow> ('e, u64 option) client" where
  "GetSoBaseByName os moduleName p =
     (if \<not> isSharedObjectName moduleName then State_Monad.return None
      else execute os p None (\<lambda>handle.
        send_or os p [CMD_GETSOBASE] None
        (send_or os p (i32_bytes handle @ i32_bytes (int (length moduleName))) None
        (send_or os p (bytes_of moduleName) None
        (recv_or os p 12 None (\<lambda>output.
          State_Monad.return (if i32_at output 0 = 0 \<and> u64_at output 4 \<noteq> 0 then Some (u64_at output 4) else None)))))))"

definition GetModuleBaseByName :: "'e SocketOs \<Rightarrow> string \<Rightarrow> PortType \<Rightarrow> ('e, u64 option) client" where
  "GetModuleBaseByName os moduleName p = GetSoBaseByName os moduleName p"

definition baseNameOf :: "string \<Rightarrow> string" where
  "baseNameOf path = (case str_find_last_of path [CHR ''/'', CHR 0x5C] of None \<Rightarrow> path | Some slash \<Rightarrow> drop (slash + 1) path)"

definition moduleNameExactMatch :: "ModuleInfo \<Rightarrow> string \<Rightarrow> bool" where
  "moduleNameExactMatch m moduleName \<longleftrightarrow> mi_name m = moduleName \<or> baseNameOf (mi_name m) = moduleName"

definition moduleFlagMatch :: "ModuleInfo \<Rightarrow> int \<Rightarrow> bool" where
  "moduleFlagMatch m requiredFlag \<longleftrightarrow> requiredFlag < 0 \<or> mi_flag m = requiredFlag"

text \<open>The choice among the modules, which \<open>FindModuleSegmentsByName\<close> makes: parts of names only where no whole name fits.\<close>

definition segmentsByName :: "string \<Rightarrow> int \<Rightarrow> ModuleInfo list \<Rightarrow> ModuleInfo list" where
  "segmentsByName moduleName requiredFlag mods =
     (let exact = filter (\<lambda>m. moduleNameExactMatch m moduleName \<and> moduleFlagMatch m requiredFlag) mods in
      if exact \<noteq> [] then exact
      else filter (\<lambda>m. contains_str (mi_name m) moduleName \<and> moduleFlagMatch m requiredFlag) mods)"

definition FindModuleSegmentsByName :: "'e SocketOs \<Rightarrow> string \<Rightarrow> PortType \<Rightarrow> int \<Rightarrow> ('e, ModuleInfo list option) client" where
  "FindModuleSegmentsByName os moduleName p requiredFlag =
     (if moduleName = [] then State_Monad.return None
      else do {
        mods \<leftarrow> FetchModuleList os p;
        State_Monad.return (case mods of
          None \<Rightarrow> None
        | Some ms \<Rightarrow>
            let outList = segmentsByName moduleName requiredFlag ms in if outList \<noteq> [] then Some outList else None) })"

section \<open>Pointer chains\<close>

definition read_u64 :: "'e SocketOs \<Rightarrow> u64 \<Rightarrow> PortType \<Rightarrow> ('e, u64 option) client" where
  "read_u64 os address p = do {
     buf \<leftarrow> ReadProcessMemoryBytes os address 8 p;
     State_Monad.return (case buf of None \<Rightarrow> None | Some b \<Rightarrow> if length b < 8 then None else Some (u64_at b 0)) }"

fun followChain :: "'e SocketOs \<Rightarrow> PortType \<Rightarrow> u64 \<Rightarrow> u64 list \<Rightarrow> ('e, u64 option) client" where
  "followChain os p addr [] = State_Monad.return (Some addr)"
| "followChain os p addr (off # offs) = do {
     ptr \<leftarrow> read_u64 os addr p;
     case Option.bind ptr (\<lambda>v. addAddressOffset v off) of
       None \<Rightarrow> State_Monad.return None
     | Some next \<Rightarrow> followChain os p next offs }"

text \<open>Without offsets the address is returned as it is, also when \<open>derefFinal\<close> is set.\<close>

definition ResolveModuleOffsetChain ::
  "'e SocketOs \<Rightarrow> string \<Rightarrow> u64 \<Rightarrow> u64 list \<Rightarrow> bool \<Rightarrow> PortType \<Rightarrow> ('e, u64 option) client" where
  "ResolveModuleOffsetChain os moduleName baseOffset offs derefFinal p = do {
     l \<leftarrow> TransactionLease os p;
     current \<leftarrow> leaseCurrent l;
     if \<not> current then State_Monad.return None
     else do {
       base \<leftarrow> GetModuleBaseByName os moduleName p;
       case Option.bind base (\<lambda>b. addAddressOffset b baseOffset) of
         None \<Rightarrow> State_Monad.return None
       | Some addr \<Rightarrow>
           if offs = [] then State_Monad.return (Some addr)
           else do {
             r \<leftarrow> followChain os p addr offs;
             case r of
               None \<Rightarrow> State_Monad.return None
             | Some a \<Rightarrow> if derefFinal then read_u64 os a p else State_Monad.return (Some a) }}}"

section \<open>Breakpoints\<close>

definition confirmedBreakpoint :: "BreakpointMutationIoResult \<Rightarrow> bool" where
  "confirmedBreakpoint result \<longleftrightarrow> bio_responseReceived result \<and> bio_applied result"

definition SetKernelBreakpoint :: "'e SocketOs \<Rightarrow> u64 \<Rightarrow> u32 \<Rightarrow> u32 \<Rightarrow> PortType \<Rightarrow> ('e, bool) client" where
  "SetKernelBreakpoint os address bpType bpSize p = do {
     result \<leftarrow> SetKernelBreakpointTracked os address bpType bpSize p; State_Monad.return (confirmedBreakpoint result) }"

definition RemoveKernelBreakpoint :: "'e SocketOs \<Rightarrow> u64 \<Rightarrow> PortType \<Rightarrow> ('e, bool) client" where
  "RemoveKernelBreakpoint os address p = do {
     result \<leftarrow> RemoveKernelBreakpointTracked os address p; State_Monad.return (confirmedBreakpoint result) }"

definition SuspendKernelBreakpoint :: "'e SocketOs \<Rightarrow> u64 \<Rightarrow> PortType \<Rightarrow> ('e, bool) client" where
  "SuspendKernelBreakpoint os address p = do {
     result \<leftarrow> SuspendKernelBreakpointTracked os address p; State_Monad.return (confirmedBreakpoint result) }"

definition ResumeKernelBreakpoint :: "'e SocketOs \<Rightarrow> u64 \<Rightarrow> PortType \<Rightarrow> ('e, bool) client" where
  "ResumeKernelBreakpoint os address p = do {
     result \<leftarrow> ResumeKernelBreakpointTracked os address p; State_Monad.return (confirmedBreakpoint result) }"

section \<open>Commands with a number as their result\<close>

definition executeWithResult :: "'e SocketOs \<Rightarrow> PortType \<Rightarrow> int \<Rightarrow> (int \<Rightarrow> ('e, bool \<times> int) client) \<Rightarrow> ('e, int) client" where
  "executeWithResult os p failureValue fn = execute os p failureValue (\<lambda>handle. do {
     (success, result) \<leftarrow> fn handle;
     State_Monad.return (if success then result else failureValue) })"

section \<open>The streams stay in step\<close>

lemma receives_recvPages: "receives p acc (recvPages os p n pages)"
  by (induction n arbitrary: pages) (simp_all only: recvPages.simps, (intro receives_rules | assumption)+)

lemma framed_ReadProcessMemoryInto: "sends p [] (framed started) (ReadProcessMemoryInto os a n p)"
  unfolding ReadProcessMemoryInto_def
  by (intro sends_if framed_idle framed_execute framed_send answer) (simp_all add: frame_simps)

lemma framed_ReadBratchMemory: "sends p [] (framed started) (ReadBratchMemory os a n p)"
  unfolding ReadBratchMemory_def
  by (intro sends_if framed_idle framed_execute framed_send answer answer_receives receives_recvPages) (simp_all add: frame_simps)

lemma whole_base:
  assumes "name \<noteq> []" "length name \<le> 4096"
  shows "whole (CMD_GETSOBASE # i32_bytes h @ i32_bytes (int (length name)) @ bytes_of name)"
proof -
  let ?h = "i32_bytes h @ i32_bytes (int (length name))"
  have "i32_at ?h 4 = int (length name)" using assms(2) by (simp add: at_drop [where n = 4])
  with assms have "variableSize CMD_GETSOBASE ?h = length (bytes_of name)" by (simp add: variableSize_def bytes_of_def)
  then show ?thesis using whole_variable [of ?h CMD_GETSOBASE "bytes_of name"] by (simp add: fixedSize_def)
qed

lemma framed_GetSoBaseByName: "sends p [] (framed started) (GetSoBaseByName os name p)"
  unfolding GetSoBaseByName_def
  by (intro sends_if framed_idle framed_execute framed_send answer)
    (auto simp: frame_simps whole_base [unfolded mutating_def] isSharedObjectName_def kMaxSoNameSize_def)

lemma in_sync_read_u64 [in_sync_intros]: "in_sync (read_u64 os a p)"
  unfolding read_u64_def by (intro keeps_intros in_sync_intros)

lemma in_sync_followChain: "in_sync (followChain os p addr offs)"
  by (induction os p addr offs rule: followChain.induct) (auto intro!: keeps_intros in_sync_intros split: option.split)

text \<open>None of these commands makes the client lose its place in the protocol, whatever their parameters and the network.\<close>

theorem script_commands_in_sync:
  "in_sync (WriteProcessMemoryBytes os a n data p)" "in_sync (ReadProcessMemoryInto os a n p)" "in_sync (ReadBratchMemory os a n p)"
  "in_sync (InitDriver os key p)" "in_sync (GetSoBaseByName os name p)" "in_sync (FindModuleSegmentsByName os name p flag)"
  "in_sync (ResolveModuleOffsetChain os name off offs deref p)" "in_sync (SetKernelBreakpoint os a t z p)"
  "in_sync (RemoveKernelBreakpoint os a p)" "in_sync (SuspendKernelBreakpoint os a p)" "in_sync (ResumeKernelBreakpoint os a p)"
proof -
  show base: "in_sync (GetSoBaseByName os name p)" for os :: "'e SocketOs" and name p by (rule framed_in_sync [OF framed_GetSoBaseByName])
  show "in_sync (ResolveModuleOffsetChain os name off offs deref p)"
    unfolding ResolveModuleOffsetChain_def GetModuleBaseByName_def
    by (intro keeps_intros in_sync_intros base in_sync_followChain)
  show "in_sync (ReadProcessMemoryInto os a n p)" "in_sync (ReadBratchMemory os a n p)"
    by (rule framed_in_sync [OF framed_ReadProcessMemoryInto], rule framed_in_sync [OF framed_ReadBratchMemory])
qed (unfold WriteProcessMemoryBytes_def InitDriver_def FindModuleSegmentsByName_def SetKernelBreakpoint_def RemoveKernelBreakpoint_def
    SuspendKernelBreakpoint_def ResumeKernelBreakpoint_def, (intro keeps_intros in_sync_intros)+)

section \<open>Pages\<close>

definition wire_pages :: "(u64 \<times> bytes) list \<Rightarrow> bytes" where
  "wire_pages pages = concat (map (\<lambda>(a, b). u64_bytes a @ b) pages)"

definition whole_pages :: "(u64 \<times> bytes) list \<Rightarrow> bool" where
  "whole_pages pages \<longleftrightarrow> (\<forall>(a, b) \<in> set pages. length b = kBatchPageSize)"

lemma link_recvPages:
  assumes "whole_pages pages"
  shows "clt (linked p w0 [] (wire_pages pages) d) (recvPages (link_os api chunk) p (length pages) acc) (Some (acc @ pages))
    (linked p w0 [] [] d)"
  using assms
proof (induction pages arbitrary: acc)
  case Nil
  then show ?case by (simp add: wire_pages_def clt_return)
next
  case (Cons page pages)
  obtain a b where page: "page = (a, b)" by fastforce
  with Cons.prems have "length b = kBatchPageSize" "whole_pages pages" by (auto simp: whole_pages_def)
  then have "clt (linked p w0 [] (u64_bytes a @ b @ wire_pages pages) d)
      (recv_or (link_os api chunk) p 8 None (\<lambda>a. recv_or (link_os api chunk) p kBatchPageSize None
        (\<lambda>data. recvPages (link_os api chunk) p (length pages) (acc @ [(u64_at a 0, data)])))) (Some (acc @ page # pages)) (linked p w0 [] [] d)"
    using Cons.IH [of "acc @ [page]"] by (intro clt_recv) (simp_all add: page fields)
  then show ?case by (simp add: page wire_pages_def)
qed

lemma pages_answer:
  assumes "healthy api" "fits_i32 h" "run_state (api_ReadBratchMemory api h a n) d = ((int (length pages), pages), d')"
    and "length pages \<le> INT_MAX" "whole_pages pages"
  shows "answers api d (CMD_READBRATCHMEMORY # (i32_bytes h @ u64_bytes a @ u32_bytes n) @ []) (i32_bytes (int (length pages)) @ wire_pages pages @ []) d'"
    (is "answers _ _ _ ?out _")
proof (rule answersI)
  have h: "i32_at (i32_bytes h) 0 = h" using assms(2) by (simp add: fits_i32_def fields)
  have arg: "u64_at (u64_bytes a @ u32_bytes n) 0 = a" "u32_at (u64_bytes a @ u32_bytes n) 8 = n" by (simp_all add: fields)
  have count: "ClampIntCount (ClampNonNegativeCount (int (length pages)) (length pages)) = int (length pages)"
    using assms(4) by (simp add: ClampNonNegativeCount_def ClampIntCount_def)
  have wire: "concat (concat (map (\<lambda>(addr, data). u64_bytes addr # (if data \<noteq> [] then [data] else [])) pages)) = wire_pages pages"
    unfolding wire_pages_def by (induction pages) auto
  have "srv (i32_bytes h @ (u64_bytes a @ u32_bytes n) @ []) d (case_READBRATCHMEMORY api) ?out d'"
    unfolding case_READBRATCHMEMORY_def Let_def
    by (rule srv_receive_into, simp, rule srv_receive_junk [OF assms(1)], simp, unfold h arg)
      (rule srv_device [OF assms(3)], unfold prod.case count nat_int take_all [OF order_refl] wire [symmetric], intro srv_intros assms(1))
  then show "srv ((i32_bytes h @ u64_bytes a @ u32_bytes n) @ []) d (DispatchCommand_V2 api CMD_READBRATCHMEMORY) ?out d'"
    by (simp add: DispatchCommand_V2_def)
qed (simp_all add: fixedSize_def variableSize_def)

lemma readable_pages_whole: "whole_pages (readable_pages m as)"
proof -
  have "length (page_bytes m a) \<le> 4096" for a by (rule length_readable_prefix)
  then show ?thesis by (auto simp: whole_pages_def readable_pages_def kBatchPageSize_def)
qed

lemma page_count_valid: "isValidReadSize n \<Longrightarrow> page_count n \<le> INT_MAX"
  unfolding isValidReadSize_def page_count_def by auto

text \<open>
  Reading by pages, through both programs: the client decodes exactly the readable pages of the range, in order, and the server has answered within the
  limit that the client checks.
\<close>

theorem pages_end_to_end:
  assumes "healthy (server_api os net junk)" "ready h w" "linked p w [] [] dev w"
    and "process_handle_open h dev" "memory_ready os P m (dv_engine dev)" "addr \<noteq> 0" "unat addr + unat n + 4096 \<le> 2 ^ 64" "isValidReadSize n"
  shows "\<exists>w' e. run_state (ReadBratchMemory (link_os (server_api os net junk) chunk) addr n p) w =
      (Some (readable_pages m (page_addresses addr (page_count n))), w') \<and>
    linked p w [] [] (dev\<lparr>dv_engine := e\<rparr>) w' \<and> memory_ready os P m e"
proof -
  let ?api = "server_api os net junk"
  let ?pages = "readable_pages m (page_addresses addr (page_count n))"
  obtain e where e: "run_state (api_ReadBratchMemory ?api h addr n) dev = ((int (length ?pages), ?pages), dev\<lparr>dv_engine := e\<rparr>)"
    "memory_ready os P m e"
    using ReadBratchMemory_pages [OF assms(4-7)] by (auto simp: server_api_def)
  have few: "length ?pages \<le> page_count n"
    by (simp add: readable_pages_def page_addresses_def order_trans [OF length_filter_le])
  have "fits_i32 h" using assms(2) by (simp add: ready_def fits_i32_def)
  note ans = pages_answer [OF assms(1) this e(1) order_trans [OF few page_count_valid [OF assms(8)]] readable_pages_whole]
  have "page_count n = (unat n + kBatchPageSize - 1) div kBatchPageSize" by (simp add: page_count_def kBatchPageSize_def)
  moreover have "fits_i32 (int (length ?pages))"
    using order_trans [OF few page_count_valid [OF assms(8)]] by (simp add: fits_i32_def)
  ultimately have "clt (linked p w [] [] dev) (ReadBratchMemory (link_os ?api chunk) addr n p) (Some ?pages)
      (linked p w [] [] (dev\<lparr>dv_engine := e\<rparr>))"
    unfolding ReadBratchMemory_def Let_def
    using few assms(8) link_recvPages [OF readable_pages_whole, of p w m "page_addresses addr (page_count n)" _ ?api chunk "[]"]
    by (simp, intro clt_execute(1) [OF assms(2)] clt_send clt_first [OF ans])
      (auto simp: fields fits_i32_def wire_pages_def intro: clt_return)
  with assms(3) e(2) show ?thesis unfolding clt_def by blast
qed

section \<open>Pointer chains through both programs\<close>

text \<open>The 64-bit number at an address of the process, and the address at the end of a chain in exact arithmetic.\<close>

definition word_at :: "(u64 \<Rightarrow> u8 option) \<Rightarrow> u64 \<Rightarrow> u64 option" where
  "word_at m a =
     (if a \<noteq> 0 \<and> unat a + 8 \<le> 2 ^ 64 \<and> length (readable_prefix m a 8) = 8 then Some (u64_at (readable_prefix m a 8) 0) else None)"

fun chain_end :: "(u64 \<Rightarrow> u8 option) \<Rightarrow> nat \<Rightarrow> u64 list \<Rightarrow> nat option" where
  "chain_end m a [] = Some a"
| "chain_end m a (off # offs) =
     (case word_at m (of_nat a) of
        None \<Rightarrow> None
      | Some v \<Rightarrow> if unat v + unat off < 2 ^ 64 then chain_end m (unat v + unat off) offs else None)"

lemma addAddressOffset_exact:
  assumes "unat a + unat b < 2 ^ 64"
  shows "addAddressOffset a b = Some (a + b)" "unat (a + b) = unat a + unat b"
proof -
  show "unat (a + b) = unat a + unat b" using assms by (simp add: unat_word_ariths)
  have "unat b < 2 ^ 64" using unsigned_less [of b, where ?'a = nat] by simp
  then have "unat (UINT64_MAX - b) = unat UINT64_MAX - unat b" by (intro unat_sub) (simp add: word_le_nat_alt)
  then show "addAddressOffset a b = Some (a + b)"
    using assms by (auto simp: addAddressOffset_def word_less_nat_alt)
qed

text \<open>The device while its memory is read.\<close>

definition readable_device :: "'k Os \<Rightarrow> ('k \<Rightarrow> bool) \<Rightarrow> (u64 \<Rightarrow> u8 option) \<Rightarrow> int \<Rightarrow> 'k Device \<Rightarrow> bool" where
  "readable_device os P m h dev \<longleftrightarrow> process_handle_open h dev \<and> memory_ready os P m (dv_engine dev)"

lemma clt_read_u64:
  assumes "healthy (server_api os net junk)" "ready h w" "readable_device os P m h dev" "word_at m a = Some v"
  shows "\<exists>dev'. readable_device os P m h dev' \<and>
    clt (linked p w [] [] dev) (read_u64 (link_os (server_api os net junk) chunk) a p) (Some v) (linked p w [] [] dev')"
proof -
  let ?api = "server_api os net junk"
  from assms(4) have a: "a \<noteq> 0" "unat a + 8 \<le> 2 ^ 64" "length (readable_prefix m a 8) = 8" "v = u64_at (readable_prefix m a 8) 0"
    by (auto simp: word_at_def split: if_splits)
  have h: "sint (of_int h :: u32) = h" using assms(2) by (intro sint_handle) (simp_all add: ready_def)
  obtain e where e: "run_state (api_ReadProcessMemory ?api (of_int h) a (replicate (unat (8 :: u32)) 0)) dev =
      ((8, readable_prefix m a 8), dev\<lparr>dv_engine := e\<rparr>)" "memory_ready os P m e"
    using ReadProcessMemory_device [of h dev os P m a "replicate 8 0"] assms(3) a(1-3) h
    by (auto simp: server_api_def filled_def readable_device_def)
  have "clt (linked p w [] [] dev) (ReadProcessMemoryBytes (link_os ?api chunk) a 8 p)
      (Some (readable_prefix m a 8)) (linked p w [] [] (dev\<lparr>dv_engine := e\<rparr>))"
    using clt_read [OF assms(1,2) _ e(1), of p chunk] a(3) by (simp add: isValidReadSize_def)
  then have "clt (linked p w [] [] dev) (read_u64 (link_os ?api chunk) a p) (Some v) (linked p w [] [] (dev\<lparr>dv_engine := e\<rparr>))"
    unfolding read_u64_def by (rule clt_bind) (use a(3,4) in \<open>auto intro: clt_return\<close>)
  moreover have "readable_device os P m h (dev\<lparr>dv_engine := e\<rparr>)"
    using assms(3) e(2) by (simp add: readable_device_def process_handle_open_def)
  ultimately show ?thesis by blast
qed

lemma clt_followChain:
  assumes "healthy (server_api os net junk)" "ready h w" "readable_device os P m h dev" "chain_end m (unat a) offs = Some r"
  shows "\<exists>dev'. readable_device os P m h dev' \<and>
    clt (linked p w [] [] dev) (followChain (link_os (server_api os net junk) chunk) p a offs) (Some (of_nat r)) (linked p w [] [] dev')"
  using assms(3,4)
proof (induction offs arbitrary: a dev)
  case Nil
  then show ?case by (auto intro!: exI [of _ dev] clt_return)
next
  case (Cons off offs)
  from Cons.prems(2) obtain v where v: "word_at m a = Some v" "unat v + unat off < 2 ^ 64" "chain_end m (unat v + unat off) offs = Some r"
    by (auto split: option.splits if_splits)
  obtain d1 where d1: "readable_device os P m h d1"
    "clt (linked p w [] [] dev) (read_u64 (link_os (server_api os net junk) chunk) a p) (Some v) (linked p w [] [] d1)"
    using clt_read_u64 [OF assms(1,2) Cons.prems(1) v(1)] by blast
  note sum = addAddressOffset_exact [OF v(2)]
  obtain d2 where d2: "readable_device os P m h d2"
    "clt (linked p w [] [] d1) (followChain (link_os (server_api os net junk) chunk) p (v + off) offs) (Some (of_nat r)) (linked p w [] [] d2)"
    using Cons.IH [OF d1(1), of "v + off"] v(3) unfolding sum(2) by blast
  then show ?case by (intro exI [of _ d2]) (auto intro!: clt_bind [OF d1(2)] simp: sum(1))
qed

lemma clt_transaction:
  assumes "ready h w0" "clt (linked p w0 i out d) m a Q"
  shows "clt (linked p w0 i out d) (do {
      l \<leftarrow> TransactionLease (link_os api chunk) p;
      current \<leftarrow> leaseCurrent l;
      if \<not> current then State_Monad.return failed else m }) a Q"
  using assms
  by (auto simp: clt_def TransactionLease_def acquireLease_def leaseCurrent_def on_env_def run_state_bind linked_def ready_def
      AcquireRequest_def isCurrent_def)

lemma base_answer:
  assumes "healthy api" "fits_i32 h" "name \<noteq> []" "length name \<le> 4096" "run_state (api_GetSoBase api h name) d = (base, d')" "base \<noteq> 0"
  shows "answers api d (CMD_GETSOBASE # (i32_bytes h @ i32_bytes (int (length name))) @ bytes_of name) ((i32_bytes 0 @ u64_bytes base) @ []) d'"
    (is "answers _ _ (_ # ?f @ _) ?out _")
proof (rule answersI)
  have f: "i32_at ?f 0 = h" "i32_at ?f 4 = int (length name)" using assms(2,4) by (simp_all add: fits_i32_def fields)
  show "length ?f = fixedSize CMD_GETSOBASE" by (simp add: fixedSize_def)
  show "length (bytes_of name) = variableSize CMD_GETSOBASE ?f" using assms(3,4) f by (simp add: variableSize_def bytes_of_def)
  have reply: "srv [] d (do { base \<leftarrow> on_device (api_GetSoBase api h name); find_reply api base }) ?out d'"
    by (rule srv_device [OF assms(5)]) (unfold find_reply_def if_P [OF assms(6)], intro srv_intros assms(1))
  have named: "srv (bytes_of name @ []) d (receive_or (length name) (find_reply api 0) (\<lambda>nameBuf. do {
      base \<leftarrow> on_device (api_GetSoBase api h (chars_of nameBuf)); find_reply api base })) ?out d'"
    by (rule srv_receive_or) (unfold chars_of_bytes_of, simp, rule reply)
  have "srv (?f @ bytes_of name @ []) d (case_GETSOBASE api) ?out d'"
    unfolding case_GETSOBASE_def Let_def
  proof (rule srv_receive_or)
    show "srv (bytes_of name @ []) d (if 0 < i32_at ?f 4 \<and> i32_at ?f 4 \<le> 4096
        then receive_or (nat (i32_at ?f 4)) (find_reply api 0) (\<lambda>nameBuf. do {
          base \<leftarrow> on_device (api_GetSoBase api (i32_at ?f 0) (chars_of nameBuf)); find_reply api base })
        else find_reply api 0) ?out d'"
      unfolding f using assms(3,4) named by simp
  qed simp
  then show "srv (?f @ bytes_of name) d (DispatchCommand_V2 api CMD_GETSOBASE) ?out d'" by (simp add: DispatchCommand_V2_def)
qed

text \<open>
  A pointer chain, through both programs: when the server finds the module and every pointer of the chain lies in readable memory, the client returns
  the address at the end of the chain in exact arithmetic, and the number that is there when it is asked to follow it.
\<close>

theorem chain_end_to_end:
  assumes "healthy (server_api os net junk)" "ready h w" "linked p w [] [] dev w" "isSharedObjectName name"
    and "run_state (CApi_GetSoBase os h name) dev = (base, dev1)" "base \<noteq> 0" "readable_device os P m h dev1"
    and "unat base + unat off < 2 ^ 64" "offs \<noteq> []" "chain_end m (unat base + unat off) offs = Some a"
    and "if deref then word_at m (of_nat a) = Some r else r = of_nat a"
  shows "\<exists>w' dev'. run_state (ResolveModuleOffsetChain (link_os (server_api os net junk) chunk) name off offs deref p) w = (Some r, w') \<and>
    linked p w [] [] dev' w' \<and> readable_device os P m h dev'"
proof -
  let ?api = "server_api os net junk"
  have name: "name \<noteq> []" "length name \<le> 4096" using assms(4) by (auto simp: isSharedObjectName_def kMaxSoNameSize_def)
  have "fits_i32 h" using assms(2) by (simp add: ready_def fits_i32_def)
  moreover have "run_state (api_GetSoBase ?api h name) dev = (base, dev1)" using assms(5) by (simp add: server_api_def)
  ultimately have ans: "answers ?api dev (CMD_GETSOBASE # (i32_bytes h @ i32_bytes (int (length name))) @ bytes_of name)
      ((i32_bytes 0 @ u64_bytes base) @ []) dev1"
    by (rule base_answer [OF assms(1) _ name _ assms(6)])
  have base: "clt (linked p w [] [] dev) (GetSoBaseByName (link_os ?api chunk) name p) (Some base) (linked p w [] [] dev1)"
    unfolding GetSoBaseByName_def using assms(4,6)
    by (simp, intro clt_execute(1) [OF assms(2)] clt_send clt_first [OF ans]) (auto simp: fields intro!: clt_return)
  note sum = addAddressOffset_exact [OF assms(8)]
  obtain d2 where d2: "readable_device os P m h d2"
    "clt (linked p w [] [] dev1) (followChain (link_os ?api chunk) p (base + off) offs) (Some (of_nat a)) (linked p w [] [] d2)"
    using clt_followChain [OF assms(1,2,7), of "base + off" offs a] assms(10) unfolding sum(2) by blast
  obtain d3 where d3: "readable_device os P m h d3"
    "clt (linked p w [] [] d2) (if deref then read_u64 (link_os ?api chunk) (of_nat a) p else State_Monad.return (Some (of_nat a))) (Some r)
      (linked p w [] [] d3)"
  proof (cases deref)
    case True
    with clt_read_u64 [OF assms(1,2) d2(1), of "of_nat a" r] assms(11) that show ?thesis by auto
  next
    case False
    with assms(11) d2(1) that [of d2] show ?thesis by (simp add: clt_return)
  qed
  have "clt (linked p w [] [] dev) (ResolveModuleOffsetChain (link_os ?api chunk) name off offs deref p) (Some r) (linked p w [] [] d3)"
    unfolding ResolveModuleOffsetChain_def GetModuleBaseByName_def
    by (rule clt_transaction [OF assms(2)], rule clt_bind [OF base]) (use assms(9) sum(1) d3(2) in \<open>auto intro!: clt_bind [OF d2(2)]\<close>)
  with assms(3) d3(1) show ?thesis unfolding clt_def by blast
qed

end
