(* ===== verification/ModuleCache.thy ===== *)
theory ModuleCache
  imports MemServiceSymbol AppContext CLibrary
begin

text \<open>
  The cache of modules and symbols behind the address columns of the windows, \<open>ModuleCache\<close> of \<open>gui/gui/AppContext.cpp\<close>, over the memory service.
  An operation works on the world of the service and the cache. \<open>app\<close> is the \<open>AppContext\<close> in that world. The time is in milliseconds
  instead of seconds; \<open>lastMatchedIndex\<close> is left out, since the code writes it only.
\<close>

section \<open>Refresh\<close>

definition MIN_REFRESH_INTERVAL :: int where
  "MIN_REFRESH_INTERVAL = 1000"

text \<open>The loop over the pages; \<open>None\<close> would be a loop that does not end. It yields no modules after an error or for another target.\<close>

partial_function (option) loadModules ::
  "'w MemRuntime \<Rightarrow> OperationContext \<Rightarrow> TargetSnapshot \<Rightarrow> nat \<Rightarrow> ModuleInfo list \<Rightarrow> 'w \<Rightarrow> (ModuleInfo list option \<times> 'w) option" where
  "loadModules be ctx target off loaded w =
     (case run_state (listModules be ctx \<lparr>mlq_filter = [], mlq_offset = off, mlq_limit = kMaxModulePageSize\<rparr>) w of
        (response, w') \<Rightarrow> (case response of
          Failure e \<Rightarrow> Some (None, w')
        | Success page \<Rightarrow>
            if mp_target page \<noteq> target then Some (None, w')
            else (case mp_nextOffset page of
                None \<Rightarrow> Some (Some (loaded @ mp_items page), w')
              | Some next \<Rightarrow> loadModules be ctx target next (loaded @ mp_items page) w')))"

definition refresh :: "'w MemRuntime \<Rightarrow> int \<Rightarrow> 'w \<times> ModuleCacheState \<Rightarrow> ('w \<times> ModuleCacheState) option" where
  "refresh be now s = (case s of (w, c) \<Rightarrow>
     if mc_valid c \<and> now - mc_lastRefreshTime c < MIN_REFRESH_INTERVAL then Some (w, c)
     else (case run_state (captureContext be True) w of (ctx, w1) \<Rightarrow>
       (case oc_target ctx of
          None \<Rightarrow> Some (w1, c)
        | Some target \<Rightarrow>
            if \<not> isAttached target then Some (w1, c)
            else (case loadModules be ctx target 0 [] w1 of
                None \<Rightarrow> None
              | Some (None, w2) \<Rightarrow> Some (w2, c)
              | Some (Some loaded, w2) \<Rightarrow>
                  (case run_state (captureContext be True) w2 of (current, w3) \<Rightarrow>
                    if oc_target current \<noteq> Some target then Some (w3, c)
                    else Some (w3, c\<lparr>mc_modules := loaded, mc_symbols := Map.empty, mc_valid := True, mc_lastRefreshTime := now\<rparr>))))))"

section \<open>Addresses in modules\<close>

definition ModuleInfo_new :: ModuleInfo where
  "ModuleInfo_new = \<lparr>mi_base = 0, mi_size = 0, mi_type = 0, mi_flag = 0, mi_name = []\<rparr>"

definition holdsAddress :: "u64 \<Rightarrow> ModuleInfo \<Rightarrow> bool" where
  "holdsAddress addr m \<longleftrightarrow>
     \<not> (mi_size m = 0 \<or> mi_base m > UINT64_MAX - mi_size m) \<and> addr \<ge> mi_base m \<and> addr < mi_base m + mi_size m"

definition findByAddress :: "u64 \<Rightarrow> ModuleCacheState \<Rightarrow> ModuleInfo" where
  "findByAddress addr c = (case List.find (holdsAddress addr) (mc_modules c) of None \<Rightarrow> ModuleInfo_new | Some m \<Rightarrow> m)"

text \<open>\<open>snprintf\<close> into a buffer of 512 characters, with \<open>%s+0x%llX\<close> and \<open>0x%llX\<close>.\<close>

definition upper_hex :: "u64 \<Rightarrow> string" where
  "upper_hex v = map (\<lambda>c. if of_char c \<ge> (97 :: nat) then char_of (of_char c - (32 :: nat)) else c) (hex_digits (unat v))"

definition print_offset :: "string \<Rightarrow> u64 \<Rightarrow> string" where
  "print_offset name off = take 511 (takeWhile (\<lambda>c. c \<noteq> CHR 0x00) name @ ''+0x'' @ upper_hex off)"

definition formatWithModule :: "u64 \<Rightarrow> ModuleCacheState \<Rightarrow> string" where
  "formatWithModule addr c =
     (let m = findByAddress addr c in
      if mi_name m \<noteq> [] then print_offset (mi_name m) (addr - mi_base m) else take 511 (''0x'' @ upper_hex addr))"

section \<open>Symbols\<close>

text \<open>\<open>std::sort\<close> by the address is the parameter \<open>srt\<close>: the order of symbols with the same address is not determined.\<close>

definition ensureSymbolListCached ::
  "'w MemRuntime \<Rightarrow> ('w \<Rightarrow> AppState) \<Rightarrow> (SymbolInfo list \<Rightarrow> SymbolInfo list) \<Rightarrow> ModuleInfo \<Rightarrow>
     ('w \<times> ModuleCacheState, SymbolInfo list option) state" where
  "ensureSymbolListCached be app srt m = State (\<lambda>(w, c).
     case mc_symbols c (mi_base m) of
       Some symbols \<Rightarrow> (Some symbols, (w, c))
     | None \<Rightarrow>
         (case run_state (do { ctx \<leftarrow> captureContext be True; loadSymbolTable be ctx \<lparr>stq_moduleBase = mi_base m\<rparr> }) w of
            (Failure e, w') \<Rightarrow> (None, (w', c))
          | (Success table, w') \<Rightarrow>
              if stb_items table = [] then (None, (w', c))
              else
                let loaded = srt (filter (\<lambda>s. si_name s \<noteq> []) (stb_items table)); t = stb_target table in
                if \<not> matchesStableTarget t (ts_connectionGeneration t) (app w') then (None, (w', c))
                else (Some loaded, (w', c\<lparr>mc_symbols := (mc_symbols c)(mi_base m \<mapsto> loaded)\<rparr>))))"

text \<open>\<open>std::upper_bound\<close> on a sorted list: the number of symbols that are not behind the address.\<close>

definition upperBound :: "SymbolInfo list \<Rightarrow> u64 \<Rightarrow> nat" where
  "upperBound symbols addr = length (takeWhile (\<lambda>s. \<not> addr < si_address s) symbols)"

definition containingSymbol :: "SymbolInfo list \<Rightarrow> u64 \<Rightarrow> (SymbolInfo \<times> u64) option" where
  "containingSymbol symbols addr =
     (let upper = upperBound symbols addr in
      if upper = 0 then None else let found = symbols ! (upper - 1) in Some (found, addr - si_address found))"

definition tryFindContainingSymbol ::
  "'w MemRuntime \<Rightarrow> ('w \<Rightarrow> AppState) \<Rightarrow> (SymbolInfo list \<Rightarrow> SymbolInfo list) \<Rightarrow> u64 \<Rightarrow>
     ('w \<times> ModuleCacheState, (SymbolInfo \<times> u64) option) state" where
  "tryFindContainingSymbol be app srt addr = do {
     s \<leftarrow> State_Monad.get;
     let m = findByAddress addr (snd s);
     if mi_name m = [] then State_Monad.return None
     else do {
       symbols \<leftarrow> ensureSymbolListCached be app srt m;
       State_Monad.return (case symbols of None \<Rightarrow> None | Some l \<Rightarrow> if l = [] then None else containingSymbol l addr) }}"

definition formatWithSymbol ::
  "'w MemRuntime \<Rightarrow> ('w \<Rightarrow> AppState) \<Rightarrow> (SymbolInfo list \<Rightarrow> SymbolInfo list) \<Rightarrow> u64 \<Rightarrow> ('w \<times> ModuleCacheState, string) state" where
  "formatWithSymbol be app srt addr = do {
     r \<leftarrow> tryFindContainingSymbol be app srt addr;
     State_Monad.return (case r of
       None \<Rightarrow> []
     | Some (symbol, off) \<Rightarrow> if off = 0 then si_name symbol else print_offset (si_name symbol) off) }"

definition formatAddressWithModuleAndSymbol ::
  "'w MemRuntime \<Rightarrow> ('w \<Rightarrow> AppState) \<Rightarrow> (SymbolInfo list \<Rightarrow> SymbolInfo list) \<Rightarrow> u64 \<Rightarrow> ('w \<times> ModuleCacheState, string) state" where
  "formatAddressWithModuleAndSymbol be app srt addr = do {
     s \<leftarrow> State_Monad.get;
     let m = formatWithModule addr (snd s);
     symbol \<leftarrow> formatWithSymbol be app srt addr;
     State_Monad.return (if symbol \<noteq> [] then m @ '' ('' @ symbol @ '')'' else m) }"

section \<open>The refresh ends\<close>

text \<open>What a successful page has, whatever the device answers: its part of a list of modules within the limits.\<close>

lemma listModules_page:
  assumes "run_state (listModules be ctx \<lparr>mlq_filter = [], mlq_offset = off, mlq_limit = n\<rparr>) w = (Success page, w')"
  obtains ms w1 w2 where "run_state (fetchModulesOnce be ctx) w1 = (Some ms, w2)" "validateModules ms = None" "0 < n"
    "(mp_items page, mp_nextOffset page) = snd (pageOf ms off n)"
proof -
  have every: "filter (\<lambda>m. nameMatches (lowerAscii []) (mi_name m)) ms = ms" for ms
    by (rule filter_True) (simp add: nameMatches_def lowerAscii_def)
  from assms show ?thesis
    unfolding listModules_def
    by (auto simp: Let_def every elim!: return_if_error_SuccessE run_bindE split: if_split_asm option.split_asm prod.split_asm)
      (erule that, simp_all)
qed

lemma listModules_next:
  assumes "run_state (listModules be ctx \<lparr>mlq_filter = [], mlq_offset = off, mlq_limit = n\<rparr>) w = (Success page, w')"
    and "mp_nextOffset page = Some nx"
  shows "off < nx \<and> nx < 65536"
proof -
  from assms(1) obtain ms where "validateModules ms = None" "0 < n" "(mp_items page, mp_nextOffset page) = snd (pageOf ms off n)"
    by (rule listModules_page)
  moreover from this(1) have "length ms \<le> 65536" by (simp add: validateModules_None_iff)
  ultimately show ?thesis using assms(2) by (auto simp: pageOf_eq split: if_splits)
qed

lemma loadModules_returns: "\<exists>r. loadModules be ctx target off loaded w = Some r"
proof (induction "65536 - off" arbitrary: off loaded w rule: less_induct)
  case less
  show ?case
  proof (subst loadModules.simps, simp split: prod.split Result.split option.split, intro allI impI conjI)
    fix page w' nx
    assume "run_state (listModules be ctx \<lparr>mlq_filter = [], mlq_offset = off, mlq_limit = kMaxModulePageSize\<rparr>) w = (Success page, w')"
      "mp_nextOffset page = Some nx"
    from listModules_next [OF this] less [of nx] show "\<exists>a b. loadModules be ctx target nx (loaded @ mp_items page) w' = Some (a, b)" by auto
  qed
qed

theorem refresh_returns: "\<exists>s'. refresh be now s = Some s'"
proof -
  obtain w c where s: "s = (w, c)" by fastforce
  obtain ctx w1 where ctx: "run_state (captureContext be True) w = (ctx, w1)" by fastforce
  show ?thesis
  proof (cases "oc_target ctx")
    case (Some target)
    obtain r w2 where r: "loadModules be ctx target 0 [] w1 = Some (r, w2)"
      using loadModules_returns [of be ctx target 0 "[]" w1] by auto
    then show ?thesis by (cases r) (auto simp: refresh_def s ctx Some split: prod.split)
  qed (simp add: refresh_def s ctx)
qed

section \<open>What the cache holds\<close>

lemma loadModules_complete:
  assumes stable: "\<And>w. fst (run_state (fetchModulesOnce be ctx) w) = Some ms"
    and "loadModules be ctx target off loaded w = Some (Some all, w')" "off \<le> length ms" "loaded = take off ms"
  shows "all = ms"
  using assms(2-4)
proof (induction "length ms - off" arbitrary: off loaded w rule: less_induct)
  case less
  obtain response w1 where run: "run_state (listModules be ctx \<lparr>mlq_filter = [], mlq_offset = off, mlq_limit = kMaxModulePageSize\<rparr>) w = (response, w1)"
    by fastforce
  with less.prems(1) obtain page where page: "response = Success page" "mp_target page = target"
    by (subst (asm) loadModules.simps) (auto split: Result.splits if_splits)
  from run [unfolded page(1)] obtain ms' wa wb where p: "run_state (fetchModulesOnce be ctx) wa = (Some ms', wb)" "0 < kMaxModulePageSize"
    "(mp_items page, mp_nextOffset page) = snd (pageOf ms' off kMaxModulePageSize)" by (rule listModules_page)
  then have "ms' = ms" using stable [of wa] by simp
  with p(3) have items: "mp_items page = take kMaxModulePageSize (drop off ms)"
    "mp_nextOffset page = (if off + kMaxModulePageSize < length ms then Some (off + kMaxModulePageSize) else None)"
    by (auto simp: pageOf_eq split: if_splits)
  have sum: "loaded @ mp_items page = take (off + kMaxModulePageSize) ms" using less.prems(3) items(1) by (simp add: take_add)
  show ?case
  proof (cases "off + kMaxModulePageSize < length ms")
    case True
    with less.prems(1) run page items sum have "loadModules be ctx target (off + kMaxModulePageSize) (take (off + kMaxModulePageSize) ms) w1 = Some (Some all, w')"
      by (subst (asm) loadModules.simps) simp
    from less.hyps [OF _ this] True p(2) show ?thesis by simp
  next
    case False
    with less.prems(1) run page items sum show ?thesis by (subst (asm) loadModules.simps) simp
  qed
qed

text \<open>
  A refresh leaves the cache as it is, or fills it with all modules of the device, in order, when the device answers with the same modules each time; the
  symbols of an earlier list are dropped.
\<close>

theorem refresh_complete:
  assumes "\<And>ctx w. fst (run_state (fetchModulesOnce be ctx) w) = Some ms" "refresh be now (w, c) = Some (w', c')"
  shows "c' = c \<or> c' = c\<lparr>mc_modules := ms, mc_symbols := Map.empty, mc_valid := True, mc_lastRefreshTime := now\<rparr>"
proof -
  have "loaded = ms" if "loadModules be ctx target 0 [] w1 = Some (Some loaded, w2)" for ctx target w1 w2 loaded
    using loadModules_complete [OF assms(1) that] by simp
  with assms(2) show ?thesis by (auto simp: refresh_def split: prod.splits option.splits if_splits)
qed

text \<open>A module is found for an address exactly where one lies over it, in exact arithmetic; it is the first of the list.\<close>

lemma holdsAddress_iff:
  "holdsAddress addr m \<longleftrightarrow> 0 < mi_size m \<and> unat (mi_base m) + unat (mi_size m) < 2 ^ 64 \<and> unat (mi_base m) \<le> unat addr \<and>
     unat addr < unat (mi_base m) + unat (mi_size m)"
proof -
  have size: "unat (mi_size m) < 2 ^ 64" using unsigned_less [of "mi_size m", where ?'a = nat] by simp
  then have le: "unat (UINT64_MAX - mi_size m) = unat UINT64_MAX - unat (mi_size m)" by (intro unat_sub) (simp add: word_le_nat_alt)
  show ?thesis
  proof (cases "unat (mi_base m) + unat (mi_size m) < 2 ^ 64")
    case True
    then have "unat (mi_base m + mi_size m) = unat (mi_base m) + unat (mi_size m)" by (simp add: unat_word_ariths)
    with True le show ?thesis by (auto simp: holdsAddress_def word_less_nat_alt word_le_nat_alt unat_eq_0)
  next
    case False
    then have "mi_base m > UINT64_MAX - mi_size m" unfolding word_less_nat_alt le using size by simp
    with False show ?thesis by (simp add: holdsAddress_def)
  qed
qed

theorem findByAddress_correct:
  "(\<exists>us vs. mc_modules c = us @ findByAddress addr c # vs \<and> holdsAddress addr (findByAddress addr c) \<and> (\<forall>m \<in> set us. \<not> holdsAddress addr m)) \<or>
   findByAddress addr c = ModuleInfo_new \<and> (\<forall>m \<in> set (mc_modules c). \<not> holdsAddress addr m)"
proof (cases "List.find (holdsAddress addr) (mc_modules c)")
  case None
  then have "\<forall>m \<in> set (mc_modules c). \<not> holdsAddress addr m" by (simp add: find_None_iff)
  with None show ?thesis by (simp add: findByAddress_def)
next
  case (Some m)
  then obtain i where i: "i < length (mc_modules c)" "holdsAddress addr (mc_modules c ! i)" "m = mc_modules c ! i"
    "\<forall>j < i. \<not> holdsAddress addr (mc_modules c ! j)" by (auto simp: find_Some_iff)
  from id_take_nth_drop [OF i(1)] i(3) have "mc_modules c = take i (mc_modules c) @ m # drop (Suc i) (mc_modules c)" by simp
  moreover have "\<forall>m \<in> set (take i (mc_modules c)). \<not> holdsAddress addr m" using i(1,4) by (auto simp: in_set_conv_nth)
  ultimately show ?thesis using i(2,3) Some by (auto simp: findByAddress_def)
qed

text \<open>The symbol for an address is the last one that does not lie behind it, with the distance to it; there is one unless all lie behind.\<close>

lemma takeWhile_sorted:
  assumes "sorted (map f xs)"
  shows "set (takeWhile (\<lambda>x. \<not> a < f x) xs) = {x \<in> set xs. f x \<le> a}"
  using assms by (induction xs) (auto simp: not_less)

theorem containingSymbol_correct:
  assumes "sorted (map si_address symbols)"
  shows "case containingSymbol symbols addr of
      None \<Rightarrow> \<forall>s \<in> set symbols. addr < si_address s
    | Some (s, off) \<Rightarrow> s \<in> set symbols \<and> si_address s \<le> addr \<and> off = addr - si_address s \<and>
        (\<forall>t \<in> set symbols. si_address t \<le> addr \<longrightarrow> si_address t \<le> si_address s)"
proof (cases "takeWhile (\<lambda>s. \<not> addr < si_address s) symbols" rule: rev_cases)
  case Nil
  with takeWhile_sorted [OF assms, of addr] have "\<forall>s \<in> set symbols. addr < si_address s" by (auto simp: not_le)
  with Nil show ?thesis by (simp add: containingSymbol_def upperBound_def)
next
  case (snoc us s)
  have "symbols = us @ s # dropWhile (\<lambda>s. \<not> addr < si_address s) symbols" by (metis append.assoc append_Cons append_Nil snoc takeWhile_dropWhile_id)
  then obtain vs where symbols: "symbols = us @ s # vs" by blast
  have "si_address t \<le> si_address s" if "t \<in> set symbols" "si_address t \<le> addr" for t
  proof -
    from that takeWhile_sorted [OF assms, of addr] snoc have "t \<in> set us \<or> t = s" by auto
    then show ?thesis using assms unfolding symbols by (auto simp: sorted_append)
  qed
  moreover have "si_address s \<le> addr" using takeWhile_sorted [OF assms, of addr] snoc by auto
  moreover have "containingSymbol symbols addr = Some (s, addr - si_address s)"
    using snoc by (simp add: containingSymbol_def upperBound_def symbols)
  ultimately show ?thesis by (simp add: symbols)
qed

end
