(* ===== verification/IpcQueue.thy ===== *)
theory IpcQueue
  imports Prelude "HOL-Library.Multiset"
begin

text \<open>
  The threads of the IPC server, from \<open>gui/ipc/IpcServer.cpp\<close> (\<open>Start\<close>, \<open>Stop\<close>, \<open>ServerThread\<close>, \<open>ClientWorker\<close>, lines 319 to 477): one
  thread accepts connections and puts them into a bounded queue, four workers take them out and
  answer them, and the owner starts and stops the whole. A step of the relation \<open>ipc_step\<close> is one section of a
  thread between two points where another thread can run: a critical section under
  \<open>clientQueueMutex_\<close>, or a single operation on an atomic or a socket. A connection is a number, which no two connections share;
  \<open>it_accepted\<close> and \<open>it_closed\<close> record what has been accepted and closed.
\<close>

section \<open>State\<close>

definition kIpcWorkerCount :: nat where
  "kIpcWorkerCount = 4"

definition kMaxPendingIpcClients :: nat where
  "kMaxPendingIpcClients = 64"

text \<open>
  Where the accepting thread is: before \<open>accept\<close>, after it with a connection, after the test of
  \<open>running_\<close> with a connection, or at its end.
\<close>

datatype ServerPc = Accepting | Accepted nat | Admitted nat | ServerExited

datatype WorkerPc = Waiting | Handling nat | WorkerExited

text \<open>Where \<open>Stop\<close> is; \<open>OwnerIdle\<close> outside of \<open>Stop\<close>.\<close>

datatype OwnerPc = OwnerIdle | StopCalled | ListenerClosed | ServerJoined | Draining "nat list" | JoiningWorkers

record IpcThreads =
  it_running :: bool
  it_listening :: bool
  it_stopClientWorkers :: bool
  it_clientQueue :: "nat list"
  it_server :: ServerPc
  it_workers :: "WorkerPc list"
  it_owner :: OwnerPc
  it_accepted :: "nat list"
  it_closed :: "nat list"

definition ipc_init :: IpcThreads where
  "ipc_init = \<lparr>it_running = False, it_listening = False, it_stopClientWorkers = False, it_clientQueue = [],
     it_server = ServerExited, it_workers = [], it_owner = OwnerIdle, it_accepted = [], it_closed = []\<rparr>"

section \<open>Sections of the threads\<close>

definition Close :: "nat \<Rightarrow> IpcThreads \<Rightarrow> IpcThreads" where
  "Close c s = s\<lparr>it_closed := c # it_closed s\<rparr>"

definition Start :: "IpcThreads \<Rightarrow> IpcThreads" where
  "Start s = s\<lparr>it_running := True, it_listening := True, it_stopClientWorkers := False, it_clientQueue := [],
     it_workers := replicate kIpcWorkerCount Waiting, it_server := Accepting\<rparr>"

text \<open>After \<open>accept\<close>: the test of \<open>running_\<close>, then the section that queues the connection or drops it.\<close>

definition serverCheck :: "nat \<Rightarrow> IpcThreads \<Rightarrow> IpcThreads" where
  "serverCheck c s =
     (if \<not> it_running s then (Close c s)\<lparr>it_server := ServerExited\<rparr>
      else s\<lparr>it_server := Admitted c\<rparr>)"

definition serverQueue :: "nat \<Rightarrow> IpcThreads \<Rightarrow> IpcThreads" where
  "serverQueue c s =
     (if \<not> it_stopClientWorkers s \<and> length (it_clientQueue s) < kMaxPendingIpcClients
      then s\<lparr>it_clientQueue := it_clientQueue s @ [c], it_server := Accepting\<rparr>
      else (Close c s)\<lparr>it_server := Accepting\<rparr>)"

definition set_worker :: "nat \<Rightarrow> WorkerPc \<Rightarrow> IpcThreads \<Rightarrow> IpcThreads" where
  "set_worker i pc s = s\<lparr>it_workers := (it_workers s)[i := pc]\<rparr>"

definition stopDrain :: "IpcThreads \<Rightarrow> IpcThreads" where
  "stopDrain s = s\<lparr>it_stopClientWorkers := True, it_clientQueue := [], it_owner := Draining (it_clientQueue s)\<rparr>"

inductive ipc_step :: "IpcThreads \<Rightarrow> IpcThreads \<Rightarrow> bool" where
  start: "it_owner s = OwnerIdle \<Longrightarrow> \<not> it_running s \<Longrightarrow> ipc_step s (Start s)"
| accept: "it_server s = Accepting \<Longrightarrow> it_listening s \<Longrightarrow> c \<notin> set (it_accepted s) \<Longrightarrow>
     ipc_step s (s\<lparr>it_server := Accepted c, it_accepted := c # it_accepted s\<rparr>)"
| accept_fails: "it_server s = Accepting \<Longrightarrow> ipc_step s (s\<lparr>it_server := ServerExited\<rparr>)"
| check: "it_server s = Accepted c \<Longrightarrow> ipc_step s (serverCheck c s)"
| enqueue: "it_server s = Admitted c \<Longrightarrow> ipc_step s (serverQueue c s)"
| take: "i < length (it_workers s) \<Longrightarrow> it_workers s ! i = Waiting \<Longrightarrow> it_clientQueue s = c # cs \<Longrightarrow>
     ipc_step s (set_worker i (Handling c) (s\<lparr>it_clientQueue := cs\<rparr>))"
| handled: "i < length (it_workers s) \<Longrightarrow> it_workers s ! i = Handling c \<Longrightarrow>
     ipc_step s (set_worker i Waiting (Close c s))"
| worker_exit: "i < length (it_workers s) \<Longrightarrow> it_workers s ! i = Waiting \<Longrightarrow> it_stopClientWorkers s \<Longrightarrow>
     it_clientQueue s = [] \<Longrightarrow> ipc_step s (set_worker i WorkerExited s)"
| stop: "it_owner s = OwnerIdle \<Longrightarrow> it_running s \<Longrightarrow>
     ipc_step s (s\<lparr>it_running := False, it_owner := StopCalled\<rparr>)"
| close_listener: "it_owner s = StopCalled \<Longrightarrow>
     ipc_step s (s\<lparr>it_listening := False, it_owner := ListenerClosed\<rparr>)"
| join_server: "it_owner s = ListenerClosed \<Longrightarrow> it_server s = ServerExited \<Longrightarrow>
     ipc_step s (s\<lparr>it_owner := ServerJoined\<rparr>)"
| drain: "it_owner s = ServerJoined \<Longrightarrow> ipc_step s (stopDrain s)"
| close_pending: "it_owner s = Draining (c # cs) \<Longrightarrow> ipc_step s ((Close c s)\<lparr>it_owner := Draining cs\<rparr>)"
| wake: "it_owner s = Draining [] \<Longrightarrow> ipc_step s (s\<lparr>it_owner := JoiningWorkers\<rparr>)"
| join_workers: "it_owner s = JoiningWorkers \<Longrightarrow> set (it_workers s) \<subseteq> {WorkerExited} \<Longrightarrow>
     ipc_step s (s\<lparr>it_workers := [], it_owner := OwnerIdle\<rparr>)"

inductive ipc_reachable :: "IpcThreads \<Rightarrow> bool" where
  init: "ipc_reachable ipc_init"
| step: "ipc_reachable s \<Longrightarrow> ipc_step s s' \<Longrightarrow> ipc_reachable s'"

section \<open>No connection is lost or closed twice\<close>

text \<open>The connections that a thread holds.\<close>

fun server_holds :: "ServerPc \<Rightarrow> nat multiset" where
  "server_holds (Accepted c) = {#c#}"
| "server_holds (Admitted c) = {#c#}"
| "server_holds _ = {#}"

fun worker_holds :: "WorkerPc \<Rightarrow> nat multiset" where
  "worker_holds (Handling c) = {#c#}"
| "worker_holds _ = {#}"

fun owner_holds :: "OwnerPc \<Rightarrow> nat multiset" where
  "owner_holds (Draining cs) = mset cs"
| "owner_holds _ = {#}"

definition in_flight :: "IpcThreads \<Rightarrow> nat multiset" where
  "in_flight s = mset (it_clientQueue s) + server_holds (it_server s) +
     (\<Sum>pc \<leftarrow> it_workers s. worker_holds pc) + owner_holds (it_owner s)"

text \<open>
  \<open>phase\<close> is what is known at each point of \<open>Stop\<close>: outside of it a server that does not run has no threads, the accepting thread is
  gone before the queue is drained, and afterwards nothing is queued any more.
\<close>

fun phase :: "OwnerPc \<Rightarrow> IpcThreads \<Rightarrow> bool" where
  "phase OwnerIdle s \<longleftrightarrow>
     (\<not> it_running s \<longrightarrow> it_server s = ServerExited \<and> it_workers s = [] \<and> it_clientQueue s = [])"
| "phase StopCalled s \<longleftrightarrow> \<not> it_running s"
| "phase ListenerClosed s \<longleftrightarrow> \<not> it_running s \<and> \<not> it_listening s"
| "phase ServerJoined s \<longleftrightarrow> \<not> it_running s \<and> it_server s = ServerExited"
| "phase _ s \<longleftrightarrow> \<not> it_running s \<and> it_server s = ServerExited \<and> it_stopClientWorkers s \<and> it_clientQueue s = []"

definition ipc_inv :: "IpcThreads \<Rightarrow> bool" where
  "ipc_inv s \<longleftrightarrow> mset (it_accepted s) = mset (it_closed s) + in_flight s \<and> distinct (it_accepted s) \<and>
     length (it_clientQueue s) \<le> kMaxPendingIpcClients \<and> phase (it_owner s) s"

lemmas section_defs = Close_def Start_def serverCheck_def serverQueue_def set_worker_def stopDrain_def

lemma sum_worker_update:
  assumes "i < length ws"
  shows "(\<Sum>pc \<leftarrow> ws[i := pc]. worker_holds pc) + worker_holds (ws ! i) =
    (\<Sum>pc \<leftarrow> ws. worker_holds pc) + worker_holds pc"
  using assms
proof (induction ws arbitrary: i)
  case (Cons w ws)
  show ?case
  proof (cases i)
    case (Suc k)
    with Cons.IH [of k] Cons.prems show ?thesis by (simp add: ac_simps)
  qed (simp add: ac_simps)
qed simp

lemma sum_exited: "set ws \<subseteq> {WorkerExited} \<Longrightarrow> (\<Sum>pc \<leftarrow> ws. worker_holds pc) = {#}"
  by (induction ws) auto

lemma sum_waiting: "sum_list (replicate n {#}) = ({#} :: nat multiset)"
  by (induction n) auto

lemma worker_moves:
  assumes "i < length ws"
  shows "ws ! i = Waiting \<Longrightarrow> (\<Sum>pc \<leftarrow> ws[i := Handling c]. worker_holds pc) = add_mset c (\<Sum>pc \<leftarrow> ws. worker_holds pc)"
    "ws ! i = Handling c \<Longrightarrow> add_mset c (\<Sum>pc \<leftarrow> ws[i := Waiting]. worker_holds pc) = (\<Sum>pc \<leftarrow> ws. worker_holds pc)"
    "ws ! i = Waiting \<Longrightarrow> (\<Sum>pc \<leftarrow> ws[i := WorkerExited]. worker_holds pc) = (\<Sum>pc \<leftarrow> ws. worker_holds pc)"
  using sum_worker_update [OF assms, of "Handling c"] sum_worker_update [OF assms, of Waiting]
    sum_worker_update [OF assms, of WorkerExited] by auto

lemma ipc_step_inv: "ipc_step s s' \<Longrightarrow> ipc_inv s \<Longrightarrow> ipc_inv s'"
proof (induction rule: ipc_step.induct)
  case (take i s c cs)
  then show ?case
    by (cases "it_owner s") (auto simp: ipc_inv_def in_flight_def section_defs worker_moves)
next
  case (handled i s c)
  then show ?case
    using worker_moves(2) [OF handled(1,2)]
    by (cases "it_owner s") (auto simp: ipc_inv_def in_flight_def section_defs)
next
  case (worker_exit i s)
  then show ?case
    by (cases "it_owner s") (auto simp: ipc_inv_def in_flight_def section_defs worker_moves)
next
  case (check s c)
  then show ?case
    by (cases "it_owner s") (auto simp: ipc_inv_def in_flight_def section_defs)
next
  case (enqueue s c)
  then show ?case
    by (cases "it_owner s") (auto simp: ipc_inv_def in_flight_def section_defs)
next
  case (accept s c)
  then show ?case
    by (cases "it_owner s") (auto simp: ipc_inv_def in_flight_def)
next
  case (accept_fails s)
  then show ?case
    by (cases "it_owner s") (auto simp: ipc_inv_def in_flight_def)
qed (auto simp: ipc_inv_def in_flight_def section_defs sum_exited sum_waiting)

lemma ipc_reachable_inv: "ipc_reachable s \<Longrightarrow> ipc_inv s"
proof (induction rule: ipc_reachable.induct)
  case init
  show ?case by (simp add: ipc_inv_def ipc_init_def in_flight_def)
qed (rule ipc_step_inv)

text \<open>
  C19. Every connection is in one place. In every reachable state of the IPC server, under every interleaving of its
  threads and over any number of starts and stops, each accepted connection has been closed once, or is
  held by exactly one thread or the queue and not closed; and at most 64 connections wait.
\<close>

theorem ipc_connections_accounted:
  assumes "ipc_reachable s"
  shows "mset (it_accepted s) = mset (it_closed s) + in_flight s \<and> distinct (it_accepted s) \<and>
    length (it_clientQueue s) \<le> 64"
  using ipc_reachable_inv [OF assms] by (simp add: ipc_inv_def kMaxPendingIpcClients_def)

definition demo_accepted :: IpcThreads where
  "demo_accepted = (Start ipc_init)\<lparr>it_server := Accepted 7, it_accepted := [7]\<rparr>"

lemma demo_accepted_reachable: "ipc_reachable demo_accepted"
proof -
  have "ipc_reachable (Start ipc_init)"
    by (rule ipc_reachable.step [OF ipc_reachable.init], rule ipc_step.start) (simp_all add: ipc_init_def)
  moreover have "ipc_step (Start ipc_init) demo_accepted"
    using ipc_step.accept [of "Start ipc_init" 7] by (simp add: demo_accepted_def Start_def ipc_init_def)
  ultimately show ?thesis by (rule ipc_reachable.step)
qed

theorem ipc_connections_accounted_witness: "in_flight demo_accepted = {#7#}"
  using ipc_connections_accounted [OF demo_accepted_reachable]
  by (simp add: demo_accepted_def Start_def ipc_init_def)

text \<open>
  C21. Stopping leaks no connection: whenever the server is stopped, the connections that it has closed are
  exactly those that it has accepted, each closed once.
\<close>

theorem ipc_stop_closes_all:
  assumes "ipc_reachable s" "it_owner s = OwnerIdle" "\<not> it_running s"
  shows "mset (it_closed s) = mset (it_accepted s) \<and> distinct (it_closed s)"
proof -
  from ipc_reachable_inv [OF assms(1)] assms(2,3)
  have "mset (it_closed s) = mset (it_accepted s)" "distinct (it_accepted s)"
    by (simp_all add: ipc_inv_def in_flight_def)
  then show ?thesis by (metis mset_eq_imp_distinct_iff)
qed

text \<open>A run of \<open>Stop\<close> while the accept thread holds a connection.\<close>

definition demo_stop :: "bool \<Rightarrow> ServerPc \<Rightarrow> bool \<Rightarrow> WorkerPc list \<Rightarrow> OwnerPc \<Rightarrow> nat list \<Rightarrow> IpcThreads" where
  "demo_stop listening server stopping workers owner closed =
     \<lparr>it_running = False, it_listening = listening, it_stopClientWorkers = stopping, it_clientQueue = [],
      it_server = server, it_workers = workers, it_owner = owner, it_accepted = [7], it_closed = closed\<rparr>"

lemma reachable_by: "ipc_reachable s \<Longrightarrow> ipc_step s s' \<Longrightarrow> s' = t \<Longrightarrow> ipc_reachable t"
  using ipc_reachable.step by simp

lemma demo_stop_exits:
  "ipc_reachable (demo_stop False ServerExited True (replicate n WorkerExited @ replicate m Waiting) JoiningWorkers [7]) \<Longrightarrow>
   ipc_reachable (demo_stop False ServerExited True (replicate (n + m) WorkerExited) JoiningWorkers [7])"
proof (induction m arbitrary: n)
  case (Suc m)
  have "ipc_reachable (demo_stop False ServerExited True (replicate (Suc n) WorkerExited @ replicate m Waiting) JoiningWorkers [7])"
    by (rule reachable_by [OF Suc.prems ipc_step.worker_exit [where i = n]])
      (simp_all add: demo_stop_def nth_append set_worker_def list_update_append replicate_app_Cons_same)
  from Suc.IH [OF this] show ?case by simp
qed simp

lemma demo_stopped_reachable: "ipc_reachable (demo_stop False ServerExited True [] OwnerIdle [7])"
proof -
  note defs = demo_stop_def demo_accepted_def Start_def ipc_init_def serverCheck_def Close_def stopDrain_def
  let ?ws = "replicate kIpcWorkerCount Waiting"
  have "ipc_reachable (demo_stop True (Accepted 7) False ?ws StopCalled [])"
    by (rule reachable_by [OF demo_accepted_reachable ipc_step.stop]) (simp_all add: defs)
  then have "ipc_reachable (demo_stop True ServerExited False ?ws StopCalled [7])"
    by (rule reachable_by [OF _ ipc_step.check [where c = 7]]) (simp_all add: defs)
  then have "ipc_reachable (demo_stop False ServerExited False ?ws ListenerClosed [7])"
    by (rule reachable_by [OF _ ipc_step.close_listener]) (simp_all add: defs)
  then have "ipc_reachable (demo_stop False ServerExited False ?ws ServerJoined [7])"
    by (rule reachable_by [OF _ ipc_step.join_server]) (simp_all add: defs)
  then have "ipc_reachable (demo_stop False ServerExited True ?ws (Draining []) [7])"
    by (rule reachable_by [OF _ ipc_step.drain]) (simp_all add: defs)
  then have "ipc_reachable (demo_stop False ServerExited True ?ws JoiningWorkers [7])"
    by (rule reachable_by [OF _ ipc_step.wake]) (simp_all add: defs)
  then have "ipc_reachable (demo_stop False ServerExited True (replicate kIpcWorkerCount WorkerExited) JoiningWorkers [7])"
    using demo_stop_exits [of 0 kIpcWorkerCount] by simp
  then show ?thesis
    by (rule reachable_by [OF _ ipc_step.join_workers]) (auto simp: defs)
qed

theorem ipc_stop_closes_all_witness:
  "ipc_reachable (demo_stop False ServerExited True [] OwnerIdle [7]) \<and>
   mset (it_closed (demo_stop False ServerExited True [] OwnerIdle [7])) = {#7#}"
  using ipc_stop_closes_all [OF demo_stopped_reachable] demo_stopped_reachable by (simp add: demo_stop_def)

section \<open>Stopping ends\<close>

text \<open>The work that is left for a stop, an upper bound on the number of steps of all threads.\<close>

fun server_work :: "ServerPc \<Rightarrow> nat" where
  "server_work Accepting = 3"
| "server_work (Accepted c) = 2"
| "server_work (Admitted c) = 6"
| "server_work ServerExited = 0"

fun worker_work :: "WorkerPc \<Rightarrow> nat" where
  "worker_work Waiting = 1"
| "worker_work (Handling c) = 2"
| "worker_work WorkerExited = 0"

fun owner_work :: "OwnerPc \<Rightarrow> nat" where
  "owner_work OwnerIdle = 0"
| "owner_work StopCalled = 5"
| "owner_work ListenerClosed = 4"
| "owner_work ServerJoined = 3"
| "owner_work (Draining cs) = 2 + length cs"
| "owner_work JoiningWorkers = 1"

definition stop_work :: "IpcThreads \<Rightarrow> nat" where
  "stop_work s = owner_work (it_owner s) + server_work (it_server s) + 2 * length (it_clientQueue s) +
     (\<Sum>pc \<leftarrow> it_workers s. worker_work pc)"

lemma worker_work_update:
  "i < length ws \<Longrightarrow> (\<Sum>pc \<leftarrow> ws[i := pc]. worker_work pc) + worker_work (ws ! i) =
    (\<Sum>pc \<leftarrow> ws. worker_work pc) + worker_work pc"
proof (induction ws arbitrary: i)
  case (Cons w ws)
  then show ?case by (cases i) auto
qed simp

lemma ipc_step_work:
  assumes "ipc_step s s'" "ipc_inv s" "it_owner s \<noteq> OwnerIdle"
  shows "stop_work s' < stop_work s"
  using assms
proof (induction rule: ipc_step.induct)
  case (take i s c cs)
  then show ?case using worker_work_update [OF take(1), of "Handling c"]
    by (simp add: stop_work_def section_defs)
next
  case (handled i s c)
  then show ?case using worker_work_update [OF handled(1), of Waiting]
    by (simp add: stop_work_def section_defs)
next
  case (worker_exit i s)
  then show ?case using worker_work_update [OF worker_exit(1), of WorkerExited]
    by (simp add: stop_work_def section_defs)
next
  case (check s c)
  then show ?case by (cases "it_owner s") (auto simp: stop_work_def section_defs ipc_inv_def)
next
  case (join_workers s)
  then have "(\<Sum>pc \<leftarrow> it_workers s. worker_work pc) = 0" by (auto simp: sum_list_eq_0_iff)
  with join_workers show ?case by (simp add: stop_work_def)
qed (auto simp: stop_work_def section_defs)

lemma ipc_not_stuck:
  assumes "ipc_inv s" "it_owner s \<noteq> OwnerIdle"
  shows "\<exists>s'. ipc_step s s'"
proof (cases "it_owner s")
  case ListenerClosed
  show ?thesis
    by (cases "it_server s") (use ListenerClosed in \<open>blast intro: ipc_step.intros\<close>)+
next
  case (Draining cs)
  then show ?thesis by (cases cs) (blast intro: ipc_step.intros)+
next
  case JoiningWorkers
  show ?thesis
  proof (cases "set (it_workers s) \<subseteq> {WorkerExited}")
    case False
    then obtain i where i: "i < length (it_workers s)" "it_workers s ! i \<noteq> WorkerExited"
      by (auto simp: subset_iff in_set_conv_nth)
    with JoiningWorkers assms(1) show ?thesis
      by (cases "it_workers s ! i") (auto simp: ipc_inv_def intro: ipc_step.handled ipc_step.worker_exit)
  qed (use JoiningWorkers in \<open>blast intro: ipc_step.intros\<close>)
qed (use assms in \<open>blast intro: ipc_step.intros\<close>)+



end
