(* ===== verification/SocketIoTimeout.thy ===== *)
theory SocketIoTimeout
  imports Prelude
begin

text \<open>
  The time limit of a thread's socket calls, from \<open>gui/socket/socket_io_timeout.h\<close>. A time point is a number of nanoseconds, and
  \<open>time_max\<close> is \<open>time_point::max()\<close>, the limit that means none. The clock is an argument of each
  function that reads it. \<open>ScopedTimeout\<close> sets a limit for a block and restores the one before it.
\<close>

section \<open>Definitions\<close>

record ThreadTimeout =
  tt_ms :: u32
  tt_deadline :: int

definition kMaxTimeoutMs :: nat where
  "kMaxTimeoutMs = 300000"

definition kDefaultIoTimeoutMs :: u32 where
  "kDefaultIoTimeoutMs = 5000"

definition kMinIoTimeoutMs :: u32 where
  "kMinIoTimeoutMs = 5000"

abbreviation time_max :: int where
  "time_max \<equiv> 9223372036854775807"

definition milliseconds :: "nat \<Rightarrow> int" where
  "milliseconds n = int n * 1000000"

definition ClampTimeoutMs :: "nat \<Rightarrow> u32" where
  "ClampTimeoutMs requestedMs =
     (if requestedMs > kMaxTimeoutMs then of_nat kMaxTimeoutMs else of_nat requestedMs)"

definition HasThreadTimeout :: "ThreadTimeout \<Rightarrow> bool" where
  "HasThreadTimeout t \<longleftrightarrow> tt_ms t > 0"

definition GetThreadDeadline :: "ThreadTimeout \<Rightarrow> int" where
  "GetThreadDeadline t = (if HasThreadTimeout t then tt_deadline t else time_max)"

definition IsThreadTimeoutExpired :: "ThreadTimeout \<Rightarrow> int \<Rightarrow> bool" where
  "IsThreadTimeoutExpired t now \<longleftrightarrow> HasThreadTimeout t \<and> now \<ge> tt_deadline t"

text \<open>\<open>duration_cast\<close> cuts off toward zero; it is only applied to durations that are not negative.\<close>

definition GetRemainingTimeoutMs :: "ThreadTimeout \<Rightarrow> int \<Rightarrow> u32" where
  "GetRemainingTimeoutMs t now =
     (if \<not> HasThreadTimeout t then 0
      else if now \<ge> tt_deadline t then 1
      else let remaining = (tt_deadline t - now) div 1000000 in
        if remaining \<le> 0 then 1 else ClampTimeoutMs (nat remaining))"

definition ApplyDeadline :: "ThreadTimeout \<Rightarrow> int \<Rightarrow> int \<Rightarrow> ThreadTimeout" where
  "ApplyDeadline previous now requestedDeadline =
     (let maximumDeadline = now + milliseconds kMaxTimeoutMs;
          limited = (if requestedDeadline \<noteq> time_max \<and> requestedDeadline > maximumDeadline
                     then maximumDeadline else requestedDeadline);
          effective = (if tt_ms previous > 0 \<and> (limited = time_max \<or> tt_deadline previous < limited)
                       then tt_deadline previous else limited)
      in if effective = time_max then \<lparr>tt_ms = 0, tt_deadline = 0\<rparr>
         else if effective \<le> now then \<lparr>tt_ms = 1, tt_deadline = effective\<rparr>
         else
           let remaining = (effective - now) div 1000000;
               ms = ClampTimeoutMs (nat (if remaining \<le> 0 then 1 else remaining))
           in \<lparr>tt_ms = (if ms = 0 then 1 else ms), tt_deadline = effective\<rparr>)"

text \<open>
  The constructors of \<open>ScopedTimeout\<close>. The first reads the clock twice, \<open>now1\<close> for the requested deadline and
  \<open>now2\<close> in \<open>ApplyDeadline\<close>.
\<close>

definition ScopedTimeout_seconds :: "ThreadTimeout \<Rightarrow> int \<Rightarrow> int \<Rightarrow> int \<Rightarrow> ThreadTimeout" where
  "ScopedTimeout_seconds t now1 now2 seconds =
     (if seconds \<le> 0 then ApplyDeadline t now2 time_max
      else ApplyDeadline t now2
        (now1 + milliseconds (unat (ClampTimeoutMs (nat (seconds * 1000))))))"

definition ScopedTimeout_deadline :: "ThreadTimeout \<Rightarrow> int \<Rightarrow> int \<Rightarrow> ThreadTimeout" where
  "ScopedTimeout_deadline t now deadline = ApplyDeadline t now deadline"

text \<open>The time that \<open>SocketOptionTimeoutGuard\<close> gives a single call.\<close>

definition guardTimeoutMs :: "ThreadTimeout \<Rightarrow> int \<Rightarrow> u32" where
  "guardTimeoutMs t now =
     (let remainingMs = (if HasThreadTimeout t then GetRemainingTimeoutMs t now else kDefaultIoTimeoutMs)
      in if remainingMs < kMinIoTimeoutMs then kMinIoTimeoutMs else remainingMs)"

section \<open>Nested limits\<close>

lemma unat_ClampTimeoutMs: "unat (ClampTimeoutMs n) = min n kMaxTimeoutMs"
  by (auto simp: ClampTimeoutMs_def kMaxTimeoutMs_def min_def unsigned_of_nat take_bit_nat_eq_self)

lemma ms_pos: "(if m = 0 then 1 else m) > (0 :: u32)"
  by (simp add: word_neq_0_conv)

lemma unat_ms: "unat (if m = 0 then 1 else m :: u32) = max 1 (unat m)"
  by (auto simp: max_def unat_eq_zero) (metis One_nat_def Suc_leI unat_gt_0)

lemma ApplyDeadline_spec:
  assumes "now + milliseconds kMaxTimeoutMs < time_max"
    and "0 < tt_ms previous \<longrightarrow> tt_deadline previous < time_max" and "requested \<le> time_max"
  shows "GetThreadDeadline (ApplyDeadline previous now requested) =
      min (GetThreadDeadline previous)
        (if requested = time_max then time_max else min requested (now + milliseconds kMaxTimeoutMs))"
    "unat (tt_ms (ApplyDeadline previous now requested)) \<le> kMaxTimeoutMs"
proof -
  let ?limited = "if requested \<noteq> time_max \<and> requested > now + milliseconds kMaxTimeoutMs
    then now + milliseconds kMaxTimeoutMs else requested"
  let ?effective = "if tt_ms previous > 0 \<and> (?limited = time_max \<or> tt_deadline previous < ?limited)
    then tt_deadline previous else ?limited"
  have eff: "?effective = min (GetThreadDeadline previous)
      (if requested = time_max then time_max else min requested (now + milliseconds kMaxTimeoutMs))"
    using assms by (auto simp: GetThreadDeadline_def HasThreadTimeout_def min_def)
  show "GetThreadDeadline (ApplyDeadline previous now requested) =
      min (GetThreadDeadline previous)
        (if requested = time_max then time_max else min requested (now + milliseconds kMaxTimeoutMs))"
    unfolding eff [symmetric] ApplyDeadline_def Let_def
    by (simp add: GetThreadDeadline_def HasThreadTimeout_def ms_pos word_neq_0_conv)
  show "unat (tt_ms (ApplyDeadline previous now requested)) \<le> kMaxTimeoutMs"
    unfolding ApplyDeadline_def Let_def
    by (simp add: unat_ms unat_ClampTimeoutMs) (simp add: kMaxTimeoutMs_def)
qed

text \<open>
  A nested time limit never extends the one around it. The deadline inside a \<open>ScopedTimeout\<close> block is the earlier of
  the deadline outside and the requested one, itself at most five minutes ahead; a request without a
  positive number of seconds leaves the deadline as it is. The clock is assumed to be five minutes away from its last value.
\<close>

theorem ScopedTimeout_never_extends:
  assumes "now1 \<le> now2" "now2 + milliseconds 300000 < time_max"
    and "HasThreadTimeout t \<Longrightarrow> tt_deadline t < time_max"
  shows "GetThreadDeadline (ScopedTimeout_seconds t now1 now2 seconds) =
    (if seconds \<le> 0 then GetThreadDeadline t
     else min (GetThreadDeadline t) (now1 + milliseconds (min (nat (seconds * 1000)) 300000)))"
proof -
  let ?r = "now1 + milliseconds (min (nat (seconds * 1000)) 300000)"
  have "?r \<le> now1 + milliseconds 300000" by (simp add: milliseconds_def)
  with assms(1,2) have r: "?r < time_max" "?r \<le> now2 + milliseconds 300000" by linarith+
  have prev: "0 < tt_ms t \<longrightarrow> tt_deadline t < time_max" using assms(3) by (simp add: HasThreadTimeout_def)
  have "GetThreadDeadline t \<le> time_max" using assms(3) by (auto simp: GetThreadDeadline_def)
  moreover have "unat (ClampTimeoutMs (nat (seconds * 1000))) = min (nat (seconds * 1000)) 300000"
    by (simp add: unat_ClampTimeoutMs kMaxTimeoutMs_def)
  ultimately show ?thesis
    using ApplyDeadline_spec(1) [OF _ prev, of now2 time_max] ApplyDeadline_spec(1) [OF _ prev, of now2 ?r]
      assms(2) r unfolding ScopedTimeout_seconds_def kMaxTimeoutMs_def
    by (simp add: min_def)
qed

theorem ScopedTimeout_never_extends_witness:
  "GetThreadDeadline (ScopedTimeout_seconds \<lparr>tt_ms = 1000, tt_deadline = 1000000000\<rparr> 0 0 30) = 1000000000"
  using ScopedTimeout_never_extends [of 0 0 "\<lparr>tt_ms = 1000, tt_deadline = 1000000000\<rparr>" 30]
  by (simp add: milliseconds_def GetThreadDeadline_def HasThreadTimeout_def)

text \<open>A single call is given between five seconds and five minutes, whatever is left of the limit.\<close>

lemma guardTimeoutMs_bounds: "5000 \<le> unat (guardTimeoutMs t now)" "unat (guardTimeoutMs t now) \<le> 300000"
proof -
  have "unat (GetRemainingTimeoutMs t now) \<le> 300000"
    by (simp add: GetRemainingTimeoutMs_def Let_def unat_ClampTimeoutMs kMaxTimeoutMs_def)
  then show "5000 \<le> unat (guardTimeoutMs t now)" "unat (guardTimeoutMs t now) \<le> 300000"
    by (auto simp: guardTimeoutMs_def Let_def kMinIoTimeoutMs_def kDefaultIoTimeoutMs_def word_less_nat_alt)
qed

end
