(* ===== verification/ConnectionManager.thy ===== *)
theory ConnectionManager
  imports Prelude "HOL-Library.AList"
begin

text \<open>
  The connections of the server, from \<open>engine/interface/socket/server.cpp\<close>: the main thread accepts connections, registers them with a
  thread for each, removes those whose thread has ended, and at the end removes all. A step is one section of a
  thread between two points where another thread can run. Connections are numbered; the \<open>ConnectionInfo\<close> and the \<open>SocketManager\<close> of
  connection \<open>c\<close> are the objects \<open>c\<close> of two heaps, and the thread of connection \<open>c\<close> follows its pointer to the first.
\<close>

section \<open>State\<close>

definition MAX_CONNECTIONS :: nat where
  "MAX_CONNECTIONS = 32"

record ConnectionInfo =
  ci_id :: u32
  ci_socket :: nat
  ci_stopped :: bool

text \<open>
  Where a worker is: at the test of its loop, before \<open>Receive\<close>, blocked in \<open>recv\<close>, in \<open>DispatchCommand_V2\<close>, in \<open>Close\<close> between \<open>::close\<close>
  and the assignment of \<open>connFd_\<close> (with whether the command is the one that stops the server), before the section that reports its end, or at its
  end.
\<close>

datatype ConnThread = LoopTest | AtReceive | InRecv | InDispatch | InClose bool | AtCleanup | ThreadEnded

text \<open>Where \<open>Remove\<close> is called: in the loop that empties the cleanup queue, or in \<open>ShutdownAll\<close> with the connections left to remove.\<close>

datatype RemoveCaller = FromCleanup | FromShutdown "u32 list"

datatype MainThread = AtLoop | Polling | Cleaning | Shutting "u32 list" | MainEnded
  | Stopping nat RemoveCaller | Closing nat RemoveCaller | Closed nat RemoveCaller | Joining nat RemoveCaller

datatype ConnTrap = UseAfterFree | JoinableDestroyed

text \<open>
  \<open>cs_sockets c\<close> is whether \<open>connFd_\<close> of the socket object is open. \<open>cs_accepted\<close>, \<open>cs_closed\<close> and \<open>cs_registered\<close> record what happened; the
  objects that were used after their end are in \<open>cs_traps\<close>.
\<close>

record ConnServer =
  cs_running :: bool
  cs_connections :: "(u32 \<times> nat) list"
  cs_next_id :: u32
  cs_infos :: "nat \<rightharpoonup> ConnectionInfo"
  cs_sockets :: "nat \<rightharpoonup> bool"
  cs_workers :: "nat \<rightharpoonup> ConnThread"
  cs_cleanup :: "u32 list"
  cs_main :: MainThread
  cs_accepted :: "nat list"
  cs_closed :: "nat list"
  cs_registered :: nat
  cs_traps :: "ConnTrap set"

definition conn_init :: ConnServer where
  "conn_init = \<lparr>cs_running = True, cs_connections = [], cs_next_id = 1, cs_infos = Map.empty, cs_sockets = Map.empty,
     cs_workers = Map.empty, cs_cleanup = [], cs_main = AtLoop, cs_accepted = [], cs_closed = [], cs_registered = 0, cs_traps = {}\<rparr>"

definition conn_trap :: "ConnTrap \<Rightarrow> ConnServer \<Rightarrow> ConnServer" where
  "conn_trap t s = s\<lparr>cs_traps := insert t (cs_traps s)\<rparr>"

section \<open>Sockets\<close>

text \<open>
  \<open>Close\<close> calls \<open>::close\<close> when \<open>connFd_\<close> is not -1 and then sets it to -1; these are two sections, since nothing keeps a worker and the main
  thread from calling it at once.
\<close>

definition fd_closed :: "nat \<Rightarrow> ConnServer \<Rightarrow> ConnServer" where
  "fd_closed c s = s\<lparr>cs_closed := c # cs_closed s\<rparr>"

definition fd_reset :: "nat \<Rightarrow> ConnServer \<Rightarrow> ConnServer" where
  "fd_reset c s =
     (if cs_sockets s c = None then conn_trap UseAfterFree s else s\<lparr>cs_sockets := (cs_sockets s)(c \<mapsto> False)\<rparr>)"

lemma fd_closed_simps [simp]:
  "cs_main (fd_closed c s) = cs_main s" "cs_infos (fd_closed c s) = cs_infos s" "cs_sockets (fd_closed c s) = cs_sockets s"
  "cs_workers (fd_closed c s) = cs_workers s" "cs_connections (fd_closed c s) = cs_connections s"
  "cs_closed (fd_closed c s) = c # cs_closed s" "cs_accepted (fd_closed c s) = cs_accepted s" "cs_cleanup (fd_closed c s) = cs_cleanup s"
  "cs_next_id (fd_closed c s) = cs_next_id s" "cs_registered (fd_closed c s) = cs_registered s" "cs_traps (fd_closed c s) = cs_traps s"
  by (simp_all add: fd_closed_def)

text \<open>The destructor closes the connection when it is still open.\<close>

definition delete_socket :: "nat \<Rightarrow> ConnServer \<Rightarrow> ConnServer" where
  "delete_socket c s =
     (case cs_sockets s c of
        None \<Rightarrow> conn_trap UseAfterFree s
      | Some is_open \<Rightarrow>
          let s' = (if is_open then fd_closed c s else s) in s'\<lparr>cs_sockets := (cs_sockets s')(c := None)\<rparr>)"

section \<open>Registration\<close>

text \<open>
  An entry with the same number would be destroyed together with its thread object, which ends the program when the thread has not been
  joined.
\<close>

definition Register :: "nat \<Rightarrow> ConnServer \<Rightarrow> u32 \<times> ConnServer" where
  "Register c s =
     (if MAX_CONNECTIONS \<le> length (cs_connections s) then (0, s)
      else
        let n = cs_next_id s;
            s1 = s\<lparr>cs_next_id := n + 1, cs_registered := Suc (cs_registered s),
              cs_infos := (cs_infos s)(c \<mapsto> \<lparr>ci_id = n, ci_socket = c, ci_stopped = False\<rparr>),
              cs_workers := (cs_workers s)(c \<mapsto> LoopTest)\<rparr>;
            s2 = (if map_of (cs_connections s) n = None then s1 else conn_trap JoinableDestroyed s1)
        in (n, s2\<lparr>cs_connections := AList.update n c (cs_connections s2)\<rparr>))"

definition accept_callback :: "nat \<Rightarrow> ConnServer \<Rightarrow> ConnServer" where
  "accept_callback c s =
     (case Register c (s\<lparr>cs_sockets := (cs_sockets s)(c \<mapsto> True), cs_accepted := c # cs_accepted s\<rparr>) of (n, s') \<Rightarrow>
        if n = 0 then delete_socket c s' else s')"

section \<open>Removal\<close>

fun resume :: "RemoveCaller \<Rightarrow> MainThread" where
  "resume FromCleanup = Cleaning"
| "resume (FromShutdown ids) = Shutting ids"

text \<open>The section of \<open>Remove\<close> under the mutex; then the flag, the socket and the join, and the end of the object.\<close>

definition Remove :: "u32 \<Rightarrow> RemoveCaller \<Rightarrow> ConnServer \<Rightarrow> ConnServer" where
  "Remove n k s =
     (case map_of (cs_connections s) n of
        None \<Rightarrow> s\<lparr>cs_main := resume k\<rparr>
      | Some c \<Rightarrow> s\<lparr>cs_connections := AList.delete n (cs_connections s), cs_main := Stopping c k\<rparr>)"

definition remove_stop :: "nat \<Rightarrow> RemoveCaller \<Rightarrow> ConnServer \<Rightarrow> ConnServer" where
  "remove_stop c k s =
     (case cs_infos s c of
        None \<Rightarrow> conn_trap UseAfterFree s
      | Some info \<Rightarrow> s\<lparr>cs_infos := (cs_infos s)(c \<mapsto> info\<lparr>ci_stopped := True\<rparr>), cs_main := Closing c k\<rparr>)"

definition remove_close :: "nat \<Rightarrow> RemoveCaller \<Rightarrow> ConnServer \<Rightarrow> ConnServer" where
  "remove_close c k s =
     (case cs_sockets s c of
        None \<Rightarrow> conn_trap UseAfterFree s
      | Some is_open \<Rightarrow> if is_open then (fd_closed c s)\<lparr>cs_main := Closed c k\<rparr> else s\<lparr>cs_main := Joining c k\<rparr>)"

definition remove_closed :: "nat \<Rightarrow> RemoveCaller \<Rightarrow> ConnServer \<Rightarrow> ConnServer" where
  "remove_closed c k s = (fd_reset c s)\<lparr>cs_main := Joining c k\<rparr>"

definition remove_end :: "nat \<Rightarrow> RemoveCaller \<Rightarrow> ConnServer \<Rightarrow> ConnServer" where
  "remove_end c k s = (delete_socket c s)\<lparr>cs_infos := (cs_infos s)(c := None), cs_main := resume k\<rparr>"

section \<open>Workers\<close>

definition set_thread :: "nat \<Rightarrow> ConnThread \<Rightarrow> ConnServer \<Rightarrow> ConnServer" where
  "set_thread c pc s = s\<lparr>cs_workers := (cs_workers s)(c \<mapsto> pc)\<rparr>"

text \<open>What a worker does with its socket, which it reaches through its \<open>ConnectionInfo\<close>.\<close>

definition with_socket :: "nat \<Rightarrow> (ConnectionInfo \<Rightarrow> bool \<Rightarrow> ConnServer) \<Rightarrow> ConnServer \<Rightarrow> ConnServer" where
  "with_socket c f s =
     (case cs_infos s c of
        None \<Rightarrow> conn_trap UseAfterFree s
      | Some info \<Rightarrow> (case cs_sockets s (ci_socket info) of
          None \<Rightarrow> conn_trap UseAfterFree s
        | Some is_open \<Rightarrow> f info is_open))"

definition worker_test :: "nat \<Rightarrow> ConnServer \<Rightarrow> ConnServer" where
  "worker_test c s = with_socket c
     (\<lambda>info is_open. set_thread c (if \<not> ci_stopped info \<and> is_open then AtReceive else AtCleanup) s) s"

definition worker_receive :: "nat \<Rightarrow> ConnServer \<Rightarrow> ConnServer" where
  "worker_receive c s = with_socket c (\<lambda>info is_open. set_thread c (if is_open then InRecv else AtCleanup) s) s"

text \<open>
  The end of a command, and the commands that close the connection: \<open>CMD_CLOSECONNECTION\<close>, and \<open>CMD_TERMINATESERVER\<close>, which has the
  server stop.
\<close>

definition worker_dispatched :: "nat \<Rightarrow> ConnServer \<Rightarrow> ConnServer" where
  "worker_dispatched c s = with_socket c (\<lambda>info is_open. set_thread c LoopTest s) s"

definition stop_if :: "bool \<Rightarrow> ConnServer \<Rightarrow> ConnServer" where
  "stop_if terminate s = (if terminate then s\<lparr>cs_running := False\<rparr> else s)"

definition worker_close :: "nat \<Rightarrow> bool \<Rightarrow> ConnServer \<Rightarrow> ConnServer" where
  "worker_close c terminate s = with_socket c
     (\<lambda>info is_open. if is_open then set_thread c (InClose terminate) (fd_closed c s)
        else stop_if terminate (set_thread c LoopTest s)) s"

definition worker_closed :: "nat \<Rightarrow> bool \<Rightarrow> ConnServer \<Rightarrow> ConnServer" where
  "worker_closed c terminate s = with_socket c
     (\<lambda>info is_open. stop_if terminate (set_thread c LoopTest (fd_reset (ci_socket info) s))) s"

definition worker_report :: "nat \<Rightarrow> ConnServer \<Rightarrow> ConnServer" where
  "worker_report c s =
     (case cs_infos s c of
        None \<Rightarrow> conn_trap UseAfterFree s
      | Some info \<Rightarrow> (set_thread c ThreadEnded s)\<lparr>cs_cleanup := cs_cleanup s @ [ci_id info]\<rparr>)"

text \<open>\<open>g_cleanup_mutex\<close> is held by the main thread from the test of the queue to its end, and so during the removals in between.\<close>

fun cleanup_locked :: "MainThread \<Rightarrow> bool" where
  "cleanup_locked Cleaning \<longleftrightarrow> True"
| "cleanup_locked (Stopping c k) \<longleftrightarrow> k = FromCleanup"
| "cleanup_locked (Closing c k) \<longleftrightarrow> k = FromCleanup"
| "cleanup_locked (Closed c k) \<longleftrightarrow> k = FromCleanup"
| "cleanup_locked (Joining c k) \<longleftrightarrow> k = FromCleanup"
| "cleanup_locked _ \<longleftrightarrow> False"

section \<open>Steps\<close>

text \<open>
  Steps of the server, and what a client does to a thread that waits for it: it sends a byte, or it is gone. On Linux a thread that is
  blocked in \<open>recv\<close> stays there when another thread closes the descriptor, so \<open>Close\<close> is not among the steps that end the wait. That a command
  is done is a step of the server, although it may wait for the rest of its request, too. The order in which \<open>ShutdownAll\<close> finds the
  connections is that of a hash table, so it is any order.
\<close>

inductive conn_step :: "ConnServer \<Rightarrow> ConnServer \<Rightarrow> bool" where
  stop: "conn_step s (s\<lparr>cs_running := False\<rparr>)"
| loop: "cs_main s = AtLoop \<Longrightarrow> cs_running s \<Longrightarrow> conn_step s (s\<lparr>cs_main := Polling\<rparr>)"
| accept: "cs_main s = Polling \<Longrightarrow> c \<notin> set (cs_accepted s) \<Longrightarrow> conn_step s (accept_callback c s)"
| polled: "cs_main s = Polling \<Longrightarrow> conn_step s (s\<lparr>cs_main := Cleaning\<rparr>)"
| clean: "cs_main s = Cleaning \<Longrightarrow> cs_cleanup s = n # ns \<Longrightarrow> conn_step s (Remove n FromCleanup (s\<lparr>cs_cleanup := ns\<rparr>))"
| cleaned: "cs_main s = Cleaning \<Longrightarrow> cs_cleanup s = [] \<Longrightarrow> conn_step s (s\<lparr>cs_main := AtLoop\<rparr>)"
| remove_stop: "cs_main s = Stopping c k \<Longrightarrow> conn_step s (remove_stop c k s)"
| remove_close: "cs_main s = Closing c k \<Longrightarrow> conn_step s (remove_close c k s)"
| remove_closed: "cs_main s = Closed c k \<Longrightarrow> conn_step s (remove_closed c k s)"
| join: "cs_main s = Joining c k \<Longrightarrow> cs_workers s c = Some ThreadEnded \<Longrightarrow> conn_step s (remove_end c k s)"
| leave: "cs_main s = AtLoop \<and> \<not> cs_running s \<or> cs_main s = Polling \<Longrightarrow> mset ns = mset (map fst (cs_connections s)) \<Longrightarrow>
     conn_step s (s\<lparr>cs_main := Shutting ns\<rparr>)"
| shut: "cs_main s = Shutting (n # ns) \<Longrightarrow> conn_step s (Remove n (FromShutdown ns) s)"
| shut_down: "cs_main s = Shutting [] \<Longrightarrow> conn_step s (s\<lparr>cs_main := MainEnded\<rparr>)"
| test: "cs_workers s c = Some LoopTest \<Longrightarrow> conn_step s (worker_test c s)"
| receive: "cs_workers s c = Some AtReceive \<Longrightarrow> conn_step s (worker_receive c s)"
| dispatched: "cs_workers s c = Some InDispatch \<Longrightarrow> conn_step s (worker_dispatched c s)"
| close: "cs_workers s c = Some InDispatch \<Longrightarrow> conn_step s (worker_close c terminate s)"
| closed: "cs_workers s c = Some (InClose terminate) \<Longrightarrow> conn_step s (worker_closed c terminate s)"
| report: "cs_workers s c = Some AtCleanup \<Longrightarrow> \<not> cleanup_locked (cs_main s) \<Longrightarrow> conn_step s (worker_report c s)"

inductive peer_step :: "ConnServer \<Rightarrow> ConnServer \<Rightarrow> bool" where
  sends: "cs_workers s c = Some InRecv \<Longrightarrow> peer_step s (set_thread c InDispatch s)"
| gone: "cs_workers s c = Some InRecv \<Longrightarrow> peer_step s (set_thread c AtCleanup s)"

inductive conn_reachable :: "ConnServer \<Rightarrow> bool" where
  init: "conn_reachable conn_init"
| own: "conn_reachable s \<Longrightarrow> conn_step s s' \<Longrightarrow> conn_reachable s'"
| peer: "conn_reachable s \<Longrightarrow> peer_step s s' \<Longrightarrow> conn_reachable s'"

section \<open>Objects and their users\<close>

text \<open>The connection that the main thread is removing.\<close>

fun removing :: "MainThread \<Rightarrow> (nat \<times> RemoveCaller) option" where
  "removing (Stopping c k) = Some (c, k)"
| "removing (Closing c k) = Some (c, k)"
| "removing (Closed c k) = Some (c, k)"
| "removing (Joining c k) = Some (c, k)"
| "removing _ = None"

definition removed_now :: "MainThread \<Rightarrow> nat set" where
  "removed_now pc = fst ` set_option (removing pc)"

lemma removing_resume [simp]: "removing (resume k) = None"
  by (cases k) simp_all

lemma removed_now_simps [simp]:
  "removed_now (Stopping c k) = {c}" "removed_now (Closing c k) = {c}" "removed_now (Closed c k) = {c}" "removed_now (Joining c k) = {c}"
  "removed_now AtLoop = {}" "removed_now Polling = {}" "removed_now Cleaning = {}" "removed_now (Shutting ns) = {}" "removed_now MainEnded = {}"
  "removed_now (resume k) = {}"
  by (simp_all add: removed_now_def)

lemma update_fresh: "n \<notin> fst ` set al \<Longrightarrow> AList.update n c al = al @ [(n, c)]"
  by (induction al) auto

text \<open>
  The registered connections have different numbers below the next one and different objects. The objects that exist are those of the
  registered connections and of the one that is being removed, and the threads that run are those of these objects.
\<close>

definition table_of :: "u32 \<Rightarrow> nat \<Rightarrow> (u32 \<times> nat) list \<Rightarrow> bool" where
  "table_of next r l \<longleftrightarrow> unat next = Suc r \<and> distinct (map fst l) \<and> distinct (map snd l) \<and> length l \<le> MAX_CONNECTIONS"

definition objects_of ::
  "u32 \<Rightarrow> (u32 \<times> nat) list \<Rightarrow> nat set \<Rightarrow> (nat \<rightharpoonup> ConnectionInfo) \<Rightarrow> (nat \<rightharpoonup> bool) \<Rightarrow> (nat \<Rightarrow> bool) \<Rightarrow> bool" where
  "objects_of next l rem infos sockets acc \<longleftrightarrow>
     (\<forall>c. infos c \<noteq> None \<longleftrightarrow> c \<in> rem \<or> (\<exists>n. (n, c) \<in> set l)) \<and> (\<forall>n c. (n, c) \<in> set l \<longrightarrow> c \<notin> rem) \<and>
     (\<forall>c. sockets c = None \<longleftrightarrow> infos c = None) \<and>
     (\<forall>c info. infos c = Some info \<longrightarrow> ci_socket info = c \<and> unat (ci_id info) < unat next \<and> acc c) \<and>
     (\<forall>n c c' info. (n, c) \<in> set l \<longrightarrow> infos c' = Some info \<longrightarrow> (ci_id info = n \<longleftrightarrow> c' = c))"

definition threads_of :: "(nat \<rightharpoonup> ConnectionInfo) \<Rightarrow> (nat \<rightharpoonup> ConnThread) \<Rightarrow> bool" where
  "threads_of infos workers \<longleftrightarrow> (\<forall>c. infos c \<noteq> None \<longrightarrow> workers c \<noteq> None) \<and>
     (\<forall>c. infos c = None \<longrightarrow> workers c = None \<or> workers c = Some ThreadEnded)"

definition objects_ok :: "ConnServer \<Rightarrow> bool" where
  "objects_ok s \<longleftrightarrow> table_of (cs_next_id s) (cs_registered s) (cs_connections s) \<and>
     objects_of (cs_next_id s) (cs_connections s) (removed_now (cs_main s)) (cs_infos s) (cs_sockets s) (\<lambda>c. c \<in> set (cs_accepted s)) \<and>
     threads_of (cs_infos s) (cs_workers s) \<and> cs_traps s = {}"

lemma with_socket_objects:
  assumes "objects_ok s" "cs_workers s c = Some pc" "pc \<noteq> ThreadEnded"
  obtains info is_open where "cs_infos s c = Some info" "ci_socket info = c" "cs_sockets s c = Some is_open"
    "\<And>f. with_socket c f s = f info is_open"
proof -
  have "cs_infos s c = None \<longrightarrow> cs_workers s c = None \<or> cs_workers s c = Some ThreadEnded"
    using assms(1) by (simp add: objects_ok_def threads_of_def)
  with assms obtain info where info: "cs_infos s c = Some info" by auto
  moreover from this assms(1) have c: "ci_socket info = c" "cs_sockets s c \<noteq> None"
    by (auto simp: objects_ok_def objects_of_def)
  ultimately show ?thesis by (auto intro!: that simp: with_socket_def)
qed

lemma objects_thread: "objects_ok s \<Longrightarrow> cs_infos s c = Some info \<Longrightarrow> objects_ok (set_thread c pc s)"
  by (auto simp: objects_ok_def set_thread_def threads_of_def)

lemma objects_live_thread:
  assumes "objects_ok s" "cs_workers s c = Some pc" "pc \<noteq> ThreadEnded"
  shows "objects_ok (set_thread c pc' s)"
  using assms by (rule with_socket_objects) (rule objects_thread [OF assms(1)])

lemma objects_main: "objects_ok s \<Longrightarrow> removed_now pc = removed_now (cs_main s) \<Longrightarrow> objects_ok (s\<lparr>cs_main := pc\<rparr>)"
  by (simp add: objects_ok_def)

lemma objects_frame [simp]:
  "objects_ok (s\<lparr>cs_running := r\<rparr>) = objects_ok s" "objects_ok (s\<lparr>cs_cleanup := ns\<rparr>) = objects_ok s" "objects_ok (fd_closed c s) = objects_ok s"
  "objects_ok (stop_if t s) = objects_ok s"
  by (simp_all add: objects_ok_def fd_closed_def stop_if_def)

lemma objects_reset:
  assumes "objects_ok s" "cs_sockets s c = Some b"
  shows "objects_ok (fd_reset c s)"
proof -
  have "(cs_sockets s c = None) = (cs_infos s c = None)" using assms(1) unfolding objects_ok_def objects_of_def by blast
  with assms show ?thesis
    unfolding objects_ok_def fd_reset_def objects_of_def by simp
qed

lemma objects_remove:
  assumes ok: "objects_ok s" and none: "removed_now (cs_main s) = {}"
  shows "objects_ok (Remove n k s)"
proof (cases "map_of (cs_connections s) n")
  case None
  with assms show ?thesis by (simp add: Remove_def objects_main)
next
  case (Some c)
  let ?l = "AList.delete n (cs_connections s)"
  have d: "distinct (map fst (cs_connections s))" "distinct (map snd (cs_connections s))"
    using ok by (simp_all add: objects_ok_def table_of_def)
  have mem: "(n, c) \<in> set (cs_connections s)" using Some by (rule map_of_SomeD)
  have "m = n \<longleftrightarrow> c' = c" if "(m, c') \<in> set (cs_connections s)" for m c'
    using eq_key_imp_eq_value [OF d(1) mem] inj_onD [OF conjunct2 [OF d(2) [unfolded distinct_map]] _ that mem] that by auto
  then have keep: "(m, c') \<in> set ?l \<longleftrightarrow> (m, c') \<in> set (cs_connections s) \<and> c' \<noteq> c" for m c'
    by (auto simp: AList.delete_eq)
  have "table_of (cs_next_id s) (cs_registered s) ?l"
    using ok d by (auto simp: objects_ok_def table_of_def AList.delete_eq distinct_map_filter intro: order_trans [OF length_filter_le])
  moreover have "objects_of (cs_next_id s) ?l {c} (cs_infos s) (cs_sockets s) (\<lambda>c. c \<in> set (cs_accepted s))"
    using ok mem unfolding objects_ok_def none objects_of_def keep by blast
  ultimately show ?thesis using ok Some by (simp add: Remove_def objects_ok_def)
qed

lemma objects_end:
  assumes "objects_ok s" "cs_main s = Joining c k" "cs_workers s c = Some ThreadEnded"
  shows "objects_ok (remove_end c k s)"
proof -
  from assms have "cs_infos s c \<noteq> None \<and> cs_sockets s c \<noteq> None" by (simp add: objects_ok_def objects_of_def del: not_None_eq)
  then obtain is_open where "cs_sockets s c = Some is_open" by blast
  with assms show ?thesis
    by (auto simp: objects_ok_def remove_end_def delete_socket_def fd_closed_def Let_def threads_of_def objects_of_def)
qed

text \<open>As long as the numbers do not run out, a connection is registered under a number of its own, or its socket is destroyed.\<close>

lemma accept_cases:
  assumes ok: "objects_ok s" and few: "cs_registered (accept_callback c s) < 2 ^ 32 - 1" and new: "c \<notin> set (cs_accepted s)"
  obtains (full) "MAX_CONNECTIONS \<le> length (cs_connections s)"
      "accept_callback c s = s\<lparr>cs_accepted := c # cs_accepted s, cs_closed := c # cs_closed s\<rparr>"
    | (registered) "length (cs_connections s) < MAX_CONNECTIONS" "cs_next_id s \<notin> fst ` set (cs_connections s)"
      "unat (cs_next_id s + 1) = Suc (unat (cs_next_id s))"
      "accept_callback c s = s\<lparr>cs_accepted := c # cs_accepted s, cs_sockets := (cs_sockets s)(c \<mapsto> True),
        cs_next_id := cs_next_id s + 1, cs_registered := Suc (cs_registered s),
        cs_infos := (cs_infos s)(c \<mapsto> \<lparr>ci_id = cs_next_id s, ci_socket = c, ci_stopped = False\<rparr>),
        cs_workers := (cs_workers s)(c \<mapsto> LoopTest), cs_connections := cs_connections s @ [(cs_next_id s, c)]\<rparr>"
proof (cases "MAX_CONNECTIONS \<le> length (cs_connections s)")
  case True
  have "cs_sockets s c = None" using ok new unfolding objects_ok_def objects_of_def by (cases "cs_infos s c") auto
  then have "(cs_sockets s)(c := None) = cs_sockets s" by (simp add: fun_upd_idem)
  with True full show ?thesis by (simp add: accept_callback_def Register_def delete_socket_def fd_closed_def Let_def)
next
  case False
  let ?n = "cs_next_id s"
  have n: "unat ?n = Suc (cs_registered s)" using ok by (simp add: objects_ok_def table_of_def)
  then have "?n \<noteq> 0" by auto
  moreover have fresh: "?n \<notin> fst ` set (cs_connections s)"
  proof
    assume "?n \<in> fst ` set (cs_connections s)"
    then obtain c' where "(?n, c') \<in> set (cs_connections s)" by auto
    moreover from this ok obtain info where "cs_infos s c' = Some info" unfolding objects_ok_def objects_of_def by blast
    ultimately have "ci_id info = ?n" "unat (ci_id info) < unat ?n" using ok unfolding objects_ok_def objects_of_def by blast+
    then show False by simp
  qed
  moreover from fresh have "map_of (cs_connections s) ?n = None" by (simp add: map_of_eq_None_iff)
  ultimately have eq: "accept_callback c s = s\<lparr>cs_accepted := c # cs_accepted s, cs_sockets := (cs_sockets s)(c \<mapsto> True),
        cs_next_id := cs_next_id s + 1, cs_registered := Suc (cs_registered s),
        cs_infos := (cs_infos s)(c \<mapsto> \<lparr>ci_id = cs_next_id s, ci_socket = c, ci_stopped = False\<rparr>),
        cs_workers := (cs_workers s)(c \<mapsto> LoopTest), cs_connections := cs_connections s @ [(cs_next_id s, c)]\<rparr>"
    using False by (simp add: accept_callback_def Register_def Let_def update_fresh)
  then have "Suc (unat ?n) < 2 ^ 32" using few n by simp
  then have "unat (?n + 1) = Suc (unat ?n)" by (simp add: unat_word_ariths)
  with eq fresh False registered show ?thesis by simp
qed

lemma objects_accept:
  assumes ok: "objects_ok s" and few: "cs_registered (accept_callback c s) < 2 ^ 32 - 1" and new: "c \<notin> set (cs_accepted s)"
    and none: "removed_now (cs_main s) = {}"
  shows "objects_ok (accept_callback c s)"
  using assms(1,2,3)
proof (cases rule: accept_cases)
  case full
  with ok show ?thesis by (auto simp: objects_ok_def objects_of_def)
next
  case registered
  have fresh: "cs_infos s c = None" using ok new unfolding objects_ok_def objects_of_def by (cases "cs_infos s c") auto
  then have unlisted: "\<forall>n. (n, c) \<notin> set (cs_connections s)" using ok unfolding objects_ok_def objects_of_def by blast
  then have "table_of (cs_next_id s + 1) (Suc (cs_registered s)) (cs_connections s @ [(cs_next_id s, c)])"
    using ok registered by (auto simp: objects_ok_def table_of_def)
  moreover have "objects_of (cs_next_id s + 1) (cs_connections s @ [(cs_next_id s, c)]) {}
      ((cs_infos s)(c \<mapsto> \<lparr>ci_id = cs_next_id s, ci_socket = c, ci_stopped = False\<rparr>)) ((cs_sockets s)(c \<mapsto> True))
      (\<lambda>c'. c' \<in> set (c # cs_accepted s))"
    using ok registered(2,3) unfolding objects_ok_def none objects_of_def
  proof (intro conjI, goal_cases)
    case 4
    then show ?case by (auto intro: less_SucI)
  next
    case 5
    then have "cs_infos s c' = Some info \<Longrightarrow> ci_id info \<noteq> cs_next_id s" for c' info by fastforce
    moreover have "(cs_next_id s, c') \<notin> set (cs_connections s)" for c' using 5(2) by force
    ultimately show ?case using 5(1) unlisted by auto
  qed auto
  ultimately show ?thesis using ok none by (simp add: registered(4) objects_ok_def threads_of_def)
qed

text \<open>What the sections of a live thread and of a removal come to when the objects are there.\<close>

lemma worker_sections:
  assumes "objects_ok s" "cs_workers s c = Some pc" "pc \<noteq> ThreadEnded"
  obtains info is_open where "cs_infos s c = Some info" "cs_sockets s c = Some is_open"
    "worker_test c s = set_thread c (if \<not> ci_stopped info \<and> is_open then AtReceive else AtCleanup) s"
    "worker_receive c s = set_thread c (if is_open then InRecv else AtCleanup) s"
    "worker_dispatched c s = set_thread c LoopTest s"
    "\<And>t. worker_close c t s = (if is_open then set_thread c (InClose t) (fd_closed c s) else stop_if t (set_thread c LoopTest s))"
    "\<And>t. worker_closed c t s = stop_if t (set_thread c LoopTest (fd_reset c s))"
    "worker_report c s = (set_thread c ThreadEnded s)\<lparr>cs_cleanup := cs_cleanup s @ [ci_id info]\<rparr>"
proof -
  obtain info is_open where o: "cs_infos s c = Some info" "ci_socket info = c" "cs_sockets s c = Some is_open"
    "\<And>f. with_socket c f s = f info is_open" using with_socket_objects [OF assms] by blast
  show ?thesis
    by (rule that [OF o(1,3)]) (simp_all add: worker_test_def worker_receive_def worker_dispatched_def worker_close_def worker_closed_def
        worker_report_def o)
qed

lemma removed_object:
  assumes "objects_ok s" "removed_now (cs_main s) = {c}"
  obtains info is_open where "cs_infos s c = Some info" "cs_sockets s c = Some is_open"
proof -
  from assms have "cs_infos s c \<noteq> None \<and> cs_sockets s c \<noteq> None" by (simp add: objects_ok_def objects_of_def del: not_None_eq)
  with that show ?thesis by blast
qed

lemma objects_stop:
  assumes "objects_ok s" "cs_main s = Stopping c k"
  shows "objects_ok (remove_stop c k s)"
proof -
  from removed_object [OF assms(1), of c] assms(2) obtain info b where "cs_infos s c = Some info" "cs_sockets s c = Some b" by auto
  with assms show ?thesis by (auto simp: objects_ok_def remove_stop_def objects_of_def threads_of_def)
qed

lemma objects_step:
  assumes "conn_step s s'" "objects_ok s" "cs_registered s' < 2 ^ 32 - 1"
  shows "objects_ok s'"
  using assms
proof (induction rule: conn_step.induct)
  case (accept s c)
  then show ?case by (intro objects_accept) simp_all
next
  case (clean s n ns)
  then show ?case by (intro objects_remove) simp_all
next
  case (shut s n ns)
  then show ?case by (intro objects_remove) simp_all
next
  case (remove_stop s c k)
  then show ?case by (intro objects_stop)
next
  case (remove_close s c k)
  then obtain b where "cs_sockets s c = Some b" using removed_object [of s c] by auto
  with remove_close show ?case by (auto simp: remove_close_def intro!: objects_main)
next
  case (remove_closed s c k)
  then obtain b where "cs_sockets s c = Some b" using removed_object [of s c] by auto
  with remove_closed show ?case
    unfolding remove_closed_def by (intro objects_main objects_reset) (auto simp: fd_reset_def)
next
  case (join s c k)
  then show ?case by (intro objects_end)
next
  case (leave s ns)
  then show ?case by (intro objects_main) auto
next
  case (test s c)
  from test(2,1) show ?case by (rule worker_sections) (simp_all add: objects_live_thread [OF test(2,1)])
next
  case (receive s c)
  from receive(2,1) show ?case by (rule worker_sections) (simp_all add: objects_live_thread [OF receive(2,1)])
next
  case (dispatched s c)
  from dispatched(2,1) show ?case by (rule worker_sections) (simp_all add: objects_live_thread [OF dispatched(2,1)])
next
  case (close s c terminate)
  have "objects_ok (fd_closed c s)" "cs_workers (fd_closed c s) c = Some InDispatch" using close by simp_all
  note live = objects_live_thread [OF this] objects_live_thread [OF close(2,1)]
  from close(2,1) show ?case by (rule worker_sections) (simp_all add: live)
next
  case (closed s c terminate)
  from closed(2,1) obtain b where b: "cs_sockets s c = Some b" by (rule worker_sections) simp_all
  have "cs_workers (fd_reset c s) c = Some (InClose terminate)" using closed(1) b by (simp add: fd_reset_def)
  note live = objects_live_thread [OF objects_reset [OF closed(2) b] this]
  from closed(2,1) show ?case by (rule worker_sections) (simp_all add: live)
next
  case (report s c)
  from report(3,1) show ?case by (rule worker_sections) (simp_all add: objects_live_thread [OF report(3,1)])
qed (auto intro: objects_main)

lemma objects_peer: "peer_step s s' \<Longrightarrow> objects_ok s \<Longrightarrow> objects_ok s'"
  by (induction rule: peer_step.induct) (auto intro: objects_live_thread)

lemma Remove_split:
  assumes "objects_ok s"
  obtains (gone) "Remove n k s = s\<lparr>cs_main := resume k\<rparr>" "\<And>c. (n, c) \<notin> set (cs_connections s)"
    | (found) c l where "(n, c) \<in> set (cs_connections s)" "Remove n k s = s\<lparr>cs_connections := l, cs_main := Stopping c k\<rparr>"
      "set l = {(n', c') \<in> set (cs_connections s). n' \<noteq> n}"
proof (cases "map_of (cs_connections s) n")
  case None
  then have "n \<notin> fst ` set (cs_connections s)" by (simp add: map_of_eq_None_iff)
  then have "(n, c) \<notin> set (cs_connections s)" for c by force
  with None show ?thesis by (intro gone) (simp_all add: Remove_def)
next
  case (Some c)
  with found [of c "AList.delete n (cs_connections s)"] show ?thesis by (auto simp: Remove_def AList.delete_eq dest: map_of_SomeD)
qed

lemma fd_reset_objects: "cs_sockets s c = Some b \<Longrightarrow> fd_reset c s = s\<lparr>cs_sockets := (cs_sockets s)(c \<mapsto> False)\<rparr>"
  by (simp add: fd_reset_def)

text \<open>The effects that the steps have on a state with all its objects, one case for each kind.\<close>

lemma conn_effects:
  assumes "conn_step s s'" "objects_ok s" "cs_registered s' < 2 ^ 32 - 1"
  obtains (running) "s' = s\<lparr>cs_running := False\<rparr>"
    | (loop) pc where "cs_main s \<in> {AtLoop, Polling, Cleaning}" "pc \<in> {AtLoop, Polling, Cleaning}" "s' = s\<lparr>cs_main := pc\<rparr>"
    | (full) c where "cs_main s = Polling" "c \<notin> set (cs_accepted s)"
        "s' = s\<lparr>cs_accepted := c # cs_accepted s, cs_closed := c # cs_closed s\<rparr>"
    | (registered) c where "cs_main s = Polling" "c \<notin> set (cs_accepted s)" "unat (cs_next_id s + 1) = Suc (unat (cs_next_id s))"
        "s' = s\<lparr>cs_accepted := c # cs_accepted s, cs_sockets := (cs_sockets s)(c \<mapsto> True),
          cs_next_id := cs_next_id s + 1, cs_registered := Suc (cs_registered s),
          cs_infos := (cs_infos s)(c \<mapsto> \<lparr>ci_id = cs_next_id s, ci_socket = c, ci_stopped = False\<rparr>),
          cs_workers := (cs_workers s)(c \<mapsto> LoopTest), cs_connections := cs_connections s @ [(cs_next_id s, c)]\<rparr>"
    | (leave) ns where "cs_main s \<in> {AtLoop, Polling}" "set ns = fst ` set (cs_connections s)" "s' = s\<lparr>cs_main := Shutting ns\<rparr>"
    | (ended) "cs_main s = Shutting []" "s' = s\<lparr>cs_main := MainEnded\<rparr>"
    | (clean_gone) n ns where "cs_main s = Cleaning" "cs_cleanup s = n # ns" "\<And>c. (n, c) \<notin> set (cs_connections s)" "s' = s\<lparr>cs_cleanup := ns\<rparr>"
    | (clean) n ns c l where "cs_main s = Cleaning" "cs_cleanup s = n # ns" "(n, c) \<in> set (cs_connections s)"
        "set l = {(n', c') \<in> set (cs_connections s). n' \<noteq> n}"
        "s' = s\<lparr>cs_cleanup := ns, cs_connections := l, cs_main := Stopping c FromCleanup\<rparr>"
    | (shut_gone) n ns where "cs_main s = Shutting (n # ns)" "\<And>c. (n, c) \<notin> set (cs_connections s)" "s' = s\<lparr>cs_main := Shutting ns\<rparr>"
    | (shut) n ns c l where "cs_main s = Shutting (n # ns)" "(n, c) \<in> set (cs_connections s)"
        "set l = {(n', c') \<in> set (cs_connections s). n' \<noteq> n}" "s' = s\<lparr>cs_connections := l, cs_main := Stopping c (FromShutdown ns)\<rparr>"
    | (stopping) c k info where "cs_main s = Stopping c k" "cs_infos s c = Some info"
        "s' = s\<lparr>cs_infos := (cs_infos s)(c \<mapsto> info\<lparr>ci_stopped := True\<rparr>), cs_main := Closing c k\<rparr>"
    | (not_open) c k where "cs_main s = Closing c k" "cs_sockets s c = Some False" "s' = s\<lparr>cs_main := Joining c k\<rparr>"
    | (closing) c k where "cs_main s = Closing c k" "cs_sockets s c = Some True" "s' = (fd_closed c s)\<lparr>cs_main := Closed c k\<rparr>"
    | (closed) c k b where "cs_main s = Closed c k" "cs_sockets s c = Some b"
        "s' = s\<lparr>cs_sockets := (cs_sockets s)(c \<mapsto> False), cs_main := Joining c k\<rparr>"
    | (joined) c k b where "cs_main s = Joining c k" "cs_workers s c = Some ThreadEnded" "cs_sockets s c = Some b"
        "s' = (if b then fd_closed c s else s)\<lparr>cs_sockets := (cs_sockets s)(c := None), cs_infos := (cs_infos s)(c := None), cs_main := resume k\<rparr>"
    | (thread) c pc pc' t info where "cs_workers s c = Some pc" "cs_infos s c = Some info"
        "pc = LoopTest \<and> (pc' = AtReceive \<and> \<not> ci_stopped info \<or> pc' = AtCleanup) \<or> pc = AtReceive \<and> pc' \<in> {InRecv, AtCleanup} \<or>
          pc = InDispatch \<and> pc' = LoopTest" "s' = stop_if t (set_thread c pc' s)"
    | (thread_close) c t where "cs_workers s c = Some InDispatch" "cs_sockets s c = Some True" "s' = set_thread c (InClose t) (fd_closed c s)"
    | (thread_closed) c t b where "cs_workers s c = Some (InClose t)" "cs_sockets s c = Some b"
        "s' = stop_if t (set_thread c LoopTest (s\<lparr>cs_sockets := (cs_sockets s)(c \<mapsto> False)\<rparr>))"
    | (report) c info where "cs_workers s c = Some AtCleanup" "cs_infos s c = Some info"
        "s' = (set_thread c ThreadEnded s)\<lparr>cs_cleanup := cs_cleanup s @ [ci_id info]\<rparr>"
  using assms
proof (cases rule: conn_step.cases)
  case stop
  then show ?thesis by (rule running)
next
  case loop
  then show ?thesis by (intro that(2)) auto
next
  case (accept c)
  show ?thesis
  proof (rule accept_cases [OF assms(2) assms(3) [unfolded accept(1)] accept(3)])
    assume "MAX_CONNECTIONS \<le> length (cs_connections s)"
      "accept_callback c s = s\<lparr>cs_accepted := c # cs_accepted s, cs_closed := c # cs_closed s\<rparr>"
    with accept show ?thesis by (intro full) auto
  qed (rule registered, use accept in auto)
next
  case polled
  then show ?thesis by (intro that(2)) auto
next
  case (clean n ns)
  have "objects_ok (s\<lparr>cs_cleanup := ns\<rparr>)" using assms(2) by simp
  then show ?thesis
  proof (cases rule: Remove_split [where n = n and k = FromCleanup])
    case gone
    with clean show ?thesis by (intro clean_gone) auto
  next
    case (found c l)
    with clean show ?thesis by (intro that(8)) auto
  qed
next
  case cleaned
  then show ?thesis by (intro that(2)) auto
next
  case (remove_stop c k)
  from removed_object [OF assms(2), of c] remove_stop obtain info b where "cs_infos s c = Some info" by auto
  with remove_stop show ?thesis by (intro stopping) (auto simp: remove_stop_def)
next
  case (remove_close c k)
  from removed_object [OF assms(2), of c] remove_close obtain info b where "cs_sockets s c = Some b" by auto
  with remove_close show ?thesis by (cases b) (auto simp: remove_close_def intro: not_open closing)
next
  case (remove_closed c k)
  from removed_object [OF assms(2), of c] remove_closed obtain info b where "cs_sockets s c = Some b" by auto
  with remove_closed show ?thesis by (intro that(14)) (auto simp: remove_closed_def fd_reset_def)
next
  case (join c k)
  from removed_object [OF assms(2), of c] join obtain info b where "cs_sockets s c = Some b" by auto
  with join show ?thesis by (intro joined) (auto simp: remove_end_def delete_socket_def Let_def)
next
  case (leave ns)
  moreover from mset_eq_setD [OF leave(3)] have "set ns = fst ` set (cs_connections s)" by simp
  ultimately show ?thesis by (intro that(5)) auto
next
  case (shut n ns)
  from assms(2) show ?thesis
  proof (cases rule: Remove_split [where n = n and k = "FromShutdown ns"])
    case gone
    with shut show ?thesis by (intro shut_gone) auto
  next
    case (found c l)
    with shut show ?thesis by (intro that(10)) auto
  qed
next
  case shut_down
  then show ?thesis by (intro ended)
next
  case (test c)
  from assms(2) test(2) show ?thesis
    by (rule worker_sections) (simp, rule that(16) [where t = False], auto simp: test(1) stop_if_def test(2))
next
  case (receive c)
  from assms(2) receive(2) show ?thesis
    by (rule worker_sections) (simp, rule that(16) [where t = False], auto simp: receive(1) stop_if_def receive(2))
next
  case (dispatched c)
  from assms(2) dispatched(2) show ?thesis
    by (rule worker_sections) (simp, rule that(16) [where t = False], auto simp: dispatched(1) stop_if_def dispatched(2))
next
  case (close c t)
  from assms(2) close(2) obtain info b where o: "cs_infos s c = Some info" "cs_sockets s c = Some b"
    "worker_close c t s = (if b then set_thread c (InClose t) (fd_closed c s) else stop_if t (set_thread c LoopTest s))"
    by (rule worker_sections, simp, blast)
  with close show ?thesis by (cases b) (auto intro: thread_close thread)
next
  case (closed c t)
  from assms(2) closed(2) show ?thesis
    by (rule worker_sections) (simp, rule that(18), auto simp: closed(1) closed(2) fd_reset_def)
next
  case (report c)
  from assms(2) report(2) obtain info where "cs_infos s c = Some info"
    "worker_report c s = (set_thread c ThreadEnded s)\<lparr>cs_cleanup := cs_cleanup s @ [ci_id info]\<rparr>" by (rule worker_sections, simp, blast)
  with report show ?thesis by (intro that(19)) simp_all
qed

section \<open>Threads that have ended\<close>

text \<open>
  The cleanup queue holds the registered connections whose threads have ended, and the main thread waits in the cleanup only for a
  thread that has.
\<close>

definition cleanup_ok :: "ConnServer \<Rightarrow> bool" where
  "cleanup_ok s \<longleftrightarrow> (\<forall>n \<in> set (cs_cleanup s). unat n < unat (cs_next_id s)) \<and>
     (\<forall>n c. (n, c) \<in> set (cs_connections s) \<longrightarrow> (n \<in> set (cs_cleanup s) \<longleftrightarrow> cs_workers s c = Some ThreadEnded)) \<and>
     (\<forall>c. removing (cs_main s) = Some (c, FromCleanup) \<longrightarrow> cs_workers s c = Some ThreadEnded)"

lemma cleanup_thread:
  assumes "cleanup_ok s" "cs_workers s c = Some pc" "pc \<noteq> ThreadEnded" "pc' \<noteq> ThreadEnded"
  shows "cleanup_ok (set_thread c pc' s)"
  using assms unfolding cleanup_ok_def set_thread_def by auto

lemma cleanup_frame [simp]:
  "cleanup_ok (s\<lparr>cs_running := r\<rparr>) = cleanup_ok s" "cleanup_ok (fd_closed c s) = cleanup_ok s" "cleanup_ok (stop_if t s) = cleanup_ok s"
  "cleanup_ok (s\<lparr>cs_sockets := ss\<rparr>) = cleanup_ok s" "cleanup_ok (s\<lparr>cs_infos := is\<rparr>) = cleanup_ok s" "cleanup_ok (s\<lparr>cs_traps := ts\<rparr>) = cleanup_ok s"
  by (simp_all add: cleanup_ok_def stop_if_def)

lemma cleanup_main:
  "cleanup_ok s \<Longrightarrow> removing pc = removing (cs_main s) \<or> removing pc = None \<Longrightarrow> cleanup_ok (s\<lparr>cs_main := pc\<rparr>)"
  by (auto simp: cleanup_ok_def)

lemma cleanup_report:
  assumes ok: "objects_ok s" and clean: "cleanup_ok s" and c: "cs_workers s c = Some AtCleanup" and info: "cs_infos s c = Some info"
  shows "cleanup_ok ((set_thread c ThreadEnded s)\<lparr>cs_cleanup := cs_cleanup s @ [ci_id info]\<rparr>)"
proof -
  have own: "unat (ci_id info) < unat (cs_next_id s)" "(n, c') \<in> set (cs_connections s) \<Longrightarrow> ci_id info = n \<longleftrightarrow> c = c'" for n c'
    using ok info unfolding objects_ok_def objects_of_def by blast+
  then show ?thesis using clean unfolding cleanup_ok_def set_thread_def by auto
qed

lemma unlisted: "objects_ok s \<Longrightarrow> cs_infos s c = None \<Longrightarrow> (n, c) \<notin> set (cs_connections s)"
  unfolding objects_ok_def objects_of_def by blast

lemma new_connection:
  assumes "objects_ok s" "c \<notin> set (cs_accepted s)"
  shows "cs_infos s c = None" "cs_sockets s c = None" "(n, c) \<notin> set (cs_connections s)"
proof -
  show info: "cs_infos s c = None" using assms unfolding objects_ok_def objects_of_def by (cases "cs_infos s c") auto
  then show "cs_sockets s c = None" using assms(1) by (simp add: objects_ok_def objects_of_def)
  from unlisted [OF assms(1) info] show "(n, c) \<notin> set (cs_connections s)" .
qed

lemma cleanup_step:
  assumes "conn_step s s'" "objects_ok s" "cs_registered s' < 2 ^ 32 - 1" and ok: "cleanup_ok s"
  shows "cleanup_ok s'"
  using assms(1-3)
proof (cases rule: conn_effects)
  case (registered c)
  then have "cs_next_id s \<notin> set (cs_cleanup s)" using ok by (auto simp: cleanup_ok_def)
  with registered ok new_connection [OF assms(2) registered(2)] show ?thesis by (auto simp: cleanup_ok_def intro: less_SucI)
next
  case (clean_gone n ns)
  then have "n' \<noteq> n" if "(n', c) \<in> set (cs_connections s)" for n' c using that by auto
  with clean_gone(1,2,4) ok show ?thesis by (auto simp: cleanup_ok_def)
next
  case (clean n ns c l)
  then have "cs_workers s c = Some ThreadEnded" using ok unfolding cleanup_ok_def by auto
  with clean ok show ?thesis by (auto simp: cleanup_ok_def)
next
  case (thread c pc pc' t info)
  then show ?thesis using cleanup_thread [OF ok thread(1), of pc'] by auto
next
  case (thread_close c t)
  then show ?thesis using ok by (auto intro!: cleanup_thread [where pc = InDispatch])
next
  case (thread_closed c t b)
  then show ?thesis using ok by (auto intro!: cleanup_thread [where pc = "InClose t"])
next
  case (report c info)
  then show ?thesis using cleanup_report [OF assms(2) ok] by simp
qed (use ok in \<open>auto simp: cleanup_ok_def\<close>)

lemma cleanup_peer: "peer_step s s' \<Longrightarrow> cleanup_ok s \<Longrightarrow> cleanup_ok s'"
  by (induction rule: peer_step.induct) (auto intro: cleanup_thread)

section \<open>Closing\<close>

fun shutting :: "MainThread \<Rightarrow> bool" where
  "shutting (Shutting ns) \<longleftrightarrow> True"
| "shutting MainEnded \<longleftrightarrow> True"
| "shutting (Stopping c k) \<longleftrightarrow> k \<noteq> FromCleanup"
| "shutting (Closing c k) \<longleftrightarrow> k \<noteq> FromCleanup"
| "shutting (Closed c k) \<longleftrightarrow> k \<noteq> FromCleanup"
| "shutting (Joining c k) \<longleftrightarrow> k \<noteq> FromCleanup"
| "shutting _ \<longleftrightarrow> False"

lemma shutting_resume [simp]: "shutting (resume k) \<longleftrightarrow> k \<noteq> FromCleanup"
  by (cases k) simp_all

definition closing_now :: "ConnServer \<Rightarrow> nat \<Rightarrow> bool" where
  "closing_now s c \<longleftrightarrow> (\<exists>t. cs_workers s c = Some (InClose t)) \<or> (\<exists>k. cs_main s = Closed c k)"

text \<open>
  A connection that is not open has been closed. Before the server shuts down, none has been closed twice: only the thread that is in
  \<open>Close\<close> has closed a connection that still counts as open.
\<close>

definition closed_ok :: "ConnServer \<Rightarrow> bool" where
  "closed_ok s \<longleftrightarrow> (\<forall>c \<in> set (cs_accepted s). cs_sockets s c \<noteq> Some True \<longrightarrow> c \<in> set (cs_closed s)) \<and>
     set (cs_closed s) \<subseteq> set (cs_accepted s) \<and> (\<forall>c. closing_now s c \<longrightarrow> c \<in> set (cs_closed s))"

definition once_ok :: "ConnServer \<Rightarrow> bool" where
  "once_ok s \<longleftrightarrow> (\<not> shutting (cs_main s) \<longrightarrow>
     distinct (cs_closed s) \<and> (\<forall>c \<in> set (cs_closed s). cs_sockets s c = Some True \<longrightarrow> closing_now s c))"

definition stopped_ok :: "ConnServer \<Rightarrow> bool" where
  "stopped_ok s \<longleftrightarrow> (\<forall>c k. cs_main s \<in> {Closing c k, Closed c k, Joining c k} \<longrightarrow> (\<exists>info. cs_infos s c = Some info \<and> ci_stopped info))"

text \<open>\<open>ShutdownAll\<close> removes every connection.\<close>

fun pending :: "MainThread \<Rightarrow> u32 list option" where
  "pending (Shutting ns) = Some ns"
| "pending MainEnded = Some []"
| "pending pc = (case removing pc of Some (c, FromShutdown ns) \<Rightarrow> Some ns | _ \<Rightarrow> None)"

lemma pending_resume [simp]: "pending (resume k) = (case k of FromCleanup \<Rightarrow> None | FromShutdown ns \<Rightarrow> Some ns)"
  by (cases k) simp_all

definition pending_ok :: "ConnServer \<Rightarrow> bool" where
  "pending_ok s \<longleftrightarrow> (\<forall>ns. pending (cs_main s) = Some ns \<longrightarrow> fst ` set (cs_connections s) \<subseteq> set ns)"

lemma accepted_live: "objects_ok s \<Longrightarrow> cs_sockets s c = Some b \<Longrightarrow> c \<in> set (cs_accepted s)"
  using new_connection(2) by fastforce


lemma pending_step:
  assumes "conn_step s s'" "objects_ok s" "cs_registered s' < 2 ^ 32 - 1" and ok: "pending_ok s"
  shows "pending_ok s'"
  using assms(1-3)
proof (cases rule: conn_effects)
  case (shut_gone n ns)
  then have "n' \<noteq> n" if "(n', c) \<in> set (cs_connections s)" for n' c using that by auto
  with shut_gone(1,3) ok show ?thesis by (force simp: pending_ok_def)
next
  case (shut n ns c l)
  with ok show ?thesis by (force simp: pending_ok_def)
next
  case (joined c k b)
  with ok show ?thesis by (auto simp: pending_ok_def split: RemoveCaller.splits)
qed (use ok in \<open>auto simp: pending_ok_def set_thread_def stop_if_def\<close>)

lemma stopped_step:
  assumes "conn_step s s'" "objects_ok s" "cs_registered s' < 2 ^ 32 - 1" and ok: "stopped_ok s"
  shows "stopped_ok s'"
  using assms(1-3)
proof (cases rule: conn_effects)
  case (joined c k b)
  then show ?thesis by (cases k) (simp_all add: stopped_ok_def)
qed (use ok in \<open>auto simp: stopped_ok_def set_thread_def stop_if_def\<close>)

lemma closed_step:
  assumes "conn_step s s'" "objects_ok s" "cs_registered s' < 2 ^ 32 - 1" and ok: "closed_ok s"
  shows "closed_ok s'"
  using assms(1-3)
proof (cases rule: conn_effects)
  case (closing c k)
  with ok accepted_live [OF assms(2)] show ?thesis by (auto simp: closed_ok_def closing_now_def)
next
  case (thread_close c t)
  with ok accepted_live [OF assms(2)] show ?thesis by (auto simp: closed_ok_def closing_now_def set_thread_def)
next
  case (joined c k b)
  with ok accepted_live [OF assms(2)] show ?thesis by (cases k) (auto simp: closed_ok_def closing_now_def)
qed (use ok in \<open>auto simp: closed_ok_def closing_now_def set_thread_def stop_if_def\<close>)

lemma once_step:
  assumes "conn_step s s'" "objects_ok s" "cs_registered s' < 2 ^ 32 - 1" "cleanup_ok s" "closed_ok s" and ok: "once_ok s"
  shows "once_ok s'"
proof -
  have sub: "set (cs_closed s) \<subseteq> set (cs_accepted s)" using assms(5) by (simp add: closed_ok_def)
  have ended: "cs_workers s c = Some ThreadEnded" if "removing (cs_main s) = Some (c, k)" "\<not> shutting (cs_main s)" for c k
    using assms(4) that by (cases "cs_main s") (auto simp: cleanup_ok_def)
  from assms(1-3) show ?thesis
  proof (cases rule: conn_effects)
    case (full c)
    with ok sub new_connection(2) [OF assms(2) full(2)] show ?thesis by (auto simp: once_ok_def closing_now_def)
  next
    case (registered c)
    with ok sub new_connection(2) [OF assms(2) registered(2)] show ?thesis by (auto simp: once_ok_def closing_now_def)
  next
    case (closing c k)
    with ok ended [of c k] show ?thesis by (auto simp: once_ok_def closing_now_def)
  next
    case (joined c k b)
    with ok show ?thesis by (auto simp: once_ok_def closing_now_def)
  next
    case (thread_close c t)
    with ok ended [of c] show ?thesis by (auto simp: once_ok_def closing_now_def set_thread_def)
  qed (use ok in \<open>auto simp: once_ok_def closing_now_def set_thread_def stop_if_def\<close>)
qed

section \<open>What holds in every reachable state\<close>

definition conn_inv :: "ConnServer \<Rightarrow> bool" where
  "conn_inv s \<longleftrightarrow> objects_ok s \<and> cleanup_ok s \<and> pending_ok s \<and> stopped_ok s \<and> closed_ok s \<and> once_ok s"

lemma conn_inv_peer: "peer_step s s' \<Longrightarrow> conn_inv s \<Longrightarrow> conn_inv s'"
proof (unfold conn_inv_def, elim conjE, intro conjI)
  assume "peer_step s s'" "pending_ok s" "stopped_ok s" "closed_ok s" "once_ok s"
  then show "pending_ok s'" "stopped_ok s'" "closed_ok s'" "once_ok s'"
    by (induction rule: peer_step.induct)
      (auto simp: pending_ok_def stopped_ok_def closed_ok_def once_ok_def closing_now_def set_thread_def)
qed (auto intro: objects_peer cleanup_peer)

lemma registered_step:
  "conn_step s s' \<Longrightarrow> cs_registered s \<le> cs_registered s' \<and> (cs_main s \<noteq> Polling \<longrightarrow> cs_registered s' = cs_registered s)"
  by (induction rule: conn_step.induct)
    (auto simp: accept_callback_def Register_def Let_def delete_socket_def conn_trap_def Remove_def remove_stop_def remove_close_def
      remove_closed_def remove_end_def fd_reset_def with_socket_def set_thread_def worker_test_def worker_receive_def worker_dispatched_def
      worker_close_def worker_closed_def worker_report_def stop_if_def split: option.splits)

lemma registered_peer: "peer_step s s' \<Longrightarrow> cs_registered s' = cs_registered s"
  by (induction rule: peer_step.induct) (auto simp: set_thread_def)

lemma conn_inv_init: "conn_inv conn_init"
  by (simp add: conn_inv_def conn_init_def objects_ok_def table_of_def objects_of_def threads_of_def cleanup_ok_def pending_ok_def
      stopped_ok_def closed_ok_def once_ok_def closing_now_def)

lemma conn_reachable_inv: "conn_reachable s \<Longrightarrow> cs_registered s < 2 ^ 32 - 1 \<Longrightarrow> conn_inv s"
proof (induction rule: conn_reachable.induct)
  case (own s s')
  from registered_step [OF own(2)] own(4) have "cs_registered s < 2 ^ 32 - 1" by simp
  with own have "conn_inv s" by blast
  with own(2,4) show ?case
    unfolding conn_inv_def by (blast intro: objects_step cleanup_step pending_step stopped_step closed_step once_step)
next
  case (peer s s')
  with registered_peer [OF peer(2)] show ?case by (auto intro: conn_inv_peer)
qed (rule conn_inv_init)

text \<open>
  C23. The connections of the server are safe under every interleaving of its threads and its clients, as long as fewer than \<open>2 ^ 32 - 1\<close> have been
  registered. At most 32 are registered. No thread uses an object that has been destroyed: a thread that runs has its \<open>ConnectionInfo\<close> and its socket.
  In the cleanup, which holds the mutex that ending threads need, the main thread waits only for a thread that has ended. A connection
  that is not open has been closed, and none has been closed twice before the server shuts down.
\<close>

theorem connections_safe:
  assumes "conn_reachable s" "cs_registered s < 2 ^ 32 - 1"
  shows "cs_traps s = {} \<and> length (cs_connections s) \<le> 32 \<and>
    (\<forall>c pc. cs_workers s c = Some pc \<and> pc \<noteq> ThreadEnded \<longrightarrow> cs_infos s c \<noteq> None \<and> cs_sockets s c \<noteq> None) \<and>
    (\<forall>c. cs_main s = Joining c FromCleanup \<longrightarrow> cs_workers s c = Some ThreadEnded) \<and>
    (\<forall>c \<in> set (cs_accepted s). cs_sockets s c \<noteq> Some True \<longrightarrow> c \<in> set (cs_closed s)) \<and>
    (\<not> shutting (cs_main s) \<longrightarrow> distinct (cs_closed s))"
proof -
  have inv: "conn_inv s" using assms by (rule conn_reachable_inv)
  then have ok: "objects_ok s" by (simp add: conn_inv_def)
  have "cs_infos s c \<noteq> None \<and> cs_sockets s c \<noteq> None" if "cs_workers s c = Some pc" "pc \<noteq> ThreadEnded" for c pc
    using with_socket_objects [OF ok that] by (metis option.distinct(1))
  with inv show ?thesis
    by (auto simp: conn_inv_def objects_ok_def table_of_def MAX_CONNECTIONS_def cleanup_ok_def closed_ok_def once_ok_def)
qed

text \<open>
  When the server has shut down, no object and no thread of a connection is left, and every connection that it accepted has been closed.
\<close>

theorem shutdown_complete:
  assumes "conn_reachable s" "cs_registered s < 2 ^ 32 - 1" "cs_main s = MainEnded"
  shows "cs_infos s = Map.empty \<and> cs_sockets s = Map.empty \<and> set (cs_closed s) = set (cs_accepted s) \<and>
    (\<forall>c. cs_workers s c \<in> {None, Some ThreadEnded})"
proof -
  have inv: "objects_ok s" "pending_ok s" "closed_ok s" using conn_reachable_inv [OF assms(1,2)] by (simp_all add: conn_inv_def)
  have "cs_connections s = []" using inv(2) assms(3) by (simp add: pending_ok_def)
  then have "cs_infos s c = None" for c
    using inv(1) assms(3) unfolding objects_ok_def objects_of_def by (cases "cs_infos s c") auto
  moreover from this have "cs_sockets s c = None" for c using inv(1) unfolding objects_ok_def objects_of_def by simp
  moreover from calculation(1) have "cs_workers s c \<in> {None, Some ThreadEnded}" for c
    using inv(1) unfolding objects_ok_def threads_of_def by simp
  ultimately show ?thesis using inv(3) by (auto simp: closed_ok_def)
qed

section \<open>Progress of the shutdown\<close>

fun thread_rank :: "ConnThread \<Rightarrow> nat" where
  "thread_rank AtReceive = 6"
| "thread_rank InRecv = 5"
| "thread_rank InDispatch = 4"
| "thread_rank (InClose t) = 3"
| "thread_rank LoopTest = 2"
| "thread_rank AtCleanup = 1"
| "thread_rank ThreadEnded = 0"

lemma thread_rank_le: "thread_rank pc \<le> 6"
  by (cases pc) simp_all

fun caller_work :: "RemoveCaller \<Rightarrow> nat" where
  "caller_work FromCleanup = 0"
| "caller_work (FromShutdown ns) = 11 * length ns"

definition thread_work :: "ConnServer \<Rightarrow> nat \<Rightarrow> nat" where
  "thread_work s c = (case cs_workers s c of None \<Rightarrow> 0 | Some pc \<Rightarrow> thread_rank pc)"

lemma thread_work_le: "thread_work s c \<le> 6"
  by (simp add: thread_work_def thread_rank_le split: option.split)

text \<open>What the main thread still has to do, and the thread that it waits for.\<close>

definition shutdown_work :: "ConnServer \<Rightarrow> nat" where
  "shutdown_work s = (case cs_main s of
     Shutting ns \<Rightarrow> 11 * length ns + 1
   | Stopping c k \<Rightarrow> caller_work k + 11
   | Closing c k \<Rightarrow> caller_work k + 10
   | Closed c k \<Rightarrow> caller_work k + 9
   | Joining c k \<Rightarrow> caller_work k + 2 + thread_work s c
   | _ \<Rightarrow> 0)"

lemma shutdown_work_step:
  assumes "conn_step s s'" "objects_ok s" "cs_registered s' < 2 ^ 32 - 1" "stopped_ok s" "shutting (cs_main s)"
  shows "shutting (cs_main s') \<and> shutdown_work s' \<le> shutdown_work s"
  using assms(1-3)
proof (cases rule: conn_effects)
  case (joined c k b)
  with assms(5) show ?thesis by (cases k) (auto simp: shutdown_work_def)
next
  case (thread c pc pc' t info)
  have "ci_stopped info" if "cs_main s = Joining c k" for k using assms(4) that thread(2) by (auto simp: stopped_ok_def)
  with thread assms(5) show ?thesis
    by (auto simp: shutdown_work_def thread_work_def set_thread_def stop_if_def split: MainThread.splits)
next
  case (closed c k b)
  with assms(5) thread_work_le [of "s\<lparr>cs_sockets := (cs_sockets s)(c \<mapsto> False), cs_main := Joining c k\<rparr>" c] show ?thesis
    by (auto simp: shutdown_work_def)
next
  case (not_open c k)
  with assms(5) thread_work_le [of "s\<lparr>cs_main := Joining c k\<rparr>" c] show ?thesis by (auto simp: shutdown_work_def)
qed (use assms(5) in \<open>auto simp: shutdown_work_def thread_work_def set_thread_def stop_if_def split: MainThread.splits\<close>)

lemma shutdown_work_peer:
  "peer_step s s' \<Longrightarrow> shutting (cs_main s) \<Longrightarrow> shutting (cs_main s') \<and> shutdown_work s' \<le> shutdown_work s"
  by (induction rule: peer_step.induct) (auto simp: shutdown_work_def thread_work_def set_thread_def split: MainThread.splits)

lemma removal_goes_on:
  assumes ok: "objects_ok s" and main: "cs_main s \<in> {Stopping c k, Closing c k, Closed c k}"
  shows "\<exists>s'. conn_step s s' \<and> shutdown_work s' < shutdown_work s"
proof -
  from main have "removed_now (cs_main s) = {c}" by auto
  with ok obtain info b where o: "cs_infos s c = Some info" "cs_sockets s c = Some b" by (rule removed_object)
  note le = thread_work_le [of "s\<lparr>cs_main := Joining c k\<rparr>" c]
    thread_work_le [of "s\<lparr>cs_sockets := (cs_sockets s)(c \<mapsto> False), cs_main := Joining c k\<rparr>" c]
  from main consider "cs_main s = Stopping c k" | "cs_main s = Closing c k" | "cs_main s = Closed c k" by blast
  then show ?thesis
  proof cases
    case 1
    with o show ?thesis
      by (intro exI [of _ "remove_stop c k s"] conjI conn_step.remove_stop) (simp_all add: remove_stop_def shutdown_work_def)
  next
    case 2
    with o le show ?thesis
      by (intro exI [of _ "remove_close c k s"] conjI conn_step.remove_close) (simp_all add: remove_close_def shutdown_work_def)
  next
    case 3
    with o le show ?thesis
      by (intro exI [of _ "remove_closed c k s"] conjI conn_step.remove_closed)
        (simp_all add: remove_closed_def fd_reset_def shutdown_work_def)
  qed
qed

lemma joined_thread_goes_on:
  assumes ok: "objects_ok s" "stopped_ok s" and main: "cs_main s = Joining c (FromShutdown ns)" and pc: "cs_workers s c \<noteq> Some InRecv"
  shows "\<exists>s'. conn_step s s' \<and> shutdown_work s' < shutdown_work s"
proof (cases "cs_workers s c = Some ThreadEnded")
  case True
  from removed_object [OF ok(1), of c] main obtain info b where "cs_sockets s c = Some b" by auto
  with True main show ?thesis
    by (intro exI [of _ "remove_end c (FromShutdown ns) s"] conjI conn_step.join)
      (simp_all add: remove_end_def delete_socket_def Let_def shutdown_work_def)
next
  case False
  from ok(2) main obtain info where info: "cs_infos s c = Some info" "ci_stopped info" by (auto simp: stopped_ok_def)
  have "cs_workers s c \<noteq> None" using ok(1) info(1) unfolding objects_ok_def threads_of_def by (simp del: not_None_eq)
  then obtain pc' where pc': "cs_workers s c = Some pc'" by blast
  with False have live: "pc' \<noteq> ThreadEnded" by simp
  show ?thesis
  proof (rule worker_sections [OF ok(1) pc' live])
    fix info' is_open
    assume w: "cs_infos s c = Some info'" "cs_sockets s c = Some is_open"
      "worker_test c s = set_thread c (if \<not> ci_stopped info' \<and> is_open then AtReceive else AtCleanup) s"
      "worker_receive c s = set_thread c (if is_open then InRecv else AtCleanup) s"
      "worker_dispatched c s = set_thread c LoopTest s"
      "\<And>t. worker_closed c t s = stop_if t (set_thread c LoopTest (fd_reset c s))"
      "worker_report c s = (set_thread c ThreadEnded s)\<lparr>cs_cleanup := cs_cleanup s @ [ci_id info']\<rparr>"
    note work = shutdown_work_def thread_work_def set_thread_def main pc'
    show ?thesis
    proof (cases pc')
      case LoopTest
      then show ?thesis using w info by (intro exI [of _ "worker_test c s"] conjI conn_step.test) (simp_all add: work)
    next
      case AtReceive
      then show ?thesis using w by (intro exI [of _ "worker_receive c s"] conjI conn_step.receive) (simp_all add: work)
    next
      case InDispatch
      then show ?thesis using w by (intro exI [of _ "worker_dispatched c s"] conjI conn_step.dispatched) (simp_all add: work)
    next
      case (InClose t)
      then show ?thesis using w
        by (intro exI [of _ "worker_closed c t s"] conjI conn_step.closed) (simp_all add: work fd_reset_def stop_if_def)
    next
      case AtCleanup
      then show ?thesis using w by (intro exI [of _ "worker_report c s"] conjI conn_step.report) (simp_all add: work)
    qed (use pc' pc live in auto)
  qed
qed

lemma shutdown_goes_on:
  assumes inv: "conn_inv s" and main: "shutting (cs_main s)" "cs_main s \<noteq> MainEnded"
    and free: "\<And>c k. cs_main s = Joining c k \<Longrightarrow> cs_workers s c \<noteq> Some InRecv"
  shows "\<exists>s'. conn_step s s' \<and> shutdown_work s' < shutdown_work s"
proof -
  have ok: "objects_ok s" "stopped_ok s" using inv by (simp_all add: conn_inv_def)
  show ?thesis
  proof (cases "cs_main s")
    case (Shutting ns)
    show ?thesis
    proof (cases ns)
      case Nil
      with Shutting show ?thesis
        by (intro exI [of _ "s\<lparr>cs_main := MainEnded\<rparr>"]) (auto intro: conn_step.shut_down simp: shutdown_work_def)
    next
      case (Cons n ms)
      with Shutting have "conn_step s (Remove n (FromShutdown ms) s)" by (auto intro: conn_step.shut)
      moreover from ok(1) have "shutdown_work (Remove n (FromShutdown ms) s) < shutdown_work s"
        by (cases rule: Remove_split [where n = n and k = "FromShutdown ms"]) (use Shutting Cons in \<open>auto simp: shutdown_work_def\<close>)
      ultimately show ?thesis by blast
    qed
  next
    case (Joining c k)
    with main obtain ns where "k = FromShutdown ns" by (cases k) auto
    with Joining ok free show ?thesis by (blast intro: joined_thread_goes_on)
  qed (use main removal_goes_on [OF ok(1)] in auto)
qed


section \<open>Examples\<close>

text \<open>A server with one connection, of number 0 under the number 1.\<close>

definition demo_conn :: "bool \<Rightarrow> MainThread \<Rightarrow> ConnThread \<Rightarrow> bool \<Rightarrow> bool \<Rightarrow> bool \<Rightarrow> nat list \<Rightarrow> ConnServer" where
  "demo_conn running pc worker is_open stopped listed closed = \<lparr>cs_running = running, cs_connections = (if listed then [(1, 0)] else []),
     cs_next_id = 2, cs_infos = [0 \<mapsto> \<lparr>ci_id = 1, ci_socket = 0, ci_stopped = stopped\<rparr>], cs_sockets = [0 \<mapsto> is_open],
     cs_workers = [0 \<mapsto> worker], cs_cleanup = [], cs_main = pc, cs_accepted = [0], cs_closed = closed, cs_registered = 1, cs_traps = {}\<rparr>"

lemma demo_accepted: "conn_reachable (demo_conn True Polling LoopTest True False True [])"
proof -
  have "conn_reachable (conn_init\<lparr>cs_main := Polling\<rparr>)"
    by (rule conn_reachable.own [OF conn_reachable.init conn_step.loop]) (simp_all add: conn_init_def)
  then have "conn_reachable (accept_callback 0 (conn_init\<lparr>cs_main := Polling\<rparr>))"
    by (rule conn_reachable.own) (rule conn_step.accept, simp_all add: conn_init_def)
  then show ?thesis by (simp add: accept_callback_def Register_def conn_init_def MAX_CONNECTIONS_def demo_conn_def)
qed

lemmas demo_simps = demo_conn_def worker_test_def worker_receive_def worker_close_def worker_report_def with_socket_def set_thread_def Remove_def
  remove_stop_def remove_close_def remove_closed_def remove_end_def delete_socket_def fd_closed_def fd_reset_def Let_def

lemma demo_step: "conn_reachable s \<Longrightarrow> conn_step s s' \<Longrightarrow> s' = s'' \<Longrightarrow> conn_reachable s''"
  by (auto intro: conn_reachable.own)

text \<open>The thread waits for its client when the server shuts down.\<close>

lemma demo_shutting: "conn_reachable (demo_conn False (Shutting [1]) InRecv True False True [])"
proof -
  have "conn_reachable (demo_conn True Polling AtReceive True False True [])"
    by (rule demo_step [OF demo_accepted conn_step.test [of _ 0]]) (simp_all add: demo_simps)
  then have "conn_reachable (demo_conn True Polling InRecv True False True [])"
    by (rule demo_step [OF _ conn_step.receive [of _ 0]]) (simp_all add: demo_simps)
  then have "conn_reachable (demo_conn False Polling InRecv True False True [])"
    by (rule demo_step [OF _ conn_step.stop]) (simp_all add: demo_simps)
  then show ?thesis by (rule demo_step [OF _ conn_step.leave [where ns = "[1]"]]) (simp_all add: demo_simps)
qed

lemma demo_closing: "conn_reachable (demo_conn False (Closing 0 (FromShutdown [])) InRecv True True False [])"
proof -
  have "conn_reachable (demo_conn False (Stopping 0 (FromShutdown [])) InRecv True False False [])"
    by (rule demo_step [OF demo_shutting conn_step.shut [of _ 1 "[]"]]) (simp_all add: demo_simps)
  then show ?thesis by (rule demo_step [OF _ conn_step.remove_stop [of _ 0 "FromShutdown []"]]) (simp_all add: demo_simps)
qed

lemma demo_joining: "conn_reachable (demo_conn False (Joining 0 (FromShutdown [])) InRecv False True False [0])"
proof -
  have "conn_reachable (demo_conn False (Closed 0 (FromShutdown [])) InRecv True True False [0])"
    by (rule demo_step [OF demo_closing conn_step.remove_close [of _ 0 "FromShutdown []"]]) (simp_all add: demo_simps)
  then show ?thesis by (rule demo_step [OF _ conn_step.remove_closed [of _ 0 "FromShutdown []"]]) (simp_all add: demo_simps)
qed

lemma demo_stuck:
  "conn_step (demo_conn False (Joining 0 (FromShutdown [])) InRecv False True False [0]) s' \<Longrightarrow>
     s' = demo_conn False (Joining 0 (FromShutdown [])) InRecv False True False [0]"
  by (cases rule: conn_step.cases) (auto simp: demo_conn_def split: if_splits)


text \<open>
  A descriptor can be closed twice: when a client ends its connection with a command while the server shuts down, its thread and the main thread
  are in \<open>Close\<close> at once, and both call \<open>::close\<close> with the same number before either sets \<open>connFd_\<close> to -1.
\<close>

theorem descriptor_closed_twice: "\<exists>s. conn_reachable s \<and> cs_closed s = [0, 0]"
proof -
  have "conn_reachable (demo_conn False (Closing 0 (FromShutdown [])) InDispatch True True False [])"
    using conn_reachable.peer [OF demo_closing peer_step.sends [of _ 0]] by (simp add: demo_simps)
  then have "conn_reachable (demo_conn False (Closing 0 (FromShutdown [])) (InClose False) True True False [0])"
    by (rule demo_step [OF _ conn_step.close [of _ 0 False]]) (simp_all add: demo_simps)
  then have "conn_reachable (demo_conn False (Closed 0 (FromShutdown [])) (InClose False) True True False [0, 0])"
    by (rule demo_step [OF _ conn_step.remove_close [of _ 0 "FromShutdown []"]]) (simp_all add: demo_simps)
  moreover have "cs_closed (demo_conn False (Closed 0 (FromShutdown [])) (InClose False) True True False [0, 0]) = [0, 0]"
    by (simp add: demo_conn_def)
  ultimately show ?thesis by blast
qed

theorem connections_safe_witness:
  "conn_reachable (demo_conn True Polling LoopTest True False True []) \<and>
   (let s = demo_conn True Polling LoopTest True False True [] in cs_traps s = {} \<and> cs_infos s 0 \<noteq> None \<and> cs_sockets s 0 \<noteq> None \<and>
      distinct (cs_closed s))"
  using demo_accepted connections_safe [OF demo_accepted] by (auto simp: demo_conn_def)

theorem shutdown_complete_witness:
  "\<exists>s. conn_reachable s \<and> cs_main s = MainEnded \<and> cs_accepted s = [0] \<and> cs_infos s = Map.empty \<and> cs_sockets s = Map.empty \<and>
     set (cs_closed s) = {0}"
proof -
  let ?final = "\<lambda>pc ns. (demo_conn False pc ThreadEnded False True False [0])\<lparr>cs_cleanup := ns, cs_infos := Map.empty, cs_sockets := Map.empty\<rparr>"
  have "conn_reachable (demo_conn False (Joining 0 (FromShutdown [])) AtCleanup False True False [0])"
    using conn_reachable.peer [OF demo_joining peer_step.gone [of _ 0]] by (simp add: demo_simps)
  then have "conn_reachable ((demo_conn False (Joining 0 (FromShutdown [])) ThreadEnded False True False [0])\<lparr>cs_cleanup := [1]\<rparr>)"
    by (rule demo_step [OF _ conn_step.report [of _ 0]]) (simp_all add: demo_simps)
  then have "conn_reachable (?final (Shutting []) [1])"
    by (rule demo_step [OF _ conn_step.join [of _ 0 "FromShutdown []"]]) (simp_all add: demo_simps)
  then have "conn_reachable (?final MainEnded [1])"
    by (rule demo_step [OF _ conn_step.shut_down]) (simp_all add: demo_simps)
  from this shutdown_complete [OF this] show ?thesis by (intro exI [of _ "?final MainEnded [1]"]) (simp add: demo_conn_def)
qed


text \<open>
  What the bound on the registrations stands for: the numbers are 32 bits wide, and the number 0, which comes after all others, is
  also the answer of \<open>Register\<close> for a connection that it has not taken, so the socket is destroyed while its thread runs.
\<close>

lemma number_zero_destroys:
  assumes "cs_next_id s = 0" "length (cs_connections s) < MAX_CONNECTIONS"
  shows "cs_workers (accept_callback c s) c = Some LoopTest \<and> cs_sockets (accept_callback c s) c = None"
  using assms by (auto simp: accept_callback_def Register_def Let_def delete_socket_def conn_trap_def)

end
