(* ===== verification/Spec2Isabelle.thy ===== *)
theory Spec2Isabelle
  imports ServerExamples ScriptCommands ModuleCache IpcQueue SocketIoTimeout ConnectionManager
begin

text \<open>
  AndroidMiniMem is a memory tool for Android in two programs. The \<^emph>\<open>server\<close> (\<open>engine/\<close>) runs on the device, listens on a
  socket and executes requests against a process: reads and writes of memory, modules, hardware breakpoints,
  UXN (execute-never page) breakpoints and symbols. The \<^emph>\<open>client\<close> (\<open>gui/\<close>) is a desktop program; its windows, its scripts
  and a local HTTP server for other programs (\<^emph>\<open>IPC\<close>) all go through one memory service, which talks to the
  server over three sockets. The protocol between the two has no frames: a request is an opcode and the bytes that
  the server happens to read for it. Most of what can go wrong lies there and in the questions who is attached
  to what, what may be repeated after a failure, and what is left behind by a connection that dies.

  \<^bold>\<open>Theories and sources.\<close> From the bottom up:

  \<^item> \<open>Prelude\<close>: types, strings of the C++ library, the predicates \<open>keeps\<close> and \<open>keeps_unless\<close> on state-monad computations
    with their rules (\<open>keeps_intros\<close>), word lemmas.
  \<^item> \<open>MemTypes\<close>, \<open>MemBackend\<close>: \<open>gui/mem/MemTypes.h\<close>, \<open>MemResult.h\<close>, \<open>IMemBackend.h\<close> and the checks of the context in
    \<open>MemService.cpp\<close>. The locale \<open>mem_backend\<close> is the contract between the service and a backend.
  \<^item> \<open>ModuleLookup\<close>, \<open>MemServiceMemory\<close>, \<open>MemServiceQuery\<close>, \<open>MemServiceBreakpoint\<close>, \<open>MemServiceUxn\<close>, \<open>MemServiceSymbol\<close>: the operations of
    \<open>gui/mem/MemService.cpp\<close>. \<open>MemServiceFrame\<close> extends the contract to the queries (locale \<open>mem_service\<close>).
  \<^item> \<open>DeviceSession\<close>, \<open>AppContext\<close>: \<open>gui/socket/DeviceSession.cpp\<close> and the target of \<open>gui/gui/AppContext.cpp\<close>, each also as a step
    relation of concurrent threads. \<open>ModuleCache\<close>: the cache of modules and symbols of \<open>AppContext.cpp\<close> over the service.
  \<^item> \<open>Protocol\<close>: opcodes, little-endian numbers, the reading plan of the server (\<open>requestSize\<close>, \<open>completeRequests\<close>).
  \<^item> \<open>SocketClient\<close>, \<open>SocketCommands\<close>, \<open>SocketContract\<close>: \<open>gui/socket/client.hpp\<close>, \<open>client_singleton.cpp\<close>, \<open>SocketCommand.h\<close> and the commands in
    \<open>gui/socket/*Commands.cpp\<close>, with what each command puts on the wire. \<open>SocketIoTimeout\<close>: \<open>socket_io_timeout.h\<close>.
  \<^item> \<open>SystemMemBackend\<close>: \<open>gui/mem/SystemMemService.cpp\<close>; it interprets \<open>mem_backend\<close> with the invariant \<open>stream_inv\<close> and
    the observation \<open>device_effects\<close>.
  \<^item> \<open>HttpRequest\<close>, \<open>IpcJson\<close>, \<open>IpcServer\<close>, \<open>IpcContract\<close>, \<open>IpcSystem\<close>, \<open>IpcQueue\<close>: \<open>gui/ipc/IpcHttpRequest.cpp\<close> and \<open>gui/ipc/IpcServer.cpp\<close>: the
    request head, parameters and texts, the 27 methods with the dispatcher, their contract over an arbitrary
    backend, its interpretation on the real one, and the threads of the server.
  \<^item> \<open>CEServer\<close>: the dispatcher of the device, \<open>engine/ceserver/CEServer.cpp\<close>, with the worker loop of
    \<open>engine/interface/socket/server.cpp\<close>. \<open>ConnectionManager\<close>: the connections of that file, with their threads.
  \<^item> \<open>CLibrary\<close>, \<open>AndroidOs\<close>, \<open>OrderedMap\<close>: what the server uses of the C and C++ libraries (\<open>fgets\<close>, \<open>sscanf\<close>, \<open>std::map\<close>), and its system
    calls as the record \<open>Os\<close> over a state of the kernel of any type.
  \<^item> \<open>NiDriver\<close>, \<open>KernelDriver\<close>: \<open>engine/android/NiDriver.cpp\<close> and \<open>AndroidKernelDriver.cpp\<close>, the requests to the kernel module.
  \<^item> \<open>LinuxProc\<close>: \<open>engine/common/LinuxProc.hpp\<close> and \<open>ProcessMap.hpp\<close>. \<open>MemoryOp\<close>, \<open>MemoryWrite\<close>: \<open>AndroidMemorySys.hpp\<close>,
    \<open>AndroidMemKernel.hpp\<close> and the virtual calls of \<open>IMemoryOp.hpp\<close>.
  \<^item> \<open>KernelHwBreakpoint\<close>, \<open>PerfHwBreakpoint\<close>, \<open>PerfRing\<close>: the two breakpoint engines in \<open>engine/android/\<close>. \<open>ElfScanner\<close>, \<open>ElfImage\<close>:
    \<open>AndroidElfScanner.hpp\<close> and the images that it reads.
  \<^item> \<open>ServerState\<close>, \<open>ServerApi\<close>, \<open>ServerBreakpoints\<close>: \<open>engine/ceserver/porthelp.cpp\<close> and \<open>api.cpp\<close>; \<open>server_api\<close> gives the dispatcher
    of \<open>CEServer\<close> its interface. \<open>ServerSafety\<close>, \<open>ServerMode\<close>, \<open>ServerMemory\<close>: invariants of the API over all sequences of calls, and
    the functions that read memory and symbols. \<open>ServerExamples\<close>: concrete systems on which the theorems are applied.
  \<^item> \<open>ClientServer\<close>, \<open>EndToEnd\<close>, \<open>DeviceEndToEnd\<close>: the client model with the server model behind its sockets, first over any API,
    then over the model of the API. \<open>ScriptCommands\<close>: the commands of the client for scripts and windows, alone and against that model.

  \<^bold>\<open>State.\<close> An operation is a state-monad computation. The state of the client is \<open>ClientWorld\<close>: session, selected
  process, open ports, the bytes accepted by the operating system on each port, and an environment for the
  operating system, whose calls (\<open>SocketOs\<close>) may accept and deliver any number of bytes and fail at any time. The service
  adds the hit counters, the IPC server its cached symbol table. The server's state is a connection with a device behind it;
  that of its API is \<open>Device\<close>: the handle table, a heap of the objects behind the handles, the access object with the driver, the
  two breakpoint engines, the symbol cache and the state of the kernel. What C++ leaves undefined (a bad pointer, an overflow) and a call that
  does not return are recorded as values of \<open>Trap\<close> in the state.

  \<^bold>\<open>What is shown.\<close> For the service: what a success of each operation means, exactly which module a name resolves to,
  that pages and symbol tables are complete, that the greedy matching of a batch finds an assignment whenever
  one exists, that no hit is lost. For the composition with the sockets, over every behaviour of the network: a
  success has delivered exactly one request; an error that may be retried has delivered no change; the streams
  stay sequences of whole requests. For sessions and targets, under every interleaving: a lease pins its connection,
  the lock-free check of the target is exact. For the IPC server: a grammar of accepted heads, independence of
  fragmentation, the shape of answers, accounting and termination of its threads, and the guarantees
  above carried up to requests. For the server: its dispatcher reads exactly the plan that the client relies on.
  For its connections, under every interleaving: no thread uses a destroyed object, the cleanup cannot deadlock, and the shutdown
  goes forward as far as the clients let it. For the API of the server, over all sequences of its calls: handles and objects agree and no bad pointer is followed, kernel mode
  means a connected driver, the kernel holds exactly the breakpoints that the engine lists. For its parts: both access objects
  deliver the readable prefix, mappings and symbols are read back as they were printed and laid out, no record of a
  ring buffer is lost. For client and server together: what is decoded is what was encoded, a read of an IPC client is answered
  with the readable bytes of the process, and what a client has written is what it reads later.

  \<^bold>\<open>Bounds and fuel.\<close> The loops of the code are functions with termination proofs, except two that take a
  number of rounds: \<open>list_processes\<close> of the IPC server, where 66 rounds are shown to be enough because the protocol limits a
  list to 65536 entries and a page holds 1000, and the worker of a connection, where the length of the input
  and one more round are enough because each round reads a byte. Loops of the server that may not end are partial functions with the
  value \<open>None\<close>: the draw of a new handle, the pages of \<open>ReadBratchMemory\<close>, which do not end when the range ends in the last page,
  and the chain of a GNU hash table.

  \<^bold>\<open>Not modelled.\<close> The client is one thread at a time: locks are calls that may fail, and the only interleavings are those of
  \<open>DeviceSession\<close>, \<open>AppContext\<close> and \<open>IpcQueue\<close>, and \<open>ConnectionManager\<close> for the server. The API of the server runs one call at a time, and its background threads
  are the steps that they take. The system calls and the kernel module are parameters, as are \<open>__cxa_demangle\<close>, JSON texts (\<open>nlohmann::json\<close>), \<open>strerror\<close>
  and the Lua engine. The tracer and its \<open>ptrace\<close> helpers, the shared queue, physical maps of the driver, socket options,
  windows, rendering, scripts, crash handlers, log lines and the Python proxy are left out.
\<close>

section \<open>Examples of the composed program\<close>

declare run_state_bind [simp]

text \<open>
  A network that accepts everything and delivers the bytes of its state, and a client with an
  attached process. They serve as the concrete inputs of the examples below.
\<close>

definition demo_os :: "bytes SocketOs" where
  "demo_os =
     \<lparr>os_send = (\<lambda>_ data. State_Monad.return (int (length data))),
      os_recv = (\<lambda>_ n. State (\<lambda>inbox. (Some (take n inbox), drop n inbox))),
      os_connect = (\<lambda>_ _ _. State_Monad.return True),
      os_lockTransaction = (\<lambda>_. State_Monad.return True),
      os_lockRequest = (\<lambda>_. State_Monad.return True),
      os_localtime = (\<lambda>_. State_Monad.return None),
      os_now = State_Monad.return 0,
      os_loadToken = (\<lambda>_. State_Monad.return False)\<rparr>"

definition demo_client :: "bytes \<Rightarrow> bytes ClientWorld" where
  "demo_client inbox =
     \<lparr>cw_env = inbox, cw_session = \<lparr>ds_state = Connected, ds_generation = 1\<rparr>,
      cw_app = \<lparr>ac_selectedPid = 42, ac_processHandle = 1, ac_processRevision = 2,
        ac_selectedName = ''init'', ac_moduleCache =
          \<lparr>mc_modules = [], mc_symbols = Map.empty, mc_valid = False, mc_lastRefreshTime = 0\<rparr>\<rparr>,
      cw_open = (\<lambda>_. True), cw_stream = (\<lambda>_. []), cw_delivered = (\<lambda>_. []), cw_tracked = []\<rparr>"

definition demo_write :: MemoryWriteRequest where
  "demo_write = \<lparr>wq_address = 0x1000, wq_bytes = [1, 2, 3]\<rparr>"

lemma demo_os_sel [simp]:
  "os_send demo_os p data = State_Monad.return (int (length data))"
  "os_recv demo_os p n = State (\<lambda>inbox. (Some (take n inbox), drop n inbox))"
  "os_connect demo_os host port p = State_Monad.return True"
  "os_lockTransaction demo_os p = State_Monad.return True"
  "os_lockRequest demo_os p = State_Monad.return True"
  "os_now demo_os = State_Monad.return 0" "os_loadToken demo_os t = State_Monad.return False"
  by (simp_all add: demo_os_def)

lemma demo_Send [simp]:
  "cw_open w p \<Longrightarrow> run_state (Send demo_os p data) w =
     (True, w\<lparr>cw_stream := (cw_stream w)(p := cw_stream w p @ data)\<rparr>)"
  by (cases "data = []")
    (simp_all add: Send_def sendLoop.simps [of demo_os p data] sendLoop.simps [of demo_os p "[]"]
      on_env_def acceptBytes_def)

lemma demo_Receive [simp]:
  "cw_open w p \<Longrightarrow> n \<le> length (cw_env w) \<Longrightarrow>
     run_state (Receive demo_os p n) w = (Some (take n (cw_env w)), w\<lparr>cw_env := drop n (cw_env w)\<rparr>)"
  by (cases "n = 0")
    (auto simp: Receive_def recvLoop.simps [of demo_os p n "[]"] recvLoop.simps [of demo_os p 0 xs for xs]
      on_env_def)

lemmas demo_run = send_or_def recv_or_def execute_def executeNoHandle_def ExecuteRequestWithLock_def
  TransactionLease_def acquireLease_def leaseCurrent_def EnsureOpenHandle_def on_env_def
  AcquireRequest_def isCurrent_def withContext_def contextMatches_def
  validateContext_def validateConnection_def validateTarget_def cancelRequested_def
  deadlineExpired_def

lemma demo_client_sel [simp]:
  "cw_open (demo_client inbox) p" "cw_env (demo_client inbox) = inbox"
  "cw_stream (demo_client inbox) p = []" "cw_delivered (demo_client inbox) p = []"
  "ac_processHandle (cw_app (demo_client inbox)) = 1"
  by (simp_all add: demo_client_def)

lemma demo_effects [simp]: "device_effects (demo_client inbox) p = []"
  by (simp add: device_effects_def)

lemma demo_stream_inv: "stream_inv (demo_client inbox)"
  by (simp add: stream_inv_def)

lemmas demo_eval = demo_run demo_client_def rest_context_def rest_target_def return_if_error_def
  i32_at_def u32_at_def u64_at_def snapshotTarget_def isAttached_def IsConnected_def IsPoisoned_def
  matchesStableTarget_def matchesLoads_def

section \<open>Writes\<close>

lemma write_delivered_once:
  assumes "run_state (writeMemory (systemBackend os) ctx req) w = (Success r, w')" "stream_inv w"
  shows "\<exists>t. oc_target ctx = Some t \<and> device_effects w' = (device_effects w)
    (PORT_MAIN := device_effects w PORT_MAIN @
      [write_request (ts_processHandle t) (wq_address req) (wq_bytes req)])"
proof -
  from sys.writeMemory_success_request [OF assms] obtain w1 io w2 where
    w1: "run_state (sys_writeMemory os ctx (wq_address req) (wq_bytes req)) w1 = (io, w2)"
      "wb_responseReceived io" "stream_inv w1" and
    "device_effects w1 = device_effects w" "device_effects w' = device_effects w2"
    by auto
  with sys_writeMemory_confirmed [OF w1] show ?thesis by simp
qed

text \<open>
  A write that succeeds reaches the device exactly once. When the service reports success over
  the real backend, whatever the network did with the bytes (short sends, delays, short
  receives), the requests that the server has found in the streams are those from before and
  one more mutating request: the write of exactly these bytes at exactly this address, with the
  handle of the process that the caller's context names.
\<close>

theorem system_write_delivered_once:
  assumes "run_state (writeMemory (systemBackend os) ctx req) w = (Success r, w')" "stream_inv w"
  shows "\<exists>t. oc_target ctx = Some t \<and> device_effects w' = (device_effects w)
    (PORT_MAIN := device_effects w PORT_MAIN @
      [write_request (ts_processHandle t) (wq_address req) (wq_bytes req)])"
  using assms by (rule write_delivered_once)

theorem system_write_delivered_once_witness:
  "\<exists>r w'. run_state (writeMemory (systemBackend demo_os) rest_context demo_write)
       (demo_client [3, 0, 0, 0]) = (Success r, w') \<and>
     device_effects w' PORT_MAIN = [write_request 1 0x1000 [1, 2, 3]]"
proof -
  obtain r w' where run: "run_state (writeMemory (systemBackend demo_os) rest_context demo_write)
       (demo_client [3, 0, 0, 0]) = (Success r, w')"
    by (simp add: writeMemory_def sys_writeMemory_def WriteProcessMemoryDetailed_def
        isValidReadSize_def demo_write_def kMaxMemoryWriteBytes_def demo_eval)
  from system_write_delivered_once [OF run demo_stream_inv] run show ?thesis
    by (auto simp: demo_write_def rest_target_def)
qed

text \<open>
  A write may be retried when the service says so. When a write over the real backend fails with
  a retryable error, then the device has been asked to change nothing: no mutating request
  went out as a whole, on any port, and every open stream is still in order.
\<close>

theorem system_write_retry_safe:
  assumes "run_state (writeMemory (systemBackend os) ctx req) w = (Failure e, w')"
    and "stream_inv w" and "er_retryable e"
  shows "device_effects w' = device_effects w \<and> stream_inv w'"
  using sys.writeMemory_retry_safe [OF assms(1,2)] assms(3) by simp

definition demo_closed :: "bytes ClientWorld" where
  "demo_closed = (demo_client [])\<lparr>cw_open := (\<lambda>_. False)\<rparr>"

lemma demo_closed_inv: "stream_inv demo_closed"
  by (simp add: stream_inv_def demo_closed_def)

theorem system_write_retry_safe_witness:
  "\<exists>e w'. run_state (writeMemory (systemBackend demo_os) rest_context demo_write) demo_closed =
       (Failure e, w') \<and> er_retryable e \<and> device_effects w' = device_effects demo_closed"
proof -
  obtain e w' where run: "run_state (writeMemory (systemBackend demo_os) rest_context demo_write)
      demo_closed = (Failure e, w')" and "er_retryable e"
    by (simp add: writeMemory_def sys_writeMemory_def WriteProcessMemoryDetailed_def
        isValidReadSize_def demo_write_def kMaxMemoryWriteBytes_def demo_eval demo_closed_def
        failure_def mkError_def)
  with system_write_retry_safe [OF run demo_closed_inv] show ?thesis by blast
qed

section \<open>Breakpoints\<close>

text \<open>
  A breakpoint operation that succeeds reaches the device exactly once: one request with the opcode
  of the action, the handle of the process that the context names, the address, and for \<open>set\<close>
  the access and the size of the request.
\<close>

theorem system_breakpoint_delivered_once:
  assumes "run_state (mutateBreakpoint (systemBackend os) ctx a action setReq) s = (Success r, s')"
    and "stream_inv (bp_world s)"
  shows "\<exists>t. oc_target ctx = Some t \<and> device_effects (bp_world s') =
    (device_effects (bp_world s))(PORT_MAIN := device_effects (bp_world s) PORT_MAIN @
      [action_request action setReq (ts_processHandle t) a])"
proof -
  from sys.mutateBreakpoint_success_request [OF assms] obtain w1 io w2 where
    w1: "run_state (mutateOnBackend (systemBackend os) ctx a action setReq) w1 = (io, w2)"
      "bmb_responseReceived io" "stream_inv w1" and
    "device_effects w1 = device_effects (bp_world s)" "device_effects (bp_world s') = device_effects w2"
    by auto
  with mutateOnBackend_confirmed [OF w1] show ?thesis by simp
qed

definition demo_service :: "bytes ClientWorld \<Rightarrow> bytes ClientWorld BreakpointServiceState" where
  "demo_service w = \<lparr>bp_world = w, bp_counterTarget = rest_target, bp_hitTotals = Map.empty\<rparr>"

lemma bp_world_demo [simp]: "bp_world (demo_service w) = w"
  by (simp add: demo_service_def)

lemma run_on_world_eq:
  "run_state (on_world m) s =
     (case run_state m (bp_world s) of (a, w') \<Rightarrow> (a, s\<lparr>bp_world := w'\<rparr>))"
  by (simp add: on_world_def)

lemmas demo_breakpoint = mutateBreakpoint_def mutateOnBackend_def sys_setBreakpoint_def
  SetKernelBreakpointTracked_def mutateBreakpointTracked_def sendCommandWithHandle_def
  isValidBreakpointType_def isValidBreakpointSize_def toBreakpointBackendResult_def
  trackBreakpointAddress_def run_on_world_eq countersFor_def demo_service_def

theorem system_breakpoint_delivered_once_witness:
  "\<exists>r s'. run_state (mutateBreakpoint (systemBackend demo_os) rest_context 0x4000 BpSet
         (Some \<lparr>bsq_address = 0x4000, bsq_access = 2, bsq_size = 4\<rparr>))
       (demo_service (demo_client [1, 0, 0, 0])) = (Success r, s') \<and>
     device_effects (bp_world s') PORT_MAIN =
       [13 # i32_bytes 1 @ u64_bytes 0x4000 @ u32_bytes 2 @ u32_bytes 4]"
proof -
  obtain r s' where run: "run_state (mutateBreakpoint (systemBackend demo_os) rest_context 0x4000 BpSet
         (Some \<lparr>bsq_address = 0x4000, bsq_access = 2, bsq_size = 4\<rparr>))
       (demo_service (demo_client [1, 0, 0, 0])) = (Success r, s')"
    by (simp add: demo_breakpoint demo_eval)
  have "stream_inv (bp_world (demo_service (demo_client [1, 0, 0, 0])))"
    by (simp add: demo_stream_inv)
  from system_breakpoint_delivered_once [OF run this] run show ?thesis
    by (auto simp: action_request_def breakpoint_request_def rest_target_def)
qed

text \<open>
  A breakpoint operation may be retried when the service says so: after a retryable failure no
  mutating request has gone out as a whole, and every open stream is in order.
\<close>

theorem system_breakpoint_retry_safe:
  assumes "run_state (mutateBreakpoint (systemBackend os) ctx a action setReq) s = (Failure e, s')"
    and "stream_inv (bp_world s)" and "er_retryable e"
  shows "device_effects (bp_world s') = device_effects (bp_world s) \<and> stream_inv (bp_world s')"
  using sys.mutateBreakpoint_retry_safe [OF assms(1,2)] assms(3) by simp

theorem system_breakpoint_retry_safe_witness:
  "\<exists>e s'. run_state (mutateBreakpoint (systemBackend demo_os) rest_context 0x4000 BpSet
         (Some \<lparr>bsq_address = 0x4000, bsq_access = 2, bsq_size = 4\<rparr>)) (demo_service demo_closed) =
       (Failure e, s') \<and> er_retryable e \<and>
     device_effects (bp_world s') = device_effects demo_closed"
proof -
  obtain e s' where run: "run_state (mutateBreakpoint (systemBackend demo_os) rest_context 0x4000 BpSet
         (Some \<lparr>bsq_address = 0x4000, bsq_access = 2, bsq_size = 4\<rparr>)) (demo_service demo_closed) =
       (Failure e, s')" and "er_retryable e"
    by (simp add: demo_breakpoint demo_eval demo_closed_def failure_def mkError_def)
  with system_breakpoint_retry_safe [OF run] show ?thesis by (auto simp: demo_closed_inv)
qed

text \<open>
  The UXN operations of the service over the real backend are safe to retry. Each of install,
  remove, resume and clear keeps the streams in order, and after a retryable failure no mutating
  request has gone out as a whole, with one exception: the device may itself report a timeout
  (Linux error 110), which the service passes on as retryable.
\<close>

theorem system_uxn_retry_safe:
  "retry_safe stream_inv device_effects (installUxnBreakpoint (systemBackend os) ctx ireq) \<and>
   retry_safe stream_inv device_effects (removeUxnBreakpoint (systemBackend os) ctx rreq) \<and>
   retry_safe stream_inv device_effects (resumeUxnBreakpoint (systemBackend os) ctx sreq) \<and>
   retry_safe stream_inv device_effects (clearUxnBreakpoints (systemBackend os) ctx)"
  by (intro conjI sys.installUxn_retry_safe sys.removeUxn_retry_safe sys.resumeUxn_retry_safe
      sys.clearUxn_retry_safe)

section \<open>The streams\<close>



text \<open>
  C33. A long symbol name is read as requests. The client sends symbol names of up to 65536
  characters, but the server reads the name only up to 4096. When a lookup of a longer name is
  answered, the server has found the bare header as one request, and goes on to read the bytes
  of the name as requests of their own, while the port stays open.
\<close>

theorem system_long_symbol_name_read_as_requests:
  assumes "run_state (SymbolFind os base name p) w = (Some a, w')"
    and "4096 < length name" and "stream_inv w"
  shows "completeRequests (cw_stream w' p) = completeRequests (cw_stream w p) @
    find_header (ac_processHandle (cw_app w)) base (length name) # completeRequests (bytes_of name)"
  using assms by (rule SymbolFind_long_name_sent)

lemma completeRequests_terminate:
  "completeRequests (replicate n CMD_TERMINATESERVER) = replicate n [CMD_TERMINATESERVER]"
  by (induction n)
    (simp_all add: completeRequests.simps [of "x # xs" for x xs] fixedSize_def variableSize_def)

lemma of_le_zeros [simp]: "of_le (replicate n 0) = 0"
  by (induction n) simp_all

lemma demo_find:
  assumes "0 < length name" "length name \<le> 65536"
  shows "\<exists>w'. run_state (SymbolFind demo_os base name PORT_MAIN) (demo_client (replicate 12 0)) =
    (Some 0, w') \<and> cw_open w' PORT_MAIN"
  using assms by (auto simp: SymbolFind_def demo_eval)

theorem system_long_symbol_name_read_as_requests_witness:
  "\<exists>w'. run_state (SymbolFind demo_os 0x7000 (replicate 5000 (CHR 0x02)) PORT_MAIN)
       (demo_client (replicate 12 0)) = (Some 0, w') \<and> cw_open w' PORT_MAIN \<and>
     completeRequests (cw_stream w' PORT_MAIN) =
       find_header 1 0x7000 5000 # replicate 5000 [CMD_TERMINATESERVER]"
proof -
  let ?name = "replicate 5000 (CHR 0x02)"
  have len: "length ?name = 5000" by (rule length_replicate)
  with demo_find [of ?name] obtain w' where
    run: "run_state (SymbolFind demo_os 0x7000 ?name PORT_MAIN) (demo_client (replicate 12 0)) =
      (Some 0, w')" "cw_open w' PORT_MAIN" by auto
  have "bytes_of ?name = replicate 5000 CMD_TERMINATESERVER"
    unfolding bytes_of_def map_replicate by simp
  moreover have "ac_processHandle (cw_app (demo_client x)) = 1" for x by (simp add: demo_client_def)
  moreover from len have "4096 < length ?name" by linarith
  note system_long_symbol_name_read_as_requests [OF run(1) this demo_stream_inv]
  ultimately show ?thesis
    using run len by (auto simp only: completeRequests_terminate demo_client_sel completeRequests_Nil append_Nil)
qed

section \<open>IPC requests\<close>

definition demo_library :: "'w IpcLibrary" where
  "demo_library =
     \<lparr>li_parse = (\<lambda>_. Inl []), li_dump = (\<lambda>_. []), li_what = (\<lambda>_. []), li_errorText = (\<lambda>_. []),
      li_luaInitialize = State_Monad.return (False, []),
      li_luaExecute = (\<lambda>_ _. State_Monad.return (False, [], []))\<rparr>"

definition demo_ipc :: "bytes ClientWorld \<Rightarrow> bytes ClientWorld IpcState" where
  "demo_ipc w = \<lparr>ip_service = demo_service w, ip_legacySymbolTable = None\<rparr>"

definition demo_request :: "string \<Rightarrow> (string \<times> json) list \<Rightarrow> json" where
  "demo_request route params = JObject [(''method'', JString route), (''params'', JObject params)]"

lemma asks_demo [simp]: "asks_for (demo_request route params) m \<longleftrightarrow> m = route"
  by (auto simp: asks_for_def demo_request_def members_def)

lemma params_demo [simp]: "request_params (demo_request route params) = JObject params"
  by (simp add: request_params_def demo_request_def members_def)

lemma ip_service_demo [simp]: "ip_service (demo_ipc w) = demo_service w"
  by (simp add: demo_ipc_def)

lemma DispatchRequest_demo:
  "map_of (RegisterBuiltinMethods lib rounds be) route = Some handler \<Longrightarrow>
     run_state (DispatchRequest lib rounds be (demo_request route params)) s =
       (case run_state (handler (JObject params)) s of
          (Throws e, s') \<Rightarrow> (Returns (errorReply (utf8 [0xE6, 0x89, 0xA7, 0xE8, 0xA1, 0x8C, 0xE9, 0x94, 0x99,
             0xE8, 0xAF, 0xAF] @ '': '' @ li_what lib e)), s')
        | (r, s') \<Rightarrow> (r, s'))"
  by (auto simp: DispatchRequest_def demo_request_def members_def is_object_def answer_def
      split: prod.split outcome.split)

lemma run_call_eq:
  "run_state (call m) s = (case run_state m (ipc_world s) of
     (a, w') \<Rightarrow> (a, s\<lparr>ip_service := ip_service s\<lparr>bp_world := w'\<rparr>\<rparr>))"
  by (simp add: call_def on_service_def on_world_def split: prod.split)

lemmas demo_write_eval = write_memory_def parsed_def ParseAddress_def at_key_def is_object_def members_def
  getStringParam_def isBlankString_def isspace_def HexToBytes_def HexNibble_def bind_throws_def
  kMaxRequestBytes_def kMaxIpcMemoryTransferBytes_def run_call_eq captureContext_system respond_def answer_def
  writeMemory_def sys_writeMemory_def WriteProcessMemoryDetailed_def isValidReadSize_def
  kMaxMemoryWriteBytes_def Let_def demo_service_def snapshotTarget_def successReply_def

text \<open>
  C3. An IPC client's write reaches the device exactly once. When the server answers a \<open>write_memory\<close>
  request with success, over any network, then the device has found exactly one more mutating
  request than before: the write of the bytes that the hexadecimal text of the request denotes, at
  the address that the request names, in the process that was selected when the request came in.
\<close>

theorem ipc_write_delivered_once:
  assumes run: "run_state (DispatchRequest lib rounds (systemBackend os) request) s = (Returns j, s')"
    and request: "asks_for request ''write_memory''"
    and success: "members j ''success'' = Some (JBool True)"
    and inv: "stream_inv (ipc_world s)"
  shows "\<exists>addr hexStr bytes.
    ParseAddress (request_params request) ''address'' = Inr addr \<and>
    members (request_params request) ''hex'' = Some (JString hexStr) \<and> HexToBytes hexStr = Inr bytes \<and>
    device_effects (ipc_world s') = (device_effects (ipc_world s))
      (PORT_MAIN := device_effects (ipc_world s) PORT_MAIN @
        [write_request (ac_processHandle (cw_app (ipc_world s))) addr bytes])"
proof -
  have no: "members (errorReply m) ''success'' \<noteq> Some (JBool True)" for m
    by (simp add: errorReply_def members_def)
  have "run_state (write_memory (systemBackend os) (request_params request)) s = (Returns j, s')"
    using run by (rule DispatchRequestE)
      (use request success no in \<open>auto simp: asks_for_def RegisterBuiltinMethods_def\<close>)
  then show ?thesis
    using success
  proof (rule write_memory_success)
    fix addr hexStr bytes ctx r w1
    assume ctx: "run_state (captureContext (systemBackend os) True) (ipc_world s) = (ctx, w1)"
      and wrote: "run_state (writeMemory (systemBackend os) ctx \<lparr>wq_address = addr, wq_bytes = bytes\<rparr>) w1 =
        (Success r, ipc_world s')"
      and parsed: "ParseAddress (request_params request) ''address'' = Inr addr"
        "members (request_params request) ''hex'' = Some (JString hexStr)" "HexToBytes hexStr = Inr bytes"
    from ctx have w1: "w1 = ipc_world s" and
      t: "oc_target ctx = Some (snapshotTarget (ds_generation (cw_session w1)) (cw_app w1))"
      unfolding captureContext_system by auto
    from write_delivered_once [OF wrote] inv w1 t parsed show ?thesis
      by (auto simp: snapshotTarget_def)
  qed
qed

abbreviation demo_write_params :: "(string \<times> json) list" where
  "demo_write_params \<equiv> [(''address'', JUnsigned 0x1000), (''hex'', JString ''010203'')]"

lemma demo_write_run:
  "\<exists>j s'. run_state (DispatchRequest demo_library 0 (systemBackend demo_os)
         (demo_request ''write_memory'' demo_write_params)) (demo_ipc (demo_client [3, 0, 0, 0])) =
       (Returns j, s') \<and> members j ''success'' = Some (JBool True)"
proof -
  have "map_of (RegisterBuiltinMethods demo_library 0 (systemBackend demo_os)) ''write_memory'' =
      Some (write_memory (systemBackend demo_os))" by (simp add: RegisterBuiltinMethods_def)
  note d = DispatchRequest_demo [OF this, of demo_write_params]
  show ?thesis unfolding d by (simp add: demo_write_eval demo_eval)
qed

theorem ipc_write_delivered_once_witness:
  "\<exists>j s'. run_state (DispatchRequest demo_library 0 (systemBackend demo_os)
         (demo_request ''write_memory'' demo_write_params)) (demo_ipc (demo_client [3, 0, 0, 0])) =
       (Returns j, s') \<and> device_effects (ipc_world s') PORT_MAIN = [write_request 1 0x1000 [1, 2, 3]]"
proof -
  from demo_write_run obtain j s' where run: "run_state (DispatchRequest demo_library 0 (systemBackend demo_os)
         (demo_request ''write_memory'' demo_write_params)) (demo_ipc (demo_client [3, 0, 0, 0])) =
       (Returns j, s')" and ok: "members j ''success'' = Some (JBool True)" by blast
  have "HexToBytes ''010203'' = Inr [1, 2, 3]"
    by (simp add: HexToBytes_def isspace_def Let_def HexNibble_def)
  with ipc_write_delivered_once [OF run _ ok] run show ?thesis
    by (auto simp: demo_stream_inv ParseAddress_def at_key_def is_object_def members_def)
qed



text \<open>
  C18. The methods that read do not change the device: whatever their parameters are, and whether they succeed or
  fail, no mutating request goes out.
\<close>

theorem ipc_queries_harmless:
  assumes "run_state (DispatchRequest lib rounds (systemBackend os) request) s = (r, s')"
    and "asks_for request route"
    and "route \<in> {''get_status'', ''get_version'', ''get_architecture'', ''list_processes'', ''list_modules'',
      ''read_memory'', ''read_batch'', ''read_bp_info'', ''query_hwbp_slots'', ''uxn_wait'', ''uxn_status'',
      ''get_module_base'', ''resolve_offset_chain'', ''symbol_init'', ''symbol_list'', ''symbol_find''}"
    and "stream_inv (ipc_world s)"
  shows "device_effects (ipc_world s') = device_effects (ipc_world s)"
proof -
  have "\<not> asks_for request m" if "m \<in> {''open_process'', ''write_memory'', ''set_breakpoint'',
      ''remove_breakpoint'', ''suspend_breakpoint'', ''resume_breakpoint'', ''uxn_install'', ''uxn_remove'',
      ''uxn_resume'', ''uxn_clear'', ''execute_lua''}" for m
    using that assms(2,3) unfolding asks_for_def by auto
  from keepsD [OF sysq.DispatchRequest_query [OF this] assms(1,4)] show ?thesis by simp
qed

theorem ipc_queries_harmless_witness:
  "device_effects (ipc_world (snd (run_state (DispatchRequest demo_library 0 (systemBackend demo_os)
       (demo_request ''get_status'' [])) (demo_ipc (demo_client []))))) = device_effects (demo_client [])"
  using ipc_queries_harmless [where s = "demo_ipc (demo_client [])" and request = "demo_request ''get_status'' []"
      and route = "''get_status''" and lib = demo_library and rounds = 0 and os = demo_os,
      OF prod.collapse [symmetric]]
  by (simp add: demo_stream_inv)



text \<open>
  C16. Every IPC request is answered. Over the real backend no loop of a handler runs without end, because
  the protocol limits a process list to 65536 entries: \<open>list_processes\<close> needs at most 66 pages.
\<close>

theorem ipc_always_answers:
  "\<exists>j s'. run_state (DispatchRequest lib 66 (systemBackend os) request) s = (Returns j, s')"
proof -
  obtain r s' where run: "run_state (DispatchRequest lib 66 (systemBackend os) request) s = (r, s')" by fastforce
  then have "\<exists>j. r = Returns j"
  proof (cases rule: DispatchRequestE)
    case (3 route handler)
    show ?thesis
    proof (cases "route = ''list_processes''")
      case True
      with 3 list_processes_ends [of os "request_params request" s] show ?thesis
        by (cases r) (auto simp: list_processes_registered)
    next
      case False
      with repliesD [OF handler_replies [OF 3(2)] 3(3)] 3(4) show ?thesis by (cases r) auto
    qed
  qed simp_all
  with run show ?thesis by blast
qed

section \<open>From an IPC request to the device and back\<close>

definition demo_memory :: "u64 \<Rightarrow> u8" where
  "demo_memory a = (if a = 0x1000 then 0x7F else if a = 0x1001 then 0x45 else 0)"

definition put_bytes :: "u64 \<Rightarrow> bytes \<Rightarrow> (u64 \<Rightarrow> u8) \<Rightarrow> u64 \<Rightarrow> u8" where
  "put_bytes address data mem = foldl (\<lambda>m (i, b). m(address + of_nat i := b)) mem (enumerate 0 data)"

text \<open>A device that is one byte memory, whatever the handle.\<close>

definition memory_api :: "(u64 \<Rightarrow> u8) CApi" where
  "memory_api = null_api
     \<lparr>api_ReadProcessMemory := (\<lambda>_ address buf. State (\<lambda>mem.
        ((int (length buf), map (\<lambda>i. mem (address + of_nat i)) [0..<length buf]), mem))),
      api_WriteProcessMemory := (\<lambda>_ address data. State (\<lambda>mem.
        (int (length data), put_bytes address data mem)))\<rparr>"

lemma memory_api_healthy: "healthy memory_api"
  by (simp add: healthy_def memory_api_def null_api_def)

lemma demo_link_attached: "attached 1 (demo_link d)"
  using demo_link_ready(1) [of d] by (simp add: attached_def demo_link_def)

definition demo_ipc_link :: "(u64 \<Rightarrow> u8) Link ClientWorld IpcState" where
  "demo_ipc_link = \<lparr>ip_service = \<lparr>bp_world = demo_link demo_memory, bp_counterTarget = TargetSnapshot_default,
     bp_hitTotals = Map.empty\<rparr>, ip_legacySymbolTable = None\<rparr>"

lemma ipc_world_demo_link [simp]: "ipc_world demo_ipc_link = demo_link demo_memory"
  by (simp add: demo_ipc_link_def)

text \<open>
  An IPC client reads the memory of the target. With a client that has a process attached and a server
  that can send its answers, however the network cuts the bytes, a \<open>read_memory\<close> request is answered with the
  hexadecimal text of exactly the bytes that the driver read for the handle of the attached process at the
  address and for the size of the request; the connection is idle and in order afterwards, and the device is in
  the state that this one read left.
\<close>

theorem ipc_read_end_to_end:
  assumes "healthy api" "attached h (ipc_world s)" "linked PORT_MAIN (ipc_world s) [] [] d (ipc_world s)"
    and "asks_for request ''read_memory''" "is_object (request_params request)"
    and "ParseAddress (request_params request) ''address'' = Inr address"
    and "getPositiveSizeParam (request_params request) ''size'' 256 kMaxIpcMemoryTransferBytes = Inr n"
    and "unat address + unat n \<le> 2 ^ 64"
    and "run_state (api_ReadProcessMemory api (of_int h) address (replicate (unat n) 0)) d = ((got, buf), d')"
    and "length buf = unat n" "0 < got" "nat got \<le> unat n"
  shows "\<exists>s'. run_state (DispatchRequest lib rounds (systemBackend (link_os api chunk)) request) s =
      (Returns (successReply (JObject [(''hex'', JString (BytesToHex (take (nat got) buf))), (''size'', jsize (nat got))])), s') \<and>
    linked PORT_MAIN (ipc_world s) [] [] d' (ipc_world s')"
  using assms by (rule dispatch_read_end_to_end)

theorem ipc_read_end_to_end_witness:
  "\<exists>s'. run_state (DispatchRequest demo_library 0 (systemBackend (link_os memory_api (\<lambda>_. 3)))
       (demo_request ''read_memory'' [(''address'', JUnsigned 0x1000), (''size'', JUnsigned 2)])) demo_ipc_link =
     (Returns (successReply (JObject [(''hex'', JString ''7f45''), (''size'', jsize 2)])), s')"
proof -
  let ?request = "demo_request ''read_memory'' [(''address'', JUnsigned 0x1000), (''size'', JUnsigned 2)]"
  have p: "is_object (request_params ?request)" "ParseAddress (request_params ?request) ''address'' = Inr 0x1000"
    "getPositiveSizeParam (request_params ?request) ''size'' 256 kMaxIpcMemoryTransferBytes = Inr 2"
    by (simp_all add: is_object_def ParseAddress_def at_key_def members_def bind_throws_def getPositiveSizeParam_def
        positiveInteger_def kMaxIpcMemoryTransferBytes_def)
  have d: "run_state (api_ReadProcessMemory memory_api (of_int 1) 0x1000 (replicate (unat (2 :: u32)) 0)) demo_memory =
      ((2, [0x7F, 0x45]), demo_memory)"
    by (simp add: memory_api_def demo_memory_def upt_rec [of 0 2] upt_rec [of "Suc 0" 2])
  have hex: "BytesToHex [0x7F, 0x45] = ''7f45''" by code_simp
  have "attached 1 (ipc_world demo_ipc_link)"
    "linked PORT_MAIN (ipc_world demo_ipc_link) [] [] demo_memory (ipc_world demo_ipc_link)"
    by (simp_all add: demo_link_attached demo_link_ready)
  from ipc_read_end_to_end [OF memory_api_healthy this _ p _ d, of demo_library 0 "\<lambda>_. 3"] show ?thesis
    by (auto simp: hex)
qed

text \<open>
  An IPC client writes the memory of the target. Under the same conditions, a \<open>write_memory\<close> request of at most 64 KiB
  calls the driver's write exactly once, for the handle of the attached process, at the address of the request
  and with the bytes that its hexadecimal text denotes, and the answer says that all of them were written when
  the driver said so.
\<close>

theorem ipc_write_end_to_end:
  assumes "healthy api" "attached h (ipc_world s)" "linked PORT_MAIN (ipc_world s) [] [] d (ipc_world s)"
    and "asks_for request ''write_memory''" "is_object (request_params request)"
    and "ParseAddress (request_params request) ''address'' = Inr address"
    and "getStringParam (request_params request) ''hex'' [] True False kMaxRequestBytes = Inr hexStr"
    and "HexToBytes hexStr = Inr data" "data \<noteq> []" "length data \<le> unat kMaxIpcMemoryTransferBytes"
    and "unat address + length data \<le> 2 ^ 64"
    and "run_state (api_WriteProcessMemory api (of_int h) address data) d = (int (length data), d')"
  shows "\<exists>s'. run_state (DispatchRequest lib rounds (systemBackend (link_os api chunk)) request) s =
      (Returns (successReply (JObject [(''written'', ju32 (of_nat (length data)))])), s') \<and>
    linked PORT_MAIN (ipc_world s) [] [] d' (ipc_world s')"
  using assms by (rule dispatch_write_end_to_end)

theorem ipc_write_end_to_end_witness:
  "\<exists>s'. run_state (DispatchRequest demo_library 0 (systemBackend (link_os memory_api (\<lambda>_. 3)))
       (demo_request ''write_memory'' demo_write_params)) demo_ipc_link =
     (Returns (successReply (JObject [(''written'', ju32 3)])), s') \<and>
     lk_device (cw_env (ipc_world s')) = demo_memory(0x1000 := 1, 0x1001 := 2, 0x1002 := 3)"
proof -
  let ?request = "demo_request ''write_memory'' demo_write_params"
  have p: "is_object (request_params ?request)" "ParseAddress (request_params ?request) ''address'' = Inr 0x1000"
    "getStringParam (request_params ?request) ''hex'' [] True False kMaxRequestBytes = Inr ''010203''"
    "HexToBytes ''010203'' = Inr [1, 2, 3]"
    by (simp_all add: is_object_def ParseAddress_def at_key_def members_def bind_throws_def getStringParam_def
        isBlankString_def isspace_def kMaxRequestBytes_def HexToBytes_def Let_def HexNibble_def)
  have d: "run_state (api_WriteProcessMemory memory_api (of_int 1) 0x1000 [1, 2, 3]) demo_memory =
      (int (length [1, 2, 3 :: u8]), demo_memory(0x1000 := 1, 0x1001 := 2, 0x1002 := 3))"
    by (simp add: memory_api_def put_bytes_def)
  have "attached 1 (ipc_world demo_ipc_link)"
    "linked PORT_MAIN (ipc_world demo_ipc_link) [] [] demo_memory (ipc_world demo_ipc_link)"
    by (simp_all add: demo_link_attached demo_link_ready)
  from ipc_write_end_to_end [OF memory_api_healthy this _ p _ _ _ d, of demo_library 0 "\<lambda>_. 3"] show ?thesis
    by (auto simp: kMaxIpcMemoryTransferBytes_def linked_def)
qed

section \<open>Down to the system calls\<close>

definition device_api :: "'k Os \<Rightarrow> 'k Device CApi" where
  "device_api os = server_api os (\<lambda>data. State_Monad.return (length data)) (\<lambda>n. State_Monad.return (replicate n 0))"

lemma device_api_healthy: "healthy (device_api os)"
  by (simp add: healthy_def device_api_def server_api_def)

text \<open>
  C1. An IPC client reads the memory of the process, through both programs. A \<open>read_memory\<close> request to the client, with a process attached
  and with the server and its API behind the sockets, is answered with the hexadecimal text of the readable prefix of the requested range: the
  bytes of the memory of the process from the address on, up to the first one that cannot be read. This holds for both engines (system
  calls and driver), whose kernel reads within a page what is readable there, and however the network cuts the bytes. The connection is idle
  afterwards and the process has the same memory.
\<close>

theorem ipc_reads_process_memory:
  assumes "attached h (ipc_world s)" "linked PORT_MAIN (ipc_world s) [] [] dev (ipc_world s)"
    and "asks_for request ''read_memory''" "is_object (request_params request)"
    and "ParseAddress (request_params request) ''address'' = Inr address"
    and "getPositiveSizeParam (request_params request) ''size'' 256 kMaxIpcMemoryTransferBytes = Inr n"
    and "address \<noteq> 0" "unat address + unat n \<le> 2 ^ 64"
    and "process_handle_open h dev" "memory_ready os P m (dv_engine dev)" "readable_prefix m address (unat n) \<noteq> []"
  shows "\<exists>s' e. run_state (DispatchRequest lib rounds (systemBackend (link_os (device_api os) chunk)) request) s =
      (Returns (successReply (JObject [(''hex'', JString (BytesToHex (readable_prefix m address (unat n)))),
         (''size'', jsize (length (readable_prefix m address (unat n))))])), s') \<and>
    linked PORT_MAIN (ipc_world s) [] [] (dev\<lparr>dv_engine := e\<rparr>) (ipc_world s') \<and> memory_ready os P m e"
  using read_reaches_device [OF device_api_healthy [unfolded device_api_def] assms] unfolding device_api_def .

text \<open>A client that is attached to the process of \<open>open_device\<close>.\<close>

definition device_world :: "'k Device \<Rightarrow> 'k Device Link ClientWorld" where
  "device_world dev = (demo_link dev)\<lparr>cw_app := (cw_app (demo_link dev))\<lparr>ac_processHandle := 10000\<rparr>\<rparr>"

definition device_ipc :: "'k Device \<Rightarrow> 'k Device Link ClientWorld IpcState" where
  "device_ipc dev = \<lparr>ip_service = \<lparr>bp_world = device_world dev, bp_counterTarget = TargetSnapshot_default, bp_hitTotals = Map.empty\<rparr>,
     ip_legacySymbolTable = None\<rparr>"

lemma device_ipc_ready:
  "attached 10000 (ipc_world (device_ipc dev))" "linked PORT_MAIN (ipc_world (device_ipc dev)) [] [] dev (ipc_world (device_ipc dev))"
  by (simp_all add: device_ipc_def device_world_def demo_link_def attached_def ready_def linked_def)

lemma demo_read_params:
  "is_object (JObject [(''address'', JUnsigned 0x1FFE), (''size'', JUnsigned 5)])"
  "ParseAddress (JObject [(''address'', JUnsigned 0x1FFE), (''size'', JUnsigned 5)]) ''address'' = Inr 0x1FFE"
  "getPositiveSizeParam (JObject [(''address'', JUnsigned 0x1FFE), (''size'', JUnsigned 5)]) ''size'' 256 kMaxIpcMemoryTransferBytes = Inr 5"
  by (simp_all add: is_object_def ParseAddress_def at_key_def members_def bind_throws_def getPositiveSizeParam_def
      positiveInteger_def kMaxIpcMemoryTransferBytes_def)

theorem ipc_reads_process_memory_witness:
  "\<exists>s'. run_state (DispatchRequest demo_library 0 (systemBackend (link_os (device_api memory_os) (\<lambda>_. 3)))
       (demo_request ''read_memory'' [(''address'', JUnsigned 0x1FFE), (''size'', JUnsigned 5)])) (device_ipc (open_device border_memory 42)) =
     (Returns (successReply (JObject [(''hex'', JString ''070707''), (''size'', jsize 3)])), s')"
proof -
  have hex: "BytesToHex [7, 7, 7] = ''070707''" by code_simp
  have prefix: "readable_prefix border_memory 0x1FFE (unat (5 :: u32)) = [7, 7, 7]" by (simp add: border_memory_def)
  then have "readable_prefix border_memory 0x1FFE (unat (5 :: u32)) \<noteq> []" by simp
  from ipc_reads_process_memory [OF device_ipc_ready, of
      "demo_request ''read_memory'' [(''address'', JUnsigned 0x1FFE), (''size'', JUnsigned 5)]",
      unfolded params_demo, OF _ demo_read_params _ _ open_device_handle open_device_ready this,
      where lib = demo_library and rounds = 0 and chunk = "\<lambda>_. 3"]
  show ?thesis unfolding prefix by (auto simp: hex)
qed


lemma memory_os_rw: "rw_memory memory_os (\<lambda>m k. k = m) (dv_engine (open_device m 42))"
proof -
  have "vm_writes memory_os pid (\<lambda>m k. k = m)" for pid
    by (auto simp: vm_writes_def memory_os_def stored_def fun_eq_iff)
  moreover have "\<exists>p < 64. os_pagesize memory_os = 2 ^ p" by (rule exI [of _ 12]) (simp add: memory_os_def null_os_def)
  ultimately show ?thesis by (simp add: rw_memory_def open_device_def AndroidMemorySys_new_def memory_os_reads)
qed


end
